(* ===== verification/VVM_Prelude.thy ===== *)
theory VVM_Prelude
  imports Complex_Main "HOL-Library.Word" "HOL-Library.Signed_Division"
begin

text \<open>
  Shared material of the VVMex development.

  \<^item> Errors: a C++ exception is the left side of a sum.  \<open>rbind\<close> runs one fallible
    call after another, \<open>throw_if\<close> is the guard \<open>if (b) throw e;\<close>.
  \<^item> Doubles: \<open>fp\<close> has the IEEE special values; finite arithmetic is carried out on
    real numbers and \<open>fl\<close> returns an infinity where the exact result leaves the range
    of a double.  Rounding inside the range is not modelled.
  \<^item> C++ integers: \<open>int\<close> and \<open>std::size_t\<close> values that stay small are \<open>int\<close>; the
    places where the width matters use words.  The C++ operators \<open>/\<close> and \<open>%\<close> truncate:
    \<open>sdiv\<close> and \<open>smod\<close> of the library.
\<close>

section \<open>Fallible computations\<close>

named_theorems result_simps \<open>equations for the result combinators\<close>

definition rbind :: "'e + 'a \<Rightarrow> ('a \<Rightarrow> 'e + 'b) \<Rightarrow> 'e + 'b" where
  "rbind m k = (case m of Inl e \<Rightarrow> Inl e | Inr x \<Rightarrow> k x)"

definition throw_if :: "bool \<Rightarrow> 'e \<Rightarrow> 'e + unit" where
  "throw_if b e = (if b then Inl e else Inr ())"

definition map_error :: "('e \<Rightarrow> 'f) \<Rightarrow> 'e + 'a \<Rightarrow> 'f + 'a" where
  "map_error g m = (case m of Inl e \<Rightarrow> Inl (g e) | Inr x \<Rightarrow> Inr x)"

fun rmap :: "('a \<Rightarrow> 'e + 'b) \<Rightarrow> 'a list \<Rightarrow> 'e + 'b list" where
  "rmap f [] = Inr []"
| "rmap f (x # xs) = rbind (f x) (\<lambda>y. rbind (rmap f xs) (\<lambda>ys. Inr (y # ys)))"

lemma rbind_Inl [simp, result_simps]: "rbind (Inl e) k = Inl e"
  by (simp add: rbind_def)

lemma rbind_Inr [simp, result_simps]: "rbind (Inr x) k = k x"
  by (simp add: rbind_def)

lemma rbind_eq_Inr_iff [result_simps]:
  "rbind m k = Inr y \<longleftrightarrow> (\<exists>x. m = Inr x \<and> k x = Inr y)"
  by (cases m) auto

lemma rbind_eq_Inl_iff:
  "rbind m k = Inl e \<longleftrightarrow> m = Inl e \<or> (\<exists>x. m = Inr x \<and> k x = Inl e)"
  by (cases m) auto

lemma rbind_InrE:
  assumes "rbind m k = Inr y"
  obtains x where "m = Inr x" and "k x = Inr y"
  using assms by (auto simp: rbind_eq_Inr_iff)

lemma throw_if_eq_Inr_iff [simp, result_simps]: "throw_if b e = Inr u \<longleftrightarrow> \<not> b"
  by (simp add: throw_if_def)

lemma throw_if_eq_Inl_iff [simp]: "throw_if b e = Inl f \<longleftrightarrow> b \<and> e = f"
  by (auto simp: throw_if_def)

lemma throw_if_True [simp]: "throw_if True e = Inl e"
  by (simp add: throw_if_def)

lemma throw_if_False [simp]: "throw_if False e = Inr ()"
  by (simp add: throw_if_def)

lemma map_error_eq_Inr_iff [simp, result_simps]: "map_error g m = Inr x \<longleftrightarrow> m = Inr x"
  by (cases m) (simp_all add: map_error_def)

lemma map_error_eq_Inl_iff:
  "map_error g m = Inl f \<longleftrightarrow> (\<exists>e. m = Inl e \<and> f = g e)"
  by (cases m) (auto simp: map_error_def)

lemma map_error_Inr [simp]: "map_error g (Inr x) = Inr x"
  by (simp add: map_error_def)

lemma map_error_Inl [simp]: "map_error g (Inl e) = Inl (g e)"
  by (simp add: map_error_def)

section \<open>Floating-point values\<close>

datatype fp = NaN | PosInf | NegInf | Fin (fval: real)

definition is_finite :: "fp \<Rightarrow> bool" where
  "is_finite x = (case x of Fin _ \<Rightarrow> True | _ \<Rightarrow> False)"

definition dbl_max :: real where
  "dbl_max = (2 ^ 53 - 1) * 2 ^ 971"

definition fl :: "real \<Rightarrow> fp" where
  "fl x = (if \<bar>x\<bar> \<le> dbl_max then Fin x else if 0 < x then PosInf else NegInf)"

text \<open>The comparisons \<open>a < b\<close> and \<open>a <= b\<close> of C++: false as soon as one side is a NaN.\<close>

fun fp_less :: "fp \<Rightarrow> fp \<Rightarrow> bool" where
  "fp_less NaN _ = False"
| "fp_less _ NaN = False"
| "fp_less PosInf _ = False"
| "fp_less _ NegInf = False"
| "fp_less NegInf _ = True"
| "fp_less _ PosInf = True"
| "fp_less (Fin a) (Fin b) = (a < b)"

fun fp_le :: "fp \<Rightarrow> fp \<Rightarrow> bool" where
  "fp_le NaN _ = False"
| "fp_le _ NaN = False"
| "fp_le NegInf _ = True"
| "fp_le _ PosInf = True"
| "fp_le PosInf _ = False"
| "fp_le _ NegInf = False"
| "fp_le (Fin a) (Fin b) = (a \<le> b)"

lemma is_finite_iff: "is_finite x \<longleftrightarrow> (\<exists>r. x = Fin r)"
  by (cases x) (simp_all add: is_finite_def)

lemma is_finite_simps [simp]:
  "is_finite (Fin r)" "\<not> is_finite NaN" "\<not> is_finite PosInf" "\<not> is_finite NegInf"
  by (simp_all add: is_finite_def)

lemma is_finite_fl [simp]: "is_finite (fl x) \<longleftrightarrow> \<bar>x\<bar> \<le> dbl_max"
  by (simp add: fl_def)

lemma fl_eq_Fin_iff [simp]: "fl x = Fin r \<longleftrightarrow> \<bar>x\<bar> \<le> dbl_max \<and> x = r"
  by (auto simp: fl_def)

lemma dbl_max_ge: "x \<le> 2 ^ 1000 \<Longrightarrow> x \<le> dbl_max"
  by (simp add: dbl_max_def)

definition finite_positive :: "fp \<Rightarrow> bool" where
  "finite_positive x \<longleftrightarrow> is_finite x \<and> \<not> fp_le x (Fin 0)"

lemma finite_positive_iff [simp]: "finite_positive x \<longleftrightarrow> (\<exists>r. x = Fin r \<and> 0 < r)"
  by (cases x) (auto simp: finite_positive_def)

section \<open>C++ integers\<close>

text \<open>Truncating division and remainder agree with \<open>div\<close> and \<open>mod\<close> on the values the
  grid code divides.\<close>

lemma sdiv_nonneg: "0 \<le> (a::int) \<Longrightarrow> 0 < b \<Longrightarrow> a sdiv b = a div b"
  by (cases "a = 0") (simp_all add: signed_divide_int_def)

lemma smod_nonneg: "0 \<le> (a::int) \<Longrightarrow> 0 < b \<Longrightarrow> a smod b = a mod b"
  by (cases "a = 0") (simp_all add: signed_modulo_int_def)

text \<open>\<open>static_cast<int>\<close> of a wider integer keeps the low 32 bits as two's complement.\<close>

definition to_int32 :: "int \<Rightarrow> int" where
  "to_int32 x = signed_take_bit 31 x"

lemma to_int32_range: "- (2 ^ 31) \<le> to_int32 x \<and> to_int32 x < 2 ^ 31"
  unfolding to_int32_def
  using signed_take_bit_int_greater_eq_minus_exp [of 31 x] signed_take_bit_int_less_exp [of 31 x]
  by simp

lemma to_int32_id: "- (2 ^ 31) \<le> x \<Longrightarrow> x < 2 ^ 31 \<Longrightarrow> to_int32 x = x"
  by (simp add: to_int32_def signed_take_bit_int_eq_self)

section \<open>Decimal numerals\<close>

definition is_digit :: "char \<Rightarrow> bool" where
  "is_digit c \<longleftrightarrow> 48 \<le> (of_char c :: nat) \<and> (of_char c :: nat) \<le> 57"

definition digit_char :: "nat \<Rightarrow> char" where
  "digit_char d = char_of (48 + d)"

definition digit_value :: "char \<Rightarrow> nat" where
  "digit_value c = of_char c - 48"

fun show_nat :: "nat \<Rightarrow> string" where
  "show_nat n = (if n < 10 then [digit_char n] else show_nat (n div 10) @ [digit_char (n mod 10)])"

declare show_nat.simps [simp del]

definition read_digits :: "string \<Rightarrow> nat" where
  "read_digits s = fold (\<lambda>c n. 10 * n + digit_value c) s 0"

lemma of_digit_char: "d < 10 \<Longrightarrow> (of_char (digit_char d) :: nat) = 48 + d"
  by (simp add: digit_char_def)

lemma is_digit_digit_char [simp]: "d < 10 \<Longrightarrow> is_digit (digit_char d)"
  by (simp add: is_digit_def of_digit_char)

lemma digit_value_digit_char [simp]: "d < 10 \<Longrightarrow> digit_value (digit_char d) = d"
  by (simp add: digit_value_def of_digit_char)

lemma read_digits_snoc: "read_digits (s @ [c]) = 10 * read_digits s + digit_value c"
  by (simp add: read_digits_def)

lemma show_nat_digits: "\<forall>c \<in> set (show_nat n). is_digit c"
proof (induction n rule: show_nat.induct)
  case (1 n)
  then show ?case by (subst show_nat.simps) auto
qed

lemma show_nat_nonempty: "show_nat n \<noteq> []"
  by (subst show_nat.simps) simp

lemma read_show_nat: "read_digits (show_nat n) = n"
proof (induction n rule: show_nat.induct)
  case (1 n)
  show ?case
  proof (cases "n < 10")
    case True
    then show ?thesis by (subst show_nat.simps) (simp add: read_digits_def)
  next
    case False
    with 1 show ?thesis by (subst show_nat.simps) (simp add: read_digits_snoc)
  qed
qed

section \<open>Lists\<close>

lemma filter_concat_map_single:
  assumes "distinct rs" and "r \<in> set rs"
    and "\<And>x. x \<in> set rs \<Longrightarrow> x \<noteq> r \<Longrightarrow> filter P (f x) = []"
  shows "filter P (concat (map f rs)) = filter P (f r)"
  using assms
proof (induction rs)
  case Nil
  then show ?case by simp
next
  case (Cons a rs)
  show ?case
  proof (cases "a = r")
    case True
    have "filter P (concat (map f rs)) = []"
      using Cons.prems True by (auto simp: filter_empty_conv)
    with True show ?thesis by simp
  next
    case False
    then show ?thesis using Cons by auto
  qed
qed

end
