(* ===== verification/Kernels.thy ===== *)
theory Kernels
  imports VVM_Prelude "HOL-Library.Multiset"
begin

text \<open>
  \<open>Kokkos::parallel_for\<close> and the fields it runs over.

  A kernel runs its body once for every index of its range, in an unspecified order.
  \<open>parallel_for\<close> runs the bodies one after another in the order of the list it is given;
  the locale \<open>kernel\<close> states when a kernel has no data race (no two work items write the
  same cell, no item reads a cell that another one writes), and shows what such a kernel
  computes and that the order of the work items does not matter.  \<open>kernel2\<close> is the shape
  most kernels of the program have: two assignments per work item, each possibly
  guarded by a condition that does not depend on the item.
\<close>

section \<open>Index ranges\<close>

text \<open>\<open>MDRangePolicy<Rank<n>>({a,..}, {b,..})\<close>: the indices from \<open>a\<close> up to, not
  including, \<open>b\<close> in every direction.\<close>

definition range1 :: "int \<Rightarrow> int \<Rightarrow> int list" where
  "range1 a b = [a..b - 1]"

definition mdrange2 :: "int \<Rightarrow> int \<Rightarrow> int \<Rightarrow> int \<Rightarrow> (int \<times> int) list" where
  "mdrange2 a0 a1 b0 b1 = List.product (range1 a0 b0) (range1 a1 b1)"

definition mdrange3 ::
  "int \<Rightarrow> int \<Rightarrow> int \<Rightarrow> int \<Rightarrow> int \<Rightarrow> int \<Rightarrow> (int \<times> int \<times> int) list" where
  "mdrange3 a0 a1 a2 b0 b1 b2 = List.product (range1 a0 b0) (mdrange2 a1 a2 b1 b2)"

definition mdrange4 ::
  "int \<Rightarrow> int \<Rightarrow> int \<Rightarrow> int \<Rightarrow> int \<Rightarrow> int \<Rightarrow> int \<Rightarrow> int \<Rightarrow> (int \<times> int \<times> int \<times> int) list" where
  "mdrange4 a0 a1 a2 a3 b0 b1 b2 b3 = List.product (range1 a0 b0) (mdrange3 a1 a2 a3 b1 b2 b3)"

named_theorems range_simps \<open>membership in and distinctness of index ranges\<close>

lemma in_range1 [range_simps]: "x \<in> set (range1 a b) \<longleftrightarrow> a \<le> x \<and> x < b"
  by (auto simp: range1_def)

lemma in_mdrange2 [range_simps]:
  "(x, y) \<in> set (mdrange2 a0 a1 b0 b1) \<longleftrightarrow> a0 \<le> x \<and> x < b0 \<and> a1 \<le> y \<and> y < b1"
  by (auto simp: mdrange2_def in_range1)

lemma in_mdrange3 [range_simps]:
  "(x, y, z) \<in> set (mdrange3 a0 a1 a2 b0 b1 b2) \<longleftrightarrow>
     a0 \<le> x \<and> x < b0 \<and> a1 \<le> y \<and> y < b1 \<and> a2 \<le> z \<and> z < b2"
  by (auto simp: mdrange3_def in_range1 in_mdrange2)

lemma in_mdrange4 [range_simps]:
  "(v, x, y, z) \<in> set (mdrange4 a0 a1 a2 a3 b0 b1 b2 b3) \<longleftrightarrow>
     a0 \<le> v \<and> v < b0 \<and> a1 \<le> x \<and> x < b1 \<and> a2 \<le> y \<and> y < b2 \<and> a3 \<le> z \<and> z < b3"
  by (auto simp: mdrange4_def in_range1 in_mdrange3)

lemma distinct_range1 [range_simps]: "distinct (range1 a b)"
  by (simp add: range1_def)

lemma distinct_mdrange2 [range_simps]: "distinct (mdrange2 a0 a1 b0 b1)"
  by (simp add: mdrange2_def distinct_product distinct_range1)

lemma distinct_mdrange3 [range_simps]: "distinct (mdrange3 a0 a1 a2 b0 b1 b2)"
  by (simp add: mdrange3_def distinct_product distinct_range1 distinct_mdrange2)

lemma distinct_mdrange4 [range_simps]: "distinct (mdrange4 a0 a1 a2 a3 b0 b1 b2 b3)"
  by (simp add: mdrange4_def distinct_product distinct_range1 distinct_mdrange3)

section \<open>Kernels\<close>

definition parallel_for :: "'i list \<Rightarrow> ('i \<Rightarrow> 's \<Rightarrow> 's) \<Rightarrow> 's \<Rightarrow> 's" where
  "parallel_for idxs body s = fold body idxs s"

lemma parallel_for_simps [simp]:
  "parallel_for [] f s = s"
  "parallel_for (x # xs) f s = parallel_for xs f (f x s)"
  by (simp_all add: parallel_for_def)

text \<open>One assignment per work item.\<close>

definition assign :: "('i \<Rightarrow> 'c) \<Rightarrow> ('i \<Rightarrow> ('c \<Rightarrow> 'v) \<Rightarrow> 'v) \<Rightarrow> 'i \<Rightarrow> ('c \<Rightarrow> 'v) \<Rightarrow> 'c \<Rightarrow> 'v" where
  "assign wr rd i d = d(wr i := rd i d)"

lemma parallel_for_frame:
  "c \<notin> wr ` set idxs \<Longrightarrow> parallel_for idxs (assign wr rd) d c = d c"
  by (induction idxs arbitrary: d) (simp_all add: assign_def)

locale kernel =
  fixes idxs :: "'i list" and wr :: "'i \<Rightarrow> 'c" and rd :: "'i \<Rightarrow> ('c \<Rightarrow> 'v) \<Rightarrow> 'v"
  assumes distinct_idxs: "distinct idxs"
    and inj_wr: "inj_on wr (set idxs)"
    and race_free: "\<And>i j d v. i \<in> set idxs \<Longrightarrow> j \<in> set idxs \<Longrightarrow> rd i (d(wr j := v)) = rd i d"
begin

lemma read_stable:
  "set js \<subseteq> set idxs \<Longrightarrow> i \<in> set idxs \<Longrightarrow> rd i (parallel_for js (assign wr rd) d) = rd i d"
  by (induction js arbitrary: d) (simp_all, simp add: assign_def race_free)

lemma result_gen:
  assumes "set js \<subseteq> set idxs" and "distinct js" and "i \<in> set js"
  shows "parallel_for js (assign wr rd) d (wr i) = rd i d"
  using assms
proof (induction js arbitrary: d)
  case Nil
  then show ?case by simp
next
  case (Cons a js)
  show ?case
  proof (cases "a = i")
    case True
    have "wr i \<notin> wr ` set js"
      using Cons.prems True by (auto dest: inj_onD [OF inj_wr])
    then have "parallel_for js (assign wr rd) (assign wr rd a d) (wr i) = assign wr rd a d (wr i)"
      by (rule parallel_for_frame)
    then have "parallel_for (a # js) (assign wr rd) d (wr i) = assign wr rd i d (wr i)"
      using True by simp
    also have "\<dots> = rd i d" by (simp add: assign_def)
    finally show ?thesis .
  next
    case False
    with Cons.prems have i: "i \<in> set js" "i \<in> set idxs" "a \<in> set idxs" by auto
    have "parallel_for (a # js) (assign wr rd) d (wr i) = rd i (assign wr rd a d)"
      using Cons i by simp
    also have "\<dots> = rd i d" using i by (simp add: assign_def race_free)
    finally show ?thesis .
  qed
qed

lemma result: "i \<in> set idxs \<Longrightarrow> parallel_for idxs (assign wr rd) d (wr i) = rd i d"
  by (rule result_gen) (auto simp: distinct_idxs)

lemma order_irrelevant:
  assumes "mset js = mset idxs"
  shows "parallel_for js (assign wr rd) d = parallel_for idxs (assign wr rd) d"
proof
  fix c
  have set_eq: "set js = set idxs" using assms by (metis set_mset_mset)
  have dist: "distinct js" using assms distinct_idxs by (metis mset_eq_imp_distinct_iff)
  show "parallel_for js (assign wr rd) d c = parallel_for idxs (assign wr rd) d c"
  proof (cases "c \<in> wr ` set idxs")
    case True
    then obtain i where i: "i \<in> set idxs" "c = wr i" by auto
    have "parallel_for js (assign wr rd) d (wr i) = rd i d"
      using dist set_eq i by (intro result_gen) auto
    with i show ?thesis by (simp add: result)
  next
    case False
    with set_eq show ?thesis by (simp add: parallel_for_frame)
  qed
qed

end

text \<open>Kernels that update cells in place: an item may also read the cell it writes.\<close>

locale update_kernel =
  fixes idxs :: "'i list" and wr :: "'i \<Rightarrow> 'c" and rd :: "'i \<Rightarrow> ('c \<Rightarrow> 'v) \<Rightarrow> 'v"
  assumes distinct_items: "distinct idxs"
    and inj_cells: "inj_on wr (set idxs)"
    and own_cell: "\<And>i j d v. i \<in> set idxs \<Longrightarrow> j \<in> set idxs \<Longrightarrow> i \<noteq> j \<Longrightarrow> rd i (d(wr j := v)) = rd i d"
begin

lemma update_stable:
  "set js \<subseteq> set idxs \<Longrightarrow> i \<in> set idxs - set js \<Longrightarrow> rd i (parallel_for js (assign wr rd) d) = rd i d"
proof (induction js arbitrary: d)
  case Nil
  show ?case by simp
next
  case (Cons a js)
  then have "rd i (assign wr rd a d) = rd i d" unfolding assign_def by (intro own_cell) auto
  with Cons show ?case by simp
qed

lemma update_result: "i \<in> set idxs \<Longrightarrow> parallel_for idxs (assign wr rd) d (wr i) = rd i d"
proof -
  assume i: "i \<in> set idxs"
  then obtain pre post where split: "idxs = pre @ i # post" by (auto dest: split_list)
  with distinct_items have "i \<notin> set pre" "i \<notin> set post" by auto
  have "wr i \<notin> wr ` set post"
    using \<open>i \<notin> set post\<close> inj_cells split by (auto dest: inj_onD)
  then have "parallel_for idxs (assign wr rd) d (wr i) = rd i (parallel_for pre (assign wr rd) d)"
    unfolding split by (simp add: parallel_for_def parallel_for_frame [unfolded parallel_for_def] assign_def)
  also have "\<dots> = rd i d"
    by (rule update_stable) (use split \<open>i \<notin> set pre\<close> in auto)
  finally show ?thesis .
qed

end

sublocale kernel \<subseteq> in_place: update_kernel idxs wr rd
  by unfold_locales (simp_all add: distinct_idxs inj_wr race_free)

text \<open>Two guarded assignments per work item, executed one after the other.\<close>

definition assign2 ::
  "bool \<Rightarrow> ('i \<Rightarrow> 'c) \<Rightarrow> ('i \<Rightarrow> ('c \<Rightarrow> 'v) \<Rightarrow> 'v) \<Rightarrow>
   bool \<Rightarrow> ('i \<Rightarrow> 'c) \<Rightarrow> ('i \<Rightarrow> ('c \<Rightarrow> 'v) \<Rightarrow> 'v) \<Rightarrow> 'i \<Rightarrow> ('c \<Rightarrow> 'v) \<Rightarrow> 'c \<Rightarrow> 'v" where
  "assign2 b1 wr1 rd1 b2 wr2 rd2 i d =
     (let d1 = (if b1 then d(wr1 i := rd1 i d) else d)
      in if b2 then d1(wr2 i := rd2 i d1) else d1)"

definition items2 :: "bool \<Rightarrow> bool \<Rightarrow> 'i list \<Rightarrow> ('i \<times> bool) list" where
  "items2 b1 b2 xs =
     concat (map (\<lambda>i. (if b1 then [(i, False)] else []) @ (if b2 then [(i, True)] else [])) xs)"

lemma items2_simps:
  "items2 b1 b2 [] = []"
  "items2 b1 b2 (x # xs) =
     (if b1 then [(x, False)] else []) @ (if b2 then [(x, True)] else []) @ items2 b1 b2 xs"
  by (simp_all add: items2_def)

lemma in_items2: "(i, s) \<in> set (items2 b1 b2 xs) \<longleftrightarrow> i \<in> set xs \<and> (if s then b2 else b1)"
  by (induction xs) (auto simp: items2_simps)

lemma distinct_items2: "distinct xs \<Longrightarrow> distinct (items2 b1 b2 xs)"
  by (induction xs) (auto simp: items2_simps in_items2)

lemma mset_items2:
  "mset (items2 b1 b2 xs) =
     (if b1 then image_mset (\<lambda>i. (i, False)) (mset xs) else {#}) +
     (if b2 then image_mset (\<lambda>i. (i, True)) (mset xs) else {#})"
  by (induction xs) (auto simp: items2_simps)

lemma parallel_for_assign2:
  "parallel_for xs (assign2 b1 wr1 rd1 b2 wr2 rd2) d =
   parallel_for (items2 b1 b2 xs)
     (assign (\<lambda>(i, s). if s then wr2 i else wr1 i) (\<lambda>(i, s). if s then rd2 i else rd1 i)) d"
proof (induction xs arbitrary: d)
  case Nil
  show ?case by (simp add: items2_simps)
next
  case (Cons x xs)
  then show ?case
    by (cases b1; cases b2) (simp_all add: items2_simps Let_def assign2_def [of _ _ _ _ _ _ x]
      assign_def [of _ _ "(x, _)"] del: fun_upd_apply)
qed

locale kernel2 =
  fixes idxs :: "'i list"
    and b1 :: bool and wr1 :: "'i \<Rightarrow> 'c" and rd1 :: "'i \<Rightarrow> ('c \<Rightarrow> 'v) \<Rightarrow> 'v"
    and b2 :: bool and wr2 :: "'i \<Rightarrow> 'c" and rd2 :: "'i \<Rightarrow> ('c \<Rightarrow> 'v) \<Rightarrow> 'v"
  assumes distinct2: "distinct idxs"
    and inj1: "inj_on wr1 (set idxs)" and inj2: "inj_on wr2 (set idxs)"
    and disj: "\<And>i j. b1 \<Longrightarrow> b2 \<Longrightarrow> i \<in> set idxs \<Longrightarrow> j \<in> set idxs \<Longrightarrow> wr1 i \<noteq> wr2 j"
    and free11: "\<And>i j d v. b1 \<Longrightarrow> i \<in> set idxs \<Longrightarrow> j \<in> set idxs \<Longrightarrow> rd1 i (d(wr1 j := v)) = rd1 i d"
    and free12: "\<And>i j d v. b1 \<Longrightarrow> b2 \<Longrightarrow> i \<in> set idxs \<Longrightarrow> j \<in> set idxs \<Longrightarrow> rd1 i (d(wr2 j := v)) = rd1 i d"
    and free21: "\<And>i j d v. b1 \<Longrightarrow> b2 \<Longrightarrow> i \<in> set idxs \<Longrightarrow> j \<in> set idxs \<Longrightarrow> rd2 i (d(wr1 j := v)) = rd2 i d"
    and free22: "\<And>i j d v. b2 \<Longrightarrow> i \<in> set idxs \<Longrightarrow> j \<in> set idxs \<Longrightarrow> rd2 i (d(wr2 j := v)) = rd2 i d"

sublocale kernel2 \<subseteq> flat: kernel "items2 b1 b2 idxs"
  "\<lambda>(i, s). if s then wr2 i else wr1 i" "\<lambda>(i, s). if s then rd2 i else rd1 i"
proof unfold_locales
  show "distinct (items2 b1 b2 idxs)"
    by (rule distinct_items2) (rule distinct2)
  show "inj_on (\<lambda>(i, s). if s then wr2 i else wr1 i) (set (items2 b1 b2 idxs))"
    by (rule inj_onI)
       (auto simp: in_items2 dest: inj_onD [OF inj1] inj_onD [OF inj2] disj disj [symmetric]
             split: if_splits)
next
  fix x y d v
  assume x: "x \<in> set (items2 b1 b2 idxs)" and y: "y \<in> set (items2 b1 b2 idxs)"
  obtain i s j t where ij: "x = (i, s)" "y = (j, t)" by (metis surj_pair)
  with x y have "i \<in> set idxs" "j \<in> set idxs" "if s then b2 else b1" "if t then b2 else b1"
    by (simp_all add: in_items2)
  then show "(case x of (i, s) \<Rightarrow> if s then rd2 i else rd1 i)
      (d((case y of (i, s) \<Rightarrow> if s then wr2 i else wr1 i) := v)) =
      (case x of (i, s) \<Rightarrow> if s then rd2 i else rd1 i) d"
    using ij by (cases s; cases t) (simp_all add: free11 free12 free21 free22)
qed

context kernel2
begin

abbreviation body2 where "body2 \<equiv> assign2 b1 wr1 rd1 b2 wr2 rd2"

lemma result1: "b1 \<Longrightarrow> i \<in> set idxs \<Longrightarrow> parallel_for idxs body2 d (wr1 i) = rd1 i d"
  using flat.result [of "(i, False)" d] by (simp add: parallel_for_assign2 in_items2)

lemma result2: "b2 \<Longrightarrow> i \<in> set idxs \<Longrightarrow> parallel_for idxs body2 d (wr2 i) = rd2 i d"
  using flat.result [of "(i, True)" d] by (simp add: parallel_for_assign2 in_items2)

lemma order_irrelevant2:
  assumes "mset js = mset idxs"
  shows "parallel_for js body2 d = parallel_for idxs body2 d"
proof -
  have "mset (items2 b1 b2 js) = mset (items2 b1 b2 idxs)"
    using assms by (simp add: mset_items2)
  then show ?thesis unfolding parallel_for_assign2 by (rule flat.order_irrelevant)
qed

end

lemma assign2_frame:
  assumes "\<And>i. i \<in> set idxs \<Longrightarrow> b1 \<Longrightarrow> wr1 i \<noteq> c" and "\<And>i. i \<in> set idxs \<Longrightarrow> b2 \<Longrightarrow> wr2 i \<noteq> c"
  shows "parallel_for idxs (assign2 b1 wr1 rd1 b2 wr2 rd2) d c = d c"
proof -
  have "c \<notin> (\<lambda>(i, s). if s then wr2 i else wr1 i) ` set (items2 b1 b2 idxs)"
    using assms by (force simp: in_items2 split: if_splits)
  then show ?thesis unfolding parallel_for_assign2 by (rule parallel_for_frame)
qed

text \<open>A kernel over two unrelated arrays is two kernels.\<close>

lemma parallel_for_pair:
  "parallel_for xs (\<lambda>i (s, t). (f i s, g i t)) (s, t) =
     (parallel_for xs f s, parallel_for xs g t)"
  by (induction xs arbitrary: s t) simp_all

text \<open>Kernels over arrays they do not read, and kernels that add to their own cell, in closed form.\<close>

lemma pointwise_kernel:
  "parallel_for cells (\<lambda>c a. if P c then a else a(c := f c)) a0 =
     (\<lambda>c. if c \<in> set cells \<and> \<not> P c then f c else a0 c)"
proof (induction cells arbitrary: a0)
  case Nil
  show ?case by simp
next
  case (Cons c cells)
  show ?case by (rule ext) (simp add: Cons)
qed

lemma pointwise_kernel2:
  "parallel_for cells (\<lambda>c a. if P c then a(c := e c) else a(c := f c)) a0 =
     (\<lambda>c. if c \<in> set cells then if P c then e c else f c else a0 c)"
proof (induction cells arbitrary: a0)
  case Nil
  show ?case by simp
next
  case (Cons c cells)
  show ?case by (rule ext) (simp add: Cons)
qed

lemma pointwise_kernel3:
  "parallel_for cells (\<lambda>c (x, y, z). if P c then (x, y, z)
       else (case f c of (a, b, d) \<Rightarrow> (x(c := a), y(c := b), z(c := d)))) (x0, y0, z0) =
     (\<lambda>c. if c \<in> set cells \<and> \<not> P c then fst (f c) else x0 c,
      \<lambda>c. if c \<in> set cells \<and> \<not> P c then fst (snd (f c)) else y0 c,
      \<lambda>c. if c \<in> set cells \<and> \<not> P c then snd (snd (f c)) else z0 c)"
proof (induction cells arbitrary: x0 y0 z0)
  case Nil
  show ?case by simp
next
  case (Cons c cells)
  obtain a b d where f: "f c = (a, b, d)" by (cases "f c")
  show ?case
  proof (cases "P c")
    case True
    then show ?thesis by (simp add: Cons fun_eq_iff)
  next
    case False
    then show ?thesis by (simp add: Cons f fun_eq_iff)
  qed
qed

lemma accumulate_kernel:
  "distinct cells \<Longrightarrow> parallel_for cells (\<lambda>c t. if P c then t else t(c := t c + f c)) t0 =
     (\<lambda>c. if c \<in> set cells \<and> \<not> P c then t0 c + f c else t0 c)"
proof (induction cells arbitrary: t0)
  case Nil
  show ?case by simp
next
  case (Cons c cells)
  then show ?case by (auto simp: fun_eq_iff)
qed

text \<open>A \<open>TeamPolicy\<close> over the columns \<open>(j, i)\<close> of a box: the league rank is split into the two indices, and
  the threads of a team run over the levels.\<close>

definition team_columns :: "int \<Rightarrow> int \<Rightarrow> int \<Rightarrow> int \<Rightarrow> (int \<times> int) list" where
  "team_columns j_start j_end i_start i_end =
     (let num_j = j_end - j_start; num_i = i_end - i_start in
      map (\<lambda>rank. (j_start + rank sdiv num_i, i_start + rank smod num_i)) (range1 0 (num_j * num_i)))"

definition team_parallel_for ::
  "(int \<times> int) list \<Rightarrow> int \<Rightarrow> int \<Rightarrow> (int \<times> int \<times> int \<Rightarrow> 's \<Rightarrow> 's) \<Rightarrow> 's \<Rightarrow> 's" where
  "team_parallel_for columns k_start k_end body s =
     parallel_for columns (\<lambda>(j, i) s. parallel_for (range1 k_start k_end) (\<lambda>k s. body (k, j, i) s) s) s"

lemma team_columns_props:
  assumes "i_start < i_end"
  shows "distinct (team_columns j_start j_end i_start i_end)"
    and "(j, i) \<in> set (team_columns j_start j_end i_start i_end) \<longleftrightarrow>
      j_start \<le> j \<and> j < j_end \<and> i_start \<le> i \<and> i < i_end"
proof -
  let ?n = "i_end - i_start" and ?m = "j_end - j_start"
  let ?f = "\<lambda>rank. (j_start + rank sdiv ?n, i_start + rank smod ?n)"
  have n: "0 < ?n" using assms by simp
  have f: "?f r = (j_start + r div ?n, i_start + r mod ?n)" if "0 \<le> r" for r
    using that n by (simp add: sdiv_nonneg smod_nonneg)
  have "inj_on ?f (set (range1 0 (?m * ?n)))"
  proof (rule inj_onI)
    fix r s
    assume "r \<in> set (range1 0 (?m * ?n))" "s \<in> set (range1 0 (?m * ?n))" and eq: "?f r = ?f s"
    then have "0 \<le> r" "0 \<le> s" by (simp_all add: in_range1)
    then have "r div ?n = s div ?n" "r mod ?n = s mod ?n" using eq f by simp_all
    then show "r = s" by (metis div_mult_mod_eq)
  qed
  then show "distinct (team_columns j_start j_end i_start i_end)"
    by (simp add: team_columns_def Let_def distinct_map distinct_range1)
  show "(j, i) \<in> set (team_columns j_start j_end i_start i_end) \<longleftrightarrow>
      j_start \<le> j \<and> j < j_end \<and> i_start \<le> i \<and> i < i_end" (is "?l \<longleftrightarrow> ?r")
  proof
    assume ?l
    then obtain r where r: "0 \<le> r" "r < ?m * ?n" "(j, i) = ?f r"
      by (auto simp: team_columns_def Let_def in_range1)
    have "r div ?n < ?m"
    proof (rule ccontr)
      assume "\<not> r div ?n < ?m"
      then have "?m * ?n \<le> (r div ?n) * ?n" using n by (intro mult_right_mono) auto
      also have "\<dots> \<le> r" using n by (simp add: minus_mod_eq_div_mult [symmetric])
      finally show False using r(2) by simp
    qed
    moreover have "i_start + r mod ?n < i_end" using pos_mod_bound [OF n, of r] by linarith
    ultimately show ?r using r n f [of r] by (simp add: pos_imp_zdiv_nonneg_iff)
  next
    assume r: ?r
    define c where "c = (j - j_start) * ?n + (i - i_start)"
    have "c div ?n = j - j_start" "c mod ?n = i - i_start" using r by (simp_all add: c_def)
    moreover have "0 \<le> c" using r n by (simp add: c_def)
    moreover have "c < ?m * ?n"
    proof -
      have "c < (j - j_start + 1) * ?n" using r by (simp add: c_def algebra_simps)
      also have "\<dots> \<le> ?m * ?n" using r n by (intro mult_right_mono) auto
      finally show ?thesis .
    qed
    ultimately show ?l
      using f [of c] by (auto simp: team_columns_def Let_def in_range1 image_iff intro!: bexI [of _ c])
  qed
qed

lemma team_parallel_for_flat:
  "team_parallel_for columns k_start k_end body s =
     parallel_for (concat (map (\<lambda>(j, i). map (\<lambda>k. (k, j, i)) (range1 k_start k_end)) columns)) body s"
proof (induction columns arbitrary: s)
  case Nil
  show ?case by (simp add: team_parallel_for_def)
next
  case (Cons c columns)
  have append: "parallel_for (xs @ ys) f t = parallel_for ys f (parallel_for xs f t)" for xs ys f and t :: 'a
    by (simp add: parallel_for_def)
  have inner: "parallel_for (map g ks) f t = parallel_for ks (\<lambda>k. f (g k)) t" for g ks f and t :: 'a
    by (simp add: parallel_for_def fold_map comp_def)
  show ?case using Cons by (cases c) (simp add: team_parallel_for_def append inner)
qed

lemma team_accumulate:
  fixes t :: "int \<times> int \<times> int \<Rightarrow> 'a::plus"
  assumes "i_start < i_end"
  shows "team_parallel_for (team_columns j_start j_end i_start i_end) k_start k_end
      (\<lambda>c t. t(c := t c + f c)) t (k, j, i) =
    (if k_start \<le> k \<and> k < k_end \<and> j_start \<le> j \<and> j < j_end \<and> i_start \<le> i \<and> i < i_end
     then t (k, j, i) + f (k, j, i) else t (k, j, i))"
proof -
  let ?cells = "concat (map (\<lambda>(j, i). map (\<lambda>k. (k, j, i)) (range1 k_start k_end))
    (team_columns j_start j_end i_start i_end))"
  have "distinct (concat (map (\<lambda>(j, i). map (\<lambda>k. (k, j, i)) (range1 k_start k_end)) columns))"
    if "distinct columns" for columns :: "(int \<times> int) list"
    using that by (induction columns) (auto simp: distinct_map inj_on_def distinct_range1)
  then have "distinct ?cells" using team_columns_props(1) [OF assms] .
  moreover have "(k, j, i) \<in> set ?cells \<longleftrightarrow>
      k_start \<le> k \<and> k < k_end \<and> j_start \<le> j \<and> j < j_end \<and> i_start \<le> i \<and> i < i_end" for k j i
    by (force simp: team_columns_props(2) [OF assms] in_range1)
  ultimately show ?thesis
    unfolding team_parallel_for_flat
    using accumulate_kernel [of ?cells "\<lambda>_. False" f t] by (simp add: fun_eq_iff)
qed

end
