(* ===== verification/Model_Fields.thy ===== *)
theory Model_Fields
  imports Kernels
begin

text \<open>
  \<open>core/state/Field\<close> as far as the kernels use it: the number of dimensions, the extents
  of the view and its cells.  A cell of a four-dimensional field is \<open>(w, k, j, i)\<close>; the
  views of lower dimension use the cells \<open>(0, k, j, i)\<close>, \<open>(0, 0, j, i)\<close> and
  \<open>(0, k, 0, 0)\<close>, and have extent 1 in the directions they do not have.
\<close>

type_synonym cell = "int \<times> int \<times> int \<times> int"

record 'a field =
  fname :: string
  fdim :: nat
  ext_w :: int
  ext_z :: int
  ext_y :: int
  ext_x :: int
  fdata :: "cell \<Rightarrow> 'a"

definition field_wf :: "'a field \<Rightarrow> bool" where
  "field_wf f \<longleftrightarrow>
     fdim f \<in> {1, 2, 3, 4} \<and> 0 \<le> ext_w f \<and> 0 \<le> ext_z f \<and> 0 \<le> ext_y f \<and> 0 \<le> ext_x f \<and>
     (fdim f \<noteq> 4 \<longrightarrow> ext_w f = 1) \<and> (fdim f = 2 \<longrightarrow> ext_z f = 1) \<and>
     (fdim f = 1 \<longrightarrow> ext_y f = 1 \<and> ext_x f = 1)"

text \<open>The kernels of the lower dimensions are the four-dimensional one with extents 1.\<close>

lemma range1_0_1 [simp]: "range1 0 1 = [0]"
  by (simp add: range1_def)

lemma mdrange4_outer_1: "mdrange4 0 a b c 1 x y z = map (Pair 0) (mdrange3 a b c x y z)"
  by (simp add: mdrange4_def)

lemma mdrange3_outer_1: "mdrange3 0 a b 1 x y = map (Pair 0) (mdrange2 a b x y)"
  by (simp add: mdrange3_def)

lemma parallel_for_map: "parallel_for (map g xs) body s = parallel_for xs (\<lambda>i. body (g i)) s"
  by (induction xs arbitrary: s) simp_all

lemma parallel_for_cong:
  "xs = ys \<Longrightarrow> (\<And>i. i \<in> set ys \<Longrightarrow> f i = g i) \<Longrightarrow> parallel_for xs f s = parallel_for ys g s"
proof (induction ys arbitrary: xs s)
  case Nil
  then show ?case by simp
next
  case (Cons a ys)
  then show ?case by simp
qed

lemma parallel_for_3_as_4:
  "parallel_for (mdrange3 a b c x y z) body s =
   parallel_for (mdrange4 0 a b c 1 x y z) (\<lambda>(w, k, j, i). body (k, j, i)) s"
  by (simp add: mdrange4_outer_1 parallel_for_map case_prod_beta)

lemma parallel_for_2_as_4:
  "parallel_for (mdrange2 b c y z) body s =
   parallel_for (mdrange4 0 0 b c 1 1 y z) (\<lambda>(w, k, j, i). body (j, i)) s"
  by (simp add: mdrange4_outer_1 mdrange3_outer_1 parallel_for_map case_prod_beta)

lemma mdrange4_0_1D: "(w, k, j, i) \<in> set (mdrange4 0 a b c 1 x y z) \<Longrightarrow> w = 0"
  by (auto simp: range_simps)

end
