(* ===== verification/Halo_Degenerate.thy ===== *)
theory Halo_Degenerate
  imports Model_Fields
begin

text \<open>
  \<open>core/haloexchange/HaloExchangeDegenerate\<close>: halo layers of an axis that one process
  holds completely, filled from the physical cells of that process.  \<open>off\<close> is the halo
  offset, \<open>n\<close> the physical size, \<open>depth\<close> the number of layers; \<open>%\<close> of C++ is \<open>smod\<close>.
\<close>

section \<open>The kernels\<close>

definition fill_periodic_x_halo :: "int \<Rightarrow> int \<Rightarrow> int \<Rightarrow> 'a field \<Rightarrow> 'a field" where
  "fill_periodic_x_halo off n depth f =
     (if fdim f = 2 then
        f\<lparr>fdata := parallel_for (mdrange2 0 0 (ext_y f) depth)
          (assign2
             True (\<lambda>(j, ih). (0, 0, j, off - depth + ih))
                  (\<lambda>(j, ih) d. d (0, 0, j, off + (n - depth + ih) smod n))
             True (\<lambda>(j, ih). (0, 0, j, off + n + ih))
                  (\<lambda>(j, ih) d. d (0, 0, j, off + ih smod n)))
          (fdata f)\<rparr>
      else if fdim f = 3 then
        f\<lparr>fdata := parallel_for (mdrange3 0 0 0 (ext_z f) (ext_y f) depth)
          (assign2
             True (\<lambda>(k, j, ih). (0, k, j, off - depth + ih))
                  (\<lambda>(k, j, ih) d. d (0, k, j, off + (n - depth + ih) smod n))
             True (\<lambda>(k, j, ih). (0, k, j, off + n + ih))
                  (\<lambda>(k, j, ih) d. d (0, k, j, off + ih smod n)))
          (fdata f)\<rparr>
      else if fdim f = 4 then
        f\<lparr>fdata := parallel_for (mdrange4 0 0 0 0 (ext_w f) (ext_z f) (ext_y f) depth)
          (assign2
             True (\<lambda>(w, k, j, ih). (w, k, j, off - depth + ih))
                  (\<lambda>(w, k, j, ih) d. d (w, k, j, off + (n - depth + ih) smod n))
             True (\<lambda>(w, k, j, ih). (w, k, j, off + n + ih))
                  (\<lambda>(w, k, j, ih) d. d (w, k, j, off + ih smod n)))
          (fdata f)\<rparr>
      else f)"

definition fill_singleton_x_halo :: "int \<Rightarrow> int \<Rightarrow> 'a field \<Rightarrow> 'a field" where
  "fill_singleton_x_halo off depth f = fill_periodic_x_halo off 1 depth f"

definition fill_periodic_y_halo :: "int \<Rightarrow> int \<Rightarrow> int \<Rightarrow> 'a field \<Rightarrow> 'a field" where
  "fill_periodic_y_halo off n depth f =
     (if fdim f = 2 then
        f\<lparr>fdata := parallel_for (mdrange2 0 0 (ext_x f) depth)
          (assign2
             True (\<lambda>(i, jh). (0, 0, off - depth + jh, i))
                  (\<lambda>(i, jh) d. d (0, 0, off + (n - depth + jh) smod n, i))
             True (\<lambda>(i, jh). (0, 0, off + n + jh, i))
                  (\<lambda>(i, jh) d. d (0, 0, off + jh smod n, i)))
          (fdata f)\<rparr>
      else if fdim f = 3 then
        f\<lparr>fdata := parallel_for (mdrange3 0 0 0 (ext_z f) (ext_x f) depth)
          (assign2
             True (\<lambda>(k, i, jh). (0, k, off - depth + jh, i))
                  (\<lambda>(k, i, jh) d. d (0, k, off + (n - depth + jh) smod n, i))
             True (\<lambda>(k, i, jh). (0, k, off + n + jh, i))
                  (\<lambda>(k, i, jh) d. d (0, k, off + jh smod n, i)))
          (fdata f)\<rparr>
      else if fdim f = 4 then
        f\<lparr>fdata := parallel_for (mdrange4 0 0 0 0 (ext_w f) (ext_z f) (ext_x f) depth)
          (assign2
             True (\<lambda>(w, k, i, jh). (w, k, off - depth + jh, i))
                  (\<lambda>(w, k, i, jh) d. d (w, k, off + (n - depth + jh) smod n, i))
             True (\<lambda>(w, k, i, jh). (w, k, off + n + jh, i))
                  (\<lambda>(w, k, i, jh) d. d (w, k, off + jh smod n, i)))
          (fdata f)\<rparr>
      else f)"

definition fill_singleton_y_halo :: "int \<Rightarrow> int \<Rightarrow> 'a field \<Rightarrow> 'a field" where
  "fill_singleton_y_halo off depth f = fill_periodic_y_halo off 1 depth f"

definition fill_periodic_x_slice :: "int \<Rightarrow> int \<Rightarrow> int \<Rightarrow> int \<Rightarrow> 'a field \<Rightarrow> 'a field" where
  "fill_periodic_x_slice k off n depth f =
     f\<lparr>fdata := parallel_for (mdrange2 0 0 (ext_y f) depth)
       (assign2
          True (\<lambda>(j, ih). (0, k, j, off - depth + ih))
               (\<lambda>(j, ih) d. d (0, k, j, off + (n - depth + ih) smod n))
          True (\<lambda>(j, ih). (0, k, j, off + n + ih))
               (\<lambda>(j, ih) d. d (0, k, j, off + ih smod n)))
       (fdata f)\<rparr>"

definition fill_singleton_x_slice :: "int \<Rightarrow> int \<Rightarrow> int \<Rightarrow> 'a field \<Rightarrow> 'a field" where
  "fill_singleton_x_slice k off depth f = fill_periodic_x_slice k off 1 depth f"

definition fill_periodic_y_slice :: "int \<Rightarrow> int \<Rightarrow> int \<Rightarrow> int \<Rightarrow> 'a field \<Rightarrow> 'a field" where
  "fill_periodic_y_slice k off n depth f =
     f\<lparr>fdata := parallel_for (mdrange2 0 0 (ext_x f) depth)
       (assign2
          True (\<lambda>(i, jh). (0, k, off - depth + jh, i))
               (\<lambda>(i, jh) d. d (0, k, off + (n - depth + jh) smod n, i))
          True (\<lambda>(i, jh). (0, k, off + n + jh, i))
               (\<lambda>(i, jh) d. d (0, k, off + jh smod n, i)))
       (fdata f)\<rparr>"

definition fill_singleton_y_slice :: "int \<Rightarrow> int \<Rightarrow> int \<Rightarrow> 'a field \<Rightarrow> 'a field" where
  "fill_singleton_y_slice k off depth f = fill_periodic_y_slice k off 1 depth f"

section \<open>One kernel for all dimensions\<close>

abbreviation x_low :: "int \<Rightarrow> int \<Rightarrow> cell \<Rightarrow> cell" where
  "x_low off depth \<equiv> (\<lambda>(w, k, j, ih). (w, k, j, off - depth + ih))"

abbreviation x_high :: "int \<Rightarrow> int \<Rightarrow> cell \<Rightarrow> cell" where
  "x_high off n \<equiv> (\<lambda>(w, k, j, ih). (w, k, j, off + n + ih))"

abbreviation x_low_src :: "int \<Rightarrow> int \<Rightarrow> int \<Rightarrow> cell \<Rightarrow> (cell \<Rightarrow> 'a) \<Rightarrow> 'a" where
  "x_low_src off n depth \<equiv> (\<lambda>(w, k, j, ih) d. d (w, k, j, off + (n - depth + ih) smod n))"

abbreviation x_high_src :: "int \<Rightarrow> int \<Rightarrow> cell \<Rightarrow> (cell \<Rightarrow> 'a) \<Rightarrow> 'a" where
  "x_high_src off n \<equiv> (\<lambda>(w, k, j, ih) d. d (w, k, j, off + ih smod n))"

abbreviation y_low :: "int \<Rightarrow> int \<Rightarrow> cell \<Rightarrow> cell" where
  "y_low off depth \<equiv> (\<lambda>(w, k, i, jh). (w, k, off - depth + jh, i))"

abbreviation y_high :: "int \<Rightarrow> int \<Rightarrow> cell \<Rightarrow> cell" where
  "y_high off n \<equiv> (\<lambda>(w, k, i, jh). (w, k, off + n + jh, i))"

abbreviation y_low_src :: "int \<Rightarrow> int \<Rightarrow> int \<Rightarrow> cell \<Rightarrow> (cell \<Rightarrow> 'a) \<Rightarrow> 'a" where
  "y_low_src off n depth \<equiv> (\<lambda>(w, k, i, jh) d. d (w, k, off + (n - depth + jh) smod n, i))"

abbreviation y_high_src :: "int \<Rightarrow> int \<Rightarrow> cell \<Rightarrow> (cell \<Rightarrow> 'a) \<Rightarrow> 'a" where
  "y_high_src off n \<equiv> (\<lambda>(w, k, i, jh) d. d (w, k, off + jh smod n, i))"

lemma field_wf_extents:
  "field_wf f \<Longrightarrow> fdim f = 2 \<Longrightarrow> ext_w f = 1 \<and> ext_z f = 1"
  "field_wf f \<Longrightarrow> fdim f = 3 \<Longrightarrow> ext_w f = 1"
  by (simp_all add: field_wf_def)

lemma unit_index: "0 \<le> a \<Longrightarrow> a < 1 \<Longrightarrow> a = (0::int)"
  by simp

lemma fill_periodic_x_halo_4:
  assumes "field_wf f" and "2 \<le> fdim f"
  shows "fill_periodic_x_halo off n depth f =
    f\<lparr>fdata := parallel_for (mdrange4 0 0 0 0 (ext_w f) (ext_z f) (ext_y f) depth)
       (assign2 True (x_low off depth) (x_low_src off n depth) True (x_high off n) (x_high_src off n))
       (fdata f)\<rparr>"
proof -
  consider "fdim f = 2" | "fdim f = 3" | "fdim f = 4"
    using assms by (auto simp: field_wf_def)
  then show ?thesis
    by cases (auto simp: fill_periodic_x_halo_def parallel_for_2_as_4 parallel_for_3_as_4
        assms field_wf_extents assign2_def fun_eq_iff range_simps
        intro!: arg_cong [where f = "\<lambda>d. f\<lparr>fdata := d\<rparr>"] parallel_for_cong dest!: unit_index simp del: fun_upd_apply)
qed

lemma fill_periodic_y_halo_4:
  assumes "field_wf f" and "2 \<le> fdim f"
  shows "fill_periodic_y_halo off n depth f =
    f\<lparr>fdata := parallel_for (mdrange4 0 0 0 0 (ext_w f) (ext_z f) (ext_x f) depth)
       (assign2 True (y_low off depth) (y_low_src off n depth) True (y_high off n) (y_high_src off n))
       (fdata f)\<rparr>"
proof -
  consider "fdim f = 2" | "fdim f = 3" | "fdim f = 4"
    using assms by (auto simp: field_wf_def)
  then show ?thesis
    by cases (auto simp: fill_periodic_y_halo_def parallel_for_2_as_4 parallel_for_3_as_4
        assms field_wf_extents assign2_def fun_eq_iff range_simps
        intro!: arg_cong [where f = "\<lambda>d. f\<lparr>fdata := d\<rparr>"] parallel_for_cong dest!: unit_index simp del: fun_upd_apply)
qed

section \<open>No data races\<close>

text \<open>The source index of a layer stays inside the physical cells when the layers are not
  more than the physical cells, or when there is one physical cell only.\<close>

definition periodic_layers :: "int \<Rightarrow> int \<Rightarrow> bool" where
  "periodic_layers n depth \<longleftrightarrow> 0 < n \<and> (depth \<le> n \<or> n = 1)"

lemma smod_1 [simp]: "(a :: int) smod 1 = 0"
  by (simp add: signed_modulo_int_def)

lemma periodic_layers_source:
  assumes "periodic_layers n depth" and "0 \<le> ih" and "ih < depth"
  shows "(n - depth + ih) smod n = (ih - depth) mod n" and "ih smod n = ih mod n"
proof -
  have "(n - depth + ih) smod n = (ih - depth + n) mod n"
    using assms by (cases "n = 1") (auto simp: periodic_layers_def smod_nonneg algebra_simps)
  then show "(n - depth + ih) smod n = (ih - depth) mod n" by simp
  show "ih smod n = ih mod n"
    using assms by (simp add: periodic_layers_def smod_nonneg)
qed

lemma physical_not_halo:
  "0 < n \<Longrightarrow> b < depth \<Longrightarrow> off + a mod n \<noteq> off - depth + (b::int)"
  "0 < n \<Longrightarrow> 0 \<le> b \<Longrightarrow> off + a mod n \<noteq> off + n + (b::int)"
  using pos_mod_sign [of n a] pos_mod_bound [of n a] by linarith+

interpretation x_halo: kernel2
  "if periodic_layers n depth then mdrange4 wb kb 0 0 nw nz' ny' depth else []"
  True "x_low off depth" "x_low_src off n depth :: cell \<Rightarrow> (cell \<Rightarrow> 'a) \<Rightarrow> 'a"
  True "x_high off n" "x_high_src off n" for wb kb nw nz' ny' off n depth
proof (cases "periodic_layers n depth")
  case True
  then have n: "0 < n" by (simp add: periodic_layers_def)
  show "kernel2 (if periodic_layers n depth then mdrange4 wb kb 0 0 nw nz' ny' depth else [])
      True (x_low off depth) (x_low_src off n depth :: cell \<Rightarrow> (cell \<Rightarrow> 'a) \<Rightarrow> 'a)
      True (x_high off n) (x_high_src off n)"
    using n True
    by unfold_locales
       (auto simp: range_simps inj_on_def periodic_layers_source physical_not_halo)
next
  case False
  then show "kernel2 (if periodic_layers n depth then mdrange4 wb kb 0 0 nw nz' ny' depth else [])
      True (x_low off depth) (x_low_src off n depth :: cell \<Rightarrow> (cell \<Rightarrow> 'a) \<Rightarrow> 'a)
      True (x_high off n) (x_high_src off n)"
    by unfold_locales simp_all
qed

interpretation y_halo: kernel2
  "if periodic_layers n depth then mdrange4 wb kb 0 0 nw nz' nx' depth else []"
  True "y_low off depth" "y_low_src off n depth :: cell \<Rightarrow> (cell \<Rightarrow> 'a) \<Rightarrow> 'a"
  True "y_high off n" "y_high_src off n" for wb kb nw nz' nx' off n depth
proof (cases "periodic_layers n depth")
  case True
  then have n: "0 < n" by (simp add: periodic_layers_def)
  show "kernel2 (if periodic_layers n depth then mdrange4 wb kb 0 0 nw nz' nx' depth else [])
      True (y_low off depth) (y_low_src off n depth :: cell \<Rightarrow> (cell \<Rightarrow> 'a) \<Rightarrow> 'a)
      True (y_high off n) (y_high_src off n)"
    using n True
    by unfold_locales
       (auto simp: range_simps inj_on_def periodic_layers_source physical_not_halo)
next
  case False
  then show "kernel2 (if periodic_layers n depth then mdrange4 wb kb 0 0 nw nz' nx' depth else [])
      True (y_low off depth) (y_low_src off n depth :: cell \<Rightarrow> (cell \<Rightarrow> 'a) \<Rightarrow> 'a)
      True (y_high off n) (y_high_src off n)"
    by unfold_locales simp_all
qed

section \<open>What the fills compute\<close>

definition in_rows :: "'a field \<Rightarrow> cell \<Rightarrow> bool" where
  "in_rows f c \<longleftrightarrow>
     (case c of (w, k, j, i) \<Rightarrow> 0 \<le> w \<and> w < ext_w f \<and> 0 \<le> k \<and> k < ext_z f \<and> 0 \<le> j \<and> j < ext_y f)"

definition in_columns :: "'a field \<Rightarrow> cell \<Rightarrow> bool" where
  "in_columns f c \<longleftrightarrow>
     (case c of (w, k, j, i) \<Rightarrow> 0 \<le> w \<and> w < ext_w f \<and> 0 \<le> k \<and> k < ext_z f \<and> 0 \<le> i \<and> i < ext_x f)"

lemma fill_periodic_x_halo_cell:
  assumes "field_wf f" and "2 \<le> fdim f" and "periodic_layers n depth"
  shows "fdata (fill_periodic_x_halo off n depth f) (w, k, j, i) =
    (if in_rows f (w, k, j, i) \<and> off - depth \<le> i \<and> i < off + n + depth
     then fdata f (w, k, j, off + (i - off) mod n) else fdata f (w, k, j, i))"
proof -
  let ?xs = "mdrange4 0 0 0 0 (ext_w f) (ext_z f) (ext_y f) depth"
  let ?d = "parallel_for ?xs (assign2 True (x_low off depth) (x_low_src off n depth) True
      (x_high off n) (x_high_src off n)) (fdata f)"
  have n: "0 < n" using assms(3) by (simp add: periodic_layers_def)
  have low: "?d (w, k, j, i) = fdata f (w, k, j, off + (i - off) mod n)"
    if "in_rows f (w, k, j, i)" "off - depth \<le> i" "i < off"
    using periodic_layers_source(1) [of n depth "i - off + depth"]
      x_halo.result1 [where n = n and depth = depth and off = off and d = "fdata f" and i = "(w, k, j, i - off + depth)"
        and wb = 0 and kb = 0 and nw = "ext_w f" and nz' = "ext_z f" and ny' = "ext_y f"] that assms(3)
    by (simp add: in_rows_def range_simps periodic_layers_source)
  have high: "?d (w, k, j, i) = fdata f (w, k, j, off + (i - off) mod n)"
    if "in_rows f (w, k, j, i)" "off + n \<le> i" "i < off + n + depth"
    using x_halo.result2 [where n = n and depth = depth and off = off and d = "fdata f" and i = "(w, k, j, i - off - n)"
        and wb = 0 and kb = 0 and nw = "ext_w f" and nz' = "ext_z f" and ny' = "ext_y f"] that assms(3)
    by (simp add: in_rows_def range_simps periodic_layers_source)
  have frame: "?d (w, k, j, i) = fdata f (w, k, j, i)"
    if "\<not> in_rows f (w, k, j, i) \<or> i < off - depth \<or> off + n + depth \<le> i \<or> off \<le> i \<and> i < off + n"
    using that n by (intro assign2_frame) (auto simp: in_rows_def range_simps)
  have mid: "(i - off) mod n = i - off" if "off \<le> i" "i < off + n" using that by simp
  show ?thesis
    unfolding fill_periodic_x_halo_4 [OF assms(1,2)]
    using low high frame mid by (cases "i < off"; cases "off + n \<le> i"; auto simp: not_less not_le)
qed

lemma fill_periodic_y_halo_cell:
  assumes "field_wf f" and "2 \<le> fdim f" and "periodic_layers n depth"
  shows "fdata (fill_periodic_y_halo off n depth f) (w, k, j, i) =
    (if in_columns f (w, k, j, i) \<and> off - depth \<le> j \<and> j < off + n + depth
     then fdata f (w, k, off + (j - off) mod n, i) else fdata f (w, k, j, i))"
proof -
  let ?xs = "mdrange4 0 0 0 0 (ext_w f) (ext_z f) (ext_x f) depth"
  let ?d = "parallel_for ?xs (assign2 True (y_low off depth) (y_low_src off n depth) True
      (y_high off n) (y_high_src off n)) (fdata f)"
  have n: "0 < n" using assms(3) by (simp add: periodic_layers_def)
  have low: "?d (w, k, j, i) = fdata f (w, k, off + (j - off) mod n, i)"
    if "in_columns f (w, k, j, i)" "off - depth \<le> j" "j < off"
    using periodic_layers_source(1) [of n depth "j - off + depth"]
      y_halo.result1 [where n = n and depth = depth and off = off and d = "fdata f" and i = "(w, k, i, j - off + depth)"
        and wb = 0 and kb = 0 and nw = "ext_w f" and nz' = "ext_z f" and nx' = "ext_x f"] that assms(3)
    by (simp add: in_columns_def range_simps periodic_layers_source)
  have high: "?d (w, k, j, i) = fdata f (w, k, off + (j - off) mod n, i)"
    if "in_columns f (w, k, j, i)" "off + n \<le> j" "j < off + n + depth"
    using y_halo.result2 [where n = n and depth = depth and off = off and d = "fdata f" and i = "(w, k, i, j - off - n)"
        and wb = 0 and kb = 0 and nw = "ext_w f" and nz' = "ext_z f" and nx' = "ext_x f"] that assms(3)
    by (simp add: in_columns_def range_simps periodic_layers_source)
  have frame: "?d (w, k, j, i) = fdata f (w, k, j, i)"
    if "\<not> in_columns f (w, k, j, i) \<or> j < off - depth \<or> off + n + depth \<le> j \<or> off \<le> j \<and> j < off + n"
    using that n by (intro assign2_frame) (auto simp: in_columns_def range_simps)
  have mid: "(j - off) mod n = j - off" if "off \<le> j" "j < off + n" using that by simp
  show ?thesis
    unfolding fill_periodic_y_halo_4 [OF assms(1,2)]
    using low high frame mid by (cases "j < off"; cases "off + n \<le> j"; auto simp: not_less not_le)
qed

section \<open>Slices\<close>

lemma parallel_for_slice:
  "parallel_for (mdrange2 b c y z) body s =
   parallel_for (mdrange4 0 k b c 1 (k + 1) y z) (\<lambda>(w, k, j, i). body (j, i)) s"
proof -
  have "range1 k (k + 1) = [k]" by (simp add: range1_def)
  then have "mdrange4 0 k b c 1 (k + 1) y z = map (Pair 0) (map (Pair k) (mdrange2 b c y z))"
    by (simp add: mdrange4_def mdrange3_def)
  then show ?thesis by (simp add: parallel_for_map)
qed

lemma level_index: "k \<le> a \<Longrightarrow> a < k + 1 \<Longrightarrow> a = (k::int)"
  by simp

lemma fill_periodic_x_slice_cell:
  assumes "periodic_layers n depth"
  shows "fdata (fill_periodic_x_slice lev off n depth f) (w, k, j, i) =
    (if w = 0 \<and> k = lev \<and> 0 \<le> j \<and> j < ext_y f \<and> off - depth \<le> i \<and> i < off + n + depth
     then fdata f (w, k, j, off + (i - off) mod n) else fdata f (w, k, j, i))"
proof -
  let ?xs = "mdrange4 0 lev 0 0 1 (lev + 1) (ext_y f) depth"
  let ?d = "parallel_for ?xs (assign2 True (x_low off depth) (x_low_src off n depth) True
      (x_high off n) (x_high_src off n)) (fdata f)"
  let ?in = "w = 0 \<and> k = lev \<and> 0 \<le> j \<and> j < ext_y f"
  have n: "0 < n" using assms by (simp add: periodic_layers_def)
  have eq: "fdata (fill_periodic_x_slice lev off n depth f) = ?d"
    unfolding fill_periodic_x_slice_def parallel_for_slice [where k = lev]
    by (simp, rule parallel_for_cong [OF refl])
       (auto simp: assign2_def fun_eq_iff range_simps dest!: unit_index level_index
             simp del: fun_upd_apply)
  have low: "?d (w, k, j, i) = fdata f (w, k, j, off + (i - off) mod n)"
    if "?in" "off - depth \<le> i" "i < off"
    using periodic_layers_source(1) [of n depth "i - off + depth"]
      x_halo.result1 [where n = n and depth = depth and off = off and d = "fdata f"
        and i = "(w, k, j, i - off + depth)" and wb = 0 and kb = lev and nw = 1
        and nz' = "lev + 1" and ny' = "ext_y f"] that assms
    by (simp add: range_simps periodic_layers_source)
  have high: "?d (w, k, j, i) = fdata f (w, k, j, off + (i - off) mod n)"
    if "?in" "off + n \<le> i" "i < off + n + depth"
    using x_halo.result2 [where n = n and depth = depth and off = off and d = "fdata f"
        and i = "(w, k, j, i - off - n)" and wb = 0 and kb = lev and nw = 1
        and nz' = "lev + 1" and ny' = "ext_y f"] that assms
    by (simp add: range_simps periodic_layers_source)
  have frame: "?d (w, k, j, i) = fdata f (w, k, j, i)"
    if "\<not> ?in \<or> i < off - depth \<or> off + n + depth \<le> i \<or> off \<le> i \<and> i < off + n"
    using that n by (intro assign2_frame) (auto simp: range_simps)
  have mid: "(i - off) mod n = i - off" if "off \<le> i" "i < off + n" using that by simp
  show ?thesis
    unfolding eq using low high frame mid
    by (cases "i < off"; cases "off + n \<le> i"; auto simp: not_less not_le)
qed

lemma fill_periodic_y_slice_cell:
  assumes "periodic_layers n depth"
  shows "fdata (fill_periodic_y_slice lev off n depth f) (w, k, j, i) =
    (if w = 0 \<and> k = lev \<and> 0 \<le> i \<and> i < ext_x f \<and> off - depth \<le> j \<and> j < off + n + depth
     then fdata f (w, k, off + (j - off) mod n, i) else fdata f (w, k, j, i))"
proof -
  let ?xs = "mdrange4 0 lev 0 0 1 (lev + 1) (ext_x f) depth"
  let ?d = "parallel_for ?xs (assign2 True (y_low off depth) (y_low_src off n depth) True
      (y_high off n) (y_high_src off n)) (fdata f)"
  let ?in = "w = 0 \<and> k = lev \<and> 0 \<le> i \<and> i < ext_x f"
  have n: "0 < n" using assms by (simp add: periodic_layers_def)
  have eq: "fdata (fill_periodic_y_slice lev off n depth f) = ?d"
    unfolding fill_periodic_y_slice_def parallel_for_slice [where k = lev]
    by (simp, rule parallel_for_cong [OF refl])
       (auto simp: assign2_def fun_eq_iff range_simps dest!: unit_index level_index
             simp del: fun_upd_apply)
  have low: "?d (w, k, j, i) = fdata f (w, k, off + (j - off) mod n, i)"
    if "?in" "off - depth \<le> j" "j < off"
    using periodic_layers_source(1) [of n depth "j - off + depth"]
      y_halo.result1 [where n = n and depth = depth and off = off and d = "fdata f"
        and i = "(w, k, i, j - off + depth)" and wb = 0 and kb = lev and nw = 1
        and nz' = "lev + 1" and nx' = "ext_x f"] that assms
    by (simp add: range_simps periodic_layers_source)
  have high: "?d (w, k, j, i) = fdata f (w, k, off + (j - off) mod n, i)"
    if "?in" "off + n \<le> j" "j < off + n + depth"
    using y_halo.result2 [where n = n and depth = depth and off = off and d = "fdata f"
        and i = "(w, k, i, j - off - n)" and wb = 0 and kb = lev and nw = 1
        and nz' = "lev + 1" and nx' = "ext_x f"] that assms
    by (simp add: range_simps periodic_layers_source)
  have frame: "?d (w, k, j, i) = fdata f (w, k, j, i)"
    if "\<not> ?in \<or> j < off - depth \<or> off + n + depth \<le> j \<or> off \<le> j \<and> j < off + n"
    using that n by (intro assign2_frame) (auto simp: range_simps)
  have mid: "(j - off) mod n = j - off" if "off \<le> j" "j < off + n" using that by simp
  show ?thesis
    unfolding eq using low high frame mid
    by (cases "j < off"; cases "off + n \<le> j"; auto simp: not_less not_le)
qed

section \<open>The singleton axis\<close>

lemma periodic_layers_1 [simp]: "periodic_layers 1 depth"
  by (simp add: periodic_layers_def)

lemma fill_singleton_x_halo_cell:
  assumes "field_wf f" and "2 \<le> fdim f"
  shows "fdata (fill_singleton_x_halo off depth f) (w, k, j, i) =
    (if in_rows f (w, k, j, i) \<and> off - depth \<le> i \<and> i \<le> off + depth
     then fdata f (w, k, j, off) else fdata f (w, k, j, i))"
  unfolding fill_singleton_x_halo_def using fill_periodic_x_halo_cell [OF assms, of 1 depth]
  by simp

lemma fill_singleton_y_halo_cell:
  assumes "field_wf f" and "2 \<le> fdim f"
  shows "fdata (fill_singleton_y_halo off depth f) (w, k, j, i) =
    (if in_columns f (w, k, j, i) \<and> off - depth \<le> j \<and> j \<le> off + depth
     then fdata f (w, k, off, i) else fdata f (w, k, j, i))"
  unfolding fill_singleton_y_halo_def using fill_periodic_y_halo_cell [OF assms, of 1 depth]
  by simp

lemma fill_halo_record [simp]:
  "fdata_update (\<lambda>_. fdata f) (fill_periodic_x_halo off n depth f) = f"
  "fdata_update (\<lambda>_. fdata f) (fill_periodic_y_halo off n depth f) = f"
  by (simp_all add: fill_periodic_x_halo_def fill_periodic_y_halo_def)

text \<open>Halo layers of an axis held by one process: for at most as many layers as physical
  cells, or on an axis with one physical cell, the fill continues the physical cells
  periodically over the layers on both sides, on every row of the field including its halo
  rows, and changes nothing else.\<close>

theorem periodic_halo_fill:
  assumes "field_wf f" and "2 \<le> fdim f" and "periodic_layers n depth"
  shows "fdata (fill_periodic_x_halo off n depth f) (w, k, j, i) =
      (if in_rows f (w, k, j, i) \<and> off - depth \<le> i \<and> i < off + n + depth
       then fdata f (w, k, j, off + (i - off) mod n) else fdata f (w, k, j, i)) \<and>
    fdata (fill_periodic_y_halo off n depth f) (w, k, j, i) =
      (if in_columns f (w, k, j, i) \<and> off - depth \<le> j \<and> j < off + n + depth
       then fdata f (w, k, off + (j - off) mod n, i) else fdata f (w, k, j, i))"
  by (simp add: fill_periodic_x_halo_cell [OF assms] fill_periodic_y_halo_cell [OF assms])

definition sample_field :: "int \<Rightarrow> int \<Rightarrow> int field" where
  "sample_field n_rows n_columns =
     \<lparr>fname = ''thermo'', fdim = 2, ext_w = 1, ext_z = 1, ext_y = n_rows, ext_x = n_columns,
      fdata = (\<lambda>(w, k, j, i). 10 * j + i)\<rparr>"

text \<open>Three physical columns and a halo of two on both sides.\<close>

lemma periodic_halo_fill_witness:
  "fdata (fill_periodic_x_halo 2 3 2 (sample_field 7 7)) (0, 0, 1, 0) = 13"
  using periodic_halo_fill [of "sample_field 7 7" 3 2 2 0 0 1 0]
  by (simp add: sample_field_def field_wf_def periodic_layers_def in_rows_def)

end
