(* ===== verification/Json_Config.thy ===== *)
theory Json_Config
  imports VVM_Prelude
begin

text \<open>
  \<open>utils/ConfigurationManager\<close>: looking a dotted key up in the parsed JSON document and
  converting the node to the type the caller asks for.

  The document is a value of \<open>json\<close>; an object is the list of its members.  The
  conversions \<open>as_int\<close>, \<open>as_double\<close>, \dots{} are those of \<open>node->get<T>()\<close> in the vendored
  \<open>externals/json/json.hpp\<close>: \<open>None\<close> is its \<open>type_error\<close>.  A JSON number that is not an
  integer is finite (the parser rejects the others).  An integer node read as \<open>int\<close> keeps
  its low 32 bits; a fractional node is truncated first.
\<close>

datatype json =
    JNull
  | JBool bool
  | JInt int
  | JFloat real
  | JString string
  | JArray "json list"
  | JObject "(string \<times> json) list"

datatype config_error = Key_not_found string | Config_type_mismatch string

section \<open>Objects\<close>

definition is_object :: "json \<Rightarrow> bool" where
  "is_object j = (case j of JObject _ \<Rightarrow> True | _ \<Rightarrow> False)"

definition member :: "json \<Rightarrow> string \<Rightarrow> json option" where
  "member j key = (case j of JObject ms \<Rightarrow> map_of ms key | _ \<Rightarrow> None)"

definition contains_key :: "json \<Rightarrow> string \<Rightarrow> bool" where
  "contains_key j key = (member j key \<noteq> None)"

text \<open>\<open>json::items()\<close>: the members of an object, the elements of an array under their
  decimal indices, nothing for null, and any other value as one item with an empty key.\<close>

definition json_items :: "json \<Rightarrow> (string \<times> json) list" where
  "json_items j =
     (case j of
        JObject ms \<Rightarrow> ms
      | JArray js \<Rightarrow> zip (map show_nat [0..<length js]) js
      | JNull \<Rightarrow> []
      | _ \<Rightarrow> [([], j)])"

section \<open>Lookup of a dotted key\<close>

text \<open>The part of the path before its first dot, and the part behind it if there is one.\<close>

definition split_path :: "string \<Rightarrow> string \<times> string option" where
  "split_path p =
     (let key = takeWhile (\<lambda>c. c \<noteq> CHR ''.'') p
      in (key, if length key < length p then Some (drop (Suc (length key)) p) else None))"

lemma split_path_shorter: "split_path p = (key, Some rest) \<Longrightarrow> length rest < length p"
  by (auto simp: split_path_def Let_def split: if_splits)

function find_node :: "json \<Rightarrow> string \<Rightarrow> json option" where
  "find_node node path =
     (case split_path path of
        (key, None) \<Rightarrow> if \<not> is_object node \<or> \<not> contains_key node key then None
                       else member node key
      | (key, Some rest) \<Rightarrow>
          (if \<not> is_object node \<or> \<not> contains_key node key then None
           else find_node (the (member node key)) rest))"
  by pat_completeness auto
termination
  by (relation "measure (\<lambda>(node, path). length path)") (auto dest!: split_path_shorter [OF sym])

declare find_node.simps [simp del]

definition has_key :: "json \<Rightarrow> string \<Rightarrow> bool" where
  "has_key config key = (find_node config key \<noteq> None)"

section \<open>Typed access\<close>

definition get_value ::
  "(json \<Rightarrow> 'a option) \<Rightarrow> json \<Rightarrow> string \<Rightarrow> config_error + 'a" where
  "get_value conv config key =
     (case find_node config key of
        None \<Rightarrow> Inl (Key_not_found key)
      | Some node \<Rightarrow>
          (case conv node of None \<Rightarrow> Inl (Config_type_mismatch key) | Some x \<Rightarrow> Inr x))"

definition get_value_default ::
  "(json \<Rightarrow> 'a option) \<Rightarrow> json \<Rightarrow> string \<Rightarrow> 'a \<Rightarrow> config_error + 'a" where
  "get_value_default conv config key dflt =
     (case find_node config key of
        None \<Rightarrow> Inr dflt
      | Some node \<Rightarrow>
          (case conv node of None \<Rightarrow> Inl (Config_type_mismatch key) | Some x \<Rightarrow> Inr x))"

definition truncate_real :: "real \<Rightarrow> int" where
  "truncate_real r = (if 0 \<le> r then \<lfloor>r\<rfloor> else \<lceil>r\<rceil>)"

fun as_int :: "json \<Rightarrow> int option" where
  "as_int (JInt i) = Some (to_int32 i)"
| "as_int (JFloat r) = Some (to_int32 (truncate_real r))"
| "as_int (JBool b) = Some (if b then 1 else 0)"
| "as_int _ = None"

fun as_int64 :: "json \<Rightarrow> int option" where
  "as_int64 (JInt i) = Some (signed_take_bit 63 i)"
| "as_int64 (JFloat r) = Some (signed_take_bit 63 (truncate_real r))"
| "as_int64 _ = None"

fun as_double :: "json \<Rightarrow> fp option" where
  "as_double (JInt i) = Some (Fin (of_int i))"
| "as_double (JFloat r) = Some (Fin r)"
| "as_double _ = None"

fun as_bool :: "json \<Rightarrow> bool option" where
  "as_bool (JBool b) = Some b"
| "as_bool _ = None"

fun as_string :: "json \<Rightarrow> string option" where
  "as_string (JString s) = Some s"
| "as_string _ = None"

fun as_json :: "json \<Rightarrow> json option" where
  "as_json j = Some j"

fun all_some :: "'a option list \<Rightarrow> 'a list option" where
  "all_some [] = Some []"
| "all_some (None # xs) = None"
| "all_some (Some x # xs) = map_option (Cons x) (all_some xs)"

fun as_list :: "(json \<Rightarrow> 'a option) \<Rightarrow> json \<Rightarrow> 'a list option" where
  "as_list conv (JArray js) = all_some (map conv js)"
| "as_list conv _ = None"

section \<open>Properties of the lookup\<close>

lemma split_path_last: "CHR ''.'' \<notin> set p \<Longrightarrow> split_path p = (p, None)"
proof -
  assume "CHR ''.'' \<notin> set p"
  then have "takeWhile (\<lambda>c. c \<noteq> CHR ''.'') p = p"
    by (auto simp: takeWhile_eq_all_conv)
  then show ?thesis unfolding split_path_def Let_def by (simp del: takeWhile_eq_all_conv)
qed

lemma split_path_append:
  "CHR ''.'' \<notin> set k \<Longrightarrow> split_path (k @ CHR ''.'' # rest) = (k, Some rest)"
  by (auto simp: split_path_def Let_def takeWhile_append takeWhile_eq_all_conv)

lemma find_node_last:
  "CHR ''.'' \<notin> set k \<Longrightarrow> find_node node k = member node k"
  by (subst find_node.simps)
     (auto simp: split_path_last contains_key_def is_object_def member_def split: json.splits)

lemma find_node_step:
  assumes "CHR ''.'' \<notin> set k"
  shows "find_node node (k @ CHR ''.'' # rest) =
           Option.bind (member node k) (\<lambda>child. find_node child rest)"
proof (cases "member node k")
  case None
  with assms show ?thesis
    by (subst find_node.simps) (simp add: split_path_append contains_key_def)
next
  case (Some child)
  then have "is_object node" by (auto simp: member_def is_object_def split: json.splits)
  with assms Some show ?thesis
    by (subst find_node.simps) (simp add: split_path_append contains_key_def)
qed

text \<open>Looking a dotted path up is following its components one object at a time.\<close>

fun walk :: "json \<Rightarrow> string list \<Rightarrow> json option" where
  "walk node [] = Some node"
| "walk node (k # ks) = Option.bind (member node k) (\<lambda>child. walk child ks)"

fun join_path :: "string list \<Rightarrow> string" where
  "join_path [] = []"
| "join_path [k] = k"
| "join_path (k # ks) = k @ CHR ''.'' # join_path ks"

lemma find_node_walk:
  assumes "ks \<noteq> []" and "\<forall>k \<in> set ks. CHR ''.'' \<notin> set k"
  shows "find_node node (join_path ks) = walk node ks"
  using assms
proof (induction ks arbitrary: node rule: join_path.induct)
  case 1
  then show ?case by simp
next
  case (2 k)
  then show ?case by (cases "member node k") (simp_all add: find_node_last)
next
  case (3 k k' ks)
  then show ?case
    by (cases "member node k") (simp_all add: find_node_step del: find_node.simps)
qed

lemma get_value_Inr_has_key: "get_value conv config key = Inr x \<Longrightarrow> has_key config key"
  by (auto simp: get_value_def has_key_def split: option.splits)

lemma get_value_default_missing:
  "\<not> has_key config key \<Longrightarrow> get_value_default conv config key d = Inr d"
  by (simp add: get_value_default_def has_key_def)

lemma get_value_default_present:
  "has_key config key \<Longrightarrow> get_value_default conv config key d = get_value conv config key"
  by (auto simp: get_value_default_def get_value_def has_key_def split: option.splits)

lemma as_int_range: "as_int j = Some i \<Longrightarrow> - (2 ^ 31) \<le> i \<and> i < 2 ^ 31"
  by (cases j) (use to_int32_range in \<open>auto split: if_splits\<close>)

lemma get_int_range:
  "get_value as_int config key = Inr i \<Longrightarrow> - (2 ^ 31) \<le> i \<and> i < 2 ^ 31"
  by (auto simp: get_value_def split: option.splits dest: as_int_range)

lemma as_double_finite: "as_double j = Some x \<Longrightarrow> is_finite x"
  by (cases j) auto

end
