(* ===== verification/Grid_Spec.thy ===== *)
theory Grid_Spec
  imports Json_Config
begin

text \<open>
  \<open>core/grid/GridSpecification\<close>: the grid part of the configuration, in its structured
  form (\<open>grid.horizontal\<close>, \<open>grid.vertical\<close>) and in the legacy form, turned into one
  \<open>GridSpecification\<close>.  Every \<open>configuration_error\<close> of the source is a constructor of
  \<open>spec_error\<close>, with the key it names where it names one.
\<close>

section \<open>Data\<close>

datatype horizontal_edge_topology = Periodic | Bounded

datatype vertical_coordinate_type = Default | TaiwanVVM | RCEMIP

datatype geometry_kind = Cartesian | RegularLatLon | Affine | CubedSphere

datatype spec_error =
    Config config_error
  | Not_positive_integer string
  | Halo_below_two string
  | Not_finite_positive string
  | Unknown_topology string
  | Unknown_boundary string
  | Unknown_vertical_type string
  | Unknown_geometry_kind string
  | Bounds_not_two_values string
  | Bounds_not_finite string
  | Longitude_not_west_to_east
  | Longitude_span_above_360
  | Latitude_not_south_to_north
  | Latitude_not_between_poles
  | Halo_crosses_pole
  | Global_span_needs_periodic_q1
  | Periodic_latitude_not_enabled
  | Fix_lonlat_on_latlon
  | Affine_basis_needs_four
  | Affine_basis_not_finite
  | Affine_determinant_not_positive
  | Affine_reference_invalid
  | Cubed_sphere_not_implemented
  | Dz1_exceeds_dz string
  | TaiwanVVM_needs_stretching
  | Rcemip_path_empty

record regular_lat_lon_parameters =
  longitude_west_edge :: fp
  latitude_south_edge :: fp
  radius :: fp
  periodic_latitude :: bool

record horizontal_grid_spec =
  kind :: geometry_kind
  dq1 :: fp
  dq2 :: fp
  regular_lat_lon :: regular_lat_lon_parameters
  affine_basis :: "fp list"
  reference_longitude :: fp
  reference_latitude :: fp

record horizontal_topology_spec =
  topo_q1 :: horizontal_edge_topology
  topo_q2 :: horizontal_edge_topology

record horizontal_domain_spec =
  nx :: int
  ny :: int
  n_halo_cells :: int
  fix_lonlat :: bool
  geometry :: horizontal_grid_spec
  topology :: horizontal_topology_spec

record vertical_grid_spec =
  nz :: int
  dz :: fp
  dz1 :: fp
  vtype :: vertical_coordinate_type
  rcemip_grid_data_path :: string

record grid_specification =
  horizontal :: horizontal_domain_spec
  vertical :: vertical_grid_spec

text \<open>The member initialisers of the structs.\<close>

definition default_geometry :: horizontal_grid_spec where
  "default_geometry =
     \<lparr>kind = Cartesian, dq1 = Fin 0, dq2 = Fin 0,
      regular_lat_lon = \<lparr>longitude_west_edge = Fin 0, latitude_south_edge = Fin 0,
                         radius = Fin 0, periodic_latitude = False\<rparr>,
      affine_basis = [Fin 1, Fin 0, Fin 0, Fin 1],
      reference_longitude = Fin 0, reference_latitude = Fin 0\<rparr>"

definition default_rcemip_grid_data_path :: string where
  "default_rcemip_grid_data_path =
     ''./rundata/initial_conditions/profiles/snd_rcemip_anal300_v3.txt''"

definition fp_eq :: "fp \<Rightarrow> fp \<Rightarrow> bool" where
  "fp_eq a b \<longleftrightarrow> fp_le a b \<and> fp_le b a"

definition spacing_parameters_are_equal :: "vertical_grid_spec \<Rightarrow> bool" where
  "spacing_parameters_are_equal v = fp_eq (dz v) (dz1 v)"

definition uses_uniform_analytic_coordinate :: "vertical_grid_spec \<Rightarrow> bool" where
  "uses_uniform_analytic_coordinate v \<longleftrightarrow> vtype v = Default \<and> spacing_parameters_are_equal v"

definition uses_default_stretching :: "vertical_grid_spec \<Rightarrow> bool" where
  "uses_default_stretching v \<longleftrightarrow> vtype v = Default \<and> \<not> spacing_parameters_are_equal v"

section \<open>Names of the enumerations\<close>

fun horizontal_edge_topology_to_string :: "horizontal_edge_topology \<Rightarrow> string" where
  "horizontal_edge_topology_to_string Periodic = ''periodic''"
| "horizontal_edge_topology_to_string Bounded = ''bounded''"

fun vertical_coordinate_type_to_string :: "vertical_coordinate_type \<Rightarrow> string" where
  "vertical_coordinate_type_to_string Default = ''default''"
| "vertical_coordinate_type_to_string TaiwanVVM = ''taiwanvvm''"
| "vertical_coordinate_type_to_string RCEMIP = ''rcemip''"

fun geometry_kind_to_string :: "geometry_kind \<Rightarrow> string" where
  "geometry_kind_to_string Cartesian = ''cartesian''"
| "geometry_kind_to_string RegularLatLon = ''regular_latlon''"
| "geometry_kind_to_string Affine = ''affine''"
| "geometry_kind_to_string CubedSphere = ''cubed_sphere''"

definition parse_structured_topology ::
  "string \<Rightarrow> string \<Rightarrow> spec_error + horizontal_edge_topology" where
  "parse_structured_topology value key =
     (if value = ''periodic'' then Inr Periodic
      else if value = ''bounded'' then Inr Bounded
      else Inl (Unknown_topology key))"

definition parse_legacy_boundary ::
  "string \<Rightarrow> string \<Rightarrow> spec_error + horizontal_edge_topology" where
  "parse_legacy_boundary value key =
     (if value = ''periodic'' then Inr Periodic
      else if value = ''zero_gradient'' \<or> value = ''bounded'' then Inr Bounded
      else Inl (Unknown_boundary key))"

definition parse_vertical_coordinate_type ::
  "string \<Rightarrow> string \<Rightarrow> spec_error + vertical_coordinate_type" where
  "parse_vertical_coordinate_type value key =
     (if value = ''default'' then Inr Default
      else if value = ''taiwanvvm'' then Inr TaiwanVVM
      else if value = ''rcemip'' then Inr RCEMIP
      else Inl (Unknown_vertical_type key))"

definition parse_geometry_kind :: "string \<Rightarrow> string \<Rightarrow> spec_error + geometry_kind" where
  "parse_geometry_kind value key =
     (if value = ''cartesian'' then Inr Cartesian
      else if value = ''affine'' then Inr Affine
      else if value = ''regular_latlon'' then Inr RegularLatLon
      else if value = ''cubed_sphere'' then Inr CubedSphere
      else Inl (Unknown_geometry_kind key))"

section \<open>Guards\<close>

definition require_positive_integer :: "int \<Rightarrow> string \<Rightarrow> spec_error + unit" where
  "require_positive_integer value key = throw_if (value \<le> 0) (Not_positive_integer key)"

definition require_valid_halo_width :: "int \<Rightarrow> string \<Rightarrow> spec_error + unit" where
  "require_valid_halo_width value key = throw_if (value < 2) (Halo_below_two key)"

definition require_finite_positive :: "fp \<Rightarrow> string \<Rightarrow> spec_error + unit" where
  "require_finite_positive value key =
     throw_if (\<not> is_finite value \<or> fp_le value (Fin 0)) (Not_finite_positive key)"

abbreviation cfg :: "config_error + 'a \<Rightarrow> spec_error + 'a" where
  "cfg \<equiv> map_error Config"

definition read_bounds :: "json \<Rightarrow> string \<Rightarrow> spec_error + fp list" where
  "read_bounds config key =
     rbind (cfg (get_value (as_list as_double) config key)) (\<lambda>bounds.
     rbind (throw_if (length bounds \<noteq> 2) (Bounds_not_two_values key)) (\<lambda>_.
     rbind (throw_if (\<not> is_finite (bounds ! 0) \<or> \<not> is_finite (bounds ! 1))
              (Bounds_not_finite key)) (\<lambda>_.
     Inr bounds)))"

section \<open>Horizontal geometry\<close>

definition configure_cartesian_geometry ::
  "horizontal_domain_spec \<Rightarrow> json \<Rightarrow> bool \<Rightarrow> spec_error + horizontal_domain_spec" where
  "configure_cartesian_geometry h config structured =
     (let dx_key = (if structured then ''grid.horizontal.geometry.dx'' else ''grid.dx'');
          dy_key = (if structured then ''grid.horizontal.geometry.dy'' else ''grid.dy'')
      in rbind (cfg (get_value as_double config dx_key)) (\<lambda>dx.
         rbind (cfg (get_value as_double config dy_key)) (\<lambda>dy.
         rbind (require_finite_positive dx dx_key) (\<lambda>_.
         rbind (require_finite_positive dy dy_key) (\<lambda>_.
         Inr (h\<lparr>geometry := (geometry h)\<lparr>kind := Cartesian, dq1 := dx, dq2 := dy\<rparr>\<rparr>))))))"

definition degrees_to_radians :: real where
  "degrees_to_radians = pi / 180"

definition configure_regular_lat_lon_geometry ::
  "horizontal_domain_spec \<Rightarrow> json \<Rightarrow> spec_error + horizontal_domain_spec" where
  "configure_regular_lat_lon_geometry h config =
     rbind (cfg (get_value as_double config ''grid.horizontal.geometry.earth_radius_m'')) (\<lambda>rad.
     rbind (read_bounds config ''grid.horizontal.geometry.longitude_bounds_deg'') (\<lambda>lon_bounds.
     rbind (read_bounds config ''grid.horizontal.geometry.latitude_bounds_deg'') (\<lambda>lat_bounds.
     rbind (require_finite_positive rad ''grid.horizontal.geometry.earth_radius_m'') (\<lambda>_.
     let longitude_west = fval (lon_bounds ! 0); longitude_east = fval (lon_bounds ! 1);
         latitude_south = fval (lat_bounds ! 0); latitude_north = fval (lat_bounds ! 1)
     in
     rbind (throw_if (longitude_east \<le> longitude_west) Longitude_not_west_to_east) (\<lambda>_.
     let longitude_span = longitude_east - longitude_west in
     rbind (throw_if (longitude_span > 360) Longitude_span_above_360) (\<lambda>_.
     rbind (throw_if (latitude_north \<le> latitude_south) Latitude_not_south_to_north) (\<lambda>_.
     rbind (throw_if (latitude_south \<le> -90 \<or> latitude_north \<ge> 90) Latitude_not_between_poles) (\<lambda>_.
     let dlongitude_degrees = longitude_span / real_of_int (nx h);
         dlatitude_degrees = (latitude_north - latitude_south) / real_of_int (ny h);
         minimum_halo_latitude =
           latitude_south + (1 / 2 - real_of_int (n_halo_cells h)) * dlatitude_degrees;
         maximum_halo_latitude = latitude_north + real_of_int (n_halo_cells h) * dlatitude_degrees
     in
     rbind (throw_if (minimum_halo_latitude \<le> -90 \<or> maximum_halo_latitude \<ge> 90)
              Halo_crosses_pole) (\<lambda>_.
     let longitude_is_global = (\<bar>longitude_span - 360\<bar> \<le> 1 / 10 ^ 10) in
     rbind (throw_if (topo_q1 (topology h) = Bounded \<and> longitude_is_global)
              Global_span_needs_periodic_q1) (\<lambda>_.
     let periodic_lat = (topo_q2 (topology h) = Periodic) in
     rbind (if periodic_lat
            then cfg (get_value_default as_bool config
                   ''grid.horizontal.geometry.experimental_periodic_latitude'' False)
            else Inr True) (\<lambda>enabled.
     rbind (throw_if (periodic_lat \<and> \<not> enabled) Periodic_latitude_not_enabled) (\<lambda>_.
     rbind (throw_if (fix_lonlat h) Fix_lonlat_on_latlon) (\<lambda>_.
     let g = (geometry h)\<lparr>kind := RegularLatLon,
           dq1 := fl (dlongitude_degrees * degrees_to_radians),
           dq2 := fl (dlatitude_degrees * degrees_to_radians),
           regular_lat_lon :=
             \<lparr>longitude_west_edge = fl (longitude_west * degrees_to_radians),
              latitude_south_edge = fl (latitude_south * degrees_to_radians),
              radius = rad, periodic_latitude = periodic_lat\<rparr>\<rparr>
     in
     rbind (require_finite_positive (dq1 g) ''derived RLL longitude spacing'') (\<lambda>_.
     rbind (require_finite_positive (dq2 g) ''derived RLL latitude spacing'') (\<lambda>_.
     Inr (h\<lparr>geometry := g\<rparr>))))))))))))))))"

definition configure_affine_geometry ::
  "horizontal_domain_spec \<Rightarrow> json \<Rightarrow> spec_error + horizontal_domain_spec" where
  "configure_affine_geometry h config =
     rbind (cfg (get_value as_double config ''grid.horizontal.geometry.dq1'')) (\<lambda>d1.
     rbind (cfg (get_value as_double config ''grid.horizontal.geometry.dq2'')) (\<lambda>d2.
     rbind (require_finite_positive d1 ''grid.horizontal.geometry.dq1'') (\<lambda>_.
     rbind (require_finite_positive d2 ''grid.horizontal.geometry.dq2'') (\<lambda>_.
     rbind (cfg (get_value (as_list as_double) config ''grid.horizontal.geometry.basis'')) (\<lambda>basis.
     rbind (throw_if (length basis \<noteq> 4) Affine_basis_needs_four) (\<lambda>_.
     rbind (throw_if (\<not> (\<forall>b \<in> set basis. is_finite b)) Affine_basis_not_finite) (\<lambda>_.
     let determinant = fl (fval (basis ! 0) * fval (basis ! 3) - fval (basis ! 1) * fval (basis ! 2))
     in
     rbind (throw_if (\<not> is_finite determinant \<or> fp_le determinant (Fin 0))
              Affine_determinant_not_positive) (\<lambda>_.
     rbind (cfg (get_value_default as_double config
              ''grid.horizontal.geometry.reference_longitude_deg'' (Fin 0))) (\<lambda>lon.
     rbind (cfg (get_value_default as_double config
              ''grid.horizontal.geometry.reference_latitude_deg'' (Fin 0))) (\<lambda>lat.
     let rlon = (if is_finite lon then fl (fval lon * degrees_to_radians) else lon);
         rlat = (if is_finite lat then fl (fval lat * degrees_to_radians) else lat)
     in
     rbind (throw_if (\<not> is_finite rlon \<or> \<not> is_finite rlat \<or>
                      \<bar>fval rlat\<bar> > 90 * degrees_to_radians) Affine_reference_invalid) (\<lambda>_.
     Inr (h\<lparr>geometry := (geometry h)\<lparr>kind := Affine, dq1 := d1, dq2 := d2,
              affine_basis := basis, reference_longitude := rlon, reference_latitude := rlat\<rparr>\<rparr>)
     )))))))))))"

section \<open>The two configuration forms\<close>

definition parse_structured_horizontal :: "json \<Rightarrow> spec_error + horizontal_domain_spec" where
  "parse_structured_horizontal config =
     rbind (cfg (get_value as_int config ''grid.horizontal.nx'')) (\<lambda>x.
     rbind (cfg (get_value as_int config ''grid.horizontal.ny'')) (\<lambda>y.
     rbind (cfg (get_value as_int config ''grid.horizontal.n_halo_cells'')) (\<lambda>halo.
     rbind (require_positive_integer x ''grid.horizontal.nx'') (\<lambda>_.
     rbind (require_positive_integer y ''grid.horizontal.ny'') (\<lambda>_.
     rbind (require_valid_halo_width halo ''grid.horizontal.n_halo_cells'') (\<lambda>_.
     rbind (cfg (get_value_default as_bool config ''grid.horizontal.geometry.fix_lonlat'' False)) (\<lambda>fix.
     rbind (cfg (get_value as_string config ''grid.horizontal.topology.q1'')) (\<lambda>s1.
     rbind (parse_structured_topology s1 ''grid.horizontal.topology.q1'') (\<lambda>t1.
     rbind (cfg (get_value as_string config ''grid.horizontal.topology.q2'')) (\<lambda>s2.
     rbind (parse_structured_topology s2 ''grid.horizontal.topology.q2'') (\<lambda>t2.
     rbind (cfg (get_value as_string config ''grid.horizontal.geometry.kind'')) (\<lambda>k.
     rbind (parse_geometry_kind k ''grid.horizontal.geometry.kind'') (\<lambda>gk.
     let h = \<lparr>nx = x, ny = y, n_halo_cells = halo, fix_lonlat = fix,
              geometry = default_geometry, topology = \<lparr>topo_q1 = t1, topo_q2 = t2\<rparr>\<rparr>
     in case gk of
          Cartesian \<Rightarrow> configure_cartesian_geometry h config True
        | RegularLatLon \<Rightarrow> configure_regular_lat_lon_geometry h config
        | Affine \<Rightarrow> configure_affine_geometry h config
        | CubedSphere \<Rightarrow> Inl Cubed_sphere_not_implemented)))))))))))))"

definition parse_legacy_horizontal :: "json \<Rightarrow> spec_error + horizontal_domain_spec" where
  "parse_legacy_horizontal config =
     rbind (cfg (get_value as_int config ''grid.nx'')) (\<lambda>x.
     rbind (cfg (get_value as_int config ''grid.ny'')) (\<lambda>y.
     rbind (cfg (get_value as_int config ''grid.n_halo_cells'')) (\<lambda>halo.
     rbind (require_positive_integer x ''grid.nx'') (\<lambda>_.
     rbind (require_positive_integer y ''grid.ny'') (\<lambda>_.
     rbind (require_valid_halo_width halo ''grid.n_halo_cells'') (\<lambda>_.
     rbind (cfg (get_value_default as_bool config ''grid.fix_lonlat'' False)) (\<lambda>fix.
     rbind (cfg (get_value_default as_string config ''grid.boundary_condition.x'' ''periodic'')) (\<lambda>s1.
     rbind (parse_legacy_boundary s1 ''grid.boundary_condition.x'') (\<lambda>t1.
     rbind (cfg (get_value_default as_string config ''grid.boundary_condition.y'' ''periodic'')) (\<lambda>s2.
     rbind (parse_legacy_boundary s2 ''grid.boundary_condition.y'') (\<lambda>t2.
     configure_cartesian_geometry
       \<lparr>nx = x, ny = y, n_halo_cells = halo, fix_lonlat = fix,
        geometry = default_geometry, topology = \<lparr>topo_q1 = t1, topo_q2 = t2\<rparr>\<rparr>
       config False)))))))))))"

definition validate_vertical_spec ::
  "vertical_grid_spec \<Rightarrow> string \<Rightarrow> string \<Rightarrow> string \<Rightarrow> spec_error + unit" where
  "validate_vertical_spec v nz_key dz_key dz1_key =
     rbind (require_positive_integer (nz v) nz_key) (\<lambda>_.
     rbind (require_finite_positive (dz v) dz_key) (\<lambda>_.
     rbind (require_finite_positive (dz1 v) dz1_key) (\<lambda>_.
     rbind (throw_if (vtype v \<noteq> RCEMIP \<and> fp_less (dz v) (dz1 v)) (Dz1_exceeds_dz dz1_key)) (\<lambda>_.
     rbind (throw_if (vtype v = TaiwanVVM \<and> spacing_parameters_are_equal v)
              TaiwanVVM_needs_stretching) (\<lambda>_.
     throw_if (vtype v = RCEMIP \<and> rcemip_grid_data_path v = []) Rcemip_path_empty)))))"

definition parse_structured_vertical :: "json \<Rightarrow> spec_error + vertical_grid_spec" where
  "parse_structured_vertical config =
     rbind (cfg (get_value as_int config ''grid.vertical.nz'')) (\<lambda>z.
     rbind (cfg (get_value as_double config ''grid.vertical.dz'')) (\<lambda>d.
     rbind (cfg (get_value as_double config ''grid.vertical.dz1'')) (\<lambda>d1.
     rbind (cfg (get_value_default as_string config ''grid.vertical.type'' ''default'')) (\<lambda>t.
     rbind (parse_vertical_coordinate_type t ''grid.vertical.type'') (\<lambda>ty.
     rbind (cfg (get_value_default as_string config ''grid.vertical.rcemip_grid_data_path'' [])) (\<lambda>path.
     let v = \<lparr>nz = z, dz = d, dz1 = d1, vtype = ty, rcemip_grid_data_path = path\<rparr>
     in rbind (validate_vertical_spec v ''grid.vertical.nz'' ''grid.vertical.dz''
                 ''grid.vertical.dz1'') (\<lambda>_. Inr v)))))))"

definition parse_legacy_vertical :: "json \<Rightarrow> spec_error + vertical_grid_spec" where
  "parse_legacy_vertical config =
     rbind (cfg (get_value as_int config ''grid.nz'')) (\<lambda>z.
     rbind (cfg (get_value as_double config ''grid.dz'')) (\<lambda>d.
     rbind (cfg (get_value as_double config ''grid.dz1'')) (\<lambda>d1.
     rbind (cfg (get_value_default as_string config ''grid.vertical_coordinate_type'' ''default'')) (\<lambda>t.
     rbind (parse_vertical_coordinate_type t ''grid.vertical_coordinate_type'') (\<lambda>ty.
     rbind (cfg (get_value_default as_string config ''grid.rcemip_grid_data_path''
              default_rcemip_grid_data_path)) (\<lambda>path.
     let v = \<lparr>nz = z, dz = d, dz1 = d1, vtype = ty, rcemip_grid_data_path = path\<rparr>
     in rbind (validate_vertical_spec v ''grid.nz'' ''grid.dz'' ''grid.dz1'') (\<lambda>_. Inr v)))))))"

definition grid_specification_from_config :: "json \<Rightarrow> spec_error + grid_specification" where
  "grid_specification_from_config config =
     rbind (if has_key config ''grid.horizontal'' then parse_structured_horizontal config
            else parse_legacy_horizontal config) (\<lambda>h.
     rbind (if has_key config ''grid.vertical'' then parse_structured_vertical config
            else parse_legacy_vertical config) (\<lambda>v.
     Inr \<lparr>horizontal = h, vertical = v\<rparr>))"

section \<open>Names round trip\<close>

lemma parse_structured_topology_print [simp]:
  "parse_structured_topology (horizontal_edge_topology_to_string t) key = Inr t"
  by (cases t) (simp_all add: parse_structured_topology_def)

lemma parse_legacy_boundary_print [simp]:
  "parse_legacy_boundary (horizontal_edge_topology_to_string t) key = Inr t"
  by (cases t) (simp_all add: parse_legacy_boundary_def)

lemma parse_vertical_coordinate_type_print [simp]:
  "parse_vertical_coordinate_type (vertical_coordinate_type_to_string t) key = Inr t"
  by (cases t) (simp_all add: parse_vertical_coordinate_type_def)

lemma parse_geometry_kind_print [simp]:
  "parse_geometry_kind (geometry_kind_to_string k) key = Inr k"
  by (cases k) (simp_all add: parse_geometry_kind_def)

lemma parse_structured_topology_Inr:
  "parse_structured_topology s key = Inr t \<Longrightarrow> s = horizontal_edge_topology_to_string t"
  by (auto simp: parse_structured_topology_def split: if_splits)

lemma parse_vertical_coordinate_type_Inr:
  "parse_vertical_coordinate_type s key = Inr t \<Longrightarrow> s = vertical_coordinate_type_to_string t"
  by (auto simp: parse_vertical_coordinate_type_def split: if_splits)

lemma parse_geometry_kind_Inr:
  "parse_geometry_kind s key = Inr k \<Longrightarrow> s = geometry_kind_to_string k"
  by (auto simp: parse_geometry_kind_def split: if_splits)

section \<open>What an accepted specification satisfies\<close>

definition horizontal_ok :: "horizontal_domain_spec \<Rightarrow> bool" where
  "horizontal_ok h \<longleftrightarrow>
     0 < nx h \<and> 0 < ny h \<and> 2 \<le> n_halo_cells h \<and>
     finite_positive (dq1 (geometry h)) \<and> finite_positive (dq2 (geometry h)) \<and>
     kind (geometry h) \<noteq> CubedSphere"

definition vertical_ok :: "vertical_grid_spec \<Rightarrow> bool" where
  "vertical_ok v \<longleftrightarrow>
     0 < nz v \<and> finite_positive (dz v) \<and> finite_positive (dz1 v) \<and>
     (vtype v \<noteq> RCEMIP \<longrightarrow> fp_le (dz1 v) (dz v)) \<and>
     (vtype v = TaiwanVVM \<longrightarrow> fp_less (dz1 v) (dz v)) \<and>
     (vtype v = RCEMIP \<longrightarrow> rcemip_grid_data_path v \<noteq> [])"

lemma require_positive_integer_Inr [simp]:
  "require_positive_integer n key = Inr u \<longleftrightarrow> 0 < n"
  by (auto simp: require_positive_integer_def)

lemma require_valid_halo_width_Inr [simp]:
  "require_valid_halo_width n key = Inr u \<longleftrightarrow> 2 \<le> n"
  by (auto simp: require_valid_halo_width_def)

lemma require_finite_positive_Inr [simp]:
  "require_finite_positive x key = Inr u \<longleftrightarrow> finite_positive x"
  by (cases x) (auto simp: require_finite_positive_def)

lemma validate_vertical_spec_iff:
  "validate_vertical_spec v k1 k2 k3 = Inr u \<longleftrightarrow> vertical_ok v"
  unfolding validate_vertical_spec_def vertical_ok_def
  by (cases "vtype v")
     (auto simp: result_simps spacing_parameters_are_equal_def fp_eq_def)

lemma configure_cartesian_geometry_Inr:
  assumes "configure_cartesian_geometry h config st = Inr h'"
  obtains x y where "finite_positive x" and "finite_positive y"
    and "h' = h\<lparr>geometry := (geometry h)\<lparr>kind := Cartesian, dq1 := x, dq2 := y\<rparr>\<rparr>"
  using assms unfolding configure_cartesian_geometry_def Let_def
  by (auto simp: result_simps simp del: finite_positive_iff)

lemma fl_positive_iff: "\<bar>x\<bar> \<le> dbl_max \<and> \<not> fp_le (fl x) (Fin 0) \<longleftrightarrow> \<bar>x\<bar> \<le> dbl_max \<and> 0 < x"
  by (auto simp: fl_def)

lemma configure_affine_geometry_Inr:
  assumes "configure_affine_geometry h config = Inr h'"
  obtains d1 d2 b lon lat where "finite_positive d1" and "finite_positive d2" and "length b = 4"
    and "\<forall>x \<in> set b. is_finite x"
    and "0 < fval (b ! 0) * fval (b ! 3) - fval (b ! 1) * fval (b ! 2)"
    and "h' = h\<lparr>geometry := (geometry h)\<lparr>kind := Affine, dq1 := d1, dq2 := d2,
           affine_basis := b, reference_longitude := lon, reference_latitude := lat\<rparr>\<rparr>"
  using assms unfolding configure_affine_geometry_def Let_def
proof (elim rbind_InrE, goal_cases)
  case (1 d1 d2 _ _ b _ _ _ lon lat)
  from 1 show ?case
    by (intro that [of d1 d2 b
            "if is_finite lat then fl (fval lat * degrees_to_radians) else lat"
            "if is_finite lon then fl (fval lon * degrees_to_radians) else lon"])
       (simp_all add: fl_positive_iff del: finite_positive_iff)
qed

text \<open>The facts the latitude-longitude branch has checked when it returns.\<close>

lemma configure_regular_lat_lon_geometry_Inr:
  assumes "configure_regular_lat_lon_geometry h config = Inr h'"
  obtains r w e s n where "finite_positive r" and "w < e" and "e - w \<le> 360" and "s < n"
    and "-90 < s" and "n < 90"
    and "-90 < s + (1 / 2 - real_of_int (n_halo_cells h)) * ((n - s) / real_of_int (ny h))"
    and "n + real_of_int (n_halo_cells h) * ((n - s) / real_of_int (ny h)) < 90"
    and "\<not> fix_lonlat h"
    and "topo_q1 (topology h) = Bounded \<longrightarrow> \<bar>e - w - 360\<bar> > 1 / 10 ^ 10"
    and "finite_positive (fl ((e - w) / real_of_int (nx h) * degrees_to_radians))"
    and "finite_positive (fl ((n - s) / real_of_int (ny h) * degrees_to_radians))"
    and "h' = h\<lparr>geometry := (geometry h)\<lparr>kind := RegularLatLon,
           dq1 := fl ((e - w) / real_of_int (nx h) * degrees_to_radians),
           dq2 := fl ((n - s) / real_of_int (ny h) * degrees_to_radians),
           regular_lat_lon :=
             \<lparr>longitude_west_edge = fl (w * degrees_to_radians),
              latitude_south_edge = fl (s * degrees_to_radians),
              radius = r, periodic_latitude = (topo_q2 (topology h) = Periodic)\<rparr>\<rparr>\<rparr>"
  using assms unfolding configure_regular_lat_lon_geometry_def Let_def
  by (auto simp: result_simps not_le not_less simp del: finite_positive_iff)

lemma configure_regular_lat_lon_dims:
  "configure_regular_lat_lon_geometry h config = Inr h' \<Longrightarrow>
     nx h' = nx h \<and> ny h' = ny h \<and> n_halo_cells h' = n_halo_cells h \<and>
     kind (geometry h') = RegularLatLon \<and>
     finite_positive (dq1 (geometry h')) \<and> finite_positive (dq2 (geometry h'))"
  by (erule configure_regular_lat_lon_geometry_Inr) simp

lemma configure_affine_dims:
  "configure_affine_geometry h config = Inr h' \<Longrightarrow>
     nx h' = nx h \<and> ny h' = ny h \<and> n_halo_cells h' = n_halo_cells h \<and>
     kind (geometry h') = Affine \<and>
     finite_positive (dq1 (geometry h')) \<and> finite_positive (dq2 (geometry h'))"
  by (erule configure_affine_geometry_Inr) simp

lemma configure_cartesian_dims:
  "configure_cartesian_geometry h config st = Inr h' \<Longrightarrow>
     nx h' = nx h \<and> ny h' = ny h \<and> n_halo_cells h' = n_halo_cells h \<and>
     kind (geometry h') = Cartesian \<and>
     finite_positive (dq1 (geometry h')) \<and> finite_positive (dq2 (geometry h'))"
  by (erule configure_cartesian_geometry_Inr) simp

lemma parse_legacy_horizontal_ok:
  assumes "parse_legacy_horizontal config = Inr h"
  shows "horizontal_ok h"
  using assms unfolding parse_legacy_horizontal_def horizontal_ok_def
  by (auto simp: result_simps simp del: finite_positive_iff dest!: configure_cartesian_dims)

lemma configure_dispatch_dims:
  "(case gk of
      Cartesian \<Rightarrow> configure_cartesian_geometry h config st
    | RegularLatLon \<Rightarrow> configure_regular_lat_lon_geometry h config
    | Affine \<Rightarrow> configure_affine_geometry h config
    | CubedSphere \<Rightarrow> Inl Cubed_sphere_not_implemented) = Inr h' \<Longrightarrow>
     nx h' = nx h \<and> ny h' = ny h \<and> n_halo_cells h' = n_halo_cells h \<and>
     gk \<noteq> CubedSphere \<and> kind (geometry h') = gk \<and>
     finite_positive (dq1 (geometry h')) \<and> finite_positive (dq2 (geometry h'))"
  by (cases gk)
     (auto simp del: finite_positive_iff
        dest!: configure_cartesian_dims configure_affine_dims configure_regular_lat_lon_dims)

lemma parse_structured_horizontal_ok:
  assumes "parse_structured_horizontal config = Inr h"
  shows "horizontal_ok h"
  using assms unfolding parse_structured_horizontal_def horizontal_ok_def Let_def
  by (auto simp: result_simps simp del: finite_positive_iff dest!: configure_dispatch_dims)

lemma parse_structured_vertical_ok:
  "parse_structured_vertical config = Inr v \<Longrightarrow> vertical_ok v"
  unfolding parse_structured_vertical_def Let_def
  by (auto simp: result_simps validate_vertical_spec_iff)

lemma parse_legacy_vertical_ok:
  "parse_legacy_vertical config = Inr v \<Longrightarrow> vertical_ok v"
  unfolding parse_legacy_vertical_def Let_def
  by (auto simp: result_simps validate_vertical_spec_iff)

lemma from_config_ok:
  "grid_specification_from_config config = Inr s \<Longrightarrow>
     horizontal_ok (horizontal s) \<and> vertical_ok (vertical s)"
  unfolding grid_specification_from_config_def
  by (auto simp: result_simps split: if_splits
        dest: parse_structured_horizontal_ok parse_legacy_horizontal_ok
              parse_structured_vertical_ok parse_legacy_vertical_ok)

end
