(* ===== verification/Grid_Decomp.thy ===== *)
theory Grid_Decomp
  imports Grid_Spec
begin

text \<open>
  \<open>core/grid/Grid\<close>: the distribution of the horizontal domain over the processes, and
  \<open>utils/NumericalConfigurationValidation\<close>, the check made before the grid is built.

  MPI is outside the repository and a parameter, one record per process: the size of the
  communicator, \<open>dims_create\<close> for \<open>MPI_Dims_create(size, 2, {0, 0})\<close> (\<open>None\<close> where it
  fails), and \<open>cart_create\<close> for \<open>MPI_Cart_create\<close> followed by \<open>MPI_Cart_coords\<close>: the
  coordinates (Y, X) of the calling process in the new communicator, \<open>None\<close> where there
  is none.

  The locale \<open>block_partition\<close> is the contract between the distribution and everything
  that addresses cells by global index: consecutive blocks from 0 that cover the axis.
\<close>

section \<open>State\<close>

record grid_dimension =
  global_size :: int
  d_coord :: fp
  local_physical_start_idx :: int
  local_physical_end_idx :: int
  local_physical_size :: int
  num_halo_cells :: int

record grid =
  dim_z :: grid_dimension
  dim_y :: grid_dimension
  dim_x :: grid_dimension
  grid_spec :: grid_specification

record mpi_env =
  mpi_size :: int
  dims_create :: "int \<Rightarrow> (int \<times> int) option"
  cart_create :: "int \<times> int \<Rightarrow> bool \<times> bool \<Rightarrow> (int \<times> int) option"

datatype grid_error =
    Grid_initialization_failed spec_error
  | Grid_config config_error
  | Dims_create_failed
  | Grid_does_not_divide_evenly
  | Cart_create_failed
  | Local_domain_narrower_than_halo

definition get_local_total_points_z :: "grid \<Rightarrow> int" where
  "get_local_total_points_z g = local_physical_size (dim_z g) + 2 * num_halo_cells (dim_z g)"

definition get_local_total_points_y :: "grid \<Rightarrow> int" where
  "get_local_total_points_y g = local_physical_size (dim_y g) + 2 * num_halo_cells (dim_y g)"

definition get_local_total_points_x :: "grid \<Rightarrow> int" where
  "get_local_total_points_x g = local_physical_size (dim_x g) + 2 * num_halo_cells (dim_x g)"

definition is_singleton_y :: "grid \<Rightarrow> bool" where
  "is_singleton_y g \<longleftrightarrow> global_size (dim_y g) = 1"

definition is_singleton_x :: "grid \<Rightarrow> bool" where
  "is_singleton_x g \<longleftrightarrow> global_size (dim_x g) = 1"

definition get_halo_cells :: "grid \<Rightarrow> int" where
  "get_halo_cells g = num_halo_cells (dim_z g)"

section \<open>Distribution\<close>

definition full_axis :: "grid_dimension \<Rightarrow> grid_dimension" where
  "full_axis d = d\<lparr>local_physical_size := global_size d, local_physical_start_idx := 0,
                   local_physical_end_idx := global_size d - 1\<rparr>"

definition split_start :: "int \<Rightarrow> int \<Rightarrow> int \<Rightarrow> int" where
  "split_start n p c = c * (n sdiv p) + min c (n smod p)"

definition split_size :: "int \<Rightarrow> int \<Rightarrow> int \<Rightarrow> int" where
  "split_size n p c = n sdiv p + (if c < n smod p then 1 else 0)"

definition split_axis :: "int \<Rightarrow> int \<Rightarrow> grid_dimension \<Rightarrow> grid_dimension" where
  "split_axis p c d =
     (let start = split_start (global_size d) p c; size = split_size (global_size d) p c
      in d\<lparr>local_physical_start_idx := start, local_physical_size := size,
           local_physical_end_idx := start + size - 1\<rparr>)"

definition process_dimensions :: "mpi_env \<Rightarrow> int \<Rightarrow> int \<Rightarrow> grid_error + int \<times> int" where
  "process_dimensions mpi ny_global nx_global =
     (if ny_global = 1 \<and> nx_global > 1 then Inr (1, mpi_size mpi)
      else if nx_global = 1 \<and> ny_global > 1 then Inr (mpi_size mpi, 1)
      else if nx_global > 1 \<and> ny_global > 1 then
        (case dims_create mpi (mpi_size mpi) of
           None \<Rightarrow> Inl Dims_create_failed | Some pd \<Rightarrow> Inr pd)
      else Inr (1, 1))"

definition process_periods :: "horizontal_domain_spec \<Rightarrow> bool \<times> bool" where
  "process_periods h =
     (ny h > 1 \<and> topo_q2 (topology h) = Periodic, nx h > 1 \<and> topo_q1 (topology h) = Periodic)"

definition distribute_y :: "int \<Rightarrow> int \<Rightarrow> grid_dimension \<Rightarrow> grid_dimension" where
  "distribute_y py c d = (if py = 1 then full_axis d else split_axis py c d)"

definition distribute_x :: "int \<Rightarrow> int \<Rightarrow> grid_dimension \<Rightarrow> grid_dimension" where
  "distribute_x px c d = (if global_size d = 1 then full_axis d else split_axis px c d)"

definition calculate_local_grid_distribution ::
  "mpi_env \<Rightarrow> bool \<Rightarrow> grid \<Rightarrow> grid_error + grid" where
  "calculate_local_grid_distribution mpi radiation_enabled g =
     (let dz' = full_axis (dim_z g);
          h = horizontal (grid_spec g);
          ny_global = global_size (dim_y g); nx_global = global_size (dim_x g);
          periods0 = process_periods h;
          periods = (if ny_global = 1 \<and> nx_global > 1 then (False, snd periods0)
                     else if nx_global = 1 \<and> ny_global > 1 then (fst periods0, False)
                     else periods0)
      in rbind (process_dimensions mpi ny_global nx_global) (\<lambda>(py, px).
         rbind (throw_if ((nx_global smod px \<noteq> 0 \<or> ny_global smod py \<noteq> 0) \<and> radiation_enabled)
                  Grid_does_not_divide_evenly) (\<lambda>_.
         case cart_create mpi (py, px) periods of
           None \<Rightarrow> Inl Cart_create_failed
         | Some (cy, cx) \<Rightarrow>
             (let dy' = distribute_y py cy (dim_y g); dx' = distribute_x px cx (dim_x g);
                  halo_width = num_halo_cells dz'
              in rbind (throw_if
                   ((global_size dy' > 1 \<and> local_physical_size dy' < halo_width) \<or>
                    (global_size dx' > 1 \<and> local_physical_size dx' < halo_width))
                   Local_domain_narrower_than_halo) (\<lambda>_.
                 Inr (g\<lparr>dim_z := dz', dim_y := dy', dim_x := dx'\<rparr>))))))"

text \<open>The constructor: read the specification, fill in the dimensions, distribute.\<close>

definition initial_dimension :: "int \<Rightarrow> fp \<Rightarrow> int \<Rightarrow> grid_dimension" where
  "initial_dimension n d halo =
     \<lparr>global_size = n, d_coord = d, local_physical_start_idx = 0, local_physical_end_idx = 0,
      local_physical_size = 0, num_halo_cells = halo\<rparr>"

definition make_grid :: "mpi_env \<Rightarrow> json \<Rightarrow> grid_error + grid" where
  "make_grid mpi config =
     rbind (map_error Grid_initialization_failed (grid_specification_from_config config)) (\<lambda>s.
     let h = horizontal s; v = vertical s;
         g = \<lparr>dim_z = initial_dimension (nz v) (dz v) (n_halo_cells h),
              dim_y = initial_dimension (ny h) (dq2 (geometry h)) (n_halo_cells h),
              dim_x = initial_dimension (nx h) (dq1 (geometry h)) (n_halo_cells h),
              grid_spec = s\<rparr>
     in rbind (map_error Grid_config
                (get_value_default as_bool config ''physics.rrtmgp.enable_rrtmgp'' False))
          (\<lambda>radiation. calculate_local_grid_distribution mpi radiation g))"

section \<open>The check before the grid is built\<close>

record numerical_configuration_values =
  v_nx :: int
  v_ny :: int
  v_nz :: int
  v_halo_width :: int
  v_dx :: fp
  v_dy :: fp
  v_dz :: fp
  v_dt :: fp
  v_total_time :: fp
  v_output_interval :: fp

datatype numerical_error =
    Ranks_not_positive
  | Sizes_not_positive
  | Halo_width_below_two
  | Value_not_finite_positive string
  | Total_time_not_finite_nonnegative
  | Single_column_needs_one_rank
  | No_process_topology
  | Local_width_below_halo string
  | Values_config config_error

definition check_finite_positive :: "fp \<Rightarrow> string \<Rightarrow> numerical_error + unit" where
  "check_finite_positive value key =
     throw_if (\<not> is_finite value \<or> fp_le value (Fin 0)) (Value_not_finite_positive key)"

definition require_local_width ::
  "string \<Rightarrow> int \<Rightarrow> int \<Rightarrow> int \<Rightarrow> numerical_error + unit" where
  "require_local_width axis global_width process_width halo_width =
     (let smallest_local_width = global_width sdiv process_width
      in throw_if (smallest_local_width < halo_width) (Local_width_below_halo axis))"

definition validation_process_dims ::
  "(int \<Rightarrow> (int \<times> int) option) \<Rightarrow> numerical_configuration_values \<Rightarrow> int \<Rightarrow>
   numerical_error + int \<times> int" where
  "validation_process_dims mpi_dims_create vs compute_ranks =
     (if v_nx vs = 1 \<and> v_ny vs = 1 then
        rbind (throw_if (compute_ranks \<noteq> 1) Single_column_needs_one_rank) (\<lambda>_. Inr (1, 1))
      else if v_ny vs = 1 then Inr (1, compute_ranks)
      else if v_nx vs = 1 then Inr (compute_ranks, 1)
      else (case mpi_dims_create compute_ranks of
              None \<Rightarrow> Inl No_process_topology | Some pd \<Rightarrow> Inr pd))"

definition validate_numerical_configuration_values ::
  "(int \<Rightarrow> (int \<times> int) option) \<Rightarrow> numerical_configuration_values \<Rightarrow> int \<Rightarrow>
   numerical_error + unit" where
  "validate_numerical_configuration_values mpi_dims_create vs compute_ranks =
     rbind (throw_if (compute_ranks \<le> 0) Ranks_not_positive) (\<lambda>_.
     rbind (throw_if (v_nx vs \<le> 0 \<or> v_ny vs \<le> 0 \<or> v_nz vs \<le> 0) Sizes_not_positive) (\<lambda>_.
     rbind (throw_if (v_halo_width vs < 2) Halo_width_below_two) (\<lambda>_.
     rbind (check_finite_positive (v_dx vs) ''grid.dx'') (\<lambda>_.
     rbind (check_finite_positive (v_dy vs) ''grid.dy'') (\<lambda>_.
     rbind (check_finite_positive (v_dz vs) ''grid.dz'') (\<lambda>_.
     rbind (check_finite_positive (v_dt vs) ''simulation.dt_s'') (\<lambda>_.
     rbind (check_finite_positive (v_output_interval vs) ''simulation.output_interval_s'') (\<lambda>_.
     rbind (throw_if (\<not> is_finite (v_total_time vs) \<or> fp_less (v_total_time vs) (Fin 0))
              Total_time_not_finite_nonnegative) (\<lambda>_.
     rbind (validation_process_dims mpi_dims_create vs compute_ranks) (\<lambda>(py, px).
     rbind (if v_nx vs > 1 then require_local_width ''X'' (v_nx vs) px (v_halo_width vs)
            else Inr ()) (\<lambda>_.
     if v_ny vs > 1 then require_local_width ''Y'' (v_ny vs) py (v_halo_width vs)
     else Inr ())))))))))))"

definition validate_numerical_configuration ::
  "(int \<Rightarrow> (int \<times> int) option) \<Rightarrow> json \<Rightarrow> int \<Rightarrow> numerical_error + unit" where
  "validate_numerical_configuration mpi_dims_create config compute_ranks =
     (let get_i = (\<lambda>key. map_error Values_config (get_value as_int config key));
          get_d = (\<lambda>key. map_error Values_config (get_value as_double config key))
      in rbind (get_i ''grid.nx'') (\<lambda>x. rbind (get_i ''grid.ny'') (\<lambda>y.
         rbind (get_i ''grid.nz'') (\<lambda>z. rbind (get_i ''grid.n_halo_cells'') (\<lambda>h.
         rbind (get_d ''grid.dx'') (\<lambda>dx. rbind (get_d ''grid.dy'') (\<lambda>dy.
         rbind (get_d ''grid.dz'') (\<lambda>d. rbind (get_d ''simulation.dt_s'') (\<lambda>dt.
         rbind (get_d ''simulation.total_time_s'') (\<lambda>total.
         rbind (get_d ''simulation.output_interval_s'') (\<lambda>out.
         validate_numerical_configuration_values mpi_dims_create
           \<lparr>v_nx = x, v_ny = y, v_nz = z, v_halo_width = h, v_dx = dx, v_dy = dy, v_dz = d,
            v_dt = dt, v_total_time = total, v_output_interval = out\<rparr>
           compute_ranks)))))))))))"

section \<open>The contract of the distribution\<close>

locale block_partition =
  fixes n p :: int and start size :: "int \<Rightarrow> int"
  assumes procs: "0 < p"
    and start_0: "start 0 = 0"
    and start_step: "\<And>c. 0 \<le> c \<Longrightarrow> c < p \<Longrightarrow> start (c + 1) = start c + size c"
    and start_p: "start p = n"
    and size_nonneg: "\<And>c. 0 \<le> c \<Longrightarrow> c < p \<Longrightarrow> 0 \<le> size c"
begin

lemma start_mono_nat: "0 \<le> c \<Longrightarrow> c + int k \<le> p \<Longrightarrow> start c \<le> start (c + int k)"
proof (induction k)
  case 0
  then show ?case by simp
next
  case (Suc k)
  then have "start (c + int k + 1) = start (c + int k) + size (c + int k)"
    by (intro start_step) auto
  moreover have "0 \<le> size (c + int k)"
    using Suc.prems by (intro size_nonneg) auto
  ultimately show ?case using Suc by (simp add: algebra_simps)
qed

lemma start_mono: "0 \<le> c \<Longrightarrow> c \<le> d \<Longrightarrow> d \<le> p \<Longrightarrow> start c \<le> start d"
  using start_mono_nat [of c "nat (d - c)"] by simp

lemma block_in_range:
  assumes "0 \<le> c" and "c < p"
  shows "0 \<le> start c \<and> start c + size c \<le> n"
proof -
  have "start 0 \<le> start c" and "start (c + 1) \<le> start p"
    using assms by (auto intro: start_mono)
  with assms show ?thesis by (simp add: start_0 start_p start_step)
qed

lemma blocks_disjoint:
  assumes "0 \<le> c" and "c < d" and "d < p"
  shows "start c + size c \<le> start d"
  using assms start_mono [of "c + 1" d] start_step [of c] by simp

lemma covered_nat:
  "0 \<le> i \<Longrightarrow> k \<le> nat p \<Longrightarrow> i < start (int k) \<Longrightarrow>
     \<exists>c. 0 \<le> c \<and> c < int k \<and> start c \<le> i \<and> i < start c + size c"
proof (induction k)
  case 0
  then show ?case by (simp add: start_0)
next
  case (Suc k)
  then have k: "int k < p" by linarith
  show ?case
  proof (cases "i < start (int k)")
    case True
    with Suc obtain c where "0 \<le> c" "c < int k" "start c \<le> i" "i < start c + size c" by auto
    then show ?thesis by (intro exI [of _ c]) auto
  next
    case False
    with Suc.prems k start_step [of "int k"] show ?thesis
      by (intro exI [of _ "int k"]) (auto simp: add.commute)
  qed
qed

lemma owner_exists: "0 \<le> i \<Longrightarrow> i < n \<Longrightarrow> \<exists>c. 0 \<le> c \<and> c < p \<and> start c \<le> i \<and> i < start c + size c"
  using covered_nat [of i "nat p"] procs by (simp add: start_p)

lemma owner_unique:
  assumes "0 \<le> c" "c < p" "start c \<le> i" "i < start c + size c"
    and "0 \<le> d" "d < p" "start d \<le> i" "i < start d + size d"
  shows "c = d"
proof (rule ccontr)
  assume "c \<noteq> d"
  then consider "c < d" | "d < c" by linarith
  then show False
    by cases (use assms blocks_disjoint [of c d] blocks_disjoint [of d c] in auto)
qed

lemma owner_unique_exists:
  "0 \<le> i \<Longrightarrow> i < n \<Longrightarrow> \<exists>!c. 0 \<le> c \<and> c < p \<and> start c \<le> i \<and> i < start c + size c"
  using owner_exists owner_unique by (metis (no_types, lifting))

lemma sizes_sum_nat: "k \<le> nat p \<Longrightarrow> (\<Sum>c = 0..<k. size (int c)) = start (int k)"
proof (induction k)
  case 0
  then show ?case by (simp add: start_0)
next
  case (Suc k)
  then show ?case using start_step [of "int k"] by (simp add: add.commute)
qed

lemma sizes_sum: "(\<Sum>c = 0..<nat p. size (int c)) = n"
  using sizes_sum_nat [of "nat p"] procs by (simp add: start_p)

end

lemma split_nonneg:
  "0 \<le> n \<Longrightarrow> 0 < p \<Longrightarrow> split_start n p c = c * (n div p) + min c (n mod p)"
  "0 \<le> n \<Longrightarrow> 0 < p \<Longrightarrow> split_size n p c = n div p + (if c < n mod p then 1 else 0)"
  by (simp_all add: split_start_def split_size_def sdiv_nonneg smod_nonneg)

lemma split_block_partition:
  assumes "0 \<le> n" and "0 < p"
  shows "block_partition n p (split_start n p) (split_size n p)"
proof
  show "0 < p" by fact
  show "split_start n p 0 = 0" using assms by (simp add: split_nonneg)
  show "split_start n p (c + 1) = split_start n p c + split_size n p c" if "0 \<le> c" for c
    using assms that by (auto simp: split_nonneg distrib_right min_def)
  have "min p (n mod p) = n mod p"
    using assms by (simp add: min_absorb2 less_imp_le)
  then show "split_start n p p = n"
    using assms by (simp add: split_nonneg)
  show "0 \<le> split_size n p c" for c
    using assms by (simp add: split_nonneg pos_imp_zdiv_nonneg_iff)
qed

interpretation split: block_partition "int n" "int (Suc p)"
  "split_start (int n) (int (Suc p))" "split_size (int n) (int (Suc p))" for n p
  by (rule split_block_partition) simp_all

text \<open>The same facts for the parameters as the code has them, positive integers.\<close>

lemma split_owner:
  assumes "0 \<le> n" and "0 < p" and "0 \<le> i" and "i < n"
  shows "\<exists>!c. 0 \<le> c \<and> c < p \<and> split_start n p c \<le> i \<and> i < split_start n p c + split_size n p c"
  using split.owner_unique_exists [of i "nat n" "nat p - 1"] assms by simp

lemma split_disjoint:
  "0 \<le> n \<Longrightarrow> 0 < p \<Longrightarrow> 0 \<le> c \<Longrightarrow> c < d \<Longrightarrow> d < p \<Longrightarrow>
     split_start n p c + split_size n p c \<le> split_start n p d"
  using split.blocks_disjoint [of c d "nat p - 1" "nat n"] by simp

lemma split_in_range:
  "0 \<le> n \<Longrightarrow> 0 < p \<Longrightarrow> 0 \<le> c \<Longrightarrow> c < p \<Longrightarrow>
     0 \<le> split_start n p c \<and> split_start n p c + split_size n p c \<le> n"
  using split.block_in_range [of c "nat p - 1" "nat n"] by simp

lemma split_sizes_sum:
  "0 \<le> n \<Longrightarrow> 0 < p \<Longrightarrow> (\<Sum>c = 0..<nat p. split_size n p (int c)) = n"
  using split.sizes_sum [of "nat n" "nat p - 1"] by simp

lemma split_step:
  "0 \<le> n \<Longrightarrow> 0 < p \<Longrightarrow> 0 \<le> c \<Longrightarrow> c < p \<Longrightarrow>
     split_start n p (c + 1) = split_start n p c + split_size n p c"
  using split.start_step [of c "nat p - 1" "nat n"] by simp

lemma split_start_total: "0 \<le> n \<Longrightarrow> 0 < p \<Longrightarrow> split_start n p p = n"
  using split.start_p [of "nat n" "nat p - 1"] by simp

lemma split_start_zero: "0 \<le> n \<Longrightarrow> 0 < p \<Longrightarrow> split_start n p 0 = 0"
  using split.start_0 [of "nat n" "nat p - 1"] by simp

lemma split_size_ge: "0 \<le> n \<Longrightarrow> 0 < p \<Longrightarrow> n div p \<le> split_size n p c"
  by (simp add: split_nonneg)

lemma split_size_balanced: "\<bar>split_size n p c - split_size n p d\<bar> \<le> 1"
  by (simp add: split_size_def)

lemma distribute_x_is_split:
  "0 < global_size d \<Longrightarrow> (global_size d = 1 \<longrightarrow> px = 1 \<and> c = 0) \<Longrightarrow>
     distribute_x px c d = split_axis px c d"
  by (auto simp: distribute_x_def full_axis_def split_axis_def Let_def split_nonneg)

lemma distribute_y_is_split:
  "0 < global_size d \<Longrightarrow> (py = 1 \<longrightarrow> c = 0) \<Longrightarrow> distribute_y py c d = split_axis py c d"
  by (auto simp: distribute_y_def full_axis_def split_axis_def Let_def split_nonneg)

section \<open>The distribution\<close>

named_theorems axis_simps \<open>the fields a distributed axis keeps\<close>

lemma full_axis_simps [axis_simps]:
  "global_size (full_axis d) = global_size d" "num_halo_cells (full_axis d) = num_halo_cells d"
  "local_physical_size (full_axis d) = global_size d" "local_physical_start_idx (full_axis d) = 0"
  "local_physical_end_idx (full_axis d) = global_size d - 1"
  by (simp_all add: full_axis_def)

lemma split_axis_simps [axis_simps]:
  "global_size (split_axis p c d) = global_size d"
  "num_halo_cells (split_axis p c d) = num_halo_cells d"
  "local_physical_size (split_axis p c d) = split_size (global_size d) p c"
  "local_physical_start_idx (split_axis p c d) = split_start (global_size d) p c"
  "local_physical_end_idx (split_axis p c d) =
     split_start (global_size d) p c + split_size (global_size d) p c - 1"
  by (simp_all add: split_axis_def Let_def)

lemma distribute_simps [axis_simps]:
  "global_size (distribute_y p c d) = global_size d" "global_size (distribute_x p c d) = global_size d"
  "num_halo_cells (distribute_y p c d) = num_halo_cells d"
  "num_halo_cells (distribute_x p c d) = num_halo_cells d"
  "local_physical_end_idx (distribute_y p c d) =
     local_physical_start_idx (distribute_y p c d) + local_physical_size (distribute_y p c d) - 1"
  "local_physical_end_idx (distribute_x p c d) =
     local_physical_start_idx (distribute_x p c d) + local_physical_size (distribute_x p c d) - 1"
  by (simp_all add: distribute_y_def distribute_x_def axis_simps)

definition distributed :: "grid \<Rightarrow> int \<times> int \<Rightarrow> int \<times> int \<Rightarrow> grid" where
  "distributed g pd c =
     g\<lparr>dim_z := full_axis (dim_z g), dim_y := distribute_y (fst pd) (fst c) (dim_y g),
       dim_x := distribute_x (snd pd) (snd c) (dim_x g)\<rparr>"

definition wide_enough :: "grid \<Rightarrow> bool" where
  "wide_enough g \<longleftrightarrow>
     (global_size (dim_y g) > 1 \<longrightarrow> num_halo_cells (dim_z g) \<le> local_physical_size (dim_y g)) \<and>
     (global_size (dim_x g) > 1 \<longrightarrow> num_halo_cells (dim_z g) \<le> local_physical_size (dim_x g))"

lemma calculate_local_grid_distribution_InrE:
  assumes "calculate_local_grid_distribution mpi rad g = Inr g'"
  obtains pd c periods where
    "process_dimensions mpi (global_size (dim_y g)) (global_size (dim_x g)) = Inr pd"
    and "cart_create mpi pd periods = Some c"
    and "g' = distributed g pd c" and "wide_enough (distributed g pd c)"
  using assms unfolding calculate_local_grid_distribution_def Let_def
  by (clarsimp simp: result_simps axis_simps split: option.splits)
     (rule that, assumption, assumption,
      auto simp: distributed_def wide_enough_def axis_simps not_less)

lemma process_dimensions_not_narrow:
  "process_dimensions mpi a b \<noteq> Inl Local_domain_narrower_than_halo"
  by (simp add: process_dimensions_def split: option.splits)

lemma calculate_local_grid_distribution_narrow:
  assumes "calculate_local_grid_distribution mpi rad g = Inl Local_domain_narrower_than_halo"
  obtains pd c periods where
    "process_dimensions mpi (global_size (dim_y g)) (global_size (dim_x g)) = Inr pd"
    and "cart_create mpi pd periods = Some c" and "\<not> wide_enough (distributed g pd c)"
  using assms unfolding calculate_local_grid_distribution_def Let_def
  by (clarsimp simp: rbind_eq_Inl_iff result_simps axis_simps process_dimensions_not_narrow
             split: option.splits)
     (rule that, assumption, assumption,
      auto simp: distributed_def wide_enough_def axis_simps not_less)

section \<open>Grid construction\<close>

text \<open>What the constructor guarantees: positive sizes, a halo of at least two cells, the
  whole vertical axis on every process and, in a horizontal direction with more than one
  cell, a local block at least as wide as the halo its neighbours copy from it.\<close>

definition grid_ok :: "grid \<Rightarrow> bool" where
  "grid_ok g \<longleftrightarrow>
     2 \<le> get_halo_cells g \<and> num_halo_cells (dim_y g) = get_halo_cells g \<and>
     num_halo_cells (dim_x g) = get_halo_cells g \<and>
     0 < global_size (dim_z g) \<and> 0 < global_size (dim_y g) \<and> 0 < global_size (dim_x g) \<and>
     local_physical_size (dim_z g) = global_size (dim_z g) \<and>
     (\<forall>d \<in> {dim_z g, dim_y g, dim_x g}.
        local_physical_end_idx d = local_physical_start_idx d + local_physical_size d - 1) \<and>
     wide_enough g"

lemma initial_dimension_simps [axis_simps]:
  "global_size (initial_dimension n d h) = n" "num_halo_cells (initial_dimension n d h) = h"
  by (simp_all add: initial_dimension_def)

lemma make_grid_ok_aux:
  assumes "make_grid mpi config = Inr g"
  shows "grid_ok g"
proof -
  from assms obtain s rad where spec: "grid_specification_from_config config = Inr s"
    and dist: "calculate_local_grid_distribution mpi rad
       \<lparr>dim_z = initial_dimension (nz (vertical s)) (dz (vertical s)) (n_halo_cells (horizontal s)),
        dim_y = initial_dimension (ny (horizontal s)) (dq2 (geometry (horizontal s)))
                  (n_halo_cells (horizontal s)),
        dim_x = initial_dimension (nx (horizontal s)) (dq1 (geometry (horizontal s)))
                  (n_halo_cells (horizontal s)),
        grid_spec = s\<rparr> = Inr g"
    by (auto simp: make_grid_def Let_def rbind_eq_Inr_iff)
  from spec have "horizontal_ok (horizontal s)" and "vertical_ok (vertical s)"
    by (auto dest: from_config_ok)
  with dist show ?thesis
    by (elim calculate_local_grid_distribution_InrE)
       (simp add: distributed_def grid_ok_def get_halo_cells_def axis_simps horizontal_ok_def
                  vertical_ok_def wide_enough_def)
qed

lemma distributed_simps [axis_simps]:
  "dim_y (distributed g pd c) = distribute_y (fst pd) (fst c) (dim_y g)"
  "dim_x (distributed g pd c) = distribute_x (snd pd) (snd c) (dim_x g)"
  "dim_z (distributed g pd c) = full_axis (dim_z g)"
  by (simp_all add: distributed_def)

lemma process_dimensions_cases:
  "process_dimensions mpi ny_global nx_global = Inr (py, px) \<Longrightarrow> 0 < ny_global \<Longrightarrow> 0 < nx_global \<Longrightarrow>
     (ny_global = 1 \<longrightarrow> py = 1) \<and> (nx_global = 1 \<longrightarrow> px = 1)"
  by (auto simp: process_dimensions_def split: if_splits option.splits)

text \<open>The index range of one axis of one process.\<close>

definition owns :: "grid_dimension \<Rightarrow> int \<Rightarrow> bool" where
  "owns d i \<longleftrightarrow> local_physical_start_idx d \<le> i \<and> i \<le> local_physical_end_idx d"

lemma distribute_y_owner:
  assumes "0 < global_size d" and "0 < py" and "0 \<le> j" and "j < global_size d"
  shows "\<exists>!c. 0 \<le> c \<and> c < py \<and> owns (distribute_y py c d) j"
proof -
  have "(0 \<le> c \<and> c < py \<and> owns (distribute_y py c d) j) \<longleftrightarrow>
      (0 \<le> c \<and> c < py \<and> split_start (global_size d) py c \<le> j \<and>
       j < split_start (global_size d) py c + split_size (global_size d) py c)" for c
    using assms by (auto simp: owns_def distribute_y_is_split axis_simps)
  then show ?thesis using split_owner [of "global_size d" py j] assms by simp
qed

lemma distribute_x_owner:
  assumes "0 < global_size d" and "0 < px" and "global_size d = 1 \<longrightarrow> px = 1"
    and "0 \<le> i" and "i < global_size d"
  shows "\<exists>!c. 0 \<le> c \<and> c < px \<and> owns (distribute_x px c d) i"
proof -
  have "(0 \<le> c \<and> c < px \<and> owns (distribute_x px c d) i) \<longleftrightarrow>
      (0 \<le> c \<and> c < px \<and> split_start (global_size d) px c \<le> i \<and>
       i < split_start (global_size d) px c + split_size (global_size d) px c)" for c
    using assms by (auto simp: owns_def distribute_x_is_split axis_simps)
  then show ?thesis using split_owner [of "global_size d" px i] assms by simp
qed

text \<open>The grids that the processes of one run compute: the same parameters everywhere, the
  coordinates of the process as answered by \<open>MPI_Cart_coords\<close>.\<close>

definition mpi_at :: "mpi_env \<Rightarrow> int \<times> int \<Rightarrow> mpi_env" where
  "mpi_at mpi c = mpi\<lparr>cart_create := (\<lambda>_ _. Some c)\<rparr>"

lemma calculate_at:
  assumes "calculate_local_grid_distribution (mpi_at mpi c) rad g = Inr g'"
    and "process_dimensions mpi (global_size (dim_y g)) (global_size (dim_x g)) = Inr pd"
  shows "g' = distributed g pd c"
proof -
  have eq: "process_dimensions (mpi_at mpi c) a b = process_dimensions mpi a b" for a b
    by (simp add: process_dimensions_def mpi_at_def)
  from assms(1) show ?thesis
    by (rule calculate_local_grid_distribution_InrE) (use assms(2) in \<open>auto simp: eq, simp add: mpi_at_def\<close>)
qed

text \<open>C7. Domain decomposition: when every process of a run has computed its grid, every cell
  of the global horizontal domain belongs to the local block of exactly one process.\<close>

theorem grid_cells_have_one_owner:
  assumes "0 < global_size (dim_y g)" and "0 < global_size (dim_x g)"
    and "process_dimensions mpi (global_size (dim_y g)) (global_size (dim_x g)) = Inr (py, px)"
    and "0 < py" and "0 < px"
    and "\<And>cy cx. 0 \<le> cy \<Longrightarrow> cy < py \<Longrightarrow> 0 \<le> cx \<Longrightarrow> cx < px \<Longrightarrow>
           calculate_local_grid_distribution (mpi_at mpi (cy, cx)) rad g = Inr (G (cy, cx))"
    and "0 \<le> j" and "j < global_size (dim_y g)" and "0 \<le> i" and "i < global_size (dim_x g)"
  shows "\<exists>!c. 0 \<le> fst c \<and> fst c < py \<and> 0 \<le> snd c \<and> snd c < px \<and>
              owns (dim_y (G c)) j \<and> owns (dim_x (G c)) i"
proof -
  have G: "G c = distributed g (py, px) c"
    if "0 \<le> fst c \<and> fst c < py \<and> 0 \<le> snd c \<and> snd c < px" for c
    using that assms(3,6) by (cases c) (auto intro: calculate_at)
  have px1: "global_size (dim_x g) = 1 \<longrightarrow> px = 1"
    using process_dimensions_cases assms(1-3) by blast
  obtain cy where cy: "\<And>c. 0 \<le> c \<and> c < py \<and> owns (distribute_y py c (dim_y g)) j \<longleftrightarrow> c = cy"
    using distribute_y_owner [of "dim_y g" py j] assms by blast
  obtain cx where cx: "\<And>c. 0 \<le> c \<and> c < px \<and> owns (distribute_x px c (dim_x g)) i \<longleftrightarrow> c = cx"
    using distribute_x_owner [of "dim_x g" px i] assms px1 by blast
  have "(0 \<le> fst c \<and> fst c < py \<and> 0 \<le> snd c \<and> snd c < px \<and>
         owns (dim_y (G c)) j \<and> owns (dim_x (G c)) i) \<longleftrightarrow> c = (cy, cx)" for c
    using cy [of "fst c"] cx [of "snd c"] G [of c] by (cases c) (auto simp: axis_simps)
  then show ?thesis by auto
qed

definition sample_grid :: "int \<Rightarrow> int \<Rightarrow> grid" where
  "sample_grid gy gx =
     \<lparr>dim_z = initial_dimension 4 (Fin 100) 2, dim_y = initial_dimension gy (Fin 100) 2,
      dim_x = initial_dimension gx (Fin 100) 2,
      grid_spec =
        \<lparr>horizontal =
           \<lparr>nx = gx, ny = gy, n_halo_cells = 2, fix_lonlat = False, geometry = default_geometry,
            topology = \<lparr>topo_q1 = Periodic, topo_q2 = Periodic\<rparr>\<rparr>,
         vertical = \<lparr>nz = 4, dz = Fin 100, dz1 = Fin 100, vtype = Default,
                     rcemip_grid_data_path = []\<rparr>\<rparr>\<rparr>"

definition sample_mpi :: mpi_env where
  "sample_mpi = \<lparr>mpi_size = 4, dims_create = (\<lambda>n. Some (2, 2)), cart_create = (\<lambda>_ _. Some (0, 0))\<rparr>"

text \<open>Five rows and seven columns over two by two processes: row 2 and column 5.\<close>

lemma grid_cells_have_one_owner_witness:
  "\<exists>!c. 0 \<le> fst c \<and> fst c < 2 \<and> 0 \<le> snd c \<and> snd c < (2::int) \<and>
        owns (dim_y (distributed (sample_grid 5 7) (2, 2) c)) 2 \<and>
        owns (dim_x (distributed (sample_grid 5 7) (2, 2) c)) 5"
proof (rule grid_cells_have_one_owner [where mpi = sample_mpi and rad = False])
  fix cy cx :: int
  assume "0 \<le> cy" "cy < 2" "0 \<le> cx" "cx < 2"
  then have "(cy = 0 \<or> cy = 1) \<and> (cx = 0 \<or> cx = 1)" by auto
  then show "calculate_local_grid_distribution (mpi_at sample_mpi (cy, cx)) False (sample_grid 5 7) =
      Inr (distributed (sample_grid 5 7) (2, 2) (cy, cx))"
    by (auto simp: calculate_local_grid_distribution_def Let_def mpi_at_def sample_mpi_def
        process_dimensions_def sample_grid_def distributed_def axis_simps distribute_y_def
        distribute_x_def split_axis_def split_nonneg)
qed (auto simp: sample_grid_def initial_dimension_def process_dimensions_def sample_mpi_def)

text \<open>Grid construction: a grid that the constructor returns has positive sizes, a halo of at
  least two cells in every direction, the whole vertical axis on every process and local
  blocks that are at least as wide as the halo in every direction with more than one cell.\<close>

theorem make_grid_ok: "make_grid mpi config = Inr g \<Longrightarrow> grid_ok g"
  by (rule make_grid_ok_aux)

definition sample_config :: json where
  "sample_config = JObject [(''grid'', JObject
     [(''nx'', JInt 6), (''ny'', JInt 4), (''nz'', JInt 3), (''n_halo_cells'', JInt 2),
      (''dx'', JInt 100), (''dy'', JInt 100), (''dz'', JInt 50), (''dz1'', JInt 50)])]"

lemma sample_config_find:
  "find_node sample_config ''grid.nx'' = Some (JInt 6)"
  "find_node sample_config ''grid.ny'' = Some (JInt 4)"
  "find_node sample_config ''grid.nz'' = Some (JInt 3)"
  "find_node sample_config ''grid.n_halo_cells'' = Some (JInt 2)"
  "find_node sample_config ''grid.dx'' = Some (JInt 100)"
  "find_node sample_config ''grid.dy'' = Some (JInt 100)"
  "find_node sample_config ''grid.dz'' = Some (JInt 50)"
  "find_node sample_config ''grid.dz1'' = Some (JInt 50)"
  "find_node sample_config ''grid.horizontal'' = None"
  "find_node sample_config ''grid.vertical'' = None"
  "find_node sample_config ''grid.fix_lonlat'' = None"
  "find_node sample_config ''grid.boundary_condition.x'' = None"
  "find_node sample_config ''grid.boundary_condition.y'' = None"
  "find_node sample_config ''grid.vertical_coordinate_type'' = None"
  "find_node sample_config ''grid.rcemip_grid_data_path'' = None"
  "find_node sample_config ''physics.rrtmgp.enable_rrtmgp'' = None"
  by code_simp+

lemma sample_config_spec:
  "grid_specification_from_config sample_config =
     Inr \<lparr>horizontal = \<lparr>nx = 6, ny = 4, n_halo_cells = 2, fix_lonlat = False,
            geometry = default_geometry\<lparr>dq1 := Fin 100, dq2 := Fin 100\<rparr>,
            topology = \<lparr>topo_q1 = Periodic, topo_q2 = Periodic\<rparr>\<rparr>,
          vertical = \<lparr>nz = 3, dz = Fin 50, dz1 = Fin 50, vtype = Default,
            rcemip_grid_data_path = default_rcemip_grid_data_path\<rparr>\<rparr>"
  by (simp add: grid_specification_from_config_def parse_legacy_horizontal_def
      parse_legacy_vertical_def has_key_def get_value_def get_value_default_def sample_config_find
      to_int32_id require_positive_integer_def require_valid_halo_width_def
      parse_legacy_boundary_def configure_cartesian_geometry_def require_finite_positive_def
      parse_vertical_coordinate_type_def validate_vertical_spec_def
      spacing_parameters_are_equal_def Let_def default_geometry_def)

lemma sample_make_grid:
  "make_grid sample_mpi sample_config =
     Inr (distributed
       \<lparr>dim_z = initial_dimension 3 (Fin 50) 2, dim_y = initial_dimension 4 (Fin 100) 2,
        dim_x = initial_dimension 6 (Fin 100) 2,
        grid_spec = projr (grid_specification_from_config sample_config)\<rparr> (2, 2) (0, 0))"
  by (simp add: make_grid_def sample_config_spec get_value_default_def sample_config_find Let_def
      calculate_local_grid_distribution_def sample_mpi_def process_dimensions_def distributed_def
      axis_simps distribute_y_def distribute_x_def split_nonneg default_geometry_def)

lemma make_grid_ok_witness:
  "\<exists>g. make_grid sample_mpi sample_config = Inr g \<and> grid_ok g \<and> local_physical_size (dim_x g) = 3"
  using make_grid_ok [OF sample_make_grid] sample_make_grid
  by (simp add: distributed_def distribute_x_def axis_simps split_nonneg)

section \<open>The check before the grid against the grid\<close>

definition values_match :: "numerical_configuration_values \<Rightarrow> grid \<Rightarrow> bool" where
  "values_match vs g \<longleftrightarrow>
     v_nx vs = global_size (dim_x g) \<and> v_ny vs = global_size (dim_y g) \<and>
     v_halo_width vs = num_halo_cells (dim_z g)"

definition dims_positive :: "mpi_env \<Rightarrow> bool" where
  "dims_positive mpi \<longleftrightarrow>
     (\<forall>py px. dims_create mpi (mpi_size mpi) = Some (py, px) \<longrightarrow> 0 < py \<and> 0 < px)"

lemma validation_dims_agree:
  assumes "validation_process_dims (dims_create mpi) vs (mpi_size mpi) = Inr vd"
    and "process_dimensions mpi (v_ny vs) (v_nx vs) = Inr pd" and "0 < v_nx vs" and "0 < v_ny vs"
  shows "vd = pd"
  using assms
  by (auto simp: validation_process_dims_def process_dimensions_def rbind_eq_Inr_iff
           split: if_splits option.splits)

lemma validation_InrD:
  assumes "validate_numerical_configuration_values dc vs ranks = Inr ()"
  obtains py px where "validation_process_dims dc vs ranks = Inr (py, px)" and "0 < ranks"
    and "0 < v_nx vs" and "0 < v_ny vs" and "2 \<le> v_halo_width vs"
    and "1 < v_nx vs \<longrightarrow> v_halo_width vs \<le> v_nx vs sdiv px"
    and "1 < v_ny vs \<longrightarrow> v_halo_width vs \<le> v_ny vs sdiv py"
  using assms unfolding validate_numerical_configuration_values_def
  by (auto simp: result_simps require_local_width_def Let_def split: if_splits)

lemma process_dims_positive:
  assumes "dims_positive mpi" and "0 < mpi_size mpi"
    and "process_dimensions mpi a b = Inr (py, px)"
  shows "0 < py \<and> 0 < px"
  using assms by (auto simp: process_dimensions_def dims_positive_def split: if_splits option.splits)

lemma wide_enough_distributed:
  assumes "0 < global_size (dim_y g)" and "0 < global_size (dim_x g)" and "0 < py" and "0 < px"
    and "1 < global_size (dim_x g) \<longrightarrow> num_halo_cells (dim_z g) \<le> global_size (dim_x g) sdiv px"
    and "1 < global_size (dim_y g) \<longrightarrow> num_halo_cells (dim_z g) \<le> global_size (dim_y g) sdiv py"
  shows "wide_enough (distributed g (py, px) c)"
proof -
  have "n sdiv p \<le> split_size n p d" for n p d by (simp add: split_size_def)
  moreover have "n sdiv 1 = n" if "0 < n" for n :: int using that by (simp add: sdiv_nonneg)
  ultimately show ?thesis
    using assms
    by (auto simp: wide_enough_def axis_simps distribute_y_def distribute_x_def
             intro: order_trans)
qed

text \<open>The startup check is sound for the grid: once the numerical configuration has been
  accepted, no process fails with a local domain narrower than the halo, whatever the
  coordinates MPI gives it.  The only assumption on MPI is that \<open>MPI_Dims_create\<close> answers with
  positive dimensions.\<close>

theorem validated_grid_is_wide_enough:
  assumes "validate_numerical_configuration_values (dims_create mpi) vs (mpi_size mpi) = Inr ()"
    and "values_match vs g" and "dims_positive mpi"
  shows "calculate_local_grid_distribution mpi rad g \<noteq> Inl Local_domain_narrower_than_halo"
proof
  assume "calculate_local_grid_distribution mpi rad g = Inl Local_domain_narrower_than_halo"
  then obtain pd c where pd: "process_dimensions mpi (v_ny vs) (v_nx vs) = Inr pd"
    and narrow: "\<not> wide_enough (distributed g pd c)"
    using assms(2) unfolding values_match_def
    by (metis calculate_local_grid_distribution_narrow)
  from assms(1) obtain py px where vd:
    "validation_process_dims (dims_create mpi) vs (mpi_size mpi) = Inr (py, px)"
    "0 < mpi_size mpi" "0 < v_nx vs" "0 < v_ny vs"
    "1 < v_nx vs \<longrightarrow> v_halo_width vs \<le> v_nx vs sdiv px"
    "1 < v_ny vs \<longrightarrow> v_halo_width vs \<le> v_ny vs sdiv py"
    by (rule validation_InrD)
  with pd have pd_eq: "pd = (py, px)" by (metis validation_dims_agree)
  with pd vd assms(3) have "0 < py \<and> 0 < px" using process_dims_positive by blast
  with vd assms(2) pd_eq narrow show False
    by (auto simp: values_match_def wide_enough_distributed)
qed

definition sample_values :: numerical_configuration_values where
  "sample_values = \<lparr>v_nx = 7, v_ny = 5, v_nz = 4, v_halo_width = 2, v_dx = Fin 100, v_dy = Fin 100,
     v_dz = Fin 100, v_dt = Fin 2, v_total_time = Fin 60, v_output_interval = Fin 10\<rparr>"

lemma validated_grid_is_wide_enough_witness:
  "calculate_local_grid_distribution sample_mpi False (sample_grid 5 7) \<noteq>
     Inl Local_domain_narrower_than_halo"
  by (rule validated_grid_is_wide_enough [where vs = sample_values])
     (simp_all add: validate_numerical_configuration_values_def sample_values_def sample_mpi_def
        check_finite_positive_def validation_process_dims_def require_local_width_def sdiv_nonneg
        values_match_def sample_grid_def initial_dimension_def dims_positive_def)

lemma split_size_last: "0 \<le> n \<Longrightarrow> 0 < p \<Longrightarrow> split_size n p (p - 1) = n div p"
proof -
  assume "0 \<le> n" "0 < p"
  moreover from this have "\<not> p - 1 < n mod p" using pos_mod_bound [of p n] by linarith
  ultimately show ?thesis by (simp add: split_nonneg)
qed

lemma calculate_at_eq:
  assumes "process_dimensions mpi (global_size (dim_y g)) (global_size (dim_x g)) = Inr pd"
  shows "calculate_local_grid_distribution (mpi_at mpi c) False g =
     (if wide_enough (distributed g pd c) then Inr (distributed g pd c)
      else Inl Local_domain_narrower_than_halo)"
proof -
  have "process_dimensions (mpi_at mpi c) a b = process_dimensions mpi a b" for a b
    by (simp add: process_dimensions_def mpi_at_def)
  with assms show ?thesis
    by (cases pd; cases c)
       (auto simp: calculate_local_grid_distribution_def Let_def mpi_at_def distributed_def
          wide_enough_def axis_simps)
qed

lemma last_process_wide_enough:
  assumes "0 < global_size (dim_y g)" and "0 < global_size (dim_x g)" and "0 < py" and "0 < px"
  shows "wide_enough (distributed g (py, px) (py - 1, px - 1)) \<longleftrightarrow>
    (1 < global_size (dim_x g) \<longrightarrow> num_halo_cells (dim_z g) \<le> global_size (dim_x g) sdiv px) \<and>
    (1 < global_size (dim_y g) \<longrightarrow> num_halo_cells (dim_z g) \<le> global_size (dim_y g) sdiv py)"
  using assms
  by (auto simp: wide_enough_def axis_simps distribute_y_def distribute_x_def split_size_last
        sdiv_nonneg)

text \<open>C9. The check is also exact: where it rejects the local width although the sizes are
  positive, the last process in that direction would find its local domain too narrow.\<close>

theorem width_rejection_is_exact:
  assumes "0 < global_size (dim_y g)" and "0 < global_size (dim_x g)" and "0 < py" and "0 < px"
    and "process_dimensions mpi (global_size (dim_y g)) (global_size (dim_x g)) = Inr (py, px)"
  shows "(\<exists>c. 0 \<le> fst c \<and> fst c < py \<and> 0 \<le> snd c \<and> snd c < px \<and>
              calculate_local_grid_distribution (mpi_at mpi c) False g =
                Inl Local_domain_narrower_than_halo) \<longleftrightarrow>
         (global_size (dim_x g) > 1 \<and>
            require_local_width ''X'' (global_size (dim_x g)) px (num_halo_cells (dim_z g)) \<noteq> Inr ()) \<or>
         (global_size (dim_y g) > 1 \<and>
            require_local_width ''Y'' (global_size (dim_y g)) py (num_halo_cells (dim_z g)) \<noteq> Inr ())"
proof -
  have "(\<exists>c. 0 \<le> fst c \<and> fst c < py \<and> 0 \<le> snd c \<and> snd c < px \<and>
             \<not> wide_enough (distributed g (py, px) c)) \<longleftrightarrow>
        \<not> wide_enough (distributed g (py, px) (py - 1, px - 1))"
  proof
    assume "\<exists>c. 0 \<le> fst c \<and> fst c < py \<and> 0 \<le> snd c \<and> snd c < px \<and>
             \<not> wide_enough (distributed g (py, px) c)"
    then show "\<not> wide_enough (distributed g (py, px) (py - 1, px - 1))"
      using assms last_process_wide_enough [of g py px] wide_enough_distributed [of g py px] by blast
  next
    assume "\<not> wide_enough (distributed g (py, px) (py - 1, px - 1))"
    then show "\<exists>c. 0 \<le> fst c \<and> fst c < py \<and> 0 \<le> snd c \<and> snd c < px \<and>
             \<not> wide_enough (distributed g (py, px) c)"
      using assms by (intro exI [of _ "(py - 1, px - 1)"]) simp
  qed
  then show ?thesis
    using last_process_wide_enough [of g py px] assms
    by (simp add: calculate_at_eq [OF assms(5)] require_local_width_def Let_def) (simp only: not_le [symmetric], blast)
qed

lemma width_rejection_is_exact_witness:
  "\<exists>c. 0 \<le> fst c \<and> fst c < 2 \<and> 0 \<le> snd c \<and> snd c < (2::int) \<and>
       calculate_local_grid_distribution (mpi_at sample_mpi c) False (sample_grid 5 3) =
         Inl Local_domain_narrower_than_halo"
  using width_rejection_is_exact [of "sample_grid 5 3" 2 2 sample_mpi]
  by (simp add: sample_grid_def initial_dimension_def process_dimensions_def sample_mpi_def
      require_local_width_def sdiv_nonneg)

text \<open>The extents of the sample grid with three cells in each horizontal direction, on one process.\<close>

lemma sample_extents:
  "get_halo_cells (distributed (sample_grid 3 3) (1, 1) (0, 0)) = 2"
  "get_local_total_points_z (distributed (sample_grid 3 3) (1, 1) (0, 0)) = 8"
  "get_local_total_points_y (distributed (sample_grid 3 3) (1, 1) (0, 0)) = 7"
  "get_local_total_points_x (distributed (sample_grid 3 3) (1, 1) (0, 0)) = 7"
  by (simp_all add: sample_grid_def initial_dimension_def distributed_def distribute_y_def distribute_x_def
      split_axis_def Let_def split_nonneg full_axis_def get_halo_cells_def get_local_total_points_z_def
      get_local_total_points_y_def get_local_total_points_x_def)

end
