(* ===== verification/Boundary_Stencils.thy ===== *)
theory Boundary_Stencils
  imports Halo_Degenerate Grid_Decomp
begin

text \<open>
  \<open>core/boundary/HorizontalBoundaryStencils\<close>: the halo rows behind a bounded q2 edge.  A
  process fills the rows behind the south edge when its block starts at global row 0 and the
  rows behind the north edge when its block ends at the last global row.  The metric terms
  that the oblique stencils use are the values of the geometry at the V and the U points
  (\<open>q2_metric\<close>); Real is \<open>real\<close>, without rounding.  Not modelled: the conversion between
  physical and contravariant wind (\<open>fill_free_slip_physical_wind_halos\<close>).
\<close>

section \<open>Rows\<close>

datatype stencil_error = Requires_bounded_q2 | Extents_differ

definition horizontal_boundary_stencils :: "grid \<Rightarrow> stencil_error + grid" where
  "horizontal_boundary_stencils g =
     rbind (throw_if (ny (horizontal (grid_spec g)) > 1 \<and>
              topo_q2 (topology (horizontal (grid_spec g))) \<noteq> Bounded) Requires_bounded_q2)
       (\<lambda>_. Inr g)"

definition is_south_boundary :: "grid \<Rightarrow> bool" where
  "is_south_boundary g \<longleftrightarrow> local_physical_start_idx (dim_y g) = 0"

definition is_north_boundary :: "grid \<Rightarrow> bool" where
  "is_north_boundary g \<longleftrightarrow> local_physical_end_idx (dim_y g) = global_size (dim_y g) - 1"

text \<open>One kernel over \<open>rows\<close> rows of every column, for the two- and the three-dimensional
  instance; a work item is \<open>(0, k, row, i)\<close>.\<close>

definition over_rows ::
  "int \<Rightarrow> (cell \<Rightarrow> cell) \<Rightarrow> (cell \<Rightarrow> (cell \<Rightarrow> 'a) \<Rightarrow> 'a) \<Rightarrow> 'a field \<Rightarrow> 'a field" where
  "over_rows rows wr rd f =
     (if fdim f = 2 then
        f\<lparr>fdata := parallel_for (mdrange2 0 0 rows (ext_x f))
          (assign (\<lambda>(d, i). wr (0, 0, d, i)) (\<lambda>(d, i). rd (0, 0, d, i))) (fdata f)\<rparr>
      else if fdim f = 3 then
        f\<lparr>fdata := parallel_for (mdrange3 0 0 0 (ext_z f) rows (ext_x f))
          (assign (\<lambda>(k, d, i). wr (0, k, d, i)) (\<lambda>(k, d, i). rd (0, k, d, i))) (fdata f)\<rparr>
      else f)"

section \<open>Stencils\<close>

definition fill_constant_q2_halos :: "grid \<Rightarrow> 'a field \<Rightarrow> 'a field" where
  "fill_constant_q2_halos g f =
     (let halo = get_halo_cells g; ny' = ext_y f in
      if halo = 0 \<or> global_size (dim_y g) = 1 then f
      else
        (let f1 = (if is_south_boundary g
                   then over_rows halo (\<lambda>(w, k, d, i). (w, k, d, i))
                          (\<lambda>(w, k, d, i) dat. dat (w, k, halo, i)) f
                   else f)
         in if is_north_boundary g
            then over_rows halo (\<lambda>(w, k, d, i). (w, k, ny' - halo + d, i))
                   (\<lambda>(w, k, d, i) dat. dat (w, k, ny' - halo - 1, i)) f1
            else f1))"

definition fill_centered_q2_neumann_halos :: "grid \<Rightarrow> 'a field \<Rightarrow> 'a field" where
  "fill_centered_q2_neumann_halos g f =
     (let halo = get_halo_cells g; ny' = ext_y f in
      if halo = 0 \<or> global_size (dim_y g) = 1 then f
      else
        (let f1 = (if is_south_boundary g
                   then over_rows halo (\<lambda>(w, k, d, i). (w, k, halo - 1 - d, i))
                          (\<lambda>(w, k, d, i) dat. dat (w, k, halo + d, i)) f
                   else f)
         in if is_north_boundary g
            then over_rows halo (\<lambda>(w, k, d, i). (w, k, ny' - halo + d, i))
                   (\<lambda>(w, k, d, i) dat. dat (w, k, ny' - halo - 1 - d, i)) f1
            else f1))"

definition fill_positive_face_q2_homogeneous_dirichlet_halos :: "grid \<Rightarrow> real field \<Rightarrow> real field" where
  "fill_positive_face_q2_homogeneous_dirichlet_halos g f =
     (let halo = get_halo_cells g; ny' = ext_y f in
      if halo = 0 \<or> global_size (dim_y g) = 1 then f
      else
        (let f1 = (if is_south_boundary g
                   then (let wall = halo - 1 in
                         over_rows halo (\<lambda>(w, k, d, i). (w, k, wall - d, i))
                           (\<lambda>(w, k, d, i) dat. if d = 0 then 0 else - dat (w, k, wall + d, i)) f)
                   else f)
         in if is_north_boundary g
            then (let wall = ny' - halo - 1 in
                  over_rows (halo + 1) (\<lambda>(w, k, d, i). (w, k, wall + d, i))
                    (\<lambda>(w, k, d, i) dat. if d = 0 then 0 else - dat (w, k, wall - d, i)) f1)
            else f1))"

definition fill_positive_face_q2_dirichlet_halos ::
  "grid \<Rightarrow> real \<Rightarrow> real \<Rightarrow> real field \<Rightarrow> real field" where
  "fill_positive_face_q2_dirichlet_halos g south north f =
     (let f0 = fill_positive_face_q2_homogeneous_dirichlet_halos g f;
          h = get_halo_cells g; ny' = get_local_total_points_y g; nx' = get_local_total_points_x g;
          f1 = (if south \<noteq> 0 \<and> is_south_boundary g
                then f0\<lparr>fdata := parallel_for (mdrange2 0 0 h nx')
                  (assign (\<lambda>(d, i). (0, 0, h - 1 - d, i))
                     (\<lambda>(d, i) dat. dat (0, 0, h - 1 - d, i) + (if d = 0 then 1 else 2) * south))
                  (fdata f0)\<rparr>
                else f0)
      in if north \<noteq> 0 \<and> is_north_boundary g
         then f1\<lparr>fdata := parallel_for (mdrange2 0 0 (h + 1) nx')
           (assign (\<lambda>(d, i). (0, 0, ny' - h - 1 + d, i))
              (\<lambda>(d, i) dat. dat (0, 0, ny' - h - 1 + d, i) + (if d = 0 then 1 else 2) * north))
           (fdata f1)\<rparr>
         else f1)"

text \<open>The metric terms at the V and U points as functions of \<open>(j, i)\<close>.\<close>

record q2_metric =
  v_c12 :: "int \<times> int \<Rightarrow> real"
  v_c22 :: "int \<times> int \<Rightarrow> real"
  v_g11 :: "int \<times> int \<Rightarrow> real"
  v_g12 :: "int \<times> int \<Rightarrow> real"
  v_inv_j :: "int \<times> int \<Rightarrow> real"
  u_g11 :: "int \<times> int \<Rightarrow> real"
  u_g12 :: "int \<times> int \<Rightarrow> real"
  u_inv_j :: "int \<times> int \<Rightarrow> real"
  metric_dq1 :: real
  metric_dq2 :: real

text \<open>\<open>weighted_cross<TargetU>\<close> of \<open>core/geometry/StaggeredVectorTransform.hpp\<close>.\<close>

definition weighted_cross ::
  "bool \<Rightarrow> real field \<Rightarrow> (int \<times> int \<Rightarrow> real) \<Rightarrow> int \<Rightarrow> int \<Rightarrow> int \<Rightarrow> real" where
  "weighted_cross target_u source coefficient k j i =
     (let nj = ext_y source; ni = ext_x source;
          j2 = (if target_u then (if j > 0 then j - 1 else j) else (if j + 1 < nj then j + 1 else j));
          i2 = (if target_u then (if i + 1 < ni then i + 1 else i) else (if i > 0 then i - 1 else i));
          s = (\<lambda>j i. fdata source (0, k, j, i))
      in 0.25 * (coefficient (j, i) * s j i + coefficient (j2, i) * s j2 i +
                 coefficient (j, i2) * s j i2 + coefficient (j2, i2) * s j2 i2))"

definition fill_physical_q2_neumann_halos :: "grid \<Rightarrow> q2_metric \<Rightarrow> real field \<Rightarrow> real field" where
  "fill_physical_q2_neumann_halos g m f =
     (let h = get_halo_cells g in
      if h = 0 \<or> global_size (dim_y g) = 1 then f
      else
        (let ny' = get_local_total_points_y g; nx' = get_local_total_points_x g;
             nz' = (if fdim f = 3 then get_local_total_points_z g else 1);
             spacing = metric_dq2 m / (2 * metric_dq1 m);
             side = (\<lambda>south f.
               let wall = (if south then h - 1 else ny' - h - 1) in
               f\<lparr>fdata := parallel_for (mdrange3 0 0 0 nz' h nx')
                 (assign
                   (\<lambda>(k, d, i). (0, if fdim f = 3 then k else 0,
                                 if south then h - 1 - d else ny' - h + d, i))
                   (\<lambda>(k, d, i) values.
                      let k' = (if fdim f = 3 then k else 0);
                          interior = (if south then h + d else ny' - h - 1 - d);
                          im = (if i > 0 then i - 1 else i); ip = (if i + 1 < nx' then i + 1 else i);
                          scale = (if south then 1 else -1) * of_int (2 * d + 1) * spacing *
                                  v_c12 m (wall, i) / v_c22 m (wall, i)
                      in values (0, k', interior, i) +
                         scale * (values (0, k', interior, ip) - values (0, k', interior, im))))
                 (fdata f)\<rparr>);
             f1 = (if is_south_boundary g then side True f else f)
         in if is_north_boundary g then side False f1 else f1))"

text \<open>One side of the vector stencils: the wall row, the direction away from the domain and
  the rows that mirror each other.\<close>

definition wall_row :: "int \<Rightarrow> int \<Rightarrow> bool \<Rightarrow> int" where
  "wall_row h ny' south = (if south then h - 1 else ny' - h - 1)"

definition face_exterior :: "int \<Rightarrow> int \<Rightarrow> bool \<Rightarrow> int \<Rightarrow> int" where
  "face_exterior h ny' south d = wall_row h ny' south + (if south then -1 else 1) * d"

definition face_interior :: "int \<Rightarrow> int \<Rightarrow> bool \<Rightarrow> int \<Rightarrow> int" where
  "face_interior h ny' south d = wall_row h ny' south - (if south then -1 else 1) * d"

definition center_exterior :: "int \<Rightarrow> int \<Rightarrow> bool \<Rightarrow> int \<Rightarrow> int" where
  "center_exterior h ny' south d = (if south then h - 1 - d else ny' - h + d)"

definition center_interior :: "int \<Rightarrow> int \<Rightarrow> bool \<Rightarrow> int \<Rightarrow> int" where
  "center_interior h ny' south d = (if south then h + d else ny' - h - 1 - d)"

definition wind_side ::
  "int \<Rightarrow> q2_metric \<Rightarrow> bool \<Rightarrow> bool \<Rightarrow> real field \<times> real field \<Rightarrow> real field \<times> real field" where
  "wind_side h m scalar_flux south s =
     (let (q1, q2) = s; nz' = ext_z q1; ny' = ext_y q1; nx' = ext_x q1;
          cnt = (if south then h else h + 1);
          q2' = q2\<lparr>fdata := parallel_for (mdrange3 0 0 0 nz' cnt nx')
            (assign (\<lambda>(k, d, i). (0, k, face_exterior h ny' south d, i))
               (\<lambda>(k, d, i) dat.
                  let ex = face_exterior h ny' south d; int = face_interior h ny' south d
                  in if d = 0 then 0
                     else - dat (0, k, int, i) * sqrt (v_g11 m (ex, i) / v_g11 m (int, i)) *
                          v_inv_j m (ex, i) / v_inv_j m (int, i)))
            (fdata q2)\<rparr>;
          q1' = q1\<lparr>fdata := parallel_for (mdrange3 0 0 0 nz' h nx')
            (assign (\<lambda>(k, d, i). (0, k, center_exterior h ny' south d, i))
               (\<lambda>(k, d, i) dat.
                  let ex = center_exterior h ny' south d; int = center_interior h ny' south d;
                      cov = u_g11 m (int, i) * dat (0, k, int, i) +
                            weighted_cross True q2' (v_g12 m) k int i;
                      cov' = (if scalar_flux then cov * sqrt (u_g11 m (ex, i) / u_g11 m (int, i)) else cov)
                  in (cov' - weighted_cross True q2' (v_g12 m) k ex i) / u_g11 m (ex, i)))
            (fdata q1)\<rparr>
      in (q1', q2'))"

definition fill_contravariant_wind_halos ::
  "grid \<Rightarrow> q2_metric \<Rightarrow> bool \<Rightarrow> real field \<times> real field \<Rightarrow> stencil_error + real field \<times> real field" where
  "fill_contravariant_wind_halos g m scalar_flux s =
     (let h = get_halo_cells g in
      if h = 0 \<or> global_size (dim_y g) = 1 then Inr s
      else
        rbind (throw_if (ext_z (snd s) \<noteq> ext_z (fst s) \<or> ext_y (snd s) \<noteq> ext_y (fst s) \<or>
                 ext_x (snd s) \<noteq> ext_x (fst s)) Extents_differ) (\<lambda>_.
        let s1 = (if is_south_boundary g then wind_side h m scalar_flux True s else s)
        in Inr (if is_north_boundary g then wind_side h m scalar_flux False s1 else s1)))"

definition fill_contravariant_scalar_mass_flux_halos ::
  "grid \<Rightarrow> q2_metric \<Rightarrow> real field \<times> real field \<Rightarrow> stencil_error + real field \<times> real field" where
  "fill_contravariant_scalar_mass_flux_halos g m s = fill_contravariant_wind_halos g m True s"

definition vorticity_side ::
  "int \<Rightarrow> q2_metric \<Rightarrow> bool \<Rightarrow> real field \<times> real field \<Rightarrow> real field \<times> real field" where
  "vorticity_side h m south s =
     (let (x, e) = s; nz' = ext_z x; ny' = ext_y x; nx' = ext_x x;
          cnt = (if south then h else h + 1);
          e' = e\<lparr>fdata := parallel_for (mdrange3 0 0 0 nz' h nx')
            (assign (\<lambda>(k, d, i). (0, k, center_exterior h ny' south d, i))
               (\<lambda>(k, d, i) dat.
                  let ex = center_exterior h ny' south d; int = center_interior h ny' south d
                  in dat (0, k, int, i) * sqrt (u_g11 m (ex, i) / u_g11 m (int, i)) *
                     u_inv_j m (ex, i) / u_inv_j m (int, i)))
            (fdata e)\<rparr>;
          x' = x\<lparr>fdata := parallel_for (mdrange3 0 0 0 nz' cnt nx')
            (assign (\<lambda>(k, d, i). (0, k, face_exterior h ny' south d, i))
               (\<lambda>(k, d, i) dat.
                  let ex = face_exterior h ny' south d; int = face_interior h ny' south d;
                      cov = (if d = 0 then 0
                             else - (v_g11 m (int, i) * dat (0, k, int, i) -
                                     weighted_cross False e' (u_g12 m) k int i) *
                                  sqrt (v_g11 m (ex, i) / v_g11 m (int, i)))
                  in (cov + weighted_cross False e' (u_g12 m) k ex i) / v_g11 m (ex, i)))
            (fdata x)\<rparr>
      in (x', e'))"

definition fill_contravariant_vorticity_halos ::
  "grid \<Rightarrow> q2_metric \<Rightarrow> real field \<times> real field \<Rightarrow> real field \<times> real field" where
  "fill_contravariant_vorticity_halos g m s =
     (let h = get_halo_cells g in
      if h = 0 \<or> global_size (dim_y g) = 1 then s
      else
        (let s1 = (if is_south_boundary g then vorticity_side h m True s else s)
         in if is_north_boundary g then vorticity_side h m False s1 else s1))"

section \<open>Row kernels\<close>

text \<open>A kernel that writes row \<open>tgt d\<close> of every column and reads rows it does not write.\<close>

locale row_kernel =
  fixes nz' nx' rows :: int and tgt :: "int \<Rightarrow> int" and rd :: "cell \<Rightarrow> (cell \<Rightarrow> 'a) \<Rightarrow> 'a"
  assumes inj_tgt: "inj_on tgt {0..<rows}"
    and free: "\<And>w k d i w' k' d' i' dat v. 0 \<le> d \<Longrightarrow> d < rows \<Longrightarrow> 0 \<le> d' \<Longrightarrow> d' < rows \<Longrightarrow>
      rd (w, k, d, i) (dat((w', k', tgt d', i') := v)) = rd (w, k, d, i) dat"

sublocale row_kernel \<subseteq> rows: kernel "mdrange4 0 0 0 0 1 nz' rows nx'"
  "\<lambda>(w, k, d, i). (w, k, tgt d, i)" rd
  by unfold_locales
     (auto simp: range_simps inj_on_def free dest: inj_onD [OF inj_tgt])

context row_kernel
begin

abbreviation run_rows :: "(cell \<Rightarrow> 'a) \<Rightarrow> cell \<Rightarrow> 'a" where
  "run_rows \<equiv> parallel_for (mdrange4 0 0 0 0 1 nz' rows nx') (assign (\<lambda>(w, k, d, i). (w, k, tgt d, i)) rd)"

lemma row_result:
  "0 \<le> k \<Longrightarrow> k < nz' \<Longrightarrow> 0 \<le> d \<Longrightarrow> d < rows \<Longrightarrow> 0 \<le> i \<Longrightarrow> i < nx' \<Longrightarrow>
     run_rows dat (0, k, tgt d, i) = rd (0, k, d, i) dat"
  using rows.result [of "(0, k, d, i)" dat] by (simp add: range_simps)

lemma row_frame: "j \<notin> tgt ` {0..<rows} \<Longrightarrow> run_rows dat (w, k, j, i) = dat (w, k, j, i)"
  by (rule parallel_for_frame) (auto simp: range_simps image_iff)

end

lemma over_rows_4:
  assumes "field_wf f" and "fdim f \<in> {2, 3}"
  shows "over_rows rows wr rd f =
    f\<lparr>fdata := parallel_for (mdrange4 0 0 0 0 1 (ext_z f) rows (ext_x f)) (assign wr rd) (fdata f)\<rparr>"
proof -
  consider "fdim f = 2" | "fdim f = 3" using assms(2) by blast
  then show ?thesis
    by cases (simp_all add: over_rows_def parallel_for_2_as_4 parallel_for_3_as_4 field_wf_extents assms,
        (rule arg_cong [where f = "\<lambda>d. f\<lparr>fdata := d\<rparr>"], rule parallel_for_cong [OF refl],
         auto simp: assign_def fun_eq_iff range_simps dest!: unit_index simp del: fun_upd_apply)+)
qed

lemma over_rows_shape [simp]:
  "fdim (over_rows rows wr rd f) = fdim f" "ext_w (over_rows rows wr rd f) = ext_w f"
  "ext_z (over_rows rows wr rd f) = ext_z f" "ext_y (over_rows rows wr rd f) = ext_y f"
  "ext_x (over_rows rows wr rd f) = ext_x f" "field_wf (over_rows rows wr rd f) = field_wf f"
  by (simp_all add: over_rows_def field_wf_def)

interpretation constant_south: row_kernel nz' nx' rows "\<lambda>d. d"
  "\<lambda>(w, k, d, i) dat. dat (w, k, rows, i)" for nz' nx' rows
  by unfold_locales auto

interpretation constant_north: row_kernel nz' nx' rows "\<lambda>d. b + d"
  "\<lambda>(w, k, d, i) dat. dat (w, k, b - 1, i)" for nz' nx' rows b
  by unfold_locales auto

interpretation neumann_south: row_kernel nz' nx' rows "\<lambda>d. rows - 1 - d"
  "\<lambda>(w, k, d, i) dat. dat (w, k, rows + d, i)" for nz' nx' rows
  by unfold_locales (auto simp: inj_on_def)

interpretation neumann_north: row_kernel nz' nx' rows "\<lambda>d. b + d"
  "\<lambda>(w, k, d, i) dat. dat (w, k, b - 1 - d, i)" for nz' nx' rows b
  by unfold_locales (auto simp: inj_on_def)

interpretation dirichlet_south: row_kernel nz' nx' rows "\<lambda>d. wall - d"
  "\<lambda>(w, k, d, i) dat. if d = 0 then 0 else - dat (w, k, wall + d, i) :: real" for nz' nx' rows wall
  by unfold_locales (auto simp: inj_on_def)

interpretation dirichlet_north: row_kernel nz' nx' rows "\<lambda>d. wall + d"
  "\<lambda>(w, k, d, i) dat. if d = 0 then 0 else - dat (w, k, wall - d, i) :: real" for nz' nx' rows wall
  by unfold_locales (auto simp: inj_on_def)

section \<open>Reflections\<close>

lemma centered_neumann_cells:
  assumes f: "field_wf f" "fdim f \<in> {2, 3}" and h: "h = get_halo_cells g" "0 < h"
    and many: "global_size (dim_y g) \<noteq> 1" and n: "ext_y f = n + 2 * h" "h \<le> n"
    and k: "0 \<le> k" "k < ext_z f" and i: "0 \<le> i" "i < ext_x f"
  shows "fdata (fill_centered_q2_neumann_halos g f) (0, k, j, i) =
    (if is_south_boundary g \<and> 0 \<le> j \<and> j < h then fdata f (0, k, 2 * h - 1 - j, i)
     else if is_north_boundary g \<and> n + h \<le> j \<and> j < n + 2 * h
     then fdata f (0, k, 2 * (n + h) - 1 - j, i)
     else fdata f (0, k, j, i))"
proof -
  define f1 where "f1 = (if is_south_boundary g
     then over_rows h (\<lambda>(w, k, d, i). (w, k, h - 1 - d, i)) (\<lambda>(w, k, d, i) dat. dat (w, k, h + d, i)) f else f)"
  have f1_wf: "field_wf f1" "fdim f1 \<in> {2, 3}" "ext_z f1 = ext_z f" "ext_x f1 = ext_x f"
    using f by (simp_all add: f1_def)
  have f1_cell: "fdata f1 (0, k, j, i) =
      (if is_south_boundary g \<and> 0 \<le> j \<and> j < h then fdata f (0, k, 2 * h - 1 - j, i) else fdata f (0, k, j, i))" for j
  proof (cases "is_south_boundary g")
    case True
    show ?thesis
    proof (cases "0 \<le> j \<and> j < h")
      case inside: True
      then show ?thesis
        using neumann_south.row_result [of k "ext_z f" "h - 1 - j" h i "ext_x f" "fdata f"] k i True
        by (simp add: f1_def over_rows_4 [OF f]) (simp add: algebra_simps)
    next
      case False
      then have "j \<notin> (\<lambda>d. h - 1 - d) ` {0..<h}" by auto
      then show ?thesis
        using True False neumann_south.row_frame [of j h "ext_z f" "ext_x f" "fdata f" 0 k i]
        by (auto simp: f1_def over_rows_4 [OF f])
    qed
  qed (simp add: f1_def)
  have eq: "fill_centered_q2_neumann_halos g f =
      (if is_north_boundary g
       then over_rows h (\<lambda>(w, k, d, i). (w, k, n + h + d, i)) (\<lambda>(w, k, d, i) dat. dat (w, k, n + h - 1 - d, i)) f1
       else f1)"
    using h many n by (simp add: fill_centered_q2_neumann_halos_def f1_def Let_def add.commute [of n])
  show ?thesis
  proof (cases "is_north_boundary g")
    case True
    show ?thesis
    proof (cases "n + h \<le> j \<and> j < n + 2 * h")
      case inside: True
      then have "fdata (fill_centered_q2_neumann_halos g f) (0, k, j, i) = fdata f1 (0, k, 2 * (n + h) - 1 - j, i)"
        using neumann_north.row_result [of k "ext_z f" "j - (n + h)" h i "ext_x f" "n + h" "fdata f1"] k i True
        by (simp add: eq over_rows_4 [OF f1_wf(1,2)] f1_wf) (simp add: algebra_simps)
      with inside n h show ?thesis by (simp add: f1_cell True)
    next
      case False
      then have "j \<notin> (\<lambda>d. n + h + d) ` {0..<h}" by auto
      then have "fdata (fill_centered_q2_neumann_halos g f) (0, k, j, i) = fdata f1 (0, k, j, i)"
        using True neumann_north.row_frame [of j "n + h" h "ext_z f" "ext_x f" "fdata f1" 0 k i]
        by (simp add: eq over_rows_4 [OF f1_wf(1,2)] f1_wf)
      with False show ?thesis by (auto simp: f1_cell)
    qed
  next
    case False
    then show ?thesis by (simp add: eq f1_cell)
  qed
qed

lemma positive_face_dirichlet_cells:
  assumes f: "field_wf f" "fdim f \<in> {2, 3}" and h: "h = get_halo_cells g" "0 < h"
    and many: "global_size (dim_y g) \<noteq> 1" and n: "ext_y f = n + 2 * h" "h \<le> n"
    and k: "0 \<le> k" "k < ext_z f" and i: "0 \<le> i" "i < ext_x f"
  shows "fdata (fill_positive_face_q2_homogeneous_dirichlet_halos g f) (0, k, j, i) =
    (let south = (\<lambda>j. if is_south_boundary g \<and> 0 \<le> j \<and> j < h
                      then (if j = h - 1 then 0 else - fdata f (0, k, 2 * (h - 1) - j, i))
                      else fdata f (0, k, j, i));
         wall = n + h - 1
     in if is_north_boundary g \<and> wall \<le> j \<and> j \<le> wall + h
        then (if j = wall then 0 else - south (2 * wall - j)) else south j)"
proof -
  define f1 where "f1 = (if is_south_boundary g
     then over_rows h (\<lambda>(w, k, d, i). (w, k, h - 1 - d, i))
            (\<lambda>(w, k, d, i) dat. if d = 0 then 0 else - dat (w, k, h - 1 + d, i)) f else f)"
  have f1_wf: "field_wf f1" "fdim f1 \<in> {2, 3}" "ext_z f1 = ext_z f" "ext_x f1 = ext_x f"
    using f by (simp_all add: f1_def)
  have f1_cell: "fdata f1 (0, k, j, i) =
      (if is_south_boundary g \<and> 0 \<le> j \<and> j < h
       then (if j = h - 1 then 0 else - fdata f (0, k, 2 * (h - 1) - j, i)) else fdata f (0, k, j, i))" for j
  proof (cases "is_south_boundary g")
    case True
    show ?thesis
    proof (cases "0 \<le> j \<and> j < h")
      case inside: True
      then have "fdata f1 (0, k, j, i) =
          (if h - 1 - j = 0 then 0 else - fdata f (0, k, h - 1 + (h - 1 - j), i))"
        using dirichlet_south.row_result [of k "ext_z f" "h - 1 - j" h i "ext_x f" "h - 1" "fdata f"] k i True
        by (simp add: f1_def over_rows_4 [OF f])
      also have "h - 1 + (h - 1 - j) = 2 * (h - 1) - j" by simp
      finally show ?thesis using inside True by auto
    next
      case False
      then have "j \<notin> (\<lambda>d. h - 1 - d) ` {0..<h}" by auto
      then show ?thesis
        using True False dirichlet_south.row_frame [of j "h - 1" h "ext_z f" "ext_x f" "fdata f" 0 k i]
        by (auto simp: f1_def over_rows_4 [OF f])
    qed
  qed (simp add: f1_def)
  have eq: "fill_positive_face_q2_homogeneous_dirichlet_halos g f =
      (if is_north_boundary g
       then over_rows (h + 1) (\<lambda>(w, k, d, i). (w, k, n + h - 1 + d, i))
              (\<lambda>(w, k, d, i) dat. if d = 0 then 0 else - dat (w, k, n + h - 1 - d, i)) f1
       else f1)"
    using h many n
    by (simp add: fill_positive_face_q2_homogeneous_dirichlet_halos_def f1_def Let_def add.commute [of n] cong: if_cong)
  show ?thesis
  proof (cases "is_north_boundary g")
    case True
    show ?thesis
    proof (cases "n + h - 1 \<le> j \<and> j \<le> n + h - 1 + h")
      case inside: True
      then have "fdata (fill_positive_face_q2_homogeneous_dirichlet_halos g f) (0, k, j, i) =
          (if j - (n + h - 1) = 0 then 0 else - fdata f1 (0, k, n + h - 1 - (j - (n + h - 1)), i))"
        using dirichlet_north.row_result [of k "ext_z f" "j - (n + h - 1)" "h + 1" i "ext_x f" "n + h - 1" "fdata f1"] k i True
        by (simp add: eq over_rows_4 [OF f1_wf(1,2)] f1_wf)
      also have "n + h - 1 - (j - (n + h - 1)) = 2 * (n + h - 1) - j" by simp
      finally show ?thesis using inside True by (simp add: f1_cell Let_def)
    next
      case False
      then have "j \<notin> (\<lambda>d. n + h - 1 + d) ` {0..<h + 1}" by auto
      then have "fdata (fill_positive_face_q2_homogeneous_dirichlet_halos g f) (0, k, j, i) = fdata f1 (0, k, j, i)"
        using True dirichlet_north.row_frame [of j "n + h - 1" "h + 1" "ext_z f" "ext_x f" "fdata f1" 0 k i]
        by (simp add: eq over_rows_4 [OF f1_wf(1,2)] f1_wf)
      moreover have "(is_north_boundary g \<and> n + h - 1 \<le> j \<and> j \<le> n + h - 1 + h) = False"
        using False by blast
      ultimately show ?thesis by (simp only: Let_def if_False f1_cell)
    qed
  next
    case False
    then show ?thesis by (simp add: eq f1_cell Let_def)
  qed
qed

text \<open>Reflections behind a bounded q2 edge: after the centred Neumann fill the field is even
  about the wall between the last physical row and the first halo row, after the
  positive-face Dirichlet fill it is zero on the wall row and odd about it, on the processes at
  the edge; the other rows keep their values.\<close>

theorem q2_wall_reflections:
  assumes "field_wf f" and "fdim f \<in> {2, 3}" and "h = get_halo_cells g" and "0 < h"
    and "global_size (dim_y g) \<noteq> 1" and "ext_y f = n + 2 * h" and "h \<le> n"
    and "0 \<le> k" and "k < ext_z f" and "0 \<le> i" and "i < ext_x f"
    and "N = (\<lambda>j. fdata (fill_centered_q2_neumann_halos g f) (0, k, j, i))"
    and "D = (\<lambda>j. fdata (fill_positive_face_q2_homogeneous_dirichlet_halos g f) (0, k, j, i))"
    and "0 \<le> d" and "d < h"
  shows "(is_south_boundary g \<longrightarrow> N (h - 1 - d) = N (h + d) \<and> D (h - 1) = 0 \<and> D (h - 1 - d) = - D (h - 1 + d)) \<and>
    (is_north_boundary g \<longrightarrow> N (n + h + d) = N (n + h - 1 - d) \<and>
       D (n + h - 1) = 0 \<and> D (n + h + d) = - D (n + h - 2 - d)) \<and>
    (\<forall>j. h \<le> j \<and> j < n + h \<longrightarrow> N j = fdata f (0, k, j, i)) \<and>
    (\<forall>j. h \<le> j \<and> j < n + h - 1 \<longrightarrow> D j = fdata f (0, k, j, i))"
proof -
  have N: "N j = (if is_south_boundary g \<and> 0 \<le> j \<and> j < h then fdata f (0, k, 2 * h - 1 - j, i)
     else if is_north_boundary g \<and> n + h \<le> j \<and> j < n + 2 * h
     then fdata f (0, k, 2 * (n + h) - 1 - j, i) else fdata f (0, k, j, i))" for j
    unfolding assms(12) by (rule centered_neumann_cells [OF assms(1-11)])
  note D = positive_face_dirichlet_cells [OF assms(1-11), unfolded Let_def, folded fun_cong [OF assms(13)]]
  have "N (h - 1 - d) = N (h + d)" if "is_south_boundary g"
    using that assms(4,7,14,15) by (simp add: N algebra_simps)
  moreover have "N (n + h + d) = N (n + h - 1 - d)" if "is_north_boundary g"
    using that assms(4,7,14,15) by (simp add: N algebra_simps)
  moreover have "D (h - 1) = 0 \<and> D (h - 1 - d) = - D (h - 1 + d)" if "is_south_boundary g"
  proof (cases "d = 0")
    case True
    then show ?thesis using that assms(4,7) by (simp add: D)
  next
    case False
    then show ?thesis using that assms(4,7,14,15) by (simp add: D algebra_simps)
  qed
  moreover have "D (n + h - 1) = 0 \<and> D (n + h + d) = - D (n + h - 2 - d)" if "is_north_boundary g"
    using that assms(4,7,14,15) by (simp add: D algebra_simps)
  moreover have "N j = fdata f (0, k, j, i)" if "h \<le> j \<and> j < n + h" for j
    using that by (simp add: N)
  moreover have "D j = fdata f (0, k, j, i)" if "h \<le> j \<and> j < n + h - 1" for j
    using that by (simp add: D)
  ultimately show ?thesis by blast
qed

definition sample_wall_field :: "real field" where
  "sample_wall_field =
     \<lparr>fname = ''zeta'', fdim = 2, ext_w = 1, ext_z = 1, ext_y = 7, ext_x = 7,
      fdata = (\<lambda>(w, k, j, i). of_int (10 * j + i))\<rparr>"

lemma q2_wall_reflections_witness:
  "fdata (fill_positive_face_q2_homogeneous_dirichlet_halos
     (distributed (sample_grid 3 3) (1, 1) (0, 0)) sample_wall_field) (0, 0, 0, 3) = - 23"
proof -
  let ?g = "distributed (sample_grid 3 3) (1, 1) (0, 0)"
  have g: "get_halo_cells ?g = 2" "global_size (dim_y ?g) = 3" "is_south_boundary ?g" "is_north_boundary ?g"
    by (simp_all add: sample_grid_def initial_dimension_def distributed_def distribute_y_def full_axis_def
        get_halo_cells_def is_south_boundary_def is_north_boundary_def)
  have f: "field_wf sample_wall_field" "fdim sample_wall_field = 2" "ext_y sample_wall_field = 3 + 2 * 2"
    "ext_z sample_wall_field = 1" "ext_x sample_wall_field = 7"
    by (simp_all add: sample_wall_field_def field_wf_def)
  define N where "N = (\<lambda>j. fdata (fill_centered_q2_neumann_halos ?g sample_wall_field) (0, 0, j, 3))"
  define D where "D = (\<lambda>j. fdata (fill_positive_face_q2_homogeneous_dirichlet_halos ?g sample_wall_field) (0, 0, j, 3))"
  have all: "(is_south_boundary ?g \<longrightarrow> N (2 - 1 - 1) = N (2 + 1) \<and> D (2 - 1) = 0 \<and> D (2 - 1 - 1) = - D (2 - 1 + 1)) \<and>
    (is_north_boundary ?g \<longrightarrow> N (3 + 2 + 1) = N (3 + 2 - 1 - 1) \<and>
       D (3 + 2 - 1) = 0 \<and> D (3 + 2 + 1) = - D (3 + 2 - 2 - 1)) \<and>
    (\<forall>j. 2 \<le> j \<and> j < 3 + 2 \<longrightarrow> N j = fdata sample_wall_field (0, 0, j, 3)) \<and>
    (\<forall>j. 2 \<le> j \<and> j < 3 + 2 - 1 \<longrightarrow> D j = fdata sample_wall_field (0, 0, j, 3))"
    by (rule q2_wall_reflections [where g = ?g]) (simp_all add: f g N_def D_def)
  then have "D 0 = - D 2" and "D 2 = fdata sample_wall_field (0, 0, 2, 3)" using g by simp_all
  then show ?thesis by (simp add: D_def sample_wall_field_def)
qed

section \<open>Free-slip walls\<close>

lemma rows_3:
  "parallel_for (mdrange3 0 0 0 nz' rows nx') (assign (\<lambda>(k, d, i). (0, k, tgt d, i)) (\<lambda>(k, d, i). rd (0, k, d, i))) dat =
   parallel_for (mdrange4 0 0 0 0 1 nz' rows nx') (assign (\<lambda>(w, k, d, i). (w, k, tgt d, i)) rd) dat"
  unfolding parallel_for_3_as_4
  by (rule parallel_for_cong [OF refl])
     (auto simp: assign_def fun_eq_iff range_simps dest!: unit_index simp del: fun_upd_apply)

definition normal_flux_rd :: "int \<Rightarrow> int \<Rightarrow> q2_metric \<Rightarrow> bool \<Rightarrow> cell \<Rightarrow> (cell \<Rightarrow> real) \<Rightarrow> real" where
  "normal_flux_rd h ny' m south = (\<lambda>(w, k, d, i) dat.
     let ex = face_exterior h ny' south d; int = face_interior h ny' south d
     in if d = 0 then 0
        else - dat (w, k, int, i) * sqrt (v_g11 m (ex, i) / v_g11 m (int, i)) *
             v_inv_j m (ex, i) / v_inv_j m (int, i))"

definition tangential_vorticity_rd ::
  "int \<Rightarrow> int \<Rightarrow> q2_metric \<Rightarrow> real field \<Rightarrow> bool \<Rightarrow> cell \<Rightarrow> (cell \<Rightarrow> real) \<Rightarrow> real" where
  "tangential_vorticity_rd h ny' m e south = (\<lambda>(w, k, d, i) dat.
     let ex = face_exterior h ny' south d; int = face_interior h ny' south d;
         cov = (if d = 0 then 0
                else - (v_g11 m (int, i) * dat (w, k, int, i) - weighted_cross False e (u_g12 m) k int i) *
                     sqrt (v_g11 m (ex, i) / v_g11 m (int, i)))
     in (cov + weighted_cross False e (u_g12 m) k ex i) / v_g11 m (ex, i))"

interpretation normal_flux: row_kernel nz' nx' "if south then h else h + 1" "face_exterior h ny' south"
  "normal_flux_rd h ny' m south" for nz' nx' h ny' south m
  by unfold_locales
     (auto simp: inj_on_def face_exterior_def face_interior_def normal_flux_rd_def Let_def split: if_splits)

interpretation tangential_vorticity: row_kernel nz' nx' "if south then h else h + 1"
  "face_exterior h ny' south" "tangential_vorticity_rd h ny' m e south" for nz' nx' h ny' south m e
  by unfold_locales
     (auto simp: inj_on_def face_exterior_def face_interior_def tangential_vorticity_rd_def Let_def
      split: if_splits)

lemma snd_wind_side:
  "fdata (snd (wind_side h m sf south (q1, q2))) =
     parallel_for (mdrange4 0 0 0 0 1 (ext_z q1) (if south then h else h + 1) (ext_x q1))
       (assign (\<lambda>(w, k, d, i). (w, k, face_exterior h (ext_y q1) south d, i))
          (normal_flux_rd h (ext_y q1) m south)) (fdata q2)"
  by (simp add: wind_side_def Let_def rows_3 [symmetric] normal_flux_rd_def)

lemma fst_vorticity_side:
  "fdata (fst (vorticity_side h m south (x, e))) =
     parallel_for (mdrange4 0 0 0 0 1 (ext_z x) (if south then h else h + 1) (ext_x x))
       (assign (\<lambda>(w, k, d, i). (w, k, face_exterior h (ext_y x) south d, i))
          (tangential_vorticity_rd h (ext_y x) m (snd (vorticity_side h m south (x, e))) south)) (fdata x)"
  by (simp add: vorticity_side_def Let_def rows_3 [symmetric] tangential_vorticity_rd_def)

lemma wind_side_wall:
  assumes "0 < h" and "0 \<le> k" "k < ext_z q1" "0 \<le> i" "i < ext_x q1"
  shows "fdata (snd (wind_side h m sf south (q1, q2))) (0, k, wall_row h (ext_y q1) south, i) = 0"
  using normal_flux.row_result [of k "ext_z q1" 0 south h i "ext_x q1" "ext_y q1" m "fdata q2"] assms
  by (simp add: snd_wind_side face_exterior_def normal_flux_rd_def)

lemma wind_side_frame:
  assumes "j \<notin> face_exterior h (ext_y q1) south ` {0..<if south then h else h + 1}"
  shows "fdata (snd (wind_side h m sf south (q1, q2))) (w, k, j, i) = fdata q2 (w, k, j, i)"
  unfolding snd_wind_side by (rule normal_flux.row_frame) (rule assms)

lemma wind_side_shape [simp]:
  "ext_z (fst (wind_side h m sf south s)) = ext_z (fst s)"
  "ext_y (fst (wind_side h m sf south s)) = ext_y (fst s)"
  "ext_x (fst (wind_side h m sf south s)) = ext_x (fst s)"
  by (simp_all add: wind_side_def Let_def case_prod_beta)

lemma vorticity_side_wall:
  assumes "0 < h" and "0 \<le> k" "k < ext_z x" "0 \<le> i" "i < ext_x x"
    and "v_g11 m (wall_row h (ext_y x) south, i) \<noteq> 0" and s: "s = vorticity_side h m south (x, e)"
  shows "v_g11 m (wall_row h (ext_y x) south, i) * fdata (fst s) (0, k, wall_row h (ext_y x) south, i) =
    weighted_cross False (snd s) (u_g12 m) k (wall_row h (ext_y x) south) i"
  using tangential_vorticity.row_result [of k "ext_z x" 0 south h i "ext_x x" "ext_y x" m "snd s" "fdata x"] assms
  by (simp add: fst_vorticity_side face_exterior_def tangential_vorticity_rd_def Let_def)

lemma vorticity_side_frame:
  assumes "j \<notin> face_exterior h (ext_y x) south ` {0..<if south then h else h + 1}"
  shows "fdata (fst (vorticity_side h m south (x, e))) (w, k, j, i) = fdata x (w, k, j, i)"
  unfolding fst_vorticity_side by (rule tangential_vorticity.row_frame) (rule assms)

lemma vorticity_side_frame_e:
  assumes "j \<notin> center_exterior h (ext_y x) south ` {0..<h}"
  shows "fdata (snd (vorticity_side h m south (x, e))) (w, k, j, i) = fdata e (w, k, j, i)"
proof -
  have "(w, k, j, i) \<notin> (\<lambda>(k, d, i). (0, k, center_exterior h (ext_y x) south d, i)) `
      set (mdrange3 0 0 0 (ext_z x) h (ext_x x))"
    using assms by (auto simp: range_simps)
  then show ?thesis by (simp add: vorticity_side_def Let_def parallel_for_frame)
qed

lemma vorticity_side_shape [simp]:
  "ext_z (fst (vorticity_side h m south s)) = ext_z (fst s)"
  "ext_y (fst (vorticity_side h m south s)) = ext_y (fst s)"
  "ext_x (fst (vorticity_side h m south s)) = ext_x (fst s)"
  "ext_y (snd (vorticity_side h m south s)) = ext_y (snd s)"
  "ext_x (snd (vorticity_side h m south s)) = ext_x (snd s)"
  by (simp_all add: vorticity_side_def Let_def case_prod_beta)

lemma weighted_cross_rows:
  assumes "ext_y e' = ext_y e" and "ext_x e' = ext_x e"
    and "\<And>w k i. fdata e' (w, k, j, i) = fdata e (w, k, j, i)"
    and "\<And>w k i. fdata e' (w, k, j + 1, i) = fdata e (w, k, j + 1, i)"
  shows "weighted_cross False e' c k j i = weighted_cross False e c k j i"
  using assms by (simp add: weighted_cross_def Let_def)

text \<open>C20. Free-slip walls: behind a bounded q2 edge the contravariant fill makes the normal mass
  flux zero on the wall face, and the vorticity fill makes the covariant component tangential
  to the wall zero there, in every column of the processes at the edge, the other edge of the
  same process included.\<close>

theorem free_slip_walls:
  assumes "h = get_halo_cells g" and "0 < h" and "global_size (dim_y g) \<noteq> 1"
    and "fill_contravariant_wind_halos g m sf (q1, q2) = Inr wind"
    and "fill_contravariant_vorticity_halos g m (x, e) = vort"
    and "ext_y q1 = n + 2 * h" and "ext_y x = n + 2 * h" and "1 \<le> n"
    and "0 \<le> k" and "k < ext_z q1" and "k < ext_z x" and "0 \<le> i" and "i < ext_x q1" and "i < ext_x x"
    and "v_g11 m (h - 1, i) \<noteq> 0" and "v_g11 m (n + h - 1, i) \<noteq> 0"
    and "wall = h - 1 \<and> is_south_boundary g \<or> wall = n + h - 1 \<and> is_north_boundary g"
  shows "fdata (snd wind) (0, k, wall, i) = 0 \<and>
    v_g11 m (wall, i) * fdata (fst vort) (0, k, wall, i) -
      weighted_cross False (snd vort) (u_g12 m) k wall i = 0"
proof -
  let ?s1 = "if is_south_boundary g then wind_side h m sf True (q1, q2) else (q1, q2)"
  let ?v1 = "if is_south_boundary g then vorticity_side h m True (x, e) else (x, e)"
  have wind: "wind = (if is_north_boundary g then wind_side h m sf False ?s1 else ?s1)"
    using assms(1-4) by (simp add: fill_contravariant_wind_halos_def Let_def rbind_eq_Inr_iff split: if_splits)
  have vort: "vort = (if is_north_boundary g then vorticity_side h m False ?v1 else ?v1)"
    using assms(1-3,5) by (simp add: fill_contravariant_vorticity_halos_def Let_def split: if_splits)
  have s1: "ext_z (fst ?s1) = ext_z q1" "ext_y (fst ?s1) = n + 2 * h" "ext_x (fst ?s1) = ext_x q1"
    using assms by simp_all
  have v1: "ext_z (fst ?v1) = ext_z x" "ext_y (fst ?v1) = n + 2 * h" "ext_x (fst ?v1) = ext_x x"
    using assms by simp_all
  have wn: "wall_row h (n + 2 * h) False = n + h - 1" "wall_row h (n + 2 * h) True = h - 1"
    by (simp_all add: wall_row_def)
  from assms(17) show ?thesis
  proof (elim disjE conjE)
    assume w: "wall = n + h - 1" "is_north_boundary g"
    obtain a b where ab: "?s1 = (a, b)" by fastforce
    obtain c d where cd: "?v1 = (c, d)" by fastforce
    have "fdata (snd wind) (0, k, wall, i) = 0"
      using wind_side_wall [of h k a i m sf False b] s1 wn w wind assms(2,9-14) unfolding ab by simp
    moreover have "v_g11 m (wall, i) * fdata (fst vort) (0, k, wall, i) =
        weighted_cross False (snd vort) (u_g12 m) k wall i"
      using vorticity_side_wall [of h k c i m False vort d] v1 wn w vort assms(2,9-14,16) unfolding cd by simp
    ultimately show ?thesis by simp
  next
    assume w: "wall = h - 1" "is_south_boundary g"
    obtain a b where ab: "wind_side h m sf True (q1, q2) = (a, b)" by fastforce
    obtain c d where cd: "vorticity_side h m True (x, e) = (c, d)" by fastforce
    have a: "ext_y a = n + 2 * h" and c: "ext_y c = n + 2 * h"
      using s1(2) v1(2) w(2) ab cd by simp_all
    have "h - 1 \<notin> face_exterior h (n + 2 * h) False ` {0..<h + 1}"
      "h - 1 \<notin> center_exterior h (n + 2 * h) False ` {0..<h}" "h \<notin> center_exterior h (n + 2 * h) False ` {0..<h}"
      using assms(8) by (auto simp: face_exterior_def wall_row_def center_exterior_def)
    then have keep: "fdata (snd (wind_side h m sf False (a, b))) (0, k, h - 1, i) = fdata b (0, k, h - 1, i)"
      "fdata (fst (vorticity_side h m False (c, d))) (0, k, h - 1, i) = fdata c (0, k, h - 1, i)"
      "\<And>w k i. fdata (snd (vorticity_side h m False (c, d))) (w, k, h - 1, i) = fdata d (w, k, h - 1, i)"
      "\<And>w k i. fdata (snd (vorticity_side h m False (c, d))) (w, k, h, i) = fdata d (w, k, h, i)"
      using a c by (simp_all add: wind_side_frame vorticity_side_frame vorticity_side_frame_e)
    have cross: "weighted_cross False (snd (vorticity_side h m False (c, d))) (u_g12 m) k (h - 1) i =
        weighted_cross False d (u_g12 m) k (h - 1) i"
      using keep by (intro weighted_cross_rows) simp_all
    have "fdata b (0, k, h - 1, i) = 0"
      using wind_side_wall [of h k q1 i m sf True q2] assms(2,6,9-14) wn ab by simp
    then have "fdata (snd wind) (0, k, wall, i) = 0"
      using w keep by (simp add: wind ab)
    moreover have "v_g11 m (h - 1, i) * fdata c (0, k, h - 1, i) = weighted_cross False d (u_g12 m) k (h - 1) i"
      using vorticity_side_wall [of h k x i m True "(c, d)" e] assms(2,7,9-15) wn cd by simp
    then have "v_g11 m (wall, i) * fdata (fst vort) (0, k, wall, i) =
        weighted_cross False (snd vort) (u_g12 m) k wall i"
      using w keep cross by (simp add: vort cd)
    ultimately show ?thesis by simp
  qed
qed

definition unit_metric :: q2_metric where
  "unit_metric =
     \<lparr>v_c12 = (\<lambda>_. 0), v_c22 = (\<lambda>_. 1), v_g11 = (\<lambda>_. 2), v_g12 = (\<lambda>_. 1), v_inv_j = (\<lambda>_. 1),
      u_g11 = (\<lambda>_. 1), u_g12 = (\<lambda>_. 1), u_inv_j = (\<lambda>_. 1), metric_dq1 = 1, metric_dq2 = 1\<rparr>"

lemma free_slip_walls_witness:
  "let f = sample_wall_field\<lparr>fdim := 3\<rparr>; g = distributed (sample_grid 3 3) (1, 1) (0, 0);
       vort = fill_contravariant_vorticity_halos g unit_metric (f, f)
   in 2 * fdata (fst vort) (0, 0, 1, 3) - weighted_cross False (snd vort) (\<lambda>_. 1) 0 1 3 = 0"
proof -
  let ?f = "sample_wall_field\<lparr>fdim := 3\<rparr>" and ?g = "distributed (sample_grid 3 3) (1, 1) (0, 0)"
  have g: "get_halo_cells ?g = 2" "global_size (dim_y ?g) = 3" "is_south_boundary ?g"
    by (simp_all add: sample_grid_def initial_dimension_def distributed_def distribute_y_def full_axis_def
        get_halo_cells_def is_south_boundary_def)
  have f: "ext_y ?f = 3 + 2 * 2" "ext_z ?f = 1" "ext_x ?f = 7"
    by (simp_all add: sample_wall_field_def)
  obtain wind where wind: "fill_contravariant_wind_halos ?g unit_metric False (?f, ?f) = Inr wind"
  proof -
    have "\<exists>wind. fill_contravariant_wind_halos ?g unit_metric False (?f, ?f) = Inr wind"
      by (simp add: fill_contravariant_wind_halos_def Let_def)
    then show ?thesis using that by blast
  qed
  have "fdata (snd wind) (0, 0, 1, 3) = 0 \<and>
      v_g11 unit_metric (1, 3) * fdata (fst (fill_contravariant_vorticity_halos ?g unit_metric (?f, ?f))) (0, 0, 1, 3) -
      weighted_cross False (snd (fill_contravariant_vorticity_halos ?g unit_metric (?f, ?f))) (u_g12 unit_metric) 0 1 3 = 0"
    by (rule free_slip_walls [where h = 2 and n = 3, OF _ _ _ wind refl])
       (use g f in \<open>simp_all add: unit_metric_def\<close>)
  then show ?thesis by (simp add: unit_metric_def Let_def)
qed

end
