(* ===== verification/Boundary_Conditions.thy ===== *)
theory Boundary_Conditions
  imports Boundary_Stencils
begin

text \<open>
  \<open>core/boundary/BoundaryConditionManager\<close>: the boundary conditions of the two vertical edges
  and of the horizontal ones.  The vertical kernels exist for fields of dimension 1, 3 and 4;
  \<open>over_layers\<close> runs their common body over \<open>h\<close> layers.
\<close>

section \<open>The manager\<close>

datatype horizontal_bc_type = BC_Periodic | BC_ZeroGradient

record boundary_manager =
  bc_grid :: grid
  mapped_channel :: bool
  x_bc_type :: horizontal_bc_type
  y_bc_type :: horizontal_bc_type

datatype boundary_error =
    Mapped_requires_periodic_q1
  | Bounded_topology_not_supported
  | Unknown_horizontal_boundary string
  | Boundary_overrides_grid

definition bc_of_topology :: "horizontal_edge_topology \<Rightarrow> horizontal_bc_type" where
  "bc_of_topology t = (if t = Periodic then BC_Periodic else BC_ZeroGradient)"

text \<open>Both branches that return set \<open>mapped_channel\<close> again: the flag the caller passes has no
  effect.\<close>

definition boundary_condition_manager :: "bool \<Rightarrow> grid \<Rightarrow> boundary_error + boundary_manager" where
  "boundary_condition_manager enable_mapped_channel g =
     (let h = horizontal (grid_spec g); q1 = topo_q1 (topology h); q2 = topo_q2 (topology h);
          m = \<lparr>bc_grid = g, mapped_channel = enable_mapped_channel, x_bc_type = BC_Periodic,
               y_bc_type = BC_Periodic\<rparr> in
      if kind (geometry h) \<noteq> Cartesian then
        rbind (throw_if (q1 \<noteq> Periodic) Mapped_requires_periodic_q1) (\<lambda>_.
          Inr (m\<lparr>mapped_channel := q2 = Bounded, x_bc_type := BC_Periodic, y_bc_type := BC_Periodic\<rparr>))
      else
        (let q1_is_bounded = nx h > 1 \<and> q1 = Bounded; q2_is_bounded = ny h > 1 \<and> q2 = Bounded in
         rbind (throw_if (q1_is_bounded \<or> q2_is_bounded) Bounded_topology_not_supported) (\<lambda>_.
           Inr (m\<lparr>mapped_channel := False, x_bc_type := bc_of_topology q1,
                  y_bc_type := bc_of_topology q2\<rparr>))))"

definition parse_bc :: "string \<Rightarrow> boundary_error + horizontal_bc_type" where
  "parse_bc value =
     (if value = ''periodic'' then Inr BC_Periodic
      else if value = ''zero_gradient'' then Inr BC_ZeroGradient
      else Inl (Unknown_horizontal_boundary value))"

definition initialize_bc_types :: "boundary_manager \<Rightarrow> string \<Rightarrow> string \<Rightarrow> boundary_error + unit" where
  "initialize_bc_types m x_bc y_bc =
     rbind (parse_bc x_bc) (\<lambda>requested_x. rbind (parse_bc y_bc) (\<lambda>requested_y.
       throw_if (requested_x \<noteq> x_bc_type m \<or> requested_y \<noteq> y_bc_type m) Boundary_overrides_grid))"

section \<open>The vertical edges\<close>

definition over_layers ::
  "int \<Rightarrow> (cell \<Rightarrow> (cell \<Rightarrow> 'a) \<Rightarrow> cell \<Rightarrow> 'a) \<Rightarrow> 'a field \<Rightarrow> 'a field" where
  "over_layers h body f =
     (if fdim f = 1 then
        f\<lparr>fdata := parallel_for (range1 0 h) (\<lambda>k. body (0, k, 0, 0)) (fdata f)\<rparr>
      else if fdim f = 3 then
        f\<lparr>fdata := parallel_for (mdrange3 0 0 0 h (ext_y f) (ext_x f))
          (\<lambda>(k, j, i). body (0, k, j, i)) (fdata f)\<rparr>
      else if fdim f = 4 then
        f\<lparr>fdata := parallel_for (mdrange4 0 0 0 0 (ext_w f) h (ext_y f) (ext_x f)) body (fdata f)\<rparr>
      else f)"

definition apply_dirichlet_zero :: "grid \<Rightarrow> real field \<Rightarrow> real field" where
  "apply_dirichlet_zero g f =
     (let h = get_halo_cells g; nz' = get_local_total_points_z g in
      if h = 0 then f
      else over_layers h (assign2
             True (\<lambda>(n, k, j, i). (n, k, j, i)) (\<lambda>c d. 0)
             True (\<lambda>(n, k, j, i). (n, nz' - 1 - k, j, i)) (\<lambda>c d. 0)) f)"

definition apply_vorticity_bc :: "grid \<Rightarrow> real field \<Rightarrow> real field" where
  "apply_vorticity_bc g f =
     (let h = get_halo_cells g; nz' = get_local_total_points_z g in
      if h = 0 then f
      else
        (let f1 = apply_dirichlet_zero g f in
         if fdim f = 3 then
           f1\<lparr>fdata := parallel_for (mdrange2 0 0 (ext_y f) (ext_x f))
             (assign2 True (\<lambda>(j, i). (0, h - 1, j, i)) (\<lambda>c d. 0)
                      True (\<lambda>(j, i). (0, nz' - h - 1, j, i)) (\<lambda>c d. 0)) (fdata f1)\<rparr>
         else f1))"

definition apply_zero_gradient :: "grid \<Rightarrow> 'a field \<Rightarrow> 'a field" where
  "apply_zero_gradient g f =
     (let h = get_halo_cells g; nz' = get_local_total_points_z g in
      if h = 0 then f
      else over_layers h (assign2
             True (\<lambda>(n, k, j, i). (n, k, j, i)) (\<lambda>(n, k, j, i) d. d (n, h, j, i))
             True (\<lambda>(n, k, j, i). (n, nz' - 1 - k, j, i)) (\<lambda>(n, k, j, i) d. d (n, nz' - 1 - h, j, i))) f)"

text \<open>The profile is indexed by the level; the kernel exists for three dimensions only.\<close>

definition apply_fixed_profile_z :: "grid \<Rightarrow> (int \<Rightarrow> 'a) \<Rightarrow> 'a field \<Rightarrow> 'a field" where
  "apply_fixed_profile_z g profile f =
     (let h = get_halo_cells g; nz' = get_local_total_points_z g in
      if h = 0 then f
      else if fdim f = 3 then
        f\<lparr>fdata := parallel_for (mdrange3 0 0 0 h (ext_y f) (ext_x f))
          (assign2
             True (\<lambda>(k, j, i). (0, k, j, i)) (\<lambda>(k, j, i) d. profile k)
             True (\<lambda>(k, j, i). (0, nz' - 1 - k, j, i)) (\<lambda>(k, j, i) d. profile (nz' - 1 - k)))
          (fdata f)\<rparr>
      else f)"

definition apply_periodic :: "grid \<Rightarrow> 'a field \<Rightarrow> 'a field" where
  "apply_periodic g f =
     (let h = get_halo_cells g; nz' = get_local_total_points_z g in
      if h = 0 then f
      else over_layers h (assign2
             True (\<lambda>(n, k, j, i). (n, k, j, i)) (\<lambda>(n, k, j, i) d. d (n, nz' - 2 * h + k, j, i))
             True (\<lambda>(n, k, j, i). (n, nz' - h + k, j, i)) (\<lambda>(n, k, j, i) d. d (n, h + k, j, i))) f)"

definition apply_zero_gradient_bottom_zero_top :: "grid \<Rightarrow> real field \<Rightarrow> real field" where
  "apply_zero_gradient_bottom_zero_top g f =
     (let h = get_halo_cells g; nz' = get_local_total_points_z g in
      if h = 0 then f
      else over_layers h (assign2
             True (\<lambda>(n, k, j, i). (n, k, j, i)) (\<lambda>(n, k, j, i) d. d (n, h, j, i))
             True (\<lambda>(n, k, j, i). (n, nz' - 1 - k, j, i)) (\<lambda>c d. 0)) f)"

section \<open>The horizontal edges\<close>

definition is_left_boundary :: "grid \<Rightarrow> bool" where
  "is_left_boundary g \<longleftrightarrow> local_physical_start_idx (dim_x g) = 0"

definition is_right_boundary :: "grid \<Rightarrow> bool" where
  "is_right_boundary g \<longleftrightarrow> local_physical_end_idx (dim_x g) = global_size (dim_x g) - 1"

definition apply_zero_gradient_x :: "grid \<Rightarrow> 'a field \<Rightarrow> 'a field" where
  "apply_zero_gradient_x g f =
     (let h = get_halo_cells g; nx' = ext_x f in
      if h = 0 \<or> fdim f \<noteq> 3 then f
      else
        (let f1 = (if is_left_boundary g
                   then f\<lparr>fdata := parallel_for (mdrange3 0 0 0 (ext_z f) (ext_y f) h)
                     (assign (\<lambda>(k, j, ih). (0, k, j, ih)) (\<lambda>(k, j, ih) d. d (0, k, j, h))) (fdata f)\<rparr>
                   else f)
         in if is_right_boundary g
            then f1\<lparr>fdata := parallel_for (mdrange3 0 0 0 (ext_z f) (ext_y f) h)
              (assign (\<lambda>(k, j, ih). (0, k, j, nx' - h + ih)) (\<lambda>(k, j, ih) d. d (0, k, j, nx' - h - 1)))
              (fdata f1)\<rparr>
            else f1))"

definition apply_zero_gradient_y :: "grid \<Rightarrow> 'a field \<Rightarrow> 'a field" where
  "apply_zero_gradient_y g f =
     (let h = get_halo_cells g; ny' = ext_y f in
      if h = 0 \<or> fdim f \<noteq> 3 then f
      else
        (let f1 = (if is_south_boundary g
                   then f\<lparr>fdata := parallel_for (mdrange3 0 0 0 (ext_z f) h (ext_x f))
                     (assign (\<lambda>(k, jh, i). (0, k, jh, i)) (\<lambda>(k, jh, i) d. d (0, k, h, i))) (fdata f)\<rparr>
                   else f)
         in if is_north_boundary g
            then f1\<lparr>fdata := parallel_for (mdrange3 0 0 0 (ext_z f) h (ext_x f))
              (assign (\<lambda>(k, jh, i). (0, k, ny' - h + jh, i)) (\<lambda>(k, jh, i) d. d (0, k, ny' - h - 1, i)))
              (fdata f1)\<rparr>
            else f1))"

text \<open>In a mapped channel the field's name selects the stencil.  The constructor of
  \<open>HorizontalBoundaryStencils\<close> may reject the grid.\<close>

definition apply_horizontal_bcs ::
  "boundary_manager \<Rightarrow> q2_metric \<Rightarrow> real field \<Rightarrow> stencil_error + real field" where
  "apply_horizontal_bcs m metric f =
     (let g = bc_grid m in
      if mapped_channel m then
        (if fdim f = 3 then
           rbind (horizontal_boundary_stencils g) (\<lambda>g.
             let name = fname f in
             if name = ''xi_con'' \<or> name = ''eta_con'' then Inr f
             else if name \<in> {''xi'', ''xi_con'', ''zeta'', ''zeta_con'', ''v'', ''v_con'', ''v_mean''}
             then Inr (fill_positive_face_q2_homogeneous_dirichlet_halos g f)
             else Inr (fill_physical_q2_neumann_halos g metric f))
         else Inr f)
      else
        (let f1 = (if x_bc_type m = BC_ZeroGradient then apply_zero_gradient_x g f else f)
         in Inr (if y_bc_type m = BC_ZeroGradient then apply_zero_gradient_y g f1 else f1)))"

definition apply_horizontal_vorticity_bcs ::
  "boundary_manager \<Rightarrow> q2_metric \<Rightarrow> real field \<times> real field \<Rightarrow> stencil_error + real field \<times> real field" where
  "apply_horizontal_vorticity_bcs m metric s =
     (if mapped_channel m then
        rbind (horizontal_boundary_stencils (bc_grid m)) (\<lambda>g.
          Inr (fill_contravariant_vorticity_halos g metric s))
      else
        rbind (apply_horizontal_bcs m metric (fst s)) (\<lambda>xi.
        rbind (apply_horizontal_bcs m metric (snd s)) (\<lambda>eta. Inr (xi, eta))))"

section \<open>Kernels over the vertical halo layers\<close>

text \<open>\<open>n\<close> physical levels between two halos of \<open>h\<close> layers: each work item writes one layer of
  either halo, and reads physical levels only.\<close>

locale layer_kernel =
  fixes n h nw ny' nx' :: int and upper :: "int \<Rightarrow> int" and rd1 rd2 :: "cell \<Rightarrow> (cell \<Rightarrow> 'a) \<Rightarrow> 'a"
  assumes n_nonneg: "0 \<le> n"
    and inj_upper: "inj_on upper {0..<h}"
    and upper_range: "\<And>k. 0 \<le> k \<Longrightarrow> k < h \<Longrightarrow> n + h \<le> upper k \<and> upper k < n + 2 * h"
    and rd1_physical: "\<And>w k j i dat w' k' j' i' v. 0 \<le> k \<Longrightarrow> k < h \<Longrightarrow> k' < h \<or> n + h \<le> k' \<Longrightarrow>
      rd1 (w, k, j, i) (dat((w', k', j', i') := v)) = rd1 (w, k, j, i) dat"
    and rd2_physical: "\<And>w k j i dat w' k' j' i' v. 0 \<le> k \<Longrightarrow> k < h \<Longrightarrow> k' < h \<or> n + h \<le> k' \<Longrightarrow>
      rd2 (w, k, j, i) (dat((w', k', j', i') := v)) = rd2 (w, k, j, i) dat"

context layer_kernel
begin

lemma upper_ne: "0 \<le> k \<Longrightarrow> k < h \<Longrightarrow> k' < h \<Longrightarrow> k' \<noteq> upper k"
  using upper_range [of k] n_nonneg by linarith

lemma upper_not_low: "0 \<le> k \<Longrightarrow> k < h \<Longrightarrow> \<not> upper k < h"
  using upper_range [of k] n_nonneg by linarith

lemma rd1_upper: "0 \<le> k \<Longrightarrow> k < h \<Longrightarrow> 0 \<le> k' \<Longrightarrow> k' < h \<Longrightarrow>
    rd1 (w, k, j, i) (dat((w', upper k', j', i') := v)) = rd1 (w, k, j, i) dat"
  by (rule rd1_physical) (simp_all add: upper_range)

lemma rd2_upper: "0 \<le> k \<Longrightarrow> k < h \<Longrightarrow> 0 \<le> k' \<Longrightarrow> k' < h \<Longrightarrow>
    rd2 (w, k, j, i) (dat((w', upper k', j', i') := v)) = rd2 (w, k, j, i) dat"
  by (rule rd2_physical) (simp_all add: upper_range)

end

sublocale layer_kernel \<subseteq> layers: kernel2 "mdrange4 0 0 0 0 nw h ny' nx'"
  True "\<lambda>(w, k, j, i). (w, k, j, i)" rd1 True "\<lambda>(w, k, j, i). (w, upper k, j, i)" rd2
  by unfold_locales
     (auto simp: range_simps inj_on_def rd1_physical rd2_physical rd1_upper rd2_upper upper_ne upper_not_low
           simp del: fun_upd_apply dest: inj_onD [OF inj_upper])

context layer_kernel
begin

abbreviation run_layers :: "(cell \<Rightarrow> 'a) \<Rightarrow> cell \<Rightarrow> 'a" where
  "run_layers \<equiv> parallel_for (mdrange4 0 0 0 0 nw h ny' nx')
     (assign2 True (\<lambda>(w, k, j, i). (w, k, j, i)) rd1 True (\<lambda>(w, k, j, i). (w, upper k, j, i)) rd2)"

lemma bottom:
  "0 \<le> w \<Longrightarrow> w < nw \<Longrightarrow> 0 \<le> k \<Longrightarrow> k < h \<Longrightarrow> 0 \<le> j \<Longrightarrow> j < ny' \<Longrightarrow> 0 \<le> i \<Longrightarrow> i < nx' \<Longrightarrow>
     run_layers dat (w, k, j, i) = rd1 (w, k, j, i) dat"
  using layers.result1 [of "(w, k, j, i)" dat] by (simp add: range_simps)

lemma above:
  "0 \<le> w \<Longrightarrow> w < nw \<Longrightarrow> 0 \<le> k \<Longrightarrow> k < h \<Longrightarrow> 0 \<le> j \<Longrightarrow> j < ny' \<Longrightarrow> 0 \<le> i \<Longrightarrow> i < nx' \<Longrightarrow>
     run_layers dat (w, upper k, j, i) = rd2 (w, k, j, i) dat"
  using layers.result2 [of "(w, k, j, i)" dat] by (simp add: range_simps)

lemma physical: "h \<le> k \<Longrightarrow> k < n + h \<Longrightarrow> run_layers dat (w, k, j, i) = dat (w, k, j, i)"
  by (rule assign2_frame) (auto simp: range_simps, use upper_range in fastforce)

lemma cells:
  assumes "0 \<le> w" "w < nw" "0 \<le> j" "j < ny'" "0 \<le> i" "i < nx'" "0 \<le> k"
    and "n + h \<le> k \<Longrightarrow> 0 \<le> k' \<and> k' < h \<and> upper k' = k"
  shows "run_layers dat (w, k, j, i) =
    (if k < h then rd1 (w, k, j, i) dat else if k < n + h then dat (w, k, j, i) else rd2 (w, k', j, i) dat)"
  using assms bottom [of w k j i dat] physical [of k dat w j i] above [of w k' j i dat] by auto

end

lemma over_layers_4:
  assumes "field_wf f" and "fdim f \<in> {1, 3, 4}"
  shows "over_layers h body f =
    f\<lparr>fdata := parallel_for (mdrange4 0 0 0 0 (ext_w f) h (ext_y f) (ext_x f)) body (fdata f)\<rparr>"
proof -
  consider (one) "fdim f = 1" | (three) "fdim f = 3" | (four) "fdim f = 4" using assms(2) by blast
  then show ?thesis
  proof cases
    case one
    have "mdrange4 0 0 0 0 1 h 1 1 = map (\<lambda>k. (0, k, 0, 0)) (range1 0 h)"
    proof -
      have "List.product (range1 0 h) [(0 :: int, 0 :: int)] = map (\<lambda>k. (k, 0, 0)) (range1 0 h)"
        by (induction "range1 0 h") (simp_all add: product_concat_map)
      then show ?thesis by (simp add: mdrange4_outer_1) (simp add: mdrange3_def mdrange2_def)
    qed
    then show ?thesis using one assms(1) by (simp add: over_layers_def field_wf_def parallel_for_map)
  next
    case three
    then show ?thesis
      using assms(1) by (simp add: over_layers_def field_wf_def parallel_for_3_as_4)
         (rule arg_cong [where f = "\<lambda>d. f\<lparr>fdata := d\<rparr>"], rule parallel_for_cong [OF refl],
          auto simp: range_simps dest!: unit_index)
  next
    case four
    then show ?thesis by (simp add: over_layers_def)
  qed
qed

interpretation dirichlet_layers: layer_kernel "int n" h nw ny' nx' "\<lambda>k. int n + 2 * h - 1 - k"
  "\<lambda>c d. 0 :: real" "\<lambda>c d. 0" for n h nw ny' nx'
  by unfold_locales (auto simp: inj_on_def)

interpretation zero_gradient_layers: layer_kernel "int (Suc n)" h nw ny' nx'
  "\<lambda>k. int (Suc n) + 2 * h - 1 - k" "\<lambda>(w, k, j, i) d. d (w, h, j, i) :: 'a"
  "\<lambda>(w, k, j, i) d. d (w, int (Suc n) + 2 * h - 1 - h, j, i)" for n h nw ny' nx'
  by unfold_locales (auto simp: inj_on_def)

interpretation periodic_z: layer_kernel "int h + int n" "int h" nw ny' nx'
  "\<lambda>k. int h + int n + 2 * int h - int h + k"
  "\<lambda>(w, k, j, i) d. d (w, int h + int n + 2 * int h - 2 * int h + k, j, i) :: 'a"
  "\<lambda>(w, k, j, i) d. d (w, int h + k, j, i)" for n h nw ny' nx'
  by unfold_locales (auto simp: inj_on_def)

interpretation mixed_layers: layer_kernel "int (Suc n)" h nw ny' nx'
  "\<lambda>k. int (Suc n) + 2 * h - 1 - k" "\<lambda>(w, k, j, i) d. d (w, h, j, i) :: real"
  "\<lambda>c d. 0" for n h nw ny' nx'
  by unfold_locales (auto simp: inj_on_def)

section \<open>What the vertical conditions leave in the halo\<close>

named_theorems vertical_bc_defs \<open>the vertical boundary operations\<close>

declare apply_zero_gradient_def [vertical_bc_defs] apply_dirichlet_zero_def [vertical_bc_defs]
  apply_periodic_def [vertical_bc_defs] apply_zero_gradient_bottom_zero_top_def [vertical_bc_defs]

lemma zero_gradient_cells:
  assumes "field_wf f" and "fdim f \<in> {1, 3, 4}" and "h = get_halo_cells g" and "0 < h"
    and "get_local_total_points_z g = n + 2 * h" and "0 < n"
    and "0 \<le> w" "w < ext_w f" "0 \<le> j" "j < ext_y f" "0 \<le> i" "i < ext_x f" "0 \<le> k" "k < n + 2 * h"
  shows "fdata (apply_zero_gradient g f) (w, k, j, i) = fdata f (w, max h (min k (n + h - 1)), j, i)"
proof -
  obtain n' where n: "n = int (Suc n')" using assms(6) zero_less_imp_eq_int [of n] gr0_implies_Suc by metis
  have "fdata (apply_zero_gradient g f) (w, k, j, i) =
      zero_gradient_layers.run_layers h (ext_w f) (ext_y f) (ext_x f) n' (fdata f) (w, k, j, i)"
    using assms(1-5) by (simp add: vertical_bc_defs over_layers_4 Let_def n algebra_simps)
  also note zero_gradient_layers.cells [OF assms(7-13), where k' = "n + 2 * h - 1 - k" and h = h and n = n']
  finally show ?thesis using assms n by (auto simp: max_def min_def algebra_simps)
qed

lemma mixed_cells:
  assumes "field_wf f" and "fdim f \<in> {1, 3, 4}" and "h = get_halo_cells g" and "0 < h"
    and "get_local_total_points_z g = n + 2 * h" and "0 < n"
    and "0 \<le> w" "w < ext_w f" "0 \<le> j" "j < ext_y f" "0 \<le> i" "i < ext_x f" "0 \<le> k" "k < n + 2 * h"
  shows "fdata (apply_zero_gradient_bottom_zero_top g f) (w, k, j, i) =
    (if k < n + h then fdata f (w, max h k, j, i) else 0)"
proof -
  obtain n' where n: "n = int (Suc n')" using assms(6) zero_less_imp_eq_int [of n] gr0_implies_Suc by metis
  have "fdata (apply_zero_gradient_bottom_zero_top g f) (w, k, j, i) =
      mixed_layers.run_layers h (ext_w f) (ext_y f) (ext_x f) n' (fdata f) (w, k, j, i)"
    using assms(1-5) by (simp add: vertical_bc_defs over_layers_4 Let_def n algebra_simps)
  also note mixed_layers.cells [OF assms(7-13), where k' = "n + 2 * h - 1 - k" and h = h and n = n']
  finally show ?thesis using assms n by (auto simp: max_def)
qed

lemma dirichlet_cells:
  assumes "field_wf f" and "fdim f \<in> {1, 3, 4}" and "h = get_halo_cells g" and "0 < h"
    and "get_local_total_points_z g = n + 2 * h" and "0 < n"
    and "0 \<le> w" "w < ext_w f" "0 \<le> j" "j < ext_y f" "0 \<le> i" "i < ext_x f" "0 \<le> k" "k < n + 2 * h"
  shows "fdata (apply_dirichlet_zero g f) (w, k, j, i) =
    (if h \<le> k \<and> k < n + h then fdata f (w, k, j, i) else 0)"
proof -
  obtain n' where n: "n = int n'" using assms(6) zero_less_imp_eq_int [of n] by metis
  have "fdata (apply_dirichlet_zero g f) (w, k, j, i) =
      dirichlet_layers.run_layers h (ext_w f) (ext_y f) (ext_x f) n' (fdata f) (w, k, j, i)"
    using assms(1-5) by (simp add: vertical_bc_defs over_layers_4 Let_def n algebra_simps)
  also note dirichlet_layers.cells [OF assms(7-13), where k' = "n + 2 * h - 1 - k" and h = h and n = n']
  finally show ?thesis using assms n by auto
qed

lemma periodic_z_cells:
  assumes "field_wf f" and "fdim f \<in> {1, 3, 4}" and "h = get_halo_cells g" and "0 < h"
    and "get_local_total_points_z g = n + 2 * h" and "h \<le> n"
    and "0 \<le> w" "w < ext_w f" "0 \<le> j" "j < ext_y f" "0 \<le> i" "i < ext_x f" "0 \<le> k" "k < n + 2 * h"
  shows "fdata (apply_periodic g f) (w, k, j, i) = fdata f (w, h + (k - h) mod n, j, i)"
proof -
  obtain h' where h: "h = int h'" using assms(4) zero_less_imp_eq_int [of h] by metis
  obtain n' where n: "n = int h' + int n'" using assms(6) h zle_iff_zadd [of h n] by auto
  obtain q where q: "h + (k - h) mod n = q" by blast
  have m1: "q = k + n" if "k < h"
    using that assms mod_add_self2 [of "k - h" n] mod_pos_pos_trivial [of "k - h + n" n] q by simp
  have m2: "q = k" if "h \<le> k" "k < n + h"
    using that q by (simp add: mod_pos_pos_trivial)
  have m3: "q = k - n" if "n + h \<le> k"
    using that assms minus_mod_self2 [of "k - h" n] mod_pos_pos_trivial [of "k - h - n" n] q by simp
  have "fdata (apply_periodic g f) (w, k, j, i) =
      periodic_z.run_layers h' (ext_w f) (ext_y f) (ext_x f) n' (fdata f) (w, k, j, i)"
    using assms(1-5) by (simp add: vertical_bc_defs over_layers_4 Let_def n h [symmetric] algebra_simps)
  also note periodic_z.cells [OF assms(7-13), where k' = "k - n - h" and h = h' and n = n']
  finally show ?thesis unfolding q using assms(4-) n h m1 m2 m3 by (auto simp: algebra_simps)
qed

text \<open>On a field of \<open>n\<close> physical levels between two halos of \<open>h\<close> levels the vertical
  conditions leave the physical levels as they are and fill the others: the zero gradient with the
  nearest physical level, the homogeneous Dirichlet condition with 0, the mixed one with the lowest
  physical level below and 0 above, the periodic one with the level \<open>n\<close> away (it needs
  \<open>h \<le> n\<close>).\<close>

theorem vertical_boundary_values:
  assumes "field_wf f" and "fdim f \<in> {1, 3, 4}" and "h = get_halo_cells g" and "0 < h"
    and "get_local_total_points_z g = n + 2 * h" and "0 < n"
    and "0 \<le> w" "w < ext_w f" "0 \<le> j" "j < ext_y f" "0 \<le> i" "i < ext_x f" "0 \<le> k" "k < n + 2 * h"
  shows "fdata (apply_zero_gradient g f) (w, k, j, i) = fdata f (w, max h (min k (n + h - 1)), j, i) \<and>
    fdata (apply_dirichlet_zero g f) (w, k, j, i) =
      (if h \<le> k \<and> k < n + h then fdata f (w, k, j, i) else 0) \<and>
    fdata (apply_zero_gradient_bottom_zero_top g f) (w, k, j, i) =
      (if k < n + h then fdata f (w, max h k, j, i) else 0) \<and>
    (h \<le> n \<longrightarrow> fdata (apply_periodic g f) (w, k, j, i) = fdata f (w, h + (k - h) mod n, j, i))"
  using zero_gradient_cells [OF assms] dirichlet_cells [OF assms] mixed_cells [OF assms]
    periodic_z_cells [OF assms(1-5) _ assms(7-)] by blast

definition sample_column :: "real field" where
  "sample_column = \<lparr>fname = ''rho'', fdim = 1, ext_w = 1, ext_z = 8, ext_y = 1, ext_x = 1,
     fdata = \<lambda>(w, k, j, i). of_int k\<rparr>"

text \<open>Four levels 2 to 5 between two halos of two levels: level 7 gets the value of level 5 from the
  zero gradient and that of level 3 from the periodic condition.\<close>

lemma vertical_boundary_values_witness:
  "fdata (apply_zero_gradient (distributed (sample_grid 3 3) (1, 1) (0, 0)) sample_column) (0, 7, 0, 0) = 5 \<and>
   fdata (apply_periodic (distributed (sample_grid 3 3) (1, 1) (0, 0)) sample_column) (0, 7, 0, 0) = 3"
proof -
  have g: "get_halo_cells (distributed (sample_grid 3 3) (1, 1) (0, 0)) = 2" "get_local_total_points_z (distributed (sample_grid 3 3) (1, 1) (0, 0)) = 4 + 2 * 2"
    by (simp_all add: sample_grid_def initial_dimension_def get_halo_cells_def get_local_total_points_z_def distributed_def
        full_axis_def)
  have f: "field_wf sample_column" "fdim sample_column \<in> {1, 3, 4}" "ext_w sample_column = 1"
    "ext_y sample_column = 1" "ext_x sample_column = 1"
    by (simp_all add: sample_column_def field_wf_def)
  show ?thesis
    using vertical_boundary_values [OF f(1,2) g(1) [symmetric] _ g(2), of 0 0 0 7] f
    by (simp add: sample_column_def)
qed

section \<open>The boundary manager\<close>

text \<open>A grid in one cell across and the clamp of its halo: the two kernels of a zero-gradient
  direction with one physical cell.\<close>

lemma zero_gradient_x_cells:
  assumes "fdim f = 3" and "h = get_halo_cells g" and "0 < h" and "ext_x f = 1 + 2 * h"
    and "is_left_boundary g" and "is_right_boundary g"
    and "0 \<le> k" "k < ext_z f" "0 \<le> j" "j < ext_y f" "0 \<le> i" "i < ext_x f"
  shows "fdata (apply_zero_gradient_x g f) (0, k, j, i) = fdata f (0, k, j, h)"
proof -
  let ?r = "mdrange3 0 0 0 (ext_z f) (ext_y f) h"
  let ?l = "assign (\<lambda>(k, j, ih). (0, k, j, ih)) (\<lambda>(k, j, ih) d. d (0, k, j, h))"
  let ?u = "assign (\<lambda>(k, j, ih). (0, k, j, ext_x f - h + ih)) (\<lambda>(k, j, ih) d. d (0, k, j, ext_x f - h - 1))"
  have l: "kernel ?r (\<lambda>(k, j, ih). (0 :: int, k, j, ih)) (\<lambda>(k, j, ih) d. d (0, k, j, h) :: 'a)"
    by unfold_locales (auto simp: range_simps inj_on_def)
  have u: "kernel ?r (\<lambda>(k, j, ih). (0 :: int, k, j, ext_x f - h + ih))
      (\<lambda>(k, j, ih) d. d (0, k, j, ext_x f - h - 1) :: 'a)"
    by unfold_locales (auto simp: range_simps inj_on_def)
  have low: "parallel_for ?r ?l (fdata f) (0, k, j, i) = fdata f (0, k, j, h)" if "i < h"
    using kernel.result [OF l, of "(k, j, i)" "fdata f"] that assms by (simp add: range_simps)
  have mid: "parallel_for ?r ?l (fdata f) (0, k, j, i) = fdata f (0, k, j, i)" if "h \<le> i" for i
    by (rule parallel_for_frame) (use that in \<open>auto simp: range_simps\<close>)
  have eq: "fdata (apply_zero_gradient_x g f) =
      parallel_for ?r ?u (parallel_for ?r ?l (fdata f))"
    using assms(1-6) by (simp add: apply_zero_gradient_x_def Let_def)
  show ?thesis
  proof (cases "i \<le> h")
    case True
    have "parallel_for ?r ?u d (0, k, j, i) = d (0, k, j, i)" for d :: "cell \<Rightarrow> 'a"
      by (rule parallel_for_frame) (use True assms(4) in \<open>auto simp: range_simps\<close>)
    then show ?thesis using low mid [of h] True unfolding eq by (cases "i = h") simp_all
  next
    case False
    then show ?thesis
      using kernel.result [OF u, of "(k, j, i - h - 1)"] mid [of h] assms unfolding eq
      by (simp add: range_simps)
  qed
qed

lemma zero_gradient_y_cells:
  assumes "fdim f = 3" and "h = get_halo_cells g" and "0 < h" and "ext_y f = 1 + 2 * h"
    and "is_south_boundary g" and "is_north_boundary g"
    and "0 \<le> k" "k < ext_z f" "0 \<le> j" "j < ext_y f" "0 \<le> i" "i < ext_x f"
  shows "fdata (apply_zero_gradient_y g f) (0, k, j, i) = fdata f (0, k, h, i)"
proof -
  let ?r = "mdrange3 0 0 0 (ext_z f) h (ext_x f)"
  let ?l = "assign (\<lambda>(k, jh, i). (0, k, jh, i)) (\<lambda>(k, jh, i) d. d (0, k, h, i))"
  let ?u = "assign (\<lambda>(k, jh, i). (0, k, ext_y f - h + jh, i)) (\<lambda>(k, jh, i) d. d (0, k, ext_y f - h - 1, i))"
  have l: "kernel ?r (\<lambda>(k, jh, i). (0 :: int, k, jh, i)) (\<lambda>(k, jh, i) d. d (0, k, h, i) :: 'a)"
    by unfold_locales (auto simp: range_simps inj_on_def)
  have u: "kernel ?r (\<lambda>(k, jh, i). (0 :: int, k, ext_y f - h + jh, i))
      (\<lambda>(k, jh, i) d. d (0, k, ext_y f - h - 1, i) :: 'a)"
    by unfold_locales (auto simp: range_simps inj_on_def)
  have low: "parallel_for ?r ?l (fdata f) (0, k, j, i) = fdata f (0, k, h, i)" if "j < h"
    using kernel.result [OF l, of "(k, j, i)" "fdata f"] that assms by (simp add: range_simps)
  have mid: "parallel_for ?r ?l (fdata f) (0, k, j, i) = fdata f (0, k, j, i)" if "h \<le> j" for j
    by (rule parallel_for_frame) (use that in \<open>auto simp: range_simps\<close>)
  have eq: "fdata (apply_zero_gradient_y g f) =
      parallel_for ?r ?u (parallel_for ?r ?l (fdata f))"
    using assms(1-6) by (simp add: apply_zero_gradient_y_def Let_def)
  show ?thesis
  proof (cases "j \<le> h")
    case True
    have "parallel_for ?r ?u d (0, k, j, i) = d (0, k, j, i)" for d :: "cell \<Rightarrow> 'a"
      by (rule parallel_for_frame) (use True assms(4) in \<open>auto simp: range_simps\<close>)
    then show ?thesis using low mid [of h] True unfolding eq by (cases "j = h") simp_all
  next
    case False
    then show ?thesis
      using kernel.result [OF u, of "(k, j - h - 1, i)"] mid [of h] assms unfolding eq
      by (simp add: range_simps)
  qed
qed

lemma zero_gradient_x_shape [simp]:
  "fdim (apply_zero_gradient_x g f) = fdim f" "ext_z (apply_zero_gradient_x g f) = ext_z f"
  "ext_y (apply_zero_gradient_x g f) = ext_y f" "ext_x (apply_zero_gradient_x g f) = ext_x f"
  by (simp_all add: apply_zero_gradient_x_def Let_def)

text \<open>The manager of a Cartesian grid exists unless a direction with several cells is bounded,
  and then its horizontal condition changes nothing but the halo of a bounded direction with a
  single cell, whose halo cells all take the value of that cell; with several cells in both directions
  the field is returned as it is.\<close>

theorem cartesian_horizontal_conditions:
  assumes "hs = horizontal (grid_spec g)" and "kind (geometry hs) = Cartesian"
    and "bounded_y \<longleftrightarrow> topo_q2 (topology hs) = Bounded" and "bounded_x \<longleftrightarrow> topo_q1 (topology hs) = Bounded"
    and "h = get_halo_cells g" and "0 < h" and "fdim f = 3"
    and "nx hs \<le> 1 \<Longrightarrow> ext_x f = 1 + 2 * h \<and> is_left_boundary g \<and> is_right_boundary g"
    and "ny hs \<le> 1 \<Longrightarrow> ext_y f = 1 + 2 * h \<and> is_south_boundary g \<and> is_north_boundary g"
    and "0 \<le> k" "k < ext_z f" "0 \<le> j" "j < ext_y f" "0 \<le> i" "i < ext_x f"
  shows "if nx hs > 1 \<and> bounded_x \<or> ny hs > 1 \<and> bounded_y
    then boundary_condition_manager flag g = Inl Bounded_topology_not_supported
    else \<exists>m f'. boundary_condition_manager flag g = Inr m \<and> apply_horizontal_bcs m metric f = Inr f' \<and>
      fdata f' (0, k, j, i) = fdata f (0, k, if bounded_y then h else j, if bounded_x then h else i) \<and>
      (nx hs > 1 \<and> ny hs > 1 \<longrightarrow> f' = f)"
proof (cases "nx hs > 1 \<and> bounded_x \<or> ny hs > 1 \<and> bounded_y")
  case True
  then show ?thesis
    using assms(2-4) unfolding assms(1) by (auto simp: boundary_condition_manager_def Let_def)
next
  case False
  let ?m = "\<lparr>bc_grid = g, mapped_channel = False, x_bc_type = bc_of_topology (topo_q1 (topology hs)),
    y_bc_type = bc_of_topology (topo_q2 (topology hs))\<rparr>"
  let ?x = "if bounded_x then apply_zero_gradient_x g f else f"
  let ?f = "if bounded_y then apply_zero_gradient_y g ?x else ?x"
  have topo: "bc_of_topology t = BC_ZeroGradient \<longleftrightarrow> t = Bounded" for t
    by (cases t) (simp_all add: bc_of_topology_def)
  have m: "boundary_condition_manager flag g = Inr ?m"
    using False assms(2-4) unfolding assms(1) by (auto simp: boundary_condition_manager_def Let_def)
  have bx: "ext_x f = 1 + 2 * h \<and> is_left_boundary g \<and> is_right_boundary g" if bounded_x
    using that False assms(8) by force
  have bdy: "ext_y f = 1 + 2 * h \<and> is_south_boundary g \<and> is_north_boundary g" if bounded_y
    using that False assms(9) by force
  have x: "fdata ?x (0, k, j, i) = fdata f (0, k, j, if bounded_x then h else i)"
    if "0 \<le> j" "j < ext_y f" for j
    using bx assms(5-7,10-) that by (cases bounded_x) (simp_all add: zero_gradient_x_cells)
  have "h < ext_y f" if bounded_y using bdy assms(6) that by simp
  then have "fdata ?f (0, k, j, i) = fdata f (0, k, if bounded_y then h else j, if bounded_x then h else i)"
    using bdy assms(5-7,10-) x [of j] x [of h] by (cases bounded_y) (simp_all add: zero_gradient_y_cells)
  moreover have "apply_horizontal_bcs ?m metric f = Inr ?f"
    using assms(3,4) by (simp add: apply_horizontal_bcs_def topo)
  ultimately show ?thesis using False m by (simp cong: if_cong)
qed

text \<open>One row between two halos of two rows, bounded in \<open>q2\<close>.\<close>

definition sample_slice_grid :: grid where
  "sample_slice_grid =
     (let g = distributed (sample_grid 1 3) (1, 1) (0, 0); s = grid_spec g in
      g\<lparr>grid_spec := s\<lparr>horizontal := (horizontal s)\<lparr>topology :=
        \<lparr>topo_q1 = Periodic, topo_q2 = Bounded\<rparr>\<rparr>\<rparr>\<rparr>)"

definition sample_slice :: "real field" where
  "sample_slice = \<lparr>fname = ''th'', fdim = 3, ext_w = 1, ext_z = 1, ext_y = 5, ext_x = 7,
     fdata = \<lambda>(w, k, j, i). of_int (10 * j + i)\<rparr>"

lemma cartesian_horizontal_conditions_witness:
  "\<exists>m f'. boundary_condition_manager True sample_slice_grid = Inr m \<and>
     apply_horizontal_bcs m unit_metric sample_slice = Inr f' \<and> fdata f' (0, 0, 4, 3) = 23"
proof -
  let ?g = sample_slice_grid
  have g: "get_halo_cells ?g = 2" "is_south_boundary ?g" "is_north_boundary ?g"
    "nx (horizontal (grid_spec ?g)) = 3" "ny (horizontal (grid_spec ?g)) = 1"
    "kind (geometry (horizontal (grid_spec ?g))) = Cartesian"
    "topo_q1 (topology (horizontal (grid_spec ?g))) = Periodic"
    "topo_q2 (topology (horizontal (grid_spec ?g))) = Bounded"
    by (simp_all add: sample_slice_grid_def Let_def sample_grid_def initial_dimension_def distributed_def
        distribute_y_def full_axis_def get_halo_cells_def is_south_boundary_def is_north_boundary_def
        default_geometry_def)
  have f: "fdim sample_slice = 3" "ext_z sample_slice = 1" "ext_y sample_slice = 5" "ext_x sample_slice = 7"
    "fdata sample_slice (0, 0, 2, 3) = 23"
    by (simp_all add: sample_slice_def)
  show ?thesis
    using cartesian_horizontal_conditions [where g = ?g and f = sample_slice and h = 2 and k = 0 and j = 4
        and i = 3 and bounded_y = True and bounded_x = False and metric = unit_metric and
        flag = True, OF refl]
    by (simp add: g f)
qed

end
