(* ===== verification/Floating_Point.thy ===== *)
theory Floating_Point
  imports VVM_Prelude
begin

text \<open>
  Arithmetic on \<open>fp\<close>: the IEEE rules for NaN and the infinities, and exact arithmetic with
  \<open>fl\<close> on finite values.  The sign of zero is not kept: a division of a finite value by zero is
  taken by the positive zero.  \<open>cpp_round\<close> rounds halves away from zero, as \<open>std::round\<close>
  and \<open>std::llround\<close> do.  A conversion to an integer type is truncation where the result fits and
  undefined otherwise: the undefined results are the parameter \<open>ub\<close>.
\<close>

fun fp_neg :: "fp \<Rightarrow> fp" where
  "fp_neg NaN = NaN"
| "fp_neg PosInf = NegInf"
| "fp_neg NegInf = PosInf"
| "fp_neg (Fin a) = Fin (- a)"

fun fp_abs :: "fp \<Rightarrow> fp" where
  "fp_abs NaN = NaN"
| "fp_abs PosInf = PosInf"
| "fp_abs NegInf = PosInf"
| "fp_abs (Fin a) = Fin \<bar>a\<bar>"

fun fp_add :: "fp \<Rightarrow> fp \<Rightarrow> fp" where
  "fp_add NaN _ = NaN"
| "fp_add _ NaN = NaN"
| "fp_add PosInf NegInf = NaN"
| "fp_add NegInf PosInf = NaN"
| "fp_add PosInf _ = PosInf"
| "fp_add _ PosInf = PosInf"
| "fp_add NegInf _ = NegInf"
| "fp_add _ NegInf = NegInf"
| "fp_add (Fin a) (Fin b) = fl (a + b)"

definition fp_sub :: "fp \<Rightarrow> fp \<Rightarrow> fp" where
  "fp_sub x y = fp_add x (fp_neg y)"

definition fp_sign_times :: "real \<Rightarrow> fp" where
  "fp_sign_times s = (if s = 0 then NaN else if 0 < s then PosInf else NegInf)"

fun fp_sign :: "fp \<Rightarrow> real" where
  "fp_sign NaN = 0"
| "fp_sign PosInf = 1"
| "fp_sign NegInf = - 1"
| "fp_sign (Fin a) = sgn a"

fun fp_mul :: "fp \<Rightarrow> fp \<Rightarrow> fp" where
  "fp_mul NaN _ = NaN"
| "fp_mul _ NaN = NaN"
| "fp_mul (Fin a) (Fin b) = fl (a * b)"
| "fp_mul x y = fp_sign_times (fp_sign x * fp_sign y)"

fun fp_div :: "fp \<Rightarrow> fp \<Rightarrow> fp" where
  "fp_div NaN _ = NaN"
| "fp_div _ NaN = NaN"
| "fp_div (Fin a) (Fin b) = (if b = 0 then fp_sign_times a else fl (a / b))"
| "fp_div (Fin a) _ = Fin 0"
| "fp_div x (Fin b) = fp_sign_times (fp_sign x * (if b < 0 then - 1 else 1))"
| "fp_div _ _ = NaN"

text \<open>\<open>std::max(a, b)\<close> is \<open>(a < b) ? b : a\<close>.\<close>

definition fp_max :: "fp \<Rightarrow> fp \<Rightarrow> fp" where
  "fp_max a b = (if fp_less a b then b else a)"

definition trunc :: "real \<Rightarrow> int" where
  "trunc x = (if 0 \<le> x then \<lfloor>x\<rfloor> else \<lceil>x\<rceil>)"

fun fp_fmod :: "fp \<Rightarrow> fp \<Rightarrow> fp" where
  "fp_fmod NaN _ = NaN"
| "fp_fmod _ NaN = NaN"
| "fp_fmod (Fin a) (Fin b) = (if b = 0 then NaN else Fin (a - of_int (trunc (a / b)) * b))"
| "fp_fmod (Fin a) _ = Fin a"
| "fp_fmod _ _ = NaN"

definition cpp_round :: "real \<Rightarrow> int" where
  "cpp_round x = (if 0 \<le> x then \<lfloor>x + 1 / 2\<rfloor> else - \<lfloor>- x + 1 / 2\<rfloor>)"

fun fp_round :: "fp \<Rightarrow> fp" where
  "fp_round (Fin a) = Fin (of_int (cpp_round a))"
| "fp_round x = x"

definition fp_to_int :: "(fp \<Rightarrow> int) \<Rightarrow> nat \<Rightarrow> fp \<Rightarrow> int" where
  "fp_to_int ub w x =
     (case x of Fin r \<Rightarrow> if - (2 ^ w) \<le> trunc r \<and> trunc r < 2 ^ w then trunc r else ub x
      | _ \<Rightarrow> ub x)"

lemma trunc_of_int [simp]: "trunc (of_int n) = n"
  by (simp add: trunc_def)

lemma cpp_round_of_int [simp]: "cpp_round (of_int n) = n"
  by (simp add: cpp_round_def floor_eq_iff)

text \<open>Rounding is off by at most one half, and by no more than any other integer.\<close>

lemma cpp_round_error: "\<bar>of_int (cpp_round x) - x\<bar> \<le> 1 / 2"
proof (cases "0 \<le> x")
  case True
  then show ?thesis
    unfolding cpp_round_def if_P [OF True] using floor_correct [of "x + 1 / 2"] by linarith
next
  case False
  then show ?thesis
    unfolding cpp_round_def if_not_P [OF False] of_int_minus
    using floor_correct [of "- x + 1 / 2"] by linarith
qed

lemma cpp_round_nearest: "\<bar>of_int (cpp_round x) - x\<bar> \<le> \<bar>of_int m - x\<bar>"
proof (cases "cpp_round x = m")
  case False
  then have "1 \<le> \<bar>cpp_round x - m\<bar>" by simp
  then have "1 \<le> \<bar>of_int (cpp_round x) - (of_int m :: real)\<bar>" by linarith
  then show ?thesis using cpp_round_error [of x] by linarith
qed simp

lemma abs_diff_scale:
  fixes m t dt :: real
  assumes "0 < dt"
  shows "\<bar>m * dt - t\<bar> = \<bar>m - t / dt\<bar> * dt"
proof -
  have "m * dt - t = (m - t / dt) * dt" using assms by (simp add: left_diff_distrib)
  then show ?thesis using assms by (simp add: abs_mult)
qed

lemma fp_max_Fin [simp]: "fp_max (Fin a) (Fin b) = Fin (max a b)"
  by (simp add: fp_max_def max_def)

lemma fp_sub_Fin [simp]: "fp_sub (Fin a) (Fin b) = fl (a - b)"
  by (simp add: fp_sub_def)

lemma fl_in_range [simp]: "\<bar>x\<bar> \<le> dbl_max \<Longrightarrow> fl x = Fin x"
  by (simp add: fl_def)

lemma dbl_max_pos: "2 ^ 64 < dbl_max"
  by (simp add: dbl_max_def)

end
