(* ===== verification/Scheduling.thy ===== *)
theory Scheduling
  imports Floating_Point
begin

text \<open>
  \<open>utils/ProcessScheduling.hpp\<close>: the processes that run every \<open>N\<close> steps.  The step counter
  is a \<open>std::size_t\<close>, a 64-bit word whose subtraction wraps; the interval is an \<open>int\<close>.
\<close>

section \<open>The code\<close>

definition is_process_step :: "64 word \<Rightarrow> int \<Rightarrow> bool" where
  "is_process_step step interval_in_steps \<longleftrightarrow>
     (if interval_in_steps \<le> 1 then True else step mod word_of_int interval_in_steps = 0)"

definition is_legacy_surface_compute_step :: "64 word \<Rightarrow> int \<Rightarrow> bool" where
  "is_legacy_surface_compute_step step interval_in_steps \<longleftrightarrow>
     (if interval_in_steps \<le> 1 then True else (step - 1) mod word_of_int interval_in_steps = 0)"

datatype schedule_error =
    Frequency_not_positive fp
  | Frequency_not_multiple_of_dt
  | Frequency_below_dt fp fp

definition interval_steps_from_frequency ::
  "(fp \<Rightarrow> int) \<Rightarrow> fp \<Rightarrow> fp \<Rightarrow> schedule_error + int" where
  "interval_steps_from_frequency ub frequency_s dt_s =
     (let epsilon = Fin (1 / 10 ^ 6) in
      rbind (throw_if (\<not> fp_less (Fin 0) frequency_s) (Frequency_not_positive frequency_s)) (\<lambda>_.
        let remainder = fp_fmod frequency_s dt_s in
        rbind (throw_if (fp_less epsilon remainder \<and> fp_less epsilon (fp_sub dt_s remainder))
                 Frequency_not_multiple_of_dt) (\<lambda>_.
          let steps = fp_to_int ub 31 (fp_round (fp_div frequency_s dt_s)) in
          rbind (throw_if (steps < 1) (Frequency_below_dt frequency_s dt_s)) (\<lambda>_. Inr steps))))"

section \<open>When a process runs\<close>

lemma uint_interval: "0 \<le> N \<Longrightarrow> N < 2 ^ 31 \<Longrightarrow> uint (word_of_int N :: 64 word) = N"
  by (simp add: uint_word_of_int_eq take_bit_int_eq_self)

lemma word_mod_eq_0_iff:
  "1 \<le> N \<Longrightarrow> N < 2 ^ 31 \<Longrightarrow> s mod (word_of_int N :: 64 word) = 0 \<longleftrightarrow> N dvd uint s"
  by (simp add: word_uint_eq_iff uint_mod_distrib uint_interval dvd_eq_mod_eq_0)

lemma is_process_step_iff:
  "1 \<le> N \<Longrightarrow> N < 2 ^ 31 \<Longrightarrow> is_process_step s N \<longleftrightarrow> N dvd uint s"
  by (cases "N = 1") (simp_all add: is_process_step_def word_mod_eq_0_iff)

lemma legacy_is_process_step: "is_legacy_surface_compute_step s N \<longleftrightarrow> is_process_step (s - 1) N"
  by (simp add: is_legacy_surface_compute_step_def is_process_step_def)

lemma uint_minus_1: "uint (- 1 :: 64 word) = 2 ^ 64 - 1"
  by (simp add: unsigned_minus_1_eq_mask mask_eq_exp_minus_1)

text \<open>A process with an interval of \<open>N\<close> steps runs at the steps that \<open>N\<close> divides, whatever
  the step the run was started from.  The schedule of the surface process is that one shifted by a step, and
  at step 0, where the subtraction wraps, it runs when \<open>N\<close> divides \<open>2^64 - 1\<close>.\<close>

theorem process_schedule:
  assumes "1 \<le> N" and "N < 2 ^ 31"
  shows "(is_process_step s N \<longleftrightarrow> N dvd uint s) \<and>
    (is_legacy_surface_compute_step (s + 1) N \<longleftrightarrow> is_process_step s N) \<and>
    (is_legacy_surface_compute_step 0 N \<longleftrightarrow> N dvd 2 ^ 64 - 1)"
  using assms by (simp add: is_process_step_iff legacy_is_process_step uint_minus_1)

text \<open>The intervals that the comment beside the code lists.\<close>

lemma process_schedule_witness:
  "map (is_legacy_surface_compute_step 0) [3, 5, 15, 24, 120] = [True, True, True, False, False] \<and>
   map (is_legacy_surface_compute_step 1) [3, 5, 15, 24, 120] = [True, True, True, True, True]"
proof -
  have zero: "is_legacy_surface_compute_step 0 N \<longleftrightarrow> N dvd 2 ^ 64 - 1" if "1 \<le> N" "N < 2 ^ 31" for N
    using process_schedule [OF that] by simp
  have one: "is_legacy_surface_compute_step 1 N" if "1 \<le> N" "N < 2 ^ 31" for N
    using process_schedule [OF that, of 0] by simp
  show ?thesis by (simp add: zero one)
qed

text \<open>Among any \<open>N\<close> successive steps exactly one is a compute step, as long as the counter does
  not wrap.\<close>

theorem one_compute_step_per_interval:
  assumes "1 \<le> N" and "N < 2 ^ 31" and "uint s + N \<le> 2 ^ 64"
  shows "\<exists>!d. 0 \<le> d \<and> d < N \<and> is_process_step (s + word_of_int d) N"
proof -
  have step: "is_process_step (s + word_of_int d) N \<longleftrightarrow> N dvd uint s + d" if "0 \<le> d" "d < N" for d
  proof -
    have "uint (s + word_of_int d) = uint s + d"
      using that assms uint_ge_0 [of s]
      by (simp add: uint_word_ariths uint_interval mod_pos_pos_trivial)
    then show ?thesis using assms by (simp add: is_process_step_iff)
  qed
  define r where "r = (- uint s) mod N"
  have r: "0 \<le> r" "r < N" using assms(1) by (simp_all add: r_def)
  have "(uint s + r) mod N = 0" by (simp add: r_def mod_simps)
  then have "N dvd uint s + r" by (simp add: dvd_eq_mod_eq_0)
  moreover have "d = r" if "0 \<le> d" "d < N" "N dvd uint s + d" for d
  proof -
    have "d mod N = (uint s + d + (- uint s)) mod N" by simp
    also have "\<dots> = (- uint s) mod N" using that(3) by (metis add_0 dvd_imp_mod_0 mod_add_left_eq)
    finally show ?thesis using that r_def by (simp add: mod_pos_pos_trivial)
  qed
  ultimately show ?thesis
  proof (intro ex1I [of _ r], goal_cases)
    case 1
    then show ?case using r step [OF r] by blast
  next
    case (2 d)
    then show ?case using step [of d] by blast
  qed
qed

lemma one_compute_step_per_interval_witness:
  "\<exists>!d. 0 \<le> d \<and> d < 24 \<and> is_process_step (100 + word_of_int d) 24"
  by (rule one_compute_step_per_interval) simp_all

section \<open>The interval from a frequency in seconds\<close>

lemma fmod_nonneg:
  assumes "0 < dt" and "0 < f"
  obtains r where "fp_fmod (Fin f) (Fin dt) = Fin r" and "0 \<le> r" and "r < dt"
    and "f = of_int \<lfloor>f / dt\<rfloor> * dt + r"
proof -
  have "of_int \<lfloor>f / dt\<rfloor> * dt \<le> f" "f < (of_int \<lfloor>f / dt\<rfloor> + 1) * dt"
    using floor_divide_lower [OF assms(1), of f] floor_divide_upper [OF assms(1), of f] by simp_all
  then show thesis using that [of "f - of_int \<lfloor>f / dt\<rfloor> * dt"] assms
    by (simp add: trunc_def algebra_simps)
qed

text \<open>The distance from \<open>f\<close> to the nearest multiple of \<open>dt\<close>.\<close>

lemma round_distance:
  fixes f dt r :: real
  assumes "0 < dt" and "f = of_int q * dt + r" and "0 \<le> r" and "r < dt"
  shows "\<bar>of_int (cpp_round (f / dt)) * dt - f\<bar> = min r (dt - r)"
proof -
  let ?n = "cpp_round (f / dt)"
  have nearest: "\<bar>of_int ?n * dt - f\<bar> \<le> \<bar>of_int m * dt - f\<bar>" for m
    unfolding abs_diff_scale [OF assms(1)] using cpp_round_nearest [of "f / dt" m] assms(1) by (simp add: mult_right_mono)
  have "\<bar>of_int ?n * dt - f\<bar> \<le> r" "\<bar>of_int ?n * dt - f\<bar> \<le> dt - r"
    using nearest [of q] nearest [of "q + 1"] assms by (simp_all add: algebra_simps)
  moreover have "min r (dt - r) \<le> \<bar>of_int ?n * dt - f\<bar>"
  proof (cases "?n \<le> q")
    case True
    then have "of_int ?n * dt \<le> of_int q * dt" using assms(1) by (simp add: mult_right_mono)
    then have "r \<le> f - of_int ?n * dt" using assms(2) by linarith
    then show ?thesis by linarith
  next
    case False
    then have "of_int (q + 1) * dt \<le> of_int ?n * dt" using assms(1) by (intro mult_right_mono) auto
    then show ?thesis using assms by (simp add: algebra_simps)
  qed
  ultimately show ?thesis by linarith
qed

text \<open>For a positive time step and frequency whose quotient fits an \<open>int\<close>, the conversion
  succeeds exactly when the nearest whole number of steps is at least 1 and its duration is within
  \<open>10^-6\<close> s of the frequency, and that number is the result.\<close>

theorem interval_steps_exact:
  assumes "0 < dt" and "dt \<le> dbl_max" and "0 < f" and "f \<le> dbl_max" and "f / dt < 2 ^ 31 - 1"
  shows "interval_steps_from_frequency ub (Fin f) (Fin dt) = Inr n \<longleftrightarrow>
    n = cpp_round (f / dt) \<and> 1 \<le> n \<and> \<bar>of_int n * dt - f\<bar> \<le> 1 / 10 ^ 6"
proof -
  obtain r where r: "fp_fmod (Fin f) (Fin dt) = Fin r" "0 \<le> r" "r < dt"
    "f = of_int \<lfloor>f / dt\<rfloor> * dt + r"
    using fmod_nonneg [OF assms(1,3)] by metis
  let ?n = "cpp_round (f / dt)"
  have d: "\<bar>of_int ?n * dt - f\<bar> = min r (dt - r)"
    by (rule round_distance [OF assms(1) r(4,2,3)])
  have q: "0 < f / dt" "\<bar>f / dt\<bar> \<le> dbl_max" using assms dbl_max_pos by simp_all
  have "of_int ?n < (2 ^ 31 :: real)" using cpp_round_error [of "f / dt"] assms(5) by linarith
  then have range: "?n < 2 ^ 31" "0 \<le> ?n" using q(1) by (simp, simp add: cpp_round_def)
  then have n: "fp_to_int ub 31 (fp_round (fp_div (Fin f) (Fin dt))) = ?n"
    using q(2) assms(1) by (simp add: fp_to_int_def)
  have sub: "fp_sub (Fin dt) (Fin r) = Fin (dt - r)" using r assms(2) by simp
  show ?thesis
    unfolding interval_steps_from_frequency_def Let_def n r(1) sub
    using d assms(3) by (auto simp: rbind_eq_Inr_iff min_def not_less split: if_splits)
qed

lemma interval_steps_exact_witness:
  "interval_steps_from_frequency (\<lambda>_. 0) (Fin 60) (Fin (5 / 2)) = Inr 24 \<and>
   interval_steps_from_frequency (\<lambda>_. 0) (Fin 61) (Fin (5 / 2)) \<noteq> Inr 24"
proof -
  have 24: "cpp_round 24 = 24" using cpp_round_of_int [of 24] by simp
  have "interval_steps_from_frequency (\<lambda>_. 0) (Fin 60) (Fin (5 / 2)) = Inr 24"
    by (subst interval_steps_exact) (use dbl_max_pos in \<open>simp_all add: 24\<close>)
  moreover have "interval_steps_from_frequency (\<lambda>_. 0) (Fin 61) (Fin (5 / 2)) \<noteq> Inr 24"
    by (subst interval_steps_exact) (use dbl_max_pos in simp_all)
  ultimately show ?thesis ..
qed

end
