(* ===== verification/Model_Driver.thy ===== *)
theory Model_Driver
  imports Scheduling Json_Config
begin

text \<open>
  \<open>driver/Model\<close>: which processes a model has, the calls that one time step makes and in which order.

  \<open>run_step\<close> gives the calls that change the state as a list of actions.  A step relation says what
  the actions do to the tendency fields and to the halos: which processes' tendencies a field holds since it was
  cleared, which have been added to which variable, and which variables have halos older than their
  interior.  The relation refuses a call that would use leftover tendencies, a null pointer or an old
  halo, so that running through a whole step is a statement about the order of the calls.
\<close>

section \<open>The processes of a model\<close>

text \<open>Which of the optional processes exist, and their lists of variables; the names of the members
  follow the pointers of \<open>Model\<close>.\<close>

record model =
  mapped :: bool
  wind_solver :: bool
  has_p3 :: bool
  has_cleo :: bool
  turbulence :: "(string list \<times> string list) option"
  has_radiation :: bool
  rad_freq_in_steps :: int
  sponge_vars :: "(string list \<times> string list) option"
  lateral_vars :: "string list option"
  has_area_mean :: bool
  uvtau :: real
  has_random :: bool
  tracer_source :: "string list option"
  dynamics_vars :: "string list"
  thermodynamics_vars :: "string list"
  enable_surface_process :: bool
  has_land :: bool
  surface_process_s :: real
  surface_process_steps :: int
  predict_uvtopmn :: bool

datatype driver_error =
    Driver_config config_error
  | Driver_schedule schedule_error
  | Cleo_with_p3
  | Unknown_microphysics_engine string
  | Field_not_found string

definition no_solver_mode :: "string list" where
  "no_solver_mode = [''advection_u'', ''advection_v'', ''advection_w'', ''stretching'', ''twisting'']"

definition p3_vars :: "string list" where
  "p3_vars = [''qc'', ''qr'', ''qi'', ''nc'', ''nr'', ''ni'', ''bm'', ''qm'']"

text \<open>\<open>thermodynamics_vars_\<close> of the turbulence process, and that of the sponge layer and of the model.\<close>

definition moist_vars :: "bool \<Rightarrow> string list" where
  "moist_vars p3 = [''th'', ''qv''] @ (if p3 then p3_vars else [])"

definition turbulence_thermo_vars :: "bool \<Rightarrow> string list \<Rightarrow> string list" where
  "turbulence_thermo_vars p3 tracer_names = moist_vars p3 @ tracer_names"

text \<open>The constructor of \<open>Model\<close>; \<open>dt_s\<close> is the time step, \<open>tracer_names\<close> and \<open>tracer_source_targets\<close> come
  from the state.  \<open>ub\<close> is the result of the conversion of a double that does not fit to \<open>int\<close>.\<close>

definition make_model ::
  "(fp \<Rightarrow> int) \<Rightarrow> json \<Rightarrow> bool \<Rightarrow> fp \<Rightarrow> string list \<Rightarrow> string list \<Rightarrow> driver_error + model" where
  "make_model ub config is_mapped dt_s tracer_names tracer_source_targets =
     (let flag = (\<lambda>key. map_error Driver_config (get_value_default as_bool config key False));
          text = (\<lambda>key d. map_error Driver_config (get_value_default as_string config key d));
          double = (\<lambda>key d. map_error Driver_config (get_value_default as_double config key (Fin d)))
      in
      rbind (text ''simulation.idealized_test'' ''none'') (\<lambda>mode.
      rbind (flag ''physics.p3.enable_p3'') (\<lambda>p3.
      rbind (text ''physics.microphysics.engine'' ''none'') (\<lambda>engine.
      rbind (throw_if (engine = ''cleo'' \<and> p3) Cleo_with_p3) (\<lambda>_.
      rbind (throw_if (engine \<noteq> ''cleo'' \<and> engine \<noteq> ''none'') (Unknown_microphysics_engine engine)) (\<lambda>_.
      rbind (flag ''physics.turbulence.enable_turbulence'') (\<lambda>turb.
      rbind (flag ''physics.rrtmgp.enable_rrtmgp'') (\<lambda>rad.
      rbind (if rad
             then rbind (double ''physics.rrtmgp.rad_frequency_s'' 1) (\<lambda>freq.
                    map_error Driver_schedule (interval_steps_from_frequency ub freq dt_s))
             else Inr 1) (\<lambda>rad_steps.
      rbind (flag ''dynamics.forcings.sponge_layer.enable'') (\<lambda>spg.
      rbind (flag ''dynamics.forcings.lateral_boundary_nudging.enable'') (\<lambda>lat.
      rbind (if lat then map_error Driver_config (get_value_default (as_list as_string) config
               ''dynamics.forcings.lateral_boundary_nudging.target_vars'' [''th'', ''qv'']) else Inr []) (\<lambda>lat_vars.
      rbind (double ''dynamics.forcings.areamn.uvtau'' 0) (\<lambda>tau.
      rbind (flag ''dynamics.forcings.areamn.enable'') (\<lambda>area.
      rbind (flag ''dynamics.forcings.random_perturbation.enable'') (\<lambda>rand.
      rbind (flag ''physics.surface_process.enable'') (\<lambda>sfc.
      rbind (text ''physics.surface_process.land_scheme'' ''none'') (\<lambda>land_scheme.
      rbind (text ''physics.surface_process.ocean_scheme'' ''none'') (\<lambda>ocean_scheme.
      rbind (if sfc
             then rbind (double ''physics.surface_process.frequency_s'' 1) (\<lambda>freq.
                    rbind (map_error Driver_schedule (interval_steps_from_frequency ub freq dt_s)) (\<lambda>n.
                      Inr (fval freq, n)))
             else Inr (0, 1)) (\<lambda>(sfc_s, sfc_steps).
      Inr \<lparr>mapped = is_mapped,
           wind_solver = mode \<notin> set no_solver_mode,
           has_p3 = p3,
           has_cleo = (engine = ''cleo''),
           turbulence = (if turb
             then Some (turbulence_thermo_vars p3 tracer_names, [''xi'', ''eta'', ''zeta'']) else None),
           has_radiation = rad,
           rad_freq_in_steps = rad_steps,
           sponge_vars = (if spg then Some (moist_vars p3, [''xi'', ''eta'', ''zeta'']) else None),
           lateral_vars = (if lat then Some lat_vars else None),
           has_area_mean = area,
           uvtau = fval tau,
           has_random = rand,
           tracer_source = (if tracer_source_targets \<noteq> [] then Some tracer_source_targets else None),
           dynamics_vars = [''xi'', ''eta'', ''zeta''],
           thermodynamics_vars = (if turb then turbulence_thermo_vars p3 tracer_names else moist_vars p3),
           enable_surface_process = sfc,
           has_land = (sfc \<and> land_scheme = ''noahlsm''),
           surface_process_s = sfc_s,
           surface_process_steps = sfc_steps,
           predict_uvtopmn = \<not> (area \<and> fval tau = 0)\<rparr>)))))))))))))))))))"

section \<open>The field cache\<close>

record fe_target =
  target_name :: string
  fe_3d :: "string option"
  fe_2d :: "string option"
  zero_gradient_top :: bool

text \<open>The fields of the state that exist, by their dimension; \<open>get_field\<close> throws for the others.\<close>

record state_fields =
  fields_3d :: "string set"
  fields_2d :: "string set"

definition get_field :: "string set \<Rightarrow> string \<Rightarrow> driver_error + unit" where
  "get_field fs name = throw_if (name \<notin> fs) (Field_not_found name)"

definition build_target :: "state_fields \<Rightarrow> bool \<Rightarrow> string \<Rightarrow> driver_error + fe_target" where
  "build_target fs with_fe_tendency var_name =
     rbind (get_field (fields_3d fs) var_name) (\<lambda>_.
       let fe_name = ''fe_tendency_'' @ var_name;
           t = \<lparr>target_name = var_name, fe_3d = None, fe_2d = None,
                zero_gradient_top = (var_name = ''th'' \<or> var_name = ''qv'')\<rparr>
       in if with_fe_tendency then
            (if var_name = ''zeta'' then rbind (get_field (fields_2d fs) fe_name) (\<lambda>_. Inr (t\<lparr>fe_2d := Some fe_name\<rparr>))
             else rbind (get_field (fields_3d fs) fe_name) (\<lambda>_. Inr (t\<lparr>fe_3d := Some fe_name\<rparr>)))
          else Inr t)"

definition build :: "state_fields \<Rightarrow> string list \<Rightarrow> bool \<Rightarrow> driver_error + fe_target list" where
  "build fs var_names with_fe_tendency = rmap (build_target fs with_fe_tendency) var_names"

record field_cache =
  tracer_source_targets :: "fe_target list"
  turbulence_thermo_targets :: "fe_target list"
  turbulence_dynamics_targets :: "fe_target list"
  surface_thermo_targets :: "fe_target list"
  surface_dynamics_targets :: "fe_target list"
  integrate_thermo_targets :: "fe_target list"
  integrate_dynamics_targets :: "fe_target list"
  sponge_thermo_targets :: "fe_target list"
  sponge_dynamics_targets :: "fe_target list"
  lateral_nudging_targets :: "fe_target list"
  thermo_boundary_targets :: "fe_target list"
  dynamics_boundary_targets :: "fe_target list"

definition ensure_field_cache :: "model \<Rightarrow> state_fields \<Rightarrow> driver_error + field_cache" where
  "ensure_field_cache M fs =
     (let opt = (\<lambda>x b. case x of None \<Rightarrow> Inr [] | Some vs \<Rightarrow> build fs vs b);
          turb = turbulence M \<noteq> None; sfc = enable_surface_process M
      in
      rbind (opt (tracer_source M) False) (\<lambda>tr.
      rbind (opt (map_option fst (turbulence M)) True) (\<lambda>tt.
      rbind (opt (map_option snd (turbulence M)) True) (\<lambda>td.
      rbind (if sfc then build fs [''th'', ''qv''] True else Inr []) (\<lambda>st.
      rbind (if sfc then build fs [''xi'', ''eta''] True else Inr []) (\<lambda>sd.
      rbind (opt (map_option fst (sponge_vars M)) True) (\<lambda>pt.
      rbind (opt (map_option snd (sponge_vars M)) True) (\<lambda>pd.
      rbind (opt (lateral_vars M) True) (\<lambda>lt.
      rbind (build fs (thermodynamics_vars M) False) (\<lambda>tb.
      rbind (build fs (dynamics_vars M) False) (\<lambda>db.
      Inr \<lparr>tracer_source_targets = tr,
           turbulence_thermo_targets = tt, turbulence_dynamics_targets = td,
           surface_thermo_targets = st, surface_dynamics_targets = sd,
           integrate_thermo_targets = (if turb \<or> sfc then (if turb then tt else st) else []),
           integrate_dynamics_targets = (if turb \<or> sfc then (if turb then td else sd) else []),
           sponge_thermo_targets = pt, sponge_dynamics_targets = pd, lateral_nudging_targets = lt,
           thermo_boundary_targets = tb, dynamics_boundary_targets = db\<rparr>)))))))))))"

section \<open>One step as a sequence of calls\<close>

datatype process = Turbulence_process | Surface_process | Land_process | Sponge_process | Lateral_process

text \<open>The calls of \<open>run_step\<close> that change the state, with their arguments.  \<open>Clear_tendency\<close> is
  \<open>set_to_zero\<close> on a tendency field, \<open>Add_tendency\<close> the \<open>calculate_tendencies\<close> of a process for a variable
  into a tendency field and \<open>Forward_update\<close> the \<open>apply_forward_update\<close> of \<open>TimeIntegrator\<close>.
  \<open>Null_dereference\<close> is the use of a tendency pointer that the cache has left null.\<close>

datatype action =
    Update_large_scale_forcing real
  | Update_forcing_target real
  | Calculate_thermo_tendencies
  | Radiation_run real
  | Radiation_tendencies
  | Update_thermodynamics real
  | Tracer_source_apply real
  | Exchange_multiple_halos "string list"
  | Horizontal_bcs string
  | Zero_gradient string
  | Zero_gradient_bottom_zero_top string
  | Vorticity_bc string
  | Random_forcing_apply real
  | P3_run real
  | Cleo_run real real
  | Turbulence_coefficients real
  | Clear_tendency string
  | Add_tendency process string string
  | Forward_update string real string
  | Null_dereference
  | Land_run real
  | Surface_coefficients
  | Refresh_total_condensate
  | Calculate_vorticity_tendencies
  | Update_vorticity real
  | Begin_physical_vorticity_update
  | Apply_vorticity real
  | Zeta_vertical_structure
  | Finish_physical_vorticity_update
  | Compute_uvtopmn
  | Apply_uvtopmn real
  | Compute_wind_fields
  | Compute_diagnostic_fields

definition call_if :: "bool \<Rightarrow> action list \<Rightarrow> action list" where
  "call_if b as = (if b then as else [])"

text \<open>The uses of \<open>target.fe_3d\<close>, and those that look at \<open>target.fe_2d\<close> first.\<close>

definition on_fe_3d :: "fe_target \<Rightarrow> (string \<Rightarrow> action) \<Rightarrow> action" where
  "on_fe_3d t a = (case fe_3d t of None \<Rightarrow> Null_dereference | Some n \<Rightarrow> a n)"

definition on_fe :: "fe_target \<Rightarrow> (string \<Rightarrow> action) \<Rightarrow> action" where
  "on_fe t a = (case fe_2d t of Some n \<Rightarrow> a n | None \<Rightarrow> on_fe_3d t a)"

definition turbulence_thermo_calls :: "field_cache \<Rightarrow> real \<Rightarrow> action list" where
  "turbulence_thermo_calls C dt =
     Turbulence_coefficients dt #
     concat (map (\<lambda>t. [on_fe_3d t Clear_tendency, on_fe_3d t (Add_tendency Turbulence_process (target_name t))])
       (turbulence_thermo_targets C))"

definition surface_thermo_calls :: "model \<Rightarrow> field_cache \<Rightarrow> 64 word \<Rightarrow> action list" where
  "surface_thermo_calls M C current_step =
     call_if (is_legacy_surface_compute_step current_step (surface_process_steps M))
       (call_if (has_land M) [Land_run (surface_process_s M)] @ [Surface_coefficients]) @
     concat (map (\<lambda>t.
         call_if (turbulence M = None) [on_fe_3d t Clear_tendency] @
         [on_fe_3d t (Add_tendency Surface_process (target_name t))] @
         call_if (has_land M) [on_fe_3d t (Add_tendency Land_process (target_name t))])
       (surface_thermo_targets C))"

text \<open>A process that clears its tendency, calculates it and steps forward, variable by variable.\<close>

definition relax_calls :: "process \<Rightarrow> real \<Rightarrow> fe_target list \<Rightarrow> action list" where
  "relax_calls p dt ts =
     concat (map (\<lambda>t. [on_fe t Clear_tendency, on_fe t (Add_tendency p (target_name t)),
                       on_fe t (Forward_update (target_name t) dt)]) ts)"

definition relax_calls_3d :: "process \<Rightarrow> real \<Rightarrow> fe_target list \<Rightarrow> action list" where
  "relax_calls_3d p dt ts =
     concat (map (\<lambda>t. [on_fe_3d t Clear_tendency, on_fe_3d t (Add_tendency p (target_name t)),
                       on_fe_3d t (Forward_update (target_name t) dt)]) ts)"

definition thermo_boundary_calls :: "model \<Rightarrow> field_cache \<Rightarrow> action list" where
  "thermo_boundary_calls M C =
     Exchange_multiple_halos (map target_name (thermo_boundary_targets C)) #
     concat (map (\<lambda>t.
         call_if (mapped M \<and> target_name t \<noteq> ''xi'' \<and> target_name t \<noteq> ''eta'') [Horizontal_bcs (target_name t)] @
         [if zero_gradient_top t then Zero_gradient (target_name t)
          else Zero_gradient_bottom_zero_top (target_name t)])
       (thermo_boundary_targets C))"

definition thermo_core_calls :: "model \<Rightarrow> field_cache \<Rightarrow> 64 word \<Rightarrow> real \<Rightarrow> real \<Rightarrow> action list" where
  "thermo_core_calls M C current_step current_time dt =
     call_if (lateral_vars M \<noteq> None) [Update_large_scale_forcing current_time] @
     call_if (has_area_mean M) [Update_forcing_target current_time] @
     [Calculate_thermo_tendencies] @
     call_if (has_radiation M)
       (call_if (is_process_step current_step (rad_freq_in_steps M)) [Radiation_run dt] @ [Radiation_tendencies]) @
     [Update_thermodynamics dt] @
     call_if (tracer_source M \<noteq> None)
       ([Tracer_source_apply dt, Exchange_multiple_halos (map target_name (tracer_source_targets C))] @
        concat (map (\<lambda>t. [Horizontal_bcs (target_name t), Zero_gradient_bottom_zero_top (target_name t)])
          (tracer_source_targets C))) @
     call_if (has_random M) [Random_forcing_apply current_time] @
     call_if (has_p3 M) [P3_run dt] @
     call_if (has_cleo M) [Cleo_run current_time dt]"

definition thermo_process_calls :: "model \<Rightarrow> field_cache \<Rightarrow> 64 word \<Rightarrow> real \<Rightarrow> action list" where
  "thermo_process_calls M C current_step dt =
     (let turb = turbulence M \<noteq> None; sfc = enable_surface_process M;
          spg = sponge_vars M \<noteq> None; lat = lateral_vars M \<noteq> None
      in
      (call_if turb (turbulence_thermo_calls C dt) @
       call_if sfc (surface_thermo_calls M C current_step) @
       call_if (turb \<or> sfc)
         (map (\<lambda>t. on_fe_3d t (Forward_update (target_name t) dt)) (integrate_thermo_targets C))) @
      call_if spg (relax_calls_3d Sponge_process dt (sponge_thermo_targets C)) @
      call_if lat (relax_calls_3d Lateral_process dt (lateral_nudging_targets C)) @
      call_if (turb \<or> spg \<or> sfc \<or> lat) (thermo_boundary_calls M C) @
      call_if (has_p3 M \<and> mapped M) [Refresh_total_condensate])"

definition dynamics_boundary_calls :: "model \<Rightarrow> field_cache \<Rightarrow> action list" where
  "dynamics_boundary_calls M C =
     Exchange_multiple_halos (map target_name (dynamics_boundary_targets C)) #
     concat (map (\<lambda>t.
         call_if (mapped M \<and> target_name t \<noteq> ''xi'' \<and> target_name t \<noteq> ''eta'') [Horizontal_bcs (target_name t)] @
         [if target_name t = ''zeta'' \<and> mapped M then Zero_gradient (target_name t)
          else Vorticity_bc (target_name t)])
       (dynamics_boundary_targets C)) @
     [Zeta_vertical_structure, Finish_physical_vorticity_update]"

definition vorticity_calls :: "model \<Rightarrow> field_cache \<Rightarrow> real \<Rightarrow> action list" where
  "vorticity_calls M C dt =
     (let turb = turbulence M \<noteq> None; sfc = enable_surface_process M;
          spg = sponge_vars M \<noteq> None; physical = (turb \<or> spg \<or> sfc \<or> has_area_mean M)
      in
      [Calculate_vorticity_tendencies, Update_vorticity dt] @
      call_if physical [Begin_physical_vorticity_update] @
      (call_if turb
         (concat (map (\<lambda>t. [on_fe t Clear_tendency, on_fe t (Add_tendency Turbulence_process (target_name t))])
            (turbulence_dynamics_targets C))) @
       call_if sfc
         (concat (map (\<lambda>t. call_if (\<not> turb) [on_fe_3d t Clear_tendency] @
              [on_fe_3d t (Add_tendency Surface_process (target_name t))]) (surface_dynamics_targets C))) @
       call_if (turb \<or> sfc)
         (map (\<lambda>t. on_fe t (Forward_update (target_name t) dt)) (integrate_dynamics_targets C))) @
      call_if spg (relax_calls Sponge_process dt (sponge_dynamics_targets C)) @
      call_if (has_area_mean M) [Apply_vorticity dt] @
      call_if physical (dynamics_boundary_calls M C))"

definition wind_calls :: "model \<Rightarrow> real \<Rightarrow> action list" where
  "wind_calls M dt =
     call_if (wind_solver M)
       (call_if (predict_uvtopmn M) [Compute_uvtopmn] @
        call_if (has_area_mean M) [Apply_uvtopmn dt] @ [Compute_wind_fields]) @
     [Compute_diagnostic_fields]"

definition run_step :: "model \<Rightarrow> field_cache \<Rightarrow> 64 word \<Rightarrow> real \<Rightarrow> real \<Rightarrow> action list" where
  "run_step M C current_step current_time dt =
     thermo_core_calls M C current_step current_time dt @ thermo_process_calls M C current_step dt @
     vorticity_calls M C dt @ wind_calls M dt"

section \<open>The discipline of a step\<close>

text \<open>What the calls do to the tendency fields and the halos: \<open>pending n\<close> are the processes whose tendency the
  field \<open>n\<close> holds since it was cleared (\<open>None\<close>: values that have been used, or that belong to the dynamical core),
  \<open>applied\<close> what the forward updates have added to which variable, \<open>stale\<close> the variables that were
  changed in the interior since their halo was exchanged.\<close>

record status =
  pending :: "string \<Rightarrow> process list option"
  applied :: "(string \<times> process) list"
  stale :: "string set"
  in_physical_update :: bool

definition p3_update_fields :: "string list" where
  "p3_update_fields = [''qc'', ''nc'', ''qr'', ''nr'', ''qi'', ''qm'', ''ni'', ''bm'', ''th'', ''qv'', ''qp'', ''T'']"

fun neutral :: "action \<Rightarrow> bool" where
  "neutral (Update_large_scale_forcing t) = True"
| "neutral (Update_forcing_target t) = True"
| "neutral (Radiation_run dt) = True"
| "neutral (Horizontal_bcs v) = True"
| "neutral (Zero_gradient v) = True"
| "neutral (Zero_gradient_bottom_zero_top v) = True"
| "neutral (Vorticity_bc v) = True"
| "neutral (Turbulence_coefficients dt) = True"
| "neutral (Land_run t) = True"
| "neutral Surface_coefficients = True"
| "neutral Refresh_total_condensate = True"
| "neutral Compute_uvtopmn = True"
| "neutral (Apply_uvtopmn dt) = True"
| "neutral Compute_wind_fields = True"
| "neutral Compute_diagnostic_fields = True"
| "neutral _ = False"

text \<open>What decides in a step whether the random forcing and CLEO do something: the end time and the levels of
  \<open>RandomForcing\<close>, and the clock of CLEO, its end and the time of its next coupling.  A coupling writes \<open>th\<close>, \<open>qv\<close> and
  \<open>qp\<close> and exchanges their halos, and writes the hydrometeors it diagnoses for the radiation without an exchange.\<close>

record step_conditions =
  forcing_end_time :: real
  forcing_k_start :: int
  forcing_k_end :: int
  cleo_time :: nat
  cleo_t_end :: nat
  next_couple_s :: real

definition random_active :: "step_conditions \<Rightarrow> real \<Rightarrow> bool" where
  "random_active E time \<longleftrightarrow> \<not> (time \<ge> forcing_end_time E) \<and> \<not> (forcing_k_start E > forcing_k_end E)"

definition cleo_couples :: "step_conditions \<Rightarrow> real \<Rightarrow> real \<Rightarrow> bool" where
  "cleo_couples E time dt \<longleftrightarrow> cleo_time E < cleo_t_end E \<and> time + 1 / 2 * dt \<ge> next_couple_s E"

definition cleo_fields :: "string list" where
  "cleo_fields = [''qc'', ''qr'', ''nc'', ''nr'']"

text \<open>\<open>core_vars\<close> are the thermodynamic variables of the dynamical core, which exchanges their halos after their
  update.  The dynamical core reads the halos of these variables, its buoyancy those of \<open>th\<close> and \<open>qv\<close>, and the diffusion
  of a variable those of the variable.  There is no rule for \<open>Null_dereference\<close>.\<close>

inductive act :: "model \<Rightarrow> step_conditions \<Rightarrow> string set \<Rightarrow> status \<Rightarrow> action \<Rightarrow> status \<Rightarrow> bool"
  for M :: model and E :: step_conditions and core_vars :: "string set" where
  neutral: "neutral a \<Longrightarrow> act M E core_vars s a s"
| thermo_tendencies: "core_vars \<inter> stale s = {} \<Longrightarrow>
    act M E core_vars s Calculate_thermo_tendencies (s\<lparr>pending := (\<lambda>_. None)\<rparr>)"
| radiation: "act M E core_vars s Radiation_tendencies (s\<lparr>pending := (pending s)(''fe_tendency_th'' := None)\<rparr>)"
| update_thermo: "act M E core_vars s (Update_thermodynamics dt)
    (s\<lparr>pending := (\<lambda>_. None), stale := stale s - core_vars\<rparr>)"
| tracer: "tracer_source M = Some vs \<Longrightarrow>
    act M E core_vars s (Tracer_source_apply dt) (s\<lparr>stale := stale s \<union> set vs\<rparr>)"
| exchange: "act M E core_vars s (Exchange_multiple_halos vs) (s\<lparr>stale := stale s - set vs\<rparr>)"
| random: "act M E core_vars s (Random_forcing_apply t)
    (if random_active E t then s\<lparr>stale := insert ''th'' (stale s)\<rparr> else s)"
| p3: "act M E core_vars s (P3_run dt) (s\<lparr>stale := stale s - set p3_update_fields\<rparr>)"
| cleo: "act M E core_vars s (Cleo_run t dt)
    (if cleo_couples E t dt then s\<lparr>stale := stale s - {''th'', ''qv'', ''qp''} \<union> set cleo_fields\<rparr> else s)"
| clear: "act M E core_vars s (Clear_tendency n) (s\<lparr>pending := (pending s)(n := Some [])\<rparr>)"
| add: "pending s n = Some ps \<Longrightarrow> (p = Turbulence_process \<Longrightarrow> v \<notin> stale s) \<Longrightarrow>
    act M E core_vars s (Add_tendency p v n) (s\<lparr>pending := (pending s)(n := Some (ps @ [p]))\<rparr>)"
| forward: "pending s n = Some ps \<Longrightarrow> act M E core_vars s (Forward_update v dt n)
    (s\<lparr>pending := (pending s)(n := None), applied := applied s @ map (Pair v) ps, stale := insert v (stale s)\<rparr>)"
| vorticity_tendencies: "{''th'', ''qv''} \<inter> stale s = {} \<Longrightarrow> act M E core_vars s Calculate_vorticity_tendencies s"
| update_vorticity: "act M E core_vars s (Update_vorticity dt)
    (s\<lparr>pending := (\<lambda>_. None), stale := stale s - {''xi'', ''eta'', ''zeta''}\<rparr>)"
| start_physical: "\<not> in_physical_update s \<Longrightarrow>
    act M E core_vars s Begin_physical_vorticity_update (s\<lparr>in_physical_update := True\<rparr>)"
| area_mean: "in_physical_update s \<Longrightarrow>
    act M E core_vars s (Apply_vorticity dt) (s\<lparr>stale := stale s \<union> {''xi'', ''eta''}\<rparr>)"
| zeta_structure: "act M E core_vars s Zeta_vertical_structure (s\<lparr>stale := stale s - {''zeta''}\<rparr>)"
| finish_physical: "in_physical_update s \<Longrightarrow> {''xi'', ''eta'', ''zeta''} \<inter> stale s = {} \<Longrightarrow>
    act M E core_vars s Finish_physical_vorticity_update (s\<lparr>in_physical_update := False\<rparr>)"

inductive_simps act_simps [simp]:
  "act M E V s Calculate_thermo_tendencies s'"
  "act M E V s Radiation_tendencies s'"
  "act M E V s (Update_thermodynamics dt) s'"
  "act M E V s (Tracer_source_apply dt) s'"
  "act M E V s (Exchange_multiple_halos vs) s'"
  "act M E V s (Random_forcing_apply t) s'"
  "act M E V s (Cleo_run t dt) s'"
  "act M E V s (P3_run dt) s'"
  "act M E V s (Clear_tendency n) s'"
  "act M E V s (Add_tendency p v n) s'"
  "act M E V s (Forward_update v dt n) s'"
  "act M E V s Calculate_vorticity_tendencies s'"
  "act M E V s (Update_vorticity dt) s'"
  "act M E V s Begin_physical_vorticity_update s'"
  "act M E V s (Apply_vorticity dt) s'"
  "act M E V s Zeta_vertical_structure s'"
  "act M E V s Finish_physical_vorticity_update s'"
  "act M E V s Null_dereference s'"

lemma act_neutral [simp]: "neutral a \<Longrightarrow> act M E V s a s' \<longleftrightarrow> s' = s"
  by (cases a) (auto elim: act.cases intro: act.neutral)

text \<open>The calls never have a choice.\<close>

lemma act_deterministic: "act M E V s a s1 \<Longrightarrow> act M E V s a s2 \<Longrightarrow> s1 = s2"
  by (induction rule: act.induct) simp_all

inductive acts :: "model \<Rightarrow> step_conditions \<Rightarrow> string set \<Rightarrow> status \<Rightarrow> action list \<Rightarrow> status \<Rightarrow> bool"
  for M :: model and E :: step_conditions and core_vars :: "string set" where
  refl: "acts M E core_vars s [] s"
| step: "act M E core_vars s a s1 \<Longrightarrow> acts M E core_vars s1 as s2 \<Longrightarrow> acts M E core_vars s (a # as) s2"

inductive_simps acts_Nil [simp]: "acts M E V s [] s'"
inductive_simps acts_Cons: "acts M E V s (a # as) s'"
inductive_cases acts_ConsE: "acts M E V s (a # as) s'"

lemma acts_append: "acts M E V s (as @ bs) s' \<longleftrightarrow> (\<exists>t. acts M E V s as t \<and> acts M E V t bs s')"
  by (induction as arbitrary: s) (auto simp: acts_Cons)

lemma acts_deterministic: "acts M E V s as t1 \<Longrightarrow> acts M E V s as t2 \<Longrightarrow> t1 = t2"
proof (induction arbitrary: t2 rule: acts.induct)
  case (refl s)
  then show ?case by simp
next
  case (step s a s1 as s2)
  from step.prems obtain u where "act M E V s a u" "acts M E V u as t2" by (rule acts_ConsE)
  with step.IH act_deterministic [OF step.hyps(1)] show ?case by blast
qed

text \<open>Running through a prefix whose result is known.\<close>

lemma acts_through:
  assumes "acts M E V s as t"
  shows "acts M E V s (as @ bs) s' \<longleftrightarrow> acts M E V t bs s'"
  by (metis assms acts_append acts_deterministic)

lemma acts_appendI: "acts M E V s as t \<Longrightarrow> acts M E V t bs u \<Longrightarrow> acts M E V s (as @ bs) u"
  by (auto simp: acts_append)

lemma acts_call_if:
  "acts M E V s (call_if b as) s' \<longleftrightarrow> (if b then acts M E V s as s' else s' = s)"
  by (simp add: call_if_def)

lemma acts_neutral: "(\<And>a. a \<in> set as \<Longrightarrow> neutral a) \<Longrightarrow> acts M E V s as s' \<longleftrightarrow> s' = s"
  by (induction as) (auto simp: acts_Cons)

section \<open>The targets of the cache\<close>

definition fe :: "string \<Rightarrow> string" where
  "fe v = ''fe_tendency_'' @ v"

lemma fe_inject [simp]: "fe u = fe v \<longleftrightarrow> u = v"
  by (simp add: fe_def)

definition target_of :: "bool \<Rightarrow> string \<Rightarrow> fe_target" where
  "target_of b v = \<lparr>target_name = v, fe_3d = (if b \<and> v \<noteq> ''zeta'' then Some (fe v) else None),
     fe_2d = (if b \<and> v = ''zeta'' then Some (fe v) else None), zero_gradient_top = (v = ''th'' \<or> v = ''qv'')\<rparr>"

lemma target_of_simps [simp]:
  "target_name (target_of b v) = v"
  "on_fe (target_of True v) a = a (fe v)"
  "v \<noteq> ''zeta'' \<Longrightarrow> on_fe_3d (target_of True v) a = a (fe v)"
  by (simp_all add: target_of_def on_fe_def on_fe_3d_def)

definition has_target :: "state_fields \<Rightarrow> bool \<Rightarrow> string \<Rightarrow> bool" where
  "has_target fs b v \<longleftrightarrow> v \<in> fields_3d fs \<and>
     (b \<longrightarrow> fe v \<in> (if v = ''zeta'' then fields_2d fs else fields_3d fs))"

lemma build_target_cases:
  "build_target fs b v = (if has_target fs b v then Inr (target_of b v)
     else Inl (Field_not_found (if v \<notin> fields_3d fs then v else fe v)))"
  by (auto simp: build_target_def get_field_def target_of_def has_target_def fe_def throw_if_def Let_def)

lemma rmap_cases:
  assumes "\<And>x. f x = (if P x then Inr (g x) else Inl (e x))"
  shows "rmap f xs = (case find (\<lambda>x. \<not> P x) xs of None \<Rightarrow> Inr (map g xs) | Some x \<Rightarrow> Inl (e x))"
  by (induction xs) (auto simp: assms split: option.splits)

text \<open>The list of targets is built unless one of the fields does not exist; then the first such field is named.\<close>

lemma build_cases:
  "build fs vs b = (case find (\<lambda>v. \<not> has_target fs b v) vs of
      None \<Rightarrow> Inr (map (target_of b) vs)
    | Some v \<Rightarrow> Inl (Field_not_found (if v \<notin> fields_3d fs then v else fe v)))"
  unfolding build_def by (rule rmap_cases [OF build_target_cases])

lemma build_InrD: "build fs vs b = Inr ts \<Longrightarrow> ts = map (target_of b) vs"
  by (auto simp: build_cases split: option.splits)

definition turbulence_lists :: "model \<Rightarrow> string list \<times> string list" where
  "turbulence_lists M = (case turbulence M of None \<Rightarrow> ([], []) | Some p \<Rightarrow> p)"

definition sponge_lists :: "model \<Rightarrow> string list \<times> string list" where
  "sponge_lists M = (case sponge_vars M of None \<Rightarrow> ([], []) | Some p \<Rightarrow> p)"

definition lateral_list :: "model \<Rightarrow> string list" where
  "lateral_list M = (case lateral_vars M of None \<Rightarrow> [] | Some p \<Rightarrow> p)"

definition tracer_list :: "model \<Rightarrow> string list" where
  "tracer_list M = (case tracer_source M of None \<Rightarrow> [] | Some p \<Rightarrow> p)"

definition integrated_vars :: "model \<Rightarrow> (string list \<times> string list \<Rightarrow> string list) \<Rightarrow> string list \<Rightarrow> string list" where
  "integrated_vars M part sfc_vars =
     (if turbulence M \<noteq> None then part (turbulence_lists M)
      else if enable_surface_process M then sfc_vars else [])"

lemma ensure_field_cache_InrD:
  assumes "ensure_field_cache M fs = Inr C"
  shows "tracer_source_targets C = map (target_of False) (tracer_list M)"
    "turbulence_thermo_targets C = map (target_of True) (fst (turbulence_lists M))"
    "turbulence_dynamics_targets C = map (target_of True) (snd (turbulence_lists M))"
    "enable_surface_process M \<Longrightarrow> surface_thermo_targets C = map (target_of True) [''th'', ''qv'']"
    "enable_surface_process M \<Longrightarrow> surface_dynamics_targets C = map (target_of True) [''xi'', ''eta'']"
    "integrate_thermo_targets C = map (target_of True) (integrated_vars M fst [''th'', ''qv''])"
    "integrate_dynamics_targets C = map (target_of True) (integrated_vars M snd [''xi'', ''eta''])"
    "sponge_thermo_targets C = map (target_of True) (fst (sponge_lists M))"
    "sponge_dynamics_targets C = map (target_of True) (snd (sponge_lists M))"
    "lateral_nudging_targets C = map (target_of True) (lateral_list M)"
    "thermo_boundary_targets C = map (target_of False) (thermodynamics_vars M)"
    "dynamics_boundary_targets C = map (target_of False) (dynamics_vars M)"
  using assms
  by (auto simp: ensure_field_cache_def Let_def turbulence_lists_def sponge_lists_def lateral_list_def tracer_list_def
      integrated_vars_def elim!: rbind_InrE dest!: build_InrD split: option.splits if_splits)

section \<open>The loops over the targets\<close>

lemma clear_add:
  assumes "p = Turbulence_process \<Longrightarrow> set vs \<inter> stale s = {}"
  shows "acts M E V s (concat (map (\<lambda>v. [Clear_tendency (fe v), Add_tendency p v (fe v)]) vs))
    (s\<lparr>pending := (\<lambda>n. if n \<in> fe ` set vs then Some [p] else pending s n)\<rparr>)"
  using assms
proof (induction vs arbitrary: s)
  case Nil
  then show ?case by simp
next
  case (Cons v vs)
  let ?s = "s\<lparr>pending := (pending s)(fe v := Some [p])\<rparr>"
  have "?s\<lparr>pending := (\<lambda>n. if n \<in> fe ` set vs then Some [p] else pending ?s n)\<rparr> =
      s\<lparr>pending := (\<lambda>n. if n \<in> fe ` set (v # vs) then Some [p] else pending s n)\<rparr>"
    by (auto simp: fun_eq_iff intro!: status.equality)
  moreover have "p = Turbulence_process \<Longrightarrow> set vs \<inter> stale ?s = {}" using Cons.prems by auto
  ultimately show ?case using Cons.IH [of ?s] Cons.prems by (simp add: acts_Cons)
qed

text \<open>The surface and land tendencies, into fields that are cleared first or that hold those of the turbulence.\<close>

definition surface_adds :: "bool \<Rightarrow> bool \<Rightarrow> string list \<Rightarrow> action list" where
  "surface_adds clear land vs =
     concat (map (\<lambda>v. call_if clear [Clear_tendency (fe v)] @ [Add_tendency Surface_process v (fe v)] @
       call_if land [Add_tendency Land_process v (fe v)]) vs)"

definition surface_terms :: "bool \<Rightarrow> process list" where
  "surface_terms land = Surface_process # (if land then [Land_process] else [])"

lemma surface_adds:
  assumes "distinct vs" and "\<And>v. v \<in> set vs \<Longrightarrow> \<not> clear \<Longrightarrow> pending s (fe v) = Some ps"
  shows "acts M E V s (surface_adds clear land vs)
    (s\<lparr>pending := (\<lambda>n. if n \<in> fe ` set vs then Some ((if clear then [] else ps) @ surface_terms land)
       else pending s n)\<rparr>)"
  using assms
proof (induction vs arbitrary: s)
  case Nil
  then show ?case by (simp add: surface_adds_def)
next
  case (Cons v vs)
  let ?ps = "(if clear then [] else ps) @ surface_terms land"
  let ?s = "s\<lparr>pending := (pending s)(fe v := Some ?ps)\<rparr>"
  have "acts M E V ?s (surface_adds clear land vs)
      (?s\<lparr>pending := (\<lambda>n. if n \<in> fe ` set vs then Some ?ps else pending ?s n)\<rparr>)"
    using Cons.prems by (intro Cons.IH) auto
  moreover have "?s\<lparr>pending := (\<lambda>n. if n \<in> fe ` set vs then Some ?ps else pending ?s n)\<rparr> =
      s\<lparr>pending := (\<lambda>n. if n \<in> fe ` set (v # vs) then Some ?ps else pending s n)\<rparr>"
    by (auto simp: fun_eq_iff intro!: status.equality)
  moreover have "pending s (fe v) = Some ps" if "\<not> clear" using Cons.prems(2) that by simp
  ultimately show ?case
    by (cases clear; cases land) (simp_all add: surface_adds_def surface_terms_def call_if_def acts_Cons)
qed

lemma forwards:
  assumes "distinct vs" and "\<And>v. v \<in> set vs \<Longrightarrow> pending s (fe v) = Some (ts v)"
  shows "acts M E V s (map (\<lambda>v. Forward_update v dt (fe v)) vs)
    (s\<lparr>pending := (\<lambda>n. if n \<in> fe ` set vs then None else pending s n),
       applied := applied s @ concat (map (\<lambda>v. map (Pair v) (ts v)) vs), stale := stale s \<union> set vs\<rparr>)"
  using assms
proof (induction vs arbitrary: s)
  case Nil
  then show ?case by simp
next
  case (Cons v vs)
  let ?s = "s\<lparr>pending := (pending s)(fe v := None), applied := applied s @ map (Pair v) (ts v),
    stale := insert v (stale s)\<rparr>"
  have "acts M E V ?s (map (\<lambda>v. Forward_update v dt (fe v)) vs)
      (?s\<lparr>pending := (\<lambda>n. if n \<in> fe ` set vs then None else pending ?s n),
        applied := applied ?s @ concat (map (\<lambda>v. map (Pair v) (ts v)) vs), stale := stale ?s \<union> set vs\<rparr>)"
    using Cons.prems by (intro Cons.IH) auto
  moreover have "?s\<lparr>pending := (\<lambda>n. if n \<in> fe ` set vs then None else pending ?s n),
        applied := applied ?s @ concat (map (\<lambda>v. map (Pair v) (ts v)) vs), stale := stale ?s \<union> set vs\<rparr> =
      s\<lparr>pending := (\<lambda>n. if n \<in> fe ` set (v # vs) then None else pending s n),
        applied := applied s @ concat (map (\<lambda>v. map (Pair v) (ts v)) (v # vs)), stale := stale s \<union> set (v # vs)\<rparr>"
    by (auto simp: fun_eq_iff intro!: status.equality)
  ultimately show ?case using Cons.prems(2) by (simp add: acts_Cons)
qed

lemma relax:
  assumes "p \<noteq> Turbulence_process"
  shows "acts M E V s (concat (map (\<lambda>v. [Clear_tendency (fe v), Add_tendency p v (fe v), Forward_update v dt (fe v)]) vs))
    (s\<lparr>pending := (\<lambda>n. if n \<in> fe ` set vs then None else pending s n),
       applied := applied s @ map (\<lambda>v. (v, p)) vs, stale := stale s \<union> set vs\<rparr>)"
proof (induction vs arbitrary: s)
  case Nil
  then show ?case by simp
next
  case (Cons v vs)
  let ?s = "s\<lparr>pending := (pending s)(fe v := None), applied := applied s @ [(v, p)], stale := insert v (stale s)\<rparr>"
  have "?s\<lparr>pending := (\<lambda>n. if n \<in> fe ` set vs then None else pending ?s n),
        applied := applied ?s @ map (\<lambda>v. (v, p)) vs, stale := stale ?s \<union> set vs\<rparr> =
      s\<lparr>pending := (\<lambda>n. if n \<in> fe ` set (v # vs) then None else pending s n),
        applied := applied s @ map (\<lambda>v. (v, p)) (v # vs), stale := stale s \<union> set (v # vs)\<rparr>"
    by (auto simp: fun_eq_iff intro!: status.equality)
  with Cons.IH [of ?s] assms show ?case by (simp add: acts_Cons)
qed

section \<open>Integrating turbulence and surface tendencies\<close>

definition integrated_terms :: "bool \<Rightarrow> bool \<Rightarrow> bool \<Rightarrow> process list" where
  "integrated_terms turb sfc land =
     (if turb then [Turbulence_process] else []) @ (if sfc then surface_terms land else [])"

lemma acts_neutral_prefix: "(\<And>a. a \<in> set ns \<Longrightarrow> neutral a) \<Longrightarrow> acts M E V s (ns @ as) s' \<longleftrightarrow> acts M E V s as s'"
  by (rule acts_through) (simp add: acts_neutral)

lemma integrate:
  fixes M E V s turb sfc land tv sv vars dt ns ms
  assumes "distinct tv" and "distinct sv" and "turb \<Longrightarrow> set sv \<subseteq> set tv" and "turb \<Longrightarrow> set tv \<inter> stale s = {}"
    and ns: "\<And>a. a \<in> set ns \<Longrightarrow> neutral a" and ms: "\<And>a. a \<in> set ms \<Longrightarrow> neutral a"
    and vars: "vars = (if turb then tv else if sfc then sv else [])"
  shows "\<exists>P. acts M E V s
      (call_if turb (ns @ concat (map (\<lambda>v. [Clear_tendency (fe v), Add_tendency Turbulence_process v (fe v)]) tv)) @
       call_if sfc (ms @ surface_adds (\<not> turb) land sv) @
       call_if (turb \<or> sfc) (map (\<lambda>v. Forward_update v dt (fe v)) vars))
      (s\<lparr>pending := P, stale := stale s \<union> set vars,
         applied := applied s @ concat (map (\<lambda>v. map (Pair v) (integrated_terms turb (sfc \<and> v \<in> set sv) land)) vars)\<rparr>)"
proof -
  define s1 where "s1 = (if turb
    then s\<lparr>pending := (\<lambda>n. if n \<in> fe ` set tv then Some [Turbulence_process] else pending s n)\<rparr> else s)"
  let ?st = "(if \<not> turb then [] else [Turbulence_process]) @ surface_terms land"
  let ?s2 = "if sfc then s1\<lparr>pending := (\<lambda>n. if n \<in> fe ` set sv then Some ?st else pending s1 n)\<rparr> else s1"
  have a1: "acts M E V s (call_if turb (ns @ concat (map (\<lambda>v. [Clear_tendency (fe v),
      Add_tendency Turbulence_process v (fe v)]) tv))) s1"
    using clear_add [of Turbulence_process tv s M E V] assms(4) by (simp add: acts_call_if acts_neutral_prefix ns s1_def)
  have pend1: "pending s1 (fe v) = Some [Turbulence_process]" if "v \<in> set sv" turb for v
    using that assms(3) by (auto simp: s1_def)
  have a2: "acts M E V s1 (call_if sfc (ms @ surface_adds (\<not> turb) land sv)) ?s2"
  proof -
    have "acts M E V s1 (surface_adds (\<not> turb) land sv)
        (s1\<lparr>pending := (\<lambda>n. if n \<in> fe ` set sv then Some ?st else pending s1 n)\<rparr>)"
      using surface_adds [OF assms(2), of "\<not> turb" s1 "[Turbulence_process]" M E V land] pend1 by simp
    then show ?thesis by (simp add: acts_call_if acts_neutral_prefix ms)
  qed
  have pend2: "pending ?s2 (fe v) = Some (integrated_terms turb (sfc \<and> v \<in> set sv) land)" if "v \<in> set vars" for v
    using that assms(3) unfolding vars by (auto simp: integrated_terms_def s1_def split: if_splits)
  have "distinct vars" using assms(1,2) by (simp add: vars)
  from forwards [OF this pend2, of M E V dt]
  have a3: "acts M E V ?s2 (call_if (turb \<or> sfc) (map (\<lambda>v. Forward_update v dt (fe v)) vars))
     (?s2\<lparr>pending := (\<lambda>n. if n \<in> fe ` set vars then None else pending ?s2 n),
       applied := applied ?s2 @ concat (map (\<lambda>v. map (Pair v) (integrated_terms turb (sfc \<and> v \<in> set sv) land)) vars),
       stale := stale ?s2 \<union> set vars\<rparr>)"
    by (simp add: acts_call_if vars split: if_splits)
  have eq: "?s2\<lparr>pending := (\<lambda>n. if n \<in> fe ` set vars then None else pending ?s2 n),
       applied := applied ?s2 @ concat (map (\<lambda>v. map (Pair v) (integrated_terms turb (sfc \<and> v \<in> set sv) land)) vars),
       stale := stale ?s2 \<union> set vars\<rparr> =
    s\<lparr>pending := (\<lambda>n. if n \<in> fe ` set vars then None else pending ?s2 n), stale := stale s \<union> set vars,
      applied := applied s @ concat (map (\<lambda>v. map (Pair v) (integrated_terms turb (sfc \<and> v \<in> set sv) land)) vars)\<rparr>"
    by (intro status.equality) (simp_all add: s1_def)
  have "acts M E V s (as @ bs @ cs) s4" if "acts M E V s as t1" "acts M E V t1 bs t2" "acts M E V t2 cs s4" for as bs cs t1 t2 s4
    using that by (auto simp: acts_append)
  note all = this [OF a1 a2 a3, unfolded eq]
  show ?thesis by (rule exI, rule all)
qed

section \<open>A whole step\<close>

definition model_ok :: "model \<Rightarrow> bool" where
  "model_ok M \<longleftrightarrow>
     (turbulence M \<noteq> None \<longrightarrow> {''th'', ''qv''} \<subseteq> set (fst (turbulence_lists M)) \<and>
        snd (turbulence_lists M) = [''xi'', ''eta'', ''zeta'']) \<and>
     (sponge_vars M \<noteq> None \<longrightarrow> snd (sponge_lists M) = [''xi'', ''eta'', ''zeta'']) \<and>
     distinct (fst (turbulence_lists M)) \<and>
     dynamics_vars M = [''xi'', ''eta'', ''zeta''] \<and>
     ''zeta'' \<notin> set (thermodynamics_vars M) \<and> {''th'', ''qv''} \<subseteq> set (thermodynamics_vars M) \<and>
     set (fst (turbulence_lists M)) \<union> set (fst (sponge_lists M)) \<union> set (lateral_list M) \<subseteq> set (thermodynamics_vars M) \<and>
     (has_cleo M \<longrightarrow> set (thermodynamics_vars M) \<inter> set cleo_fields = {})"

definition thermo_applied :: "model \<Rightarrow> (string \<times> process) list" where
  "thermo_applied M =
     concat (map (\<lambda>v. map (Pair v) (integrated_terms (turbulence M \<noteq> None)
         (enable_surface_process M \<and> v \<in> {''th'', ''qv''}) (has_land M))) (integrated_vars M fst [''th'', ''qv''])) @
     map (\<lambda>v. (v, Sponge_process)) (fst (sponge_lists M)) @
     map (\<lambda>v. (v, Lateral_process)) (lateral_list M)"

text \<open>The halos of the potential temperature that the random forcing leaves behind, and those of the hydrometeors
  that CLEO diagnoses.\<close>

definition after_random :: "model \<Rightarrow> step_conditions \<Rightarrow> real \<Rightarrow> real \<Rightarrow> string set" where
  "after_random M E time dt =
     (if has_random M \<and> random_active E time \<and> \<not> has_p3 M \<and> \<not> (has_cleo M \<and> cleo_couples E time dt) then {''th''} else {})"

definition diagnosed :: "model \<Rightarrow> string set" where
  "diagnosed M = (if has_cleo M then set cleo_fields else {})"

lemma diagnosed_other: "v \<notin> set cleo_fields \<Longrightarrow> v \<notin> diagnosed M"
  by (simp add: diagnosed_def)

lemma thermo_core:
  assumes C: "ensure_field_cache M fs = Inr C" and fresh: "stale s \<subseteq> diagnosed M" and V: "V \<inter> diagnosed M = {}"
  shows "\<exists>st. acts M E V s (thermo_core_calls M C current_step time dt) (s\<lparr>pending := (\<lambda>_. None), stale := st\<rparr>) \<and>
    after_random M E time dt \<subseteq> st \<and> st \<subseteq> after_random M E time dt \<union> diagnosed M"
proof -
  define vs where "vs = tracer_list M"
  let ?d = "stale s - V - set vs"
  let ?s1 = "s\<lparr>pending := (\<lambda>_. None)\<rparr>" and ?s2 = "s\<lparr>pending := (\<lambda>_. None), stale := stale s - V\<rparr>"
    and ?s3 = "s\<lparr>pending := (\<lambda>_. None), stale := ?d\<rparr>"
  let ?s4 = "if has_random M \<and> random_active E time then ?s3\<lparr>stale := insert ''th'' ?d\<rparr> else ?s3"
  let ?s5 = "if has_p3 M then ?s4\<lparr>stale := stale ?s4 - set p3_update_fields\<rparr> else ?s4"
  let ?s6 = "if has_cleo M \<and> cleo_couples E time dt
    then ?s5\<lparr>stale := stale ?s5 - {''th'', ''qv'', ''qp''} \<union> set cleo_fields\<rparr> else ?s5"
  have rad: "acts M E V ?s1 (call_if (has_radiation M)
      (call_if (is_process_step current_step (rad_freq_in_steps M)) [Radiation_run dt] @ [Radiation_tendencies])) ?s1"
    by (auto simp: acts_call_if acts_append acts_Cons fun_eq_iff intro!: status.equality)
  have core: "acts M E V s [Calculate_thermo_tendencies] ?s1" "acts M E V ?s1 [Update_thermodynamics dt] ?s2"
    using fresh V by (auto simp: acts_Cons)
  have tr: "acts M E V ?s2 (call_if (tracer_source M \<noteq> None)
      ([Tracer_source_apply dt, Exchange_multiple_halos (map target_name (tracer_source_targets C))] @
       concat (map (\<lambda>t. [Horizontal_bcs (target_name t), Zero_gradient_bottom_zero_top (target_name t)])
         (tracer_source_targets C)))) ?s3"
  proof (cases "tracer_source M")
    case (Some ws)
    then have vs: "vs = ws" "map target_name (tracer_source_targets C) = ws"
      using ensure_field_cache_InrD(1) [OF C] by (simp_all add: tracer_list_def vs_def comp_def)
    then have a: "acts M E V ?s2 [Tracer_source_apply dt, Exchange_multiple_halos (map target_name (tracer_source_targets C))] ?s3"
      using Some by (auto simp: acts_Cons intro!: status.equality)
    have n: "acts M E V ?s3 (concat (map (\<lambda>t. [Horizontal_bcs (target_name t),
        Zero_gradient_bottom_zero_top (target_name t)]) (tracer_source_targets C))) ?s3"
      by (subst acts_neutral) auto
    have on: "(tracer_source M \<noteq> None) = True" using Some by simp
    show ?thesis unfolding call_if_def on if_True by (rule acts_appendI [OF a n])
  qed (simp add: acts_call_if vs_def tracer_list_def)
  have rand: "acts M E V ?s3 (call_if (has_random M) [Random_forcing_apply time]) ?s4"
    by (auto simp: acts_call_if acts_Cons)
  have p3: "acts M E V ?s4 (call_if (has_p3 M) [P3_run dt]) ?s5"
    by (auto simp: acts_call_if acts_Cons)
  have cleo: "acts M E V ?s5 (call_if (has_cleo M) [Cleo_run time dt]) ?s6"
    by (auto simp: acts_call_if acts_Cons)
  have "acts M E V s (thermo_core_calls M C current_step time dt) ?s6"
    unfolding thermo_core_calls_def
    by (rule acts_appendI [OF _ acts_appendI [OF _ acts_appendI [OF core(1) acts_appendI [OF rad
        acts_appendI [OF core(2) acts_appendI [OF tr acts_appendI [OF rand acts_appendI [OF p3 cleo]]]]]]]])
      (simp_all add: acts_call_if acts_Cons)
  moreover have "?s6 = s\<lparr>pending := (\<lambda>_. None), stale := stale ?s6\<rparr>" by (intro status.equality) simp_all
  moreover have "after_random M E time dt \<subseteq> stale ?s6" by (auto simp: after_random_def)
  moreover have "stale ?s6 \<subseteq> after_random M E time dt \<union> diagnosed M"
  proof -
    have p3: "''th'' \<in> set p3_update_fields" by (simp add: p3_update_fields_def)
    have s4: "stale ?s4 \<subseteq> (if has_random M \<and> random_active E time then {''th''} else {}) \<union> diagnosed M"
      using fresh by (cases "has_random M \<and> random_active E time") auto
    then have s5: "stale ?s5 \<subseteq> (if has_random M \<and> random_active E time \<and> \<not> has_p3 M then {''th''} else {}) \<union> diagnosed M"
      using p3 by (cases "has_p3 M") (auto split: if_splits)
    show ?thesis
    proof (cases "has_cleo M \<and> cleo_couples E time dt")
      case True
      then have "set cleo_fields = diagnosed M" by (simp add: diagnosed_def)
      then show ?thesis using s5 True by (auto split: if_splits)
    next
      case False
      then show ?thesis using s5 by (auto simp: after_random_def split: if_splits)
    qed
  qed
  ultimately have "\<exists>s6. acts M E V s (thermo_core_calls M C current_step time dt) s6 \<and>
      s6 = s\<lparr>pending := (\<lambda>_. None), stale := stale s6\<rparr> \<and> after_random M E time dt \<subseteq> stale s6 \<and>
      stale s6 \<subseteq> after_random M E time dt \<union> diagnosed M"
    by (intro exI [of _ ?s6] conjI)
  then show ?thesis by metis
qed

lemma relax_calls_eq:
  "relax_calls p dt (map (target_of True) vs) =
     concat (map (\<lambda>v. [Clear_tendency (fe v), Add_tendency p v (fe v), Forward_update v dt (fe v)]) vs)"
  by (simp add: relax_calls_def comp_def)

lemma relax_calls_3d_eq:
  "''zeta'' \<notin> set vs \<Longrightarrow> relax_calls_3d p dt (map (target_of True) vs) =
     concat (map (\<lambda>v. [Clear_tendency (fe v), Add_tendency p v (fe v), Forward_update v dt (fe v)]) vs)"
  by (induction vs) (auto simp: relax_calls_3d_def)

lemma surface_adds_eq:
  "''zeta'' \<notin> set vs \<Longrightarrow>
     concat (map (\<lambda>t. call_if b [on_fe_3d t Clear_tendency] @
         [on_fe_3d t (Add_tendency Surface_process (target_name t))] @
         call_if l [on_fe_3d t (Add_tendency Land_process (target_name t))]) (map (target_of True) vs)) =
     surface_adds b l vs"
  by (induction vs) (auto simp: surface_adds_def)

lemma clear_adds_eq:
  "''zeta'' \<notin> set vs \<Longrightarrow>
     concat (map (\<lambda>t. [on_fe_3d t Clear_tendency, on_fe_3d t (Add_tendency p (target_name t))]) (map (target_of True) vs)) =
     concat (map (\<lambda>v. [Clear_tendency (fe v), Add_tendency p v (fe v)]) vs)"
  by (induction vs) auto

lemma forwards_eq:
  "''zeta'' \<notin> set vs \<Longrightarrow>
     map (\<lambda>t. on_fe_3d t (Forward_update (target_name t) dt)) (map (target_of True) vs) =
     map (\<lambda>v. Forward_update v dt (fe v)) vs"
  by (induction vs) auto

lemma thermo_boundary:
  assumes "thermo_boundary_targets C = map (target_of False) vs"
  shows "acts M E V s (thermo_boundary_calls M C) (s\<lparr>stale := stale s - set vs\<rparr>)"
  unfolding thermo_boundary_calls_def assms
  by (simp add: acts_Cons comp_def) (subst acts_neutral; auto simp: call_if_def split: if_splits)

definition calm :: "model \<Rightarrow> step_conditions \<Rightarrow> real \<Rightarrow> real \<Rightarrow> bool" where
  "calm M E time dt \<longleftrightarrow> (has_random M \<and> random_active E time \<longrightarrow> has_p3 M \<or> has_cleo M \<and> cleo_couples E time dt \<or>
     turbulence M = None \<and> (enable_surface_process M \<or> sponge_vars M \<noteq> None \<or> lateral_vars M \<noteq> None))"

lemma calmD:
  assumes "calm M E time dt" and "turbulence M \<noteq> None \<or>
    \<not> (turbulence M \<noteq> None \<or> sponge_vars M \<noteq> None \<or> enable_surface_process M \<or> lateral_vars M \<noteq> None)"
  shows "after_random M E time dt = {}"
  using assms by (auto simp: calm_def after_random_def)

lemma integrate_thermo_calls:
  assumes C: "ensure_field_cache M fs = Inr C" and z: "''zeta'' \<notin> set (fst (turbulence_lists M))"
  shows "call_if (turbulence M \<noteq> None) (turbulence_thermo_calls C dt) @
      call_if (enable_surface_process M) (surface_thermo_calls M C current_step) @
      call_if (turbulence M \<noteq> None \<or> enable_surface_process M)
        (map (\<lambda>t. on_fe_3d t (Forward_update (target_name t) dt)) (integrate_thermo_targets C)) =
    call_if (turbulence M \<noteq> None) ([Turbulence_coefficients dt] @
      concat (map (\<lambda>v. [Clear_tendency (fe v), Add_tendency Turbulence_process v (fe v)]) (fst (turbulence_lists M)))) @
    call_if (enable_surface_process M)
      (call_if (is_legacy_surface_compute_step current_step (surface_process_steps M))
         (call_if (has_land M) [Land_run (surface_process_s M)] @ [Surface_coefficients]) @
       surface_adds (\<not> turbulence M \<noteq> None) (has_land M) [''th'', ''qv'']) @
    call_if (turbulence M \<noteq> None \<or> enable_surface_process M)
      (map (\<lambda>v. Forward_update v dt (fe v)) (integrated_vars M fst [''th'', ''qv'']))"
proof -
  note cache = ensure_field_cache_InrD [OF C]
  have "turbulence_thermo_calls C dt = [Turbulence_coefficients dt] @
      concat (map (\<lambda>v. [Clear_tendency (fe v), Add_tendency Turbulence_process v (fe v)]) (fst (turbulence_lists M)))"
    unfolding turbulence_thermo_calls_def cache(2) clear_adds_eq [OF z] by simp
  moreover have "surface_thermo_calls M C current_step =
      call_if (is_legacy_surface_compute_step current_step (surface_process_steps M))
        (call_if (has_land M) [Land_run (surface_process_s M)] @ [Surface_coefficients]) @
      surface_adds (\<not> turbulence M \<noteq> None) (has_land M) [''th'', ''qv'']" if "enable_surface_process M"
    unfolding surface_thermo_calls_def cache(4) [OF that] by (subst surface_adds_eq) (simp_all del: not_None_eq)
  moreover have "map (\<lambda>t. on_fe_3d t (Forward_update (target_name t) dt)) (integrate_thermo_targets C) =
      map (\<lambda>v. Forward_update v dt (fe v)) (integrated_vars M fst [''th'', ''qv''])"
    unfolding cache(6) using z by (subst forwards_eq) (auto simp: integrated_vars_def)
  ultimately show ?thesis by (auto simp: call_if_def)
qed

lemma no_process_no_vars:
  "\<not> turbulence M \<noteq> None \<Longrightarrow> turbulence_lists M = ([], [])"
  "\<not> sponge_vars M \<noteq> None \<Longrightarrow> sponge_lists M = ([], [])"
  "\<not> lateral_vars M \<noteq> None \<Longrightarrow> lateral_list M = []"
  by (simp_all add: turbulence_lists_def sponge_lists_def lateral_list_def del: not_None_eq)

lemma relax_if:
  assumes "p \<noteq> Turbulence_process" and "\<not> b \<Longrightarrow> vs = []" and eq: "calls = concat (map (\<lambda>v. [Clear_tendency (fe v),
    Add_tendency p v (fe v), Forward_update v dt (fe v)]) vs)"
  shows "\<exists>P. acts M E V s (call_if b calls)
      (s\<lparr>pending := P, applied := applied s @ map (\<lambda>v. (v, p)) vs, stale := stale s \<union> set vs\<rparr>)"
proof (cases b)
  case True
  then show ?thesis
    using relax [OF assms(1), of M E V s dt vs] unfolding eq
    by (intro exI [where x = "\<lambda>n. if n \<in> fe ` set vs then None else pending s n"]) (simp add: call_if_def)
next
  case False
  then show ?thesis using assms(2) by (intro exI [where x = "pending s"]) (simp add: call_if_def)
qed

lemma thermo_processes:
  assumes C: "ensure_field_cache M fs = Inr C" and ok: "model_ok M" and calm: "calm M E time dt"
    and st: "stale s \<subseteq> after_random M E time dt \<union> diagnosed M"
  shows "\<exists>P st. acts M E V s (thermo_process_calls M C current_step dt)
    (s\<lparr>pending := P, stale := st, applied := applied s @ thermo_applied M\<rparr>) \<and> st \<subseteq> diagnosed M"
proof -
  note cache = ensure_field_cache_InrD [OF C]
  let ?turb = "turbulence M \<noteq> None" and ?sfc = "enable_surface_process M" and ?spg = "sponge_vars M \<noteq> None"
  let ?lat = "lateral_vars M \<noteq> None" and ?vars = "integrated_vars M fst [''th'', ''qv'']"
  let ?it = "concat (map (\<lambda>v. map (Pair v) (integrated_terms ?turb (?sfc \<and> v \<in> set [''th'', ''qv'']) (has_land M))) ?vars)"
  have z: "''zeta'' \<notin> set (fst (turbulence_lists M))" "''zeta'' \<notin> set (fst (sponge_lists M))"
    "''zeta'' \<notin> set (lateral_list M)"
    and sub: "set ?vars \<union> set (fst (sponge_lists M)) \<union> set (lateral_list M) \<union> after_random M E time dt \<subseteq> set (thermodynamics_vars M)"
    using ok by (auto simp: model_ok_def after_random_def integrated_vars_def)
  have own: "set (thermodynamics_vars M) \<inter> diagnosed M = {}" using ok by (simp add: model_ok_def diagnosed_def)
  have turb: "set (fst (turbulence_lists M)) \<inter> stale s = {}" if ?turb
    using st calmD [OF calm] that own ok by (auto simp: model_ok_def)
  obtain P1 where it: "acts M E V s
      (call_if ?turb (turbulence_thermo_calls C dt) @ call_if ?sfc (surface_thermo_calls M C current_step) @
       call_if (?turb \<or> ?sfc) (map (\<lambda>t. on_fe_3d t (Forward_update (target_name t) dt)) (integrate_thermo_targets C)))
      (s\<lparr>pending := P1, stale := stale s \<union> set ?vars, applied := applied s @ ?it\<rparr>)" (is "acts M E V s ?calls ?s1")
  proof -
    have "\<exists>P. acts M E V s ?calls (s\<lparr>pending := P, stale := stale s \<union> set ?vars, applied := applied s @ ?it\<rparr>)"
      unfolding integrate_thermo_calls [OF C z(1)] using ok turb
      by (intro integrate) (auto simp: model_ok_def call_if_def turbulence_lists_def integrated_vars_def split: if_splits)
    with that show thesis by blast
  qed
  have "\<exists>P. acts M E V ?s1 (call_if ?spg (relax_calls_3d Sponge_process dt (sponge_thermo_targets C)))
      (?s1\<lparr>pending := P, applied := applied ?s1 @ map (\<lambda>v. (v, Sponge_process)) (fst (sponge_lists M)),
        stale := stale ?s1 \<union> set (fst (sponge_lists M))\<rparr>)"
    unfolding cache(8) by (rule relax_if [OF _ _ relax_calls_3d_eq [OF z(2)]]) (simp_all add: no_process_no_vars del: not_None_eq)
  then obtain P2 where spg: "acts M E V ?s1 (call_if ?spg (relax_calls_3d Sponge_process dt (sponge_thermo_targets C)))
      (?s1\<lparr>pending := P2, applied := applied ?s1 @ map (\<lambda>v. (v, Sponge_process)) (fst (sponge_lists M)),
        stale := stale ?s1 \<union> set (fst (sponge_lists M))\<rparr>)" (is "acts M E V ?s1 ?calls ?s2") by blast
  have "\<exists>P. acts M E V ?s2 (call_if ?lat (relax_calls_3d Lateral_process dt (lateral_nudging_targets C)))
      (?s2\<lparr>pending := P, applied := applied ?s2 @ map (\<lambda>v. (v, Lateral_process)) (lateral_list M),
        stale := stale ?s2 \<union> set (lateral_list M)\<rparr>)"
    unfolding cache(10) by (rule relax_if [OF _ _ relax_calls_3d_eq [OF z(3)]]) (simp_all add: no_process_no_vars del: not_None_eq)
  then obtain P3 where lat: "acts M E V ?s2 (call_if ?lat (relax_calls_3d Lateral_process dt (lateral_nudging_targets C)))
      (?s2\<lparr>pending := P3, applied := applied ?s2 @ map (\<lambda>v. (v, Lateral_process)) (lateral_list M),
        stale := stale ?s2 \<union> set (lateral_list M)\<rparr>)" (is "acts M E V ?s2 ?calls ?s3") by blast
  let ?st = "if ?turb \<or> ?spg \<or> ?sfc \<or> ?lat then stale ?s3 - set (thermodynamics_vars M) else stale ?s3"
  have bnd: "acts M E V ?s3 (call_if (?turb \<or> ?spg \<or> ?sfc \<or> ?lat) (thermo_boundary_calls M C)) (?s3\<lparr>stale := ?st\<rparr>)"
    using thermo_boundary [OF cache(11), of M E V ?s3] by (auto simp: call_if_def)
  have "?st \<subseteq> diagnosed M"
  proof (cases "?turb \<or> ?spg \<or> ?sfc \<or> ?lat")
    case True
    then show ?thesis using sub st by auto
  next
    case False
    then have "stale ?s3 \<subseteq> diagnosed M"
      using st calmD [OF calm] no_process_no_vars [of M] by (simp add: integrated_vars_def del: not_None_eq)
    then show ?thesis using False by (simp only: if_False)
  qed
  moreover have refr: "acts M E V (?s3\<lparr>stale := ?st\<rparr>) (call_if (has_p3 M \<and> mapped M) [Refresh_total_condensate]) (?s3\<lparr>stale := ?st\<rparr>)"
    by (simp add: acts_call_if acts_Cons)
  moreover have "acts M E V s (thermo_process_calls M C current_step dt) (?s3\<lparr>stale := ?st\<rparr>)"
    unfolding thermo_process_calls_def Let_def
    by (rule acts_appendI [OF it acts_appendI [OF spg acts_appendI [OF lat acts_appendI [OF bnd refr]]]])
  moreover have "?s3\<lparr>stale := ?st\<rparr> = s\<lparr>pending := P3, stale := ?st, applied := applied s @ thermo_applied M\<rparr>"
    by (intro status.equality) (simp_all add: thermo_applied_def)
  ultimately show ?thesis by (intro exI [of _ P3] exI [of _ ?st] conjI) (simp_all only:)
qed

definition vorticity_applied :: "model \<Rightarrow> (string \<times> process) list" where
  "vorticity_applied M =
     concat (map (\<lambda>v. map (Pair v) (integrated_terms (turbulence M \<noteq> None)
         (enable_surface_process M \<and> v \<in> {''xi'', ''eta''}) False)) (integrated_vars M snd [''xi'', ''eta''])) @
     map (\<lambda>v. (v, Sponge_process)) (snd (sponge_lists M))"

definition physical_processes :: "model \<Rightarrow> bool" where
  "physical_processes M \<longleftrightarrow>
     turbulence M \<noteq> None \<or> sponge_vars M \<noteq> None \<or> enable_surface_process M \<or> has_area_mean M"

lemma dynamics_boundary:
  assumes "dynamics_boundary_targets C = map (target_of False) [''xi'', ''eta'', ''zeta'']"
    and "in_physical_update s"
  shows "acts M E V s (dynamics_boundary_calls M C)
    (s\<lparr>stale := stale s - {''xi'', ''eta'', ''zeta''}, in_physical_update := False\<rparr>)"
proof -
  have "stale s - {''xi'', ''eta'', ''zeta''} - {''zeta''} = stale s - {''xi'', ''eta'', ''zeta''}" by blast
  then show ?thesis
    using assms(2) by (auto simp: dynamics_boundary_calls_def assms(1) acts_Cons call_if_def)
qed

lemma integrate_dynamics_calls:
  assumes C: "ensure_field_cache M fs = Inr C"
  shows "call_if (turbulence M \<noteq> None)
      (concat (map (\<lambda>t. [on_fe t Clear_tendency, on_fe t (Add_tendency Turbulence_process (target_name t))])
         (turbulence_dynamics_targets C))) @
    call_if (enable_surface_process M)
      (concat (map (\<lambda>t. call_if (\<not> turbulence M \<noteq> None) [on_fe_3d t Clear_tendency] @
           [on_fe_3d t (Add_tendency Surface_process (target_name t))]) (surface_dynamics_targets C))) @
    call_if (turbulence M \<noteq> None \<or> enable_surface_process M)
      (map (\<lambda>t. on_fe t (Forward_update (target_name t) dt)) (integrate_dynamics_targets C)) =
    call_if (turbulence M \<noteq> None) ([] @
      concat (map (\<lambda>v. [Clear_tendency (fe v), Add_tendency Turbulence_process v (fe v)]) (snd (turbulence_lists M)))) @
    call_if (enable_surface_process M) ([] @ surface_adds (\<not> turbulence M \<noteq> None) False [''xi'', ''eta'']) @
    call_if (turbulence M \<noteq> None \<or> enable_surface_process M)
      (map (\<lambda>v. Forward_update v dt (fe v)) (integrated_vars M snd [''xi'', ''eta'']))"
proof -
  note cache = ensure_field_cache_InrD [OF C]
  have "concat (map (\<lambda>t. [on_fe t Clear_tendency, on_fe t (Add_tendency Turbulence_process (target_name t))])
       (turbulence_dynamics_targets C)) =
      concat (map (\<lambda>v. [Clear_tendency (fe v), Add_tendency Turbulence_process v (fe v)]) (snd (turbulence_lists M)))"
    by (simp add: cache(3) comp_def)
  moreover have "concat (map (\<lambda>t. call_if (\<not> turbulence M \<noteq> None) [on_fe_3d t Clear_tendency] @
        [on_fe_3d t (Add_tendency Surface_process (target_name t))]) (surface_dynamics_targets C)) =
      surface_adds (\<not> turbulence M \<noteq> None) False [''xi'', ''eta'']" if "enable_surface_process M"
    unfolding cache(5) [OF that] surface_adds_def by (simp add: call_if_def)
  moreover have "map (\<lambda>t. on_fe t (Forward_update (target_name t) dt)) (integrate_dynamics_targets C) =
      map (\<lambda>v. Forward_update v dt (fe v)) (integrated_vars M snd [''xi'', ''eta''])"
    by (simp add: cache(7))
  ultimately show ?thesis by (auto simp: call_if_def)
qed

lemma vorticity_step:
  assumes C: "ensure_field_cache M fs = Inr C" and ok: "model_ok M"
    and st: "stale s \<subseteq> diagnosed M" "\<not> in_physical_update s"
  shows "\<exists>P. acts M E V s (vorticity_calls M C dt) (s\<lparr>pending := P, applied := applied s @ vorticity_applied M\<rparr>)"
proof -
  note cache = ensure_field_cache_InrD [OF C]
  let ?turb = "turbulence M \<noteq> None" and ?sfc = "enable_surface_process M" and ?spg = "sponge_vars M \<noteq> None"
  let ?ph = "?turb \<or> ?spg \<or> ?sfc \<or> has_area_mean M" and ?vars = "integrated_vars M snd [''xi'', ''eta'']"
  let ?it = "concat (map (\<lambda>v. map (Pair v) (integrated_terms ?turb (?sfc \<and> v \<in> set [''xi'', ''eta'']) False)) ?vars)"
  let ?all = "{''xi'', ''eta'', ''zeta''}"
  have lists: "?turb \<Longrightarrow> snd (turbulence_lists M) = [''xi'', ''eta'', ''zeta'']"
    "?spg \<Longrightarrow> snd (sponge_lists M) = [''xi'', ''eta'', ''zeta'']" and dyn: "dynamics_vars M = [''xi'', ''eta'', ''zeta'']"
    using ok by (simp_all add: model_ok_def)
  have sub: "set ?vars \<subseteq> ?all" "set (snd (sponge_lists M)) \<subseteq> ?all"
  proof -
    show "set ?vars \<subseteq> ?all" using lists(1) by (auto simp: integrated_vars_def)
    show "set (snd (sponge_lists M)) \<subseteq> ?all"
      by (cases ?spg) (simp_all add: lists(2) no_process_no_vars(2) del: not_None_eq)
  qed
  have d: "distinct (snd (turbulence_lists M))"
    by (cases ?turb) (simp_all add: lists(1) no_process_no_vars(1) del: not_None_eq)
  have own: "?all \<inter> stale s = {}" "{''th'', ''qv''} \<inter> stale s = {}"
    using st(1) diagnosed_other by (auto simp: cleo_fields_def)
  have same: "stale s - ?all = stale s" using own(1) by blast
  let ?s0 = "s\<lparr>pending := (\<lambda>_. None)\<rparr>"
  have start: "acts M E V s [Calculate_vorticity_tendencies, Update_vorticity dt] ?s0"
    using own same by (simp add: acts_Cons)
  let ?s1 = "?s0\<lparr>in_physical_update := ?ph\<rparr>"
  have bgn: "acts M E V ?s0 (call_if ?ph [Begin_physical_vorticity_update]) ?s1"
    using st(2) by (cases ?ph) (simp_all add: call_if_def acts_Cons)
  have "\<exists>P. acts M E V ?s1
      (call_if ?turb
         (concat (map (\<lambda>t. [on_fe t Clear_tendency, on_fe t (Add_tendency Turbulence_process (target_name t))])
            (turbulence_dynamics_targets C))) @
       call_if ?sfc
         (concat (map (\<lambda>t. call_if (\<not> ?turb) [on_fe_3d t Clear_tendency] @
              [on_fe_3d t (Add_tendency Surface_process (target_name t))]) (surface_dynamics_targets C))) @
       call_if (?turb \<or> ?sfc) (map (\<lambda>t. on_fe t (Forward_update (target_name t) dt)) (integrate_dynamics_targets C)))
      (?s1\<lparr>pending := P, stale := stale ?s1 \<union> set ?vars, applied := applied ?s1 @ ?it\<rparr>)"
    unfolding integrate_dynamics_calls [OF C] using lists(1) own d
    by (intro integrate) (auto simp: integrated_vars_def)
  then obtain P1 where it: "acts M E V ?s1
      (call_if ?turb
         (concat (map (\<lambda>t. [on_fe t Clear_tendency, on_fe t (Add_tendency Turbulence_process (target_name t))])
            (turbulence_dynamics_targets C))) @
       call_if ?sfc
         (concat (map (\<lambda>t. call_if (\<not> ?turb) [on_fe_3d t Clear_tendency] @
              [on_fe_3d t (Add_tendency Surface_process (target_name t))]) (surface_dynamics_targets C))) @
       call_if (?turb \<or> ?sfc) (map (\<lambda>t. on_fe t (Forward_update (target_name t) dt)) (integrate_dynamics_targets C)))
      (?s1\<lparr>pending := P1, stale := stale ?s1 \<union> set ?vars, applied := applied ?s1 @ ?it\<rparr>)"
    (is "acts M E V ?s1 ?calls ?s2") by blast
  have "\<exists>P. acts M E V ?s2 (call_if ?spg (relax_calls Sponge_process dt (sponge_dynamics_targets C)))
      (?s2\<lparr>pending := P, applied := applied ?s2 @ map (\<lambda>v. (v, Sponge_process)) (snd (sponge_lists M)),
        stale := stale ?s2 \<union> set (snd (sponge_lists M))\<rparr>)"
    unfolding cache(9) by (rule relax_if [OF _ _ relax_calls_eq]) (simp_all add: no_process_no_vars del: not_None_eq)
  then obtain P2 where spg: "acts M E V ?s2 (call_if ?spg (relax_calls Sponge_process dt (sponge_dynamics_targets C)))
      (?s2\<lparr>pending := P2, applied := applied ?s2 @ map (\<lambda>v. (v, Sponge_process)) (snd (sponge_lists M)),
        stale := stale ?s2 \<union> set (snd (sponge_lists M))\<rparr>)" (is "acts M E V ?s2 ?calls ?s3") by blast
  let ?s4 = "?s3\<lparr>stale := stale ?s3 \<union> (if has_area_mean M then {''xi'', ''eta''} else {})\<rparr>"
  have area: "acts M E V ?s3 (call_if (has_area_mean M) [Apply_vorticity dt]) ?s4"
    by (simp add: acts_call_if acts_Cons)
  let ?s5 = "?s4\<lparr>stale := stale s, in_physical_update := False\<rparr>"
  have bnd: "acts M E V ?s4 (call_if ?ph (dynamics_boundary_calls M C)) ?s5"
  proof (cases ?ph)
    case True
    have "stale ?s4 - ?all = stale s" using sub same by auto
    moreover have "in_physical_update ?s4" using True by simp
    ultimately have "acts M E V ?s4 (dynamics_boundary_calls M C) ?s5"
      using dynamics_boundary [OF cache(12) [unfolded dyn], of ?s4 M E V] by (simp only:)
    then show ?thesis using True by (simp only: call_if_def if_True)
  next
    case False
    then have "stale ?s4 = stale s" using no_process_no_vars [of M] by (auto simp: integrated_vars_def)
    moreover have "\<not> in_physical_update ?s4" using False by simp
    ultimately have "?s5 = ?s4" by (intro status.equality) simp_all
    then show ?thesis using False by (simp only: call_if_def if_False acts_Nil)
  qed
  have "acts M E V s (vorticity_calls M C dt) ?s5"
    unfolding vorticity_calls_def Let_def
    by (rule acts_appendI [OF start acts_appendI [OF bgn acts_appendI [OF it acts_appendI [OF spg
        acts_appendI [OF area bnd]]]]])
  moreover have "?s5 = s\<lparr>pending := P2, applied := applied s @ vorticity_applied M\<rparr>"
    using st by (intro status.equality) (simp_all add: vorticity_applied_def)
  ultimately show ?thesis by metis
qed

lemma wind_neutral: "acts M E V s (wind_calls M dt) s"
  by (subst acts_neutral) (auto simp: wind_calls_def call_if_def split: if_splits)

lemma make_model_ok:
  assumes "make_model ub config is_mapped dt_s tracer_names sources = Inr M"
    and "distinct tracer_names" and "set tracer_names \<inter> set (''zeta'' # moist_vars True) = {}"
    and "set (lateral_list M) \<subseteq> set (thermodynamics_vars M)"
  shows "model_ok M"
proof -
  let ?all = "[''xi'', ''eta'', ''zeta'']"
  define p3 where "p3 = projr (get_value_default as_bool config ''physics.p3.enable_p3'' False)"
  have p: "turbulence M = None \<or> turbulence M = Some (turbulence_thermo_vars p3 tracer_names, ?all)"
    "sponge_vars M = None \<or> sponge_vars M = Some (moist_vars p3, ?all)"
    "thermodynamics_vars M = (if turbulence M \<noteq> None then turbulence_thermo_vars p3 tracer_names else moist_vars p3)"
    "dynamics_vars M = ?all"
    using assms(1) unfolding p3_def
    by (simp_all add: make_model_def rbind_eq_Inr_iff split: prod.splits) (elim exE conjE; clarsimp)+
  have cleo: "has_cleo M \<longrightarrow> \<not> p3"
    using assms(1) unfolding p3_def
    by (simp add: make_model_def rbind_eq_Inr_iff split: prod.splits) (elim exE conjE; clarsimp)
  have m: "distinct (moist_vars p3)" "''zeta'' \<notin> set (moist_vars p3)" "{''th'', ''qv''} \<subseteq> set (moist_vars p3)"
    "set (moist_vars p3) \<subseteq> set (moist_vars True)" "\<not> p3 \<Longrightarrow> set (moist_vars p3) \<inter> set cleo_fields = {}"
    "set cleo_fields \<subseteq> set (moist_vars True)"
    by (auto simp: moist_vars_def p3_vars_def cleo_fields_def)
  then have t: "distinct (turbulence_thermo_vars p3 tracer_names)" "''zeta'' \<notin> set (turbulence_thermo_vars p3 tracer_names)"
    "{''th'', ''qv''} \<subseteq> set (turbulence_thermo_vars p3 tracer_names)"
    "set (moist_vars p3) \<subseteq> set (turbulence_thermo_vars p3 tracer_names)"
    using assms(2,3) by (auto simp: turbulence_thermo_vars_def)
  have "set (thermodynamics_vars M) \<inter> set cleo_fields = {}" if "has_cleo M"
    using p(3) cleo m(5,6) that assms(3) by (auto simp: turbulence_thermo_vars_def)
  then show ?thesis
    using p m t assms(4)
    by (elim disjE) (simp_all add: model_ok_def turbulence_lists_def sponge_lists_def)
qed

lemma run_step_acts:
  assumes C: "ensure_field_cache M fs = Inr C" and ok: "model_ok M" and calm: "calm M E t dt"
    and "stale s \<subseteq> diagnosed M" and "\<not> in_physical_update s" and V: "V \<inter> diagnosed M = {}"
  shows "\<exists>P st. acts M E V s (run_step M C n t dt)
    (s\<lparr>pending := P, stale := st, applied := applied s @ thermo_applied M @ vorticity_applied M\<rparr>) \<and> st \<subseteq> diagnosed M"
proof -
  obtain st1 where core: "acts M E V s (thermo_core_calls M C n t dt) (s\<lparr>pending := (\<lambda>_. None), stale := st1\<rparr>)"
      (is "acts M E V s ?calls ?s1") and st1: "st1 \<subseteq> after_random M E t dt \<union> diagnosed M"
    using thermo_core [OF C assms(4) V, of E n t dt] by blast
  have stale1: "stale ?s1 \<subseteq> after_random M E t dt \<union> diagnosed M" using st1 by simp
  obtain P1 st2 where proc: "acts M E V ?s1 (thermo_process_calls M C n dt)
      (?s1\<lparr>pending := P1, stale := st2, applied := applied ?s1 @ thermo_applied M\<rparr>)" (is "acts M E V ?s1 ?calls ?s2")
      and st2: "st2 \<subseteq> diagnosed M"
    using thermo_processes [OF C ok calm stale1, of V n] by blast
  have s2: "stale ?s2 \<subseteq> diagnosed M" "\<not> in_physical_update ?s2" using st2 assms(5) by simp_all
  obtain P2 where vort: "acts M E V ?s2 (vorticity_calls M C dt)
      (?s2\<lparr>pending := P2, applied := applied ?s2 @ vorticity_applied M\<rparr>)" (is "acts M E V ?s2 ?calls ?s3")
    using vorticity_step [OF C ok s2, of E V dt] by blast
  have "acts M E V s (run_step M C n t dt) ?s3"
    unfolding run_step_def
    by (rule acts_appendI [OF core acts_appendI [OF proc acts_appendI [OF vort wind_neutral]]])
  moreover have "?s3 = s\<lparr>pending := P2, stale := st2, applied := applied s @ thermo_applied M @ vorticity_applied M\<rparr>"
    by (intro status.equality) simp_all
  ultimately show ?thesis using st2 by metis
qed

text \<open>C37. The order of the calls of a time step is sound unless the random forcing leaves an old halo: when the forcing
  does not act in this step, or microphysics or an exchange follow before the first reader (\<open>calm\<close>), when the
  laterally nudged variables are thermodynamic variables of the model and the dynamical core does not advect the
  hydrometeors that CLEO diagnoses, the step never uses a null pointer, a tendency left over from before or a halo older
  than its interior, and brackets the updates of the physical vorticity.  It leaves no old halo behind but those of the
  diagnosed hydrometeors.  Each process' tendency is added exactly once to each of its variables, in the order turbulence,
  surface, land, sponge, lateral nudging.\<close>

theorem step_order_is_sound:
  assumes "make_model ub config is_mapped dt_s tracer_names sources = Inr M"
    and "ensure_field_cache M fs = Inr C"
    and "distinct tracer_names" and "set tracer_names \<inter> set (''zeta'' # moist_vars True) = {}"
    and "set (lateral_list M) \<subseteq> set (thermodynamics_vars M)" and "calm M E time dt"
    and "core_vars \<inter> diagnosed M = {}" and "stale s \<subseteq> diagnosed M" and "\<not> in_physical_update s"
  shows "\<exists>s'. acts M E core_vars s (run_step M C step time dt) s' \<and> stale s' \<subseteq> diagnosed M \<and> \<not> in_physical_update s' \<and>
    applied s' = applied s @ thermo_applied M @ vorticity_applied M"
  using run_step_acts [OF assms(2) make_model_ok [OF assms(1,3-5)] assms(6,8,9,7), of step] assms(9)
  by fastforce



section \<open>The tendency fields of the processes\<close>

text \<open>\<open>if (!state.has_field(name)) state.add_field(name)\<close>, which the processes do in \<open>initialize\<close>.\<close>

definition add_missing :: "string \<Rightarrow> state_fields \<Rightarrow> state_fields" where
  "add_missing v fs =
     (if fe v \<in> fields_3d fs \<union> fields_2d fs then fs
      else if v = ''zeta'' then fs\<lparr>fields_2d := insert (fe v) (fields_2d fs)\<rparr>
      else fs\<lparr>fields_3d := insert (fe v) (fields_3d fs)\<rparr>)"

definition turbulence_initialize :: "model \<Rightarrow> state_fields \<Rightarrow> state_fields" where
  "turbulence_initialize M fs = (case turbulence M of None \<Rightarrow> fs
     | Some (thermo, dynamics) \<Rightarrow> fold add_missing dynamics (fold add_missing thermo fs))"

definition radiation_initialize :: "model \<Rightarrow> state_fields \<Rightarrow> state_fields" where
  "radiation_initialize M fs = (if has_radiation M then add_missing ''th'' fs else fs)"

definition sponge_initialize :: "model \<Rightarrow> state_fields \<Rightarrow> state_fields" where
  "sponge_initialize M fs = (case sponge_vars M of None \<Rightarrow> fs
     | Some (thermo, dynamics) \<Rightarrow> fold add_missing dynamics (fold add_missing thermo fs))"

definition surface_initialize :: "model \<Rightarrow> state_fields \<Rightarrow> state_fields" where
  "surface_initialize M fs = (if enable_surface_process M
     then fold add_missing [''th'', ''qv'', ''xi'', ''eta''] fs else fs)"

text \<open>The order of \<open>Model::init\<close>; the lateral nudging adds no tendency field.\<close>

definition init_tendency_fields :: "model \<Rightarrow> state_fields \<Rightarrow> state_fields" where
  "init_tendency_fields M fs =
     surface_initialize M (sponge_initialize M (radiation_initialize M (turbulence_initialize M fs)))"

definition fields_with :: "string set \<Rightarrow> state_fields \<Rightarrow> state_fields" where
  "fields_with A fs = fs\<lparr>fields_3d := fields_3d fs \<union> fe ` (A - {''zeta''}), fields_2d := fields_2d fs \<union> fe ` (A \<inter> {''zeta''})\<rparr>"

definition no_tendencies :: "state_fields \<Rightarrow> bool" where
  "no_tendencies fs \<longleftrightarrow> range fe \<inter> (fields_3d fs \<union> fields_2d fs) = {}"

lemma add_missing_with: "no_tendencies fs \<Longrightarrow> add_missing v (fields_with A fs) = fields_with (insert v A) fs"
  by (auto simp: add_missing_def fields_with_def no_tendencies_def intro!: state_fields.equality)

lemma fold_missing_with: "no_tendencies fs \<Longrightarrow> fold add_missing vs (fields_with A fs) = fields_with (set vs \<union> A) fs"
  by (induction vs arbitrary: A) (simp_all add: add_missing_with)

definition tendency_vars :: "model \<Rightarrow> string set" where
  "tendency_vars M =
     set (fst (turbulence_lists M)) \<union> set (snd (turbulence_lists M)) \<union> (if has_radiation M then {''th''} else {}) \<union>
     set (fst (sponge_lists M)) \<union> set (snd (sponge_lists M)) \<union>
     (if enable_surface_process M then {''th'', ''qv'', ''xi'', ''eta''} else {})"

lemma initialize_with:
  assumes "no_tendencies fs"
  shows "turbulence_initialize M (fields_with A fs) =
      fields_with (set (snd (turbulence_lists M)) \<union> (set (fst (turbulence_lists M)) \<union> A)) fs"
    and "radiation_initialize M (fields_with A fs) = fields_with ((if has_radiation M then {''th''} else {}) \<union> A) fs"
    and "sponge_initialize M (fields_with A fs) =
      fields_with (set (snd (sponge_lists M)) \<union> (set (fst (sponge_lists M)) \<union> A)) fs"
    and "surface_initialize M (fields_with A fs) =
      fields_with ((if enable_surface_process M then set [''th'', ''qv'', ''xi'', ''eta''] else {}) \<union> A) fs"
proof -
  note fold_with = fold_missing_with [OF assms] and add_with = add_missing_with [OF assms]
  show "turbulence_initialize M (fields_with A fs) =
      fields_with (set (snd (turbulence_lists M)) \<union> (set (fst (turbulence_lists M)) \<union> A)) fs"
    by (cases "turbulence M") (auto simp: turbulence_initialize_def turbulence_lists_def fold_with)
  show "radiation_initialize M (fields_with A fs) = fields_with ((if has_radiation M then {''th''} else {}) \<union> A) fs"
    by (simp add: radiation_initialize_def add_with)
  show "sponge_initialize M (fields_with A fs) =
      fields_with (set (snd (sponge_lists M)) \<union> (set (fst (sponge_lists M)) \<union> A)) fs"
    by (cases "sponge_vars M") (auto simp: sponge_initialize_def sponge_lists_def fold_with)
  show "surface_initialize M (fields_with A fs) =
      fields_with ((if enable_surface_process M then set [''th'', ''qv'', ''xi'', ''eta''] else {}) \<union> A) fs"
    unfolding surface_initialize_def fold_with by simp
qed

lemma init_tendency_fields_with:
  assumes "no_tendencies fs"
  shows "init_tendency_fields M fs = fields_with (tendency_vars M) fs"
proof -
  have "fs = fields_with {} fs" by (simp add: fields_with_def)
  then have "init_tendency_fields M fs = init_tendency_fields M (fields_with {} fs)" by simp
  also have "\<dots> = fields_with (tendency_vars M) fs"
    unfolding init_tendency_fields_def initialize_with [OF assms]
    by (rule arg_cong [where f = "\<lambda>A. fields_with A fs"]) (auto simp: tendency_vars_def)
  finally show ?thesis .
qed

lemma build_exists: "(\<exists>ts. build fs vs b = Inr ts) \<longleftrightarrow> (\<forall>v \<in> set vs. has_target fs b v)"
  by (auto simp: build_cases find_None_iff split: option.splits) (metis find_Some_iff nth_mem)

lemma has_target_with:
  assumes "no_tendencies fs"
  shows "has_target (fields_with A fs) b v \<longleftrightarrow> (v \<in> fields_3d fs \<or> v \<in> fe ` (A - {''zeta''})) \<and> (b \<longrightarrow> v \<in> A)"
  using assms by (auto simp: has_target_def fields_with_def no_tendencies_def)

lemma rbind_exists: "(\<exists>y. rbind m k = Inr y) \<longleftrightarrow> (\<exists>x. m = Inr x \<and> (\<exists>y. k x = Inr y))"
  by (cases m) auto

lemma opt_exists:
  "(\<exists>ts. (case x of None \<Rightarrow> Inr [] | Some vs \<Rightarrow> build fs vs b) = Inr ts) \<longleftrightarrow>
     (\<forall>v \<in> set (case x of None \<Rightarrow> [] | Some vs \<Rightarrow> vs). has_target fs b v)"
  by (cases x) (simp_all add: build_exists)

lemma if_exists:
  "(\<exists>ts. (if c then build fs vs b else Inr []) = Inr ts) \<longleftrightarrow> (c \<longrightarrow> (\<forall>v \<in> set vs. has_target fs b v))"
  by (simp add: build_exists)

lemma list_cases:
  "(case map_option fst (turbulence M) of None \<Rightarrow> [] | Some vs \<Rightarrow> vs) = fst (turbulence_lists M)"
  "(case map_option snd (turbulence M) of None \<Rightarrow> [] | Some vs \<Rightarrow> vs) = snd (turbulence_lists M)"
  "(case map_option fst (sponge_vars M) of None \<Rightarrow> [] | Some vs \<Rightarrow> vs) = fst (sponge_lists M)"
  "(case map_option snd (sponge_vars M) of None \<Rightarrow> [] | Some vs \<Rightarrow> vs) = snd (sponge_lists M)"
  by (simp_all add: turbulence_lists_def sponge_lists_def split: option.splits)

text \<open>The cache is built when all the lists of targets can be.\<close>

lemma ensure_field_cache_exists:
  "(\<exists>C. ensure_field_cache M fs = Inr C) \<longleftrightarrow>
     (\<forall>v \<in> set (tracer_list M) \<union> set (thermodynamics_vars M) \<union> set (dynamics_vars M). has_target fs False v) \<and>
     (\<forall>v \<in> set (fst (turbulence_lists M)) \<union> set (snd (turbulence_lists M)) \<union>
         set (fst (sponge_lists M)) \<union> set (snd (sponge_lists M)) \<union> set (lateral_list M) \<union>
         (if enable_surface_process M then {''th'', ''qv'', ''xi'', ''eta''} else {}). has_target fs True v)"
proof -
  have "(\<exists>C. ensure_field_cache M fs = Inr C) \<longleftrightarrow>
      (\<forall>v \<in> set (tracer_list M). has_target fs False v) \<and>
      (\<forall>v \<in> set (fst (turbulence_lists M)). has_target fs True v) \<and>
      (\<forall>v \<in> set (snd (turbulence_lists M)). has_target fs True v) \<and>
      (enable_surface_process M \<longrightarrow> (\<forall>v \<in> set [''th'', ''qv'']. has_target fs True v)) \<and>
      (enable_surface_process M \<longrightarrow> (\<forall>v \<in> set [''xi'', ''eta'']. has_target fs True v)) \<and>
      (\<forall>v \<in> set (fst (sponge_lists M)). has_target fs True v) \<and>
      (\<forall>v \<in> set (snd (sponge_lists M)). has_target fs True v) \<and>
      (\<forall>v \<in> set (lateral_list M). has_target fs True v) \<and>
      (\<forall>v \<in> set (thermodynamics_vars M). has_target fs False v) \<and>
      (\<forall>v \<in> set (dynamics_vars M). has_target fs False v)"
    by (simp only: ensure_field_cache_def Let_def rbind_exists tracer_list_def lateral_list_def sum.inject simp_thms
        ex_simps opt_exists if_exists build_exists list_cases)
  then show ?thesis by (cases "enable_surface_process M"; simp add: ball_Un; iprover)
qed

text \<open>Only the turbulence, radiation, sponge and surface processes create the tendency fields they share: with
  a dynamical core that has none of its own, building the cache in the first step succeeds exactly when the target
  variables of the lateral nudging are among theirs (\<open>th\<close> for radiation).  In particular lateral nudging of \<open>th\<close> and
  \<open>qv\<close> alone fails with a missing field.\<close>

theorem lateral_nudging_needs_other_tendencies:
  assumes "no_tendencies fs"
    and "set (tracer_list M) \<union> set (thermodynamics_vars M) \<union> set (dynamics_vars M) \<union> tendency_vars M \<union>
      set (lateral_list M) \<subseteq> fields_3d fs"
  shows "(\<exists>C. ensure_field_cache M (init_tendency_fields M fs) = Inr C) \<longleftrightarrow> set (lateral_list M) \<subseteq> tendency_vars M"
proof -
  let ?procs = "set (fst (turbulence_lists M)) \<union> set (snd (turbulence_lists M)) \<union>
      set (fst (sponge_lists M)) \<union> set (snd (sponge_lists M))"
    and ?sfc = "if enable_surface_process M then {''th'', ''qv'', ''xi'', ''eta''} else {}"
    and ?plain = "set (tracer_list M) \<union> set (thermodynamics_vars M) \<union> set (dynamics_vars M)"
  let ?has = "has_target (fields_with (tendency_vars M) fs)"
  have has: "?has b v \<longleftrightarrow> (b \<longrightarrow> v \<in> tendency_vars M)" if "v \<in> fields_3d fs" for b v
    using that has_target_with [OF assms(1)] by auto
  have "?procs \<union> ?sfc \<subseteq> tendency_vars M" by (auto simp: tendency_vars_def)
  then have "\<forall>v \<in> ?procs \<union> ?sfc. ?has True v" using has [of _ True] assms(2) by blast
  moreover have "\<forall>v \<in> ?plain. ?has False v" using has [of _ False] assms(2) by blast
  moreover have "(\<forall>v \<in> set (lateral_list M). ?has True v) \<longleftrightarrow> set (lateral_list M) \<subseteq> tendency_vars M"
    using has [of _ True] assms(2) by blast
  ultimately show ?thesis
    unfolding ensure_field_cache_exists init_tendency_fields_with [OF assms(1)] ball_Un by iprover
qed

section \<open>Sample models\<close>

definition sample_turbulent :: json where
  "sample_turbulent = JObject
     [(''physics'', JObject [(''turbulence'', JObject [(''enable_turbulence'', JBool True)])]),
      (''dynamics'', JObject [(''forcings'', JObject [(''sponge_layer'', JObject [(''enable'', JBool True)])])])]"

definition sample_perturbed :: json where
  "sample_perturbed = JObject
     [(''dynamics'', JObject [(''forcings'', JObject [(''random_perturbation'', JObject [(''enable'', JBool True)])])])]"

definition sample_nudged :: json where
  "sample_nudged = JObject
     [(''dynamics'', JObject [(''forcings'', JObject [(''lateral_boundary_nudging'', JObject [(''enable'', JBool True)])])])]"

lemma sample_turbulent_find:
  "find_node sample_turbulent ''simulation.idealized_test'' = None"
  "find_node sample_turbulent ''physics.p3.enable_p3'' = None"
  "find_node sample_turbulent ''physics.microphysics.engine'' = None"
  "find_node sample_turbulent ''physics.turbulence.enable_turbulence'' = Some (JBool True)"
  "find_node sample_turbulent ''physics.rrtmgp.enable_rrtmgp'' = None"
  "find_node sample_turbulent ''dynamics.forcings.sponge_layer.enable'' = Some (JBool True)"
  "find_node sample_turbulent ''dynamics.forcings.lateral_boundary_nudging.enable'' = None"
  "find_node sample_turbulent ''dynamics.forcings.areamn.uvtau'' = None"
  "find_node sample_turbulent ''dynamics.forcings.areamn.enable'' = None"
  "find_node sample_turbulent ''dynamics.forcings.random_perturbation.enable'' = None"
  "find_node sample_turbulent ''physics.surface_process.enable'' = None"
  "find_node sample_turbulent ''physics.surface_process.land_scheme'' = None"
  "find_node sample_turbulent ''physics.surface_process.ocean_scheme'' = None"
  by code_simp+

lemma sample_perturbed_find:
  "find_node sample_perturbed ''simulation.idealized_test'' = None"
  "find_node sample_perturbed ''physics.p3.enable_p3'' = None"
  "find_node sample_perturbed ''physics.microphysics.engine'' = None"
  "find_node sample_perturbed ''physics.turbulence.enable_turbulence'' = None"
  "find_node sample_perturbed ''physics.rrtmgp.enable_rrtmgp'' = None"
  "find_node sample_perturbed ''dynamics.forcings.sponge_layer.enable'' = None"
  "find_node sample_perturbed ''dynamics.forcings.lateral_boundary_nudging.enable'' = None"
  "find_node sample_perturbed ''dynamics.forcings.areamn.uvtau'' = None"
  "find_node sample_perturbed ''dynamics.forcings.areamn.enable'' = None"
  "find_node sample_perturbed ''dynamics.forcings.random_perturbation.enable'' = Some (JBool True)"
  "find_node sample_perturbed ''physics.surface_process.enable'' = None"
  "find_node sample_perturbed ''physics.surface_process.land_scheme'' = None"
  "find_node sample_perturbed ''physics.surface_process.ocean_scheme'' = None"
  by code_simp+

lemma sample_nudged_find:
  "find_node sample_nudged ''simulation.idealized_test'' = None"
  "find_node sample_nudged ''physics.p3.enable_p3'' = None"
  "find_node sample_nudged ''physics.microphysics.engine'' = None"
  "find_node sample_nudged ''physics.turbulence.enable_turbulence'' = None"
  "find_node sample_nudged ''physics.rrtmgp.enable_rrtmgp'' = None"
  "find_node sample_nudged ''dynamics.forcings.sponge_layer.enable'' = None"
  "find_node sample_nudged ''dynamics.forcings.lateral_boundary_nudging.enable'' = Some (JBool True)"
  "find_node sample_nudged ''dynamics.forcings.lateral_boundary_nudging.target_vars'' = None"
  "find_node sample_nudged ''dynamics.forcings.areamn.uvtau'' = None"
  "find_node sample_nudged ''dynamics.forcings.areamn.enable'' = None"
  "find_node sample_nudged ''dynamics.forcings.random_perturbation.enable'' = None"
  "find_node sample_nudged ''physics.surface_process.enable'' = None"
  "find_node sample_nudged ''physics.surface_process.land_scheme'' = None"
  "find_node sample_nudged ''physics.surface_process.ocean_scheme'' = None"
  by code_simp+

definition sample_model :: model where
  "sample_model = \<lparr>mapped = False, wind_solver = True, has_p3 = False, has_cleo = False, turbulence = None,
     has_radiation = False, rad_freq_in_steps = 1, sponge_vars = None, lateral_vars = None, has_area_mean = False,
     uvtau = 0, has_random = False, tracer_source = None, dynamics_vars = [''xi'', ''eta'', ''zeta''],
     thermodynamics_vars = [''th'', ''qv''], enable_surface_process = False, has_land = False, surface_process_s = 0,
     surface_process_steps = 1, predict_uvtopmn = True\<rparr>"

lemma sample_models:
  "make_model (\<lambda>_. 0) sample_turbulent False (Fin 1) [] [] =
     Inr (sample_model\<lparr>turbulence := Some ([''th'', ''qv''], [''xi'', ''eta'', ''zeta'']),
       sponge_vars := Some ([''th'', ''qv''], [''xi'', ''eta'', ''zeta''])\<rparr>)"
  "make_model (\<lambda>_. 0) sample_perturbed False (Fin 1) [] [] = Inr (sample_model\<lparr>has_random := True\<rparr>)"
  "make_model (\<lambda>_. 0) sample_nudged False (Fin 1) [] [] = Inr (sample_model\<lparr>lateral_vars := Some [''th'', ''qv'']\<rparr>)"
  by (simp_all add: make_model_def get_value_default_def sample_turbulent_find sample_perturbed_find sample_nudged_find
      map_error_def throw_if_def no_solver_mode_def moist_vars_def turbulence_thermo_vars_def sample_model_def)

definition all_fields :: state_fields where
  "all_fields = \<lparr>fields_3d = UNIV, fields_2d = UNIV\<rparr>"

lemma all_fields_cache: "\<exists>C. ensure_field_cache M all_fields = Inr C"
  unfolding ensure_field_cache_exists by (simp add: has_target_def all_fields_def)

definition fresh_status :: status where
  "fresh_status = \<lparr>pending = (\<lambda>_. None), applied = [], stale = {}, in_physical_update = False\<rparr>"

definition sample_conditions :: step_conditions where
  "sample_conditions = \<lparr>forcing_end_time = 50, forcing_k_start = 2, forcing_k_end = 4, cleo_time = 0, cleo_t_end = 0,
     next_couple_s = 0\<rparr>"

lemma step_order_is_sound_witness:
  "\<exists>M C s'. make_model (\<lambda>_. 0) sample_turbulent False (Fin 1) [] [] = Inr M \<and> ensure_field_cache M all_fields = Inr C \<and>
    acts M sample_conditions {} fresh_status (run_step M C 0 0 1) s' \<and> stale s' = {} \<and>
    applied s' = [(''th'', Turbulence_process), (''qv'', Turbulence_process), (''th'', Sponge_process), (''qv'', Sponge_process),
      (''xi'', Turbulence_process), (''eta'', Turbulence_process), (''zeta'', Turbulence_process),
      (''xi'', Sponge_process), (''eta'', Sponge_process), (''zeta'', Sponge_process)]"
proof -
  let ?M = "sample_model\<lparr>turbulence := Some ([''th'', ''qv''], [''xi'', ''eta'', ''zeta'']),
       sponge_vars := Some ([''th'', ''qv''], [''xi'', ''eta'', ''zeta''])\<rparr>"
  obtain C where C: "ensure_field_cache ?M all_fields = Inr C" using all_fields_cache by blast
  have "\<exists>s'. acts ?M sample_conditions {} fresh_status (run_step ?M C 0 0 1) s' \<and> stale s' \<subseteq> diagnosed ?M \<and>
      \<not> in_physical_update s' \<and> applied s' = applied fresh_status @ thermo_applied ?M @ vorticity_applied ?M"
    by (rule step_order_is_sound [OF sample_models(1) C])
      (simp_all add: lateral_list_def sample_model_def calm_def fresh_status_def)
  moreover have "diagnosed ?M = {}" by (simp add: diagnosed_def sample_model_def)
  moreover have "applied fresh_status @ thermo_applied ?M @ vorticity_applied ?M =
      [(''th'', Turbulence_process), (''qv'', Turbulence_process), (''th'', Sponge_process), (''qv'', Sponge_process),
      (''xi'', Turbulence_process), (''eta'', Turbulence_process), (''zeta'', Turbulence_process),
      (''xi'', Sponge_process), (''eta'', Sponge_process), (''zeta'', Sponge_process)]"
    by (simp add: thermo_applied_def vorticity_applied_def integrated_vars_def turbulence_lists_def sponge_lists_def
        lateral_list_def sample_model_def integrated_terms_def fresh_status_def)
  ultimately show ?thesis using sample_models(1) C by (metis subset_empty)
qed


lemma lateral_nudging_needs_other_tendencies_witness:
  "\<exists>M. make_model (\<lambda>_. 0) sample_nudged False (Fin 1) [] [] = Inr M \<and>
    \<not> (\<exists>C. ensure_field_cache M (init_tendency_fields M
        \<lparr>fields_3d = {''th'', ''qv'', ''xi'', ''eta'', ''zeta''}, fields_2d = {}\<rparr>) = Inr C)"
proof -
  let ?M = "sample_model\<lparr>lateral_vars := Some [''th'', ''qv'']\<rparr>"
    and ?fs = "\<lparr>fields_3d = {''th'', ''qv'', ''xi'', ''eta'', ''zeta''}, fields_2d = {}\<rparr>"
  have "(\<exists>C. ensure_field_cache ?M (init_tendency_fields ?M ?fs) = Inr C) \<longleftrightarrow> set (lateral_list ?M) \<subseteq> tendency_vars ?M"
    by (rule lateral_nudging_needs_other_tendencies)
      (auto simp: no_tendencies_def fe_def sample_model_def tracer_list_def lateral_list_def tendency_vars_def
        turbulence_lists_def sponge_lists_def)
  then show ?thesis
    using sample_models(3) by (simp add: sample_model_def lateral_list_def tendency_vars_def turbulence_lists_def sponge_lists_def)
qed

end
