(* ===== verification/Rounding.thy ===== *)
theory Rounding
  imports VVM_Prelude
begin

text \<open>
  Rounding of a real number to a floating-point number of \<open>p\<close> significant bits (24 for \<open>float\<close>, 53 for \<open>double\<close>), to the
  nearest and in a tie to the even one, which is what the addition of IEEE arithmetic does with the exact sum.  The exponent
  is unbounded here: the times of a simulation are neither subnormal nor near the largest number.
\<close>

definition round_half_even :: "real \<Rightarrow> int" where
  "round_half_even x =
     (let n = \<lfloor>x\<rfloor>; d = x - of_int n in
      if d < 1 / 2 then n else if 1 / 2 < d then n + 1 else if even n then n else n + 1)"

text \<open>The distance of neighbouring numbers around \<open>x\<close>, and the rounding.\<close>

definition spacing :: "nat \<Rightarrow> real \<Rightarrow> real" where
  "spacing p x = 2 powi (\<lfloor>log 2 \<bar>x\<bar>\<rfloor> - int p + 1)"

definition rounded :: "nat \<Rightarrow> real \<Rightarrow> real" where
  "rounded p x = of_int (round_half_even (x / spacing p x)) * spacing p x"

lemma half_even_error: "\<bar>of_int (round_half_even x) - x\<bar> \<le> 1 / 2"
proof -
  have "of_int \<lfloor>x\<rfloor> \<le> x" "x < of_int \<lfloor>x\<rfloor> + 1" by linarith+
  then show ?thesis unfolding round_half_even_def Let_def by (simp add: abs_le_iff split: if_splits)
qed

lemma half_even_of_int [simp]: "round_half_even (of_int n) = n"
  by (simp add: round_half_even_def)

lemma half_even_le:
  assumes "x \<le> of_int n + 1 / 2" and "even n"
  shows "round_half_even x \<le> n"
proof (cases "\<lfloor>x\<rfloor> = n")
  case True
  then show ?thesis using assms by (simp add: round_half_even_def Let_def)
next
  case False
  have "x < of_int (n + 1)" using assms(1) by simp
  then have "\<lfloor>x\<rfloor> \<le> n" by (simp add: floor_le_iff)
  then show ?thesis using False by (simp add: round_half_even_def Let_def)
qed

lemma half_even_ge:
  assumes "of_int n \<le> x"
  shows "n \<le> round_half_even x"
proof -
  have "n \<le> \<lfloor>x\<rfloor>" using assms by (simp add: le_floor_iff)
  then show ?thesis by (simp add: round_half_even_def Let_def)
qed

lemma spacing_pos: "0 < spacing p x"
  by (simp add: spacing_def)

lemma two_powr: "2 powr real_of_int n = 2 powi n"
  by (simp add: powr_real_of_int')

lemma binade:
  assumes "0 < x"
  obtains m where "2 powi m \<le> x" and "x < 2 powi (m + 1)" and "spacing p x = 2 powi (m - int p + 1)"
proof
  let ?m = "\<lfloor>log 2 x\<rfloor>"
  have e: "2 powr (log 2 x) = x" using assms by simp
  have "2 powr (real_of_int ?m) \<le> 2 powr (log 2 x)" by (intro powr_mono) simp_all
  then show "2 powi ?m \<le> x" unfolding e two_powr .
  have "2 powr (log 2 x) < 2 powr (real_of_int (?m + 1))" by (intro powr_less_mono) simp_all
  then show "x < 2 powi (?m + 1)" unfolding e two_powr .
  show "spacing p x = 2 powi (?m - int p + 1)" using assms by (simp add: spacing_def)
qed

lemma powi_less_imp: "(2 :: real) powi a < 2 powi b \<Longrightarrow> a < b"
  using power_int_increasing [of b a "2 :: real"] by (meson linorder_not_less one_le_numeral)

lemma powi_mono: "a \<le> b \<Longrightarrow> (2 :: real) powi a \<le> 2 powi b"
  by (rule power_int_increasing) simp_all

text \<open>In units of the spacing the power of two below the number is an even integer.\<close>

lemma powi_units:
  assumes "0 < p"
  shows "(2 :: real) powi m = of_int (2 ^ (p - 1)) * 2 powi (m - int p + 1)"
proof -
  have "(2 :: real) powi m = 2 powi (int (p - 1)) * 2 powi (m - int p + 1)"
    using assms by (subst power_int_add [symmetric]) (auto simp: algebra_simps of_nat_diff)
  then show ?thesis by simp
qed

lemma rounded_error:
  assumes "0 < x" and "x < 2 powi (k + 1)"
  shows "\<bar>rounded p x - x\<bar> \<le> 2 powi (k - int p)"
proof -
  obtain m where m: "2 powi m \<le> x" "spacing p x = 2 powi (m - int p + 1)" using binade [OF assms(1)] by blast
  have "m \<le> k" using powi_less_imp [of m "k + 1"] m(1) assms(2) by simp
  then have s: "spacing p x \<le> 2 powi (k - int p + 1)" unfolding m(2) by (intro powi_mono) simp
  have "rounded p x - x = (of_int (round_half_even (x / spacing p x)) - x / spacing p x) * spacing p x"
    using less_imp_neq [OF spacing_pos [of p x]] by (simp add: rounded_def left_diff_distrib)
  then have "\<bar>rounded p x - x\<bar> = \<bar>of_int (round_half_even (x / spacing p x)) - x / spacing p x\<bar> * spacing p x"
    using spacing_pos [of p x] by (simp add: abs_mult)
  also have "\<dots> \<le> 1 / 2 * spacing p x"
    by (rule mult_right_mono [OF half_even_error less_imp_le [OF spacing_pos]])
  finally have "\<bar>rounded p x - x\<bar> \<le> 1 / 2 * spacing p x" .
  also have "\<dots> \<le> 1 / 2 * 2 powi (k - int p + 1)" using s by (rule mult_left_mono) simp
  also have "\<dots> = 2 powi (k - int p)" by (simp add: power_int_add)
  finally show ?thesis .
qed

lemma rounded_ge_power:
  assumes "2 powi k \<le> x" and "0 < p"
  shows "2 powi k \<le> rounded p x"
proof -
  have "0 < x" using assms(1) zero_less_power_int [of "2 :: real" k] by linarith
  then obtain m where m: "2 powi m \<le> x" "x < 2 powi (m + 1)" "spacing p x = 2 powi (m - int p + 1)"
    using binade by blast
  have "of_int (2 ^ (p - 1)) * spacing p x \<le> x" using m(1) powi_units [OF assms(2), of m] m(3) by simp
  then have "of_int (2 ^ (p - 1)) \<le> x / spacing p x" by (simp only: pos_le_divide_eq spacing_pos)
  then have "2 ^ (p - 1) \<le> round_half_even (x / spacing p x)" by (rule half_even_ge)
  then have "of_int (2 ^ (p - 1)) * spacing p x \<le> rounded p x"
    unfolding rounded_def by (intro mult_right_mono) (simp_all only: of_int_le_iff spacing_pos less_imp_le)
  then have "2 powi m \<le> rounded p x" using powi_units [OF assms(2), of m] m(3) by simp
  moreover have "k \<le> m" using powi_less_imp [of k "m + 1"] assms(1) m(2) by simp
  then have "(2 :: real) powi k \<le> 2 powi m" by (rule powi_mono)
  ultimately show ?thesis by linarith
qed

lemma rounded_le_units:
  assumes "x \<le> (of_int n + 1 / 2) * spacing p x" and "even n"
  shows "rounded p x \<le> of_int n * spacing p x"
proof -
  have "x / spacing p x \<le> of_int n + 1 / 2" using assms(1) by (simp only: pos_divide_le_eq spacing_pos)
  then have "round_half_even (x / spacing p x) \<le> n" using assms(2) by (rule half_even_le)
  then show ?thesis unfolding rounded_def by (intro mult_right_mono) (simp_all only: of_int_le_iff spacing_pos less_imp_le)
qed

text \<open>A sum that exceeds a power of two by at most half the spacing above it is rounded down to it.\<close>

lemma rounded_le_power:
  assumes "x \<le> 2 powi k + 2 powi (k - int p)" and "2 \<le> p"
  shows "rounded p x \<le> 2 powi k"
proof (cases "0 < x")
  case False
  then have "x \<le> (of_int 0 + 1 / 2) * spacing p x" using spacing_pos [of p x] by simp
  then have "rounded p x \<le> of_int 0 * spacing p x" by (rule rounded_le_units) simp
  moreover have "(0 :: real) \<le> 2 powi k" by simp
  ultimately show ?thesis by linarith
next
  case True
  then obtain m where m: "2 powi m \<le> x" "x < 2 powi (m + 1)" "spacing p x = 2 powi (m - int p + 1)"
    using binade by blast
  have units: "(2 :: real) powi m = of_int (2 ^ (p - 1)) * spacing p x" using powi_units [of p m] assms(2) m(3) by simp
  have "x < 2 powi (k + 1)"
  proof -
    have "(2 :: real) powi (k - int p) \<le> 2 powi (k - 1)" using assms(2) by (intro powi_mono) simp
    also have "\<dots> < 2 powi k" by (simp add: power_int_diff)
    finally show ?thesis using assms(1) by (simp add: power_int_add)
  qed
  then have "m \<le> k" using powi_less_imp [of m "k + 1"] m(1) by simp
  show ?thesis
  proof (cases "m = k")
    case True
    have "(2 :: real) powi (k - int p) = 1 / 2 * spacing p x" using m(3) True by (simp add: power_int_add)
    then have "x \<le> (of_int (2 ^ (p - 1)) + 1 / 2) * spacing p x" using assms(1) units True by (simp add: distrib_right)
    then have "rounded p x \<le> of_int (2 ^ (p - 1)) * spacing p x" using assms(2) by (intro rounded_le_units) simp_all
    then show ?thesis using units True by simp
  next
    case False
    have two: "(2 :: real) powi (m + 1) = of_int (2 ^ p) * spacing p x"
      using units assms(2) by (simp add: power_int_add) (cases p; simp)
    then have "x \<le> (of_int (2 ^ p) + 1 / 2) * spacing p x"
      using m(2) spacing_pos [of p x] by (simp add: distrib_right)
    then have "rounded p x \<le> of_int (2 ^ p) * spacing p x" using assms(2) by (intro rounded_le_units) simp_all
    also have "\<dots> \<le> 2 powi k" unfolding two [symmetric] using False \<open>m \<le> k\<close> by (intro powi_mono) simp
    finally show ?thesis .
  qed
qed

text \<open>Integers of at most \<open>p\<close> bits are not rounded.\<close>

lemma rounded_of_int:
  assumes "0 < n" and "n < 2 ^ p"
  shows "rounded p (of_int n) = of_int n"
proof -
  obtain m where m: "2 powi m \<le> (of_int n :: real)" "spacing p (of_int n) = 2 powi (m - int p + 1)"
    using binade [of "of_int n" p] assms(1) by auto
  have "(2 :: real) powi m < 2 powi int p"
  proof -
    have "real_of_int n < 2 ^ p" by (metis assms(2) of_int_less_iff of_int_numeral of_int_power)
    then have "2 powi m < (2 :: real) ^ p" by (rule le_less_trans [OF m(1)])
    then show ?thesis by (simp only: power_int_of_nat)
  qed
  then have e: "m - int p + 1 = - int (nat (int p - m - 1))" using powi_less_imp by fastforce
  have "real_of_int n / spacing p (of_int n) = of_int (n * 2 ^ nat (int p - m - 1))"
    unfolding m(2) e power_int_minus power_int_of_nat by (simp add: divide_inverse)
  moreover have "spacing p (of_int n) \<noteq> 0" using spacing_pos [of p "of_int n"] by simp
  ultimately show ?thesis unfolding rounded_def by (metis half_even_of_int nonzero_divide_eq_eq)
qed

lemma rounded_numeral: "(numeral n :: int) < 2 ^ p \<Longrightarrow> rounded p (numeral n) = numeral n"
  using rounded_of_int [of "numeral n" p] by simp

lemma rounded_pos:
  assumes "0 < x" and "0 < p"
  shows "0 < rounded p x"
proof -
  obtain m where "2 powi m \<le> x" using binade [OF assms(1), of p] by blast
  then have "2 powi m \<le> rounded p x" using assms(2) by (rule rounded_ge_power)
  moreover have "(0 :: real) < 2 powi m" by simp
  ultimately show ?thesis by linarith
qed

end
