(* ===== verification/Main_Loop.thy ===== *)
theory Main_Loop
  imports Rounding
begin

text \<open>
  The main loop of \<open>run_vvm\<close> (\<^verbatim>\<open>src/main.cpp\<close>) with the clock of the state (\<^verbatim>\<open>src/core/state/State.hpp\<close>) and the output
  times.  The step of the model and the writer of the history are arguments that may throw; an exception leaves the loop.
  The clock is a \<open>VVM::Real\<close> of \<open>p\<close> significant bits, 53 or, in a single precision build, 24: every addition of the time
  step is rounded.  The output times are doubles.
\<close>

section \<open>The loop\<close>

record 'w simulation =
  sim_step :: "64 word"
  sim_time :: real
  next_output_time :: real
  written :: "(64 word \<times> real) list"
  world :: 'w

text \<open>What precedes the loop: the initial output, if it is enabled, and the first output time.\<close>

definition start_simulation ::
  "(64 word \<Rightarrow> real \<Rightarrow> 'w \<Rightarrow> 'e + unit) \<Rightarrow> bool \<Rightarrow> bool \<Rightarrow> real \<Rightarrow> 64 word \<Rightarrow> real \<Rightarrow> 'w \<Rightarrow> 'e + 'w simulation" where
  "start_simulation write_history restart_enabled output_initial_step output_interval step time w =
     rbind (if output_initial_step then write_history step time w else Inr ()) (\<lambda>_.
       Inr \<lparr>sim_step = step, sim_time = time,
            next_output_time = (if restart_enabled
              then rounded 53 ((of_int \<lfloor>rounded 53 (time / output_interval)\<rfloor> + 1) * output_interval) else output_interval),
            written = (if output_initial_step then [(step, time)] else []), world = w\<rparr>)"

text \<open>The body: \<open>run_step\<close>, \<open>increment_step\<close>, \<open>advance_time\<close> and the output when it is due.\<close>

definition advance_simulation ::
  "nat \<Rightarrow> (64 word \<Rightarrow> real \<Rightarrow> 'w \<Rightarrow> 'e + 'w) \<Rightarrow> (64 word \<Rightarrow> real \<Rightarrow> 'w \<Rightarrow> 'e + unit) \<Rightarrow> real \<Rightarrow> real \<Rightarrow>
     'w simulation \<Rightarrow> 'e + 'w simulation" where
  "advance_simulation p model_step write_history dt output_interval s =
     rbind (model_step (sim_step s) (sim_time s) (world s)) (\<lambda>w.
       let s1 = s\<lparr>world := w, sim_step := sim_step s + 1, sim_time := rounded p (sim_time s + dt)\<rparr>
       in if sim_time s1 \<ge> next_output_time s1 then
            rbind (write_history (sim_step s1) (sim_time s1) (world s1)) (\<lambda>_.
              Inr (s1\<lparr>written := written s1 @ [(sim_step s1, sim_time s1)],
                      next_output_time := rounded 53 (next_output_time s1 + output_interval)\<rparr>))
          else Inr s1)"

partial_function (option) simulate ::
  "nat \<Rightarrow> (64 word \<Rightarrow> real \<Rightarrow> 'w \<Rightarrow> 'e + 'w) \<Rightarrow> (64 word \<Rightarrow> real \<Rightarrow> 'w \<Rightarrow> 'e + unit) \<Rightarrow> real \<Rightarrow> real \<Rightarrow> real \<Rightarrow>
     'w simulation \<Rightarrow> ('e + 'w simulation) option" where
  "simulate p model_step write_history total_time dt output_interval s =
     (if sim_time s < total_time
      then (case advance_simulation p model_step write_history dt output_interval s of
              Inl e \<Rightarrow> Some (Inl e)
            | Inr s' \<Rightarrow> simulate p model_step write_history total_time dt output_interval s')
      else Some (Inr s))"

section \<open>The clock\<close>

fun clock :: "nat \<Rightarrow> real \<Rightarrow> real \<Rightarrow> nat \<Rightarrow> real" where
  "clock p dt t 0 = t"
| "clock p dt t (Suc n) = rounded p (clock p dt t n + dt)"

text \<open>The time step is below half the spacing of the numbers above a power of two: the clock never passes that power.\<close>

lemma clock_stuck:
  assumes "2 \<le> p" and "t \<le> 2 powi k" and "dt \<le> 2 powi (k - int p)"
  shows "clock p dt t n \<le> 2 powi k"
proof (induction n)
  case 0
  show ?case using assms(2) by simp
next
  case (Suc n)
  then have "clock p dt t n + dt \<le> 2 powi k + 2 powi (k - int p)" using assms(3) by linarith
  then show ?case using rounded_le_power [OF _ assms(1)] by simp
qed

text \<open>It is above half the spacing: every step below the next power of two advances the clock by at least the excess.\<close>

lemma clock_advances:
  assumes "2 \<le> p" and "0 \<le> t" and "2 powi (k - int p) < dt" and "\<And>m. m < n \<Longrightarrow> clock p dt t m < 2 powi (k + 1)"
  shows "t + real n * (dt - 2 powi (k - int p)) \<le> clock p dt t n \<or> 2 powi (k + 1) \<le> clock p dt t n"
  using assms(4)
proof (induction n)
  case 0
  show ?case by simp
next
  case (Suc n)
  let ?d = "dt - 2 powi (k - int p)" and ?c = "clock p dt t n"
  have d: "0 < ?d" "0 \<le> real n * ?d" "0 < dt"
    using assms(3) zero_le_power_int [of "2 :: real" "k - int p"] by (simp, simp, linarith)
  have IH: "t + real n * ?d \<le> ?c" using Suc.IH Suc.prems [of n] Suc.prems by fastforce
  then have pos: "0 < ?c + dt" using assms(2) d by linarith
  show ?case
  proof (cases "?c + dt < 2 powi (k + 1)")
    case True
    then have "?c + dt - 2 powi (k - int p) \<le> rounded p (?c + dt)" using rounded_error [OF pos True, of p] by linarith
    then have "t + real n * ?d + ?d \<le> rounded p (?c + dt)" using IH by linarith
    then show ?thesis by (simp add: algebra_simps)
  next
    case False
    then have "2 powi (k + 1) \<le> rounded p (?c + dt)" using rounded_ge_power [of "k + 1" "?c + dt" p] assms(1) by simp
    then show ?thesis by simp
  qed
qed

lemma clock_reaches:
  assumes "2 \<le> p" and "0 \<le> t" and "2 powi (k - int p) < dt" and "T \<le> 2 powi (k + 1)"
  shows "\<exists>n. T \<le> clock p dt t n"
proof (rule ccontr)
  assume "\<not> ?thesis"
  then have below: "clock p dt t n < T" for n by (simp add: not_le)
  have d: "0 < dt - 2 powi (k - int p)" using assms(3) by simp
  obtain n where n: "T - t < real n * (dt - 2 powi (k - int p))" using reals_Archimedean3 [OF d] by blast
  have "t + real n * (dt - 2 powi (k - int p)) \<le> clock p dt t n \<or> 2 powi (k + 1) \<le> clock p dt t n"
    by (rule clock_advances [OF assms(1-3)]) (use below assms(4) in \<open>force intro: less_le_trans\<close>)
  then show False using below [of n] n assms(4) by linarith
qed

section \<open>Running through the loop\<close>

primrec advance_steps ::
  "nat \<Rightarrow> (64 word \<Rightarrow> real \<Rightarrow> 'w \<Rightarrow> 'e + 'w) \<Rightarrow> (64 word \<Rightarrow> real \<Rightarrow> 'w \<Rightarrow> 'e + unit) \<Rightarrow> real \<Rightarrow> real \<Rightarrow>
     'w simulation \<Rightarrow> nat \<Rightarrow> 'e + 'w simulation" where
  "advance_steps p f wr dt I s 0 = Inr s"
| "advance_steps p f wr dt I s (Suc n) = rbind (advance_steps p f wr dt I s n) (advance_simulation p f wr dt I)"

lemma advance_InrD:
  assumes "advance_simulation p f wr dt I s = Inr s'"
  shows "sim_time s' = rounded p (sim_time s + dt)" and "sim_step s' = sim_step s + 1"
    and "(written s', next_output_time s') =
      (if next_output_time s \<le> sim_time s'
       then (written s @ [(sim_step s', sim_time s')], rounded 53 (next_output_time s + I))
       else (written s, next_output_time s))"
  using assms by (auto simp: advance_simulation_def Let_def split: if_splits elim!: rbind_InrE)

lemma advance_steps_clock:
  assumes "advance_steps p f wr dt I s n = Inr s'"
  shows "sim_time s' = clock p dt (sim_time s) n \<and> sim_step s' = sim_step s + of_nat n"
  using assms
proof (induction n arbitrary: s')
  case 0
  then show ?case by simp
next
  case (Suc n)
  then obtain t where t: "advance_steps p f wr dt I s n = Inr t" "advance_simulation p f wr dt I t = Inr s'"
    by (auto elim!: rbind_InrE)
  then show ?case using Suc.IH [OF t(1)] advance_InrD(1,2) [OF t(2)] by (simp add: algebra_simps)
qed

lemma advance_steps_first:
  "advance_steps p f wr dt I s (Suc n) =
     rbind (advance_simulation p f wr dt I s) (\<lambda>t. advance_steps p f wr dt I t n)"
proof (induction n)
  case 0
  show ?case by (cases "advance_simulation p f wr dt I s") (simp_all add: rbind_def)
next
  case (Suc n)
  then show ?case by (cases "advance_simulation p f wr dt I s") (simp_all add: rbind_def)
qed

lemma clock_first: "clock p dt t (Suc n) = clock p dt (rounded p (t + dt)) n"
  by (induction n) simp_all

text \<open>When the clock reaches the total time after \<open>n\<close> steps, the loop returns what \<open>n\<close> steps give.\<close>

lemma simulate_returns:
  assumes "T \<le> clock p dt (sim_time s) n" and "\<And>m. m < n \<Longrightarrow> clock p dt (sim_time s) m < T"
  shows "simulate p f wr T dt I s = Some (advance_steps p f wr dt I s n)"
  using assms
proof (induction n arbitrary: s)
  case 0
  then show ?case by (subst simulate.simps) simp
next
  case (Suc n)
  have less: "sim_time s < T" using Suc.prems(2) [of 0] by simp
  show ?case
  proof (cases "advance_simulation p f wr dt I s")
    case (Inl e)
    then show ?thesis
      using less by (subst simulate.simps) (simp add: advance_steps_first rbind_def del: advance_steps.simps)
  next
    case (Inr t)
    have "clock p dt (sim_time t) m = clock p dt (sim_time s) (Suc m)" for m
      by (simp only: clock_first advance_InrD(1) [OF Inr])
    note c = this
    have "T \<le> clock p dt (sim_time t) n" unfolding c by (rule Suc.prems(1))
    moreover have "clock p dt (sim_time t) m < T" if "m < n" for m
      unfolding c using that by (intro Suc.prems(2)) simp
    ultimately have "simulate p f wr T dt I t = Some (advance_steps p f wr dt I t n)" by (rule Suc.IH)
    then show ?thesis
      using less Inr by (subst simulate.simps) (simp add: advance_steps_first rbind_def del: advance_steps.simps)
  qed
qed

text \<open>A loop that returns a state has reached the total time.\<close>

lemma simulate_SomeD:
  assumes "simulate p f wr T dt I s = Some r"
  shows "\<exists>n. advance_steps p f wr dt I s n = r \<and> (\<forall>m < n. clock p dt (sim_time s) m < T) \<and>
    (\<forall>s'. r = Inr s' \<longrightarrow> T \<le> clock p dt (sim_time s) n)"
proof (rule simulate.raw_induct [where P = "\<lambda>p f wr T dt I s r. \<exists>n. advance_steps p f wr dt I s n = r \<and>
    (\<forall>m < n. clock p dt (sim_time s) m < T) \<and> (\<forall>s'. r = Inr s' \<longrightarrow> T \<le> clock p dt (sim_time s) n)", OF _ assms])
  fix g p f wr T dt I s r
  assume IH: "\<And>p f wr T dt I s r. g p f wr T dt I s = Some r \<Longrightarrow> \<exists>n. advance_steps p f wr dt I s n = r \<and>
      (\<forall>m < n. clock p dt (sim_time s) m < T) \<and> (\<forall>s'. r = Inr s' \<longrightarrow> T \<le> clock p dt (sim_time s) n)"
    and eq: "(if sim_time s < T
      then case advance_simulation p f wr dt I s of Inl e \<Rightarrow> Some (Inl e) | Inr s' \<Rightarrow> g p f wr T dt I s'
      else Some (Inr s)) = Some r"
  show "\<exists>n. advance_steps p f wr dt I s n = r \<and> (\<forall>m < n. clock p dt (sim_time s) m < T) \<and>
      (\<forall>s'. r = Inr s' \<longrightarrow> T \<le> clock p dt (sim_time s) n)"
  proof (cases "sim_time s < T")
    case False
    then show ?thesis using eq by (intro exI [of _ 0]) auto
  next
    case less: True
    show ?thesis
    proof (cases "advance_simulation p f wr dt I s")
      case (Inl e)
      then show ?thesis using eq less by (intro exI [of _ 1]) (auto simp: rbind_def)
    next
      case (Inr t)
      then obtain n where n: "advance_steps p f wr dt I t n = r" "\<forall>m < n. clock p dt (sim_time t) m < T"
        "\<forall>s'. r = Inr s' \<longrightarrow> T \<le> clock p dt (sim_time t) n"
        using IH [of p f wr T dt I t r] eq less by auto
      have c: "clock p dt (sim_time s) (Suc m) = clock p dt (sim_time t) m" for m
        by (simp only: clock_first advance_InrD(1) [OF Inr])
      have "clock p dt (sim_time s) m < T" if "m < Suc n" for m
        using that n(2) less c by (cases m) (simp_all del: clock.simps(2))
      moreover have "advance_steps p f wr dt I s (Suc n) = r"
        using n(1) Inr by (simp add: advance_steps_first rbind_def del: advance_steps.simps)
      ultimately show ?thesis using n(3) c by (intro exI [of _ "Suc n"]) (simp del: advance_steps.simps clock.simps(2))
    qed
  qed
qed

text \<open>C38. The simulation loop, with its clock in floating-point numbers of \<open>p\<close> bits: let \<open>2 powi k\<close> be the largest power of two
  below the total time \<open>T\<close>, and let the run start between time zero and that power.  When the time step is longer than
  half the spacing \<open>2 powi (k - p + 1)\<close> of the floating-point numbers above the power, the loop returns: after the
  least number of steps that takes the rounded clock to the total time, or earlier with the exception of a step or of the
  writer.  When it is not, the rounded sum stays below the total time for ever and only an exception ends the loop.\<close>

theorem simulation_terminates:
  assumes "2 \<le> p" and "0 \<le> sim_time s" and "sim_time s \<le> 2 powi k" and "2 powi k < T" and "T \<le> 2 powi (k + 1)"
  shows "if 2 powi (k - int p) < dt
    then \<exists>r n. simulate p model_step write_history T dt I s = Some r \<and> r = advance_steps p model_step write_history dt I s n \<and>
      T \<le> clock p dt (sim_time s) n \<and> (\<forall>m < n. clock p dt (sim_time s) m < T) \<and>
      (\<forall>s'. r = Inr s' \<longrightarrow> sim_time s' = clock p dt (sim_time s) n \<and> sim_step s' = sim_step s + of_nat n)
    else \<forall>s'. simulate p model_step write_history T dt I s \<noteq> Some (Inr s')"
proof (cases "2 powi (k - int p) < dt")
  case True
  let ?n = "LEAST n. T \<le> clock p dt (sim_time s) n"
  have reach: "T \<le> clock p dt (sim_time s) ?n"
    using clock_reaches [OF assms(1,2) True assms(5)] by (rule LeastI_ex)
  have below: "clock p dt (sim_time s) m < T" if "m < ?n" for m
    using not_less_Least [OF that] by simp
  have "(\<forall>s'. advance_steps p model_step write_history dt I s ?n = Inr s' \<longrightarrow>
      sim_time s' = clock p dt (sim_time s) ?n \<and> sim_step s' = sim_step s + of_nat ?n)"
    using advance_steps_clock by blast
  then show ?thesis
    unfolding if_P [OF True] using simulate_returns [OF reach below] reach below by blast
next
  case False
  have "clock p dt (sim_time s) n < T" for n
    using clock_stuck [OF assms(1,3), of dt n] False assms(4) by simp
  then show ?thesis using False simulate_SomeD by (force simp: not_less [symmetric])
qed

text \<open>A double precision run, and a single precision run of 24 days with a time step of a tenth of a second.\<close>

lemma simulation_terminates_witness:
  "(\<exists>r. simulate 53 (\<lambda>_ _ w. Inr w :: string + unit) (\<lambda>_ _ _. Inr ()) 10 (3 / 2) 5
      \<lparr>sim_step = 0, sim_time = 0, next_output_time = 5, written = [], world = ()\<rparr> = Some r) \<and>
   \<not> (\<exists>s'. simulate 24 (\<lambda>_ _ w. Inr w :: string + unit) (\<lambda>_ _ _. Inr ()) 2100000 (1 / 10) 5
      \<lparr>sim_step = 0, sim_time = 0, next_output_time = 5, written = [], world = ()\<rparr> = Some (Inr s'))"
proof -
  let ?s = "\<lparr>sim_step = 0, sim_time = 0, next_output_time = 5, written = [], world = ()\<rparr>"
  note S = simulation_terminates [where s = ?s and model_step = "\<lambda>_ _ w. Inr w :: string + unit" and write_history = "\<lambda>_ _ _. Inr ()"]
  have "(2 :: real) powi (3 - int 53) \<le> 2 powi 0" by (rule powi_mono) simp
  then have long: "(2 :: real) powi (3 - int 53) < 3 / 2" by simp
  have T: "(2 :: real) powi 3 < 10" "(10 :: real) \<le> 2 powi (3 + 1)" by (simp_all add: power_int_def)
  have "\<exists>r. simulate 53 (\<lambda>_ _ w. Inr w :: string + unit) (\<lambda>_ _ _. Inr ()) 10 (3 / 2) 5 ?s = Some r"
    using S [OF _ _ _ T, of 53 "3 / 2" 5] unfolding if_P [OF long] by (simp add: power_int_def) blast
  moreover have short: "\<not> (2 :: real) powi (21 - int 24) < 1 / 10" by (simp add: power_int_def power3_eq_cube)
  have T': "(2 :: real) powi 21 < 2100000" "(2100000 :: real) \<le> 2 powi (21 + 1)" by (simp_all add: power_int_def)
  have "\<not> (\<exists>s'. simulate 24 (\<lambda>_ _ w. Inr w :: string + unit) (\<lambda>_ _ _. Inr ()) 2100000 (1 / 10) 5 ?s = Some (Inr s'))"
    using S [OF _ _ _ T', of 24 "1 / 10" 5] unfolding if_not_P [OF short] by (simp add: power_int_def)
  ultimately show ?thesis by blast
qed

section \<open>The output times\<close>

text \<open>The \<open>i\<close>-th value of \<open>next_output_time\<close>: the multiples of the interval, added up in double precision.\<close>

fun threshold :: "real \<Rightarrow> nat \<Rightarrow> real" where
  "threshold I 0 = I"
| "threshold I (Suc i) = rounded 53 (threshold I i + I)"

lemma threshold_pos: "0 < I \<Longrightarrow> 0 < threshold I i"
  by (induction i) (simp_all add: rounded_pos)

text \<open>Where the search for the \<open>i\<close>-th output starts and where it ends, when the outputs so far are \<open>ms\<close> out of \<open>n\<close> steps.\<close>

fun search_start :: "nat list \<Rightarrow> nat \<Rightarrow> nat" where
  "search_start ms 0 = 0"
| "search_start ms (Suc i) = ms ! i"

definition search_end :: "nat \<Rightarrow> nat list \<Rightarrow> nat \<Rightarrow> nat" where
  "search_end n ms i = (if i < length ms then ms ! i else n + 1)"

text \<open>The outputs \<open>ms\<close> are the result of the successive searches: each is the first step after the previous one whose time
  reaches the next output time.\<close>

definition found_in_turn :: "(nat \<Rightarrow> real) \<Rightarrow> real \<Rightarrow> nat \<Rightarrow> nat list \<Rightarrow> bool" where
  "found_in_turn c I n ms \<longleftrightarrow> sorted_wrt (<) ms \<and> set ms \<subseteq> {1..n} \<and>
     (\<forall>i < length ms. threshold I i \<le> c (ms ! i)) \<and>
     (\<forall>i \<le> length ms. \<forall>m. search_start ms i < m \<and> m < search_end n ms i \<longrightarrow> c m < threshold I i)"

lemma search_start_append: "i \<le> length ms \<Longrightarrow> search_start (ms @ ns) i = search_start ms i"
  by (cases i) (simp_all add: nth_append)

lemma found_Nil: "found_in_turn c I 0 []"
  by (simp add: found_in_turn_def search_end_def)

lemma found_not_due:
  assumes "found_in_turn c I n ms" and "c (Suc n) < threshold I (length ms)"
  shows "found_in_turn c I (Suc n) ms"
proof -
  have "c m < threshold I i" if "i \<le> length ms" "search_start ms i < m" "m < search_end (Suc n) ms i" for i m
    using assms that unfolding found_in_turn_def search_end_def
    by (cases "m = Suc n") (auto split: if_splits simp: less_Suc_eq le_less)
  then show ?thesis using assms(1) unfolding found_in_turn_def by auto
qed

lemma found_due:
  assumes "found_in_turn c I n ms" and "threshold I (length ms) \<le> c (Suc n)"
  shows "found_in_turn c I (Suc n) (ms @ [Suc n])"
proof -
  have "c m < threshold I i"
    if "i \<le> Suc (length ms)" "search_start (ms @ [Suc n]) i < m" "m < search_end (Suc n) (ms @ [Suc n]) i" for i m
  proof (cases "i = Suc (length ms)")
    case True
    then show ?thesis using that by (simp add: search_end_def)
  next
    case False
    then have "i \<le> length ms" using that(1) by simp
    moreover have "search_end (Suc n) (ms @ [Suc n]) i = search_end n ms i"
      using calculation by (auto simp: search_end_def nth_append)
    ultimately show ?thesis using that assms(1) by (simp add: search_start_append found_in_turn_def)
  qed
  moreover have "threshold I i \<le> c ((ms @ [Suc n]) ! i)" if "i < length (ms @ [Suc n])" for i
    using assms that unfolding found_in_turn_def by (cases "i = length ms") (simp_all add: nth_append)
  moreover have "sorted_wrt (<) (ms @ [Suc n])" "set (ms @ [Suc n]) \<subseteq> {1..Suc n}"
    using assms(1) unfolding found_in_turn_def by (auto simp: sorted_wrt_append)
  ultimately show ?thesis unfolding found_in_turn_def by simp
qed

lemma advance_steps_outputs:
  assumes "advance_steps p f wr dt I s n = Inr s'" and "sim_step s = 0" and "next_output_time s = threshold I 0"
  shows "\<exists>ms. found_in_turn (clock p dt (sim_time s)) I n ms \<and> next_output_time s' = threshold I (length ms) \<and>
    written s' = written s @ map (\<lambda>m. (of_nat m, clock p dt (sim_time s) m)) ms"
  using assms(1)
proof (induction n arbitrary: s')
  case 0
  then show ?case using assms(3) by (intro exI [of _ "[]"]) (simp add: found_Nil)
next
  case (Suc n)
  obtain t where t: "advance_steps p f wr dt I s n = Inr t" "advance_simulation p f wr dt I t = Inr s'"
    using Suc.prems by (auto elim!: rbind_InrE)
  obtain ms where ms: "found_in_turn (clock p dt (sim_time s)) I n ms" "next_output_time t = threshold I (length ms)"
    "written t = written s @ map (\<lambda>m. (of_nat m, clock p dt (sim_time s) m)) ms"
    using Suc.IH [OF t(1)] by blast
  have time: "sim_time s' = clock p dt (sim_time s) (Suc n)" and step: "sim_step s' = of_nat (Suc n)"
    using advance_steps_clock [OF Suc.prems] assms(2) by simp_all
  show ?case
  proof (cases "threshold I (length ms) \<le> clock p dt (sim_time s) (Suc n)")
    case True
    then show ?thesis
      using found_due [OF ms(1) True] advance_InrD(3) [OF t(2)] ms(2,3) time step
      by (intro exI [of _ "ms @ [Suc n]"]) simp
  next
    case False
    then show ?thesis
      using found_not_due [OF ms(1)] advance_InrD(3) [OF t(2)] ms(2,3) time
      by (intro exI [of _ ms]) (simp add: not_le)
  qed
qed

text \<open>When no step passes two output times, no step before an output has reached its time.\<close>

lemma found_first:
  assumes found: "found_in_turn c I n ms" and "c 0 \<le> 0" and "0 < I"
    and short: "\<And>m j. m < n \<Longrightarrow> c m < threshold I j \<Longrightarrow> c (Suc m) < threshold I (Suc j)"
  shows "i < length ms \<Longrightarrow> m < ms ! i \<Longrightarrow> c m < threshold I i"
proof (induction i arbitrary: m)
  case 0
  then show ?case using found assms(2,3) unfolding found_in_turn_def search_end_def by (cases "m = 0") fastforce+
next
  case (Suc i)
  consider "m = 0" | "0 < m" "m \<le> ms ! i" | "ms ! i < m" by linarith
  then show ?case
  proof cases
    case 1
    have "0 < threshold I (Suc i)" using threshold_pos [OF assms(3)] .
    then show ?thesis unfolding 1 using assms(2) by linarith
  next
    case 2
    then have "m - 1 < ms ! i" by simp
    moreover have "ms ! i \<le> n" using found Suc.prems(1) nth_mem [of i ms] unfolding found_in_turn_def by force
    ultimately show ?thesis using short [of "m - 1" i] Suc.IH [of "m - 1"] Suc.prems(1) 2 by simp
  next
    case 3
    then have "search_start ms (Suc i) < m" "m < search_end n ms (Suc i)" "Suc i \<le> length ms"
      using Suc.prems by (simp_all add: search_end_def)
    then show ?thesis using found unfolding found_in_turn_def by blast
  qed
qed

text \<open>C40. The output schedule: let a run that starts at time zero return after \<open>n\<close> steps, with the clock \<open>c\<close>.  Besides the
  initial output, if it is enabled, the run has written the outputs of the steps \<open>ms\<close>, in increasing order, each with its
  step and its time: each is the first step after the previous output whose time reaches the next multiple of the output interval (as
  double precision adds them up), and no later step reaches the multiple after the last one.  When no step passes two multiples,
  each output is that of the very first step that reaches its multiple.  Otherwise the loop writes one
  output per step and falls behind the multiples.\<close>

theorem output_schedule:
  assumes "start_simulation write_history False initial I 0 0 w = Inr s0"
    and "simulate p model_step write_history T dt I s0 = Some (Inr s')"
  shows "\<exists>n ms. (let c = clock p dt 0 in
    T \<le> c n \<and> (\<forall>m < n. c m < T) \<and> sim_time s' = c n \<and>
    written s' = (if initial then [(0, 0)] else []) @ map (\<lambda>m. (of_nat m, c m)) ms \<and>
    found_in_turn c I n ms \<and>
    (0 < I \<and> (\<forall>m < n. \<forall>j. c m < threshold I j \<longrightarrow> c (Suc m) < threshold I (Suc j)) \<longrightarrow>
      (\<forall>i < length ms. \<forall>m < ms ! i. c m < threshold I i)))"
proof -
  have s0: "sim_step s0 = 0" "sim_time s0 = 0" "next_output_time s0 = threshold I 0"
    "written s0 = (if initial then [(0, 0)] else [])"
    using assms(1) by (auto simp: start_simulation_def elim!: rbind_InrE)
  obtain n where n: "advance_steps p model_step write_history dt I s0 n = Inr s'" "\<forall>m < n. clock p dt 0 m < T" "T \<le> clock p dt 0 n"
    using simulate_SomeD [OF assms(2)] s0(2) by auto
  obtain ms where ms: "found_in_turn (clock p dt 0) I n ms"
    "written s' = written s0 @ map (\<lambda>m. (of_nat m, clock p dt 0 m)) ms"
    using advance_steps_outputs [OF n(1) s0(1,3)] s0(2) by auto
  have "sim_time s' = clock p dt 0 n" using advance_steps_clock [OF n(1)] s0(2) by simp
  moreover have "\<forall>i < length ms. \<forall>m < ms ! i. clock p dt 0 m < threshold I i"
    if "0 < I" "\<forall>m < n. \<forall>j. clock p dt 0 m < threshold I j \<longrightarrow> clock p dt 0 (Suc m) < threshold I (Suc j)"
    using found_first [OF ms(1) _ that(1)] that(2) by simp
  ultimately show ?thesis
    unfolding Let_def using n ms s0(4) by (intro exI [of _ n] exI [of _ ms]) simp
qed

text \<open>Steps of ten minutes and outputs every five: after twenty minutes at most three of the five outputs are there.\<close>

lemma output_schedule_witness:
  "\<exists>s0 s'. start_simulation (\<lambda>_ _ _. Inr () :: string + unit) False True 300 0 0 () = Inr s0 \<and>
     simulate 53 (\<lambda>_ _ w. Inr w) (\<lambda>_ _ _. Inr () :: string + unit) 1200 600 300 s0 = Some (Inr s') \<and>
     sim_time s' = 1200 \<and> length (written s') \<le> 3"
proof -
  let ?f = "\<lambda>_ _ w. Inr w :: string + unit" and ?wr = "\<lambda>_ _ _. Inr () :: string + unit"
  obtain s0 where s0: "start_simulation ?wr False True 300 0 0 () = Inr s0" "sim_time s0 = 0"
    by (simp add: start_simulation_def rbind_def)
  have c: "clock 53 600 0 0 = 0" "clock 53 600 0 1 = 600" "clock 53 600 0 2 = 1200"
    by (simp_all add: numeral_2_eq_2 rounded_numeral)
  have all: "\<exists>t'. advance_simulation 53 ?f ?wr 600 300 t = Inr t'" for t
    by (simp add: advance_simulation_def rbind_def Let_def)
  then obtain s' where s': "advance_steps 53 ?f ?wr 600 300 s0 2 = Inr s'"
    by (metis advance_steps.simps numeral_2_eq_2 rbind_Inr)
  have "clock 53 600 0 m < 1200" if "m < 2" for m
    using that c by (cases m) auto
  then have sim: "simulate 53 ?f ?wr 1200 600 300 s0 = Some (Inr s')"
    using simulate_returns [of 1200 53 600 s0 2 ?f ?wr 300] s' s0(2) c(3) by simp
  obtain n ms where n: "1200 \<le> clock 53 600 0 n" "\<forall>m < n. clock 53 600 0 m < 1200" "sim_time s' = clock 53 600 0 n"
    and ms: "written s' = (if True then [(0, 0)] else []) @ map (\<lambda>m. (of_nat m, clock 53 600 0 m)) ms"
      "found_in_turn (clock 53 600 0) 300 n ms"
    using output_schedule [OF s0(1) sim] unfolding Let_def by (elim exE conjE) (rule that, assumption+)
  have "n \<noteq> 0" "n \<noteq> 1" using n(1) c(1,2) by (intro notI; simp)+
  moreover have "\<not> 2 < n" using n(2) c(3) by force
  ultimately have "n = 2" by linarith
  moreover have "sorted_wrt (<) ms" "set ms \<subseteq> {1..n}" using ms(2) unfolding found_in_turn_def by blast+
  then have "length ms \<le> n"
    using card_mono [of "{1..n}" "set ms"] by (simp add: distinct_card strict_sorted_iff)
  ultimately show ?thesis using s0(1) sim n(3) ms(1) c(3) by (intro exI [of _ s0] exI [of _ s']) simp_all
qed

end
