(* ===== verification/Time_Integration.thy ===== *)
theory Time_Integration
  imports Model_Fields Grid_Decomp
begin

text \<open>
  \<open>dynamics/temporal_schemes\<close>: \<open>TimeIntegrator\<close> (Adams-Bashforth 2 with forward-Euler terms, or
  forward Euler alone, or a multistage scheme) and \<open>SSPRK2\<close>, with the part of
  \<open>TendencyCalculator\<close> that chooses the history array.  A prognostic variable and its companions
  (\<open>_m\<close>, \<open>d_..._0\<close>, \<open>d_..._1\<close>, \<open>fe_tendency_...\<close>) are distinct arrays, so exchanging the views of the
  variable and of its previous state exchanges their contents.  The arrays are functions from
  cells, over the extents of the grid.  Real numbers stand for \<open>VVM::Real\<close>.
\<close>

type_synonym view = "cell \<Rightarrow> real"

section \<open>The code\<close>

datatype integration_error =
    Evaluator_required
  | Target_not_supported
  | Previous_state_missing
  | Callbacks_missing
  | Invalid_stage_count
  | Invalid_stage
  | No_multistage_terms
  | Stage_timestep_not_positive

text \<open>The arrays of a variable, and the terrain masks with the highest level that has terrain.\<close>

record prognostic =
  var :: view
  var_m :: "view option"
  hist_0 :: view
  hist_1 :: view
  fe_tendency :: view

record terrain =
  itypeu :: view
  itypev :: view
  itypew :: view
  max_topo_idx :: int

text \<open>A multistage scheme: the state \<open>'m\<close> it keeps, its stage count, the step of a stage, and its two
  operations; the defaults of \<open>TemporalScheme\<close> are overridden by the only one there is, \<open>SSPRK2\<close>.\<close>

record 'm temporal_scheme =
  stage_count :: int
  stage_timestep :: "real \<Rightarrow> int \<Rightarrow> real"
  begin_multistage_step :: "view \<Rightarrow> 'm \<Rightarrow> 'm"
  advance_multistage :: "grid \<Rightarrow> view \<Rightarrow> real \<Rightarrow> int \<Rightarrow> view \<times> 'm \<Rightarrow> integration_error + view \<times> 'm"

record 'm time_integrator =
  variable_name :: string
  has_ab2_terms :: bool
  has_fe_terms :: bool
  multistage_scheme :: "'m temporal_scheme option"

subsection \<open>One stage\<close>

definition k_end :: "grid \<Rightarrow> string \<Rightarrow> int" where
  "k_end g name =
     (if name = ''xi'' \<or> name = ''eta'' then get_local_total_points_z g - get_halo_cells g - 1
      else get_local_total_points_z g - get_halo_cells g)"

definition physical_cells :: "grid \<Rightarrow> int \<Rightarrow> int \<Rightarrow> (int \<times> int \<times> int) list" where
  "physical_cells g k0 k1 =
     (let h = get_halo_cells g in
      mdrange3 k0 h h k1 (get_local_total_points_y g - h) (get_local_total_points_x g - h))"

definition at_cell :: "int \<times> int \<times> int \<Rightarrow> cell" where
  "at_cell = (\<lambda>(k, j, i). (0, k, j, i))"

text \<open>\<open>x(k, j, i) += dt * tendency(k, j, i)\<close>\<close>

definition add_tendency :: "grid \<Rightarrow> int \<Rightarrow> int \<Rightarrow> real \<Rightarrow> view \<Rightarrow> view \<Rightarrow> view" where
  "add_tendency g k0 k1 dt tend x =
     parallel_for (physical_cells g k0 k1)
       (assign at_cell (\<lambda>c d. d (at_cell c) + dt * tend (at_cell c))) x"

definition mask_history :: "grid \<Rightarrow> int \<Rightarrow> view \<Rightarrow> view \<times> view \<Rightarrow> view \<times> view" where
  "mask_history g ktop itype hists =
     parallel_for (physical_cells g (get_halo_cells g) (ktop + 1))
       (\<lambda>c (now, prev). if itype (at_cell c) \<noteq> 1 then (now(at_cell c := 0), prev(at_cell c := 0))
                        else (now, prev)) hists"

text \<open>The AB2 kernels read the previous storage and write the new one; \<open>zeta\<close> is advanced on the top
  physical level only.\<close>

definition ab2_kernel :: "grid \<Rightarrow> string \<Rightarrow> view \<Rightarrow> view \<Rightarrow> (cell \<Rightarrow> real) \<Rightarrow> view" where
  "ab2_kernel g name old new increment =
     (let h = get_halo_cells g; ktop = get_local_total_points_z g - h - 1 in
      if name = ''zeta'' then
        parallel_for (mdrange2 h h (get_local_total_points_y g - h) (get_local_total_points_x g - h))
          (assign (\<lambda>(j, i). (0, ktop, j, i)) (\<lambda>(j, i) d. old (0, ktop, j, i) + increment (0, ktop, j, i))) new
      else
        parallel_for (physical_cells g h (k_end g name))
          (assign at_cell (\<lambda>c d. old (at_cell c) + increment (at_cell c))) new)"

definition step_single_stage ::
  "'m time_integrator \<Rightarrow> grid \<Rightarrow> terrain \<Rightarrow> 64 word \<Rightarrow> real \<Rightarrow> prognostic \<Rightarrow>
     integration_error + prognostic" where
  "step_single_stage I g t step dt s =
     (let name = variable_name I; k_start = get_halo_cells g in
      if has_ab2_terms I then
        (case var_m s of
           None \<Rightarrow> Inl Previous_state_missing
         | Some m \<Rightarrow>
             (let field_old = var s;
                  now_idx = step mod 2; prev_idx = (step + 1) mod 2;
                  now = (if now_idx = 0 then hist_0 s else hist_1 s);
                  prev = (if prev_idx = 0 then hist_0 s else hist_1 s);
                  itype = (if name = ''xi'' then itypev t else if name = ''eta'' then itypeu t else itypew t);
                  (now', prev') = mask_history g (max_topo_idx t) itype (now, prev);
                  new = ab2_kernel g name field_old m
                    (\<lambda>c. if step = 0 then dt * now' c else dt * (3 / 2 * now' c - 1 / 2 * prev' c));
                  new' = (if has_fe_terms I then add_tendency g k_start (k_end g name) dt (fe_tendency s) new
                          else new)
              in Inr (s\<lparr>var := new', var_m := Some field_old,
                        hist_0 := if now_idx = 0 then now' else prev',
                        hist_1 := if now_idx = 0 then prev' else now'\<rparr>)))
      else if has_fe_terms I then
        Inr (s\<lparr>var := add_tendency g k_start (k_end g name) dt (fe_tendency s) (var s)\<rparr>)
      else Inr s)"

text \<open>The overload with the variable of the state, whose previous state is looked up with AB2 terms only, and
  the one with an explicit target and previous state.\<close>

definition step_state ::
  "'m time_integrator \<Rightarrow> grid \<Rightarrow> terrain \<Rightarrow> 64 word \<Rightarrow> real \<Rightarrow> prognostic \<Rightarrow>
     integration_error + prognostic" where
  "step_state I g t step dt s =
     rbind (throw_if (multistage_scheme I \<noteq> None) Evaluator_required) (\<lambda>_.
       step_single_stage I g t step dt s)"

definition step_target ::
  "'m time_integrator \<Rightarrow> grid \<Rightarrow> terrain \<Rightarrow> 64 word \<Rightarrow> real \<Rightarrow> prognostic \<Rightarrow>
     integration_error + prognostic" where
  "step_target I g t step dt s =
     rbind (throw_if (multistage_scheme I \<noteq> None) Target_not_supported) (\<lambda>_.
       step_single_stage I g t step dt s)"

text \<open>\<open>apply_forward_update\<close>, for a three-dimensional tendency and for a two-dimensional one, which acts
  on the top level of \<open>zeta\<close> only.\<close>

definition apply_forward_update_3 :: "grid \<Rightarrow> string \<Rightarrow> real \<Rightarrow> view \<Rightarrow> view \<Rightarrow> view" where
  "apply_forward_update_3 g name dt tend target =
     add_tendency g (get_halo_cells g) (k_end g name) dt tend target"

definition apply_forward_update_2 :: "grid \<Rightarrow> string \<Rightarrow> real \<Rightarrow> view \<Rightarrow> view \<Rightarrow> view" where
  "apply_forward_update_2 g name dt tend target =
     (let h = get_halo_cells g; ktop = get_local_total_points_z g - h - 1 in
      if name = ''zeta'' then
        parallel_for (mdrange2 h h (get_local_total_points_y g - h) (get_local_total_points_x g - h))
          (assign (\<lambda>(j, i). (0, ktop, j, i)) (\<lambda>(j, i) d. d (0, ktop, j, i) + dt * tend (0, 0, j, i))) target
      else target)"

subsection \<open>Several stages\<close>

text \<open>The stage loop of \<open>TimeIntegrator::step\<close>.  \<open>evaluate\<close> recomputes the tendency from the current
  variable, \<open>process\<close> is the stage processor (terrain mask, halo exchange and boundary conditions, see
  \<open>process_stage_field\<close>); an absent callback is \<open>None\<close>.\<close>

fun run_stages ::
  "'m temporal_scheme \<Rightarrow> grid \<Rightarrow> (real \<Rightarrow> view \<Rightarrow> integration_error + view) \<Rightarrow> (view \<Rightarrow> view) \<Rightarrow> real \<Rightarrow> int list \<Rightarrow>
     view \<times> 'm \<Rightarrow> integration_error + view \<times> 'm" where
  "run_stages S g evaluate process dt [] s = Inr s"
| "run_stages S g evaluate process dt (stage # stages) s =
     (let stage_dt = stage_timestep S dt stage in
      rbind (evaluate stage_dt (fst s)) (\<lambda>tendency.
      rbind (advance_multistage S g tendency stage_dt stage s) (\<lambda>(q, m).
        run_stages S g evaluate process dt stages (process q, m))))"

definition step_multistage ::
  "'m time_integrator \<Rightarrow> grid \<Rightarrow> terrain \<Rightarrow> 64 word \<Rightarrow> real \<Rightarrow>
     (real \<Rightarrow> view \<Rightarrow> integration_error + view) option \<Rightarrow> (view \<Rightarrow> view) option \<Rightarrow> prognostic \<times> 'm \<Rightarrow>
     integration_error + prognostic \<times> 'm" where
  "step_multistage I g t step dt evaluate process s =
     (case multistage_scheme I of
        None \<Rightarrow> rbind (step_state I g t step dt (fst s)) (\<lambda>p. Inr (p, snd s))
      | Some S \<Rightarrow>
          (case (evaluate, process) of
             (Some ev, Some pr) \<Rightarrow>
               (let m = begin_multistage_step S (var (fst s)) (snd s) in
                rbind (throw_if (stage_count S < 1) Invalid_stage_count) (\<lambda>_.
                rbind (run_stages S g ev pr dt (range1 0 (stage_count S)) (var (fst s), m)) (\<lambda>(q, m').
                  Inr ((fst s)\<lparr>var := q\<rparr>, m'))))
           | _ \<Rightarrow> Inl Callbacks_missing))"

record ssprk2_state =
  original :: view
  stage_one :: view

definition ssprk2_advance ::
  "grid \<Rightarrow> view \<Rightarrow> real \<Rightarrow> int \<Rightarrow> view \<times> ssprk2_state \<Rightarrow> integration_error + view \<times> ssprk2_state" where
  "ssprk2_advance g rhs dt stage s =
     (let (q, m) = s; h = get_halo_cells g; cells = physical_cells g h (get_local_total_points_z g - h) in
      rbind (throw_if (stage \<noteq> 0 \<and> stage \<noteq> 1) Invalid_stage) (\<lambda>_.
      if stage = 0 then
        (let (q1, q') = parallel_for cells
           (\<lambda>c (q1, q). let v = original m (at_cell c) + dt * rhs (at_cell c)
                        in (q1(at_cell c := v), q(at_cell c := v))) (stage_one m, q)
         in Inr (q', m\<lparr>stage_one := q1\<rparr>))
      else
        Inr (parallel_for cells
               (assign at_cell (\<lambda>c d. 1 / 2 * original m (at_cell c) +
                  1 / 2 * (stage_one m (at_cell c) + dt * rhs (at_cell c)))) q, m)))"

definition ssprk2 :: "ssprk2_state temporal_scheme" where
  "ssprk2 =
     \<lparr>stage_count = 2, stage_timestep = (\<lambda>dt _. dt),
      begin_multistage_step = (\<lambda>q m. m\<lparr>original := q\<rparr>), advance_multistage = ssprk2_advance\<rparr>"

subsection \<open>Tendencies\<close>

text \<open>\<open>TendencyCalculator\<close>: a term adds its contribution to the array it is given.  The history array of
  the current step is cleared and filled; without terms of a kind its array is left alone.\<close>

definition calculate_tendencies ::
  "(view \<Rightarrow> view) list \<Rightarrow> (view \<Rightarrow> view) list \<Rightarrow> 64 word \<Rightarrow> prognostic \<Rightarrow> prognostic" where
  "calculate_tendencies ab2_terms fe_terms step s =
     (let s1 = (if ab2_terms = [] then s
                else (let hist = fold (\<lambda>term. term) ab2_terms (\<lambda>_. 0)
                      in if step mod 2 = 0 then s\<lparr>hist_0 := hist\<rparr> else s\<lparr>hist_1 := hist\<rparr>))
      in if fe_terms = [] then s1 else s1\<lparr>fe_tendency := fold (\<lambda>term. term) fe_terms (\<lambda>_. 0)\<rparr>)"

text \<open>The tendency of a stage, from the terms and the current variable.  A term adds its contribution to the
  array, or throws.\<close>

fun add_terms ::
  "(real \<Rightarrow> view \<Rightarrow> view \<Rightarrow> integration_error + view) list \<Rightarrow> real \<Rightarrow> view \<Rightarrow> view \<Rightarrow> integration_error + view" where
  "add_terms [] stage_dt q acc = Inr acc"
| "add_terms (term # terms) stage_dt q acc = rbind (term stage_dt q acc) (add_terms terms stage_dt q)"

definition calculate_multistage_tendency ::
  "(real \<Rightarrow> view \<Rightarrow> view \<Rightarrow> integration_error + view) list \<Rightarrow> real \<Rightarrow> view \<Rightarrow> integration_error + view" where
  "calculate_multistage_tendency terms stage_dt q =
     rbind (throw_if (terms = []) No_multistage_terms) (\<lambda>_. add_terms terms stage_dt q (\<lambda>_. 0))"

subsection \<open>The stage processor\<close>

text \<open>What \<open>DynamicalCore::update_thermodynamics\<close> does to a variable after every stage: the solid cells up to the
  highest terrain level get the base state (\<open>th\<close>) or zero, then the halos and the boundaries are filled.  The halo
  exchange and the boundary conditions are arguments.\<close>

definition apply_topographic_mask :: "grid \<Rightarrow> terrain \<Rightarrow> bool \<Rightarrow> (int \<Rightarrow> real) \<Rightarrow> view \<Rightarrow> view" where
  "apply_topographic_mask g t is_th thbar q =
     parallel_for (physical_cells g (get_halo_cells g) (max_topo_idx t + 1))
       (assign at_cell (\<lambda>c d. if itypew t (at_cell c) \<noteq> 1 then (if is_th then thbar (fst c) else 0) else d (at_cell c))) q"

definition process_stage_field ::
  "grid \<Rightarrow> terrain \<Rightarrow> bool \<Rightarrow> (int \<Rightarrow> real) \<Rightarrow> (view \<Rightarrow> view) \<Rightarrow> (view \<Rightarrow> view) \<Rightarrow> (view \<Rightarrow> view) \<Rightarrow> view \<Rightarrow> view" where
  "process_stage_field g t is_th thbar exchange_halos horizontal_bcs vertical_bcs q =
     vertical_bcs (horizontal_bcs (exchange_halos (apply_topographic_mask g t is_th thbar q)))"

section \<open>What a stage computes\<close>

lemma at_cell_eq [simp]: "at_cell (k, j, i) = (0, k, j, i)"
  by (simp add: at_cell_def)

lemma in_physical_cells [range_simps]:
  "(k, j, i) \<in> set (physical_cells g k0 k1) \<longleftrightarrow> k0 \<le> k \<and> k < k1 \<and>
     get_halo_cells g \<le> j \<and> j < get_local_total_points_y g - get_halo_cells g \<and>
     get_halo_cells g \<le> i \<and> i < get_local_total_points_x g - get_halo_cells g"
  by (simp add: physical_cells_def Let_def range_simps)

lemma distinct_physical_cells [range_simps]: "distinct (physical_cells g k0 k1)"
  by (simp add: physical_cells_def Let_def range_simps)

lemma inj_at_cell: "inj_on at_cell A"
  by (auto simp: inj_on_def at_cell_def)

text \<open>The column of an interior cell of the process.\<close>

definition interior :: "grid \<Rightarrow> int \<Rightarrow> int \<Rightarrow> bool" where
  "interior g j i \<longleftrightarrow>
     get_halo_cells g \<le> j \<and> j < get_local_total_points_y g - get_halo_cells g \<and>
     get_halo_cells g \<le> i \<and> i < get_local_total_points_x g - get_halo_cells g"

interpretation physical_update: update_kernel "physical_cells g k0 k1" at_cell
  "\<lambda>c d. F c (d (at_cell c)) :: 'a" for g k0 k1 F
  by unfold_locales (auto simp: range_simps inj_on_def)

lemma physical_update_cell:
  "parallel_for (physical_cells g k0 k1) (assign at_cell (\<lambda>c d. F c (d (at_cell c)))) d (0, k, j, i) =
     (if k0 \<le> k \<and> k < k1 \<and> interior g j i then F (k, j, i) (d (0, k, j, i)) else d (0, k, j, i))"
proof (cases "k0 \<le> k \<and> k < k1 \<and> interior g j i")
  case True
  then show ?thesis
    using physical_update.update_result [of "(k, j, i)" g k0 k1 F d] by (simp add: range_simps interior_def)
next
  case False
  then have "parallel_for (physical_cells g k0 k1) (assign at_cell (\<lambda>c d. F c (d (at_cell c)))) d (0, k, j, i) =
      d (0, k, j, i)"
    by (intro parallel_for_frame) (auto simp: range_simps interior_def)
  then show ?thesis using False by auto
qed

lemma add_tendency_cell:
  "add_tendency g k0 k1 dt tend x (0, k, j, i) =
     (if k0 \<le> k \<and> k < k1 \<and> interior g j i then x (0, k, j, i) + dt * tend (0, k, j, i) else x (0, k, j, i))"
  using physical_update_cell [of g k0 k1 "\<lambda>c v. v + dt * tend (at_cell c)" x k j i]
  by (simp add: add_tendency_def)

lemma ab2_kernel_cell:
  "ab2_kernel g name old new inc (0, k, j, i) =
     (if (if name = ''zeta'' then k = get_local_total_points_z g - get_halo_cells g - 1
          else get_halo_cells g \<le> k \<and> k < k_end g name) \<and> interior g j i
      then old (0, k, j, i) + inc (0, k, j, i) else new (0, k, j, i))"
proof (cases "name = ''zeta''")
  case True
  let ?h = "get_halo_cells g" and ?top = "get_local_total_points_z g - get_halo_cells g - 1"
  let ?r = "mdrange2 ?h ?h (get_local_total_points_y g - ?h) (get_local_total_points_x g - ?h)"
  let ?rd = "\<lambda>(j, i) (d :: view). old (0, ?top, j, i) + inc (0, ?top, j, i)"
  have kern: "kernel ?r (\<lambda>(j, i). (0 :: int, ?top, j, i)) ?rd"
    by unfold_locales (auto simp: range_simps inj_on_def)
  show ?thesis
  proof (cases "k = ?top \<and> interior g j i")
    case in_range: True
    then show ?thesis
      using kernel.result [OF kern, of "(j, i)" new] True
      by (simp add: ab2_kernel_def Let_def range_simps interior_def)
  next
    case False
    have "parallel_for ?r (assign (\<lambda>(j, i). (0, ?top, j, i)) ?rd) new (0, k, j, i) = new (0, k, j, i)"
      by (rule parallel_for_frame) (use False in \<open>auto simp: range_simps interior_def\<close>)
    then show ?thesis using False True by (auto simp: ab2_kernel_def Let_def)
  qed
next
  case False
  then show ?thesis
    using physical_update_cell [of g "get_halo_cells g" "k_end g name"
        "\<lambda>c v. old (at_cell c) + inc (at_cell c)" new k j i]
    by (simp add: ab2_kernel_def Let_def)
qed

lemma mask_history_eq:
  "mask_history g ktop itype (now, prev) =
     (let upd = parallel_for (physical_cells g (get_halo_cells g) (ktop + 1))
        (assign at_cell (\<lambda>c d. if itype (at_cell c) \<noteq> 1 then 0 else d (at_cell c))) in (upd now, upd prev))"
proof -
  have eq: "(\<lambda>c (now, prev). if itype (at_cell c) \<noteq> 1 then (now(at_cell c := 0), prev(at_cell c := 0))
        else (now, prev)) =
      (\<lambda>c (now, prev). (assign at_cell (\<lambda>c d. if itype (at_cell c) \<noteq> 1 then 0 else d (at_cell c)) c now,
        assign at_cell (\<lambda>c d. if itype (at_cell c) \<noteq> 1 then 0 else d (at_cell c)) c prev))"
    by (auto simp: fun_eq_iff assign_def)
  show ?thesis unfolding mask_history_def Let_def eq by (rule parallel_for_pair)
qed

definition masked :: "grid \<Rightarrow> int \<Rightarrow> view \<Rightarrow> view \<Rightarrow> cell \<Rightarrow> real" where
  "masked g ktop itype hist = (\<lambda>(w, k, j, i).
     if w = 0 \<and> get_halo_cells g \<le> k \<and> k \<le> ktop \<and> interior g j i \<and> itype (w, k, j, i) \<noteq> 1 then 0
     else hist (w, k, j, i))"

lemma mask_history_cell:
  "fst (mask_history g ktop itype (now, prev)) (0, k, j, i) = masked g ktop itype now (0, k, j, i)"
  "snd (mask_history g ktop itype (now, prev)) (0, k, j, i) = masked g ktop itype prev (0, k, j, i)"
proof -
  have "parallel_for (physical_cells g (get_halo_cells g) (ktop + 1))
      (assign at_cell (\<lambda>c d. if itype (at_cell c) \<noteq> 1 then 0 else d (at_cell c))) x (0, k, j, i) =
      masked g ktop itype x (0, k, j, i)" for x
    using physical_update_cell [of g "get_halo_cells g" "ktop + 1"
        "\<lambda>c v. if itype (at_cell c) \<noteq> 1 then 0 else v" x k j i]
    by (auto simp: masked_def)
  then show "fst (mask_history g ktop itype (now, prev)) (0, k, j, i) = masked g ktop itype now (0, k, j, i)"
    "snd (mask_history g ktop itype (now, prev)) (0, k, j, i) = masked g ktop itype prev (0, k, j, i)"
    by (simp_all add: mask_history_eq Let_def)
qed

definition active :: "grid \<Rightarrow> string \<Rightarrow> int \<Rightarrow> bool" where
  "active g name k \<longleftrightarrow>
     (if name = ''zeta'' then k = get_local_total_points_z g - get_halo_cells g - 1
      else get_halo_cells g \<le> k \<and> k < k_end g name)"

definition terrain_mask :: "terrain \<Rightarrow> string \<Rightarrow> view" where
  "terrain_mask t name = (if name = ''xi'' then itypev t else if name = ''eta'' then itypeu t else itypew t)"

text \<open>The two history arrays in the roles a step gives them, and what the mask leaves of them.\<close>

definition history :: "bool \<Rightarrow> 64 word \<Rightarrow> prognostic \<Rightarrow> view" where
  "history current step s = (if (step mod 2 = 0) = current then hist_0 s else hist_1 s)"

lemma parity_word: "(step :: 64 word) mod 2 = 0 \<longleftrightarrow> (step + 1) mod 2 \<noteq> 0"
proof -
  have "(step mod 2 = 0) = even step" "((step + 1) mod 2 = 0) = even (step + 1)"
    by (simp_all add: even_iff_mod_2_eq_zero)
  moreover have "even (step + 1) = odd step" by simp
  ultimately show ?thesis by simp
qed

lemma ab2_step_cells:
  assumes "has_ab2_terms I" and "var_m s = Some m"
  shows "\<exists>s'. step_single_stage I g t step dt s = Inr s' \<and> var_m s' = Some (var s) \<and>
    fe_tendency s' = fe_tendency s \<and>
    (\<forall>k j i. let c = (0, k, j, i); mask = masked g (max_topo_idx t) (terrain_mask t (variable_name I));
         now = mask (history True step s) c; prev = mask (history False step s) c in
       history True step s' c = now \<and> history False step s' c = prev \<and>
       var s' c =
         (if active g (variable_name I) k \<and> interior g j i
          then var s c + dt * (if step = 0 then now else 3 / 2 * now - 1 / 2 * prev) else m c) +
         (if has_fe_terms I \<and> get_halo_cells g \<le> k \<and> k < k_end g (variable_name I) \<and> interior g j i
          then dt * fe_tendency s c else 0))"
proof -
  let ?name = "variable_name I"
  let ?M = "mask_history g (max_topo_idx t) (terrain_mask t ?name) (history True step s, history False step s)"
  let ?now = "fst ?M" and ?prev = "snd ?M"
  let ?inc = "\<lambda>c. if step = 0 then dt * ?now c else dt * (3 / 2 * ?now c - 1 / 2 * ?prev c)"
  let ?new = "ab2_kernel g ?name (var s) m ?inc"
  let ?new' = "if has_fe_terms I then add_tendency g (get_halo_cells g) (k_end g ?name) dt (fe_tendency s) ?new
    else ?new"
  let ?s' = "s\<lparr>var := ?new', var_m := Some (var s),
    hist_0 := if step mod 2 = 0 then ?now else ?prev, hist_1 := if step mod 2 = 0 then ?prev else ?now\<rparr>"
  have roles: "(if step mod 2 = 0 then hist_0 s else hist_1 s) = history True step s"
    "(if (step + 1) mod 2 = 0 then hist_0 s else hist_1 s) = history False step s"
    using parity_word [of step] by (auto simp: history_def)
  have "step_single_stage I g t step dt s = Inr ?s'"
    unfolding step_single_stage_def Let_def roles terrain_mask_def [symmetric]
    using assms by (simp add: case_prod_beta)
  moreover have "history True step ?s' = ?now" "history False step ?s' = ?prev"
    by (simp_all add: history_def)
  moreover have "var ?s' (0, k, j, i) =
         (if active g ?name k \<and> interior g j i then var s (0, k, j, i) + ?inc (0, k, j, i) else m (0, k, j, i)) +
         (if has_fe_terms I \<and> get_halo_cells g \<le> k \<and> k < k_end g ?name \<and> interior g j i
          then dt * fe_tendency s (0, k, j, i) else 0)" for k j i
    by (simp add: add_tendency_cell ab2_kernel_cell active_def del: fun_upd_apply)
  ultimately show ?thesis
    by (intro exI [of _ ?s']) (simp add: Let_def mask_history_cell)
qed

section \<open>A run of AB2 steps\<close>

text \<open>The tendency of step \<open>n\<close> is computed from the state, stored in its history array, and the variable is
  advanced; the counter is the low 64 bits of \<open>n\<close>.\<close>

primrec ab2_run ::
  "'m time_integrator \<Rightarrow> grid \<Rightarrow> terrain \<Rightarrow> real \<Rightarrow> (nat \<Rightarrow> prognostic \<Rightarrow> view) \<Rightarrow> prognostic \<Rightarrow> nat \<Rightarrow>
     integration_error + prognostic" where
  "ab2_run I g t dt tend s0 0 = Inr s0"
| "ab2_run I g t dt tend s0 (Suc n) =
     rbind (ab2_run I g t dt tend s0 n) (\<lambda>s.
       step_state I g t (of_nat n) dt (calculate_tendencies [\<lambda>h c. h c + tend n s c] [] (of_nat n) s))"

text \<open>A cell the AB2 kernel advances, at which the terrain masks nothing.\<close>

definition free_cell :: "grid \<Rightarrow> terrain \<Rightarrow> string \<Rightarrow> int \<Rightarrow> int \<Rightarrow> int \<Rightarrow> bool" where
  "free_cell g t name k j i \<longleftrightarrow> active g name k \<and> interior g j i \<and>
     (terrain_mask t name (0, k, j, i) = 1 \<or> max_topo_idx t < k)"

lemma masked_free: "free_cell g t name k j i \<Longrightarrow>
    masked g (max_topo_idx t) (terrain_mask t name) h (0, k, j, i) = h (0, k, j, i)"
  by (auto simp: masked_def free_cell_def)

lemma history_calculate:
  "history True step (calculate_tendencies [\<lambda>h c. h c + f c] [] step s) = f"
  "history False step (calculate_tendencies [\<lambda>h c. h c + f c] [] step s) = history False step s"
  "var (calculate_tendencies [\<lambda>h c. h c + f c] [] step s) = var s"
  "var_m (calculate_tendencies [\<lambda>h c. h c + f c] [] step s) = var_m s"
  by (simp_all add: calculate_tendencies_def history_def)

lemma history_swap: "history False (step + 1) s = history True step s"
  using parity_word [of step] by (auto simp: history_def)

lemma ab2_run_step:
  assumes "has_ab2_terms I" and "\<not> has_fe_terms I" and "multistage_scheme I = None"
    and "ab2_run I g t dt tend s0 n = Inr s" and "var_m s = Some m" and "free_cell g t (variable_name I) k j i"
  shows "\<exists>s'. ab2_run I g t dt tend s0 (Suc n) = Inr s' \<and> var_m s' = Some (var s) \<and>
    history True (of_nat n) s' (0, k, j, i) = tend n s (0, k, j, i) \<and>
    var s' (0, k, j, i) = var s (0, k, j, i) + dt *
      (if (of_nat n :: 64 word) = 0 then tend n s (0, k, j, i)
       else 3 / 2 * tend n s (0, k, j, i) - 1 / 2 * history False (of_nat n) s (0, k, j, i))"
proof -
  let ?s = "calculate_tendencies [\<lambda>h c. h c + tend n s c] [] (of_nat n) s"
  have "var_m ?s = Some m" using assms(5) by (simp add: history_calculate)
  from ab2_step_cells [OF assms(1) this, of g t "of_nat n" dt]
  obtain s' where "step_single_stage I g t (of_nat n) dt ?s = Inr s'" "var_m s' = Some (var s)"
    and "\<And>k j i. let c = (0, k, j, i);
          mask = masked g (max_topo_idx t) (terrain_mask t (variable_name I));
          now = mask (history True (of_nat n) ?s) c; prev = mask (history False (of_nat n) ?s) c in
       history True (of_nat n) s' c = now \<and> history False (of_nat n) s' c = prev \<and>
       var s' c =
         (if active g (variable_name I) k \<and> interior g j i
          then var ?s c + dt * (if (of_nat n :: 64 word) = 0 then now else 3 / 2 * now - 1 / 2 * prev) else m c) +
         (if has_fe_terms I \<and> get_halo_cells g \<le> k \<and> k < k_end g (variable_name I) \<and> interior g j i
          then dt * fe_tendency ?s c else 0)"
    by (auto simp: history_calculate(3))
  note this(1,2) and cell = this(3) [of k j i, unfolded Let_def]
  then show ?thesis
    using assms(2,3,4,6) by (simp add: step_state_def history_calculate masked_free) (simp add: free_cell_def)
qed

text \<open>C22. The swapped storage and the two alternating history arrays implement the Adams-Bashforth
  recurrence: at a cell without terrain every run from step 0 exists, its first step is a forward Euler step, and each later
  one combines the tendency of the step with that of the step before, as long as the step counter does not wrap.\<close>

theorem ab2_run_is_adams_bashforth:
  assumes "has_ab2_terms I" and "\<not> has_fe_terms I" and "multistage_scheme I = None"
    and "var_m s0 = Some m" and "free_cell g t (variable_name I) k j i" and "Suc n < 2 ^ 64"
  defines "c \<equiv> (0, k, j, i)"
  shows "\<exists>r s s' s''. ab2_run I g t dt tend s0 1 = Inr r \<and> var r c = var s0 c + dt * tend 0 s0 c \<and>
    ab2_run I g t dt tend s0 n = Inr s \<and> ab2_run I g t dt tend s0 (Suc n) = Inr s' \<and>
    ab2_run I g t dt tend s0 (Suc (Suc n)) = Inr s'' \<and>
    var s'' c = var s' c + dt * (3 / 2 * tend (Suc n) s' c - 1 / 2 * tend n s c)"
proof -
  note step = ab2_run_step [OF assms(1-3) _ _ assms(5), of dt tend s0]
  have runs: "\<exists>s m. ab2_run I g t dt tend s0 n = Inr s \<and> var_m s = Some m" for n
  proof (induction n)
    case 0
    then show ?case using assms(4) by simp
  next
    case (Suc n)
    then show ?case using step [of n] by blast
  qed
  obtain s m' where s: "ab2_run I g t dt tend s0 n = Inr s" "var_m s = Some m'" using runs by blast
  obtain s' where s': "ab2_run I g t dt tend s0 (Suc n) = Inr s'" "var_m s' = Some (var s)"
    "history True (of_nat n) s' c = tend n s c"
    using step [OF s] unfolding c_def by blast
  have "(of_nat (Suc n) :: 64 word) \<noteq> 0"
    using assms(6) by (simp add: word_of_nat_eq_0_iff nat_dvd_not_less del: of_nat_Suc)
  moreover have "history False (of_nat (Suc n)) s' c = tend n s c"
    using s'(3) history_swap [of "of_nat n" s'] by (simp add: add.commute)
  ultimately obtain s'' where "ab2_run I g t dt tend s0 (Suc (Suc n)) = Inr s''"
    "var s'' c = var s' c + dt * (3 / 2 * tend (Suc n) s' c - 1 / 2 * tend n s c)"
    using step [OF s'(1,2)] unfolding c_def by auto
  moreover obtain r where "ab2_run I g t dt tend s0 1 = Inr r" "var r c = var s0 c + dt * tend 0 s0 c"
    using step [of 0, OF _ assms(4)] unfolding c_def by auto
  ultimately show ?thesis using s(1) s'(1) by blast
qed

definition sample_prognostic :: prognostic where
  "sample_prognostic = \<lparr>var = (\<lambda>_. 0), var_m = Some (\<lambda>_. 7), hist_0 = (\<lambda>_. 0), hist_1 = (\<lambda>_. 0),
     fe_tendency = (\<lambda>_. 0)\<rparr>"

definition sample_terrain :: terrain where
  "sample_terrain = \<lparr>itypeu = (\<lambda>_. 1), itypev = (\<lambda>_. 1), itypew = (\<lambda>_. 1), max_topo_idx = 0\<rparr>"

definition sample_integrator :: "unit time_integrator" where
  "sample_integrator = \<lparr>variable_name = ''th'', has_ab2_terms = True, has_fe_terms = False,
     multistage_scheme = None\<rparr>"

text \<open>Tendencies 1 and 3 with a time step of 1: the values are 0, 1 and \<open>1 + (9/2 - 1/2) = 5\<close>.\<close>

lemma ab2_run_is_adams_bashforth_witness:
  "\<exists>s. ab2_run sample_integrator (distributed (sample_grid 3 3) (1, 1) (0, 0)) sample_terrain 1
     (\<lambda>n s c. 2 * of_nat n + 1) sample_prognostic 2 = Inr s \<and> var s (0, 3, 2, 2) = 5"
proof -
  let ?g = "distributed (sample_grid 3 3) (1, 1) (0, 0)"
  have free: "free_cell ?g sample_terrain (variable_name sample_integrator) 3 2 2"
    by (simp add: free_cell_def active_def interior_def k_end_def sample_integrator_def sample_terrain_def
        terrain_mask_def sample_extents)
  have s0: "var_m sample_prognostic = Some (\<lambda>_. 7)" by (simp add: sample_prognostic_def)
  let ?run = "ab2_run sample_integrator ?g sample_terrain 1 (\<lambda>n s c. 2 * of_nat n + 1) sample_prognostic"
  obtain r s s' s'' where "?run 1 = Inr r" "var r (0, 3, 2, 2) = 1" "?run (Suc 0) = Inr s'"
    "?run (Suc (Suc 0)) = Inr s''" "var s'' (0, 3, 2, 2) = var s' (0, 3, 2, 2) + 1 * (3 / 2 * 3 - 1 / 2 * 1)"
    using ab2_run_is_adams_bashforth [OF _ _ _ s0 free, of 0 1 "\<lambda>n s c. 2 * of_nat n + 1"]
    by (auto simp: sample_integrator_def sample_prognostic_def simp del: ab2_run.simps)
  then show ?thesis by (simp add: numeral_2_eq_2 del: ab2_run.simps)
qed

section \<open>SSPRK2\<close>

definition inner :: "grid \<Rightarrow> cell \<Rightarrow> bool" where
  "inner g = (\<lambda>(w, k, j, i). w = 0 \<and> get_halo_cells g \<le> k \<and>
     k < get_local_total_points_z g - get_halo_cells g \<and> interior g j i)"

lemma physical_update_inner:
  "parallel_for (physical_cells g (get_halo_cells g) (get_local_total_points_z g - get_halo_cells g))
     (assign at_cell (\<lambda>c d. F (at_cell c))) d = (\<lambda>c. if inner g c then F c else d c)"
proof
  fix c :: cell
  obtain w k j i where c: "c = (w, k, j, i)" by (cases c rule: prod_cases4)
  show "parallel_for (physical_cells g (get_halo_cells g) (get_local_total_points_z g - get_halo_cells g))
     (assign at_cell (\<lambda>c d. F (at_cell c))) d c = (if inner g c then F c else d c)"
  proof (cases "w = 0")
    case True
    then show ?thesis
      using physical_update_cell [of g "get_halo_cells g" "get_local_total_points_z g - get_halo_cells g"
          "\<lambda>c v. F (at_cell c)" d k j i]
      by (simp add: c inner_def)
  next
    case False
    then show ?thesis
      unfolding c by (subst parallel_for_frame) (auto simp: at_cell_def inner_def)
  qed
qed

lemma ssprk2_stages:
  "ssprk2_advance g rhs dt 0 (q, m) =
     Inr (\<lambda>c. if inner g c then original m c + dt * rhs c else q c,
       m\<lparr>stage_one := \<lambda>c. if inner g c then original m c + dt * rhs c else stage_one m c\<rparr>)"
  "ssprk2_advance g rhs dt 1 (q, m) =
     Inr (\<lambda>c. if inner g c then 1 / 2 * original m c + 1 / 2 * (stage_one m c + dt * rhs c) else q c, m)"
proof -
  note inner = physical_update_inner [where F = "\<lambda>c. original m c + dt * rhs c" and g = g,
      unfolded assign_def [abs_def]]
  show "ssprk2_advance g rhs dt 0 (q, m) =
     Inr (\<lambda>c. if inner g c then original m c + dt * rhs c else q c,
       m\<lparr>stage_one := \<lambda>c. if inner g c then original m c + dt * rhs c else stage_one m c\<rparr>)"
    unfolding ssprk2_advance_def Let_def prod.case parallel_for_pair inner by simp
  show "ssprk2_advance g rhs dt 1 (q, m) =
     Inr (\<lambda>c. if inner g c then 1 / 2 * original m c + 1 / 2 * (stage_one m c + dt * rhs c) else q c, m)"
    using physical_update_inner [where F = "\<lambda>c. 1 / 2 * original m c + 1 / 2 * (stage_one m c + dt * rhs c)" and g = g]
    by (simp add: ssprk2_advance_def Let_def)
qed

lemma ssprk2_step:
  assumes "multistage_scheme I = Some ssprk2" and "q = var (fst s)"
    and "ev dt q = Inr r0" and "p = P (\<lambda>c. if inner g c then q c + dt * r0 c else q c)" and "ev dt p = Inr r1"
  shows "\<exists>m. step_multistage I g t step dt (Some ev) (Some P) s =
    Inr ((fst s)\<lparr>var := P (\<lambda>c. if inner g c then 1 / 2 * q c + 1 / 2 * (q c + dt * r0 c + dt * r1 c) else p c)\<rparr>, m)"
proof -
  have stages: "range1 0 2 = [0, 1]" by (simp add: range1_def upto_rec1)
  have "(\<lambda>c. if inner g c then 1 / 2 * q c +
      1 / 2 * ((if inner g c then q c + dt * r0 c else x c) + dt * r1 c) else p c) =
    (\<lambda>c. if inner g c then 1 / 2 * q c + 1 / 2 * (q c + dt * r0 c + dt * r1 c) else p c)" for x
    by (simp add: fun_eq_iff)
  then show ?thesis
    using assms(1,3,5)
    by (simp add: step_multistage_def ssprk2_def stages ssprk2_stages [simplified] Let_def assms(2) [symmetric]
        assms(4) [symmetric] cong: if_cong)
qed

lemma midpoint: "lo \<le> a \<and> a \<le> hi \<Longrightarrow> lo \<le> b \<and> b \<le> hi \<Longrightarrow> lo \<le> (a + b) / 2 \<and> (a + b) / 2 \<le> hi"
  for a b :: real
  by auto

text \<open>The cells the stage processor overwrites, and what it writes there.\<close>

definition solid_cell :: "grid \<Rightarrow> terrain \<Rightarrow> cell \<Rightarrow> bool" where
  "solid_cell g t = (\<lambda>(w, k, j, i). w = 0 \<and> get_halo_cells g \<le> k \<and> k \<le> max_topo_idx t \<and> interior g j i \<and>
     itypew t (w, k, j, i) \<noteq> 1)"

definition solid_value :: "bool \<Rightarrow> (int \<Rightarrow> real) \<Rightarrow> cell \<Rightarrow> real" where
  "solid_value is_th thbar = (\<lambda>(w, k, j, i). if is_th then thbar k else 0)"

lemma topographic_mask_cell:
  "apply_topographic_mask g t is_th thbar q c = (if solid_cell g t c then solid_value is_th thbar c else q c)"
proof -
  obtain w k j i where c: "c = (w, k, j, i)" by (cases c rule: prod_cases4)
  show ?thesis
  proof (cases "w = 0")
    case True
    then show ?thesis
      using physical_update_cell [of g "get_halo_cells g" "max_topo_idx t + 1"
          "\<lambda>c v. if itypew t (at_cell c) \<noteq> 1 then (if is_th then thbar (fst c) else 0) else v" q k j i]
      by (auto simp: c apply_topographic_mask_def solid_cell_def solid_value_def)
  next
    case False
    then show ?thesis
      unfolding c apply_topographic_mask_def by (subst parallel_for_frame) (auto simp: at_cell_def solid_cell_def)
  qed
qed

definition in_bounds :: "real \<Rightarrow> real \<Rightarrow> view \<Rightarrow> bool" where
  "in_bounds lo hi q \<longleftrightarrow> (\<forall>c. lo \<le> q c \<and> q c \<le> hi)"

lemma in_boundsI: "(\<And>c. lo \<le> q c \<and> q c \<le> hi) \<Longrightarrow> in_bounds lo hi q"
  unfolding in_bounds_def by blast

lemma in_boundsD: "in_bounds lo hi q \<Longrightarrow> lo \<le> q c \<and> q c \<le> hi"
  unfolding in_bounds_def by blast

text \<open>The halo exchange and the boundary conditions write outside the physical cells, values in the interval.\<close>

definition fills_bounded :: "grid \<Rightarrow> real \<Rightarrow> real \<Rightarrow> (view \<Rightarrow> view) \<Rightarrow> bool" where
  "fills_bounded g lo hi f \<longleftrightarrow>
     (\<forall>q. (\<forall>c. inner g c \<longrightarrow> f q c = q c) \<and> (in_bounds lo hi q \<longrightarrow> in_bounds lo hi (f q)))"

lemma fills_boundedD:
  assumes "fills_bounded g lo hi f"
  shows "inner g c \<Longrightarrow> f q c = q c" and "in_bounds lo hi q \<Longrightarrow> in_bounds lo hi (f q)"
  using assms unfolding fills_bounded_def by blast+

lemma stage_processor_bounds:
  assumes fills: "fills_bounded g lo hi ex" "fills_bounded g lo hi hb" "fills_bounded g lo hi vb"
    and solid: "\<And>c. solid_cell g t c \<Longrightarrow> lo \<le> solid_value is_th thbar c \<and> solid_value is_th thbar c \<le> hi"
    and q: "\<And>c. \<not> solid_cell g t c \<Longrightarrow> lo \<le> q c \<and> q c \<le> hi"
  shows "in_bounds lo hi (process_stage_field g t is_th thbar ex hb vb q)"
    and "inner g c \<Longrightarrow> process_stage_field g t is_th thbar ex hb vb q c =
      (if solid_cell g t c then solid_value is_th thbar c else q c)"
proof -
  have "in_bounds lo hi (apply_topographic_mask g t is_th thbar q)"
    by (rule in_boundsI) (use solid q in \<open>simp add: topographic_mask_cell\<close>)
  then show "in_bounds lo hi (process_stage_field g t is_th thbar ex hb vb q)"
    unfolding process_stage_field_def by (intro fills [THEN fills_boundedD(2)])
  show "inner g c \<Longrightarrow> process_stage_field g t is_th thbar ex hb vb q c =
      (if solid_cell g t c then solid_value is_th thbar c else q c)"
    by (simp add: process_stage_field_def fills [THEN fills_boundedD(1)] topographic_mask_cell)
qed

text \<open>C23. Strong stability over terrain: let every evaluation of the tendency at values in an interval succeed and give a
  forward Euler step of length \<open>dt\<close> that stays in the interval at the physical cells that are not solid, let the value
  the stage processor writes in solid cells (the base state of \<open>th\<close>, zero otherwise) lie in it, and let the halo
  exchange and the boundary conditions change no physical cell and write values of the interval.  Then an SSPRK2 step
  from values in the interval returns, with all values in it.\<close>

theorem ssprk2_keeps_bounds:
  assumes "multistage_scheme I = Some ssprk2"
    and "\<And>q. in_bounds lo hi q \<Longrightarrow> \<exists>r. ev dt q = Inr r \<and>
      (\<forall>c. inner g c \<and> \<not> solid_cell g t c \<longrightarrow> lo \<le> q c + dt * r c \<and> q c + dt * r c \<le> hi)"
    and "\<And>c. solid_cell g t c \<Longrightarrow> lo \<le> solid_value is_th thbar c \<and> solid_value is_th thbar c \<le> hi"
    and "fills_bounded g lo hi ex" and "fills_bounded g lo hi hb" and "fills_bounded g lo hi vb"
    and "in_bounds lo hi (var (fst s))"
  shows "\<exists>s'. step_multistage I g t step dt (Some ev) (Some (process_stage_field g t is_th thbar ex hb vb)) s = Inr s' \<and>
    in_bounds lo hi (var (fst s'))"
proof -
  let ?q = "var (fst s)" and ?P = "process_stage_field g t is_th thbar ex hb vb"
  note bounds = stage_processor_bounds [OF assms(4-6) assms(3)]
  obtain r0 where r0: "ev dt ?q = Inr r0"
    and e0: "\<And>c. inner g c \<Longrightarrow> \<not> solid_cell g t c \<Longrightarrow> lo \<le> ?q c + dt * r0 c \<and> ?q c + dt * r0 c \<le> hi"
    using assms(2) [OF assms(7)] by blast
  let ?q1 = "\<lambda>c. if inner g c then ?q c + dt * r0 c else ?q c"
  let ?p = "?P ?q1"
  have q1: "lo \<le> ?q1 c \<and> ?q1 c \<le> hi" if "\<not> solid_cell g t c" for c
    using e0 [OF _ that] in_boundsD [OF assms(7), of c] by (cases "inner g c") simp_all
  have p: "in_bounds lo hi ?p" by (rule bounds(1) [OF _ q1])
  obtain r1 where r1: "ev dt ?p = Inr r1"
    and e1: "\<And>c. inner g c \<Longrightarrow> \<not> solid_cell g t c \<Longrightarrow> lo \<le> ?p c + dt * r1 c \<and> ?p c + dt * r1 c \<le> hi"
    using assms(2) [OF p] by blast
  let ?r = "\<lambda>c. if inner g c then 1 / 2 * ?q c + 1 / 2 * (?q c + dt * r0 c + dt * r1 c) else ?p c"
  have r: "lo \<le> ?r c \<and> ?r c \<le> hi" if c: "\<not> solid_cell g t c" for c
  proof (cases "inner g c")
    case True
    then have "?p c = ?q c + dt * r0 c" using bounds(2) [OF _ q1 True] c by simp
    then have eq: "?r c = (?q c + (?p c + dt * r1 c)) / 2" using True by simp
    show ?thesis unfolding eq by (rule midpoint [OF in_boundsD [OF assms(7)] e1 [OF True c]])
  next
    case False
    then show ?thesis using in_boundsD [OF p, of c] by simp
  qed
  have "in_bounds lo hi (var ((fst s)\<lparr>var := ?P ?r\<rparr>))" using bounds(1) [OF _ r] by simp
  moreover obtain m where "step_multistage I g t step dt (Some ev) (Some ?P) s = Inr ((fst s)\<lparr>var := ?P ?r\<rparr>, m)"
    using ssprk2_step [where s = s and P = ?P and q = ?q and p = ?p and g = g and ev = ev and dt = dt and t = t and step = step, OF assms(1) refl r0 refl r1] by (elim exE)
  ultimately show ?thesis by (intro exI [of _ "((fst s)\<lparr>var := ?P ?r\<rparr>, m)"]) (simp only: fst_conv simp_thms)
qed

definition sample_ssprk2 :: "ssprk2_state time_integrator" where
  "sample_ssprk2 = \<lparr>variable_name = ''qv'', has_ab2_terms = False, has_fe_terms = False,
     multistage_scheme = Some ssprk2\<rparr>"

definition sample_hill :: terrain where
  "sample_hill = \<lparr>itypeu = (\<lambda>_. 1), itypev = (\<lambda>_. 1), itypew = (\<lambda>(w, k, j, i). if k = 2 \<and> j = 3 then 0 else 1),
     max_topo_idx = 2\<rparr>"

text \<open>Decay at rate 1 with a time step of 1 over a hill of one layer, with boundary conditions that write zero in the
  cells that are not physical.\<close>

lemma ssprk2_keeps_bounds_witness:
  "\<exists>s'. step_multistage sample_ssprk2 (sample_grid 3 3) sample_hill 5 1 (Some (\<lambda>dt q. Inr (\<lambda>c. - q c)))
     (Some (process_stage_field (sample_grid 3 3) sample_hill False (\<lambda>_. 300) (\<lambda>q. q)
       (\<lambda>q c. if inner (sample_grid 3 3) c then q c else 0) (\<lambda>q. q)))
     (sample_prognostic\<lparr>var := \<lambda>_. 1\<rparr>, \<lparr>original = \<lambda>_. 0, stage_one = \<lambda>_. 0\<rparr>) = Inr s' \<and>
     in_bounds 0 1 (var (fst s'))"
  by (rule ssprk2_keeps_bounds)
     (auto simp: sample_ssprk2_def solid_value_def fills_bounded_def in_bounds_def split: prod.splits)

end
