(* ===== verification/Muscl.thy ===== *)
theory Muscl
  imports Time_Integration
begin

text \<open>
  \<open>dynamics/spatial_schemes/MUSCL\<close>: the flux-limited transport of a scalar.  A kernel reads and writes
  arrays over the cells \<open>(k, j, i)\<close> of the process; \<open>rhobar\<close>, the terrain masks, the mass fluxes and the
  metric of the grid are the record \<open>transport\<close>.  Real numbers stand for \<open>VVM::Real\<close>.
\<close>

type_synonym volume = "int \<times> int \<times> int \<Rightarrow> real"

section \<open>The code\<close>

datatype advection_error = Wrong_variable | Invalid_stage_timestep

record transport =
  mass_x :: volume
  mass_y :: volume
  mass_z :: volume
  rhobar :: "int \<Rightarrow> real"
  fluid :: volume
  face_x :: volume
  face_y :: volume
  flex_height_coef_mid :: "int \<Rightarrow> real"
  flex_height_coef_up :: "int \<Rightarrow> real"
  z_mid :: "int \<Rightarrow> real"
  z_up :: "int \<Rightarrow> real"
  rdx :: real
  rdy :: real
  rdz :: real
  cartesian :: bool
  sqrt_g_u :: "int \<times> int \<Rightarrow> real"
  sqrt_g_v :: "int \<times> int \<Rightarrow> real"
  inv_sqrt_g :: "int \<times> int \<Rightarrow> real"
  rdq1 :: real
  rdq2 :: real

subsection \<open>Limiters\<close>

text \<open>\<open>std::numeric_limits<Real>::epsilon\<close>, written out in the source for the two precisions.\<close>

definition machine_epsilon :: "bool \<Rightarrow> real" where
  "machine_epsilon double_precision =
     (if double_precision then 22204460492503130808472633361816 / 10 ^ 47 else 11920928955078125 / 10 ^ 23)"

definition van_leer_slope :: "real \<Rightarrow> real \<Rightarrow> real" where
  "van_leer_slope backward forward =
     (let both_positive = backward > 0 \<and> forward > 0; both_negative = backward < 0 \<and> forward < 0 in
      if \<not> both_positive \<and> \<not> both_negative then 0
      else
        (let abs_backward = \<bar>backward\<bar>; abs_forward = \<bar>forward\<bar>;
             lo = (if abs_backward < abs_forward then abs_backward else abs_forward);
             hi = (if abs_backward < abs_forward then abs_forward else abs_backward) in
         if hi \<le> 0 then 0
         else (let magnitude = 2 * lo / (1 + lo / hi) in if backward > 0 then magnitude else - magnitude)))"

text \<open>The loop over the six face values: \<open>None\<close> is its early return of zero.\<close>

fun limit_faces :: "real \<Rightarrow> real \<Rightarrow> real list \<Rightarrow> real \<Rightarrow> real option" where
  "limit_faces q lb [] \<theta> = Some \<theta>"
| "limit_faces q lb (face # faces) \<theta> =
     (if face < lb then
        (let denominator = q - face in
         if denominator \<le> 0 then None
         else (let candidate = (q - lb) / denominator
               in limit_faces q lb faces (if candidate < \<theta> then candidate else \<theta>)))
      else limit_faces q lb faces \<theta>)"

definition reconstructed_state_factor_from_deviations ::
  "real \<Rightarrow> real \<Rightarrow> real \<Rightarrow> real \<Rightarrow> real \<Rightarrow> real \<Rightarrow> real \<Rightarrow> real \<Rightarrow> real" where
  "reconstructed_state_factor_from_deviations q lb dxm dxp dym dyp dzm dzp =
     (case limit_faces q lb [q + dxm, q + dxp, q + dym, q + dyp, q + dzm, q + dzp] 1 of
        None \<Rightarrow> 0
      | Some \<theta> \<Rightarrow> if \<theta> < 0 then 0 else if \<theta> > 1 then 1 else \<theta>)"

definition donor_outflow_factor :: "bool \<Rightarrow> real \<Rightarrow> real \<Rightarrow> real" where
  "donor_outflow_factor dp available outgoing_depletion =
     (let tolerance = 64 * machine_epsilon dp * (\<bar>available\<bar> + 1) in
      if outgoing_depletion \<le> tolerance then 1
      else if available \<le> 0 then 0
      else (let ratio = available / outgoing_depletion in if ratio < 1 then ratio else 1))"

subsection \<open>Kernels\<close>

text \<open>The kernel range that reaches one cell into the horizontal halo.\<close>

definition expanded_cells :: "grid \<Rightarrow> (int \<times> int \<times> int) list" where
  "expanded_cells g =
     (let h = get_halo_cells g in
      mdrange3 h (h - 1) (h - 1) (get_local_total_points_z g - h)
        (get_local_total_points_y g - h + 1) (get_local_total_points_x g - h + 1))"

definition slopes_at :: "transport \<Rightarrow> real \<Rightarrow> volume \<Rightarrow> int \<times> int \<times> int \<Rightarrow> real \<times> real \<times> real" where
  "slopes_at T lb q = (\<lambda>(k, j, i).
     (let slope_x =
            (if fluid T (k, j, i - 1) = 1 \<and> fluid T (k, j, i + 1) = 1
             then van_leer_slope (q (k, j, i) - q (k, j, i - 1)) (q (k, j, i + 1) - q (k, j, i)) else 0);
          slope_y =
            (if fluid T (k, j - 1, i) = 1 \<and> fluid T (k, j + 1, i) = 1
             then van_leer_slope (q (k, j, i) - q (k, j - 1, i)) (q (k, j + 1, i) - q (k, j, i)) else 0);
          backward_spacing = z_mid T k - z_mid T (k - 1);
          forward_spacing = z_mid T (k + 1) - z_mid T k;
          slope_z =
            (if fluid T (k - 1, j, i) = 1 \<and> fluid T (k + 1, j, i) = 1 \<and>
                backward_spacing > 0 \<and> forward_spacing > 0
             then van_leer_slope ((q (k, j, i) - q (k - 1, j, i)) / backward_spacing)
                    ((q (k + 1, j, i) - q (k, j, i)) / forward_spacing) else 0);
          \<theta> = reconstructed_state_factor_from_deviations (q (k, j, i)) lb
                (- (1 / 2 * slope_x)) (1 / 2 * slope_x) (- (1 / 2 * slope_y)) (1 / 2 * slope_y)
                (slope_z * (z_up T (k - 1) - z_mid T k)) (slope_z * (z_up T k - z_mid T k))
      in (\<theta> * slope_x, \<theta> * slope_y, \<theta> * slope_z)))"

definition reconstruct :: "grid \<Rightarrow> transport \<Rightarrow> real \<Rightarrow> volume \<Rightarrow> volume \<times> volume \<times> volume" where
  "reconstruct g T lb q =
     parallel_for (expanded_cells g)
       (\<lambda>c (sx, sy, sz).
          if fluid T c \<noteq> 1 then (sx, sy, sz)
          else (case slopes_at T lb q c of (x, y, z) \<Rightarrow> (sx(c := x), sy(c := y), sz(c := z))))
       (\<lambda>_. 0, \<lambda>_. 0, \<lambda>_. 0)"

text \<open>The metric of the faces of a cell, divided by that of the cell.\<close>

definition weight_x :: "transport \<Rightarrow> int \<Rightarrow> int \<Rightarrow> int \<Rightarrow> real" where
  "weight_x T j i f = (if cartesian T then rdx T else sqrt_g_u T (j, f) * inv_sqrt_g T (j, i) * rdq1 T)"

definition weight_y :: "transport \<Rightarrow> int \<Rightarrow> int \<Rightarrow> int \<Rightarrow> real" where
  "weight_y T j i f = (if cartesian T then rdy T else sqrt_g_v T (f, i) * inv_sqrt_g T (j, i) * rdq2 T)"

definition outgoing_rate ::
  "grid \<Rightarrow> transport \<Rightarrow> real \<Rightarrow> volume \<Rightarrow> volume \<times> volume \<times> volume \<Rightarrow> int \<times> int \<times> int \<Rightarrow> real" where
  "outgoing_rate g T lb q = (\<lambda>(sx, sy, sz) (k, j, i).
     (let h = get_halo_cells g; nz = get_local_total_points_z g; excess = q (k, j, i) - lb;
          rxm = excess - 1 / 2 * sx (k, j, i); rxp = excess + 1 / 2 * sx (k, j, i);
          rym = excess - 1 / 2 * sy (k, j, i); ryp = excess + 1 / 2 * sy (k, j, i);
          rzm = excess + sz (k, j, i) * (z_up T (k - 1) - z_mid T k);
          rzp = excess + sz (k, j, i) * (z_up T k - z_mid T k);
          r1 = (if face_x T (k, j, i) = 1 \<and> fluid T (k, j, i + 1) = 1 \<and> mass_x T (k, j, i) > 0
                then mass_x T (k, j, i) * rxp * weight_x T j i i else 0);
          r2 = (if face_x T (k, j, i - 1) = 1 \<and> fluid T (k, j, i - 1) = 1 \<and> mass_x T (k, j, i - 1) < 0
                then mass_x T (k, j, i - 1) * rxm * weight_x T j i (i - 1) else 0);
          r3 = (if face_y T (k, j, i) = 1 \<and> fluid T (k, j + 1, i) = 1 \<and> mass_y T (k, j, i) > 0
                then mass_y T (k, j, i) * ryp * weight_y T j i j else 0);
          r4 = (if face_y T (k, j - 1, i) = 1 \<and> fluid T (k, j - 1, i) = 1 \<and> mass_y T (k, j - 1, i) < 0
                then mass_y T (k, j - 1, i) * rym * weight_y T j i (j - 1) else 0);
          r5 = (if k < nz - h - 1 \<and> fluid T (k + 1, j, i) = 1 \<and> mass_z T (k, j, i) > 0
                then mass_z T (k, j, i) * rzp * rdz T * flex_height_coef_mid T k else 0);
          r6 = (if k > h \<and> fluid T (k - 1, j, i) = 1 \<and> mass_z T (k - 1, j, i) < 0
                then mass_z T (k - 1, j, i) * rzm * rdz T * flex_height_coef_mid T k else 0)
      in r1 - r2 + r3 - r4 + r5 - r6))"

definition donor_factors ::
  "bool \<Rightarrow> grid \<Rightarrow> transport \<Rightarrow> real \<Rightarrow> real \<Rightarrow> volume \<Rightarrow> volume \<times> volume \<times> volume \<Rightarrow> volume" where
  "donor_factors dp g T lb stage_dt q slopes =
     parallel_for (expanded_cells g)
       (\<lambda>c alpha.
          if fluid T c \<noteq> 1 then alpha(c := 1)
          else alpha(c := donor_outflow_factor dp (q c - lb)
                 (stage_dt * outgoing_rate g T lb q slopes c / rhobar T (fst c))))
       (\<lambda>_. 1)"

definition final_flux_x :: "grid \<Rightarrow> transport \<Rightarrow> real \<Rightarrow> volume \<Rightarrow> volume \<Rightarrow> volume \<Rightarrow> volume" where
  "final_flux_x g T lb q sx alpha =
     (let h = get_halo_cells g in
      parallel_for (mdrange3 h h (h - 1) (get_local_total_points_z g - h) (get_local_total_points_y g - h)
          (get_local_total_points_x g - h))
        (\<lambda>(k, j, i) fx.
           if \<not> (face_x T (k, j, i) = 1 \<and> fluid T (k, j, i) = 1 \<and> fluid T (k, j, i + 1) = 1) then fx((k, j, i) := 0)
           else
             (let mass = mass_x T (k, j, i); donor_i = (if mass \<ge> 0 then i else i + 1);
                  sign = (if mass \<ge> 0 then 1 / 2 else - 1 / 2);
                  reconstructed_excess = q (k, j, donor_i) - lb + sign * sx (k, j, donor_i)
              in fx((k, j, i) := mass * (lb + alpha (k, j, donor_i) * reconstructed_excess))))
        (\<lambda>_. 0))"

definition final_flux_y :: "grid \<Rightarrow> transport \<Rightarrow> real \<Rightarrow> volume \<Rightarrow> volume \<Rightarrow> volume \<Rightarrow> volume" where
  "final_flux_y g T lb q sy alpha =
     (let h = get_halo_cells g in
      parallel_for (mdrange3 h (h - 1) h (get_local_total_points_z g - h) (get_local_total_points_y g - h)
          (get_local_total_points_x g - h))
        (\<lambda>(k, j, i) fy.
           if \<not> (face_y T (k, j, i) = 1 \<and> fluid T (k, j, i) = 1 \<and> fluid T (k, j + 1, i) = 1) then fy((k, j, i) := 0)
           else
             (let mass = mass_y T (k, j, i); donor_j = (if mass \<ge> 0 then j else j + 1);
                  sign = (if mass \<ge> 0 then 1 / 2 else - 1 / 2);
                  reconstructed_excess = q (k, donor_j, i) - lb + sign * sy (k, donor_j, i)
              in fy((k, j, i) := mass * (lb + alpha (k, donor_j, i) * reconstructed_excess))))
        (\<lambda>_. 0))"

definition final_flux_z :: "grid \<Rightarrow> transport \<Rightarrow> real \<Rightarrow> volume \<Rightarrow> volume \<Rightarrow> volume \<Rightarrow> volume" where
  "final_flux_z g T lb q sz alpha =
     (let h = get_halo_cells g in
      parallel_for (mdrange3 h h h (get_local_total_points_z g - h - 1) (get_local_total_points_y g - h)
          (get_local_total_points_x g - h))
        (\<lambda>(k, j, i) fz.
           if \<not> (fluid T (k, j, i) = 1 \<and> fluid T (k + 1, j, i) = 1) then fz((k, j, i) := 0)
           else
             (let mass = mass_z T (k, j, i); donor_k = (if mass \<ge> 0 then k else k + 1);
                  reconstructed_excess =
                    q (donor_k, j, i) - lb + sz (donor_k, j, i) * (z_up T k - z_mid T donor_k)
              in fz((k, j, i) := mass * (lb + alpha (donor_k, j, i) * reconstructed_excess))))
        (\<lambda>_. 0))"

definition flux_divergence :: "grid \<Rightarrow> transport \<Rightarrow> volume \<Rightarrow> volume \<Rightarrow> volume \<Rightarrow> volume \<Rightarrow> volume" where
  "flux_divergence g T fx fy fz tendency =
     parallel_for (physical_cells g (get_halo_cells g) (get_local_total_points_z g - get_halo_cells g))
       (\<lambda>(k, j, i) t.
          if fluid T (k, j, i) \<noteq> 1 then t
          else if cartesian T then
            t((k, j, i) := t (k, j, i) + (- (fx (k, j, i) - fx (k, j, i - 1)) * rdx T -
                (fy (k, j, i) - fy (k, j - 1, i)) * rdy T -
                (fz (k, j, i) - fz (k - 1, j, i)) * rdz T * flex_height_coef_mid T k))
          else
            t((k, j, i) := t (k, j, i) - (inv_sqrt_g T (j, i) *
                ((sqrt_g_u T (j, i) * fx (k, j, i) - sqrt_g_u T (j, i - 1) * fx (k, j, i - 1)) * rdq1 T +
                 (sqrt_g_v T (j, i) * fy (k, j, i) - sqrt_g_v T (j - 1, i) * fy (k, j - 1, i)) * rdq2 T) +
                (fz (k, j, i) - fz (k - 1, j, i)) * rdz T * flex_height_coef_mid T k)))
       tendency"

definition calculate_advection_tendency ::
  "bool \<Rightarrow> grid \<Rightarrow> transport \<Rightarrow> string \<Rightarrow> real \<Rightarrow> string \<Rightarrow> real \<Rightarrow> volume \<Rightarrow> volume \<Rightarrow>
     advection_error + volume" where
  "calculate_advection_tendency dp g T name lb var_name stage_dt q tendency =
     rbind (throw_if (var_name \<noteq> name) Wrong_variable) (\<lambda>_.
     rbind (throw_if (\<not> stage_dt > 0) Invalid_stage_timestep) (\<lambda>_.
       let (sx, sy, sz) = reconstruct g T lb q;
           alpha = donor_factors dp g T lb stage_dt q (sx, sy, sz);
           fx = final_flux_x g T lb q sx alpha;
           fy = final_flux_y g T lb q sy alpha;
           fz = final_flux_z g T lb q sz alpha
       in Inr (flux_divergence g T fx fy fz tendency)))"

section \<open>What the kernels compute\<close>

subsection \<open>The limiters\<close>





text \<open>The harmonic mean: on two differences of one sign it is \<open>2 a b / (a + b)\<close>, and never more than
  twice the smaller one, so that the face values lie between the neighbouring averages.\<close>

lemma harmonic_mean: "0 < a \<Longrightarrow> 0 < b \<Longrightarrow> 2 * a / (1 + a / b) = 2 * a * b / (a + b)" for a b :: real
proof -
  assume "0 < a" "0 < b"
  then have "1 + a / b = (a + b) / b" by (simp add: add_divide_distrib)
  then show ?thesis by simp
qed

lemma van_leer_slope_pos: "0 < a \<Longrightarrow> 0 < b \<Longrightarrow> van_leer_slope a b = 2 * a * b / (a + b)"
  by (simp add: van_leer_slope_def Let_def harmonic_mean mult.commute mult.left_commute add.commute)

lemma van_leer_slope_neg: "a < 0 \<Longrightarrow> b < 0 \<Longrightarrow> van_leer_slope a b = - van_leer_slope (- a) (- b)"
  by (simp add: van_leer_slope_def Let_def)

lemma van_leer_slope_zero: "\<not> (0 < a \<and> 0 < b) \<Longrightarrow> \<not> (a < 0 \<and> b < 0) \<Longrightarrow> van_leer_slope a b = 0"
  by (auto simp: van_leer_slope_def Let_def)

lemma van_leer_slope_sym: "van_leer_slope a b = van_leer_slope b a"
  by (cases "0 < a \<and> 0 < b"; cases "a < 0 \<and> b < 0")
     (auto simp: van_leer_slope_pos van_leer_slope_neg van_leer_slope_zero mult.commute mult.left_commute add.commute)

lemma harmonic_bound: "0 < a \<Longrightarrow> 0 < b \<Longrightarrow> 0 \<le> 2 * a * b / (a + b) \<and> 2 * a * b / (a + b) \<le> 2 * a"
  for a b :: real
  by (auto simp: field_simps)

lemma van_leer_slope_bound:
  "0 < a \<Longrightarrow> 0 < b \<Longrightarrow> 0 \<le> van_leer_slope a b \<and> van_leer_slope a b \<le> 2 * a \<and> van_leer_slope a b \<le> 2 * b"
  using harmonic_bound [of a b] harmonic_bound [of b a]
  by (simp add: van_leer_slope_pos mult.commute mult.left_commute add.commute)

text \<open>The van Leer limiter creates no new extremum: the values reconstructed at the two faces of a
  cell lie between the average of the cell and that of the neighbour on the same side.\<close>

theorem van_leer_is_monotone:
  fixes left mid right :: real
  defines "s \<equiv> van_leer_slope (mid - left) (right - mid)"
  shows "min mid right \<le> mid + 1 / 2 * s \<and> mid + 1 / 2 * s \<le> max mid right \<and>
    min left mid \<le> mid - 1 / 2 * s \<and> mid - 1 / 2 * s \<le> max left mid \<and>
    van_leer_slope (right - mid) (mid - left) = s"
proof -
  consider (up) "left < mid" "mid < right" | (down) "mid < left" "right < mid"
    | (flat) "\<not> (left < mid \<and> mid < right)" "\<not> (mid < left \<and> right < mid)" by blast
  note cases = this
  have "min mid right \<le> mid + 1 / 2 * s \<and> mid + 1 / 2 * s \<le> max mid right \<and>
    min left mid \<le> mid - 1 / 2 * s \<and> mid - 1 / 2 * s \<le> max left mid"
    using cases
  proof cases
    case up
    then have "0 \<le> s \<and> s \<le> 2 * (mid - left) \<and> s \<le> 2 * (right - mid)"
      unfolding s_def by (intro van_leer_slope_bound) auto
    with up show ?thesis by simp
  next
    case down
    define s' where "s' = van_leer_slope (left - mid) (mid - right)"
    have "s = - s'" using down by (simp add: s_def s'_def van_leer_slope_neg)
    moreover have "0 \<le> s' \<and> s' \<le> 2 * (left - mid) \<and> s' \<le> 2 * (mid - right)"
      unfolding s'_def using down by (intro van_leer_slope_bound) auto
    ultimately show ?thesis using down by simp
  next
    case flat
    then have "s = 0" by (auto simp: s_def van_leer_slope_zero)
    then show ?thesis by simp
  qed
  then show ?thesis by (simp add: s_def van_leer_slope_sym [of "right - mid"])
qed



subsection \<open>The arrays after the kernels\<close>


definition slopes :: "grid \<Rightarrow> transport \<Rightarrow> real \<Rightarrow> volume \<Rightarrow> int \<times> int \<times> int \<Rightarrow> real \<times> real \<times> real" where
  "slopes g T lb q c =
     (if c \<in> set (expanded_cells g) \<and> fluid T c = 1 then slopes_at T lb q c else (0, 0, 0))"




definition alpha_at :: "bool \<Rightarrow> grid \<Rightarrow> transport \<Rightarrow> real \<Rightarrow> real \<Rightarrow> volume \<Rightarrow> volume" where
  "alpha_at dp g T lb dt q c =
     (if c \<in> set (expanded_cells g) \<and> fluid T c = 1
      then donor_outflow_factor dp (q c - lb)
             (dt * outgoing_rate g T lb q (reconstruct g T lb q) c / rhobar T (fst c))
      else 1)"

lemma donor_factors_eq: "donor_factors dp g T lb dt q (reconstruct g T lb q) = alpha_at dp g T lb dt q"
  unfolding donor_factors_def pointwise_kernel2 by (auto simp: alpha_at_def fun_eq_iff)


definition open_x :: "transport \<Rightarrow> int \<times> int \<times> int \<Rightarrow> bool" where
  "open_x T = (\<lambda>(k, j, i). face_x T (k, j, i) = 1 \<and> fluid T (k, j, i) = 1 \<and> fluid T (k, j, i + 1) = 1)"

definition open_y :: "transport \<Rightarrow> int \<times> int \<times> int \<Rightarrow> bool" where
  "open_y T = (\<lambda>(k, j, i). face_y T (k, j, i) = 1 \<and> fluid T (k, j, i) = 1 \<and> fluid T (k, j + 1, i) = 1)"

definition open_z :: "grid \<Rightarrow> transport \<Rightarrow> int \<times> int \<times> int \<Rightarrow> bool" where
  "open_z g T = (\<lambda>(k, j, i). get_halo_cells g \<le> k \<and> k < get_local_total_points_z g - get_halo_cells g - 1 \<and>
     fluid T (k, j, i) = 1 \<and> fluid T (k + 1, j, i) = 1)"

text \<open>The flux through an open face: the mass flux times the limited value of the donor cell, whose
  excess is \<open>r\<close> and factor \<open>a\<close> on the side of the lower index, \<open>r'\<close> and \<open>a'\<close> on the other.\<close>

definition upwind_flux :: "bool \<Rightarrow> real \<Rightarrow> real \<Rightarrow> real \<Rightarrow> real \<Rightarrow> real \<Rightarrow> real \<Rightarrow> real" where
  "upwind_flux is_open lb m a r a' r' =
     (if is_open then m * (lb + (if m \<ge> 0 then a * r else a' * r')) else 0)"

lemma pointwise_flux:
  "c \<in> set cells \<Longrightarrow>
     parallel_for cells (\<lambda>c f. if P c then f(c := e c) else f(c := v c)) f0 c = (if P c then e c else v c)"
  by (simp add: pointwise_kernel2)

lemma final_flux_x_cell:
  assumes "get_halo_cells g \<le> k" and "k < get_local_total_points_z g - get_halo_cells g"
    and "get_halo_cells g \<le> j" and "j < get_local_total_points_y g - get_halo_cells g"
    and "get_halo_cells g - 1 \<le> i" and "i < get_local_total_points_x g - get_halo_cells g"
  shows "final_flux_x g T lb q sx al (k, j, i) =
    upwind_flux (open_x T (k, j, i)) lb (mass_x T (k, j, i))
      (al (k, j, i)) (q (k, j, i) - lb + 1 / 2 * sx (k, j, i))
      (al (k, j, i + 1)) (q (k, j, i + 1) - lb + - 1 / 2 * sx (k, j, i + 1))"
proof -
  define v where "v = (\<lambda>(k, j, i). let mass = mass_x T (k, j, i); donor_i = (if mass \<ge> 0 then i else i + 1);
      sign = (if mass \<ge> 0 then 1 / 2 else - 1 / 2);
      reconstructed_excess = q (k, j, donor_i) - lb + sign * sx (k, j, donor_i)
    in mass * (lb + al (k, j, donor_i) * reconstructed_excess))"
  have eq: "final_flux_x g T lb q sx al =
    parallel_for (mdrange3 (get_halo_cells g) (get_halo_cells g) (get_halo_cells g - 1)
        (get_local_total_points_z g - get_halo_cells g) (get_local_total_points_y g - get_halo_cells g)
        (get_local_total_points_x g - get_halo_cells g))
      (\<lambda>c f. if \<not> open_x T c then f(c := 0) else f(c := v c)) (\<lambda>_. 0)"
    unfolding final_flux_x_def Let_def
    by (rule parallel_for_cong, rule refl, rule ext, clarsimp simp: open_x_def v_def Let_def)
  show ?thesis
    unfolding eq using assms by (subst pointwise_flux) (auto simp: range_simps upwind_flux_def v_def Let_def)
qed

lemma final_flux_y_cell:
  assumes "get_halo_cells g \<le> k" and "k < get_local_total_points_z g - get_halo_cells g"
    and "get_halo_cells g - 1 \<le> j" and "j < get_local_total_points_y g - get_halo_cells g"
    and "get_halo_cells g \<le> i" and "i < get_local_total_points_x g - get_halo_cells g"
  shows "final_flux_y g T lb q sy al (k, j, i) =
    upwind_flux (open_y T (k, j, i)) lb (mass_y T (k, j, i))
      (al (k, j, i)) (q (k, j, i) - lb + 1 / 2 * sy (k, j, i))
      (al (k, j + 1, i)) (q (k, j + 1, i) - lb + - 1 / 2 * sy (k, j + 1, i))"
proof -
  define v where "v = (\<lambda>(k, j, i). let mass = mass_y T (k, j, i); donor_j = (if mass \<ge> 0 then j else j + 1);
      sign = (if mass \<ge> 0 then 1 / 2 else - 1 / 2);
      reconstructed_excess = q (k, donor_j, i) - lb + sign * sy (k, donor_j, i)
    in mass * (lb + al (k, donor_j, i) * reconstructed_excess))"
  have eq: "final_flux_y g T lb q sy al =
    parallel_for (mdrange3 (get_halo_cells g) (get_halo_cells g - 1) (get_halo_cells g)
        (get_local_total_points_z g - get_halo_cells g) (get_local_total_points_y g - get_halo_cells g)
        (get_local_total_points_x g - get_halo_cells g))
      (\<lambda>c f. if \<not> open_y T c then f(c := 0) else f(c := v c)) (\<lambda>_. 0)"
    unfolding final_flux_y_def Let_def
    by (rule parallel_for_cong, rule refl, rule ext, clarsimp simp: open_y_def v_def Let_def)
  show ?thesis
    unfolding eq using assms by (subst pointwise_flux) (auto simp: range_simps upwind_flux_def v_def Let_def)
qed

lemma final_flux_z_cell:
  assumes "get_halo_cells g - 1 \<le> k" and "k < get_local_total_points_z g - get_halo_cells g"
    and "get_halo_cells g \<le> j" and "j < get_local_total_points_y g - get_halo_cells g"
    and "get_halo_cells g \<le> i" and "i < get_local_total_points_x g - get_halo_cells g"
  shows "final_flux_z g T lb q sz al (k, j, i) =
    upwind_flux (open_z g T (k, j, i)) lb (mass_z T (k, j, i))
      (al (k, j, i)) (q (k, j, i) - lb + sz (k, j, i) * (z_up T k - z_mid T k))
      (al (k + 1, j, i)) (q (k + 1, j, i) - lb + sz (k + 1, j, i) * (z_up T k - z_mid T (k + 1)))"
proof -
  let ?cells = "mdrange3 (get_halo_cells g) (get_halo_cells g) (get_halo_cells g)
        (get_local_total_points_z g - get_halo_cells g - 1) (get_local_total_points_y g - get_halo_cells g)
        (get_local_total_points_x g - get_halo_cells g)"
  define v where "v = (\<lambda>(k, j, i). let mass = mass_z T (k, j, i); donor_k = (if mass \<ge> 0 then k else k + 1);
      reconstructed_excess = q (donor_k, j, i) - lb + sz (donor_k, j, i) * (z_up T k - z_mid T donor_k)
    in mass * (lb + al (donor_k, j, i) * reconstructed_excess))"
  have eq: "final_flux_z g T lb q sz al =
    parallel_for ?cells (\<lambda>c f. if \<not> open_z g T c then f(c := 0) else f(c := v c)) (\<lambda>_. 0)"
    unfolding final_flux_z_def Let_def
    by (rule parallel_for_cong, rule refl, rule ext, clarsimp simp: open_z_def v_def Let_def range_simps)
  show ?thesis
    unfolding eq pointwise_kernel2
    using assms by (auto simp: upwind_flux_def v_def Let_def range_simps open_z_def)
qed

lemma flux_divergence_cell:
  "flux_divergence g T fx fy fz t (k, j, i) =
    (if (k, j, i) \<in> set (physical_cells g (get_halo_cells g) (get_local_total_points_z g - get_halo_cells g)) \<and>
        fluid T (k, j, i) = 1
     then t (k, j, i) -
      (weight_x T j i i * fx (k, j, i) - weight_x T j i (i - 1) * fx (k, j, i - 1)) -
      (weight_y T j i j * fy (k, j, i) - weight_y T j i (j - 1) * fy (k, j - 1, i)) -
      (rdz T * flex_height_coef_mid T k * fz (k, j, i) - rdz T * flex_height_coef_mid T k * fz (k - 1, j, i))
     else t (k, j, i))"
proof -
  define f where "f = (\<lambda>(k, j, i). - (weight_x T j i i * fx (k, j, i) - weight_x T j i (i - 1) * fx (k, j, i - 1)) -
    (weight_y T j i j * fy (k, j, i) - weight_y T j i (j - 1) * fy (k, j - 1, i)) -
    (rdz T * flex_height_coef_mid T k * fz (k, j, i) - rdz T * flex_height_coef_mid T k * fz (k - 1, j, i)))"
  have eq: "flux_divergence g T fx fy fz t =
    parallel_for (physical_cells g (get_halo_cells g) (get_local_total_points_z g - get_halo_cells g))
      (\<lambda>c t. if fluid T c \<noteq> 1 then t else t(c := t c + f c)) t"
    unfolding flux_divergence_def
    by (rule parallel_for_cong, rule refl, rule ext)
       (clarsimp simp: f_def weight_x_def weight_y_def algebra_simps)
  show ?thesis
    unfolding eq accumulate_kernel [OF distinct_physical_cells] by (simp add: f_def)
qed















text \<open>A uniform wind over flat ground.\<close>

definition sample_transport :: transport where
  "sample_transport =
     \<lparr>mass_x = (\<lambda>_. 1), mass_y = (\<lambda>_. 1), mass_z = (\<lambda>_. 0), rhobar = (\<lambda>_. 1), fluid = (\<lambda>_. 1),
      face_x = (\<lambda>_. 1), face_y = (\<lambda>_. 1), flex_height_coef_mid = (\<lambda>_. 1), flex_height_coef_up = (\<lambda>_. 1), z_mid = (\<lambda>k. of_int k),
      z_up = (\<lambda>k. of_int k + 1 / 2), rdx = 1, rdy = 1, rdz = 1, cartesian = True,
      sqrt_g_u = (\<lambda>_. 1), sqrt_g_v = (\<lambda>_. 1), inv_sqrt_g = (\<lambda>_. 1), rdq1 = 1, rdq2 = 1\<rparr>"


subsection \<open>Conservation\<close>

text \<open>The fluxes of a call, the area of a face and the volume of a cell in units of the grid spacing.\<close>

definition fluxes :: "bool \<Rightarrow> grid \<Rightarrow> transport \<Rightarrow> real \<Rightarrow> real \<Rightarrow> volume \<Rightarrow> volume \<times> volume \<times> volume" where
  "fluxes dp g T lb dt q =
     (case reconstruct g T lb q of (sx, sy, sz) \<Rightarrow>
        (final_flux_x g T lb q sx (alpha_at dp g T lb dt q), final_flux_y g T lb q sy (alpha_at dp g T lb dt q),
         final_flux_z g T lb q sz (alpha_at dp g T lb dt q)))"

definition area_x :: "transport \<Rightarrow> int \<Rightarrow> int \<Rightarrow> real" where
  "area_x T j f = (if cartesian T then rdx T else sqrt_g_u T (j, f) * rdq1 T)"

definition area_y :: "transport \<Rightarrow> int \<Rightarrow> int \<Rightarrow> real" where
  "area_y T i f = (if cartesian T then rdy T else sqrt_g_v T (f, i) * rdq2 T)"

definition thickness :: "transport \<Rightarrow> int \<Rightarrow> real" where
  "thickness T k = 1 / (rdz T * flex_height_coef_mid T k)"

definition cell_area :: "transport \<Rightarrow> int \<Rightarrow> int \<Rightarrow> real" where
  "cell_area T j i = (if cartesian T then 1 else 1 / inv_sqrt_g T (j, i))"

lemma telescope: "a \<le> b \<Longrightarrow> (\<Sum>i \<in> {a..<b}. f i - f (i - 1)) = f (b - 1) - f (a - 1)"
  for f :: "int \<Rightarrow> real"
proof (induction b rule: int_ge_induct)
  case base
  show ?case by simp
next
  case (step b)
  then have "{a..<b + 1} = insert b {a..<b}" by auto
  with step show ?case by simp
qed

lemma calculate_is_divergence:
  assumes "0 < dt" and "fluxes dp g T lb dt q = (fx, fy, fz)"
  shows "calculate_advection_tendency dp g T name lb name dt q t = Inr (flux_divergence g T fx fy fz t)"
proof -
  obtain sx sy sz where R: "reconstruct g T lb q = (sx, sy, sz)" by (cases "reconstruct g T lb q")
  then show ?thesis
    using assms donor_factors_eq [of dp g T lb dt q]
    by (auto simp: calculate_advection_tendency_def fluxes_def Let_def)
qed

text \<open>Cells outside the fluid have closed faces, so the divergence formula holds for them too.\<close>

lemma divergence_everywhere:
  assumes "fluxes dp g T lb dt q = (fx, fy, fz)"
    and "(k, j, i) \<in> set (physical_cells g (get_halo_cells g) (get_local_total_points_z g - get_halo_cells g))"
  shows "flux_divergence g T fx fy fz (\<lambda>_. 0) (k, j, i) =
    - (weight_x T j i i * fx (k, j, i) - weight_x T j i (i - 1) * fx (k, j, i - 1)) -
    (weight_y T j i j * fy (k, j, i) - weight_y T j i (j - 1) * fy (k, j - 1, i)) -
    rdz T * flex_height_coef_mid T k * (fz (k, j, i) - fz (k - 1, j, i))"
proof (cases "fluid T (k, j, i) = 1")
  case True
  then show ?thesis using assms(2) by (simp add: flux_divergence_cell right_diff_distrib)
next
  case False
  note cell = assms(2) [unfolded in_physical_cells]
  obtain sx sy sz where R: "reconstruct g T lb q = (sx, sy, sz)" by (cases "reconstruct g T lb q")
  define al where "al = alpha_at dp g T lb dt q"
  have f: "fx = final_flux_x g T lb q sx al" "fy = final_flux_y g T lb q sy al" "fz = final_flux_z g T lb q sz al"
    using assms(1) by (simp_all add: fluxes_def R al_def)
  have "fx (k, j, i) = 0" "fx (k, j, i - 1) = 0" "fy (k, j, i) = 0" "fy (k, j - 1, i) = 0"
    "fz (k, j, i) = 0" "fz (k - 1, j, i) = 0"
    unfolding f using cell False
    by (simp_all add: final_flux_x_cell final_flux_y_cell final_flux_z_cell upwind_flux_def open_x_def open_y_def open_z_def)
  with False show ?thesis by (simp add: flux_divergence_cell)
qed

lemma weighted_divergence:
  fixes a v dz wx wx' wy wy' wz :: real
  assumes "a * wx = ax" and "a * wx' = ax'" and "a * wy = ay" and "a * wy' = ay'" and "dz * wz = 1"
  shows "a * dz * (- (wx * f - wx' * f') - (wy * g - wy' * g') - wz * (z - z')) =
    - (dz * (ax * f) - dz * (ax' * f')) - (dz * (ay * g) - dz * (ay' * g')) - (a * z - a * z')"
proof -
  have "a * dz * (wz * (z - z')) = a * (z - z')" using assms(5) by (metis mult.assoc mult.left_neutral)
  then show ?thesis
    by (simp add: assms(1-4) [symmetric] right_diff_distrib mult.assoc mult.left_commute)
qed

text \<open>Summing a divergence over a box leaves the faces of the box.\<close>

lemma sum_box:
  fixes X Y Z :: "int \<Rightarrow> int \<Rightarrow> int \<Rightarrow> real"
  assumes "h \<le> a" "h \<le> b" "h \<le> c"
    and "\<And>k j i. k \<in> {h..<a} \<Longrightarrow> j \<in> {h..<b} \<Longrightarrow> i \<in> {h..<c} \<Longrightarrow> F k j i =
      - (X k j i - X k j (i - 1)) - (Y k i j - Y k i (j - 1)) - (Z j i k - Z j i (k - 1))"
  shows "(\<Sum>k \<in> {h..<a}. \<Sum>j \<in> {h..<b}. \<Sum>i \<in> {h..<c}. F k j i) =
    - (\<Sum>k \<in> {h..<a}. \<Sum>j \<in> {h..<b}. X k j (c - 1) - X k j (h - 1)) -
      (\<Sum>k \<in> {h..<a}. \<Sum>i \<in> {h..<c}. Y k i (b - 1) - Y k i (h - 1)) -
      (\<Sum>j \<in> {h..<b}. \<Sum>i \<in> {h..<c}. Z j i (a - 1) - Z j i (h - 1))"
proof -
  have "(\<Sum>k \<in> {h..<a}. \<Sum>j \<in> {h..<b}. \<Sum>i \<in> {h..<c}. F k j i) =
      - (\<Sum>k \<in> {h..<a}. \<Sum>j \<in> {h..<b}. \<Sum>i \<in> {h..<c}. X k j i - X k j (i - 1)) -
        (\<Sum>k \<in> {h..<a}. \<Sum>j \<in> {h..<b}. \<Sum>i \<in> {h..<c}. Y k i j - Y k i (j - 1)) -
        (\<Sum>k \<in> {h..<a}. \<Sum>j \<in> {h..<b}. \<Sum>i \<in> {h..<c}. Z j i k - Z j i (k - 1))"
    by (simp add: assms(4) sum_subtractf sum_negf [symmetric] del: sum_negf)
  moreover have "(\<Sum>j \<in> {h..<b}. \<Sum>i \<in> {h..<c}. Y k i j - Y k i (j - 1)) =
      (\<Sum>i \<in> {h..<c}. Y k i (b - 1) - Y k i (h - 1))" for k
    by (subst sum.swap) (simp add: telescope [OF assms(2)])
  moreover have "(\<Sum>k \<in> {h..<a}. \<Sum>j \<in> {h..<b}. \<Sum>i \<in> {h..<c}. Z j i k - Z j i (k - 1)) =
      (\<Sum>j \<in> {h..<b}. \<Sum>i \<in> {h..<c}. \<Sum>k \<in> {h..<a}. Z j i k - Z j i (k - 1))"
    by (subst sum.swap) (simp add: sum.swap [of _ "{h..<c}" "{h..<a}"])
  ultimately show ?thesis by (simp add: telescope [OF assms(1)] telescope [OF assms(3)])
qed

text \<open>C27. The transport moves the tracer and creates none: over the cells of the process, the change of its mass is the
  flux through the lateral faces of the subdomain; the walls of the terrain, the ground and the lid
  let nothing through, and the exchange between the cells cancels.\<close>

theorem muscl_conserves_mass:
  fixes g T
  defines "h \<equiv> get_halo_cells g" and "nz' \<equiv> get_local_total_points_z g - get_halo_cells g"
    and "ny' \<equiv> get_local_total_points_y g - get_halo_cells g" and "nx' \<equiv> get_local_total_points_x g - get_halo_cells g"
  assumes "0 < dt" and "fluxes dp g T lb dt q = (fx, fy, fz)" and "h \<le> nz'" "h \<le> ny'" "h \<le> nx'"
    and "\<And>k. rdz T * flex_height_coef_mid T k \<noteq> 0" and "\<And>j i. cartesian T \<or> inv_sqrt_g T (j, i) \<noteq> 0"
  shows "\<exists>t. calculate_advection_tendency dp g T name lb name dt q (\<lambda>_. 0) = Inr t \<and>
    (\<Sum>k \<in> {h..<nz'}. \<Sum>j \<in> {h..<ny'}. \<Sum>i \<in> {h..<nx'}. cell_area T j i * thickness T k * t (k, j, i)) =
    - (\<Sum>k \<in> {h..<nz'}. \<Sum>j \<in> {h..<ny'}. thickness T k *
        (area_x T j (nx' - 1) * fx (k, j, nx' - 1) - area_x T j (h - 1) * fx (k, j, h - 1))) -
      (\<Sum>k \<in> {h..<nz'}. \<Sum>i \<in> {h..<nx'}. thickness T k *
        (area_y T i (ny' - 1) * fy (k, ny' - 1, i) - area_y T i (h - 1) * fy (k, h - 1, i)))"
proof -
  let ?t = "flux_divergence g T fx fy fz (\<lambda>_. 0)"
  have area: "cell_area T j i * weight_x T j i f = area_x T j f" "cell_area T j i * weight_y T j i f = area_y T i f" for j i f
    using assms(11) [of j i] by (auto simp: cell_area_def weight_x_def weight_y_def area_x_def area_y_def)
  have dz: "thickness T k * (rdz T * flex_height_coef_mid T k) = 1" for k
    using assms(10) [of k] by (simp add: thickness_def)
  have cell: "cell_area T j i * thickness T k * ?t (k, j, i) =
      - (thickness T k * (area_x T j i * fx (k, j, i)) - thickness T k * (area_x T j (i - 1) * fx (k, j, i - 1))) -
        (thickness T k * (area_y T i j * fy (k, j, i)) - thickness T k * (area_y T i (j - 1) * fy (k, j - 1, i))) -
        (cell_area T j i * fz (k, j, i) - cell_area T j i * fz (k - 1, j, i))"
    if "k \<in> {h..<nz'}" "j \<in> {h..<ny'}" "i \<in> {h..<nx'}" for k j i
  proof -
    have "(k, j, i) \<in> set (physical_cells g (get_halo_cells g) (get_local_total_points_z g - get_halo_cells g))"
      using that by (auto simp: in_physical_cells h_def nz'_def ny'_def nx'_def)
    note divergence = divergence_everywhere [OF assms(6) this]
    show ?thesis unfolding divergence by (rule weighted_divergence [OF area(1) area(1) area(2) area(2) dz])
  qed
  have lid: "fz (nz' - 1, j, i) = 0" "fz (h - 1, j, i) = 0" if "j \<in> {h..<ny'}" "i \<in> {h..<nx'}" for j i
    using that assms(6,7)
    by (auto simp: fluxes_def final_flux_z_cell upwind_flux_def open_z_def h_def nz'_def ny'_def nx'_def split: prod.splits)
  show ?thesis
    using calculate_is_divergence [OF assms(5,6), of name "\<lambda>_. 0"]
      sum_box [where X = "\<lambda>k j i. thickness T k * (area_x T j i * fx (k, j, i))"
        and Y = "\<lambda>k i j. thickness T k * (area_y T i j * fy (k, j, i))"
        and Z = "\<lambda>j i k. cell_area T j i * fz (k, j, i)", OF assms(7-9) cell]
    by (intro exI [of _ ?t] conjI) (simp_all add: lid right_diff_distrib)
qed

lemma muscl_conserves_mass_witness:
  "\<exists>t fx fy fz. fluxes True (distributed (sample_grid 3 3) (1, 1) (0, 0)) sample_transport 0 5
       (\<lambda>c. if c = (3, 2, 2) then 1 else 0) = (fx, fy, fz) \<and>
     calculate_advection_tendency True (distributed (sample_grid 3 3) (1, 1) (0, 0)) sample_transport ''tr'' 0
       ''tr'' 5 (\<lambda>c. if c = (3, 2, 2) then 1 else 0) (\<lambda>_. 0) = Inr t \<and>
     (\<Sum>k \<in> {2..<6}. \<Sum>j \<in> {2..<5}. \<Sum>i \<in> {2..<5}. t (k, j, i)) =
       - (\<Sum>k \<in> {2..<6}. \<Sum>j \<in> {2..<5}. fx (k, j, 4) - fx (k, j, 1)) -
         (\<Sum>k \<in> {2..<6}. \<Sum>i \<in> {2..<5}. fy (k, 4, i) - fy (k, 1, i))"
proof -
  let ?g = "distributed (sample_grid 3 3) (1, 1) (0, 0)"
  let ?q = "\<lambda>c. if c = (3, 2, 2) then 1 else 0 :: real"
  obtain fx fy fz where f: "fluxes True ?g sample_transport 0 5 ?q = (fx, fy, fz)" by (metis prod_cases3)
  note conserved = muscl_conserves_mass [OF _ f, of "''tr''", unfolded sample_extents]
  have "rdz sample_transport * flex_height_coef_mid sample_transport k \<noteq> 0" "cartesian sample_transport" for k
    by (simp_all add: sample_transport_def)
  with conserved have "\<exists>t. calculate_advection_tendency True ?g sample_transport ''tr'' 0 ''tr'' 5 ?q (\<lambda>_. 0) = Inr t \<and>
     (\<Sum>k \<in> {2..<6}. \<Sum>j \<in> {2..<5}. \<Sum>i \<in> {2..<5}. cell_area sample_transport j i * thickness sample_transport k * t (k, j, i)) =
       - (\<Sum>k \<in> {2..<6}. \<Sum>j \<in> {2..<5}. thickness sample_transport k * (area_x sample_transport j 4 * fx (k, j, 4) -
            area_x sample_transport j 1 * fx (k, j, 1))) -
         (\<Sum>k \<in> {2..<6}. \<Sum>i \<in> {2..<5}. thickness sample_transport k * (area_y sample_transport i 4 * fy (k, 4, i) -
            area_y sample_transport i 1 * fy (k, 1, i)))"
    by simp
  with f show ?thesis by (auto simp: cell_area_def thickness_def area_x_def area_y_def sample_transport_def)
qed

end
