(* ===== verification/Takacs.thy ===== *)
theory Takacs
  imports Muscl
begin

text \<open>
  \<open>dynamics/spatial_schemes/Takacs\<close>: the transport of a scalar or a vorticity component by the third-order
  upwind-biased fluxes, once direction by direction and once with the horizontal directions fused, and
  \<open>SpatialScheme::calculate_advection_tendency\<close>, which calls the three directions in turn.  The two
  fluxes of a cell are written out twice in the source; so they are here.
\<close>

section \<open>The code\<close>

definition upwind_plus :: "real \<Rightarrow> real" where
  "upwind_plus u = 1 / 2 * (u + \<bar>u\<bar>)"

definition upwind_minus :: "real \<Rightarrow> real" where
  "upwind_minus u = 1 / 2 * (u - \<bar>u\<bar>)"

text \<open>The flux through the upper face of cell \<open>i\<close> of a row, and through its lower face.\<close>

definition takacs_flux :: "(int \<Rightarrow> real) \<Rightarrow> (int \<Rightarrow> real) \<Rightarrow> int \<Rightarrow> real" where
  "takacs_flux u q i =
     (let up_i = upwind_plus (u i); up_im1 = upwind_plus (u (i - 1));
          um_i = upwind_minus (u i); um_ip1 = upwind_minus (u (i + 1)) in
      u i * (q (i + 1) + q i) +
        - 1 / 3 * (up_i * (q (i + 1) - q i) - sqrt up_i * sqrt up_im1 * (q i - q (i - 1)) -
                   um_i * (q (i + 1) - q i) - sqrt \<bar>um_i\<bar> * sqrt \<bar>um_ip1\<bar> * (q (i + 2) - q (i + 1))))"

definition takacs_flux_im1 :: "(int \<Rightarrow> real) \<Rightarrow> (int \<Rightarrow> real) \<Rightarrow> int \<Rightarrow> real" where
  "takacs_flux_im1 u q i =
     (let up_im1 = upwind_plus (u (i - 1)); up_im2 = upwind_plus (u (i - 2));
          um_i = upwind_minus (u i); um_im1 = upwind_minus (u (i - 1)) in
      u (i - 1) * (q i + q (i - 1)) +
        - 1 / 3 * (up_im1 * (q i - q (i - 1)) - sqrt up_im1 * sqrt up_im2 * (q (i - 1) - q (i - 2)) -
                   um_im1 * (q i - q (i - 1)) - sqrt \<bar>um_im1\<bar> * sqrt \<bar>um_i\<bar> * (q (i + 1) - q i)))"

definition horizontal_levels :: "grid \<Rightarrow> string \<Rightarrow> int \<times> int" where
  "horizontal_levels g var_name =
     (let h = get_halo_cells g; nz = get_local_total_points_z g in
      if var_name = ''zeta'' then (nz - h - 1, nz - h)
      else if var_name = ''xi'' \<or> var_name = ''eta'' then (h, nz - h - 1)
      else (h, nz - h))"

definition interior_columns :: "grid \<Rightarrow> (int \<times> int) list" where
  "interior_columns g =
     (let h = get_halo_cells g in
      team_columns h (get_local_total_points_y g - h) h (get_local_total_points_x g - h))"

definition calculate_flux_convergence_x ::
  "grid \<Rightarrow> transport \<Rightarrow> string \<Rightarrow> volume \<Rightarrow> volume \<Rightarrow> volume" where
  "calculate_flux_convergence_x g T var_name q tendency =
     (let (k_start, k_end) = horizontal_levels g var_name in
      team_parallel_for (interior_columns g) k_start k_end
        (\<lambda>(k, j, i) t.
           let u = (\<lambda>x. mass_x T (k, j, x)); row = (\<lambda>x. q (k, j, x));
               flux_i = takacs_flux u row i; flux_im1 = takacs_flux_im1 u row i
           in t((k, j, i) := t (k, j, i) + - 1 / 2 * (flux_i - flux_im1) * rdx T)) tendency)"

definition calculate_flux_convergence_y ::
  "grid \<Rightarrow> transport \<Rightarrow> string \<Rightarrow> volume \<Rightarrow> volume \<Rightarrow> volume" where
  "calculate_flux_convergence_y g T var_name q tendency =
     (let (k_start, k_end) = horizontal_levels g var_name in
      team_parallel_for (interior_columns g) k_start k_end
        (\<lambda>(k, j, i) t.
           let v = (\<lambda>y. mass_y T (k, y, i)); row = (\<lambda>y. q (k, y, i));
               flux_j = takacs_flux v row j; flux_jm1 = takacs_flux_im1 v row j
           in t((k, j, i) := t (k, j, i) + - 1 / 2 * (flux_j - flux_jm1) * rdy T)) tendency)"

text \<open>Next to the ground and the lid only one of the upwind sides has the cells it needs.\<close>

definition upwind_from_above :: "(int \<Rightarrow> real) \<Rightarrow> (int \<Rightarrow> real) \<Rightarrow> int \<Rightarrow> real" where
  "upwind_from_above w q k =
     (let wm_k = upwind_minus (w k); wm_kp1 = upwind_minus (w (k + 1)) in
      - 1 / 3 * (- wm_k * (q (k + 1) - q k) - sqrt \<bar>wm_k\<bar> * sqrt \<bar>wm_kp1\<bar> * (q (k + 2) - q (k + 1))))"

definition upwind_from_below :: "(int \<Rightarrow> real) \<Rightarrow> (int \<Rightarrow> real) \<Rightarrow> int \<Rightarrow> real" where
  "upwind_from_below w q k =
     (let wp_k = upwind_plus (w k); wp_km1 = upwind_plus (w (k - 1)) in
      - 1 / 3 * (wp_k * (q (k + 1) - q k) - sqrt wp_k * sqrt wp_km1 * (q k - q (k - 1))))"

definition upwind_both :: "(int \<Rightarrow> real) \<Rightarrow> (int \<Rightarrow> real) \<Rightarrow> int \<Rightarrow> real" where
  "upwind_both w q k =
     (let wp_k = upwind_plus (w k); wp_km1 = upwind_plus (w (k - 1));
          wm_k = upwind_minus (w k); wm_kp1 = upwind_minus (w (k + 1)) in
      - 1 / 3 * (wp_k * (q (k + 1) - q k) - sqrt wp_k * sqrt wp_km1 * (q k - q (k - 1)) -
                 wm_k * (q (k + 1) - q k) - sqrt \<bar>wm_k\<bar> * sqrt \<bar>wm_kp1\<bar> * (q (k + 2) - q (k + 1))))"

definition compute_raw_f :: "int \<Rightarrow> int \<Rightarrow> (int \<Rightarrow> real) \<Rightarrow> (int \<Rightarrow> real) \<Rightarrow> int \<Rightarrow> real" where
  "compute_raw_f h n_z w q k =
     (let raw_f = w k * (q (k + 1) + q k) in
      if k = h then (if w k < 0 then raw_f + upwind_from_above w q k else raw_f)
      else if k = n_z - h - 2 then (if w k \<ge> 0 then raw_f + upwind_from_below w q k else raw_f)
      else raw_f + upwind_both w q k)"

definition get_flux_z ::
  "int \<Rightarrow> int \<Rightarrow> bool \<Rightarrow> string \<Rightarrow> (int \<Rightarrow> real) \<Rightarrow> (int \<Rightarrow> real) \<Rightarrow> int \<Rightarrow> real" where
  "get_flux_z h n_z is_idealized var_name w q k =
     (if var_name = ''zeta'' then
        (if k = n_z - h - 2 then
           (let f = w k * (q (k + 1) + q k) in if w k \<ge> 0 then f + upwind_from_below w q k else f)
         else 0)
      else if var_name = ''xi'' \<or> var_name = ''eta'' then
        (if k \<ge> h - 1 \<and> k \<le> n_z - h - 2 then
           (let f = w k * (q (k + 1) + q k) in
            if k = h - 1 then (if w k < 0 then f + upwind_from_above w q k else f)
            else if k = n_z - h - 2 then (if w k \<ge> 0 then f + upwind_from_below w q k else f)
            else f + upwind_both w q k)
         else 0)
      else if k = h - 1 then (if is_idealized then compute_raw_f h n_z w q (n_z - h - 2) else 0)
      else if k = n_z - h - 1 then (if is_idealized then compute_raw_f h n_z w q h else 0)
      else if k \<ge> h \<and> k \<le> n_z - h - 2 then compute_raw_f h n_z w q k
      else 0)"

definition calculate_flux_convergence_z ::
  "grid \<Rightarrow> transport \<Rightarrow> bool \<Rightarrow> string \<Rightarrow> volume \<Rightarrow> volume \<Rightarrow> volume" where
  "calculate_flux_convergence_z g T is_idealized var_name q tendency =
     (let h = get_halo_cells g; nz = get_local_total_points_z g;
          tend_k_min = (if var_name = ''zeta'' then nz - h - 1 else h);
          tend_k_max = (if var_name = ''zeta'' then nz - h - 1
                        else if var_name = ''xi'' \<or> var_name = ''eta'' then nz - h - 2 else nz - h - 1) in
      team_parallel_for (interior_columns g) tend_k_min (tend_k_max + 1)
        (\<lambda>(k, j, i) t.
           let w = (\<lambda>z. mass_z T (z, j, i)); column = (\<lambda>z. q (z, j, i));
               flux_k = get_flux_z h nz is_idealized var_name w column k;
               flux_km1 = get_flux_z h nz is_idealized var_name w column (k - 1)
           in t((k, j, i) := t (k, j, i) +
                (if var_name = ''zeta'' then 1 / 2 * flux_km1 * rdz T * flex_height_coef_mid T k
                 else if var_name = ''xi'' \<or> var_name = ''eta''
                 then - 1 / 2 * (flux_k - flux_km1) * rdz T * flex_height_coef_up T k
                 else - 1 / 2 * (flux_k - flux_km1) * rdz T * flex_height_coef_mid T k))) tendency)"

text \<open>\<open>SpatialScheme::calculate_advection_tendency\<close>, and the override of \<open>Takacs\<close>.\<close>

definition split_advection_tendency ::
  "grid \<Rightarrow> transport \<Rightarrow> bool \<Rightarrow> string \<Rightarrow> volume \<Rightarrow> volume \<Rightarrow> volume" where
  "split_advection_tendency g T is_idealized var_name q tendency =
     calculate_flux_convergence_z g T is_idealized var_name q
       (calculate_flux_convergence_y g T var_name q (calculate_flux_convergence_x g T var_name q tendency))"

definition takacs_advection_tendency ::
  "grid \<Rightarrow> transport \<Rightarrow> bool \<Rightarrow> string \<Rightarrow> volume \<Rightarrow> volume \<Rightarrow> volume" where
  "takacs_advection_tendency g T is_idealized var_name q tendency =
     (let (k_start, k_end) = horizontal_levels g var_name;
          horizontal = team_parallel_for (interior_columns g) k_start k_end
            (\<lambda>(k, j, i) tend.
               let t = tend (k, j, i);
                   u = (\<lambda>x. mass_x T (k, j, x)); row = (\<lambda>x. q (k, j, x));
                   flux_i = takacs_flux u row i; flux_im1 = takacs_flux_im1 u row i;
                   t = t + - 1 / 2 * (flux_i - flux_im1) * rdx T;
                   v = (\<lambda>y. mass_y T (k, y, i)); row = (\<lambda>y. q (k, y, i));
                   flux_j = takacs_flux v row j; flux_jm1 = takacs_flux_im1 v row j;
                   t = t + - 1 / 2 * (flux_j - flux_jm1) * rdy T
               in tend((k, j, i) := t)) tendency
      in calculate_flux_convergence_z g T is_idealized var_name q horizontal)"

section \<open>What the kernels compute\<close>

lemma team_accumulate_box:
  fixes t :: volume
  assumes "get_halo_cells g < get_local_total_points_x g - get_halo_cells g"
    and "\<And>k j i t. body (k, j, i) t = t((k, j, i) := t (k, j, i) + f (k, j, i))"
  shows "team_parallel_for (interior_columns g) k0 k1 body t (k, j, i) =
    (if k0 \<le> k \<and> k < k1 \<and> interior g j i then t (k, j, i) + f (k, j, i) else t (k, j, i))"
proof -
  have "body = (\<lambda>c t. t(c := t c + f c))" using assms(2) by (simp add: fun_eq_iff)
  then show ?thesis
    using team_accumulate [OF assms(1), of "get_halo_cells g" "get_local_total_points_y g - get_halo_cells g" k0 k1 f t k j i]
    by (simp add: interior_columns_def Let_def interior_def)
qed

lemma takacs_flux_shared: "takacs_flux_im1 u q i = takacs_flux u q (i - 1)"
  by (simp add: takacs_flux_def takacs_flux_im1_def Let_def add.commute)

definition convergence_x :: "transport \<Rightarrow> volume \<Rightarrow> int \<times> int \<times> int \<Rightarrow> real" where
  "convergence_x T q = (\<lambda>(k, j, i). - 1 / 2 * (takacs_flux (\<lambda>x. mass_x T (k, j, x)) (\<lambda>x. q (k, j, x)) i -
     takacs_flux (\<lambda>x. mass_x T (k, j, x)) (\<lambda>x. q (k, j, x)) (i - 1)) * rdx T)"

definition convergence_y :: "transport \<Rightarrow> volume \<Rightarrow> int \<times> int \<times> int \<Rightarrow> real" where
  "convergence_y T q = (\<lambda>(k, j, i). - 1 / 2 * (takacs_flux (\<lambda>y. mass_y T (k, y, i)) (\<lambda>y. q (k, y, i)) j -
     takacs_flux (\<lambda>y. mass_y T (k, y, i)) (\<lambda>y. q (k, y, i)) (j - 1)) * rdy T)"

lemma convergence_x_cell:
  assumes "get_halo_cells g < get_local_total_points_x g - get_halo_cells g"
  shows "calculate_flux_convergence_x g T name q t (k, j, i) =
    (if fst (horizontal_levels g name) \<le> k \<and> k < snd (horizontal_levels g name) \<and> interior g j i
     then t (k, j, i) + convergence_x T q (k, j, i) else t (k, j, i))"
  unfolding calculate_flux_convergence_x_def Let_def case_prod_beta [of _ "horizontal_levels g name"]
  by (rule team_accumulate_box [OF assms]) (simp add: convergence_x_def takacs_flux_shared fun_upd_def)

lemma convergence_y_cell:
  assumes "get_halo_cells g < get_local_total_points_x g - get_halo_cells g"
  shows "calculate_flux_convergence_y g T name q t (k, j, i) =
    (if fst (horizontal_levels g name) \<le> k \<and> k < snd (horizontal_levels g name) \<and> interior g j i
     then t (k, j, i) + convergence_y T q (k, j, i) else t (k, j, i))"
  unfolding calculate_flux_convergence_y_def Let_def case_prod_beta [of _ "horizontal_levels g name"]
  by (rule team_accumulate_box [OF assms]) (simp add: convergence_y_def takacs_flux_shared fun_upd_def)

text \<open>The fused kernel is an optimisation only: \<open>Takacs::calculate_advection_tendency\<close> computes what the
  three directional kernels of \<open>SpatialScheme::calculate_advection_tendency\<close> compute one after the other, for every
  variable and every cell of the array.\<close>

theorem takacs_fused_is_split:
  assumes "get_halo_cells g < get_local_total_points_x g - get_halo_cells g"
  shows "takacs_advection_tendency g T is_idealized name q t = split_advection_tendency g T is_idealized name q t"
proof -
  define fused where "fused = team_parallel_for (interior_columns g) (fst (horizontal_levels g name))
      (snd (horizontal_levels g name))
      (\<lambda>(k, j, i) tend. tend((k, j, i) :=
         tend (k, j, i) + - 1 / 2 * (takacs_flux (\<lambda>x. mass_x T (k, j, x)) (\<lambda>x. q (k, j, x)) i -
           takacs_flux_im1 (\<lambda>x. mass_x T (k, j, x)) (\<lambda>x. q (k, j, x)) i) * rdx T +
         - 1 / 2 * (takacs_flux (\<lambda>y. mass_y T (k, y, i)) (\<lambda>y. q (k, y, i)) j -
           takacs_flux_im1 (\<lambda>y. mass_y T (k, y, i)) (\<lambda>y. q (k, y, i)) j) * rdy T)) t"
  have cell: "fused (k, j, i) =
      (if fst (horizontal_levels g name) \<le> k \<and> k < snd (horizontal_levels g name) \<and> interior g j i
       then t (k, j, i) + (convergence_x T q (k, j, i) + convergence_y T q (k, j, i)) else t (k, j, i))" for k j i
    unfolding fused_def
    by (subst team_accumulate_box [OF assms, where f = "\<lambda>c. convergence_x T q c + convergence_y T q c"])
       (simp_all add: convergence_x_def convergence_y_def takacs_flux_shared algebra_simps)
  have "fused = calculate_flux_convergence_y g T name q (calculate_flux_convergence_x g T name q t)"
  proof
    fix c :: "int \<times> int \<times> int"
    obtain k j i where c: "c = (k, j, i)" by (cases c)
    show "fused c = calculate_flux_convergence_y g T name q (calculate_flux_convergence_x g T name q t) c"
      unfolding c by (simp add: cell convergence_x_cell [OF assms] convergence_y_cell [OF assms])
  qed
  then show ?thesis
    unfolding takacs_advection_tendency_def split_advection_tendency_def fused_def Let_def
      case_prod_beta [of _ "horizontal_levels g name"] by simp
qed

lemma takacs_fused_is_split_witness:
  "takacs_advection_tendency (distributed (sample_grid 3 3) (1, 1) (0, 0)) sample_transport False ''th''
     (\<lambda>(k, j, i). of_int i) (\<lambda>_. 0) =
   split_advection_tendency (distributed (sample_grid 3 3) (1, 1) (0, 0)) sample_transport False ''th''
     (\<lambda>(k, j, i). of_int i) (\<lambda>_. 0)"
  by (rule takacs_fused_is_split) (simp add: sample_extents)

section \<open>Conservation\<close>

definition convergence_z :: "grid \<Rightarrow> transport \<Rightarrow> string \<Rightarrow> volume \<Rightarrow> int \<times> int \<times> int \<Rightarrow> real" where
  "convergence_z g T name q = (\<lambda>(k, j, i).
     (let flux = get_flux_z (get_halo_cells g) (get_local_total_points_z g) False name
            (\<lambda>z. mass_z T (z, j, i)) (\<lambda>z. q (z, j, i))
      in - 1 / 2 * (flux k - flux (k - 1)) * rdz T * flex_height_coef_mid T k))"

lemma convergence_z_cell:
  assumes "get_halo_cells g < get_local_total_points_x g - get_halo_cells g"
    and "name \<notin> {''xi'', ''eta'', ''zeta''}"
  shows "calculate_flux_convergence_z g T False name q t (k, j, i) =
    (if get_halo_cells g \<le> k \<and> k < get_local_total_points_z g - get_halo_cells g \<and> interior g j i
     then t (k, j, i) + convergence_z g T name q (k, j, i) else t (k, j, i))"
proof -
  have "calculate_flux_convergence_z g T False name q t (k, j, i) =
    (if get_halo_cells g \<le> k \<and> k < get_local_total_points_z g - get_halo_cells g - 1 + 1 \<and> interior g j i
     then t (k, j, i) + convergence_z g T name q (k, j, i) else t (k, j, i))"
    unfolding calculate_flux_convergence_z_def Let_def
    using assms(2) by (subst team_accumulate_box [OF assms(1), where f = "convergence_z g T name q"])
      (simp_all add: convergence_z_def Let_def)
  then show ?thesis by simp
qed

lemma cancel_thickness:
  "dz * (r * f) = 1 \<Longrightarrow> dz * (- 1 / 2 * (a - b) * r * f) = - (1 / 2 * a - 1 / 2 * b)" for dz :: real
proof -
  assume "dz * (r * f) = 1"
  moreover have "dz * (- 1 / 2 * (a - b) * r * f) = - 1 / 2 * (a - b) * (dz * (r * f))" by simp
  ultimately show ?thesis by (simp add: diff_divide_distrib)
qed

text \<open>The fluxes of the two cells of a face are the same and the ground and the lid are closed: over
  the cells of the process the tendency of a scalar sums up to the fluxes through the lateral faces of the
  subdomain.\<close>

theorem takacs_conserves_mass:
  fixes g T q
  defines "h \<equiv> get_halo_cells g" and "nz' \<equiv> get_local_total_points_z g - get_halo_cells g"
    and "ny' \<equiv> get_local_total_points_y g - get_halo_cells g" and "nx' \<equiv> get_local_total_points_x g - get_halo_cells g"
  defines "fx \<equiv> \<lambda>k j. takacs_flux (\<lambda>x. mass_x T (k, j, x)) (\<lambda>x. q (k, j, x))"
    and "fy \<equiv> \<lambda>k i. takacs_flux (\<lambda>y. mass_y T (k, y, i)) (\<lambda>y. q (k, y, i))"
  assumes "h < nz'" "h \<le> ny'" "h < nx'" and "name \<notin> {''xi'', ''eta'', ''zeta''}"
    and "\<And>k. rdz T * flex_height_coef_mid T k \<noteq> 0"
  shows "(\<Sum>k \<in> {h..<nz'}. \<Sum>j \<in> {h..<ny'}. \<Sum>i \<in> {h..<nx'}.
      thickness T k * takacs_advection_tendency g T False name q (\<lambda>_. 0) (k, j, i)) =
    - (\<Sum>k \<in> {h..<nz'}. \<Sum>j \<in> {h..<ny'}. thickness T k * rdx T / 2 * (fx k j (nx' - 1) - fx k j (h - 1))) -
      (\<Sum>k \<in> {h..<nz'}. \<Sum>i \<in> {h..<nx'}. thickness T k * rdy T / 2 * (fy k i (ny' - 1) - fy k i (h - 1)))"
proof -
  have x: "get_halo_cells g < get_local_total_points_x g - get_halo_cells g"
    using assms(9) by (simp add: h_def nx'_def)
  have dz: "thickness T k * (rdz T * flex_height_coef_mid T k) = 1" for k
    using assms(11) [of k] by (simp add: thickness_def)
  define fz where "fz = (\<lambda>j i. get_flux_z h (get_local_total_points_z g) False name
      (\<lambda>z. mass_z T (z, j, i)) (\<lambda>z. q (z, j, i)))"
  have cell: "thickness T k * takacs_advection_tendency g T False name q (\<lambda>_. 0) (k, j, i) =
      - (thickness T k * rdx T / 2 * fx k j i - thickness T k * rdx T / 2 * fx k j (i - 1)) -
        (thickness T k * rdy T / 2 * fy k i j - thickness T k * rdy T / 2 * fy k i (j - 1)) -
        (1 / 2 * fz j i k - 1 / 2 * fz j i (k - 1))"
    if "k \<in> {h..<nz'}" "j \<in> {h..<ny'}" "i \<in> {h..<nx'}" for k j i
  proof -
    have "takacs_advection_tendency g T False name q (\<lambda>_. 0) (k, j, i) =
        convergence_x T q (k, j, i) + convergence_y T q (k, j, i) + convergence_z g T name q (k, j, i)"
      unfolding takacs_fused_is_split [OF x] split_advection_tendency_def
      using that assms(10) by (simp add: convergence_z_cell [OF x] convergence_y_cell [OF x] convergence_x_cell [OF x]
          interior_def horizontal_levels_def Let_def h_def nz'_def ny'_def nx'_def)
    moreover have "thickness T k * convergence_z g T name q (k, j, i) = - (1 / 2 * fz j i k - 1 / 2 * fz j i (k - 1))"
      unfolding convergence_z_def prod.case Let_def fz_def h_def by (rule cancel_thickness [OF dz])
    moreover have "thickness T k * convergence_x T q (k, j, i) =
        - (thickness T k * rdx T / 2 * fx k j i - thickness T k * rdx T / 2 * fx k j (i - 1))"
      "thickness T k * convergence_y T q (k, j, i) =
        - (thickness T k * rdy T / 2 * fy k i j - thickness T k * rdy T / 2 * fy k i (j - 1))"
      by (simp_all add: convergence_x_def convergence_y_def fx_def fy_def algebra_simps)
    ultimately show ?thesis by (simp add: distrib_left)
  qed
  have lid: "fz j i (nz' - 1) = 0" "fz j i (h - 1) = 0" for j i
    using assms(7,10) by (simp_all add: fz_def get_flux_z_def nz'_def h_def)
  show ?thesis
    using sum_box [where X = "\<lambda>k j i. thickness T k * rdx T / 2 * fx k j i"
        and Y = "\<lambda>k i j. thickness T k * rdy T / 2 * fy k i j" and Z = "\<lambda>j i k. 1 / 2 * fz j i k",
        OF less_imp_le [OF assms(7)] assms(8) less_imp_le [OF assms(9)] cell]
    by (simp add: lid right_diff_distrib)
qed

lemma takacs_conserves_mass_witness:
  "(\<Sum>k \<in> {2..<6}. \<Sum>j \<in> {2..<5}. \<Sum>i \<in> {2..<5}.
     takacs_advection_tendency (distributed (sample_grid 3 3) (1, 1) (0, 0)) sample_transport False ''th''
       (\<lambda>(k, j, i). of_int i) (\<lambda>_. 0) (k, j, i)) = - (36 :: real)"
proof -
  have "rdz sample_transport * flex_height_coef_mid sample_transport k \<noteq> 0" for k
    by (simp add: sample_transport_def)
  then show ?thesis
    using takacs_conserves_mass [of "distributed (sample_grid 3 3) (1, 1) (0, 0)" "''th''" sample_transport "\<lambda>(k, j, i). of_int i",
        unfolded sample_extents]
    by (simp add: sample_transport_def thickness_def takacs_flux_def upwind_plus_def upwind_minus_def Let_def)
qed

end
