(* ===== verification/Weno5.thy ===== *)
theory Weno5
  imports Takacs
begin

text \<open>
  \<open>dynamics/spatial_schemes/WENO5\<close>: the fifth-order reconstruction of Jiang and Shu in the horizontal directions,
  with the vertical fluxes of \<open>Takacs\<close>.  Faces whose stencil is cut by terrain fall back to the upwind value.
\<close>

section \<open>The code\<close>

definition smoothness :: "real \<Rightarrow> real \<Rightarrow> real" where
  "smoothness d d' = 13 / 12 * d * d + 1 / 4 * d' * d'"

definition reconstruct_left :: "real \<Rightarrow> real \<Rightarrow> real \<Rightarrow> real \<Rightarrow> real \<Rightarrow> real \<Rightarrow> real" where
  "reconstruct_left q_im2 q_im1 q_i q_ip1 q_ip2 epsilon =
     (let one_sixth = 1 / 6;
          p0 = one_sixth * (2 * q_im2 - 7 * q_im1 + 11 * q_i);
          p1 = one_sixth * (- q_im1 + 5 * q_i + 2 * q_ip1);
          p2 = one_sixth * (2 * q_i + 5 * q_ip1 - q_ip2);
          beta0 = smoothness (q_im2 - 2 * q_im1 + q_i) (q_im2 - 4 * q_im1 + 3 * q_i);
          beta1 = smoothness (q_im1 - 2 * q_i + q_ip1) (q_im1 - q_ip1);
          beta2 = smoothness (q_i - 2 * q_ip1 + q_ip2) (3 * q_i - 4 * q_ip1 + q_ip2);
          e0 = epsilon + beta0; e1 = epsilon + beta1; e2 = epsilon + beta2;
          alpha0 = 1 / 10 / (e0 * e0); alpha1 = 6 / 10 / (e1 * e1); alpha2 = 3 / 10 / (e2 * e2);
          alpha_sum = alpha0 + alpha1 + alpha2
      in (alpha0 * p0 + alpha1 * p1 + alpha2 * p2) / alpha_sum)"

definition reconstruct_right :: "real \<Rightarrow> real \<Rightarrow> real \<Rightarrow> real \<Rightarrow> real \<Rightarrow> real \<Rightarrow> real" where
  "reconstruct_right q_im1 q_i q_ip1 q_ip2 q_ip3 epsilon =
     reconstruct_left q_ip3 q_ip2 q_ip1 q_i q_im1 epsilon"

text \<open>The lambda \<open>face_flux\<close> of the two kernels, on a row of mass fluxes, values and fluid flags.\<close>

definition weno_face_flux ::
  "real \<Rightarrow> (int \<Rightarrow> real) \<Rightarrow> (int \<Rightarrow> real) \<Rightarrow> (int \<Rightarrow> real) \<Rightarrow> (int \<Rightarrow> real) \<Rightarrow> int \<Rightarrow> real" where
  "weno_face_flux epsilon face wet m q f =
     (if \<not> (face f = 1 \<and> wet f = 1 \<and> wet (f + 1) = 1) then 0
      else
        (let mass = m f in
         if mass \<ge> 0 then
           (if \<not> (wet (f - 2) = 1 \<and> wet (f - 1) = 1 \<and> wet (f + 2) = 1) then mass * q f
            else mass * reconstruct_left (q (f - 2)) (q (f - 1)) (q f) (q (f + 1)) (q (f + 2)) epsilon)
         else if \<not> (wet (f - 1) = 1 \<and> wet (f + 2) = 1 \<and> wet (f + 3) = 1) then mass * q (f + 1)
         else mass * reconstruct_right (q (f - 1)) (q f) (q (f + 1)) (q (f + 2)) (q (f + 3)) epsilon))"

definition weno_flux_x :: "transport \<Rightarrow> real \<Rightarrow> volume \<Rightarrow> int \<Rightarrow> int \<Rightarrow> int \<Rightarrow> real" where
  "weno_flux_x T epsilon q k j =
     weno_face_flux epsilon (\<lambda>f. face_x T (k, j, f)) (\<lambda>f. fluid T (k, j, f)) (\<lambda>f. mass_x T (k, j, f))
       (\<lambda>f. q (k, j, f))"

definition weno_flux_y :: "transport \<Rightarrow> real \<Rightarrow> volume \<Rightarrow> int \<Rightarrow> int \<Rightarrow> int \<Rightarrow> real" where
  "weno_flux_y T epsilon q k i =
     weno_face_flux epsilon (\<lambda>f. face_y T (k, f, i)) (\<lambda>f. fluid T (k, f, i)) (\<lambda>f. mass_y T (k, f, i))
       (\<lambda>f. q (k, f, i))"

definition weno_kernel_x :: "grid \<Rightarrow> transport \<Rightarrow> real \<Rightarrow> volume \<Rightarrow> volume \<Rightarrow> volume" where
  "weno_kernel_x g T epsilon q tendency =
     parallel_for (physical_cells g (get_halo_cells g) (get_local_total_points_z g - get_halo_cells g))
       (\<lambda>(k, j, i) t.
          if fluid T (k, j, i) \<noteq> 1 then t
          else
            (let flux_right = weno_flux_x T epsilon q k j i; flux_left = weno_flux_x T epsilon q k j (i - 1) in
             if cartesian T then t((k, j, i) := t (k, j, i) + - (flux_right - flux_left) * rdx T)
             else t((k, j, i) := t (k, j, i) - inv_sqrt_g T (j, i) *
                      (sqrt_g_u T (j, i) * flux_right - sqrt_g_u T (j, i - 1) * flux_left) * rdq1 T)))
       tendency"

definition weno_kernel_y :: "grid \<Rightarrow> transport \<Rightarrow> real \<Rightarrow> volume \<Rightarrow> volume \<Rightarrow> volume" where
  "weno_kernel_y g T epsilon q tendency =
     parallel_for (physical_cells g (get_halo_cells g) (get_local_total_points_z g - get_halo_cells g))
       (\<lambda>(k, j, i) t.
          if fluid T (k, j, i) \<noteq> 1 then t
          else
            (let flux_top = weno_flux_y T epsilon q k i j; flux_bottom = weno_flux_y T epsilon q k i (j - 1) in
             if cartesian T then t((k, j, i) := t (k, j, i) + - (flux_top - flux_bottom) * rdy T)
             else t((k, j, i) := t (k, j, i) - inv_sqrt_g T (j, i) *
                      (sqrt_g_v T (j, i) * flux_top - sqrt_g_v T (j - 1, i) * flux_bottom) * rdq2 T)))
       tendency"

definition weno_advection_tendency ::
  "grid \<Rightarrow> transport \<Rightarrow> bool \<Rightarrow> string \<Rightarrow> real \<Rightarrow> string \<Rightarrow> volume \<Rightarrow> volume \<Rightarrow> advection_error + volume" where
  "weno_advection_tendency g T is_idealized name epsilon var_name q tendency =
     rbind (throw_if (var_name \<noteq> name) Wrong_variable) (\<lambda>_.
       Inr (calculate_flux_convergence_z g T is_idealized var_name q
              (weno_kernel_y g T epsilon q (weno_kernel_x g T epsilon q tendency))))"

section \<open>The reconstruction\<close>

lemma weighted_mean:
  fixes a0 a1 a2 :: real
  assumes "0 < a0" "0 < a1" "0 < a2"
  shows "min p0 (min p1 p2) \<le> (a0 * p0 + a1 * p1 + a2 * p2) / (a0 + a1 + a2)"
    and "(a0 * p0 + a1 * p1 + a2 * p2) / (a0 + a1 + a2) \<le> max p0 (max p1 p2)"
proof -
  have s: "0 < a0 + a1 + a2" using assms by simp
  let ?lo = "min p0 (min p1 p2)" and ?hi = "max p0 (max p1 p2)"
  have "?lo * (a0 + a1 + a2) = a0 * ?lo + a1 * ?lo + a2 * ?lo" by (simp add: algebra_simps)
  also have "\<dots> \<le> a0 * p0 + a1 * p1 + a2 * p2" using assms by (intro add_mono mult_left_mono) auto
  finally show "?lo \<le> (a0 * p0 + a1 * p1 + a2 * p2) / (a0 + a1 + a2)" using s by (simp add: pos_le_divide_eq)
  have "a0 * p0 + a1 * p1 + a2 * p2 \<le> a0 * ?hi + a1 * ?hi + a2 * ?hi" using assms by (intro add_mono mult_left_mono) auto
  also have "\<dots> = ?hi * (a0 + a1 + a2)" by (simp add: algebra_simps)
  finally show "(a0 * p0 + a1 * p1 + a2 * p2) / (a0 + a1 + a2) \<le> ?hi" using s by (simp add: pos_divide_le_eq)
qed

lemma smoothness_nonneg: "0 \<le> smoothness d d'"
  by (simp add: smoothness_def mult.assoc)

lemma weight_pos: "0 < c \<Longrightarrow> 0 < epsilon \<Longrightarrow> 0 < c / ((epsilon + smoothness d d') * (epsilon + smoothness d d'))"
  using smoothness_nonneg [of d d'] by (intro divide_pos_pos mult_pos_pos add_pos_nonneg) auto

text \<open>The value lies between those of the three sub-stencils.\<close>

lemma reconstruct_left_between:
  fixes a b c d e epsilon :: real
  assumes "0 < epsilon"
  defines "p0 \<equiv> 1 / 6 * (2 * a - 7 * b + 11 * c)" and "p1 \<equiv> 1 / 6 * (- b + 5 * c + 2 * d)"
    and "p2 \<equiv> 1 / 6 * (2 * c + 5 * d - e)"
  shows "min p0 (min p1 p2) \<le> reconstruct_left a b c d e epsilon"
    and "reconstruct_left a b c d e epsilon \<le> max p0 (max p1 p2)"
  unfolding reconstruct_left_def Let_def p0_def p1_def p2_def
  by (rule weighted_mean; rule weight_pos; simp add: assms(1))+

text \<open>The average over the cell \<open>[i - 1/2, i + 1/2]\<close> of a quadratic polynomial.\<close>

definition cell_average :: "real \<Rightarrow> real \<Rightarrow> real \<Rightarrow> int \<Rightarrow> real" where
  "cell_average a b c i = a + b * of_int i + c * (of_int i * of_int i + 1 / 12)"

text \<open>C30. Accuracy: on the cell averages of any quadratic polynomial both reconstructions return the value of
  the polynomial at the face \<open>i + 1/2\<close>, whatever the smoothness weights are.\<close>

theorem weno_reconstruction_is_exact:
  fixes a b c epsilon :: real and i :: int
  assumes "0 < epsilon"
  defines "q \<equiv> cell_average a b c" and "x \<equiv> of_int i + 1 / 2 :: real"
  shows "reconstruct_left (q (i - 2)) (q (i - 1)) (q i) (q (i + 1)) (q (i + 2)) epsilon = a + b * x + c * x * x \<and>
    reconstruct_right (q (i - 1)) (q i) (q (i + 1)) (q (i + 2)) (q (i + 3)) epsilon = a + b * x + c * x * x"
proof
  have "1 / 6 * (2 * q (i - 2) - 7 * q (i - 1) + 11 * q i) = a + b * x + c * x * x"
    "1 / 6 * (- q (i - 1) + 5 * q i + 2 * q (i + 1)) = a + b * x + c * x * x"
    "1 / 6 * (2 * q i + 5 * q (i + 1) - q (i + 2)) = a + b * x + c * x * x"
    by (simp_all add: q_def x_def cell_average_def algebra_simps)
  then show "reconstruct_left (q (i - 2)) (q (i - 1)) (q i) (q (i + 1)) (q (i + 2)) epsilon = a + b * x + c * x * x"
    using reconstruct_left_between [OF assms(1), of "q (i - 2)" "q (i - 1)" "q i" "q (i + 1)" "q (i + 2)"] by simp
next
  have "1 / 6 * (2 * q (i + 3) - 7 * q (i + 2) + 11 * q (i + 1)) = a + b * x + c * x * x"
    "1 / 6 * (- q (i + 2) + 5 * q (i + 1) + 2 * q i) = a + b * x + c * x * x"
    "1 / 6 * (2 * q (i + 1) + 5 * q i - q (i - 1)) = a + b * x + c * x * x"
    by (simp_all add: q_def x_def cell_average_def algebra_simps)
  then show "reconstruct_right (q (i - 1)) (q i) (q (i + 1)) (q (i + 2)) (q (i + 3)) epsilon = a + b * x + c * x * x"
    using reconstruct_left_between [OF assms(1), of "q (i + 3)" "q (i + 2)" "q (i + 1)" "q i" "q (i - 1)"]
    by (simp add: reconstruct_right_def)
qed

text \<open>The averages \<open>1/12\<close>, \<open>13/12\<close>, \<dots> of the square function give the value \<open>1/4\<close> at the face \<open>1/2\<close>.\<close>

lemma weno_reconstruction_is_exact_witness:
  "reconstruct_left (49 / 12) (13 / 12) (1 / 12) (13 / 12) (49 / 12) (1 / 1000000) = 1 / 4"
  using weno_reconstruction_is_exact [of "1 / 1000000" 0 0 1 0] by (simp add: cell_average_def)

section \<open>Conservation\<close>

lemma weno_kernel_cell:
  assumes "(k, j, i) \<in> set (physical_cells g (get_halo_cells g) (get_local_total_points_z g - get_halo_cells g))"
  shows "weno_kernel_x g T epsilon q t (k, j, i) = t (k, j, i) -
      (weight_x T j i i * weno_flux_x T epsilon q k j i - weight_x T j i (i - 1) * weno_flux_x T epsilon q k j (i - 1))"
    and "weno_kernel_y g T epsilon q t (k, j, i) = t (k, j, i) -
      (weight_y T j i j * weno_flux_y T epsilon q k i j - weight_y T j i (j - 1) * weno_flux_y T epsilon q k i (j - 1))"
proof -
  let ?cells = "physical_cells g (get_halo_cells g) (get_local_total_points_z g - get_halo_cells g)"
  have dry: "weno_face_flux epsilon face wet m r f = 0" "weno_face_flux epsilon face wet m r (f - 1) = 0"
    if "wet f \<noteq> 1" for face wet m r f
    using that by (simp_all add: weno_face_flux_def)
  define f where "f = (\<lambda>(k, j, i). - (weight_x T j i i * weno_flux_x T epsilon q k j i -
      weight_x T j i (i - 1) * weno_flux_x T epsilon q k j (i - 1)))"
  have eq: "weno_kernel_x g T epsilon q t = parallel_for ?cells (\<lambda>c t. if fluid T c \<noteq> 1 then t else t(c := t c + f c)) t"
    unfolding weno_kernel_x_def
    by (rule parallel_for_cong, rule refl, rule ext) (clarsimp simp: f_def weight_x_def Let_def algebra_simps)
  show "weno_kernel_x g T epsilon q t (k, j, i) = t (k, j, i) -
      (weight_x T j i i * weno_flux_x T epsilon q k j i - weight_x T j i (i - 1) * weno_flux_x T epsilon q k j (i - 1))"
    unfolding eq accumulate_kernel [OF distinct_physical_cells] using assms by (auto simp: f_def weno_flux_x_def dry)
  define f' where "f' = (\<lambda>(k, j, i). - (weight_y T j i j * weno_flux_y T epsilon q k i j -
      weight_y T j i (j - 1) * weno_flux_y T epsilon q k i (j - 1)))"
  have eq': "weno_kernel_y g T epsilon q t = parallel_for ?cells (\<lambda>c t. if fluid T c \<noteq> 1 then t else t(c := t c + f' c)) t"
    unfolding weno_kernel_y_def
    by (rule parallel_for_cong, rule refl, rule ext) (clarsimp simp: f'_def weight_y_def Let_def algebra_simps)
  show "weno_kernel_y g T epsilon q t (k, j, i) = t (k, j, i) -
      (weight_y T j i j * weno_flux_y T epsilon q k i j - weight_y T j i (j - 1) * weno_flux_y T epsilon q k i (j - 1))"
    unfolding eq' accumulate_kernel [OF distinct_physical_cells] using assms by (auto simp: f'_def weno_flux_y_def dry)
qed

text \<open>The scheme conserves the tracer: its three directions leave, of the sum over the cells of the process,
  the fluxes through the lateral faces of the subdomain only, with or without terrain.\<close>

theorem weno_conserves_mass:
  fixes g T q epsilon
  defines "h \<equiv> get_halo_cells g" and "nz' \<equiv> get_local_total_points_z g - get_halo_cells g"
    and "ny' \<equiv> get_local_total_points_y g - get_halo_cells g" and "nx' \<equiv> get_local_total_points_x g - get_halo_cells g"
  defines "fx \<equiv> weno_flux_x T epsilon q" and "fy \<equiv> weno_flux_y T epsilon q"
  assumes "h < nz'" "h \<le> ny'" "h < nx'" and "name \<notin> {''xi'', ''eta'', ''zeta''}"
    and "\<And>k. rdz T * flex_height_coef_mid T k \<noteq> 0" and "\<And>j i. cartesian T \<or> inv_sqrt_g T (j, i) \<noteq> 0"
  shows "\<exists>t. weno_advection_tendency g T False name epsilon name q (\<lambda>_. 0) = Inr t \<and>
    (\<Sum>k \<in> {h..<nz'}. \<Sum>j \<in> {h..<ny'}. \<Sum>i \<in> {h..<nx'}. cell_area T j i * thickness T k * t (k, j, i)) =
    - (\<Sum>k \<in> {h..<nz'}. \<Sum>j \<in> {h..<ny'}. thickness T k *
        (area_x T j (nx' - 1) * fx k j (nx' - 1) - area_x T j (h - 1) * fx k j (h - 1))) -
      (\<Sum>k \<in> {h..<nz'}. \<Sum>i \<in> {h..<nx'}. thickness T k *
        (area_y T i (ny' - 1) * fy k i (ny' - 1) - area_y T i (h - 1) * fy k i (h - 1)))"
proof -
  define t where "t = calculate_flux_convergence_z g T False name q
      (weno_kernel_y g T epsilon q (weno_kernel_x g T epsilon q (\<lambda>_. 0)))"
  define fz where "fz = (\<lambda>j i. get_flux_z h (get_local_total_points_z g) False name
      (\<lambda>z. mass_z T (z, j, i)) (\<lambda>z. q (z, j, i)))"
  have x: "get_halo_cells g < get_local_total_points_x g - get_halo_cells g"
    using assms(9) by (simp add: h_def nx'_def)
  have area: "cell_area T j i * weight_x T j i f = area_x T j f" "cell_area T j i * weight_y T j i f = area_y T i f" for j i f
    using assms(12) [of j i] by (auto simp: cell_area_def weight_x_def weight_y_def area_x_def area_y_def)
  have dz: "thickness T k * (rdz T * flex_height_coef_mid T k) = 1" for k
    using assms(11) [of k] by (simp add: thickness_def)
  have cell: "cell_area T j i * thickness T k * t (k, j, i) =
      - (thickness T k * (area_x T j i * fx k j i) - thickness T k * (area_x T j (i - 1) * fx k j (i - 1))) -
        (thickness T k * (area_y T i j * fy k i j) - thickness T k * (area_y T i (j - 1) * fy k i (j - 1))) -
        (cell_area T j i * (1 / 2 * fz j i k) - cell_area T j i * (1 / 2 * fz j i (k - 1)))"
    if "k \<in> {h..<nz'}" "j \<in> {h..<ny'}" "i \<in> {h..<nx'}" for k j i
  proof -
    have c: "(k, j, i) \<in> set (physical_cells g (get_halo_cells g) (get_local_total_points_z g - get_halo_cells g))"
      using that by (auto simp: in_physical_cells h_def nz'_def ny'_def nx'_def)
    have "t (k, j, i) = - (weight_x T j i i * fx k j i - weight_x T j i (i - 1) * fx k j (i - 1)) -
        (weight_y T j i j * fy k i j - weight_y T j i (j - 1) * fy k i (j - 1)) -
        rdz T * flex_height_coef_mid T k * (1 / 2 * fz j i k - 1 / 2 * fz j i (k - 1))"
      using c unfolding t_def convergence_z_cell [OF x assms(10)]
      by (simp add: weno_kernel_cell [OF c] in_physical_cells interior_def convergence_z_def Let_def fx_def fy_def fz_def h_def
          algebra_simps)
    then show ?thesis by (simp only:) (rule weighted_divergence [OF area(1) area(1) area(2) area(2) dz])
  qed
  have lid: "fz j i (nz' - 1) = 0" "fz j i (h - 1) = 0" for j i
    using assms(7,10) by (simp_all add: fz_def get_flux_z_def nz'_def h_def)
  have calc: "weno_advection_tendency g T False name epsilon name q (\<lambda>_. 0) = Inr t"
    by (simp add: weno_advection_tendency_def t_def)
  show ?thesis
    using calc sum_box [where X = "\<lambda>k j i. thickness T k * (area_x T j i * fx k j i)"
        and Y = "\<lambda>k i j. thickness T k * (area_y T i j * fy k i j)"
        and Z = "\<lambda>j i k. cell_area T j i * (1 / 2 * fz j i k)",
        OF less_imp_le [OF assms(7)] assms(8) less_imp_le [OF assms(9)] cell]
    by (intro exI [of _ t] conjI) (simp_all add: lid right_diff_distrib)
qed

lemma weno_conserves_mass_witness:
  "\<exists>t. weno_advection_tendency (distributed (sample_grid 3 3) (1, 1) (0, 0)) sample_transport False ''tr'' (1 / 1000000)
     ''tr'' (\<lambda>_. 1) (\<lambda>_. 0) = Inr t \<and>
     (\<Sum>k \<in> {2..<6}. \<Sum>j \<in> {2..<5}. \<Sum>i \<in> {2..<5}. t (k, j, i)) = (0 :: real)"
proof -
  have "rdz sample_transport * flex_height_coef_mid sample_transport k \<noteq> 0" "cartesian sample_transport" for k
    by (simp_all add: sample_transport_def)
  then show ?thesis
    using weno_conserves_mass [of "distributed (sample_grid 3 3) (1, 1) (0, 0)" "''tr''" sample_transport "1 / 1000000" "\<lambda>_. 1",
        unfolded sample_extents]
    by (simp add: sample_transport_def thickness_def cell_area_def area_x_def area_y_def weno_flux_x_def weno_flux_y_def
        weno_face_flux_def reconstruct_left_def smoothness_def Let_def)
qed

end
