(* ===== verification/Numerical_Method.thy ===== *)
theory Numerical_Method
  imports Weno5 Json_Config
begin

text \<open>
  \<open>dynamics/numerical_methods\<close>: from the configuration of a prognostic variable to the terms and the time
  integrator that advance it, with the option parsing of \<open>MUSCL\<close> and \<open>WENO5\<close>.  The members of a JSON object come
  in the order of its iteration.  A term computes its tendency by a function of the model's state, which is a
  parameter of \<open>advance\<close>.
\<close>

section \<open>The code\<close>

datatype numerical_error =
    Json_error
  | Scheme_options_not_object
  | Limiter_not_string
  | Unknown_limiter string
  | Option_not_numeric string
  | Option_not_finite string
  | Negative_lower_bound
  | Max_cfl_not_positive
  | Unknown_weno_option string
  | Invalid_epsilon
  | Unsupported_pairing
  | Additional_tendency_terms
  | Halo_width_insufficient
  | Too_few_physical_cells
  | Tracer_term_unsupported string
  | Unknown_temporal_scheme string
  | Unknown_spatial_scheme string
  | Mapped_takacs_unsupported string
  | Muscl_ineligible
  | Weno5_limited_to_tracers
  | Ssprk2_spatial_scheme_unsupported string
  | No_canonical_vorticity_tendencies
  | Unknown_tendency_term string
  | Empty_tendency_term
  | Mixed_multistage
  | Inconsistent_multistage

subsection \<open>JSON access\<close>

text \<open>\<open>json::value(key, default)\<close> and \<open>json::at(key)\<close>.\<close>

definition json_value :: "(json \<Rightarrow> 'a option) \<Rightarrow> json \<Rightarrow> string \<Rightarrow> 'a \<Rightarrow> numerical_error + 'a" where
  "json_value conv j key dflt =
     (if \<not> is_object j then Inl Json_error
      else case member j key of
             None \<Rightarrow> Inr dflt
           | Some v \<Rightarrow> (case conv v of None \<Rightarrow> Inl Json_error | Some x \<Rightarrow> Inr x))"

definition json_at :: "(json \<Rightarrow> 'a option) \<Rightarrow> json \<Rightarrow> string \<Rightarrow> numerical_error + 'a" where
  "json_at conv j key =
     (case member j key of
        None \<Rightarrow> Inl Json_error
      | Some v \<Rightarrow> (case conv v of None \<Rightarrow> Inl Json_error | Some x \<Rightarrow> Inr x))"

definition is_number :: "json \<Rightarrow> bool" where
  "is_number j = (case j of JInt _ \<Rightarrow> True | JFloat _ \<Rightarrow> True | _ \<Rightarrow> False)"

definition is_string :: "json \<Rightarrow> bool" where
  "is_string j = (case j of JString _ \<Rightarrow> True | _ \<Rightarrow> False)"

subsection \<open>Scheme options\<close>

record muscl_options =
  lower_bound :: fp
  max_cfl :: fp

definition muscl_required_halo_width :: int where
  "muscl_required_halo_width = 2"

definition weno5_required_halo_width :: int where
  "weno5_required_halo_width = 3"

definition read_finite_number :: "json \<Rightarrow> string \<Rightarrow> fp \<Rightarrow> numerical_error + fp" where
  "read_finite_number options key dflt =
     (case member options key of
        None \<Rightarrow> Inr dflt
      | Some v \<Rightarrow>
          rbind (throw_if (\<not> is_number v) (Option_not_numeric key)) (\<lambda>_.
          rbind (json_at as_double options key) (\<lambda>x.
          rbind (throw_if (\<not> is_finite x) (Option_not_finite key)) (\<lambda>_. Inr x))))"

definition muscl_parse_options :: "json \<Rightarrow> numerical_error + muscl_options" where
  "muscl_parse_options advection_config =
     (let options = (case member advection_config ''scheme_options'' of None \<Rightarrow> JObject [] | Some o' \<Rightarrow> o') in
      rbind (throw_if (\<not> is_object options) Scheme_options_not_object) (\<lambda>_.
      rbind (throw_if (\<exists>v. member options ''limiter'' = Some v \<and> \<not> is_string v) Limiter_not_string) (\<lambda>_.
      rbind (json_value as_string options ''limiter'' ''vanLeer'') (\<lambda>limiter.
      rbind (throw_if (limiter \<noteq> ''vanLeer'') (Unknown_limiter limiter)) (\<lambda>_.
      rbind (read_finite_number options ''lower_bound'' (Fin 0)) (\<lambda>lb.
      rbind (read_finite_number options ''max_cfl'' (Fin (9 / 10))) (\<lambda>cfl.
      rbind (throw_if (fp_less lb (Fin 0)) Negative_lower_bound) (\<lambda>_.
      rbind (throw_if (fp_le cfl (Fin 0)) Max_cfl_not_positive) (\<lambda>_.
        Inr \<lparr>lower_bound = lb, max_cfl = cfl\<rparr>)))))))))"

definition weno5_parse_options :: "json \<Rightarrow> numerical_error + fp" where
  "weno5_parse_options advection_config =
     (case member advection_config ''scheme_options'' of
        None \<Rightarrow> Inr (Fin (1 / 1000000))
      | Some options \<Rightarrow>
          rbind (throw_if (\<not> is_object options) Scheme_options_not_object) (\<lambda>_.
          case find (\<lambda>(key, _). key \<noteq> ''epsilon'') (json_items options) of
            Some (key, _) \<Rightarrow> Inl (Unknown_weno_option key)
          | None \<Rightarrow>
              (case member options ''epsilon'' of
                 None \<Rightarrow> Inr (Fin (1 / 1000000))
               | Some v \<Rightarrow>
                   rbind (throw_if (\<not> is_number v) (Option_not_numeric ''epsilon'')) (\<lambda>_.
                   rbind (json_at as_double options ''epsilon'') (\<lambda>x.
                   rbind (throw_if (\<not> is_finite x \<or> fp_le x (Fin 0)) Invalid_epsilon) (\<lambda>_. Inr x))))))"

definition muscl_validate_configuration ::
  "string \<Rightarrow> string \<Rightarrow> json \<Rightarrow> nat \<Rightarrow> int \<Rightarrow> numerical_error + muscl_options" where
  "muscl_validate_configuration spatial temporal advection_config enabled halo_width =
     rbind (throw_if (spatial \<noteq> ''MUSCL'' \<or> temporal \<noteq> ''SSPRK2'') Unsupported_pairing) (\<lambda>_.
     rbind (throw_if (enabled \<noteq> 1) Additional_tendency_terms) (\<lambda>_.
     rbind (throw_if (halo_width < muscl_required_halo_width) Halo_width_insufficient) (\<lambda>_.
       muscl_parse_options advection_config)))"

definition weno5_validate_configuration ::
  "string \<Rightarrow> string \<Rightarrow> json \<Rightarrow> nat \<Rightarrow> int \<Rightarrow> numerical_error + fp" where
  "weno5_validate_configuration spatial temporal advection_config enabled halo_width =
     rbind (throw_if (spatial \<noteq> ''weno5'' \<or> temporal \<noteq> ''SSPRK2'') Unsupported_pairing) (\<lambda>_.
     rbind (throw_if (enabled \<noteq> 1) Additional_tendency_terms) (\<lambda>_.
     rbind (throw_if (halo_width < weno5_required_halo_width) Halo_width_insufficient) (\<lambda>_.
       weno5_parse_options advection_config)))"

subsection \<open>Spatial schemes and terms\<close>

datatype buoyancy_mode = Disabled | Dry | Moist

datatype spatial_scheme =
    Takacs_scheme
  | Generalized_takacs buoyancy_mode
  | Muscl_scheme muscl_options
  | Weno5_scheme fp

datatype temporal_scheme_type = AdamsBashforth2 | ForwardEuler | Multistage

datatype tendency_term =
    Advection string spatial_scheme bool
  | Stretching string spatial_scheme
  | Twisting string spatial_scheme
  | Buoyancy string spatial_scheme
  | Coriolis string spatial_scheme

fun produces_canonical_vorticity_tendency :: "spatial_scheme \<Rightarrow> bool" where
  "produces_canonical_vorticity_tendency (Generalized_takacs _) = True"
| "produces_canonical_vorticity_tendency _ = False"

fun produces_anelastic_scalar_flux_divergence :: "spatial_scheme \<Rightarrow> bool" where
  "produces_anelastic_scalar_flux_divergence Takacs_scheme = False"
| "produces_anelastic_scalar_flux_divergence (Generalized_takacs _) = True"
| "produces_anelastic_scalar_flux_divergence (Muscl_scheme _) = True"
| "produces_anelastic_scalar_flux_divergence (Weno5_scheme _) = True"

definition is_moist_scalar :: "string \<Rightarrow> bool" where
  "is_moist_scalar name \<longleftrightarrow>
     name = ''qv'' \<or> name = ''qc'' \<or> name = ''qr'' \<or> name = ''qi'' \<or> name = ''qm'' \<or>
     name = ''nc'' \<or> name = ''nr'' \<or> name = ''ni'' \<or> name = ''bm''"

definition parse_temporal_scheme :: "string \<Rightarrow> numerical_error + temporal_scheme_type" where
  "parse_temporal_scheme scheme_name =
     (if scheme_name = ''AdamsBashforth2'' then Inr AdamsBashforth2
      else if scheme_name = ''ForwardEuler'' then Inr ForwardEuler
      else if scheme_name = ''SSPRK2'' then Inr Multistage
      else Inl (Unknown_temporal_scheme scheme_name))"

text \<open>The constructors of \<open>MUSCL\<close> and \<open>WENO5\<close> parse the options again and check the grid.\<close>

definition make_muscl :: "json \<Rightarrow> grid \<Rightarrow> numerical_error + spatial_scheme" where
  "make_muscl advection_config g =
     rbind (muscl_parse_options advection_config) (\<lambda>opts.
     rbind (throw_if (get_halo_cells g < muscl_required_halo_width) Halo_width_insufficient) (\<lambda>_.
       Inr (Muscl_scheme opts)))"

definition make_weno5 :: "json \<Rightarrow> grid \<Rightarrow> numerical_error + spatial_scheme" where
  "make_weno5 advection_config g =
     rbind (weno5_parse_options advection_config) (\<lambda>epsilon.
     rbind (throw_if (get_halo_cells g < weno5_required_halo_width) Halo_width_insufficient) (\<lambda>_.
     rbind (throw_if (global_size (dim_x g) > 1 \<and>
              local_physical_size (dim_x g) < weno5_required_halo_width) Too_few_physical_cells) (\<lambda>_.
     rbind (throw_if (global_size (dim_y g) > 1 \<and>
              local_physical_size (dim_y g) < weno5_required_halo_width) Too_few_physical_cells) (\<lambda>_.
       Inr (Weno5_scheme epsilon)))))"

definition geometry_kind_of :: "grid \<Rightarrow> geometry_kind" where
  "geometry_kind_of g = kind (geometry (horizontal (grid_spec g)))"

definition create_spatial_scheme ::
  "grid \<Rightarrow> string \<Rightarrow> string \<Rightarrow> json \<Rightarrow> string \<Rightarrow> bool \<Rightarrow> numerical_error + spatial_scheme" where
  "create_spatial_scheme g var_name term_name term_config scheme_name is_tracer =
     (if scheme_name = ''Takacs'' then
        (if geometry_kind_of g = Cartesian then Inr Takacs_scheme
         else
           (let scalar_advection = (term_name = ''advection'' \<and>
                  (var_name = ''th'' \<or> is_tracer \<or> is_moist_scalar var_name));
                horizontal_buoyancy = (term_name = ''buoyancy'' \<and> \<not> is_tracer \<and>
                  (var_name = ''xi'' \<or> var_name = ''eta''));
                vorticity_term = (\<not> is_tracer \<and>
                  (var_name = ''xi'' \<or> var_name = ''eta'' \<or> var_name = ''zeta'') \<and>
                  (term_name = ''advection'' \<or> term_name = ''stretching'' \<or> term_name = ''twisting'' \<or>
                   term_name = ''coriolis''))
            in if \<not> scalar_advection \<and> \<not> horizontal_buoyancy \<and> \<not> vorticity_term
               then Inl (Mapped_takacs_unsupported term_name)
               else if horizontal_buoyancy then Inr (Generalized_takacs Moist)
               else Inr (Generalized_takacs Disabled)))
      else if scheme_name = ''MUSCL'' then make_muscl term_config g
      else if scheme_name = ''weno5'' then
        rbind (throw_if (\<not> is_tracer \<or> term_name \<noteq> ''advection'') Weno5_limited_to_tracers) (\<lambda>_.
          make_weno5 term_config g)
      else Inl (Unknown_spatial_scheme scheme_name))"

definition create_tendency_term ::
  "string \<Rightarrow> string \<Rightarrow> spatial_scheme \<Rightarrow> bool \<Rightarrow> numerical_error + tendency_term" where
  "create_tendency_term var_name term_name scheme divide_by_density =
     (if term_name = ''advection'' then Inr (Advection var_name scheme divide_by_density)
      else if term_name = ''stretching'' then Inr (Stretching var_name scheme)
      else if term_name = ''twisting'' then Inr (Twisting var_name scheme)
      else if term_name = ''buoyancy'' then Inr (Buoyancy var_name scheme)
      else if term_name = ''coriolis'' then Inr (Coriolis var_name scheme)
      else Inl (Unknown_tendency_term term_name))"

subsection \<open>A numerical method\<close>

record configured_tendency =
  temporal :: temporal_scheme_type
  tterm :: "tendency_term option"

record state_requirements =
  previous_state :: bool
  ab2_tendency_history :: bool
  forward_euler_tendency :: bool

record numerical_method =
  method_variable :: string
  method_ab2 :: bool
  method_forward_euler :: bool
  ab2_terms :: "tendency_term list"
  forward_euler_terms :: "tendency_term list"
  multistage_terms :: "tendency_term list"
  integrator :: "ssprk2_state time_integrator"

text \<open>The loop of the constructor: the terms of the three kinds, in order.\<close>

fun sort_terms ::
  "configured_tendency list \<Rightarrow> tendency_term list \<times> tendency_term list \<times> tendency_term list \<Rightarrow>
     numerical_error + tendency_term list \<times> tendency_term list \<times> tendency_term list" where
  "sort_terms [] acc = Inr acc"
| "sort_terms (c # cs) (ab2, fe, ms) =
     (case tterm c of
        None \<Rightarrow> Inl Empty_tendency_term
      | Some t \<Rightarrow>
          (case temporal c of
             AdamsBashforth2 \<Rightarrow> sort_terms cs (ab2 @ [t], fe, ms)
           | ForwardEuler \<Rightarrow> sort_terms cs (ab2, fe @ [t], ms)
           | Multistage \<Rightarrow> sort_terms cs (ab2, fe, ms @ [t])))"

definition make_numerical_method ::
  "string \<Rightarrow> configured_tendency list \<Rightarrow> ssprk2_state temporal_scheme option \<Rightarrow> bool \<Rightarrow>
     numerical_error + numerical_method" where
  "make_numerical_method var_name tendencies scheme has_external_forward_euler =
     rbind (sort_terms tendencies ([], [], [])) (\<lambda>(ab2, fe, ms).
       let has_ab2 = ab2 \<noteq> []; has_fe = (has_external_forward_euler \<or> fe \<noteq> []); has_ms = ms \<noteq> [] in
       rbind (throw_if (has_ms \<and> (has_ab2 \<or> has_fe)) Mixed_multistage) (\<lambda>_.
       rbind (throw_if (has_ms \<noteq> (scheme \<noteq> None)) Inconsistent_multistage) (\<lambda>_.
         Inr \<lparr>method_variable = var_name, method_ab2 = has_ab2, method_forward_euler = has_fe,
              ab2_terms = ab2, forward_euler_terms = fe, multistage_terms = ms,
              integrator = \<lparr>variable_name = var_name, has_ab2_terms = has_ab2, has_fe_terms = has_fe,
                            multistage_scheme = scheme\<rparr>\<rparr>)))"

definition requirements_of :: "numerical_method \<Rightarrow> state_requirements" where
  "requirements_of N =
     \<lparr>previous_state = method_ab2 N \<or> method_forward_euler N, ab2_tendency_history = method_ab2 N,
      forward_euler_tendency = method_forward_euler N\<rparr>"

definition uses_multistage_scheme :: "numerical_method \<Rightarrow> bool" where
  "uses_multistage_scheme N \<longleftrightarrow> multistage_scheme (integrator N) \<noteq> None"

text \<open>\<open>compute_stage_tendency\<close> of a term adds the contribution of the term to the array it is given; the values are
  the argument \<open>compute\<close>.  MUSCL throws for a step that is not positive (\<open>dt\<close> is a finite number here); the other
  exceptions of the schemes are for a name other than their own, which \<open>create_spatial_scheme\<close> gives them.\<close>

fun compute_stage_tendency ::
  "(tendency_term \<Rightarrow> real \<Rightarrow> view \<Rightarrow> view \<Rightarrow> view) \<Rightarrow> tendency_term \<Rightarrow> real \<Rightarrow> view \<Rightarrow> view \<Rightarrow> integration_error + view" where
  "compute_stage_tendency compute (Advection name (Muscl_scheme opts) by_density) stage_dt q acc =
     rbind (throw_if (\<not> 0 < stage_dt) Stage_timestep_not_positive) (\<lambda>_.
       Inr (compute (Advection name (Muscl_scheme opts) by_density) stage_dt q acc))"
| "compute_stage_tendency compute term stage_dt q acc = Inr (compute term stage_dt q acc)"

text \<open>The first overload of \<open>advance\<close>.\<close>

definition advance ::
  "numerical_method \<Rightarrow> grid \<Rightarrow> terrain \<Rightarrow> 64 word \<Rightarrow> real \<Rightarrow>
     (tendency_term \<Rightarrow> real \<Rightarrow> view \<Rightarrow> view \<Rightarrow> view) \<Rightarrow> (view \<Rightarrow> view) option \<Rightarrow>
     prognostic \<times> ssprk2_state \<Rightarrow> integration_error + prognostic \<times> ssprk2_state" where
  "advance N g t step dt compute process_stage s =
     (if \<not> uses_multistage_scheme N then
        rbind (step_state (integrator N) g t step dt (fst s)) (\<lambda>p. Inr (p, snd s))
      else
        (let evaluate_tendency = calculate_multistage_tendency (map (compute_stage_tendency compute) (multistage_terms N)) in
         step_multistage (integrator N) g t step dt (Some evaluate_tendency) process_stage s))"

definition advance_target ::
  "numerical_method \<Rightarrow> grid \<Rightarrow> terrain \<Rightarrow> 64 word \<Rightarrow> real \<Rightarrow> prognostic \<Rightarrow> integration_error + prognostic" where
  "advance_target N g t step dt s =
     rbind (throw_if (uses_multistage_scheme N) Target_not_supported) (\<lambda>_.
       step_target (integrator N) g t step dt s)"

subsection \<open>The factory\<close>

definition enabled_tendency_count :: "json \<Rightarrow> numerical_error + nat" where
  "enabled_tendency_count variable_config =
     (case member variable_config ''tendency_terms'' of
        None \<Rightarrow> Inr 0
      | Some terms \<Rightarrow>
          rbind (rmap (\<lambda>(_, v). json_value as_bool v ''enable'' True) (json_items terms)) (\<lambda>enabled.
            Inr (length (filter id enabled))))"

text \<open>One iteration of the loop of \<open>create\<close> over the tendency terms; a disabled term gives \<open>None\<close>.\<close>

definition create_term ::
  "grid \<Rightarrow> string \<Rightarrow> bool \<Rightarrow> bool \<Rightarrow> nat \<Rightarrow> string \<times> json \<Rightarrow> numerical_error + configured_tendency option" where
  "create_term g var_name is_tracer is_thermodynamic enabled item =
     (let (term_name, term_config) = item in
      rbind (json_value as_bool term_config ''enable'' True) (\<lambda>enable.
      if \<not> enable then Inr None
      else
      rbind (throw_if (is_tracer \<and> term_name \<noteq> ''advection'') (Tracer_term_unsupported term_name)) (\<lambda>_.
      rbind (json_at as_string term_config ''spatial_scheme'') (\<lambda>spatial_scheme_name.
      rbind (json_value as_string term_config ''temporal_scheme'' ''AdamsBashforth2'') (\<lambda>temporal_scheme_name.
      rbind (parse_temporal_scheme temporal_scheme_name) (\<lambda>temporal_scheme.
      rbind
        (if spatial_scheme_name = ''MUSCL'' then
           rbind (throw_if (\<not> is_thermodynamic \<or> term_name \<noteq> ''advection'') Muscl_ineligible) (\<lambda>_.
           rbind (muscl_validate_configuration spatial_scheme_name temporal_scheme_name term_config enabled
                    (get_halo_cells g)) (\<lambda>_. Inr ()))
         else if spatial_scheme_name = ''weno5'' then
           rbind (throw_if (\<not> is_tracer \<or> term_name \<noteq> ''advection'') Weno5_limited_to_tracers) (\<lambda>_.
           rbind (weno5_validate_configuration spatial_scheme_name temporal_scheme_name term_config enabled
                    (get_halo_cells g)) (\<lambda>_. Inr ()))
         else throw_if (temporal_scheme = Multistage) (Ssprk2_spatial_scheme_unsupported spatial_scheme_name)) (\<lambda>_.
      rbind (create_spatial_scheme g var_name term_name term_config spatial_scheme_name is_tracer) (\<lambda>scheme.
      rbind (throw_if (\<not> is_tracer \<and> (var_name = ''xi'' \<or> var_name = ''eta'' \<or> var_name = ''zeta'') \<and>
               geometry_kind_of g \<noteq> Cartesian \<and> \<not> produces_canonical_vorticity_tendency scheme)
               No_canonical_vorticity_tendencies) (\<lambda>_.
      rbind (create_tendency_term var_name term_name scheme
               (is_thermodynamic \<and> produces_anelastic_scalar_flux_divergence scheme)) (\<lambda>tendency_term.
        Inr (Some \<lparr>temporal = temporal_scheme, tterm = Some tendency_term\<rparr>)))))))))))"

definition create ::
  "grid \<Rightarrow> string \<Rightarrow> json \<Rightarrow> bool \<Rightarrow> bool \<Rightarrow> bool \<Rightarrow> numerical_error + numerical_method" where
  "create g var_name variable_config is_tracer is_thermodynamic has_external_forward_euler =
     rbind (enabled_tendency_count variable_config) (\<lambda>enabled.
     rbind (case member variable_config ''tendency_terms'' of
              None \<Rightarrow> Inr []
            | Some terms \<Rightarrow>
                rmap (create_term g var_name is_tracer is_thermodynamic enabled) (json_items terms)) (\<lambda>terms.
       let tendencies = concat (map (\<lambda>t. case t of None \<Rightarrow> [] | Some c \<Rightarrow> [c]) terms);
           scheme = (if \<exists>c \<in> set tendencies. temporal c = Multistage then Some ssprk2 else None)
       in make_numerical_method var_name tendencies scheme has_external_forward_euler))"

text \<open>The fields \<open>DynamicalCore\<close> adds for a prognostic variable; \<open>p3\<close> keeps the values of \<open>th\<close> and
  \<open>qv\<close> before the dynamics.\<close>

definition storage_of :: "bool \<Rightarrow> string \<Rightarrow> state_requirements \<Rightarrow> string list" where
  "storage_of p3_enabled var_name requirements =
     (let p3_previous_state = (p3_enabled \<and> (var_name = ''th'' \<or> var_name = ''qv'')) in
      (if previous_state requirements \<or> p3_previous_state
       then [if var_name = ''xi'' then ''xi_con_m'' else if var_name = ''eta'' then ''eta_con_m''
             else var_name @ ''_m''] else []) @
      (if ab2_tendency_history requirements then [''d_'' @ var_name @ ''_0'', ''d_'' @ var_name @ ''_1''] else []) @
      (if forward_euler_tendency requirements then [''fe_tendency_'' @ var_name] else []))"

section \<open>Well-formed methods\<close>

text \<open>What holds of a method: the flags say which terms there are, the integrator has them, and a multistage scheme
  comes with one term kind only.\<close>

definition method_wf :: "numerical_method \<Rightarrow> bool" where
  "method_wf N \<longleftrightarrow>
     (method_ab2 N \<longleftrightarrow> ab2_terms N \<noteq> []) \<and> (forward_euler_terms N \<noteq> [] \<longrightarrow> method_forward_euler N) \<and>
     has_ab2_terms (integrator N) = method_ab2 N \<and> has_fe_terms (integrator N) = method_forward_euler N \<and>
     (multistage_scheme (integrator N) \<noteq> None \<longleftrightarrow> multistage_terms N \<noteq> []) \<and>
     (multistage_scheme (integrator N) \<in> {None, Some ssprk2}) \<and>
     (multistage_terms N \<noteq> [] \<longrightarrow> \<not> method_ab2 N \<and> \<not> method_forward_euler N)"

lemma sort_terms_sorts:
  "sort_terms cs (a, f, m) = Inr (a', f', m') \<longleftrightarrow> (\<forall>c \<in> set cs. tterm c \<noteq> None) \<and>
     a' = a @ [the (tterm c). c \<leftarrow> cs, temporal c = AdamsBashforth2] \<and>
     f' = f @ [the (tterm c). c \<leftarrow> cs, temporal c = ForwardEuler] \<and>
     m' = m @ [the (tterm c). c \<leftarrow> cs, temporal c = Multistage]"
  by (induction cs "(a, f, m)" arbitrary: a f m rule: sort_terms.induct)
     (auto split: option.splits temporal_scheme_type.splits)

lemma make_numerical_method_wf:
  assumes "make_numerical_method name cs scheme ext = Inr N" and "scheme \<in> {None, Some ssprk2}"
  shows "method_wf N" and "ext \<longrightarrow> method_forward_euler N"
    and "ab2_terms N = [the (tterm c). c \<leftarrow> cs, temporal c = AdamsBashforth2]"
    and "forward_euler_terms N = [the (tterm c). c \<leftarrow> cs, temporal c = ForwardEuler]"
    and "multistage_terms N = [the (tterm c). c \<leftarrow> cs, temporal c = Multistage]"
    and "variable_name (integrator N) = name"
proof -
  obtain ab2 fe ms where sorted: "sort_terms cs ([], [], []) = Inr (ab2, fe, ms)"
    and ok: "\<not> (ms \<noteq> [] \<and> (ab2 \<noteq> [] \<or> ext \<or> fe \<noteq> []))" "(ms \<noteq> []) = (scheme \<noteq> None)"
    and N: "N = \<lparr>method_variable = name, method_ab2 = ab2 \<noteq> [], method_forward_euler = ext \<or> fe \<noteq> [],
              ab2_terms = ab2, forward_euler_terms = fe, multistage_terms = ms,
              integrator = \<lparr>variable_name = name, has_ab2_terms = ab2 \<noteq> [], has_fe_terms = ext \<or> fe \<noteq> [],
                            multistage_scheme = scheme\<rparr>\<rparr>"
    using assms(1) unfolding make_numerical_method_def Let_def
    by (elim rbind_InrE) (simp only: throw_if_eq_Inr_iff sum.inject split: prod.splits, elim rbind_InrE, force)
  show "method_wf N" "ext \<longrightarrow> method_forward_euler N" "variable_name (integrator N) = name"
    using ok assms(2) by (auto simp: N method_wf_def)
  show "ab2_terms N = [the (tterm c). c \<leftarrow> cs, temporal c = AdamsBashforth2]"
    "forward_euler_terms N = [the (tterm c). c \<leftarrow> cs, temporal c = ForwardEuler]"
    "multistage_terms N = [the (tterm c). c \<leftarrow> cs, temporal c = Multistage]"
    using sorted by (simp_all add: sort_terms_sorts N)
qed

text \<open>The configuration check of a term: an SSPRK2 term is the only enabled one and advects with MUSCL or
  WENO5, and those schemes need SSPRK2.\<close>

definition check_term :: "grid \<Rightarrow> bool \<Rightarrow> bool \<Rightarrow> nat \<Rightarrow> string \<Rightarrow> json \<Rightarrow> string \<Rightarrow> string \<Rightarrow> temporal_scheme_type \<Rightarrow>
    numerical_error + unit" where
  "check_term g is_tracer is_thermodynamic enabled term_name term_config spatial_name temporal_name ts =
     (if spatial_name = ''MUSCL'' then
        rbind (throw_if (\<not> is_thermodynamic \<or> term_name \<noteq> ''advection'') Muscl_ineligible) (\<lambda>_.
        rbind (muscl_validate_configuration spatial_name temporal_name term_config enabled
                 (get_halo_cells g)) (\<lambda>_. Inr ()))
      else if spatial_name = ''weno5'' then
        rbind (throw_if (\<not> is_tracer \<or> term_name \<noteq> ''advection'') Weno5_limited_to_tracers) (\<lambda>_.
        rbind (weno5_validate_configuration spatial_name temporal_name term_config enabled
                 (get_halo_cells g)) (\<lambda>_. Inr ()))
      else throw_if (ts = Multistage) (Ssprk2_spatial_scheme_unsupported spatial_name))"

lemma check_term_ok:
  assumes "check_term g is_tracer is_thermo enabled term_name config spatial temporal_name ts = Inr ()"
    and "parse_temporal_scheme temporal_name = Inr ts"
  shows "(ts = Multistage) = (spatial = ''MUSCL'' \<or> spatial = ''weno5'')"
    and "ts = Multistage \<Longrightarrow> enabled = 1 \<and> term_name = ''advection''"
    and "spatial = ''MUSCL'' \<Longrightarrow> is_thermo \<and> 2 \<le> get_halo_cells g"
    and "spatial = ''weno5'' \<Longrightarrow> is_tracer \<and> 3 \<le> get_halo_cells g"
  using assms
  by (auto simp: check_term_def parse_temporal_scheme_def muscl_validate_configuration_def
      weno5_validate_configuration_def rbind_eq_Inr_iff muscl_required_halo_width_def weno5_required_halo_width_def
      split: if_splits)

text \<open>The steps of \<open>create_term\<close> for an enabled term that is accepted.\<close>

lemma create_term_steps:
  assumes "create_term g name is_tracer is_thermo enabled (term_name, config) = Inr (Some c)"
  shows "\<exists>spatial temporal_name ts scheme t.
    (is_tracer \<longrightarrow> term_name = ''advection'') \<and> parse_temporal_scheme temporal_name = Inr ts \<and>
    check_term g is_tracer is_thermo enabled term_name config spatial temporal_name ts = Inr () \<and>
    create_spatial_scheme g name term_name config spatial is_tracer = Inr scheme \<and>
    create_tendency_term name term_name scheme (is_thermo \<and> produces_anelastic_scalar_flux_divergence scheme) = Inr t \<and>
    c = \<lparr>temporal = ts, tterm = Some t\<rparr>"
proof -
  note steps = assms [unfolded create_term_def Let_def prod.case check_term_def [symmetric]]
  then obtain x where x: "json_value as_bool config ''enable'' True = Inr x" by (rule rbind_InrE)
  then have x by (cases x) (use steps in simp_all)
  with x have "json_value as_bool config ''enable'' True = Inr True" by simp
  note enabled = steps [unfolded this rbind_Inr not_True_eq_False if_False]
  then show ?thesis
  proof (elim rbind_InrE)
    fix u spatial temporal_name ts v scheme w t
    assume "throw_if (is_tracer \<and> term_name \<noteq> ''advection'') (Tracer_term_unsupported term_name) = Inr u"
      and "parse_temporal_scheme temporal_name = Inr ts"
      and "check_term g is_tracer is_thermo enabled term_name config spatial temporal_name ts = Inr v"
      and "create_spatial_scheme g name term_name config spatial is_tracer = Inr scheme"
      and "create_tendency_term name term_name scheme (is_thermo \<and> produces_anelastic_scalar_flux_divergence scheme) = Inr t"
      and "Inr (Some \<lparr>temporal = ts, tterm = Some t\<rparr>) = Inr (Some c)"
    then show ?thesis
      by (intro exI [of _ spatial] exI [of _ temporal_name] exI [of _ ts] exI [of _ scheme] exI [of _ t]) simp
  qed
qed

lemma rmap_Inr: "rmap f xs = Inr ys \<longleftrightarrow> list_all2 (\<lambda>x y. f x = Inr y) xs ys"
  by (induction xs arbitrary: ys) (auto simp: rbind_eq_Inr_iff list_all2_Cons1)

definition terms_of :: "json \<Rightarrow> (string \<times> json) list" where
  "terms_of config = (case member config ''tendency_terms'' of None \<Rightarrow> [] | Some terms \<Rightarrow> json_items terms)"

definition kept :: "configured_tendency option list \<Rightarrow> configured_tendency list" where
  "kept ts = concat (map (\<lambda>t. case t of None \<Rightarrow> [] | Some c \<Rightarrow> [c]) ts)"

lemma set_kept: "c \<in> set (kept ts) \<longleftrightarrow> Some c \<in> set ts"
  by (auto simp: kept_def split: option.splits)

lemma create_steps:
  assumes "create g name config is_tracer is_thermo ext = Inr N"
  shows "\<exists>enabled flags ts. enabled = length (filter id flags) \<and>
    list_all2 (\<lambda>x y. json_value as_bool (snd x) ''enable'' True = Inr y) (terms_of config) flags \<and>
    list_all2 (\<lambda>x y. create_term g name is_tracer is_thermo enabled x = Inr y) (terms_of config) ts \<and>
    make_numerical_method name (kept ts)
      (if \<exists>c \<in> set (kept ts). temporal c = Multistage then Some ssprk2 else None) ext = Inr N"
proof (cases "member config ''tendency_terms''")
  case None
  then show ?thesis
    using assms by (intro exI [of _ 0] exI [of _ "[]"]) (simp add: create_def enabled_tendency_count_def terms_of_def kept_def)
next
  case (Some items)
  note steps = assms [unfolded create_def enabled_tendency_count_def Some option.case Let_def kept_def [symmetric]]
  then obtain flags ts where "rmap (\<lambda>(_, v). json_value as_bool v ''enable'' True) (json_items items) = Inr flags"
    "rmap (create_term g name is_tracer is_thermo (length (filter id flags))) (json_items items) = Inr ts"
    "make_numerical_method name (kept ts)
      (if \<exists>c \<in> set (kept ts). temporal c = Multistage then Some ssprk2 else None) ext = Inr N"
    by (elim rbind_InrE) (simp only: sum.inject)
  then show ?thesis
    by (intro exI [of _ "length (filter id flags)"] exI [of _ flags] exI [of _ ts])
       (simp add: rmap_Inr terms_of_def Some case_prod_beta split del: if_split)
qed

lemma kept_length:
  assumes "list_all2 (\<lambda>x y. json_value as_bool (snd x) ''enable'' True = Inr y) items flags"
    and "list_all2 (\<lambda>x y. create_term g name is_tracer is_thermo enabled x = Inr y) items ts"
  shows "length (kept ts) = length (filter id flags)"
  using assms
proof (induction items arbitrary: flags ts)
  case Nil
  then show ?case by (simp add: kept_def)
next
  case (Cons item items)
  obtain n v where item: "item = (n, v)" by (cases item)
  from Cons.prems obtain f flags' t ts' where eq: "flags = f # flags'" "ts = t # ts'"
    and f: "json_value as_bool v ''enable'' True = Inr f"
    and t: "create_term g name is_tracer is_thermo enabled (n, v) = Inr t"
    and tail: "list_all2 (\<lambda>x y. json_value as_bool (snd x) ''enable'' True = Inr y) items flags'"
      "list_all2 (\<lambda>x y. create_term g name is_tracer is_thermo enabled x = Inr y) items ts'"
    by (auto simp: list_all2_Cons1 item)
  have "f \<longleftrightarrow> t \<noteq> None"
    using t f unfolding create_term_def Let_def prod.case by (cases f) (auto elim!: rbind_InrE)
  then show ?case using Cons.IH [OF tail] by (cases t) (simp_all add: eq kept_def)
qed

lemma create_spatial_scheme_muscl:
  "create_spatial_scheme g name term_name config ''MUSCL'' tr = Inr s \<Longrightarrow> \<exists>opts. s = Muscl_scheme opts"
  by (auto simp: create_spatial_scheme_def make_muscl_def elim!: rbind_InrE)

lemma create_spatial_scheme_weno5:
  "create_spatial_scheme g name term_name config ''weno5'' tr = Inr s \<Longrightarrow> \<exists>epsilon. s = Weno5_scheme epsilon"
  by (auto simp: create_spatial_scheme_def make_weno5_def elim!: rbind_InrE)

text \<open>An accepted term of a tracer advects; an accepted SSPRK2 term advects with MUSCL or WENO5.\<close>

definition ssprk2_term :: "grid \<Rightarrow> string \<Rightarrow> bool \<Rightarrow> bool \<Rightarrow> tendency_term \<Rightarrow> bool" where
  "ssprk2_term g name is_tracer is_thermo t \<longleftrightarrow>
     (\<exists>opts. t = Advection name (Muscl_scheme opts) is_thermo \<and> is_thermo \<and> 2 \<le> get_halo_cells g) \<or>
     (\<exists>epsilon. t = Advection name (Weno5_scheme epsilon) is_thermo \<and> is_tracer \<and> 3 \<le> get_halo_cells g)"

lemma create_term_kinds:
  assumes "create_term g name is_tracer is_thermo enabled item = Inr (Some c)"
  shows "\<exists>t. tterm c = Some t" and "is_tracer \<Longrightarrow> \<exists>scheme n. tterm c = Some (Advection name scheme n)"
    and "temporal c = Multistage \<Longrightarrow> enabled = 1 \<and> ssprk2_term g name is_tracer is_thermo (the (tterm c))"
proof -
  obtain term_name config where item: "item = (term_name, config)" by (cases item)
  obtain spatial temporal_name ts scheme t where steps:
    "is_tracer \<longrightarrow> term_name = ''advection''" "parse_temporal_scheme temporal_name = Inr ts"
    "check_term g is_tracer is_thermo enabled term_name config spatial temporal_name ts = Inr ()"
    "create_spatial_scheme g name term_name config spatial is_tracer = Inr scheme"
    "create_tendency_term name term_name scheme (is_thermo \<and> produces_anelastic_scalar_flux_divergence scheme) = Inr t"
    "c = \<lparr>temporal = ts, tterm = Some t\<rparr>"
    using create_term_steps [OF assms [unfolded item]] by (elim exE conjE) (rule that)
  note check = check_term_ok [OF steps(3,2)]
  have adv: "t = Advection name scheme (is_thermo \<and> produces_anelastic_scalar_flux_divergence scheme)"
    if "term_name = ''advection''"
    using steps(5) that by (simp add: create_tendency_term_def)
  show "\<exists>t. tterm c = Some t" by (simp add: steps(6))
  show "\<exists>scheme n. tterm c = Some (Advection name scheme n)" if is_tracer
    using adv steps(1,6) that by simp
  show "enabled = 1 \<and> ssprk2_term g name is_tracer is_thermo (the (tterm c))" if "temporal c = Multistage"
  proof -
    have ms: "ts = Multistage" using that steps(6) by simp
    have e: "enabled = 1 \<and> term_name = ''advection''" by (rule check(2) [OF ms])
    from ms check(1) have "spatial = ''MUSCL'' \<or> spatial = ''weno5''" by simp
    then show ?thesis
    proof
      assume "spatial = ''MUSCL''"
      moreover from this obtain opts where "scheme = Muscl_scheme opts"
        using create_spatial_scheme_muscl steps(4) by blast
      ultimately show ?thesis using check(3) adv e by (simp add: ssprk2_term_def steps(6))
    next
      assume "spatial = ''weno5''"
      moreover from this obtain epsilon where "scheme = Weno5_scheme epsilon"
        using create_spatial_scheme_weno5 steps(4) by blast
      ultimately show ?thesis using check(4) adv e by (simp add: ssprk2_term_def steps(6))
    qed
  qed
qed

text \<open>C28. A method the factory builds is well-formed: its flags, its terms and its integrator agree, the terms of a
  tracer advect, and a multistage method has exactly one term, which advects with MUSCL or WENO5 on a halo
  wide enough, and no external forcing.\<close>

theorem created_method_is_well_formed:
  assumes "create g name config is_tracer is_thermo ext = Inr N"
  shows "method_wf N \<and> variable_name (integrator N) = name \<and> (ext \<longrightarrow> method_forward_euler N) \<and>
    (is_tracer \<longrightarrow> (\<forall>t \<in> set (ab2_terms N) \<union> set (forward_euler_terms N) \<union> set (multistage_terms N).
       \<exists>scheme n. t = Advection name scheme n)) \<and>
    (uses_multistage_scheme N \<longrightarrow> \<not> ext \<and> (\<exists>t. multistage_terms N = [t] \<and> ssprk2_term g name is_tracer is_thermo t))"
proof -
  obtain enabled flags ts where enabled: "enabled = length (filter id flags)"
    and flags: "list_all2 (\<lambda>x y. json_value as_bool (snd x) ''enable'' True = Inr y) (terms_of config) flags"
    and ts: "list_all2 (\<lambda>x y. create_term g name is_tracer is_thermo enabled x = Inr y) (terms_of config) ts"
    and make: "make_numerical_method name (kept ts)
      (if \<exists>c \<in> set (kept ts). temporal c = Multistage then Some ssprk2 else None) ext = Inr N"
    using create_steps [OF assms] by blast
  note made = make_numerical_method_wf [OF make]
  have kinds: "\<exists>item. create_term g name is_tracer is_thermo enabled item = Inr (Some c)" if "c \<in> set (kept ts)" for c
  proof -
    from that have "Some c \<in> set ts" by (simp add: set_kept)
    then obtain i where "i < length ts" "ts ! i = Some c" by (auto simp: in_set_conv_nth)
    with ts have "create_term g name is_tracer is_thermo enabled (terms_of config ! i) = Inr (Some c)"
      by (simp add: list_all2_conv_all_nth)
    then show ?thesis by blast
  qed
  have wf: "method_wf N" "ext \<longrightarrow> method_forward_euler N" "variable_name (integrator N) = name" using made(1,2,6) by simp_all
  have terms: "t \<in> the ` tterm ` set (kept ts)"
    if "t \<in> set (ab2_terms N) \<union> set (forward_euler_terms N) \<union> set (multistage_terms N)" for t
    using that made(3-5) by auto
  have "\<forall>t \<in> set (ab2_terms N) \<union> set (forward_euler_terms N) \<union> set (multistage_terms N).
       \<exists>scheme n. t = Advection name scheme n" if is_tracer
  proof
    fix t assume "t \<in> set (ab2_terms N) \<union> set (forward_euler_terms N) \<union> set (multistage_terms N)"
    from terms [OF this] obtain c where "c \<in> set (kept ts)" "t = the (tterm c)" by blast
    then show "\<exists>scheme n. t = Advection name scheme n"
      using kinds create_term_kinds(2) [OF _ that] by fastforce
  qed
  moreover have "\<not> ext \<and> (\<exists>t. multistage_terms N = [t] \<and> ssprk2_term g name is_tracer is_thermo t)" if "uses_multistage_scheme N"
  proof -
    have "multistage_terms N \<noteq> []" using wf(1) that by (simp add: method_wf_def uses_multistage_scheme_def)
    then obtain c where c: "c \<in> set (kept ts)" "temporal c = Multistage" using made(5) by auto
    from kinds [OF c(1)] create_term_kinds(3) [OF _ c(2)]
    have "enabled = 1" and t: "ssprk2_term g name is_tracer is_thermo (the (tterm c))" by blast+
    then have "length (kept ts) = 1" using kept_length [OF flags ts] enabled by simp
    with c(1) have "kept ts = [c]" by (cases "kept ts") auto
    then have "multistage_terms N = [the (tterm c)]" using made(5) c(2) by simp
    moreover have "\<not> ext" using wf(1,2) that by (auto simp: method_wf_def uses_multistage_scheme_def)
    ultimately show ?thesis using t by blast
  qed
  ultimately show ?thesis using wf by blast
qed

definition sample_muscl_config :: json where
  "sample_muscl_config =
     JObject [(''tendency_terms'', JObject [(''advection'',
       JObject [(''spatial_scheme'', JString ''MUSCL''), (''temporal_scheme'', JString ''SSPRK2'')]),
       (''buoyancy'', JObject [(''enable'', JBool False)])])]"

definition sample_muscl_term :: tendency_term where
  "sample_muscl_term = Advection ''th'' (Muscl_scheme \<lparr>lower_bound = Fin 0, max_cfl = Fin (9 / 10)\<rparr>) True"

definition sample_muscl_method :: numerical_method where
  "sample_muscl_method =
     \<lparr>method_variable = ''th'', method_ab2 = False, method_forward_euler = False,
      ab2_terms = [], forward_euler_terms = [], multistage_terms = [sample_muscl_term],
      integrator = \<lparr>variable_name = ''th'', has_ab2_terms = False, has_fe_terms = False,
                    multistage_scheme = Some ssprk2\<rparr>\<rparr>"

lemma sample_method_created:
  "create (sample_grid 3 3) ''th'' sample_muscl_config False True False = Inr sample_muscl_method"
  by (simp add: create_def sample_muscl_config_def enabled_tendency_count_def member_def json_items_def json_value_def
      is_object_def create_term_def json_at_def parse_temporal_scheme_def muscl_validate_configuration_def
      muscl_required_halo_width_def sample_grid_def initial_dimension_def get_halo_cells_def muscl_parse_options_def
      read_finite_number_def create_spatial_scheme_def make_muscl_def create_tendency_term_def make_numerical_method_def
      sample_muscl_method_def sample_muscl_term_def Let_def)

lemma created_method_is_well_formed_witness:
  "method_wf sample_muscl_method \<and> multistage_terms sample_muscl_method = [sample_muscl_term]"
  using created_method_is_well_formed [OF sample_method_created]
  by (simp add: sample_muscl_method_def)

text \<open>External forward-Euler forcing, that is radiation acting on \<open>th\<close>, excludes SSPRK2: a configuration that gives
  a multistage method without the forcing is rejected with it.\<close>

theorem external_forcing_excludes_multistage:
  assumes "create g name config is_tracer is_thermo False = Inr N" and "uses_multistage_scheme N"
  shows "create g name config is_tracer is_thermo True = Inl Mixed_multistage"
proof -
  have ms: "multistage_terms N \<noteq> []" "multistage_scheme (integrator N) = Some ssprk2"
    using created_method_is_well_formed [OF assms(1)] assms(2)
    by (auto simp: uses_multistage_scheme_def method_wf_def)
  have mixed: "make_numerical_method name cs scheme True = Inl Mixed_multistage"
    if make: "make_numerical_method name cs scheme False = Inr N" for cs scheme
  proof -
    from make obtain ab2 fe ms' where sorted: "sort_terms cs ([], [], []) = Inr (ab2, fe, ms')"
      unfolding make_numerical_method_def by (elim rbind_InrE) (metis prod_cases3)
    have "ms' \<noteq> []"
      using make ms(1) by (auto simp: make_numerical_method_def sorted Let_def rbind_eq_Inr_iff)
    then show ?thesis by (simp add: make_numerical_method_def sorted Let_def)
  qed
  from assms(1) show ?thesis
    unfolding create_def Let_def by (elim rbind_InrE) (simp add: mixed)
qed

lemma external_forcing_excludes_multistage_witness:
  "create (sample_grid 3 3) ''th'' sample_muscl_config False True True = Inl Mixed_multistage"
  by (rule external_forcing_excludes_multistage [OF sample_method_created])
     (simp add: uses_multistage_scheme_def sample_muscl_method_def)

section \<open>Advancing a variable\<close>

lemma ssprk2_advance_returns:
  "stage \<in> {0, 1} \<Longrightarrow> \<exists>s'. ssprk2_advance g rhs dt stage s = Inr s'"
  using ssprk2_stages [of g rhs dt "fst s" "snd s"] by (cases s) auto

lemma ssprk2_run_returns:
  assumes "\<And>q. \<exists>t. ev dt q = Inr t" and "set stages \<subseteq> {0, 1}"
  shows "\<exists>s'. run_stages ssprk2 g ev pr dt stages s = Inr s'"
  using assms(2)
proof (induction stages arbitrary: s)
  case Nil
  then show ?case by simp
next
  case (Cons stage stages)
  have dt: "stage_timestep ssprk2 dt stage = dt" by (simp add: ssprk2_def)
  obtain t where t: "ev dt (fst s) = Inr t" using assms(1) by blast
  have "stage \<in> {0, 1}" using Cons.prems by simp
  then obtain q m where "ssprk2_advance g t dt stage s = Inr (q, m)"
    using ssprk2_advance_returns by (metis surj_pair)
  then have "advance_multistage ssprk2 g t dt stage s = Inr (q, m)"
    by (simp add: ssprk2_def)
  then show ?case using t dt Cons by (simp add: Let_def)
qed

text \<open>A method that advances its variable with MUSCL.\<close>

definition uses_muscl :: "numerical_method \<Rightarrow> bool" where
  "uses_muscl N \<longleftrightarrow> (\<exists>name opts by_density. multistage_terms N = [Advection name (Muscl_scheme opts) by_density])"

lemma multistage_tendency_value:
  assumes "multistage_terms N = [a]" and "ssprk2_term g' name is_tracer is_thermo a"
  shows "uses_muscl N \<Longrightarrow> \<not> 0 < dt \<Longrightarrow>
      calculate_multistage_tendency (map (compute_stage_tendency compute) (multistage_terms N)) dt q =
        Inl Stage_timestep_not_positive"
    and "uses_muscl N \<longrightarrow> 0 < dt \<Longrightarrow>
      calculate_multistage_tendency (map (compute_stage_tendency compute) (multistage_terms N)) dt q =
        Inr (compute a dt q (\<lambda>_. 0))"
  using assms by (auto simp: ssprk2_term_def calculate_multistage_tendency_def uses_muscl_def)

text \<open>C29. Progress: with the storage it requires allocated and, for a multistage method, a stage processor, \<open>advance\<close> of a
  method the factory built returns a new state, except that a method with MUSCL fails for a time step that is not
  positive; no other exception of \<open>TimeIntegrator\<close>, \<open>SSPRK2\<close>, \<open>TendencyCalculator\<close> and the schemes is raised.\<close>

theorem created_method_advances:
  assumes "create g' name config is_tracer is_thermo ext = Inr N"
    and "previous_state (requirements_of N) \<longrightarrow> var_m (fst s) \<noteq> None"
    and "uses_multistage_scheme N \<longrightarrow> process \<noteq> None"
  shows "if uses_muscl N \<and> dt \<le> 0
    then advance N g t step dt compute process s = Inl Stage_timestep_not_positive
    else \<exists>s'. advance N g t step dt compute process s = Inr s'"
proof -
  note created = created_method_is_well_formed [OF assms(1)]
  then have wf: "method_wf N" by blast
  show ?thesis
  proof (cases "uses_multistage_scheme N")
    case False
    then have "\<not> uses_muscl N" using wf by (auto simp: uses_muscl_def uses_multistage_scheme_def method_wf_def)
    moreover have "step_state (integrator N) g t step dt (fst s) = step_single_stage (integrator N) g t step dt (fst s)"
      using False by (simp add: step_state_def uses_multistage_scheme_def)
    moreover have "\<exists>p. step_single_stage (integrator N) g t step dt (fst s) = Inr p"
      using assms(2) wf
      by (auto simp: step_single_stage_def Let_def requirements_of_def method_wf_def split: option.splits prod.splits)
    ultimately show ?thesis using False by (auto simp: advance_def)
  next
    case True
    then obtain pr where pr: "process = Some pr" using assms(3) by auto
    obtain a where a: "multistage_terms N = [a]" "ssprk2_term g' name is_tracer is_thermo a"
      using created True by blast
    have ms: "multistage_scheme (integrator N) = Some ssprk2"
      using wf True by (auto simp: uses_multistage_scheme_def method_wf_def)
    have stages: "stage_count ssprk2 = 2" "range1 0 2 = [0, 1]" "stage_timestep ssprk2 dt stage = dt" for stage
      by (simp_all add: ssprk2_def range1_def upto_rec1)
    let ?ev = "calculate_multistage_tendency (map (compute_stage_tendency compute) (multistage_terms N))"
    let ?s0 = "(var (fst s), begin_multistage_step ssprk2 (var (fst s)) (snd s))"
    note result = multistage_tendency_value [OF a, of dt compute]
    show ?thesis
    proof (cases "uses_muscl N \<and> dt \<le> 0")
      case True
      then have "run_stages ssprk2 g ?ev pr dt (range1 0 2) ?s0 = Inl Stage_timestep_not_positive"
        using result(1) by (simp add: stages)
      then show ?thesis
        using True \<open>uses_multistage_scheme N\<close> ms pr by (simp add: advance_def step_multistage_def Let_def stages)
    next
      case False
      then have "\<exists>r. ?ev dt q = Inr r" for q using result(2) by auto
      then have "\<exists>s'. run_stages ssprk2 g ?ev pr dt (range1 0 2) ?s0 = Inr s'"
        by (intro ssprk2_run_returns) (auto simp: stages)
      then obtain q m where "run_stages ssprk2 g ?ev pr dt (range1 0 2) ?s0 = Inr (q, m)" by (metis surj_pair)
      then show ?thesis
        using False \<open>uses_multistage_scheme N\<close> ms pr by (simp add: advance_def step_multistage_def Let_def stages)
    qed
  qed
qed

lemma created_method_advances_witness:
  "(\<exists>s'. advance sample_muscl_method (sample_grid 3 3) sample_terrain 0 1 (\<lambda>t h q acc. acc) (Some id)
     (sample_prognostic\<lparr>var_m := None\<rparr>, \<lparr>original = \<lambda>_. 0, stage_one = \<lambda>_. 0\<rparr>) = Inr s') \<and>
   advance sample_muscl_method (sample_grid 3 3) sample_terrain 0 (- 1) (\<lambda>t h q acc. acc) (Some id)
     (sample_prognostic\<lparr>var_m := None\<rparr>, \<lparr>original = \<lambda>_. 0, stage_one = \<lambda>_. 0\<rparr>) = Inl Stage_timestep_not_positive"
proof -
  let ?s = "(sample_prognostic\<lparr>var_m := None\<rparr>, \<lparr>original = \<lambda>_. 0, stage_one = \<lambda>_. 0\<rparr>)"
  have m: "uses_muscl sample_muscl_method" by (auto simp: uses_muscl_def sample_muscl_method_def sample_muscl_term_def)
  note A = created_method_advances [OF sample_method_created, of ?s "Some id"]
  have pos: "\<not> (1 :: real) \<le> 0" and neg: "(- 1 :: real) \<le> 0" by simp_all
  show ?thesis
    using m pos neg A [where dt = 1 and g = "sample_grid 3 3" and t = sample_terrain and step = 0 and compute = "\<lambda>t h q acc. acc"]
      A [where dt = "- 1" and g = "sample_grid 3 3" and t = sample_terrain and step = 0 and compute = "\<lambda>t h q acc. acc"]
    by (simp add: requirements_of_def sample_muscl_method_def)
qed

text \<open>The storage \<open>DynamicalCore\<close> adds covers what the terms and the integrator look up.\<close>

lemma storage_covers_integrator:
  assumes "method_wf N" and "name \<notin> {''xi'', ''eta''}"
  shows "has_ab2_terms (integrator N) \<longrightarrow>
      {name @ ''_m'', ''d_'' @ name @ ''_0'', ''d_'' @ name @ ''_1''} \<subseteq> set (storage_of p3 name (requirements_of N))"
    and "has_fe_terms (integrator N) \<longrightarrow> ''fe_tendency_'' @ name \<in> set (storage_of p3 name (requirements_of N))"
  using assms by (auto simp: method_wf_def storage_of_def requirements_of_def)

end
