(* ===== verification/Halo_Exchange.thy ===== *)
theory Halo_Exchange
  imports Halo_Degenerate Grid_Decomp
begin

text \<open>
  \<open>core/haloexchange/HaloExchangerMPI.hpp\<close>: the exchange of halo layers between
  neighbouring processes, one process at a time.

  A process is its rank in the Cartesian communicator, a missing neighbour
  (\<open>MPI_PROC_NULL\<close>) is \<open>None\<close>.  The operations are split where the code waits:
  \<open>post_exchange_halo_x\<close> packs the send buffers and returns the requests it posts,
  \<open>wait_exchange_halo_x\<close> completes them and unpacks.  MPI is a parameter: \<open>mail src tag\<close> is
  the message (its length and its entries) that a receive from \<open>src\<close> with \<open>tag\<close> completes
  with.  \<open>Kokkos::fence\<close> has no effect here because kernels run to completion.  The eight
  buffers are functions from an index to a value; \<open>x_extent\<close> and \<open>y_extent\<close> are the
  allocated sizes.  A batch of fields is a list without aliasing.
\<close>

section \<open>State\<close>

datatype halo_tag =
    SEND_TO_RIGHT | SEND_TO_LEFT | SEND_TO_TOP | SEND_TO_BOTTOM
  | SLICE_SEND_TO_RIGHT | SLICE_SEND_TO_LEFT | SLICE_SEND_TO_TOP | SLICE_SEND_TO_BOTTOM

fun tag_code :: "halo_tag \<Rightarrow> int" where
  "tag_code SEND_TO_RIGHT = 10"
| "tag_code SEND_TO_LEFT = 11"
| "tag_code SEND_TO_TOP = 20"
| "tag_code SEND_TO_BOTTOM = 21"
| "tag_code SLICE_SEND_TO_RIGHT = 30"
| "tag_code SLICE_SEND_TO_LEFT = 31"
| "tag_code SLICE_SEND_TO_TOP = 40"
| "tag_code SLICE_SEND_TO_BOTTOM = 41"

datatype face = X_left | X_right | Y_bottom | Y_top

datatype 'a request =
    Irecv face nat int int
  | Isend nat int int "int \<Rightarrow> 'a"

record exchanger =
  grid_ref :: grid
  neighbor_left :: "nat option"
  neighbor_right :: "nat option"
  neighbor_bottom :: "nat option"
  neighbor_top :: "nat option"
  buffer_size_x_2d :: int
  buffer_size_y_2d :: int
  buffer_size_x_3d :: int
  buffer_size_y_3d :: int
  buffer_size_x_4d :: int
  buffer_size_y_4d :: int
  buffer_size_slice_x :: int
  buffer_size_slice_y :: int

record 'a halo_buffers =
  send_x_left :: "int \<Rightarrow> 'a"
  recv_x_left :: "int \<Rightarrow> 'a"
  send_x_right :: "int \<Rightarrow> 'a"
  recv_x_right :: "int \<Rightarrow> 'a"
  send_y_bottom :: "int \<Rightarrow> 'a"
  recv_y_bottom :: "int \<Rightarrow> 'a"
  send_y_top :: "int \<Rightarrow> 'a"
  recv_y_top :: "int \<Rightarrow> 'a"
  x_extent :: int
  y_extent :: int

type_synonym 'a mailbox = "nat \<Rightarrow> int \<Rightarrow> int \<times> (int \<Rightarrow> 'a)"

section \<open>Construction\<close>

text \<open>\<open>cart_shift dim\<close> is what \<open>MPI_Cart_shift(cart_comm, dim, 1, ...)\<close> answers.  Without a
  halo the code leaves the sizes uninitialised and allocates nothing; the model has 0.\<close>

definition halo_exchanger :: "grid \<Rightarrow> (nat \<Rightarrow> nat option \<times> nat option) \<Rightarrow> exchanger" where
  "halo_exchanger g cart_shift =
     (let h = get_halo_cells g;
          nx_total = get_local_total_points_x g; ny_total = get_local_total_points_y g;
          nz_total = get_local_total_points_z g; nw_dummy = 16
      in \<lparr>grid_ref = g,
          neighbor_left = fst (cart_shift 1), neighbor_right = snd (cart_shift 1),
          neighbor_bottom = fst (cart_shift 0), neighbor_top = snd (cart_shift 0),
          buffer_size_x_2d = (if h > 0 then h * ny_total else 0),
          buffer_size_y_2d = (if h > 0 then h * nx_total else 0),
          buffer_size_x_3d = (if h > 0 then h * ny_total * nz_total else 0),
          buffer_size_y_3d = (if h > 0 then h * nx_total * nz_total else 0),
          buffer_size_x_4d = (if h > 0 then h * ny_total * nz_total * nw_dummy else 0),
          buffer_size_y_4d = (if h > 0 then h * nx_total * nz_total * nw_dummy else 0),
          buffer_size_slice_x = (if h > 0 then h * ny_total else 0),
          buffer_size_slice_y = (if h > 0 then h * nx_total else 0)\<rparr>)"

definition max_buffer_size_x :: "exchanger \<Rightarrow> int" where
  "max_buffer_size_x ex =
     max (buffer_size_x_2d ex) (max (buffer_size_x_3d ex)
       (max (buffer_size_x_4d ex) (buffer_size_slice_x ex)))"

definition max_buffer_size_y :: "exchanger \<Rightarrow> int" where
  "max_buffer_size_y ex =
     max (buffer_size_y_2d ex) (max (buffer_size_y_3d ex)
       (max (buffer_size_y_4d ex) (buffer_size_slice_y ex)))"

definition allocate_buffers :: "exchanger \<Rightarrow> ('a :: zero) halo_buffers" where
  "allocate_buffers ex =
     \<lparr>send_x_left = (\<lambda>_. 0), recv_x_left = (\<lambda>_. 0), send_x_right = (\<lambda>_. 0),
      recv_x_right = (\<lambda>_. 0), send_y_bottom = (\<lambda>_. 0), recv_y_bottom = (\<lambda>_. 0),
      send_y_top = (\<lambda>_. 0), recv_y_top = (\<lambda>_. 0),
      x_extent = (if max_buffer_size_x ex > 0 then max_buffer_size_x ex else 0),
      y_extent = (if max_buffer_size_y ex > 0 then max_buffer_size_y ex else 0)\<rparr>"

section \<open>Requests\<close>

definition irecv :: "nat option \<Rightarrow> face \<Rightarrow> halo_tag \<Rightarrow> int \<Rightarrow> 'a request list" where
  "irecv neighbor face tag cnt =
     (case neighbor of None \<Rightarrow> [] | Some src \<Rightarrow> [Irecv face src (tag_code tag) cnt])"

definition isend :: "nat option \<Rightarrow> halo_tag \<Rightarrow> int \<Rightarrow> (int \<Rightarrow> 'a) \<Rightarrow> 'a request list" where
  "isend neighbor tag cnt buf =
     (case neighbor of None \<Rightarrow> [] | Some dest \<Rightarrow> [Isend dest (tag_code tag) cnt buf])"

definition receive :: "int \<Rightarrow> int \<times> (int \<Rightarrow> 'a) \<Rightarrow> (int \<Rightarrow> 'a) \<Rightarrow> int \<Rightarrow> 'a" where
  "receive cnt msg buf = (\<lambda>i. if 0 \<le> i \<and> i < min cnt (fst msg) then snd msg i else buf i)"

fun complete :: "'a mailbox \<Rightarrow> 'a request \<Rightarrow> 'a halo_buffers \<Rightarrow> 'a halo_buffers" where
  "complete mail (Irecv X_left src tag cnt) b =
     b\<lparr>recv_x_left := receive cnt (mail src tag) (recv_x_left b)\<rparr>"
| "complete mail (Irecv X_right src tag cnt) b =
     b\<lparr>recv_x_right := receive cnt (mail src tag) (recv_x_right b)\<rparr>"
| "complete mail (Irecv Y_bottom src tag cnt) b =
     b\<lparr>recv_y_bottom := receive cnt (mail src tag) (recv_y_bottom b)\<rparr>"
| "complete mail (Irecv Y_top src tag cnt) b =
     b\<lparr>recv_y_top := receive cnt (mail src tag) (recv_y_top b)\<rparr>"
| "complete mail (Isend dest tag cnt buf) b = b"

definition waitall :: "'a mailbox \<Rightarrow> 'a request list \<Rightarrow> 'a halo_buffers \<Rightarrow> 'a halo_buffers" where
  "waitall mail reqs b = fold (complete mail) reqs b"

definition halo_depth :: "exchanger \<Rightarrow> int \<Rightarrow> int" where
  "halo_depth ex depth = (if depth = -1 then get_halo_cells (grid_ref ex) else depth)"

section \<open>The X direction\<close>

definition halo_count_x :: "int \<Rightarrow> 'a field \<Rightarrow> int" where
  "halo_count_x h f =
     (if fdim f = 2 then h * ext_y f
      else if fdim f = 3 then h * ext_y f * ext_z f
      else if fdim f = 4 then h * ext_y f * ext_z f * ext_w f
      else 0)"

definition pack_x ::
  "grid \<Rightarrow> int \<Rightarrow> 'a field \<Rightarrow> (int \<Rightarrow> 'a) \<times> (int \<Rightarrow> 'a) \<Rightarrow> (int \<Rightarrow> 'a) \<times> (int \<Rightarrow> 'a)" where
  "pack_x g h f bufs =
     (let off = get_halo_cells g; nx_phys = local_physical_size (dim_x g);
          nz' = ext_z f; ny' = ext_y f; data = fdata f
      in if fdim f = 2 then
           parallel_for (mdrange2 0 0 ny' h)
             (\<lambda>(j, ih) (l, r). (l(j * h + ih := data (0, 0, j, off + ih)),
                               r(j * h + ih := data (0, 0, j, off + nx_phys - h + ih)))) bufs
         else if fdim f = 3 then
           parallel_for (mdrange3 0 0 0 nz' ny' h)
             (\<lambda>(k, j, ih) (l, r). let idx = k * (ny' * h) + j * h + ih in
                (l(idx := data (0, k, j, off + ih)),
                 r(idx := data (0, k, j, off + nx_phys - h + ih)))) bufs
         else if fdim f = 4 then
           parallel_for (mdrange4 0 0 0 0 (ext_w f) nz' ny' h)
             (\<lambda>(w, k, j, ih) (l, r). let idx = w * (nz' * ny' * h) + k * (ny' * h) + j * h + ih in
                (l(idx := data (w, k, j, off + ih)),
                 r(idx := data (w, k, j, off + nx_phys - h + ih)))) bufs
         else bufs)"

definition post_exchange_halo_x ::
  "exchanger \<Rightarrow> int \<Rightarrow> 'a field \<times> 'a halo_buffers \<Rightarrow>
   'a request list \<times> 'a field \<times> 'a halo_buffers" where
  "post_exchange_halo_x ex depth s =
     (let (f, b) = s; g = grid_ref ex; h = halo_depth ex depth; cnt = halo_count_x h f
      in if h = 0 then ([], f, b)
         else if is_singleton_x g then ([], fill_singleton_x_halo (get_halo_cells g) h f, b)
         else if cnt = 0 then ([], f, b)
         else
           (let (l, r) = pack_x g h f (send_x_left b, send_x_right b)
            in (irecv (neighbor_right ex) X_right SEND_TO_LEFT cnt @
                irecv (neighbor_left ex) X_left SEND_TO_RIGHT cnt @
                isend (neighbor_left ex) SEND_TO_LEFT cnt l @
                isend (neighbor_right ex) SEND_TO_RIGHT cnt r,
                f, b\<lparr>send_x_left := l, send_x_right := r\<rparr>)))"

definition unpack_x ::
  "exchanger \<Rightarrow> int \<Rightarrow> (int \<Rightarrow> 'a) \<Rightarrow> (int \<Rightarrow> 'a) \<Rightarrow> 'a field \<Rightarrow> 'a field" where
  "unpack_x ex h recv_l recv_r f =
     (let off = get_halo_cells (grid_ref ex); nx_phys = local_physical_size (dim_x (grid_ref ex));
          left = neighbor_left ex \<noteq> None; right = neighbor_right ex \<noteq> None;
          nz' = ext_z f; ny' = ext_y f
      in if fdim f = 2 then
           f\<lparr>fdata := parallel_for (mdrange2 0 0 ny' h)
             (assign2 left (\<lambda>(j, ih). (0, 0, j, off - h + ih)) (\<lambda>(j, ih) _. recv_l (j * h + ih))
                right (\<lambda>(j, ih). (0, 0, j, off + nx_phys + ih)) (\<lambda>(j, ih) _. recv_r (j * h + ih)))
             (fdata f)\<rparr>
         else if fdim f = 3 then
           f\<lparr>fdata := parallel_for (mdrange3 0 0 0 nz' ny' h)
             (assign2
                left (\<lambda>(k, j, ih). (0, k, j, off - h + ih))
                     (\<lambda>(k, j, ih) _. recv_l (k * (ny' * h) + j * h + ih))
                right (\<lambda>(k, j, ih). (0, k, j, off + nx_phys + ih))
                     (\<lambda>(k, j, ih) _. recv_r (k * (ny' * h) + j * h + ih)))
             (fdata f)\<rparr>
         else if fdim f = 4 then
           f\<lparr>fdata := parallel_for (mdrange4 0 0 0 0 (ext_w f) nz' ny' h)
             (assign2
                left (\<lambda>(w, k, j, ih). (w, k, j, off - h + ih))
                     (\<lambda>(w, k, j, ih) _. recv_l (w * (nz' * ny' * h) + k * (ny' * h) + j * h + ih))
                right (\<lambda>(w, k, j, ih). (w, k, j, off + nx_phys + ih))
                     (\<lambda>(w, k, j, ih) _. recv_r (w * (nz' * ny' * h) + k * (ny' * h) + j * h + ih)))
             (fdata f)\<rparr>
         else f)"

definition wait_exchange_halo_x ::
  "exchanger \<Rightarrow> int \<Rightarrow> 'a mailbox \<Rightarrow> 'a request list \<Rightarrow> 'a field \<times> 'a halo_buffers \<Rightarrow>
   'a field \<times> 'a halo_buffers" where
  "wait_exchange_halo_x ex depth mail reqs s =
     (if reqs = [] then s
      else (let (f, b) = s; b' = waitall mail reqs b
            in (unpack_x ex (halo_depth ex depth) (recv_x_left b') (recv_x_right b') f, b')))"

section \<open>The Y direction\<close>

definition halo_count_y :: "int \<Rightarrow> 'a field \<Rightarrow> int" where
  "halo_count_y h f =
     (if fdim f = 2 then h * ext_x f
      else if fdim f = 3 then h * ext_x f * ext_z f
      else if fdim f = 4 then h * ext_x f * ext_z f * ext_w f
      else 0)"

definition pack_y ::
  "grid \<Rightarrow> int \<Rightarrow> 'a field \<Rightarrow> (int \<Rightarrow> 'a) \<times> (int \<Rightarrow> 'a) \<Rightarrow> (int \<Rightarrow> 'a) \<times> (int \<Rightarrow> 'a)" where
  "pack_y g h f bufs =
     (let off = get_halo_cells g; ny_phys = local_physical_size (dim_y g);
          nz' = ext_z f; nx' = ext_x f; data = fdata f
      in if fdim f = 2 then
           parallel_for (mdrange2 0 0 nx' h)
             (\<lambda>(i, jh) (b, t). let idx = jh * nx' + i in
                (b(idx := data (0, 0, off + jh, i)),
                 t(idx := data (0, 0, off + ny_phys - h + jh, i)))) bufs
         else if fdim f = 3 then
           parallel_for (mdrange3 0 0 0 nz' nx' h)
             (\<lambda>(k, i, jh) (b, t). let idx = k * (h * nx') + jh * nx' + i in
                (b(idx := data (0, k, off + jh, i)),
                 t(idx := data (0, k, off + ny_phys - h + jh, i)))) bufs
         else if fdim f = 4 then
           parallel_for (mdrange4 0 0 0 0 (ext_w f) nz' nx' h)
             (\<lambda>(w, k, i, jh) (b, t). let idx = w * (nz' * h * nx') + k * (h * nx') + jh * nx' + i in
                (b(idx := data (w, k, off + jh, i)),
                 t(idx := data (w, k, off + ny_phys - h + jh, i)))) bufs
         else bufs)"

definition post_exchange_halo_y ::
  "exchanger \<Rightarrow> int \<Rightarrow> 'a field \<times> 'a halo_buffers \<Rightarrow>
   'a request list \<times> 'a field \<times> 'a halo_buffers" where
  "post_exchange_halo_y ex depth s =
     (let (f, b) = s; g = grid_ref ex; h = halo_depth ex depth; cnt = halo_count_y h f
      in if h = 0 then ([], f, b)
         else if is_singleton_y g then ([], fill_singleton_y_halo (get_halo_cells g) h f, b)
         else if cnt = 0 then ([], f, b)
         else
           (let (bot, top) = pack_y g h f (send_y_bottom b, send_y_top b)
            in (irecv (neighbor_bottom ex) Y_bottom SEND_TO_TOP cnt @
                irecv (neighbor_top ex) Y_top SEND_TO_BOTTOM cnt @
                isend (neighbor_top ex) SEND_TO_TOP cnt top @
                isend (neighbor_bottom ex) SEND_TO_BOTTOM cnt bot,
                f, b\<lparr>send_y_bottom := bot, send_y_top := top\<rparr>)))"

definition unpack_y ::
  "exchanger \<Rightarrow> int \<Rightarrow> (int \<Rightarrow> 'a) \<Rightarrow> (int \<Rightarrow> 'a) \<Rightarrow> 'a field \<Rightarrow> 'a field" where
  "unpack_y ex h recv_b recv_t f =
     (let off = get_halo_cells (grid_ref ex); ny_phys = local_physical_size (dim_y (grid_ref ex));
          bottom = neighbor_bottom ex \<noteq> None; top = neighbor_top ex \<noteq> None;
          nz' = ext_z f; nx' = ext_x f
      in if fdim f = 2 then
           f\<lparr>fdata := parallel_for (mdrange2 0 0 nx' h)
             (assign2
                bottom (\<lambda>(i, jh). (0, 0, off - h + jh, i)) (\<lambda>(i, jh) _. recv_b (jh * nx' + i))
                top (\<lambda>(i, jh). (0, 0, off + ny_phys + jh, i)) (\<lambda>(i, jh) _. recv_t (jh * nx' + i)))
             (fdata f)\<rparr>
         else if fdim f = 3 then
           f\<lparr>fdata := parallel_for (mdrange3 0 0 0 nz' nx' h)
             (assign2
                bottom (\<lambda>(k, i, jh). (0, k, off - h + jh, i))
                     (\<lambda>(k, i, jh) _. recv_b (k * (h * nx') + jh * nx' + i))
                top (\<lambda>(k, i, jh). (0, k, off + ny_phys + jh, i))
                     (\<lambda>(k, i, jh) _. recv_t (k * (h * nx') + jh * nx' + i)))
             (fdata f)\<rparr>
         else if fdim f = 4 then
           f\<lparr>fdata := parallel_for (mdrange4 0 0 0 0 (ext_w f) nz' nx' h)
             (assign2
                bottom (\<lambda>(w, k, i, jh). (w, k, off - h + jh, i))
                     (\<lambda>(w, k, i, jh) _. recv_b (w * (nz' * h * nx') + k * (h * nx') + jh * nx' + i))
                top (\<lambda>(w, k, i, jh). (w, k, off + ny_phys + jh, i))
                     (\<lambda>(w, k, i, jh) _. recv_t (w * (nz' * h * nx') + k * (h * nx') + jh * nx' + i)))
             (fdata f)\<rparr>
         else f)"

definition wait_exchange_halo_y ::
  "exchanger \<Rightarrow> int \<Rightarrow> 'a mailbox \<Rightarrow> 'a request list \<Rightarrow> 'a field \<times> 'a halo_buffers \<Rightarrow>
   'a field \<times> 'a halo_buffers" where
  "wait_exchange_halo_y ex depth mail reqs s =
     (if reqs = [] then s
      else (let (f, b) = s; b' = waitall mail reqs b
            in (unpack_y ex (halo_depth ex depth) (recv_y_bottom b') (recv_y_top b') f, b')))"

section \<open>Exchanges of one field\<close>

text \<open>\<open>exchange_halos\<close>: Y first, then X over rows that already have their Y halos.
  \<open>exchange_face_halos\<close>: both directions posted before either is waited for.\<close>

definition exchange_halos ::
  "exchanger \<Rightarrow> int \<Rightarrow> 'a mailbox \<Rightarrow> 'a mailbox \<Rightarrow> 'a field \<times> 'a halo_buffers \<Rightarrow>
   'a field \<times> 'a halo_buffers" where
  "exchange_halos ex depth mail_y mail_x s =
     (if fdim (fst s) \<ge> 2 then
        (let (reqs_y, s1) = post_exchange_halo_y ex depth s;
             s2 = wait_exchange_halo_y ex depth mail_y reqs_y s1;
             (reqs_x, s3) = post_exchange_halo_x ex depth s2
         in wait_exchange_halo_x ex depth mail_x reqs_x s3)
      else s)"

definition exchange_face_halos ::
  "exchanger \<Rightarrow> int \<Rightarrow> 'a mailbox \<Rightarrow> 'a field \<times> 'a halo_buffers \<Rightarrow>
   'a field \<times> 'a halo_buffers" where
  "exchange_face_halos ex depth mail s =
     (let (reqs_x, s1) = post_exchange_halo_x ex depth s;
          (reqs_y, s2) = post_exchange_halo_y ex depth s1;
          s3 = wait_exchange_halo_x ex depth mail reqs_x s2
      in wait_exchange_halo_y ex depth mail reqs_y s3)"

section \<open>Buffer indices\<close>

definition x_index :: "int \<Rightarrow> int \<Rightarrow> int \<Rightarrow> cell \<Rightarrow> int" where
  "x_index nz' ny' h = (\<lambda>(w, k, j, ih). w * (nz' * ny' * h) + k * (ny' * h) + j * h + ih)"

definition y_index :: "int \<Rightarrow> int \<Rightarrow> int \<Rightarrow> cell \<Rightarrow> int" where
  "y_index nz' nx' h = (\<lambda>(w, k, i, jh). w * (nz' * h * nx') + k * (h * nx') + jh * nx' + i)"

lemma radix_eq:
  assumes "a * m + b = a' * m + (b'::int)" and "0 \<le> b" "b < m" "0 \<le> b'" "b' < m"
  shows "a = a' \<and> b = b'"
proof -
  have m: "0 < m" using assms by linarith
  have "a = (a * m + b) div m"
    using div_mult_self3 [of m a b] m assms(2,3) by simp
  also have "\<dots> = (a' * m + b') div m" using assms(1) by (rule arg_cong)
  also have "\<dots> = a'"
    using div_mult_self3 [of m a' b'] m assms(4,5) by simp
  finally have "a = a'" .
  with assms(1) show ?thesis by simp
qed

lemma radix_bound:
  assumes "0 \<le> a" "a < m" "0 \<le> b" "b < (n::int)"
  shows "0 \<le> a * n + b \<and> a * n + b < m * n"
proof -
  have "(a + 1) * n \<le> m * n" using assms by (intro mult_right_mono) auto
  with assms show ?thesis by (simp add: algebra_simps)
qed

lemma x_index_nested: "x_index nz' ny' h (w, k, j, ih) = ((w * nz' + k) * ny' + j) * h + ih"
  by (simp add: x_index_def algebra_simps)

lemma y_index_nested: "y_index nz' nx' h (w, k, i, jh) = ((w * nz' + k) * h + jh) * nx' + i"
  by (simp add: y_index_def algebra_simps)

lemma x_index_eq:
  assumes a: "(w, k, j, ih) \<in> set (mdrange4 0 0 0 0 nw nz' ny' h)"
    and b: "(w', k', j', ih') \<in> set (mdrange4 0 0 0 0 nw nz' ny' h)"
    and eq: "x_index nz' ny' h (w, k, j, ih) = x_index nz' ny' h (w', k', j', ih')"
  shows "w = w' \<and> k = k' \<and> j = j' \<and> ih = ih'"
proof -
  note r = a b [unfolded in_mdrange4] a [unfolded in_mdrange4]
  have 1: "(w * nz' + k) * ny' + j = (w' * nz' + k') * ny' + j' \<and> ih = ih'"
    using eq r by (intro radix_eq) (auto simp: x_index_nested)
  then have 2: "w * nz' + k = w' * nz' + k' \<and> j = j'"
    using r by (intro radix_eq) auto
  then have "w = w' \<and> k = k'" using r by (intro radix_eq) auto
  with 1 2 show "w = w' \<and> k = k' \<and> j = j' \<and> ih = ih'" by simp
qed

lemma x_index_inj: "inj_on (x_index nz' ny' h) (set (mdrange4 0 0 0 0 nw nz' ny' h))"
  by (rule inj_onI) (auto dest: x_index_eq)

lemma y_index_eq:
  assumes a: "(w, k, i, jh) \<in> set (mdrange4 0 0 0 0 nw nz' nx' h)"
    and b: "(w', k', i', jh') \<in> set (mdrange4 0 0 0 0 nw nz' nx' h)"
    and eq: "y_index nz' nx' h (w, k, i, jh) = y_index nz' nx' h (w', k', i', jh')"
  shows "w = w' \<and> k = k' \<and> i = i' \<and> jh = jh'"
proof -
  note r = a b [unfolded in_mdrange4] a [unfolded in_mdrange4]
  have 1: "(w * nz' + k) * h + jh = (w' * nz' + k') * h + jh' \<and> i = i'"
    using eq r by (intro radix_eq) (auto simp: y_index_nested)
  then have 2: "w * nz' + k = w' * nz' + k' \<and> jh = jh'"
    using r by (intro radix_eq) auto
  then have "w = w' \<and> k = k'" using r by (intro radix_eq) auto
  with 1 2 show "w = w' \<and> k = k' \<and> i = i' \<and> jh = jh'" by simp
qed

lemma y_index_inj: "inj_on (y_index nz' nx' h) (set (mdrange4 0 0 0 0 nw nz' nx' h))"
  by (rule inj_onI) (auto dest: y_index_eq)

lemma x_index_bound:
  "c \<in> set (mdrange4 0 0 0 0 nw nz' ny' h) \<Longrightarrow>
     0 \<le> x_index nz' ny' h c \<and> x_index nz' ny' h c < nw * nz' * ny' * h"
  by (cases c) (auto simp: range_simps x_index_nested intro!: radix_bound [THEN conjunct1] radix_bound [THEN conjunct2])

lemma y_index_bound:
  "c \<in> set (mdrange4 0 0 0 0 nw nz' nx' h) \<Longrightarrow>
     0 \<le> y_index nz' nx' h c \<and> y_index nz' nx' h c < nw * nz' * h * nx'"
  by (cases c) (auto simp: range_simps y_index_nested intro!: radix_bound [THEN conjunct1] radix_bound [THEN conjunct2])

interpretation x_pack: kernel "mdrange4 0 0 0 0 nw nz' ny' h" "x_index nz' ny' h"
  "\<lambda>c (_ :: int \<Rightarrow> 'a). src c" for nw nz' ny' h src
  by unfold_locales (auto simp: range_simps x_index_inj)

interpretation y_pack: kernel "mdrange4 0 0 0 0 nw nz' nx' h" "y_index nz' nx' h"
  "\<lambda>c (_ :: int \<Rightarrow> 'a). src c" for nw nz' nx' h src
  by unfold_locales (auto simp: range_simps y_index_inj)

section \<open>Packing\<close>

lemma pack_x_4:
  assumes "field_wf f" and "2 \<le> fdim f"
  shows "pack_x g h f (l, r) =
    (let off = get_halo_cells g; xs = mdrange4 0 0 0 0 (ext_w f) (ext_z f) (ext_y f) h;
         idx = x_index (ext_z f) (ext_y f) h
     in (parallel_for xs (assign idx (\<lambda>c _. case c of (w, k, j, ih) \<Rightarrow> fdata f (w, k, j, off + ih))) l,
         parallel_for xs (assign idx (\<lambda>c _. case c of (w, k, j, ih) \<Rightarrow> fdata f (w, k, j,
           off + local_physical_size (dim_x g) - h + ih))) r))"
proof -
  consider "fdim f = 2" | "fdim f = 3" | "fdim f = 4"
    using assms by (auto simp: field_wf_def)
  then show ?thesis
    unfolding Let_def parallel_for_pair [symmetric]
    by cases (simp_all add: pack_x_def parallel_for_2_as_4 parallel_for_3_as_4 field_wf_extents assms Let_def,
        (rule parallel_for_cong [OF refl],
         auto simp: x_index_def assign_def fun_eq_iff range_simps dest!: unit_index simp del: fun_upd_apply)+)
qed

lemma pack_y_4:
  assumes "field_wf f" and "2 \<le> fdim f"
  shows "pack_y g h f (b, t) =
    (let off = get_halo_cells g; xs = mdrange4 0 0 0 0 (ext_w f) (ext_z f) (ext_x f) h;
         idx = y_index (ext_z f) (ext_x f) h
     in (parallel_for xs (assign idx (\<lambda>c _. case c of (w, k, i, jh) \<Rightarrow> fdata f (w, k, off + jh, i))) b,
         parallel_for xs (assign idx (\<lambda>c _. case c of (w, k, i, jh) \<Rightarrow> fdata f (w, k,
           off + local_physical_size (dim_y g) - h + jh, i))) t))"
proof -
  consider "fdim f = 2" | "fdim f = 3" | "fdim f = 4"
    using assms by (auto simp: field_wf_def)
  then show ?thesis
    unfolding Let_def parallel_for_pair [symmetric]
    by cases (simp_all add: pack_y_def parallel_for_2_as_4 parallel_for_3_as_4 field_wf_extents assms Let_def,
        (rule parallel_for_cong [OF refl],
         auto simp: y_index_def assign_def fun_eq_iff range_simps dest!: unit_index simp del: fun_upd_apply)+)
qed

lemma pack_x_cell:
  assumes "field_wf f" and "2 \<le> fdim f" and "in_rows f (w, k, j, 0)" and "0 \<le> ih" and "ih < h"
  shows "fst (pack_x g h f (l, r)) (x_index (ext_z f) (ext_y f) h (w, k, j, ih)) =
      fdata f (w, k, j, get_halo_cells g + ih)"
    and "snd (pack_x g h f (l, r)) (x_index (ext_z f) (ext_y f) h (w, k, j, ih)) =
      fdata f (w, k, j, get_halo_cells g + local_physical_size (dim_x g) - h + ih)"
proof -
  have c: "(w, k, j, ih) \<in> set (mdrange4 0 0 0 0 (ext_w f) (ext_z f) (ext_y f) h)"
    using assms by (auto simp: range_simps in_rows_def)
  show "fst (pack_x g h f (l, r)) (x_index (ext_z f) (ext_y f) h (w, k, j, ih)) =
      fdata f (w, k, j, get_halo_cells g + ih)"
    by (simp add: pack_x_4 [OF assms(1,2)] Let_def x_pack.result [OF c])
  show "snd (pack_x g h f (l, r)) (x_index (ext_z f) (ext_y f) h (w, k, j, ih)) =
      fdata f (w, k, j, get_halo_cells g + local_physical_size (dim_x g) - h + ih)"
    by (simp add: pack_x_4 [OF assms(1,2)] Let_def x_pack.result [OF c])
qed

lemma pack_y_cell:
  assumes "field_wf f" and "2 \<le> fdim f" and "in_columns f (w, k, 0, i)" and "0 \<le> jh" and "jh < h"
  shows "fst (pack_y g h f (b, t)) (y_index (ext_z f) (ext_x f) h (w, k, i, jh)) =
      fdata f (w, k, get_halo_cells g + jh, i)"
    and "snd (pack_y g h f (b, t)) (y_index (ext_z f) (ext_x f) h (w, k, i, jh)) =
      fdata f (w, k, get_halo_cells g + local_physical_size (dim_y g) - h + jh, i)"
proof -
  have c: "(w, k, i, jh) \<in> set (mdrange4 0 0 0 0 (ext_w f) (ext_z f) (ext_x f) h)"
    using assms by (auto simp: range_simps in_columns_def)
  show "fst (pack_y g h f (b, t)) (y_index (ext_z f) (ext_x f) h (w, k, i, jh)) =
      fdata f (w, k, get_halo_cells g + jh, i)"
    by (simp add: pack_y_4 [OF assms(1,2)] Let_def y_pack.result [OF c])
  show "snd (pack_y g h f (b, t)) (y_index (ext_z f) (ext_x f) h (w, k, i, jh)) =
      fdata f (w, k, get_halo_cells g + local_physical_size (dim_y g) - h + jh, i)"
    by (simp add: pack_y_4 [OF assms(1,2)] Let_def y_pack.result [OF c])
qed

section \<open>Unpacking\<close>

interpretation x_unpack: kernel2 "if 0 \<le> n then mdrange4 0 0 0 0 nw nz' ny' h else []"
  left "x_low off h" "\<lambda>c (_ :: cell \<Rightarrow> 'a). recv_l (x_index nz' ny' h c)"
  right "x_high off n" "\<lambda>c _. recv_r (x_index nz' ny' h c)"
  for nw nz' ny' off n h left right recv_l recv_r
  by unfold_locales (auto simp: range_simps inj_on_def split: if_splits)

interpretation y_unpack: kernel2 "if 0 \<le> n then mdrange4 0 0 0 0 nw nz' nx' h else []"
  bottom "y_low off h" "\<lambda>c (_ :: cell \<Rightarrow> 'a). recv_b (y_index nz' nx' h c)"
  top "y_high off n" "\<lambda>c _. recv_t (y_index nz' nx' h c)"
  for nw nz' nx' off n h bottom top recv_b recv_t
  by unfold_locales (auto simp: range_simps inj_on_def split: if_splits)

lemma unpack_x_4:
  assumes "field_wf f" and "2 \<le> fdim f"
  shows "unpack_x ex h recv_l recv_r f =
    f\<lparr>fdata := parallel_for (mdrange4 0 0 0 0 (ext_w f) (ext_z f) (ext_y f) h)
      (assign2 (neighbor_left ex \<noteq> None) (x_low (get_halo_cells (grid_ref ex)) h)
         (\<lambda>c _. recv_l (x_index (ext_z f) (ext_y f) h c))
         (neighbor_right ex \<noteq> None)
         (x_high (get_halo_cells (grid_ref ex)) (local_physical_size (dim_x (grid_ref ex))))
         (\<lambda>c _. recv_r (x_index (ext_z f) (ext_y f) h c))) (fdata f)\<rparr>"
proof -
  consider "fdim f = 2" | "fdim f = 3" | "fdim f = 4"
    using assms by (auto simp: field_wf_def)
  then show ?thesis
    by cases (simp_all add: unpack_x_def parallel_for_2_as_4 parallel_for_3_as_4 field_wf_extents assms Let_def,
        (rule arg_cong [where f = "\<lambda>d. f\<lparr>fdata := d\<rparr>"], rule parallel_for_cong [OF refl],
         auto simp: x_index_def assign2_def fun_eq_iff range_simps dest!: unit_index simp del: fun_upd_apply)+)
qed

lemma unpack_y_4:
  assumes "field_wf f" and "2 \<le> fdim f"
  shows "unpack_y ex h recv_b recv_t f =
    f\<lparr>fdata := parallel_for (mdrange4 0 0 0 0 (ext_w f) (ext_z f) (ext_x f) h)
      (assign2 (neighbor_bottom ex \<noteq> None) (y_low (get_halo_cells (grid_ref ex)) h)
         (\<lambda>c _. recv_b (y_index (ext_z f) (ext_x f) h c))
         (neighbor_top ex \<noteq> None)
         (y_high (get_halo_cells (grid_ref ex)) (local_physical_size (dim_y (grid_ref ex))))
         (\<lambda>c _. recv_t (y_index (ext_z f) (ext_x f) h c))) (fdata f)\<rparr>"
proof -
  consider "fdim f = 2" | "fdim f = 3" | "fdim f = 4"
    using assms by (auto simp: field_wf_def)
  then show ?thesis
    by cases (simp_all add: unpack_y_def parallel_for_2_as_4 parallel_for_3_as_4 field_wf_extents assms Let_def,
        (rule arg_cong [where f = "\<lambda>d. f\<lparr>fdata := d\<rparr>"], rule parallel_for_cong [OF refl],
         auto simp: y_index_def assign2_def fun_eq_iff range_simps dest!: unit_index simp del: fun_upd_apply)+)
qed

lemma fdata_upd: "fdata (f\<lparr>fdata := d\<rparr>) = d"
  by simp

lemma unpack_x_cell:
  assumes "field_wf f" and "2 \<le> fdim f" and off: "off = get_halo_cells (grid_ref ex)"
    and n: "n = local_physical_size (dim_x (grid_ref ex))" and "0 \<le> n"
  shows "fdata (unpack_x ex h recv_l recv_r f) (w, k, j, i) =
    (if in_rows f (w, k, j, i) \<and> off - h \<le> i \<and> i < off \<and> neighbor_left ex \<noteq> None
     then recv_l (x_index (ext_z f) (ext_y f) h (w, k, j, i - off + h))
     else if in_rows f (w, k, j, i) \<and> off + n \<le> i \<and> i < off + n + h \<and> neighbor_right ex \<noteq> None
     then recv_r (x_index (ext_z f) (ext_y f) h (w, k, j, i - off - n))
     else fdata f (w, k, j, i))"
proof -
  let ?left = "neighbor_left ex \<noteq> None" and ?right = "neighbor_right ex \<noteq> None"
  let ?d = "fdata (unpack_x ex h recv_l recv_r f)"
  have low: "?d (w, k, j, i) = recv_l (x_index (ext_z f) (ext_y f) h (w, k, j, i - off + h))"
    if "in_rows f (w, k, j, i)" "off - h \<le> i" "i < off" "?left"
    using x_unpack.result1 [where n = n and i = "(w, k, j, i - off + h)" and left = ?left
        and right = ?right and off = off and h = h and nw = "ext_w f" and nz' = "ext_z f"
        and ny' = "ext_y f" and d = "fdata f" and recv_l = recv_l and recv_r = recv_r] that assms(5)
    by (simp add: in_rows_def range_simps unpack_x_4 [OF assms(1,2)] off n)
  have high: "?d (w, k, j, i) = recv_r (x_index (ext_z f) (ext_y f) h (w, k, j, i - off - n))"
    if "in_rows f (w, k, j, i)" "off + n \<le> i" "i < off + n + h" "?right"
    using x_unpack.result2 [where n = n and i = "(w, k, j, i - off - n)" and left = ?left
        and right = ?right and off = off and h = h and nw = "ext_w f" and nz' = "ext_z f"
        and ny' = "ext_y f" and d = "fdata f" and recv_l = recv_l and recv_r = recv_r] that assms(5)
    by (simp add: in_rows_def range_simps unpack_x_4 [OF assms(1,2)] off n)
  have frame: "?d (w, k, j, i) = fdata f (w, k, j, i)"
    if "\<not> (in_rows f (w, k, j, i) \<and> off - h \<le> i \<and> i < off \<and> ?left)"
      "\<not> (in_rows f (w, k, j, i) \<and> off + n \<le> i \<and> i < off + n + h \<and> ?right)"
  proof -
    have "x_low off h it \<noteq> (w, k, j, i)"
      if "it \<in> set (mdrange4 0 0 0 0 (ext_w f) (ext_z f) (ext_y f) h)" "?left" for it
      using that \<open>\<not> (in_rows f (w, k, j, i) \<and> off - h \<le> i \<and> i < off \<and> ?left)\<close>
      by (cases it rule: prod_cases4) (auto simp: in_rows_def range_simps)
    moreover have "x_high off n it \<noteq> (w, k, j, i)"
      if "it \<in> set (mdrange4 0 0 0 0 (ext_w f) (ext_z f) (ext_y f) h)" "?right" for it
      using that \<open>\<not> (in_rows f (w, k, j, i) \<and> off + n \<le> i \<and> i < off + n + h \<and> ?right)\<close>
      by (cases it rule: prod_cases4) (auto simp: in_rows_def range_simps)
    ultimately show ?thesis
      unfolding unpack_x_4 [OF assms(1,2)] fdata_upd off n
      by - (rule assign2_frame, blast+)
  qed
  show ?thesis using low high frame by auto
qed

lemma unpack_y_cell:
  assumes "field_wf f" and "2 \<le> fdim f" and off: "off = get_halo_cells (grid_ref ex)"
    and n: "n = local_physical_size (dim_y (grid_ref ex))" and "0 \<le> n"
  shows "fdata (unpack_y ex h recv_b recv_t f) (w, k, j, i) =
    (if in_columns f (w, k, j, i) \<and> off - h \<le> j \<and> j < off \<and> neighbor_bottom ex \<noteq> None
     then recv_b (y_index (ext_z f) (ext_x f) h (w, k, i, j - off + h))
     else if in_columns f (w, k, j, i) \<and> off + n \<le> j \<and> j < off + n + h \<and> neighbor_top ex \<noteq> None
     then recv_t (y_index (ext_z f) (ext_x f) h (w, k, i, j - off - n))
     else fdata f (w, k, j, i))"
proof -
  let ?bottom = "neighbor_bottom ex \<noteq> None" and ?top = "neighbor_top ex \<noteq> None"
  let ?d = "fdata (unpack_y ex h recv_b recv_t f)"
  have low: "?d (w, k, j, i) = recv_b (y_index (ext_z f) (ext_x f) h (w, k, i, j - off + h))"
    if "in_columns f (w, k, j, i)" "off - h \<le> j" "j < off" "?bottom"
    using y_unpack.result1 [where n = n and i = "(w, k, i, j - off + h)" and bottom = ?bottom
        and top = ?top and off = off and h = h and nw = "ext_w f" and nz' = "ext_z f"
        and nx' = "ext_x f" and d = "fdata f" and recv_b = recv_b and recv_t = recv_t] that assms(5)
    by (simp add: in_columns_def range_simps unpack_y_4 [OF assms(1,2)] off n)
  have high: "?d (w, k, j, i) = recv_t (y_index (ext_z f) (ext_x f) h (w, k, i, j - off - n))"
    if "in_columns f (w, k, j, i)" "off + n \<le> j" "j < off + n + h" "?top"
    using y_unpack.result2 [where n = n and i = "(w, k, i, j - off - n)" and bottom = ?bottom
        and top = ?top and off = off and h = h and nw = "ext_w f" and nz' = "ext_z f"
        and nx' = "ext_x f" and d = "fdata f" and recv_b = recv_b and recv_t = recv_t] that assms(5)
    by (simp add: in_columns_def range_simps unpack_y_4 [OF assms(1,2)] off n)
  have frame: "?d (w, k, j, i) = fdata f (w, k, j, i)"
    if "\<not> (in_columns f (w, k, j, i) \<and> off - h \<le> j \<and> j < off \<and> ?bottom)"
      "\<not> (in_columns f (w, k, j, i) \<and> off + n \<le> j \<and> j < off + n + h \<and> ?top)"
  proof -
    have "y_low off h it \<noteq> (w, k, j, i)"
      if "it \<in> set (mdrange4 0 0 0 0 (ext_w f) (ext_z f) (ext_x f) h)" "?bottom" for it
      using that \<open>\<not> (in_columns f (w, k, j, i) \<and> off - h \<le> j \<and> j < off \<and> ?bottom)\<close>
      by (cases it rule: prod_cases4) (auto simp: in_columns_def range_simps)
    moreover have "y_high off n it \<noteq> (w, k, j, i)"
      if "it \<in> set (mdrange4 0 0 0 0 (ext_w f) (ext_z f) (ext_x f) h)" "?top" for it
      using that \<open>\<not> (in_columns f (w, k, j, i) \<and> off + n \<le> j \<and> j < off + n + h \<and> ?top)\<close>
      by (cases it rule: prod_cases4) (auto simp: in_columns_def range_simps)
    ultimately show ?thesis
      unfolding unpack_y_4 [OF assms(1,2)] fdata_upd off n
      by - (rule assign2_frame, blast+)
  qed
  show ?thesis using low high frame by auto
qed

section \<open>One process, one direction\<close>

lemma waitall_x:
  "waitall mail (irecv right X_right t1 c @ irecv left X_left t2 c @ isend left t3 c l @ isend right t4 c r) b =
   b\<lparr>recv_x_left := (case left of None \<Rightarrow> recv_x_left b
                       | Some s \<Rightarrow> receive c (mail s (tag_code t2)) (recv_x_left b)),
     recv_x_right := (case right of None \<Rightarrow> recv_x_right b
                       | Some s \<Rightarrow> receive c (mail s (tag_code t1)) (recv_x_right b))\<rparr>"
  by (cases left; cases right) (simp_all add: waitall_def irecv_def isend_def)

lemma waitall_y:
  "waitall mail (irecv bottom Y_bottom t1 c @ irecv upper Y_top t2 c @ isend upper t3 c t @ isend bottom t4 c bb) b =
   b\<lparr>recv_y_bottom := (case bottom of None \<Rightarrow> recv_y_bottom b
                       | Some s \<Rightarrow> receive c (mail s (tag_code t1)) (recv_y_bottom b)),
     recv_y_top := (case upper of None \<Rightarrow> recv_y_top b
                       | Some s \<Rightarrow> receive c (mail s (tag_code t2)) (recv_y_top b))\<rparr>"
  by (cases bottom; cases upper) (simp_all add: waitall_def irecv_def isend_def)

definition same_shape :: "'a field \<Rightarrow> 'a field \<Rightarrow> bool" where
  "same_shape f f' \<longleftrightarrow> f' = f\<lparr>fdata := fdata f'\<rparr>"

lemma same_shape_simps:
  "same_shape f f' \<Longrightarrow> fdim f' = fdim f \<and> ext_w f' = ext_w f \<and> ext_z f' = ext_z f \<and>
     ext_y f' = ext_y f \<and> ext_x f' = ext_x f \<and> fname f' = fname f"
  unfolding same_shape_def by (metis field.select_convs field.surjective field.update_convs(7))

lemma same_shape_refl [simp]: "same_shape f f"
  by (simp add: same_shape_def)

lemma same_shape_trans: "same_shape f g \<Longrightarrow> same_shape g h \<Longrightarrow> same_shape f h"
  unfolding same_shape_def by (metis field.surjective field.update_convs(7))

lemma same_shape_field_wf: "same_shape f f' \<Longrightarrow> field_wf f' \<longleftrightarrow> field_wf f"
  by (drule same_shape_simps) (simp add: field_wf_def)

lemma same_shape_fills [simp]:
  "same_shape f (fill_periodic_x_halo off n depth f)" "same_shape f (fill_periodic_y_halo off n depth f)"
  "same_shape f (fill_singleton_x_halo off depth f)" "same_shape f (fill_singleton_y_halo off depth f)"
  by (simp_all add: same_shape_def fill_periodic_x_halo_def fill_periodic_y_halo_def
      fill_singleton_x_halo_def fill_singleton_y_halo_def)

lemma same_shape_unpack [simp]:
  "same_shape f (unpack_x ex h l r f)" "same_shape f (unpack_y ex h b t f)"
  by (simp_all add: same_shape_def unpack_x_def unpack_y_def Let_def)

lemma halo_count_x_eq:
  "field_wf f \<Longrightarrow> 2 \<le> fdim f \<Longrightarrow> halo_count_x h f = ext_w f * ext_z f * ext_y f * h"
  by (auto simp: field_wf_def halo_count_x_def)

lemma halo_count_y_eq:
  "field_wf f \<Longrightarrow> 2 \<le> fdim f \<Longrightarrow> halo_count_y h f = ext_w f * ext_z f * h * ext_x f"
  by (auto simp: field_wf_def halo_count_y_def)

text \<open>What a process sends: its outermost physical columns on each side.\<close>

definition x_message_left :: "grid \<Rightarrow> int \<Rightarrow> 'a field \<Rightarrow> (int \<Rightarrow> 'a) \<Rightarrow> bool" where
  "x_message_left g h f p \<longleftrightarrow>
     (\<forall>w k j ih. in_rows f (w, k, j, 0) \<and> 0 \<le> ih \<and> ih < h \<longrightarrow>
        p (x_index (ext_z f) (ext_y f) h (w, k, j, ih)) = fdata f (w, k, j, get_halo_cells g + ih))"

definition x_message_right :: "grid \<Rightarrow> int \<Rightarrow> 'a field \<Rightarrow> (int \<Rightarrow> 'a) \<Rightarrow> bool" where
  "x_message_right g h f p \<longleftrightarrow>
     (\<forall>w k j ih. in_rows f (w, k, j, 0) \<and> 0 \<le> ih \<and> ih < h \<longrightarrow>
        p (x_index (ext_z f) (ext_y f) h (w, k, j, ih)) =
          fdata f (w, k, j, get_halo_cells g + local_physical_size (dim_x g) - h + ih))"

definition y_message_bottom :: "grid \<Rightarrow> int \<Rightarrow> 'a field \<Rightarrow> (int \<Rightarrow> 'a) \<Rightarrow> bool" where
  "y_message_bottom g h f p \<longleftrightarrow>
     (\<forall>w k i jh. in_columns f (w, k, 0, i) \<and> 0 \<le> jh \<and> jh < h \<longrightarrow>
        p (y_index (ext_z f) (ext_x f) h (w, k, i, jh)) = fdata f (w, k, get_halo_cells g + jh, i))"

definition y_message_top :: "grid \<Rightarrow> int \<Rightarrow> 'a field \<Rightarrow> (int \<Rightarrow> 'a) \<Rightarrow> bool" where
  "y_message_top g h f p \<longleftrightarrow>
     (\<forall>w k i jh. in_columns f (w, k, 0, i) \<and> 0 \<le> jh \<and> jh < h \<longrightarrow>
        p (y_index (ext_z f) (ext_x f) h (w, k, i, jh)) =
          fdata f (w, k, get_halo_cells g + local_physical_size (dim_y g) - h + jh, i))"

lemma post_x_cases:
  assumes "field_wf f" and "2 \<le> fdim f" and "0 < halo_depth ex depth"
    and "\<not> is_singleton_x (grid_ref ex)" and "halo_count_x (halo_depth ex depth) f \<noteq> 0"
  obtains l r where
    "post_exchange_halo_x ex depth (f, b) =
       (irecv (neighbor_right ex) X_right SEND_TO_LEFT (halo_count_x (halo_depth ex depth) f) @
        irecv (neighbor_left ex) X_left SEND_TO_RIGHT (halo_count_x (halo_depth ex depth) f) @
        isend (neighbor_left ex) SEND_TO_LEFT (halo_count_x (halo_depth ex depth) f) l @
        isend (neighbor_right ex) SEND_TO_RIGHT (halo_count_x (halo_depth ex depth) f) r,
        f, b\<lparr>send_x_left := l, send_x_right := r\<rparr>)"
    and "x_message_left (grid_ref ex) (halo_depth ex depth) f l"
    and "x_message_right (grid_ref ex) (halo_depth ex depth) f r"
proof -
  obtain l r where lr: "pack_x (grid_ref ex) (halo_depth ex depth) f (send_x_left b, send_x_right b) = (l, r)"
    by fastforce
  show ?thesis
  proof (rule that [of l r])
    show "post_exchange_halo_x ex depth (f, b) =
       (irecv (neighbor_right ex) X_right SEND_TO_LEFT (halo_count_x (halo_depth ex depth) f) @
        irecv (neighbor_left ex) X_left SEND_TO_RIGHT (halo_count_x (halo_depth ex depth) f) @
        isend (neighbor_left ex) SEND_TO_LEFT (halo_count_x (halo_depth ex depth) f) l @
        isend (neighbor_right ex) SEND_TO_RIGHT (halo_count_x (halo_depth ex depth) f) r,
        f, b\<lparr>send_x_left := l, send_x_right := r\<rparr>)"
      using assms(3-5) by (simp add: post_exchange_halo_x_def Let_def lr)
    show "x_message_left (grid_ref ex) (halo_depth ex depth) f l"
      unfolding x_message_left_def using pack_x_cell(1) [OF assms(1,2)] lr by (metis fst_conv)
    show "x_message_right (grid_ref ex) (halo_depth ex depth) f r"
      unfolding x_message_right_def using pack_x_cell(2) [OF assms(1,2)] lr by (metis snd_conv)
  qed
qed

lemma post_y_cases:
  assumes "field_wf f" and "2 \<le> fdim f" and "0 < halo_depth ex depth"
    and "\<not> is_singleton_y (grid_ref ex)" and "halo_count_y (halo_depth ex depth) f \<noteq> 0"
  obtains bb t where
    "post_exchange_halo_y ex depth (f, b) =
       (irecv (neighbor_bottom ex) Y_bottom SEND_TO_TOP (halo_count_y (halo_depth ex depth) f) @
        irecv (neighbor_top ex) Y_top SEND_TO_BOTTOM (halo_count_y (halo_depth ex depth) f) @
        isend (neighbor_top ex) SEND_TO_TOP (halo_count_y (halo_depth ex depth) f) t @
        isend (neighbor_bottom ex) SEND_TO_BOTTOM (halo_count_y (halo_depth ex depth) f) bb,
        f, b\<lparr>send_y_bottom := bb, send_y_top := t\<rparr>)"
    and "y_message_bottom (grid_ref ex) (halo_depth ex depth) f bb"
    and "y_message_top (grid_ref ex) (halo_depth ex depth) f t"
proof -
  obtain bb t where lr: "pack_y (grid_ref ex) (halo_depth ex depth) f (send_y_bottom b, send_y_top b) = (bb, t)"
    by fastforce
  show ?thesis
  proof (rule that [where bb = bb and t = t])
    show "post_exchange_halo_y ex depth (f, b) =
       (irecv (neighbor_bottom ex) Y_bottom SEND_TO_TOP (halo_count_y (halo_depth ex depth) f) @
        irecv (neighbor_top ex) Y_top SEND_TO_BOTTOM (halo_count_y (halo_depth ex depth) f) @
        isend (neighbor_top ex) SEND_TO_TOP (halo_count_y (halo_depth ex depth) f) t @
        isend (neighbor_bottom ex) SEND_TO_BOTTOM (halo_count_y (halo_depth ex depth) f) bb,
        f, b\<lparr>send_y_bottom := bb, send_y_top := t\<rparr>)"
      using assms(3-5) by (simp add: post_exchange_halo_y_def Let_def lr)
    show "y_message_bottom (grid_ref ex) (halo_depth ex depth) f bb"
      unfolding y_message_bottom_def using pack_y_cell(1) [OF assms(1,2)] lr by (metis fst_conv)
    show "y_message_top (grid_ref ex) (halo_depth ex depth) f t"
      unfolding y_message_top_def using pack_y_cell(2) [OF assms(1,2)] lr by (metis snd_conv)
  qed
qed

lemma requests_none:
  "irecv n1 f1 t1 c @ irecv n2 f2 t2 c @ isend n2 t3 c l @ isend n1 t4 c r = [] \<longleftrightarrow> n1 = None \<and> n2 = None"
  by (simp add: irecv_def isend_def split: option.splits)

lemma x_index_in_count:
  assumes "field_wf f" and "2 \<le> fdim f" and "in_rows f (w, k, j, 0)" and "0 \<le> ih" and "ih < h"
  shows "0 \<le> x_index (ext_z f) (ext_y f) h (w, k, j, ih)"
    and "x_index (ext_z f) (ext_y f) h (w, k, j, ih) < halo_count_x h f"
  using x_index_bound [of "(w, k, j, ih)" "ext_w f" "ext_z f" "ext_y f" h] assms
  by (simp_all add: range_simps in_rows_def halo_count_x_eq)

lemma y_index_in_count:
  assumes "field_wf f" and "2 \<le> fdim f" and "in_columns f (w, k, 0, i)" and "0 \<le> jh" and "jh < h"
  shows "0 \<le> y_index (ext_z f) (ext_x f) h (w, k, i, jh)"
    and "y_index (ext_z f) (ext_x f) h (w, k, i, jh) < halo_count_y h f"
  using y_index_bound [of "(w, k, i, jh)" "ext_w f" "ext_z f" "ext_x f" h] assms
  by (simp_all add: range_simps in_columns_def halo_count_y_eq)

lemma in_rows_column: "in_rows f (w, k, j, i) \<longleftrightarrow> in_rows f (w, k, j, 0)"
  by (simp add: in_rows_def)

lemma in_columns_row: "in_columns f (w, k, j, i) \<longleftrightarrow> in_columns f (w, k, 0, i)"
  by (simp add: in_columns_def)

lemma wait_x_cells:
  assumes f: "field_wf f" "2 \<le> fdim f" and h: "h = halo_depth ex depth" and "0 < h"
    and off: "off = get_halo_cells (grid_ref ex)"
    and n: "n = local_physical_size (dim_x (grid_ref ex))" "0 \<le> n" and c: "c = halo_count_x h f"
    and left: "\<And>s. neighbor_left ex = Some s \<Longrightarrow> fst (mail s (tag_code SEND_TO_RIGHT)) = c"
    and right: "\<And>s. neighbor_right ex = Some s \<Longrightarrow> fst (mail s (tag_code SEND_TO_LEFT)) = c"
  shows "fdata (fst (wait_exchange_halo_x ex depth mail
      (irecv (neighbor_right ex) X_right SEND_TO_LEFT c @ irecv (neighbor_left ex) X_left SEND_TO_RIGHT c @
       isend (neighbor_left ex) SEND_TO_LEFT c l @ isend (neighbor_right ex) SEND_TO_RIGHT c r) (f, b)))
      (w, k, j, i) =
    (if in_rows f (w, k, j, 0) \<and> off - h \<le> i \<and> i < off \<and> neighbor_left ex \<noteq> None
     then snd (mail (the (neighbor_left ex)) (tag_code SEND_TO_RIGHT))
            (x_index (ext_z f) (ext_y f) h (w, k, j, i - off + h))
     else if in_rows f (w, k, j, 0) \<and> off + n \<le> i \<and> i < off + n + h \<and> neighbor_right ex \<noteq> None
     then snd (mail (the (neighbor_right ex)) (tag_code SEND_TO_LEFT))
            (x_index (ext_z f) (ext_y f) h (w, k, j, i - off - n))
     else fdata f (w, k, j, i))"
proof (cases "neighbor_left ex = None \<and> neighbor_right ex = None")
  case True
  then show ?thesis by (simp add: wait_exchange_halo_x_def irecv_def isend_def)
next
  case False
  have idx: "0 \<le> x_index (ext_z f) (ext_y f) h (w, k, j, ih) \<and> x_index (ext_z f) (ext_y f) h (w, k, j, ih) < c"
    if "in_rows f (w, k, j, 0)" "0 \<le> ih" "ih < h" for ih
    using x_index_in_count [OF f that] c by simp
  show ?thesis
    unfolding wait_exchange_halo_x_def requests_none
    using False idx left right
    by (auto simp: Let_def waitall_x h [symmetric] unpack_x_cell [OF f off n] in_rows_column [of f w k j i]
        receive_def)
qed

lemma wait_y_cells:
  assumes f: "field_wf f" "2 \<le> fdim f" and h: "h = halo_depth ex depth" and "0 < h"
    and off: "off = get_halo_cells (grid_ref ex)"
    and n: "n = local_physical_size (dim_y (grid_ref ex))" "0 \<le> n" and c: "c = halo_count_y h f"
    and bottom: "\<And>s. neighbor_bottom ex = Some s \<Longrightarrow> fst (mail s (tag_code SEND_TO_TOP)) = c"
    and top: "\<And>s. neighbor_top ex = Some s \<Longrightarrow> fst (mail s (tag_code SEND_TO_BOTTOM)) = c"
  shows "fdata (fst (wait_exchange_halo_y ex depth mail
      (irecv (neighbor_bottom ex) Y_bottom SEND_TO_TOP c @ irecv (neighbor_top ex) Y_top SEND_TO_BOTTOM c @
       isend (neighbor_top ex) SEND_TO_TOP c t @ isend (neighbor_bottom ex) SEND_TO_BOTTOM c bb) (f, b)))
      (w, k, j, i) =
    (if in_columns f (w, k, 0, i) \<and> off - h \<le> j \<and> j < off \<and> neighbor_bottom ex \<noteq> None
     then snd (mail (the (neighbor_bottom ex)) (tag_code SEND_TO_TOP))
            (y_index (ext_z f) (ext_x f) h (w, k, i, j - off + h))
     else if in_columns f (w, k, 0, i) \<and> off + n \<le> j \<and> j < off + n + h \<and> neighbor_top ex \<noteq> None
     then snd (mail (the (neighbor_top ex)) (tag_code SEND_TO_BOTTOM))
            (y_index (ext_z f) (ext_x f) h (w, k, i, j - off - n))
     else fdata f (w, k, j, i))"
proof (cases "neighbor_bottom ex = None \<and> neighbor_top ex = None")
  case True
  then show ?thesis by (simp add: wait_exchange_halo_y_def irecv_def isend_def)
next
  case False
  have idx: "0 \<le> y_index (ext_z f) (ext_x f) h (w, k, i, jh) \<and> y_index (ext_z f) (ext_x f) h (w, k, i, jh) < c"
    if "in_columns f (w, k, 0, i)" "0 \<le> jh" "jh < h" for jh
    using y_index_in_count [OF f that] c by simp
  show ?thesis
    unfolding wait_exchange_halo_y_def requests_none
    using False idx bottom top
    by (auto simp: Let_def waitall_y h [symmetric] unpack_y_cell [OF f off n] in_columns_row [of f w k j i]
        receive_def)
qed

lemma same_shape_wait [simp]:
  "same_shape f (fst (wait_exchange_halo_x ex depth mail reqs (f, b)))"
  "same_shape f (fst (wait_exchange_halo_y ex depth mail reqs (f, b)))"
  by (simp_all add: wait_exchange_halo_x_def wait_exchange_halo_y_def Let_def)

section \<open>Buffer sizes\<close>

lemma mult4_mono:
  fixes a b c d :: int
  assumes "a \<le> a'" "b \<le> b'" "c \<le> c'" "d \<le> d'" "0 \<le> a" "0 \<le> b" "0 \<le> c" "0 \<le> d"
  shows "a * b * c * d \<le> a' * b' * c' * d'"
  using assms by (intro mult_mono mult_nonneg_nonneg) auto

text \<open>Every value the kernels compute in the 32-bit arithmetic of \<open>int\<close> on the way to an index of the buffers.\<close>

definition x_index_terms :: "int \<Rightarrow> int \<Rightarrow> int \<Rightarrow> cell \<Rightarrow> int list" where
  "x_index_terms nz' ny' h = (\<lambda>(w, k, j, ih).
     [nz' * ny', nz' * ny' * h, w * (nz' * ny' * h), ny' * h, k * (ny' * h), w * (nz' * ny' * h) + k * (ny' * h),
      j * h, w * (nz' * ny' * h) + k * (ny' * h) + j * h, x_index nz' ny' h (w, k, j, ih)])"

definition y_index_terms :: "int \<Rightarrow> int \<Rightarrow> int \<Rightarrow> cell \<Rightarrow> int list" where
  "y_index_terms nz' nx' h = (\<lambda>(w, k, i, jh).
     [nz' * h, nz' * h * nx', w * (nz' * h * nx'), h * nx', k * (h * nx'), w * (nz' * h * nx') + k * (h * nx'),
      jh * nx', w * (nz' * h * nx') + k * (h * nx') + jh * nx', y_index nz' nx' h (w, k, i, jh)])"

lemma nested_terms:
  fixes w k a b :: int
  assumes "0 \<le> w" "w < nw" "0 \<le> k" "k < nz'" "0 \<le> a" "a < A" "0 \<le> b" "b < B" and total: "nw * (nz' * (A * B)) < M"
  shows "list_all (\<lambda>t. 0 \<le> t \<and> t < M) [nz' * A, nz' * (A * B), w * (nz' * (A * B)), A * B, k * (A * B),
    w * (nz' * (A * B)) + k * (A * B), a * B, w * (nz' * (A * B)) + k * (A * B) + a * B,
    w * (nz' * (A * B)) + k * (A * B) + a * B + b]"
proof -
  have AB: "a * B + b < A * B" using radix_bound [of a A b B] assms by simp
  have nzAB: "k * (A * B) + (a * B + b) < nz' * (A * B)"
    using radix_bound [of k nz' "a * B + b" "A * B"] assms AB by simp
  have all: "w * (nz' * (A * B)) + (k * (A * B) + (a * B + b)) < nw * (nz' * (A * B))"
    using radix_bound [of w nw "k * (A * B) + (a * B + b)" "nz' * (A * B)"] assms nzAB by simp
  have "1 * (nz' * (A * B)) \<le> nw * (nz' * (A * B))" "1 * (A * B) \<le> nz' * (A * B)" "(nz' * A) * 1 \<le> (nz' * A) * B"
    using assms by (intro mult_right_mono mult_left_mono; simp)+
  moreover have "0 \<le> w * (nz' * (A * B))" "0 \<le> k * (A * B)" "0 \<le> a * B" "0 \<le> nz' * A" "0 \<le> A * B"
    using assms by simp_all
  ultimately show ?thesis using AB nzAB all total assms(7) by (simp add: mult.assoc)
qed

lemma x_index_terms_bound:
  assumes "c \<in> set (mdrange4 0 0 0 0 nw nz' ny' h)" and "nw * nz' * ny' * h < M"
  shows "list_all (\<lambda>t. 0 \<le> t \<and> t < M) (x_index_terms nz' ny' h c)"
proof -
  obtain w k a b where c: "c = (w, k, a, b)" by (cases c)
  show ?thesis
    using nested_terms [of w nw k nz' a ny' b h M] assms
    by (simp add: c range_simps x_index_terms_def x_index_def mult.assoc)
qed

lemma y_index_terms_bound:
  assumes "c \<in> set (mdrange4 0 0 0 0 nw nz' nx' h)" and "nw * nz' * h * nx' < M"
  shows "list_all (\<lambda>t. 0 \<le> t \<and> t < M) (y_index_terms nz' nx' h c)"
proof -
  obtain w k a b where c: "c = (w, k, b, a)" by (cases c)
  show ?thesis
    using nested_terms [of w nw k nz' a h b nx' M] assms
    by (simp add: c range_simps y_index_terms_def y_index_def mult.assoc)
qed

text \<open>C21. Buffer sizes: for a field that covers the local points of the grid, and in the fourth dimension has at
  most sixteen components, every index that the pack and unpack kernels use is below the length of the message, and
  the message fits the buffers the constructor allocates.  When the length also fits the \<open>int\<close> that MPI takes as a
  count, no intermediate value of the kernels' index arithmetic overflows 32 bits.\<close>

theorem halo_buffer_bounds:
  assumes "field_wf (f :: 'a field)" and "2 \<le> fdim f" and "ex = halo_exchanger g shift"
    and "h = halo_depth ex depth" and "0 \<le> h" and "h \<le> get_halo_cells g" and "0 < get_halo_cells g"
    and "ext_y f = get_local_total_points_y g" and "ext_x f = get_local_total_points_x g"
    and "ext_z f \<le> get_local_total_points_z g" and "ext_w f \<le> 16"
    and "c \<in> set (mdrange4 0 0 0 0 (ext_w f) (ext_z f) (ext_y f) h)"
    and "d \<in> set (mdrange4 0 0 0 0 (ext_w f) (ext_z f) (ext_x f) h)"
    and "b = (allocate_buffers ex :: ('a :: zero) halo_buffers)"
  shows "0 \<le> x_index (ext_z f) (ext_y f) h c \<and> x_index (ext_z f) (ext_y f) h c < halo_count_x h f \<and>
    halo_count_x h f \<le> max_buffer_size_x ex \<and> x_extent b = max_buffer_size_x ex \<and>
    (halo_count_x h f < 2 ^ 31 \<longrightarrow> list_all (\<lambda>t. 0 \<le> t \<and> t < 2 ^ 31) (x_index_terms (ext_z f) (ext_y f) h c)) \<and>
    0 \<le> y_index (ext_z f) (ext_x f) h d \<and> y_index (ext_z f) (ext_x f) h d < halo_count_y h f \<and>
    halo_count_y h f \<le> max_buffer_size_y ex \<and> y_extent b = max_buffer_size_y ex \<and>
    (halo_count_y h f < 2 ^ 31 \<longrightarrow> list_all (\<lambda>t. 0 \<le> t \<and> t < 2 ^ 31) (y_index_terms (ext_z f) (ext_x f) h d))"
proof -
  have nn: "0 \<le> ext_w f" "0 \<le> ext_z f" "0 \<le> ext_y f" "0 \<le> ext_x f" using assms(1) by (auto simp: field_wf_def)
  have cx: "halo_count_x h f = ext_w f * ext_z f * ext_y f * h"
    and cy: "halo_count_y h f = ext_w f * ext_z f * h * ext_x f"
    using halo_count_x_eq [OF assms(1,2), of h] halo_count_y_eq [OF assms(1,2), of h] by (simp_all add: ac_simps)
  have "ext_w f * ext_z f * ext_y f * h \<le> buffer_size_x_4d ex" and "ext_w f * ext_z f * h * ext_x f \<le> buffer_size_y_4d ex"
    using mult4_mono [of "ext_w f" 16 "ext_z f" "get_local_total_points_z g" "ext_y f" "ext_y f" h "get_halo_cells g"]
      mult4_mono [of "ext_w f" 16 "ext_z f" "get_local_total_points_z g" h "get_halo_cells g" "ext_x f" "ext_x f"] assms nn
    by (simp_all add: halo_exchanger_def Let_def ac_simps)
  then have fits: "halo_count_x h f \<le> max_buffer_size_x ex" "halo_count_y h f \<le> max_buffer_size_y ex"
    unfolding cx cy by (simp_all add: max_buffer_size_x_def max_buffer_size_y_def)
  have "0 < halo_count_x h f" "0 < halo_count_y h f"
    using x_index_bound [OF assms(12)] y_index_bound [OF assms(13)] unfolding cx cy by linarith+
  then have "x_extent b = max_buffer_size_x ex" "y_extent b = max_buffer_size_y ex"
    using fits by (simp_all add: assms(14) allocate_buffers_def)
  then show ?thesis
    using fits x_index_bound [OF assms(12)] y_index_bound [OF assms(13)] x_index_terms_bound [OF assms(12)]
      y_index_terms_bound [OF assms(13)] unfolding cx cy by blast
qed

lemma halo_buffer_bounds_witness:
  "let g = distributed (sample_grid 3 3) (1, 1) (0, 0); ex = halo_exchanger g (\<lambda>_. (None, None))
   in halo_count_y 2 (sample_field 7 7) = 14 \<and> 14 \<le> max_buffer_size_y ex \<and>
     list_all (\<lambda>t. 0 \<le> t \<and> t < 2 ^ 31) (y_index_terms 1 7 2 (0, 0, 6, 1))"
proof -
  let ?g = "distributed (sample_grid 3 3) (1, 1) (0, 0)"
  let ?ex = "halo_exchanger ?g (\<lambda>_. (None, None))"
  have h: "2 = halo_depth ?ex (-1)" using sample_extents by (simp add: halo_depth_def halo_exchanger_def Let_def)
  have c: "halo_count_y 2 (sample_field 7 7) = 14" by (simp add: halo_count_y_def sample_field_def)
  show ?thesis
    using halo_buffer_bounds [OF _ _ refl h, of "sample_field 7 7" "(0, 0, 0, 0)" "(0, 0, 6, 1)"] sample_extents c
    by (simp add: sample_field_def field_wf_def range_simps Let_def)
qed

end
