(* ===== verification/Halo_World.thy ===== *)
theory Halo_World
  imports Halo_Exchange
begin

text \<open>
  The halo exchange of a whole run: every process of the Cartesian communicator executes
  \<open>HaloExchanger\<close> on its block, in rounds.  In one round all processes post their
  requests, then MPI delivers, then all processes wait and unpack; a process cannot enter
  its next round before the messages of the current one have arrived.

  MPI is a parameter with its documented behaviour as hypotheses: \<open>cart_ok\<close> and
  \<open>cart_shift_ok\<close> for the Cartesian communicator, \<open>delivers\<close> for point-to-point messages (a
  receive from \<open>src\<close> with a tag completes with the message that \<open>src\<close> sent to this process
  with this tag, when there is exactly one).
\<close>

section \<open>MPI\<close>

definition sends_to :: "nat \<Rightarrow> int \<Rightarrow> 'a request list \<Rightarrow> (int \<times> (int \<Rightarrow> 'a)) list" where
  "sends_to me tag reqs =
     concat (map (\<lambda>r. case r of Irecv _ _ _ _ \<Rightarrow> []
                      | Isend dest t n p \<Rightarrow> if dest = me \<and> t = tag then [(n, p)] else []) reqs)"

type_synonym 'a delivery = "(nat \<Rightarrow> 'a request list) \<Rightarrow> nat \<Rightarrow> 'a mailbox"

definition delivers :: "'a delivery \<Rightarrow> bool" where
  "delivers deliver \<longleftrightarrow>
     (\<forall>net me src tag msg. sends_to me tag (net src) = [msg] \<longrightarrow> deliver net me src tag = msg)"

definition shift_target :: "bool \<Rightarrow> int \<Rightarrow> int \<Rightarrow> int option" where
  "shift_target periodic p c =
     (if 0 \<le> c \<and> c < p then Some c else if periodic then Some (c mod p) else None)"

definition rank_at :: "nat set \<Rightarrow> (nat \<Rightarrow> int \<times> int) \<Rightarrow> (int \<times> int) option \<Rightarrow> nat option \<Rightarrow> bool" where
  "rank_at ranks coords c r =
     (case c of None \<Rightarrow> r = None | Some c' \<Rightarrow> \<exists>r' \<in> ranks. r = Some r' \<and> coords r' = c')"

definition cart_ok :: "int \<times> int \<Rightarrow> nat set \<Rightarrow> (nat \<Rightarrow> int \<times> int) \<Rightarrow> bool" where
  "cart_ok pd ranks coords \<longleftrightarrow>
     inj_on coords ranks \<and> coords ` ranks = {0..<fst pd} \<times> {0..<snd pd}"

definition cart_shift_ok ::
  "int \<times> int \<Rightarrow> bool \<times> bool \<Rightarrow> nat set \<Rightarrow> (nat \<Rightarrow> int \<times> int) \<Rightarrow>
   (nat \<Rightarrow> nat \<Rightarrow> nat option \<times> nat option) \<Rightarrow> bool" where
  "cart_shift_ok pd periods ranks coords shift \<longleftrightarrow>
     (\<forall>r \<in> ranks. let (cy, cx) = coords r in
        rank_at ranks coords (map_option (\<lambda>c. (cy, c)) (shift_target (snd periods) (snd pd) (cx - 1)))
          (fst (shift r 1)) \<and>
        rank_at ranks coords (map_option (\<lambda>c. (cy, c)) (shift_target (snd periods) (snd pd) (cx + 1)))
          (snd (shift r 1)) \<and>
        rank_at ranks coords (map_option (\<lambda>c. (c, cx)) (shift_target (fst periods) (fst pd) (cy - 1)))
          (fst (shift r 0)) \<and>
        rank_at ranks coords (map_option (\<lambda>c. (c, cx)) (shift_target (fst periods) (fst pd) (cy + 1)))
          (snd (shift r 0)))"

section \<open>A run\<close>

record run =
  run_global :: grid
  run_mpi :: mpi_env
  run_radiation :: bool
  run_dims :: "int \<times> int"
  run_periods :: "bool \<times> bool"
  run_ranks :: "nat set"
  run_coords :: "nat \<Rightarrow> int \<times> int"
  run_shift :: "nat \<Rightarrow> nat \<Rightarrow> nat option \<times> nat option"
  run_grid :: "nat \<Rightarrow> grid"

definition run_exchanger :: "run \<Rightarrow> nat \<Rightarrow> exchanger" where
  "run_exchanger R r = halo_exchanger (run_grid R r) (run_shift R r)"

text \<open>Every process has constructed its grid from the same parameters.\<close>

definition run_ok :: "run \<Rightarrow> bool" where
  "run_ok R \<longleftrightarrow>
     (let g = run_global R in
      0 < global_size (dim_y g) \<and> 0 < global_size (dim_x g) \<and>
      0 < fst (run_dims R) \<and> 0 < snd (run_dims R) \<and>
      0 < num_halo_cells (dim_z g) \<and> num_halo_cells (dim_y g) = num_halo_cells (dim_z g) \<and>
      num_halo_cells (dim_x g) = num_halo_cells (dim_z g) \<and>
      process_dimensions (run_mpi R) (global_size (dim_y g)) (global_size (dim_x g)) = Inr (run_dims R) \<and>
      cart_ok (run_dims R) (run_ranks R) (run_coords R) \<and>
      cart_shift_ok (run_dims R) (run_periods R) (run_ranks R) (run_coords R) (run_shift R) \<and>
      (\<forall>r \<in> run_ranks R.
         calculate_local_grid_distribution (mpi_at (run_mpi R) (run_coords R r)) (run_radiation R) g =
           Inr (run_grid R r)))"

definition fits :: "run \<Rightarrow> nat \<Rightarrow> int \<Rightarrow> int \<Rightarrow> nat \<Rightarrow> 'a field \<Rightarrow> bool" where
  "fits R nd nw nz' r f \<longleftrightarrow>
     field_wf f \<and> 2 \<le> nd \<and> fdim f = nd \<and> ext_w f = nw \<and> ext_z f = nz' \<and>
     ext_y f = get_local_total_points_y (run_grid R r) \<and>
     ext_x f = get_local_total_points_x (run_grid R r)"

section \<open>Rounds\<close>

definition x_round ::
  "'a delivery \<Rightarrow> (nat \<Rightarrow> exchanger) \<Rightarrow> int \<Rightarrow> (nat \<Rightarrow> 'a field \<times> 'a halo_buffers) \<Rightarrow>
   nat \<Rightarrow> 'a field \<times> 'a halo_buffers" where
  "x_round deliver ex depth st =
     (let posted = (\<lambda>r. post_exchange_halo_x (ex r) depth (st r));
          mail = deliver (\<lambda>r. fst (posted r))
      in (\<lambda>r. wait_exchange_halo_x (ex r) depth (mail r) (fst (posted r)) (snd (posted r))))"

definition y_round ::
  "'a delivery \<Rightarrow> (nat \<Rightarrow> exchanger) \<Rightarrow> int \<Rightarrow> (nat \<Rightarrow> 'a field \<times> 'a halo_buffers) \<Rightarrow>
   nat \<Rightarrow> 'a field \<times> 'a halo_buffers" where
  "y_round deliver ex depth st =
     (let posted = (\<lambda>r. post_exchange_halo_y (ex r) depth (st r));
          mail = deliver (\<lambda>r. fst (posted r))
      in (\<lambda>r. wait_exchange_halo_y (ex r) depth (mail r) (fst (posted r)) (snd (posted r))))"

text \<open>\<open>exchange_halos\<close> on every process: the messages of its Y round, then those of its X
  round, which carry what the Y round left.\<close>

definition exchange_halos_all ::
  "'a delivery \<Rightarrow> (nat \<Rightarrow> exchanger) \<Rightarrow> int \<Rightarrow> (nat \<Rightarrow> 'a field \<times> 'a halo_buffers) \<Rightarrow>
   nat \<Rightarrow> 'a field \<times> 'a halo_buffers" where
  "exchange_halos_all deliver ex depth st =
     (let posted_y = (\<lambda>r. post_exchange_halo_y (ex r) depth (st r));
          mail_y = deliver (\<lambda>r. fst (posted_y r));
          st1 = (\<lambda>r. wait_exchange_halo_y (ex r) depth (mail_y r) (fst (posted_y r)) (snd (posted_y r)));
          posted_x = (\<lambda>r. post_exchange_halo_x (ex r) depth (st1 r));
          mail_x = deliver (\<lambda>r. fst (posted_x r))
      in (\<lambda>r. exchange_halos (ex r) depth (mail_y r) (mail_x r) (st r)))"

definition exchange_face_halos_all ::
  "'a delivery \<Rightarrow> (nat \<Rightarrow> exchanger) \<Rightarrow> int \<Rightarrow> (nat \<Rightarrow> 'a field \<times> 'a halo_buffers) \<Rightarrow>
   nat \<Rightarrow> 'a field \<times> 'a halo_buffers" where
  "exchange_face_halos_all deliver ex depth st =
     (let posted_x = (\<lambda>r. post_exchange_halo_x (ex r) depth (st r));
          posted_y = (\<lambda>r. post_exchange_halo_y (ex r) depth (snd (posted_x r)));
          mail = deliver (\<lambda>r. fst (posted_x r) @ fst (posted_y r))
      in (\<lambda>r. exchange_face_halos (ex r) depth (mail r) (st r)))"

lemma exchange_halos_all_rounds:
  assumes "2 \<le> fdim (fst (st r))"
  shows "exchange_halos_all deliver ex depth st r =
    x_round deliver ex depth (y_round deliver ex depth st) r"
  using assms
  by (simp add: exchange_halos_all_def exchange_halos_def x_round_def y_round_def Let_def case_prod_beta)

section \<open>Neighbours\<close>

lemma run_grid_eq:
  assumes "run_ok R" and "r \<in> run_ranks R"
  shows "run_grid R r = distributed (run_global R) (run_dims R) (run_coords R r)"
    and "wide_enough (run_grid R r)"
proof -
  have c: "calculate_local_grid_distribution (mpi_at (run_mpi R) (run_coords R r)) (run_radiation R)
      (run_global R) = Inr (run_grid R r)"
    and p: "process_dimensions (run_mpi R) (global_size (dim_y (run_global R)))
      (global_size (dim_x (run_global R))) = Inr (run_dims R)"
    using assms by (auto simp: run_ok_def Let_def)
  from c p show eq: "run_grid R r = distributed (run_global R) (run_dims R) (run_coords R r)"
    by (rule calculate_at)
  from c show "wide_enough (run_grid R r)"
    by (rule calculate_local_grid_distribution_InrE) simp
qed

lemma run_exchanger_simps [simp]:
  "grid_ref (run_exchanger R r) = run_grid R r"
  "neighbor_left (run_exchanger R r) = fst (run_shift R r 1)"
  "neighbor_right (run_exchanger R r) = snd (run_shift R r 1)"
  "neighbor_bottom (run_exchanger R r) = fst (run_shift R r 0)"
  "neighbor_top (run_exchanger R r) = snd (run_shift R r 0)"
  by (simp_all add: run_exchanger_def halo_exchanger_def Let_def)

lemma coords_range:
  assumes "run_ok R" and "r \<in> run_ranks R"
  shows "0 \<le> fst (run_coords R r)" "fst (run_coords R r) < fst (run_dims R)"
    "0 \<le> snd (run_coords R r)" "snd (run_coords R r) < snd (run_dims R)"
proof -
  have "run_coords R r \<in> {0..<fst (run_dims R)} \<times> {0..<snd (run_dims R)}"
    using assms by (auto simp: run_ok_def Let_def cart_ok_def)
  then show "0 \<le> fst (run_coords R r)" "fst (run_coords R r) < fst (run_dims R)"
    "0 \<le> snd (run_coords R r)" "snd (run_coords R r) < snd (run_dims R)"
    by (auto simp: mem_Times_iff)
qed

lemma rank_at_Some: "rank_at ranks coords (Some c) r \<longleftrightarrow> (\<exists>r' \<in> ranks. r = Some r' \<and> coords r' = c)"
  by (simp add: rank_at_def)

text \<open>One step down and one step up again on one axis.\<close>

lemma shift_back:
  assumes "shift_target per p (c + s) = Some d" and "0 \<le> c" "c < p" and "s = 1 \<or> s = -1"
  shows "0 \<le> d \<and> d < p \<and> shift_target per p (d - s) = Some c"
proof -
  have m: "(-1) mod p = p - 1" using assms by (intro zmod_minus1) auto
  consider "0 \<le> c + s" "c + s < p" "d = c + s" | "s = 1" "c = p - 1" "d = 0" per
    | "s = -1" "c = 0" "d = p - 1" per
  proof (cases "0 \<le> c + s \<and> c + s < p")
    case True
    with assms(1) show ?thesis by (intro that(1)) (simp_all add: shift_target_def)
  next
    case False
    then have pd: "per" "d = (c + s) mod p"
      using assms(1) unfolding shift_target_def if_not_P [OF False] by (metis option.distinct(1) option.inject)+
    from False assms(2-4) have "s = 1 \<and> c = p - 1 \<or> s = -1 \<and> c = 0" by linarith
    then show ?thesis
    proof (elim disjE conjE)
      assume "s = 1" "c = p - 1"
      with pd show ?thesis by (intro that(2)) simp_all
    next
      assume "s = -1" "c = 0"
      with pd m show ?thesis by (intro that(3)) simp_all
    qed
  qed
  then show ?thesis
    by cases (use assms(2,3) m in \<open>simp_all add: shift_target_def\<close>)
qed

lemma rank_unique:
  assumes "run_ok R" and "r \<in> run_ranks R" and "r' \<in> run_ranks R" and "run_coords R r = run_coords R r'"
  shows "r = r'"
  using assms by (auto simp: run_ok_def Let_def cart_ok_def dest: inj_onD)

lemma run_shift_ok:
  assumes "run_ok R" and "r \<in> run_ranks R"
  shows "rank_at (run_ranks R) (run_coords R) (map_option (\<lambda>c. (fst (run_coords R r), c))
      (shift_target (snd (run_periods R)) (snd (run_dims R)) (snd (run_coords R r) + -1))) (fst (run_shift R r 1))"
    and "rank_at (run_ranks R) (run_coords R) (map_option (\<lambda>c. (fst (run_coords R r), c))
      (shift_target (snd (run_periods R)) (snd (run_dims R)) (snd (run_coords R r) + 1))) (snd (run_shift R r 1))"
    and "rank_at (run_ranks R) (run_coords R) (map_option (\<lambda>c. (c, snd (run_coords R r)))
      (shift_target (fst (run_periods R)) (fst (run_dims R)) (fst (run_coords R r) + -1))) (fst (run_shift R r 0))"
    and "rank_at (run_ranks R) (run_coords R) (map_option (\<lambda>c. (c, snd (run_coords R r)))
      (shift_target (fst (run_periods R)) (fst (run_dims R)) (fst (run_coords R r) + 1))) (snd (run_shift R r 0))"
  using assms unfolding run_ok_def cart_shift_ok_def Let_def by (auto simp: case_prod_beta)

lemma rank_at_map_Some:
  assumes "rank_at ranks coords (map_option f t) (Some s)"
  obtains d where "t = Some d" and "s \<in> ranks" and "coords s = f d"
  using assms by (cases t) (auto simp: rank_at_def)

text \<open>The neighbour on one side has this process as its neighbour on the other side.\<close>

lemma x_neighbor_back:
  assumes "run_ok R" and "r \<in> run_ranks R"
  shows "fst (run_shift R r 1) = Some s \<Longrightarrow>
      s \<in> run_ranks R \<and> snd (run_shift R s 1) = Some r \<and> fst (run_coords R s) = fst (run_coords R r) \<and>
      shift_target (snd (run_periods R)) (snd (run_dims R)) (snd (run_coords R r) + -1) = Some (snd (run_coords R s))"
    and "snd (run_shift R r 1) = Some s \<Longrightarrow>
      s \<in> run_ranks R \<and> fst (run_shift R s 1) = Some r \<and> fst (run_coords R s) = fst (run_coords R r) \<and>
      shift_target (snd (run_periods R)) (snd (run_dims R)) (snd (run_coords R r) + 1) = Some (snd (run_coords R s))"
proof -
  note rng = coords_range [OF assms]
  assume "fst (run_shift R r 1) = Some s"
  then obtain d where d: "shift_target (snd (run_periods R)) (snd (run_dims R)) (snd (run_coords R r) + -1) = Some d"
    and s: "s \<in> run_ranks R" "run_coords R s = (fst (run_coords R r), d)"
    using run_shift_ok(1) [OF assms] by (metis rank_at_map_Some)
  have "shift_target (snd (run_periods R)) (snd (run_dims R)) (d + 1) = Some (snd (run_coords R r))"
    using shift_back [OF d] rng by simp
  then have "snd (run_shift R s 1) = Some r"
    using run_shift_ok(2) [OF assms(1) s(1)] s rank_unique [OF assms(1)] assms(2)
    by (auto simp: rank_at_Some)
  with d s show "s \<in> run_ranks R \<and> snd (run_shift R s 1) = Some r \<and> fst (run_coords R s) = fst (run_coords R r) \<and>
      shift_target (snd (run_periods R)) (snd (run_dims R)) (snd (run_coords R r) + -1) = Some (snd (run_coords R s))"
    by simp
next
  note rng = coords_range [OF assms]
  assume "snd (run_shift R r 1) = Some s"
  then obtain d where d: "shift_target (snd (run_periods R)) (snd (run_dims R)) (snd (run_coords R r) + 1) = Some d"
    and s: "s \<in> run_ranks R" "run_coords R s = (fst (run_coords R r), d)"
    using run_shift_ok(2) [OF assms] by (metis rank_at_map_Some)
  have "shift_target (snd (run_periods R)) (snd (run_dims R)) (d + -1) = Some (snd (run_coords R r))"
    using shift_back [OF d] rng by simp
  then have "fst (run_shift R s 1) = Some r"
    using run_shift_ok(1) [OF assms(1) s(1)] s rank_unique [OF assms(1)] assms(2)
    by (auto simp: rank_at_Some)
  with d s show "s \<in> run_ranks R \<and> fst (run_shift R s 1) = Some r \<and> fst (run_coords R s) = fst (run_coords R r) \<and>
      shift_target (snd (run_periods R)) (snd (run_dims R)) (snd (run_coords R r) + 1) = Some (snd (run_coords R s))"
    by simp
qed

lemma y_neighbor_back:
  assumes "run_ok R" and "r \<in> run_ranks R"
  shows "fst (run_shift R r 0) = Some s \<Longrightarrow>
      s \<in> run_ranks R \<and> snd (run_shift R s 0) = Some r \<and> snd (run_coords R s) = snd (run_coords R r) \<and>
      shift_target (fst (run_periods R)) (fst (run_dims R)) (fst (run_coords R r) + -1) = Some (fst (run_coords R s))"
    and "snd (run_shift R r 0) = Some s \<Longrightarrow>
      s \<in> run_ranks R \<and> fst (run_shift R s 0) = Some r \<and> snd (run_coords R s) = snd (run_coords R r) \<and>
      shift_target (fst (run_periods R)) (fst (run_dims R)) (fst (run_coords R r) + 1) = Some (fst (run_coords R s))"
proof -
  note rng = coords_range [OF assms]
  assume "fst (run_shift R r 0) = Some s"
  then obtain d where d: "shift_target (fst (run_periods R)) (fst (run_dims R)) (fst (run_coords R r) + -1) = Some d"
    and s: "s \<in> run_ranks R" "run_coords R s = (d, snd (run_coords R r))"
    using run_shift_ok(3) [OF assms] by (metis rank_at_map_Some)
  have "shift_target (fst (run_periods R)) (fst (run_dims R)) (d + 1) = Some (fst (run_coords R r))"
    using shift_back [OF d] rng by simp
  then have "snd (run_shift R s 0) = Some r"
    using run_shift_ok(4) [OF assms(1) s(1)] s rank_unique [OF assms(1)] assms(2)
    by (auto simp: rank_at_Some)
  with d s show "s \<in> run_ranks R \<and> snd (run_shift R s 0) = Some r \<and> snd (run_coords R s) = snd (run_coords R r) \<and>
      shift_target (fst (run_periods R)) (fst (run_dims R)) (fst (run_coords R r) + -1) = Some (fst (run_coords R s))"
    by simp
next
  note rng = coords_range [OF assms]
  assume "snd (run_shift R r 0) = Some s"
  then obtain d where d: "shift_target (fst (run_periods R)) (fst (run_dims R)) (fst (run_coords R r) + 1) = Some d"
    and s: "s \<in> run_ranks R" "run_coords R s = (d, snd (run_coords R r))"
    using run_shift_ok(4) [OF assms] by (metis rank_at_map_Some)
  have "shift_target (fst (run_periods R)) (fst (run_dims R)) (d + -1) = Some (fst (run_coords R r))"
    using shift_back [OF d] rng by simp
  then have "fst (run_shift R s 0) = Some r"
    using run_shift_ok(3) [OF assms(1) s(1)] s rank_unique [OF assms(1)] assms(2)
    by (auto simp: rank_at_Some)
  with d s show "s \<in> run_ranks R \<and> fst (run_shift R s 0) = Some r \<and> snd (run_coords R s) = snd (run_coords R r) \<and>
      shift_target (fst (run_periods R)) (fst (run_dims R)) (fst (run_coords R r) + 1) = Some (fst (run_coords R s))"
    by simp
qed

section \<open>What a round moves\<close>

definition run_halo :: "run \<Rightarrow> int" where
  "run_halo R = num_halo_cells (dim_z (run_global R))"

definition run_depth :: "run \<Rightarrow> int \<Rightarrow> int" where
  "run_depth R depth = (if depth = -1 then run_halo R else depth)"

lemma run_okD:
  assumes "run_ok R"
  shows "0 < global_size (dim_y (run_global R))" "0 < global_size (dim_x (run_global R))"
    "0 < fst (run_dims R)" "0 < snd (run_dims R)" "0 < run_halo R"
    "num_halo_cells (dim_y (run_global R)) = run_halo R" "num_halo_cells (dim_x (run_global R)) = run_halo R"
    "global_size (dim_y (run_global R)) = 1 \<longrightarrow> fst (run_dims R) = 1"
    "global_size (dim_x (run_global R)) = 1 \<longrightarrow> snd (run_dims R) = 1"
proof -
  let ?g = "run_global R"
  have all: "0 < global_size (dim_y ?g)" "0 < global_size (dim_x ?g)" "0 < fst (run_dims R)"
    "0 < snd (run_dims R)" "0 < num_halo_cells (dim_z ?g)"
    "num_halo_cells (dim_y ?g) = num_halo_cells (dim_z ?g)"
    "num_halo_cells (dim_x ?g) = num_halo_cells (dim_z ?g)"
    "process_dimensions (run_mpi R) (global_size (dim_y ?g)) (global_size (dim_x ?g)) = Inr (run_dims R)"
    using assms by (simp_all add: run_ok_def Let_def)
  then show "0 < global_size (dim_y ?g)" "0 < global_size (dim_x ?g)"
    "0 < fst (run_dims R)" "0 < snd (run_dims R)" "0 < run_halo R"
    "num_halo_cells (dim_y ?g) = run_halo R" "num_halo_cells (dim_x ?g) = run_halo R"
    by (simp_all add: run_halo_def)
  from all process_dimensions_cases [of "run_mpi R" "global_size (dim_y ?g)" "global_size (dim_x ?g)"
      "fst (run_dims R)" "snd (run_dims R)"]
  show "global_size (dim_y ?g) = 1 \<longrightarrow> fst (run_dims R) = 1"
    "global_size (dim_x ?g) = 1 \<longrightarrow> snd (run_dims R) = 1"
    by simp_all
qed

lemma run_grid_simps:
  assumes "run_ok R" and "r \<in> run_ranks R"
  shows "get_halo_cells (run_grid R r) = run_halo R"
    and "is_singleton_x (run_grid R r) = is_singleton_x (run_global R)"
    and "is_singleton_y (run_grid R r) = is_singleton_y (run_global R)"
    and "get_local_total_points_x (run_grid R r) = local_physical_size (dim_x (run_grid R r)) + 2 * run_halo R"
    and "get_local_total_points_y (run_grid R r) = local_physical_size (dim_y (run_grid R r)) + 2 * run_halo R"
    and "halo_depth (run_exchanger R r) depth = run_depth R depth"
  by (simp_all add: run_grid_eq(1) [OF assms] get_halo_cells_def is_singleton_x_def is_singleton_y_def
      get_local_total_points_x_def get_local_total_points_y_def axis_simps run_okD [OF assms(1)]
      halo_depth_def run_depth_def) (simp_all add: run_halo_def)

lemma local_size_pos:
  assumes "run_ok R" and "r \<in> run_ranks R"
  shows "0 < local_physical_size (dim_x (run_grid R r))" "0 < local_physical_size (dim_y (run_grid R r))"
proof -
  have w: "wide_enough (run_grid R r)" using assms by (rule run_grid_eq(2))
  note g = run_okD [OF assms(1)]
  have hz: "num_halo_cells (dim_z (run_grid R r)) = run_halo R"
    using run_grid_simps(1) [OF assms] by (simp add: get_halo_cells_def)
  show "0 < local_physical_size (dim_x (run_grid R r))"
  proof (cases "global_size (dim_x (run_global R)) = 1")
    case True
    then show ?thesis by (simp add: run_grid_eq(1) [OF assms] axis_simps distribute_x_def)
  next
    case False
    then show ?thesis using w g hz by (simp add: wide_enough_def run_grid_eq(1) [OF assms] axis_simps)
  qed
  show "0 < local_physical_size (dim_y (run_grid R r))"
  proof (cases "global_size (dim_y (run_global R)) = 1")
    case True
    with g show ?thesis by (simp add: run_grid_eq(1) [OF assms] axis_simps distribute_y_def)
  next
    case False
    then show ?thesis using w g hz by (simp add: wide_enough_def run_grid_eq(1) [OF assms] axis_simps)
  qed
qed

lemma sends_to_x:
  "sends_to me (tag_code SEND_TO_RIGHT)
     (irecv n1 f1 t1 c @ irecv n2 f2 t2 c @ isend n3 SEND_TO_LEFT c l @ isend n4 SEND_TO_RIGHT c r) =
     (if n4 = Some me then [(c, r)] else [])"
  "sends_to me (tag_code SEND_TO_LEFT)
     (irecv n1 f1 t1 c @ irecv n2 f2 t2 c @ isend n3 SEND_TO_LEFT c l @ isend n4 SEND_TO_RIGHT c r) =
     (if n3 = Some me then [(c, l)] else [])"
  by (auto simp: sends_to_def irecv_def isend_def split: option.splits if_splits)

lemma sends_to_y:
  "sends_to me (tag_code SEND_TO_TOP)
     (irecv n1 f1 t1 c @ irecv n2 f2 t2 c @ isend n3 SEND_TO_TOP c l @ isend n4 SEND_TO_BOTTOM c r) =
     (if n3 = Some me then [(c, l)] else [])"
  "sends_to me (tag_code SEND_TO_BOTTOM)
     (irecv n1 f1 t1 c @ irecv n2 f2 t2 c @ isend n3 SEND_TO_TOP c l @ isend n4 SEND_TO_BOTTOM c r) =
     (if n4 = Some me then [(c, r)] else [])"
  by (auto simp: sends_to_def irecv_def isend_def split: option.splits if_splits)

lemma x_neighbor_shape:
  assumes "run_ok R" "r \<in> run_ranks R" "s \<in> run_ranks R" "fst (run_coords R s) = fst (run_coords R r)"
    and "fits R nd nw nz' r f" "fits R nd nw nz' s f'"
  shows "ext_w f' = ext_w f" "ext_z f' = ext_z f" "ext_y f' = ext_y f" "in_rows f' = in_rows f"
    "halo_count_x h f' = halo_count_x h f"
proof -
  have "dim_y (run_grid R s) = dim_y (run_grid R r)"
    using assms(4) by (simp add: run_grid_eq(1) [OF assms(1,2)] run_grid_eq(1) [OF assms(1,3)] axis_simps)
  then show *: "ext_w f' = ext_w f" "ext_z f' = ext_z f" "ext_y f' = ext_y f"
    using assms(5,6) by (simp_all add: fits_def get_local_total_points_y_def)
  then show "in_rows f' = in_rows f" by (simp add: in_rows_def fun_eq_iff)
  show "halo_count_x h f' = halo_count_x h f" using * assms(5,6) by (simp add: halo_count_x_def fits_def)
qed

lemma y_neighbor_shape:
  assumes "run_ok R" "r \<in> run_ranks R" "s \<in> run_ranks R" "snd (run_coords R s) = snd (run_coords R r)"
    and "fits R nd nw nz' r f" "fits R nd nw nz' s f'"
  shows "ext_w f' = ext_w f" "ext_z f' = ext_z f" "ext_x f' = ext_x f" "in_columns f' = in_columns f"
    "halo_count_y h f' = halo_count_y h f"
proof -
  have "dim_x (run_grid R s) = dim_x (run_grid R r)"
    using assms(4) by (simp add: run_grid_eq(1) [OF assms(1,2)] run_grid_eq(1) [OF assms(1,3)] axis_simps)
  then show *: "ext_w f' = ext_w f" "ext_z f' = ext_z f" "ext_x f' = ext_x f"
    using assms(5,6) by (simp_all add: fits_def get_local_total_points_x_def)
  then show "in_columns f' = in_columns f" by (simp add: in_columns_def fun_eq_iff)
  show "halo_count_y h f' = halo_count_y h f" using * assms(5,6) by (simp add: halo_count_y_def fits_def)
qed

text \<open>The value of a cell after an X round: the layers hold the outermost physical columns of
  the neighbours, everything else is unchanged.\<close>

definition x_moved :: "run \<Rightarrow> int \<Rightarrow> (nat \<Rightarrow> 'a field) \<Rightarrow> nat \<Rightarrow> cell \<Rightarrow> 'a" where
  "x_moved R h F r c = (case c of (w, k, j, i) \<Rightarrow>
     let off = run_halo R; n = local_physical_size (dim_x (run_grid R r)); sh = run_shift R r 1
     in if in_rows (F r) c \<and> off - h \<le> i \<and> i < off \<and> fst sh \<noteq> None
        then fdata (F (the (fst sh))) (w, k, j, i + local_physical_size (dim_x (run_grid R (the (fst sh)))))
        else if in_rows (F r) c \<and> off + n \<le> i \<and> i < off + n + h \<and> snd sh \<noteq> None
        then fdata (F (the (snd sh))) (w, k, j, i - n)
        else fdata (F r) c)"

definition y_moved :: "run \<Rightarrow> int \<Rightarrow> (nat \<Rightarrow> 'a field) \<Rightarrow> nat \<Rightarrow> cell \<Rightarrow> 'a" where
  "y_moved R h F r c = (case c of (w, k, j, i) \<Rightarrow>
     let off = run_halo R; n = local_physical_size (dim_y (run_grid R r)); sh = run_shift R r 0
     in if in_columns (F r) c \<and> off - h \<le> j \<and> j < off \<and> fst sh \<noteq> None
        then fdata (F (the (fst sh))) (w, k, j + local_physical_size (dim_y (run_grid R (the (fst sh)))), i)
        else if in_columns (F r) c \<and> off + n \<le> j \<and> j < off + n + h \<and> snd sh \<noteq> None
        then fdata (F (the (snd sh))) (w, k, j - n, i)
        else fdata (F r) c)"

lemma fits_wf: "fits R nd nw nz' r f \<Longrightarrow> field_wf f \<and> 2 \<le> fdim f"
  by (auto simp: fits_def)

lemma in_rows_count:
  assumes "in_rows f (w, k, j, 0)" and "field_wf f" and "2 \<le> fdim f" and "0 < h"
  shows "halo_count_x h f \<noteq> 0"
proof -
  have "0 < ext_w f" "0 < ext_z f" "0 < ext_y f" using assms(1) by (auto simp: in_rows_def)
  then show ?thesis using assms(2-4) by (simp add: halo_count_x_eq)
qed

lemma in_columns_count:
  assumes "in_columns f (w, k, 0, i)" and "field_wf f" and "2 \<le> fdim f" and "0 < h"
  shows "halo_count_y h f \<noteq> 0"
proof -
  have "0 < ext_w f" "0 < ext_z f" "0 < ext_x f" using assms(1) by (auto simp: in_columns_def)
  then show ?thesis using assms(2-4) by (simp add: halo_count_y_eq)
qed

lemma x_round_shape [simp]: "same_shape (fst (st r)) (fst (x_round deliver ex depth st r))"
  by (cases "st r") (auto simp: x_round_def Let_def post_exchange_halo_x_def wait_exchange_halo_x_def
      split: prod.splits)

lemma y_round_shape [simp]: "same_shape (fst (st r)) (fst (y_round deliver ex depth st r))"
  by (cases "st r") (auto simp: y_round_def Let_def post_exchange_halo_y_def wait_exchange_halo_y_def
      split: prod.splits)

text \<open>The unpacked layers are what the neighbours packed.\<close>

lemma x_arrivals:
  assumes R: "run_ok R" and r: "r \<in> run_ranks R"
    and F: "\<And>r. r \<in> run_ranks R \<Longrightarrow> fits R nd nw nz' r (F r)"
    and left: "\<And>s. fst (run_shift R r 1) = Some s \<Longrightarrow> x_message_right (run_grid R s) h (F s) (ml s)"
    and right: "\<And>s. snd (run_shift R r 1) = Some s \<Longrightarrow> x_message_left (run_grid R s) h (F s) (mr s)"
    and n: "n = local_physical_size (dim_x (run_grid R r))"
  shows "(if in_rows (F r) (w, k, j, 0) \<and> run_halo R - h \<le> i \<and> i < run_halo R \<and> fst (run_shift R r 1) \<noteq> None
     then ml (the (fst (run_shift R r 1))) (x_index (ext_z (F r)) (ext_y (F r)) h (w, k, j, i - run_halo R + h))
     else if in_rows (F r) (w, k, j, 0) \<and> run_halo R + n \<le> i \<and> i < run_halo R + n + h \<and>
       snd (run_shift R r 1) \<noteq> None
     then mr (the (snd (run_shift R r 1))) (x_index (ext_z (F r)) (ext_y (F r)) h (w, k, j, i - run_halo R - n))
     else fdata (F r) (w, k, j, i)) = x_moved R h F r (w, k, j, i)"
proof -
  have L: "ml s (x_index (ext_z (F r)) (ext_y (F r)) h (w, k, j, i - run_halo R + h)) =
      fdata (F s) (w, k, j, i + local_physical_size (dim_x (run_grid R s)))"
    if s: "fst (run_shift R r 1) = Some s"
      and i: "in_rows (F r) (w, k, j, 0)" "run_halo R - h \<le> i" "i < run_halo R" for s
  proof -
    have s': "s \<in> run_ranks R" "fst (run_coords R s) = fst (run_coords R r)"
      using x_neighbor_back(1) [OF R r s] by auto
    note sh = x_neighbor_shape [OF R r s' F [OF r] F [OF s'(1)]]
    show ?thesis
      using left [OF s] i sh
      by (auto simp: x_message_right_def run_grid_simps [OF R s'(1)] algebra_simps
          dest!: spec [of _ w] spec [of _ k] spec [of _ j] spec [of _ "i - run_halo R + h"])
  qed
  have Rt: "mr s (x_index (ext_z (F r)) (ext_y (F r)) h (w, k, j, i - run_halo R - n)) =
      fdata (F s) (w, k, j, i - n)"
    if s: "snd (run_shift R r 1) = Some s"
      and i: "in_rows (F r) (w, k, j, 0)" "run_halo R + n \<le> i" "i < run_halo R + n + h" for s
  proof -
    have s': "s \<in> run_ranks R" "fst (run_coords R s) = fst (run_coords R r)"
      using x_neighbor_back(2) [OF R r s] by auto
    note sh = x_neighbor_shape [OF R r s' F [OF r] F [OF s'(1)]]
    show ?thesis
      using right [OF s] i sh
      by (auto simp: x_message_left_def run_grid_simps [OF R s'(1)] algebra_simps
          dest!: spec [of _ w] spec [of _ k] spec [of _ j] spec [of _ "i - run_halo R - n"])
  qed
  show ?thesis
    using L Rt by (auto simp: x_moved_def Let_def n in_rows_column [of "F r" w k j i])
qed

lemma y_arrivals:
  assumes R: "run_ok R" and r: "r \<in> run_ranks R"
    and F: "\<And>r. r \<in> run_ranks R \<Longrightarrow> fits R nd nw nz' r (F r)"
    and bottom: "\<And>s. fst (run_shift R r 0) = Some s \<Longrightarrow> y_message_top (run_grid R s) h (F s) (mb s)"
    and top: "\<And>s. snd (run_shift R r 0) = Some s \<Longrightarrow> y_message_bottom (run_grid R s) h (F s) (mt s)"
    and n: "n = local_physical_size (dim_y (run_grid R r))"
  shows "(if in_columns (F r) (w, k, 0, i) \<and> run_halo R - h \<le> j \<and> j < run_halo R \<and> fst (run_shift R r 0) \<noteq> None
     then mb (the (fst (run_shift R r 0))) (y_index (ext_z (F r)) (ext_x (F r)) h (w, k, i, j - run_halo R + h))
     else if in_columns (F r) (w, k, 0, i) \<and> run_halo R + n \<le> j \<and> j < run_halo R + n + h \<and>
       snd (run_shift R r 0) \<noteq> None
     then mt (the (snd (run_shift R r 0))) (y_index (ext_z (F r)) (ext_x (F r)) h (w, k, i, j - run_halo R - n))
     else fdata (F r) (w, k, j, i)) = y_moved R h F r (w, k, j, i)"
proof -
  have L: "mb s (y_index (ext_z (F r)) (ext_x (F r)) h (w, k, i, j - run_halo R + h)) =
      fdata (F s) (w, k, j + local_physical_size (dim_y (run_grid R s)), i)"
    if s: "fst (run_shift R r 0) = Some s"
      and i: "in_columns (F r) (w, k, 0, i)" "run_halo R - h \<le> j" "j < run_halo R" for s
  proof -
    have s': "s \<in> run_ranks R" "snd (run_coords R s) = snd (run_coords R r)"
      using y_neighbor_back(1) [OF R r s] by auto
    note sh = y_neighbor_shape [OF R r s' F [OF r] F [OF s'(1)]]
    show ?thesis
      using bottom [OF s] i sh
      by (auto simp: y_message_top_def run_grid_simps [OF R s'(1)] algebra_simps
          dest!: spec [of _ w] spec [of _ k] spec [of _ i] spec [of _ "j - run_halo R + h"])
  qed
  have Rt: "mt s (y_index (ext_z (F r)) (ext_x (F r)) h (w, k, i, j - run_halo R - n)) =
      fdata (F s) (w, k, j - n, i)"
    if s: "snd (run_shift R r 0) = Some s"
      and i: "in_columns (F r) (w, k, 0, i)" "run_halo R + n \<le> j" "j < run_halo R + n + h" for s
  proof -
    have s': "s \<in> run_ranks R" "snd (run_coords R s) = snd (run_coords R r)"
      using y_neighbor_back(2) [OF R r s] by auto
    note sh = y_neighbor_shape [OF R r s' F [OF r] F [OF s'(1)]]
    show ?thesis
      using top [OF s] i sh
      by (auto simp: y_message_bottom_def run_grid_simps [OF R s'(1)] algebra_simps
          dest!: spec [of _ w] spec [of _ k] spec [of _ i] spec [of _ "j - run_halo R - n"])
  qed
  show ?thesis
    using L Rt by (auto simp: y_moved_def Let_def n in_columns_row [of "F r" w k j i])
qed

text \<open>The message that arrives from a neighbour is the one packed for this process.\<close>

lemma x_mail:
  assumes R: "run_ok R" and D: "delivers deliver"
    and F': "\<forall>r \<in> run_ranks R. fits R nd nw nz' r (fst (st r))"
    and h: "h = run_depth R depth" "0 < h" and ns: "\<not> is_singleton_x (run_global R)"
    and r: "r \<in> run_ranks R" and c: "c = halo_count_x h (fst (st r))" "c \<noteq> 0"
    and mail: "mail = deliver (\<lambda>r. fst (post_exchange_halo_x (run_exchanger R r) depth (st r))) r"
  shows "fst (run_shift R r 1) = Some s \<Longrightarrow> fst (mail s (tag_code SEND_TO_RIGHT)) = c \<and>
      x_message_right (run_grid R s) h (fst (st s)) (snd (mail s (tag_code SEND_TO_RIGHT)))"
    and "snd (run_shift R r 1) = Some s \<Longrightarrow> fst (mail s (tag_code SEND_TO_LEFT)) = c \<and>
      x_message_left (run_grid R s) h (fst (st s)) (snd (mail s (tag_code SEND_TO_LEFT)))"
proof -
  note F = F' [rule_format]
  have post: "\<exists>l rr. fst (post_exchange_halo_x (run_exchanger R s) depth (st s)) =
      (irecv (snd (run_shift R s 1)) X_right SEND_TO_LEFT c @
       irecv (fst (run_shift R s 1)) X_left SEND_TO_RIGHT c @
       isend (fst (run_shift R s 1)) SEND_TO_LEFT c l @
       isend (snd (run_shift R s 1)) SEND_TO_RIGHT c rr) \<and>
      x_message_left (run_grid R s) h (fst (st s)) l \<and> x_message_right (run_grid R s) h (fst (st s)) rr"
    if s: "s \<in> run_ranks R" and cs: "halo_count_x h (fst (st s)) = c" for s
  proof -
    have hs: "halo_depth (run_exchanger R s) depth = h"
      using run_grid_simps(6) [OF R s] h by simp
    have ns': "\<not> is_singleton_x (grid_ref (run_exchanger R s))"
      using ns by (simp add: run_grid_simps [OF R s])
    obtain l rr where "post_exchange_halo_x (run_exchanger R s) depth (fst (st s), snd (st s)) =
      (irecv (neighbor_right (run_exchanger R s)) X_right SEND_TO_LEFT c @
       irecv (neighbor_left (run_exchanger R s)) X_left SEND_TO_RIGHT c @
       isend (neighbor_left (run_exchanger R s)) SEND_TO_LEFT c l @
       isend (neighbor_right (run_exchanger R s)) SEND_TO_RIGHT c rr,
       fst (st s), (snd (st s))\<lparr>send_x_left := l, send_x_right := rr\<rparr>)"
      and "x_message_left (grid_ref (run_exchanger R s)) h (fst (st s)) l"
      and "x_message_right (grid_ref (run_exchanger R s)) h (fst (st s)) rr"
      using post_x_cases [of "fst (st s)" "run_exchanger R s" depth "snd (st s)"] fits_wf [OF F [OF s]]
        c(2) h(2) ns' cs unfolding hs by metis
    then show ?thesis by (intro exI [of _ l] exI [of _ rr]) simp
  qed
  {
    assume "fst (run_shift R r 1) = Some s"
    then have s: "s \<in> run_ranks R" "snd (run_shift R s 1) = Some r" "fst (run_coords R s) = fst (run_coords R r)"
      using x_neighbor_back(1) [OF R r] by auto
    have "halo_count_x h (fst (st s)) = c"
      using x_neighbor_shape(5) [OF R r s(1,3) F [OF r] F [OF s(1)]] c by simp
    with post [OF s(1)] obtain l rr where
      p: "fst (post_exchange_halo_x (run_exchanger R s) depth (st s)) =
        (irecv (snd (run_shift R s 1)) X_right SEND_TO_LEFT c @
         irecv (fst (run_shift R s 1)) X_left SEND_TO_RIGHT c @
         isend (fst (run_shift R s 1)) SEND_TO_LEFT c l @
         isend (snd (run_shift R s 1)) SEND_TO_RIGHT c rr)"
      and m: "x_message_right (run_grid R s) h (fst (st s)) rr" by blast
    have "mail s (tag_code SEND_TO_RIGHT) = (c, rr)"
      using D p s(2) unfolding delivers_def mail by (simp add: sends_to_x del: tag_code.simps)
    with m show "fst (mail s (tag_code SEND_TO_RIGHT)) = c \<and>
      x_message_right (run_grid R s) h (fst (st s)) (snd (mail s (tag_code SEND_TO_RIGHT)))" by simp
  }
  {
    assume "snd (run_shift R r 1) = Some s"
    then have s: "s \<in> run_ranks R" "fst (run_shift R s 1) = Some r" "fst (run_coords R s) = fst (run_coords R r)"
      using x_neighbor_back(2) [OF R r] by auto
    have "halo_count_x h (fst (st s)) = c"
      using x_neighbor_shape(5) [OF R r s(1,3) F [OF r] F [OF s(1)]] c by simp
    with post [OF s(1)] obtain l rr where
      p: "fst (post_exchange_halo_x (run_exchanger R s) depth (st s)) =
        (irecv (snd (run_shift R s 1)) X_right SEND_TO_LEFT c @
         irecv (fst (run_shift R s 1)) X_left SEND_TO_RIGHT c @
         isend (fst (run_shift R s 1)) SEND_TO_LEFT c l @
         isend (snd (run_shift R s 1)) SEND_TO_RIGHT c rr)"
      and m: "x_message_left (run_grid R s) h (fst (st s)) l" by blast
    have "mail s (tag_code SEND_TO_LEFT) = (c, l)"
      using D p s(2) unfolding delivers_def mail by (simp add: sends_to_x del: tag_code.simps)
    with m show "fst (mail s (tag_code SEND_TO_LEFT)) = c \<and>
      x_message_left (run_grid R s) h (fst (st s)) (snd (mail s (tag_code SEND_TO_LEFT)))" by simp
  }
qed

lemma x_round_cells:
  assumes R: "run_ok R" and D: "delivers deliver"
    and F': "\<forall>r \<in> run_ranks R. fits R nd nw nz' r (fst (st r))"
    and h: "0 < run_depth R depth" and ns: "\<not> is_singleton_x (run_global R)"
    and r: "r \<in> run_ranks R"
  shows "fdata (fst (x_round deliver (run_exchanger R) depth st r)) c =
    x_moved R (run_depth R depth) (\<lambda>r. fst (st r)) r c"
proof -
  note F = F' [rule_format]
  obtain w k j i where c: "c = (w, k, j, i)" by (cases c)
  let ?ex = "run_exchanger R" and ?h = "run_depth R depth" and ?f = "fst (st r)"
  let ?n = "local_physical_size (dim_x (run_grid R r))"
  have f: "field_wf ?f" "2 \<le> fdim ?f" using fits_wf [OF F [OF r]] by auto
  have hd: "halo_depth (?ex r) depth = ?h" by (rule run_grid_simps(6) [OF R r])
  have row: "in_rows ?f c = in_rows ?f (w, k, j, 0)" by (simp add: c in_rows_def)
  show ?thesis
  proof (cases "halo_count_x ?h ?f = 0")
    case True
    then have "\<not> in_rows ?f (w, k, j, 0)" using in_rows_count f h by blast
    moreover have "x_round deliver ?ex depth st r = st r"
      using True h ns hd
      by (simp add: x_round_def post_exchange_halo_x_def wait_exchange_halo_x_def Let_def
          run_grid_simps [OF R r] case_prod_beta)
    ultimately show ?thesis by (simp add: x_moved_def Let_def row c [symmetric])
  next
    case False
    have ns': "\<not> is_singleton_x (grid_ref (?ex r))"
      using ns by (simp add: run_grid_simps [OF R r])
    define mail where "mail = deliver (\<lambda>r. fst (post_exchange_halo_x (?ex r) depth (st r))) r"
    note M = x_mail [OF R D F' refl h ns r refl False mail_def]
    obtain l rr where post: "post_exchange_halo_x (?ex r) depth (?f, snd (st r)) =
       (irecv (neighbor_right (?ex r)) X_right SEND_TO_LEFT (halo_count_x ?h ?f) @
        irecv (neighbor_left (?ex r)) X_left SEND_TO_RIGHT (halo_count_x ?h ?f) @
        isend (neighbor_left (?ex r)) SEND_TO_LEFT (halo_count_x ?h ?f) l @
        isend (neighbor_right (?ex r)) SEND_TO_RIGHT (halo_count_x ?h ?f) rr,
        ?f, (snd (st r))\<lparr>send_x_left := l, send_x_right := rr\<rparr>)"
      using post_x_cases [OF f, of "?ex r" depth "snd (st r)"] h ns' False unfolding hd by metis
    have n0: "0 \<le> ?n" using local_size_pos(1) [OF R r] by simp
    have eq: "fst (x_round deliver ?ex depth st r) = fst (wait_exchange_halo_x (?ex r) depth mail
        (irecv (neighbor_right (?ex r)) X_right SEND_TO_LEFT (halo_count_x ?h ?f) @
         irecv (neighbor_left (?ex r)) X_left SEND_TO_RIGHT (halo_count_x ?h ?f) @
         isend (neighbor_left (?ex r)) SEND_TO_LEFT (halo_count_x ?h ?f) l @
         isend (neighbor_right (?ex r)) SEND_TO_RIGHT (halo_count_x ?h ?f) rr)
        (?f, (snd (st r))\<lparr>send_x_left := l, send_x_right := rr\<rparr>))"
      using post by (simp add: x_round_def Let_def mail_def)
    have msgs: "\<And>s. fst (run_shift R r 1) = Some s \<Longrightarrow>
        x_message_right (run_grid R s) ?h (fst (st s)) (snd (mail s (tag_code SEND_TO_RIGHT)))"
      "\<And>s. snd (run_shift R r 1) = Some s \<Longrightarrow>
        x_message_left (run_grid R s) ?h (fst (st s)) (snd (mail s (tag_code SEND_TO_LEFT)))"
      using M by blast+
    show ?thesis
      unfolding eq c using M
      by (subst wait_x_cells [OF f hd [symmetric] h run_grid_simps(1) [OF R r, symmetric, folded run_exchanger_simps(1)] _ n0 refl])
         (simp_all only: run_exchanger_simps x_arrivals [where F = "\<lambda>r. fst (st r)", OF R r F msgs refl])
  qed
qed

lemma y_mail:
  assumes R: "run_ok R" and D: "delivers deliver"
    and F': "\<forall>r \<in> run_ranks R. fits R nd nw nz' r (fst (st r))"
    and h: "h = run_depth R depth" "0 < h" and ns: "\<not> is_singleton_y (run_global R)"
    and r: "r \<in> run_ranks R" and c: "c = halo_count_y h (fst (st r))" "c \<noteq> 0"
    and mail: "mail = deliver (\<lambda>r. fst (post_exchange_halo_y (run_exchanger R r) depth (st r))) r"
  shows "fst (run_shift R r 0) = Some s \<Longrightarrow> fst (mail s (tag_code SEND_TO_TOP)) = c \<and>
      y_message_top (run_grid R s) h (fst (st s)) (snd (mail s (tag_code SEND_TO_TOP)))"
    and "snd (run_shift R r 0) = Some s \<Longrightarrow> fst (mail s (tag_code SEND_TO_BOTTOM)) = c \<and>
      y_message_bottom (run_grid R s) h (fst (st s)) (snd (mail s (tag_code SEND_TO_BOTTOM)))"
proof -
  note F = F' [rule_format]
  have post: "\<exists>rr l. fst (post_exchange_halo_y (run_exchanger R s) depth (st s)) =
      (irecv (fst (run_shift R s 0)) Y_bottom SEND_TO_TOP c @
       irecv (snd (run_shift R s 0)) Y_top SEND_TO_BOTTOM c @
       isend (snd (run_shift R s 0)) SEND_TO_TOP c rr @
       isend (fst (run_shift R s 0)) SEND_TO_BOTTOM c l) \<and>
      y_message_bottom (run_grid R s) h (fst (st s)) l \<and> y_message_top (run_grid R s) h (fst (st s)) rr"
    if s: "s \<in> run_ranks R" and cs: "halo_count_y h (fst (st s)) = c" for s
  proof -
    have hs: "halo_depth (run_exchanger R s) depth = h"
      using run_grid_simps(6) [OF R s] h by simp
    have ns': "\<not> is_singleton_y (grid_ref (run_exchanger R s))"
      using ns by (simp add: run_grid_simps [OF R s])
    obtain rr l where "post_exchange_halo_y (run_exchanger R s) depth (fst (st s), snd (st s)) =
      (irecv (neighbor_bottom (run_exchanger R s)) Y_bottom SEND_TO_TOP c @
       irecv (neighbor_top (run_exchanger R s)) Y_top SEND_TO_BOTTOM c @
       isend (neighbor_top (run_exchanger R s)) SEND_TO_TOP c rr @
       isend (neighbor_bottom (run_exchanger R s)) SEND_TO_BOTTOM c l,
       fst (st s), (snd (st s))\<lparr>send_y_bottom := l, send_y_top := rr\<rparr>)"
      and "y_message_bottom (grid_ref (run_exchanger R s)) h (fst (st s)) l"
      and "y_message_top (grid_ref (run_exchanger R s)) h (fst (st s)) rr"
      using post_y_cases [of "fst (st s)" "run_exchanger R s" depth "snd (st s)"] fits_wf [OF F [OF s]]
        c(2) h(2) ns' cs unfolding hs by metis
    then show ?thesis by (intro exI [of _ rr] exI [of _ l]) simp
  qed
  {
    assume "fst (run_shift R r 0) = Some s"
    then have s: "s \<in> run_ranks R" "snd (run_shift R s 0) = Some r" "snd (run_coords R s) = snd (run_coords R r)"
      using y_neighbor_back(1) [OF R r] by auto
    have "halo_count_y h (fst (st s)) = c"
      using y_neighbor_shape(5) [OF R r s(1,3) F [OF r] F [OF s(1)]] c by simp
    with post [OF s(1)] obtain rr l where
      p: "fst (post_exchange_halo_y (run_exchanger R s) depth (st s)) =
        (irecv (fst (run_shift R s 0)) Y_bottom SEND_TO_TOP c @
         irecv (snd (run_shift R s 0)) Y_top SEND_TO_BOTTOM c @
         isend (snd (run_shift R s 0)) SEND_TO_TOP c rr @
         isend (fst (run_shift R s 0)) SEND_TO_BOTTOM c l)"
      and m: "y_message_top (run_grid R s) h (fst (st s)) rr" by blast
    have "mail s (tag_code SEND_TO_TOP) = (c, rr)"
      using D p s(2) unfolding delivers_def mail by (simp add: sends_to_y del: tag_code.simps)
    with m show "fst (mail s (tag_code SEND_TO_TOP)) = c \<and>
      y_message_top (run_grid R s) h (fst (st s)) (snd (mail s (tag_code SEND_TO_TOP)))" by simp
  }
  {
    assume "snd (run_shift R r 0) = Some s"
    then have s: "s \<in> run_ranks R" "fst (run_shift R s 0) = Some r" "snd (run_coords R s) = snd (run_coords R r)"
      using y_neighbor_back(2) [OF R r] by auto
    have "halo_count_y h (fst (st s)) = c"
      using y_neighbor_shape(5) [OF R r s(1,3) F [OF r] F [OF s(1)]] c by simp
    with post [OF s(1)] obtain rr l where
      p: "fst (post_exchange_halo_y (run_exchanger R s) depth (st s)) =
        (irecv (fst (run_shift R s 0)) Y_bottom SEND_TO_TOP c @
         irecv (snd (run_shift R s 0)) Y_top SEND_TO_BOTTOM c @
         isend (snd (run_shift R s 0)) SEND_TO_TOP c rr @
         isend (fst (run_shift R s 0)) SEND_TO_BOTTOM c l)"
      and m: "y_message_bottom (run_grid R s) h (fst (st s)) l" by blast
    have "mail s (tag_code SEND_TO_BOTTOM) = (c, l)"
      using D p s(2) unfolding delivers_def mail by (simp add: sends_to_y del: tag_code.simps)
    with m show "fst (mail s (tag_code SEND_TO_BOTTOM)) = c \<and>
      y_message_bottom (run_grid R s) h (fst (st s)) (snd (mail s (tag_code SEND_TO_BOTTOM)))" by simp
  }
qed

lemma y_round_cells:
  assumes R: "run_ok R" and D: "delivers deliver"
    and F': "\<forall>r \<in> run_ranks R. fits R nd nw nz' r (fst (st r))"
    and h: "0 < run_depth R depth" and ns: "\<not> is_singleton_y (run_global R)"
    and r: "r \<in> run_ranks R"
  shows "fdata (fst (y_round deliver (run_exchanger R) depth st r)) c =
    y_moved R (run_depth R depth) (\<lambda>r. fst (st r)) r c"
proof -
  note F = F' [rule_format]
  obtain w k j i where c: "c = (w, k, j, i)" by (cases c)
  let ?ex = "run_exchanger R" and ?h = "run_depth R depth" and ?f = "fst (st r)"
  let ?n = "local_physical_size (dim_y (run_grid R r))"
  have f: "field_wf ?f" "2 \<le> fdim ?f" using fits_wf [OF F [OF r]] by auto
  have hd: "halo_depth (?ex r) depth = ?h" by (rule run_grid_simps(6) [OF R r])
  have row: "in_columns ?f c = in_columns ?f (w, k, 0, i)" by (simp add: c in_columns_def)
  show ?thesis
  proof (cases "halo_count_y ?h ?f = 0")
    case True
    then have "\<not> in_columns ?f (w, k, 0, i)" using in_columns_count f h by blast
    moreover have "y_round deliver ?ex depth st r = st r"
      using True h ns hd
      by (simp add: y_round_def post_exchange_halo_y_def wait_exchange_halo_y_def Let_def
          run_grid_simps [OF R r] case_prod_beta)
    ultimately show ?thesis by (simp add: y_moved_def Let_def row c [symmetric])
  next
    case False
    have ns': "\<not> is_singleton_y (grid_ref (?ex r))"
      using ns by (simp add: run_grid_simps [OF R r])
    define mail where "mail = deliver (\<lambda>r. fst (post_exchange_halo_y (?ex r) depth (st r))) r"
    note M = y_mail [OF R D F' refl h ns r refl False mail_def]
    obtain rr l where post: "post_exchange_halo_y (?ex r) depth (?f, snd (st r)) =
       (irecv (neighbor_bottom (?ex r)) Y_bottom SEND_TO_TOP (halo_count_y ?h ?f) @
        irecv (neighbor_top (?ex r)) Y_top SEND_TO_BOTTOM (halo_count_y ?h ?f) @
        isend (neighbor_top (?ex r)) SEND_TO_TOP (halo_count_y ?h ?f) rr @
        isend (neighbor_bottom (?ex r)) SEND_TO_BOTTOM (halo_count_y ?h ?f) l,
        ?f, (snd (st r))\<lparr>send_y_bottom := l, send_y_top := rr\<rparr>)"
      using post_y_cases [OF f, of "?ex r" depth "snd (st r)"] h ns' False unfolding hd by metis
    have n0: "0 \<le> ?n" using local_size_pos(2) [OF R r] by simp
    have eq: "fst (y_round deliver ?ex depth st r) = fst (wait_exchange_halo_y (?ex r) depth mail
        (irecv (neighbor_bottom (?ex r)) Y_bottom SEND_TO_TOP (halo_count_y ?h ?f) @
         irecv (neighbor_top (?ex r)) Y_top SEND_TO_BOTTOM (halo_count_y ?h ?f) @
         isend (neighbor_top (?ex r)) SEND_TO_TOP (halo_count_y ?h ?f) rr @
         isend (neighbor_bottom (?ex r)) SEND_TO_BOTTOM (halo_count_y ?h ?f) l)
        (?f, (snd (st r))\<lparr>send_y_bottom := l, send_y_top := rr\<rparr>))"
      using post by (simp add: y_round_def Let_def mail_def)
    have msgs: "\<And>s. fst (run_shift R r 0) = Some s \<Longrightarrow>
        y_message_top (run_grid R s) ?h (fst (st s)) (snd (mail s (tag_code SEND_TO_TOP)))"
      "\<And>s. snd (run_shift R r 0) = Some s \<Longrightarrow>
        y_message_bottom (run_grid R s) ?h (fst (st s)) (snd (mail s (tag_code SEND_TO_BOTTOM)))"
      using M by blast+
    show ?thesis
      unfolding eq c using M
      by (subst wait_y_cells [OF f hd [symmetric] h run_grid_simps(1) [OF R r, symmetric, folded run_exchanger_simps(1)] _ n0 refl])
         (simp_all only: run_exchanger_simps y_arrivals [where F = "\<lambda>r. fst (st r)", OF R r F msgs refl])
  qed
qed

end
