(* ===== verification/Halo_Periodic.thy ===== *)
theory Halo_Periodic
  imports Halo_World
begin

text \<open>
  What a halo exchange of a whole run achieves.  \<open>agrees\<close> relates the field of one process
  to a global field; the X and the Y round each extend the agreement by their layers, and
  together they give the periodic continuation with its corners.  The requests of a round
  match one to one.
\<close>

section \<open>The periodic extension\<close>

lemma split_start_cyclic:
  assumes "0 < n" and "0 < p" and "0 \<le> c" "c < p" and "shift_target per p (c + 1) = Some d"
  shows "split_start n p d mod n = (split_start n p c + split_size n p c) mod n"
proof (cases "c + 1 < p")
  case True
  then have "d = c + 1" using assms by (simp add: shift_target_def)
  then show ?thesis using assms split_step [of n p c] by simp
next
  case False
  then have "c + 1 = p" using assms by simp
  moreover from this have "d = 0" using assms(2,3,5) by (auto simp: shift_target_def split: if_splits)
  moreover have "split_start n p c + split_size n p c = split_start n p (c + 1)"
    using assms by (simp add: split_step)
  ultimately show ?thesis
    using assms by (simp add: split_start_total split_start_zero)
qed

lemma run_axes:
  assumes "run_ok R" and "r \<in> run_ranks R"
  shows "dim_x (run_grid R r) = split_axis (snd (run_dims R)) (snd (run_coords R r)) (dim_x (run_global R))"
    and "dim_y (run_grid R r) = split_axis (fst (run_dims R)) (fst (run_coords R r)) (dim_y (run_global R))"
proof -
  note g = run_okD [OF assms(1)] and c = coords_range [OF assms]
  have "global_size (dim_x (run_global R)) = 1 \<longrightarrow> snd (run_dims R) = 1 \<and> snd (run_coords R r) = 0"
    using g c by auto
  with g(2) show "dim_x (run_grid R r) =
      split_axis (snd (run_dims R)) (snd (run_coords R r)) (dim_x (run_global R))"
    by (simp add: run_grid_eq(1) [OF assms] axis_simps distribute_x_is_split)
  have "fst (run_dims R) = 1 \<longrightarrow> fst (run_coords R r) = 0" using c by auto
  with g(1) show "dim_y (run_grid R r) =
      split_axis (fst (run_dims R)) (fst (run_coords R r)) (dim_y (run_global R))"
    by (simp add: run_grid_eq(1) [OF assms] axis_simps distribute_y_is_split)
qed

text \<open>The block of the next process starts where this one ends, cyclically.\<close>

lemma x_blocks_adjacent:
  assumes R: "run_ok R" "r \<in> run_ranks R"
  shows "snd (run_shift R r 1) = Some s \<Longrightarrow>
      local_physical_start_idx (dim_x (run_grid R s)) mod global_size (dim_x (run_global R)) =
      (local_physical_start_idx (dim_x (run_grid R r)) + local_physical_size (dim_x (run_grid R r)))
        mod global_size (dim_x (run_global R))"
  using x_neighbor_back(2) [OF R, of s] coords_range [OF R] run_okD [OF R(1)] R(1)
  by (auto simp: run_axes axis_simps R intro!: split_start_cyclic)

lemma y_blocks_adjacent:
  assumes R: "run_ok R" "r \<in> run_ranks R"
  shows "snd (run_shift R r 0) = Some s \<Longrightarrow>
      local_physical_start_idx (dim_y (run_grid R s)) mod global_size (dim_y (run_global R)) =
      (local_physical_start_idx (dim_y (run_grid R r)) + local_physical_size (dim_y (run_grid R r)))
        mod global_size (dim_y (run_global R))"
  using y_neighbor_back(2) [OF R, of s] coords_range [OF R] run_okD [OF R(1)] R(1)
  by (auto simp: run_axes axis_simps R intro!: split_start_cyclic)

text \<open>A field agrees with a global field \<open>\<Phi>\<close> on the physical cells of the process and on \<open>ey\<close>
  and \<open>ex\<close> halo layers around them, where the global index is taken modulo the size of the
  domain.\<close>

definition agrees ::
  "run \<Rightarrow> (int \<Rightarrow> int \<Rightarrow> int \<Rightarrow> int \<Rightarrow> 'a) \<Rightarrow> nat \<Rightarrow> 'a field \<Rightarrow> int \<Rightarrow> int \<Rightarrow> bool" where
  "agrees R \<Phi> r f ey ex \<longleftrightarrow>
     (let H = run_halo R; dy = dim_y (run_grid R r); dx = dim_x (run_grid R r) in
      \<forall>w k j i. 0 \<le> w \<and> w < ext_w f \<and> 0 \<le> k \<and> k < ext_z f \<and>
        H - ey \<le> j \<and> j < H + local_physical_size dy + ey \<and>
        H - ex \<le> i \<and> i < H + local_physical_size dx + ex \<longrightarrow>
        fdata f (w, k, j, i) =
          \<Phi> w k ((local_physical_start_idx dy + (j - H)) mod global_size dy)
                ((local_physical_start_idx dx + (i - H)) mod global_size dx))"

lemma agreesD:
  assumes "agrees R \<Phi> r f ey ex" and "0 \<le> w" "w < ext_w f" "0 \<le> k" "k < ext_z f"
    and "run_halo R - ey \<le> j" "j < run_halo R + local_physical_size (dim_y (run_grid R r)) + ey"
    and "run_halo R - ex \<le> i" "i < run_halo R + local_physical_size (dim_x (run_grid R r)) + ex"
  shows "fdata f (w, k, j, i) =
    \<Phi> w k ((local_physical_start_idx (dim_y (run_grid R r)) + (j - run_halo R)) mod global_size (dim_y (run_grid R r)))
          ((local_physical_start_idx (dim_x (run_grid R r)) + (i - run_halo R)) mod global_size (dim_x (run_grid R r)))"
  using assms by (auto simp: agrees_def Let_def)

lemma agreesI:
  assumes "\<And>w k j i. 0 \<le> w \<Longrightarrow> w < ext_w f \<Longrightarrow> 0 \<le> k \<Longrightarrow> k < ext_z f \<Longrightarrow>
      run_halo R - ey \<le> j \<Longrightarrow> j < run_halo R + local_physical_size (dim_y (run_grid R r)) + ey \<Longrightarrow>
      run_halo R - ex \<le> i \<Longrightarrow> i < run_halo R + local_physical_size (dim_x (run_grid R r)) + ex \<Longrightarrow>
      fdata f (w, k, j, i) =
        \<Phi> w k ((local_physical_start_idx (dim_y (run_grid R r)) + (j - run_halo R)) mod global_size (dim_y (run_grid R r)))
              ((local_physical_start_idx (dim_x (run_grid R r)) + (i - run_halo R)) mod global_size (dim_x (run_grid R r)))"
  shows "agrees R \<Phi> r f ey ex"
  using assms by (auto simp: agrees_def Let_def)

lemma run_global_size:
  assumes "run_ok R" "r \<in> run_ranks R"
  shows "global_size (dim_x (run_grid R r)) = global_size (dim_x (run_global R))"
    and "global_size (dim_y (run_grid R r)) = global_size (dim_y (run_global R))"
  by (simp_all add: run_axes [OF assms] axis_simps)

lemma run_in_domain:
  assumes R: "run_ok R" "r \<in> run_ranks R"
  shows "0 \<le> local_physical_start_idx (dim_y (run_grid R r))"
    "local_physical_start_idx (dim_y (run_grid R r)) + local_physical_size (dim_y (run_grid R r)) \<le>
       global_size (dim_y (run_grid R r))"
    "0 \<le> local_physical_start_idx (dim_x (run_grid R r))"
    "local_physical_start_idx (dim_x (run_grid R r)) + local_physical_size (dim_x (run_grid R r)) \<le>
       global_size (dim_x (run_grid R r))"
  using split_in_range [of "global_size (dim_y (run_global R))" "fst (run_dims R)" "fst (run_coords R r)"]
    split_in_range [of "global_size (dim_x (run_global R))" "snd (run_dims R)" "snd (run_coords R r)"]
    coords_range [OF R] run_okD [OF R(1)]
  by (simp_all add: run_axes [OF R] axis_simps)

lemma run_wide:
  assumes "run_ok R" "r \<in> run_ranks R"
  shows "\<not> is_singleton_x (run_global R) \<Longrightarrow> run_halo R \<le> local_physical_size (dim_x (run_grid R r))"
    and "\<not> is_singleton_y (run_global R) \<Longrightarrow> run_halo R \<le> local_physical_size (dim_y (run_grid R r))"
proof -
  have hz: "num_halo_cells (dim_z (run_grid R r)) = run_halo R"
    using run_grid_simps(1) [OF assms] by (simp add: get_halo_cells_def)
  note w = run_grid_eq(2) [OF assms, unfolded wide_enough_def run_global_size [OF assms] hz]
  show "\<not> is_singleton_x (run_global R) \<Longrightarrow> run_halo R \<le> local_physical_size (dim_x (run_grid R r))"
    using w run_okD(2) [OF assms(1)] by (simp add: is_singleton_x_def)
  show "\<not> is_singleton_y (run_global R) \<Longrightarrow> run_halo R \<le> local_physical_size (dim_y (run_grid R r))"
    using w run_okD(1) [OF assms(1)] by (simp add: is_singleton_y_def)
qed

lemma periodic_neighbors:
  assumes "run_ok R" "r \<in> run_ranks R"
  shows "snd (run_periods R) \<Longrightarrow> fst (run_shift R r 1) \<noteq> None \<and> snd (run_shift R r 1) \<noteq> None"
    and "fst (run_periods R) \<Longrightarrow> fst (run_shift R r 0) \<noteq> None \<and> snd (run_shift R r 0) \<noteq> None"
  using run_shift_ok [OF assms] by (auto simp: rank_at_def shift_target_def split: if_splits)

lemma x_round_agrees:
  assumes R: "run_ok R" and D: "delivers deliver"
    and F: "\<forall>r \<in> run_ranks R. fits R nd nw nz' r (fst (st r))"
    and d: "0 < run_depth R depth" "run_depth R depth \<le> run_halo R"
    and ns: "\<not> is_singleton_x (run_global R)" and per: "snd (run_periods R)" and ey: "ey \<le> run_halo R"
    and A: "\<forall>r \<in> run_ranks R. agrees R \<Phi> r (fst (st r)) ey 0" and r: "r \<in> run_ranks R"
  shows "agrees R \<Phi> r (fst (x_round deliver (run_exchanger R) depth st r)) ey (run_depth R depth)"
proof (rule agreesI)
  let ?f = "fst (st r)" and ?f' = "fst (x_round deliver (run_exchanger R) depth st r)"
  let ?d = "run_depth R depth" and ?H = "run_halo R"
  let ?nx = "\<lambda>r. local_physical_size (dim_x (run_grid R r))" and ?ny = "\<lambda>r. local_physical_size (dim_y (run_grid R r))"
  let ?sx = "\<lambda>r. local_physical_start_idx (dim_x (run_grid R r))"
  let ?sy = "\<lambda>r. local_physical_start_idx (dim_y (run_grid R r))"
  let ?NX = "global_size (dim_x (run_global R))" and ?NY = "global_size (dim_y (run_global R))"
  fix w k j i
  have ext: "ext_w ?f' = ext_w ?f" "ext_z ?f' = ext_z ?f"
    using same_shape_simps [OF x_round_shape [where st = st and r = r and deliver = deliver
        and ex = "run_exchanger R" and depth = depth]] by auto
  assume c: "0 \<le> w" "w < ext_w ?f'" "0 \<le> k" "k < ext_z ?f'" "?H - ey \<le> j" "j < ?H + ?ny r + ey"
    "?H - ?d \<le> i" "i < ?H + ?nx r + ?d"
  note gs = run_global_size [OF R]
  obtain a b where ab: "fst (run_shift R r 1) = Some a" "snd (run_shift R r 1) = Some b"
    using periodic_neighbors(1) [OF R r per] by auto
  have a: "a \<in> run_ranks R" "snd (run_shift R a 1) = Some r" "fst (run_coords R a) = fst (run_coords R r)"
    using x_neighbor_back(1) [OF R r ab(1)] by auto
  have b: "b \<in> run_ranks R" "fst (run_coords R b) = fst (run_coords R r)"
    using x_neighbor_back(2) [OF R r ab(2)] by auto
  have row: "dim_y (run_grid R a) = dim_y (run_grid R r)" "dim_y (run_grid R b) = dim_y (run_grid R r)"
    using a b by (simp_all add: run_axes [OF R] r)
  have fa: "ext_w (fst (st a)) = ext_w ?f" "ext_z (fst (st a)) = ext_z ?f"
      "ext_w (fst (st b)) = ext_w ?f" "ext_z (fst (st b)) = ext_z ?f"
    using F r a b by (auto simp: fits_def)
  have inr: "in_rows ?f (w, k, j, i)"
    using F [rule_format, OF r] c ey ext run_okD(5) [OF R]
    by (simp add: in_rows_def fits_def run_grid_simps(5) [OF R r])
  have adj: "?sx r mod ?NX = (?sx a + ?nx a) mod ?NX" "?sx b mod ?NX = (?sx r + ?nx r) mod ?NX"
    using x_blocks_adjacent [OF R a(1,2)] x_blocks_adjacent [OF R r ab(2)] by auto
  note wide = run_wide(1) [OF R _ ns]
  have cell: "fdata ?f' (w, k, j, i) = x_moved R ?d (\<lambda>r. fst (st r)) r (w, k, j, i)"
    by (rule x_round_cells [OF R D F d(1) ns r])
  consider "i < ?H" | "?H \<le> i" "i < ?H + ?nx r" | "?H + ?nx r \<le> i" by linarith
  then show "fdata ?f' (w, k, j, i) = \<Phi> w k ((?sy r + (j - ?H)) mod global_size (dim_y (run_grid R r)))
      ((?sx r + (i - ?H)) mod global_size (dim_x (run_grid R r)))"
  proof cases
    case 1
    have "fdata ?f' (w, k, j, i) = fdata (fst (st a)) (w, k, j, i + ?nx a)"
      using 1 c inr ab by (simp add: cell x_moved_def Let_def)
    also have "\<dots> = \<Phi> w k ((?sy a + (j - ?H)) mod ?NY) ((?sx a + (i + ?nx a - ?H)) mod ?NX)"
      using 1 c d wide [OF a(1)] row fa ext
      by (subst agreesD [OF A [rule_format, OF a(1)]]) (simp_all add: gs [OF a(1)] gs [OF r])
    also have "(?sx a + (i + ?nx a - ?H)) mod ?NX = ((?sx a + ?nx a) mod ?NX + (i - ?H)) mod ?NX"
      unfolding mod_add_left_eq by (simp add: algebra_simps)
    also have "\<dots> = (?sx r + (i - ?H)) mod ?NX"
      unfolding adj(1) [symmetric] by (simp add: mod_add_left_eq)
    finally show ?thesis by (simp add: gs [OF r] row)
  next
    case 2
    then have "fdata ?f' (w, k, j, i) = fdata ?f (w, k, j, i)"
      by (simp add: cell x_moved_def Let_def)
    also have "\<dots> = \<Phi> w k ((?sy r + (j - ?H)) mod global_size (dim_y (run_grid R r)))
      ((?sx r + (i - ?H)) mod global_size (dim_x (run_grid R r)))"
      using 2 c ext by (intro agreesD [OF A [rule_format, OF r]]) simp_all
    finally show ?thesis .
  next
    case 3
    have nlow: "\<not> i < ?H" using 3 local_size_pos(1) [OF R r] by linarith
    have "fdata ?f' (w, k, j, i) = fdata (fst (st b)) (w, k, j, i - ?nx r)"
      using 3 c inr ab nlow by (simp add: cell x_moved_def Let_def)
    also have "\<dots> = \<Phi> w k ((?sy b + (j - ?H)) mod ?NY) ((?sx b + (i - ?nx r - ?H)) mod ?NX)"
      using 3 c d wide [OF b(1)] row fa ext
      by (subst agreesD [OF A [rule_format, OF b(1)]]) (simp_all add: gs [OF b(1)] gs [OF r])
    also have "(?sx b + (i - ?nx r - ?H)) mod ?NX = (?sx b mod ?NX + (i - ?nx r - ?H)) mod ?NX"
      by (simp add: mod_add_left_eq)
    also have "\<dots> = (?sx r + (i - ?H)) mod ?NX"
      unfolding adj(2) by (simp add: mod_add_left_eq)
    finally show ?thesis by (simp add: gs [OF r] row)
  qed
qed

lemma y_round_agrees:
  assumes R: "run_ok R" and D: "delivers deliver"
    and F: "\<forall>r \<in> run_ranks R. fits R nd nw nz' r (fst (st r))"
    and d: "0 < run_depth R depth" "run_depth R depth \<le> run_halo R"
    and ns: "\<not> is_singleton_y (run_global R)" and per: "fst (run_periods R)" and ex: "ex \<le> run_halo R"
    and A: "\<forall>r \<in> run_ranks R. agrees R \<Phi> r (fst (st r)) 0 ex" and r: "r \<in> run_ranks R"
  shows "agrees R \<Phi> r (fst (y_round deliver (run_exchanger R) depth st r)) (run_depth R depth) ex"
proof (rule agreesI)
  let ?f = "fst (st r)" and ?f' = "fst (y_round deliver (run_exchanger R) depth st r)"
  let ?d = "run_depth R depth" and ?H = "run_halo R"
  let ?nx = "\<lambda>r. local_physical_size (dim_x (run_grid R r))" and ?ny = "\<lambda>r. local_physical_size (dim_y (run_grid R r))"
  let ?sx = "\<lambda>r. local_physical_start_idx (dim_x (run_grid R r))"
  let ?sy = "\<lambda>r. local_physical_start_idx (dim_y (run_grid R r))"
  let ?NX = "global_size (dim_x (run_global R))" and ?NY = "global_size (dim_y (run_global R))"
  fix w k j i
  have ext: "ext_w ?f' = ext_w ?f" "ext_z ?f' = ext_z ?f"
    using same_shape_simps [OF y_round_shape [where st = st and r = r and deliver = deliver
        and ex = "run_exchanger R" and depth = depth]] by auto
  assume c: "0 \<le> w" "w < ext_w ?f'" "0 \<le> k" "k < ext_z ?f'" "?H - ?d \<le> j" "j < ?H + ?ny r + ?d"
    "?H - ex \<le> i" "i < ?H + ?nx r + ex"
  note gs = run_global_size [OF R]
  obtain a b where ab: "fst (run_shift R r 0) = Some a" "snd (run_shift R r 0) = Some b"
    using periodic_neighbors(2) [OF R r per] by auto
  have a: "a \<in> run_ranks R" "snd (run_shift R a 0) = Some r" "snd (run_coords R a) = snd (run_coords R r)"
    using y_neighbor_back(1) [OF R r ab(1)] by auto
  have b: "b \<in> run_ranks R" "snd (run_coords R b) = snd (run_coords R r)"
    using y_neighbor_back(2) [OF R r ab(2)] by auto
  have row: "dim_x (run_grid R a) = dim_x (run_grid R r)" "dim_x (run_grid R b) = dim_x (run_grid R r)"
    using a b by (simp_all add: run_axes [OF R] r)
  have fa: "ext_w (fst (st a)) = ext_w ?f" "ext_z (fst (st a)) = ext_z ?f"
      "ext_w (fst (st b)) = ext_w ?f" "ext_z (fst (st b)) = ext_z ?f"
    using F r a b by (auto simp: fits_def)
  have inr: "in_columns ?f (w, k, j, i)"
    using F [rule_format, OF r] c ex ext run_okD(5) [OF R]
    by (simp add: in_columns_def fits_def run_grid_simps(4) [OF R r])
  have adj: "?sy r mod ?NY = (?sy a + ?ny a) mod ?NY" "?sy b mod ?NY = (?sy r + ?ny r) mod ?NY"
    using y_blocks_adjacent [OF R a(1,2)] y_blocks_adjacent [OF R r ab(2)] by auto
  note wide = run_wide(2) [OF R _ ns]
  have cell: "fdata ?f' (w, k, j, i) = y_moved R ?d (\<lambda>r. fst (st r)) r (w, k, j, i)"
    by (rule y_round_cells [OF R D F d(1) ns r])
  consider "j < ?H" | "?H \<le> j" "j < ?H + ?ny r" | "?H + ?ny r \<le> j" by linarith
  then show "fdata ?f' (w, k, j, i) = \<Phi> w k ((?sy r + (j - ?H)) mod global_size (dim_y (run_grid R r)))
      ((?sx r + (i - ?H)) mod global_size (dim_x (run_grid R r)))"
  proof cases
    case 1
    have "fdata ?f' (w, k, j, i) = fdata (fst (st a)) (w, k, j + ?ny a, i)"
      using 1 c inr ab by (simp add: cell y_moved_def Let_def)
    also have "\<dots> = \<Phi> w k ((?sy a + (j + ?ny a - ?H)) mod ?NY) ((?sx a + (i - ?H)) mod ?NX)"
      using 1 c d wide [OF a(1)] row fa ext
      by (subst agreesD [OF A [rule_format, OF a(1)]]) (simp_all add: gs [OF a(1)] gs [OF r])
    also have "(?sy a + (j + ?ny a - ?H)) mod ?NY = ((?sy a + ?ny a) mod ?NY + (j - ?H)) mod ?NY"
      unfolding mod_add_left_eq by (simp add: algebra_simps)
    also have "\<dots> = (?sy r + (j - ?H)) mod ?NY"
      unfolding adj(1) [symmetric] by (simp add: mod_add_left_eq)
    finally show ?thesis by (simp add: gs [OF r] row)
  next
    case 2
    then have "fdata ?f' (w, k, j, i) = fdata ?f (w, k, j, i)"
      by (simp add: cell y_moved_def Let_def)
    also have "\<dots> = \<Phi> w k ((?sy r + (j - ?H)) mod global_size (dim_y (run_grid R r)))
      ((?sx r + (i - ?H)) mod global_size (dim_x (run_grid R r)))"
      using 2 c ext by (intro agreesD [OF A [rule_format, OF r]]) simp_all
    finally show ?thesis .
  next
    case 3
    have nlow: "\<not> j < ?H" using 3 local_size_pos(2) [OF R r] by linarith
    have "fdata ?f' (w, k, j, i) = fdata (fst (st b)) (w, k, j - ?ny r, i)"
      using 3 c inr ab nlow by (simp add: cell y_moved_def Let_def)
    also have "\<dots> = \<Phi> w k ((?sy b + (j - ?ny r - ?H)) mod ?NY) ((?sx b + (i - ?H)) mod ?NX)"
      using 3 c d wide [OF b(1)] row fa ext
      by (subst agreesD [OF A [rule_format, OF b(1)]]) (simp_all add: gs [OF b(1)] gs [OF r])
    also have "(?sy b + (j - ?ny r - ?H)) mod ?NY = (?sy b mod ?NY + (j - ?ny r - ?H)) mod ?NY"
      by (simp add: mod_add_left_eq)
    also have "\<dots> = (?sy r + (j - ?H)) mod ?NY"
      unfolding adj(2) by (simp add: mod_add_left_eq)
    finally show ?thesis by (simp add: gs [OF r] row)
  qed
qed

lemma fits_round:
  assumes "fits R nd nw nz' r f" and "same_shape f f'"
  shows "fits R nd nw nz' r f'"
  using assms same_shape_simps [OF assms(2)] by (auto simp: fits_def same_shape_field_wf)

lemma singleton_extent:
  assumes "run_ok R" "r \<in> run_ranks R"
  shows "is_singleton_x (run_global R) \<Longrightarrow>
      local_physical_size (dim_x (run_grid R r)) = 1 \<and> global_size (dim_x (run_grid R r)) = 1"
    and "is_singleton_y (run_global R) \<Longrightarrow>
      local_physical_size (dim_y (run_grid R r)) = 1 \<and> global_size (dim_y (run_grid R r)) = 1"
  using run_okD [OF assms(1)]
  by (auto simp: run_grid_eq(1) [OF assms] axis_simps is_singleton_x_def is_singleton_y_def
      distribute_x_def distribute_y_def)

lemma x_round_singleton:
  assumes R: "run_ok R" and F: "\<forall>r \<in> run_ranks R. fits R nd nw nz' r (fst (st r))"
    and d: "0 < run_depth R depth" and s: "is_singleton_x (run_global R)" and ey: "ey \<le> run_halo R"
    and A: "\<forall>r \<in> run_ranks R. agrees R \<Phi> r (fst (st r)) ey 0" and r: "r \<in> run_ranks R"
  shows "agrees R \<Phi> r (fst (x_round deliver (run_exchanger R) depth st r)) ey (run_depth R depth)"
proof -
  let ?f = "fst (st r)"
  have f: "field_wf ?f" "2 \<le> fdim ?f" using fits_wf F r by blast+
  have eq: "fst (x_round deliver (run_exchanger R) depth st r) =
      fill_singleton_x_halo (run_halo R) (run_depth R depth) ?f"
    using d s by (simp add: x_round_def post_exchange_halo_x_def wait_exchange_halo_x_def Let_def
        run_grid_simps [OF R r] case_prod_beta)
  note n1 = singleton_extent(1) [OF R r s]
  note sh = same_shape_simps [OF same_shape_fills(3) [of ?f "run_halo R" "run_depth R depth"]]
  show ?thesis
  proof (rule agreesI)
    fix w k j i
    assume c: "0 \<le> w" "w < ext_w (fst (x_round deliver (run_exchanger R) depth st r))" "0 \<le> k"
      "k < ext_z (fst (x_round deliver (run_exchanger R) depth st r))"
      "run_halo R - ey \<le> j" "j < run_halo R + local_physical_size (dim_y (run_grid R r)) + ey"
      "run_halo R - run_depth R depth \<le> i"
      "i < run_halo R + local_physical_size (dim_x (run_grid R r)) + run_depth R depth"
    have inr: "in_rows ?f (w, k, j, i)"
      using F [rule_format, OF r] c ey run_okD(5) [OF R] sh
      by (simp add: in_rows_def fits_def eq run_grid_simps(5) [OF R r])
    have "fdata (fst (x_round deliver (run_exchanger R) depth st r)) (w, k, j, i) =
        fdata ?f (w, k, j, run_halo R)"
      using c inr n1 by (simp add: eq fill_singleton_x_halo_cell [OF f])
    also have "\<dots> = \<Phi> w k ((local_physical_start_idx (dim_y (run_grid R r)) + (j - run_halo R))
        mod global_size (dim_y (run_grid R r)))
        ((local_physical_start_idx (dim_x (run_grid R r)) + (run_halo R - run_halo R))
        mod global_size (dim_x (run_grid R r)))"
      using c n1 sh eq by (intro agreesD [OF A [rule_format, OF r]]) simp_all
    finally show "fdata (fst (x_round deliver (run_exchanger R) depth st r)) (w, k, j, i) =
        \<Phi> w k ((local_physical_start_idx (dim_y (run_grid R r)) + (j - run_halo R))
        mod global_size (dim_y (run_grid R r)))
        ((local_physical_start_idx (dim_x (run_grid R r)) + (i - run_halo R))
        mod global_size (dim_x (run_grid R r)))"
      using n1 by simp
  qed
qed

lemma y_round_singleton:
  assumes R: "run_ok R" and F: "\<forall>r \<in> run_ranks R. fits R nd nw nz' r (fst (st r))"
    and d: "0 < run_depth R depth" and s: "is_singleton_y (run_global R)" and ex: "ex \<le> run_halo R"
    and A: "\<forall>r \<in> run_ranks R. agrees R \<Phi> r (fst (st r)) 0 ex" and r: "r \<in> run_ranks R"
  shows "agrees R \<Phi> r (fst (y_round deliver (run_exchanger R) depth st r)) (run_depth R depth) ex"
proof -
  let ?f = "fst (st r)"
  have f: "field_wf ?f" "2 \<le> fdim ?f" using fits_wf F r by blast+
  have eq: "fst (y_round deliver (run_exchanger R) depth st r) =
      fill_singleton_y_halo (run_halo R) (run_depth R depth) ?f"
    using d s by (simp add: y_round_def post_exchange_halo_y_def wait_exchange_halo_y_def Let_def
        run_grid_simps [OF R r] case_prod_beta)
  note n1 = singleton_extent(2) [OF R r s]
  note sh = same_shape_simps [OF same_shape_fills(4) [of ?f "run_halo R" "run_depth R depth"]]
  show ?thesis
  proof (rule agreesI)
    fix w k j i
    assume c: "0 \<le> w" "w < ext_w (fst (y_round deliver (run_exchanger R) depth st r))" "0 \<le> k"
      "k < ext_z (fst (y_round deliver (run_exchanger R) depth st r))"
      "run_halo R - run_depth R depth \<le> j"
      "j < run_halo R + local_physical_size (dim_y (run_grid R r)) + run_depth R depth"
      "run_halo R - ex \<le> i" "i < run_halo R + local_physical_size (dim_x (run_grid R r)) + ex"
    have inr: "in_columns ?f (w, k, j, i)"
      using F [rule_format, OF r] c ex run_okD(5) [OF R] sh
      by (simp add: in_columns_def fits_def eq run_grid_simps(4) [OF R r])
    have "fdata (fst (y_round deliver (run_exchanger R) depth st r)) (w, k, j, i) =
        fdata ?f (w, k, run_halo R, i)"
      using c inr n1 by (simp add: eq fill_singleton_y_halo_cell [OF f])
    also have "\<dots> = \<Phi> w k ((local_physical_start_idx (dim_y (run_grid R r)) + (run_halo R - run_halo R))
        mod global_size (dim_y (run_grid R r)))
        ((local_physical_start_idx (dim_x (run_grid R r)) + (i - run_halo R))
        mod global_size (dim_x (run_grid R r)))"
      using c n1 sh eq by (intro agreesD [OF A [rule_format, OF r]]) simp_all
    finally show "fdata (fst (y_round deliver (run_exchanger R) depth st r)) (w, k, j, i) =
        \<Phi> w k ((local_physical_start_idx (dim_y (run_grid R r)) + (j - run_halo R))
        mod global_size (dim_y (run_grid R r)))
        ((local_physical_start_idx (dim_x (run_grid R r)) + (i - run_halo R))
        mod global_size (dim_x (run_grid R r)))"
      using n1 by simp
  qed
qed

definition run_periodic :: "run \<Rightarrow> bool" where
  "run_periodic R \<longleftrightarrow>
     (is_singleton_x (run_global R) \<or> snd (run_periods R)) \<and>
     (is_singleton_y (run_global R) \<or> fst (run_periods R))"

lemma exchange_halos_all_agrees:
  assumes R: "run_ok R" and D: "delivers deliver" and P: "run_periodic R"
    and F: "\<forall>r \<in> run_ranks R. fits R nd nw nz' r (fst (st r))"
    and d: "0 < run_depth R depth" "run_depth R depth \<le> run_halo R"
    and A: "\<forall>r \<in> run_ranks R. agrees R \<Phi> r (fst (st r)) 0 0" and r: "r \<in> run_ranks R"
  shows "agrees R \<Phi> r (fst (exchange_halos_all deliver (run_exchanger R) depth st r))
    (run_depth R depth) (run_depth R depth)"
proof -
  let ?st = "y_round deliver (run_exchanger R) depth st"
  have H: "0 \<le> run_halo R" using run_okD(5) [OF R] by simp
  have F': "\<forall>r \<in> run_ranks R. fits R nd nw nz' r (fst (?st r))"
    using F fits_round y_round_shape by blast
  have A': "\<forall>r \<in> run_ranks R. agrees R \<Phi> r (fst (?st r)) (run_depth R depth) 0"
  proof (cases "is_singleton_y (run_global R)")
    case True
    show ?thesis by (intro ballI y_round_singleton [OF R F d(1) True H A])
  next
    case False
    with P have "fst (run_periods R)" by (simp add: run_periodic_def)
    then show ?thesis by (intro ballI y_round_agrees [OF R D F d False _ H A])
  qed
  have "agrees R \<Phi> r (fst (x_round deliver (run_exchanger R) depth ?st r)) (run_depth R depth) (run_depth R depth)"
  proof (cases "is_singleton_x (run_global R)")
    case True
    show ?thesis by (rule x_round_singleton [OF R F' d(1) True d(2) A' r])
  next
    case False
    with P have "snd (run_periods R)" by (simp add: run_periodic_def)
    then show ?thesis by (intro x_round_agrees [OF R D F' d False _ d(2) A' r])
  qed
  moreover have "2 \<le> fdim (fst (st r))" using F r fits_wf by blast
  ultimately show ?thesis by (simp add: exchange_halos_all_rounds)
qed

lemma exchange_halos_all_shape:
  "same_shape (fst (st r)) (fst (exchange_halos_all deliver ex depth st r))"
proof (cases "2 \<le> fdim (fst (st r))")
  case True
  then have "exchange_halos_all deliver ex depth st r =
      x_round deliver ex depth (y_round deliver ex depth st) r"
    by (rule exchange_halos_all_rounds)
  then show ?thesis
    by (simp only:) (rule same_shape_trans [OF y_round_shape x_round_shape])
next
  case False
  then show ?thesis by (simp add: exchange_halos_all_def exchange_halos_def Let_def)
qed

section \<open>A sample run\<close>

text \<open>Five rows and seven columns on two by two processes, numbered row by row.\<close>

definition sample_coords :: "nat \<Rightarrow> int \<times> int" where
  "sample_coords r = (int (r div 2), int (r mod 2))"

definition sample_shift :: "nat \<Rightarrow> nat \<Rightarrow> nat option \<times> nat option" where
  "sample_shift r d =
     (if d = 1 then (let s = (if r mod 2 = 0 then r + 1 else r - 1) in (Some s, Some s))
      else (let s = (if r < 2 then r + 2 else r - 2) in (Some s, Some s)))"

definition sample_run :: run where
  "sample_run =
     \<lparr>run_global = sample_grid 5 7, run_mpi = sample_mpi, run_radiation = False,
      run_dims = (2, 2), run_periods = (True, True), run_ranks = {0, 1, 2, 3},
      run_coords = sample_coords, run_shift = sample_shift,
      run_grid = (\<lambda>r. distributed (sample_grid 5 7) (2, 2) (sample_coords r))\<rparr>"

definition first_match :: "'a :: zero delivery" where
  "first_match net me src tag =
     (case sends_to me tag (net src) of [] \<Rightarrow> (0, \<lambda>_. 0) | msg # _ \<Rightarrow> msg)"

definition sample_global :: "int \<Rightarrow> int \<Rightarrow> int \<Rightarrow> int \<Rightarrow> int" where
  "sample_global w k J I = 10 * J + I"

definition sample_local :: "nat \<Rightarrow> int field" where
  "sample_local r =
     (let g = run_grid sample_run r; dy = dim_y g; dx = dim_x g in
      \<lparr>fname = ''thermo'', fdim = 2, ext_w = 1, ext_z = 1,
       ext_y = get_local_total_points_y g, ext_x = get_local_total_points_x g,
       fdata = (\<lambda>(w, k, j, i).
         if 2 \<le> j \<and> j < 2 + local_physical_size dy \<and> 2 \<le> i \<and> i < 2 + local_physical_size dx
         then 10 * (local_physical_start_idx dy + (j - 2)) + (local_physical_start_idx dx + (i - 2))
         else -1)\<rparr>)"

definition sample_state :: "nat \<Rightarrow> int field \<times> int halo_buffers" where
  "sample_state r = (sample_local r, allocate_buffers (run_exchanger sample_run r))"

lemma first_match_delivers: "delivers first_match"
  by (simp add: delivers_def first_match_def)

lemma sample_run_ok: "run_ok sample_run"
  unfolding run_ok_def Let_def
proof (intro conjI)
  have "{0..<2} = {0, 1 :: int}" by auto
  then show "cart_ok (run_dims sample_run) (run_ranks sample_run) (run_coords sample_run)"
    by (simp add: cart_ok_def sample_run_def sample_coords_def insert_Times_insert)
  show "cart_shift_ok (run_dims sample_run) (run_periods sample_run) (run_ranks sample_run)
      (run_coords sample_run) (run_shift sample_run)"
    by (simp add: cart_shift_ok_def sample_run_def sample_coords_def sample_shift_def rank_at_def
        shift_target_def)
  show "\<forall>r \<in> run_ranks sample_run. calculate_local_grid_distribution
      (mpi_at (run_mpi sample_run) (run_coords sample_run r)) (run_radiation sample_run)
      (run_global sample_run) = Inr (run_grid sample_run r)"
    by (simp add: sample_run_def sample_coords_def calculate_local_grid_distribution_def Let_def
        mpi_at_def sample_mpi_def process_dimensions_def sample_grid_def distributed_def axis_simps
        distribute_y_def distribute_x_def split_nonneg)
qed (simp_all add: sample_run_def sample_grid_def initial_dimension_def process_dimensions_def sample_mpi_def)

lemma sample_fits: "\<forall>r \<in> run_ranks sample_run. fits sample_run 2 1 1 r (fst (sample_state r))"
proof
  fix r assume r: "r \<in> run_ranks sample_run"
  show "fits sample_run 2 1 1 r (fst (sample_state r))"
    using run_grid_simps(4,5) [OF sample_run_ok r] local_size_pos [OF sample_run_ok r]
      run_okD(5) [OF sample_run_ok]
    by (simp add: fits_def sample_state_def sample_local_def field_wf_def Let_def)
qed

lemma sample_agrees:
  "\<forall>r \<in> run_ranks sample_run. agrees sample_run sample_global r (fst (sample_state r)) 0 0"
proof
  fix r assume r: "r \<in> run_ranks sample_run"
  have H: "run_halo sample_run = 2"
    by (simp add: run_halo_def sample_run_def sample_grid_def initial_dimension_def)
  have n: "global_size (dim_x (run_global sample_run)) = 7" "global_size (dim_y (run_global sample_run)) = 5"
    by (simp_all add: sample_run_def sample_grid_def initial_dimension_def)
  have c: "0 \<le> fst (run_coords sample_run r)" "fst (run_coords sample_run r) < 2"
    "0 \<le> snd (run_coords sample_run r)" "snd (run_coords sample_run r) < 2"
    using coords_range [OF sample_run_ok r] by (simp_all add: sample_run_def)
  have dims: "run_dims sample_run = (2, 2)" by (simp add: sample_run_def)
  have x: "0 \<le> local_physical_start_idx (dim_x (run_grid sample_run r))"
    "local_physical_start_idx (dim_x (run_grid sample_run r)) +
       local_physical_size (dim_x (run_grid sample_run r)) \<le> 7"
    using split_in_range [of 7 2 "snd (run_coords sample_run r)"] c
    by (simp_all add: run_axes [OF sample_run_ok r] axis_simps n dims)
  have y: "0 \<le> local_physical_start_idx (dim_y (run_grid sample_run r))"
    "local_physical_start_idx (dim_y (run_grid sample_run r)) +
       local_physical_size (dim_y (run_grid sample_run r)) \<le> 5"
    using split_in_range [of 5 2 "fst (run_coords sample_run r)"] c
    by (simp_all add: run_axes [OF sample_run_ok r] axis_simps n dims)
  show "agrees sample_run sample_global r (fst (sample_state r)) 0 0"
    by (rule agreesI)
       (use x y in \<open>simp add: sample_state_def sample_local_def Let_def sample_global_def H
          run_global_size [OF sample_run_ok r] n\<close>)
qed

section \<open>Correctness of the exchange\<close>

text \<open>C1. Halo exchange: let every process hold its block of one global field in its physical
  cells.  On a doubly periodic domain (directions with a single cell excepted) the exchange
  leaves on every process the periodic continuation of the global field on the physical cells
  and on the exchanged halo layers all around them, corners included.  This holds for every
  decomposition the grid construction accepts, with one process or several in a direction, for
  fields of two to four dimensions and for every depth up to the halo width.\<close>

theorem halo_exchange_is_periodic_extension:
  assumes "run_ok R" and "delivers deliver" and "run_periodic R"
    and "\<forall>r \<in> run_ranks R. fits R nd nw nz' r (fst (st r))"
    and "0 < run_depth R depth" and "run_depth R depth \<le> run_halo R"
    and "\<forall>r \<in> run_ranks R. agrees R \<Phi> r (fst (st r)) 0 0" and "r \<in> run_ranks R"
  shows "agrees R \<Phi> r (fst (exchange_halos_all deliver (run_exchanger R) depth st r))
    (run_depth R depth) (run_depth R depth)"
  using assms by (rule exchange_halos_all_agrees)

text \<open>The lower left corner of process 0 holds the cell of row 3 and column 5, which process 3
  owns.\<close>

lemma halo_exchange_is_periodic_extension_witness:
  "fdata (fst (exchange_halos_all first_match (run_exchanger sample_run) (-1) sample_state 0)) (0, 0, 0, 0) = 35"
proof -
  have H: "run_halo sample_run = 2" "run_depth sample_run (-1) = 2"
    by (simp_all add: run_halo_def run_depth_def sample_run_def sample_grid_def initial_dimension_def)
  have r: "0 \<in> run_ranks sample_run" by (simp add: sample_run_def)
  have ag: "agrees sample_run sample_global 0
      (fst (exchange_halos_all first_match (run_exchanger sample_run) (-1) sample_state 0))
      (run_depth sample_run (-1)) (run_depth sample_run (-1))"
    by (rule halo_exchange_is_periodic_extension [OF sample_run_ok first_match_delivers _ sample_fits _ _ sample_agrees r])
       (simp_all add: H run_periodic_def, simp_all add: sample_run_def)
  have ext: "ext_w (fst (exchange_halos_all first_match (run_exchanger sample_run) (-1) sample_state 0)) = 1"
    "ext_z (fst (exchange_halos_all first_match (run_exchanger sample_run) (-1) sample_state 0)) = 1"
    using same_shape_simps [OF exchange_halos_all_shape [where st = sample_state and r = 0 and depth = "-1"
        and deliver = first_match and ex = "run_exchanger sample_run"]]
    by (simp_all add: sample_state_def sample_local_def Let_def)
  have g: "dim_y (run_grid sample_run 0) = split_axis 2 0 (initial_dimension 5 (Fin 100) 2)"
    "dim_x (run_grid sample_run 0) = split_axis 2 0 (initial_dimension 7 (Fin 100) 2)"
    using run_axes [OF sample_run_ok r]
    by (simp_all add: sample_run_def sample_coords_def sample_grid_def)
  show ?thesis
    using agreesD [OF ag, of 0 0 0 0] ext
    by (simp add: H g axis_simps split_nonneg sample_global_def)
qed

section \<open>Matching requests\<close>

definition receives_from :: "nat \<Rightarrow> int \<Rightarrow> 'a request list \<Rightarrow> int list" where
  "receives_from src tag reqs =
     concat (map (\<lambda>r. case r of Isend _ _ _ _ \<Rightarrow> []
                      | Irecv _ s t n \<Rightarrow> if s = src \<and> t = tag then [n] else []) reqs)"

text \<open>Every posted receive has exactly one send with its tag and length, every posted send
  exactly one receive: no process waits for ever, and no message is left over.\<close>

definition requests_match :: "nat set \<Rightarrow> (nat \<Rightarrow> 'a request list) \<Rightarrow> bool" where
  "requests_match ranks net \<longleftrightarrow>
     (\<forall>r \<in> ranks. \<forall>q \<in> set (net r).
        case q of
          Irecv face src tag n \<Rightarrow> src \<in> ranks \<and> (\<exists>p. sends_to r tag (net src) = [(n, p)])
        | Isend dest tag n p \<Rightarrow> dest \<in> ranks \<and> receives_from r tag (net dest) = [n])"

lemma receives_from_x:
  "receives_from me (tag_code SEND_TO_LEFT)
     (irecv n1 f1 SEND_TO_LEFT c @ irecv n2 f2 SEND_TO_RIGHT c @ isend n3 t3 c l @ isend n4 t4 c r) =
     (if n1 = Some me then [c] else [])"
  "receives_from me (tag_code SEND_TO_RIGHT)
     (irecv n1 f1 SEND_TO_LEFT c @ irecv n2 f2 SEND_TO_RIGHT c @ isend n3 t3 c l @ isend n4 t4 c r) =
     (if n2 = Some me then [c] else [])"
  by (auto simp: receives_from_def irecv_def isend_def split: option.splits if_splits)

lemma receives_from_y:
  "receives_from me (tag_code SEND_TO_TOP)
     (irecv n1 f1 SEND_TO_TOP c @ irecv n2 f2 SEND_TO_BOTTOM c @ isend n3 t3 c l @ isend n4 t4 c r) =
     (if n1 = Some me then [c] else [])"
  "receives_from me (tag_code SEND_TO_BOTTOM)
     (irecv n1 f1 SEND_TO_TOP c @ irecv n2 f2 SEND_TO_BOTTOM c @ isend n3 t3 c l @ isend n4 t4 c r) =
     (if n2 = Some me then [c] else [])"
  by (auto simp: receives_from_def irecv_def isend_def split: option.splits if_splits)

lemma in_requests:
  "q \<in> set (irecv n1 f1 t1 c @ irecv n2 f2 t2 c @ isend n3 t3 c l @ isend n4 t4 c r) \<longleftrightarrow>
     (\<exists>s. n1 = Some s \<and> q = Irecv f1 s (tag_code t1) c) \<or> (\<exists>s. n2 = Some s \<and> q = Irecv f2 s (tag_code t2) c) \<or>
     (\<exists>s. n3 = Some s \<and> q = Isend s (tag_code t3) c l) \<or> (\<exists>s. n4 = Some s \<and> q = Isend s (tag_code t4) c r)"
  by (auto simp: irecv_def isend_def split: option.splits)

lemma post_x_requests:
  assumes R: "run_ok R" "r \<in> run_ranks R" and h: "h = run_depth R depth"
    and ne: "fst (post_exchange_halo_x (run_exchanger R r) depth s0) \<noteq> []"
  obtains l rr where "fst (post_exchange_halo_x (run_exchanger R r) depth s0) =
      irecv (snd (run_shift R r 1)) X_right SEND_TO_LEFT (halo_count_x h (fst s0)) @
      irecv (fst (run_shift R r 1)) X_left SEND_TO_RIGHT (halo_count_x h (fst s0)) @
      isend (fst (run_shift R r 1)) SEND_TO_LEFT (halo_count_x h (fst s0)) l @
      isend (snd (run_shift R r 1)) SEND_TO_RIGHT (halo_count_x h (fst s0)) rr"
    and "h \<noteq> 0" and "\<not> is_singleton_x (run_global R)" and "halo_count_x h (fst s0) \<noteq> 0"
  using ne
  by (auto simp: post_exchange_halo_x_def Let_def case_prod_beta run_grid_simps [OF R] h
      split: if_splits intro: that)

lemma post_y_requests:
  assumes R: "run_ok R" "r \<in> run_ranks R" and h: "h = run_depth R depth"
    and ne: "fst (post_exchange_halo_y (run_exchanger R r) depth s0) \<noteq> []"
  obtains bb t where "fst (post_exchange_halo_y (run_exchanger R r) depth s0) =
      irecv (fst (run_shift R r 0)) Y_bottom SEND_TO_TOP (halo_count_y h (fst s0)) @
      irecv (snd (run_shift R r 0)) Y_top SEND_TO_BOTTOM (halo_count_y h (fst s0)) @
      isend (snd (run_shift R r 0)) SEND_TO_TOP (halo_count_y h (fst s0)) t @
      isend (fst (run_shift R r 0)) SEND_TO_BOTTOM (halo_count_y h (fst s0)) bb"
    and "h \<noteq> 0" and "\<not> is_singleton_y (run_global R)" and "halo_count_y h (fst s0) \<noteq> 0"
  using ne
  by (auto simp: post_exchange_halo_y_def Let_def case_prod_beta run_grid_simps [OF R] h
      split: if_splits intro: that)

lemma post_x_nonempty:
  assumes R: "run_ok R" "r \<in> run_ranks R" and "h = run_depth R depth" and "h \<noteq> 0"
    and "\<not> is_singleton_x (run_global R)" and "halo_count_x h (fst s0) \<noteq> 0"
    and "fst (run_shift R r 1) \<noteq> None \<or> snd (run_shift R r 1) \<noteq> None"
  shows "fst (post_exchange_halo_x (run_exchanger R r) depth s0) \<noteq> []"
  using assms(3-7)
  by (auto simp: post_exchange_halo_x_def Let_def case_prod_beta run_grid_simps [OF R] irecv_def)

lemma post_y_nonempty:
  assumes R: "run_ok R" "r \<in> run_ranks R" and "h = run_depth R depth" and "h \<noteq> 0"
    and "\<not> is_singleton_y (run_global R)" and "halo_count_y h (fst s0) \<noteq> 0"
    and "fst (run_shift R r 0) \<noteq> None \<or> snd (run_shift R r 0) \<noteq> None"
  shows "fst (post_exchange_halo_y (run_exchanger R r) depth s0) \<noteq> []"
  using assms(3-7)
  by (auto simp: post_exchange_halo_y_def Let_def case_prod_beta run_grid_simps [OF R] irecv_def)

lemma x_requests_match:
  assumes R: "run_ok R" and F: "\<forall>r \<in> run_ranks R. fits R nd nw nz' r (fst (st r))"
  shows "requests_match (run_ranks R) (\<lambda>r. fst (post_exchange_halo_x (run_exchanger R r) depth (st r)))"
  unfolding requests_match_def
proof (intro ballI)
  fix r q
  let ?net = "\<lambda>r. fst (post_exchange_halo_x (run_exchanger R r) depth (st r))"
  define h where h: "h = run_depth R depth"
  define c where c: "c = halo_count_x h (fst (st r))"
  assume r: "r \<in> run_ranks R" and q: "q \<in> set (?net r)"
  then have ne: "?net r \<noteq> []" by auto
  obtain l rr where net: "?net r =
      irecv (snd (run_shift R r 1)) X_right SEND_TO_LEFT c @ irecv (fst (run_shift R r 1)) X_left SEND_TO_RIGHT c @
      isend (fst (run_shift R r 1)) SEND_TO_LEFT c l @ isend (snd (run_shift R r 1)) SEND_TO_RIGHT c rr"
    and ok: "h \<noteq> 0" "\<not> is_singleton_x (run_global R)" "c \<noteq> 0"
    by (rule post_x_requests [OF R r h ne]) (auto simp: c)
  have nb: "s \<in> run_ranks R \<and> (\<exists>l rr. ?net s =
      irecv (snd (run_shift R s 1)) X_right SEND_TO_LEFT c @ irecv (fst (run_shift R s 1)) X_left SEND_TO_RIGHT c @
      isend (fst (run_shift R s 1)) SEND_TO_LEFT c l @ isend (snd (run_shift R s 1)) SEND_TO_RIGHT c rr)"
    if "fst (run_shift R r 1) = Some s \<or> snd (run_shift R r 1) = Some s" for s
  proof -
    have s: "s \<in> run_ranks R" "fst (run_coords R s) = fst (run_coords R r)"
      "fst (run_shift R s 1) \<noteq> None \<or> snd (run_shift R s 1) \<noteq> None"
      using that x_neighbor_back [OF R r, of s] by auto
    have cs: "halo_count_x h (fst (st s)) = c"
      unfolding c using F r s by (intro x_neighbor_shape(5) [OF R r s(1,2)]) auto
    have "?net s \<noteq> []" using cs ok s by (intro post_x_nonempty [OF R s(1) h]) auto
    then show ?thesis using s(1) by (elim post_x_requests [OF R s(1) h]) (auto simp: cs)
  qed
  from q [unfolded net in_requests] consider
      s where "snd (run_shift R r 1) = Some s" "q = Irecv X_right s (tag_code SEND_TO_LEFT) c"
    | s where "fst (run_shift R r 1) = Some s" "q = Irecv X_left s (tag_code SEND_TO_RIGHT) c"
    | s where "fst (run_shift R r 1) = Some s" "q = Isend s (tag_code SEND_TO_LEFT) c l"
    | s where "snd (run_shift R r 1) = Some s" "q = Isend s (tag_code SEND_TO_RIGHT) c rr"
    by blast
  then show "case q of Irecv face src tag n \<Rightarrow> src \<in> run_ranks R \<and> (\<exists>p. sends_to r tag (?net src) = [(n, p)])
      | Isend dest tag n p \<Rightarrow> dest \<in> run_ranks R \<and> receives_from r tag (?net dest) = [n]"
  proof cases
    case 1
    with nb [of s] x_neighbor_back(2) [OF R r, of s] show ?thesis
      by (auto simp: sends_to_x simp del: tag_code.simps)
  next
    case 2
    with nb [of s] x_neighbor_back(1) [OF R r, of s] show ?thesis
      by (auto simp: sends_to_x simp del: tag_code.simps)
  next
    case 3
    with nb [of s] x_neighbor_back(1) [OF R r, of s] show ?thesis
      by (auto simp: receives_from_x simp del: tag_code.simps)
  next
    case 4
    with nb [of s] x_neighbor_back(2) [OF R r, of s] show ?thesis
      by (auto simp: receives_from_x simp del: tag_code.simps)
  qed
qed
lemma y_requests_match:
  assumes R: "run_ok R" and F: "\<forall>r \<in> run_ranks R. fits R nd nw nz' r (fst (st r))"
  shows "requests_match (run_ranks R) (\<lambda>r. fst (post_exchange_halo_y (run_exchanger R r) depth (st r)))"
  unfolding requests_match_def
proof (intro ballI)
  fix r q
  let ?net = "\<lambda>r. fst (post_exchange_halo_y (run_exchanger R r) depth (st r))"
  define h where h: "h = run_depth R depth"
  define c where c: "c = halo_count_y h (fst (st r))"
  assume r: "r \<in> run_ranks R" and q: "q \<in> set (?net r)"
  then have ne: "?net r \<noteq> []" by auto
  obtain l rr where net: "?net r =
      irecv (fst (run_shift R r 0)) Y_bottom SEND_TO_TOP c @ irecv (snd (run_shift R r 0)) Y_top SEND_TO_BOTTOM c @
      isend (snd (run_shift R r 0)) SEND_TO_TOP c rr @ isend (fst (run_shift R r 0)) SEND_TO_BOTTOM c l"
    and ok: "h \<noteq> 0" "\<not> is_singleton_y (run_global R)" "c \<noteq> 0"
    by (rule post_y_requests [OF R r h ne]) (auto simp: c)
  have nb: "s \<in> run_ranks R \<and> (\<exists>l rr. ?net s =
      irecv (fst (run_shift R s 0)) Y_bottom SEND_TO_TOP c @ irecv (snd (run_shift R s 0)) Y_top SEND_TO_BOTTOM c @
      isend (snd (run_shift R s 0)) SEND_TO_TOP c rr @ isend (fst (run_shift R s 0)) SEND_TO_BOTTOM c l)"
    if "fst (run_shift R r 0) = Some s \<or> snd (run_shift R r 0) = Some s" for s
  proof -
    have s: "s \<in> run_ranks R" "snd (run_coords R s) = snd (run_coords R r)"
      "fst (run_shift R s 0) \<noteq> None \<or> snd (run_shift R s 0) \<noteq> None"
      using that y_neighbor_back [OF R r, of s] by auto
    have cs: "halo_count_y h (fst (st s)) = c"
      unfolding c using F r s by (intro y_neighbor_shape(5) [OF R r s(1,2)]) auto
    have "?net s \<noteq> []" using cs ok s by (intro post_y_nonempty [OF R s(1) h]) auto
    then show ?thesis using s(1) by (elim post_y_requests [OF R s(1) h]) (auto simp: cs)
  qed
  from q [unfolded net in_requests] consider
      s where "snd (run_shift R r 0) = Some s" "q = Irecv Y_top s (tag_code SEND_TO_BOTTOM) c"
    | s where "fst (run_shift R r 0) = Some s" "q = Irecv Y_bottom s (tag_code SEND_TO_TOP) c"
    | s where "fst (run_shift R r 0) = Some s" "q = Isend s (tag_code SEND_TO_BOTTOM) c l"
    | s where "snd (run_shift R r 0) = Some s" "q = Isend s (tag_code SEND_TO_TOP) c rr"
    by blast
  then show "case q of Irecv face src tag n \<Rightarrow> src \<in> run_ranks R \<and> (\<exists>p. sends_to r tag (?net src) = [(n, p)])
      | Isend dest tag n p \<Rightarrow> dest \<in> run_ranks R \<and> receives_from r tag (?net dest) = [n]"
  proof cases
    case 1
    with nb [of s] y_neighbor_back(2) [OF R r, of s] show ?thesis
      by (auto simp: sends_to_y simp del: tag_code.simps)
  next
    case 2
    with nb [of s] y_neighbor_back(1) [OF R r, of s] show ?thesis
      by (auto simp: sends_to_y simp del: tag_code.simps)
  next
    case 3
    with nb [of s] y_neighbor_back(1) [OF R r, of s] show ?thesis
      by (auto simp: receives_from_y simp del: tag_code.simps)
  next
    case 4
    with nb [of s] y_neighbor_back(2) [OF R r, of s] show ?thesis
      by (auto simp: receives_from_y simp del: tag_code.simps)
  qed
qed

text \<open>C10. The requests of both rounds of a halo exchange match: whatever the depth, every receive a
  process posts names a process that posts exactly one send to it with this tag, of the same
  length, and every send is received exactly once; also where two neighbours are the same
  process or the process itself.\<close>

theorem halo_requests_match:
  assumes "run_ok R" and "\<forall>r \<in> run_ranks R. fits R nd nw nz' r (fst (st r))"
  shows "requests_match (run_ranks R) (\<lambda>r. fst (post_exchange_halo_y (run_exchanger R r) depth (st r))) \<and>
    requests_match (run_ranks R) (\<lambda>r. fst (post_exchange_halo_x (run_exchanger R r) depth (st r)))"
  using y_requests_match [OF assms] x_requests_match [OF assms] by blast

lemma halo_requests_match_witness:
  "requests_match {0, 1, 2, 3} (\<lambda>r. fst (post_exchange_halo_x (run_exchanger sample_run r) 1 (sample_state r)))"
proof -
  have "run_ranks sample_run = {0, 1, 2, 3}" by (simp add: sample_run_def)
  then show ?thesis
    using halo_requests_match [OF sample_run_ok sample_fits, of 1] by simp
qed

end
