(* ===== verification/Halo_Batch.thy ===== *)
theory Halo_Batch
  imports Halo_Periodic
begin

text \<open>
  \<open>core/haloexchange/HaloExchangerMPI.hpp\<close>, \<open>exchange_multiple_halos\<close>: the exchange of the
  halos of several three-dimensional fields with one message per neighbour and direction.

  Field \<open>n\<close> of the batch uses the part of the shared buffers that starts at \<open>n\<close> times the
  buffer size of one field; \<open>subview\<close> is the code's \<open>Kokkos::subview\<close>.  The pointers to the
  fields are not null and point to different fields.  A batch is first prepared
  (\<open>begin_multiple\<close>: buffers enlarged, singleton directions filled locally), then exchanged in
  X and then in Y.  The lemmas show that every field of the batch goes through the
  single-field rounds of \<open>Halo_World\<close>, so that what \<open>Halo_Periodic\<close> shows of these holds of
  every field.
\<close>

section \<open>Packing and unpacking one field of a batch\<close>

text \<open>\<open>Kokkos::subview(v, make_pair(off, off + n))\<close>: its index 0 is index \<open>off\<close> of \<open>v\<close>.\<close>

definition subview :: "int \<Rightarrow> (int \<Rightarrow> 'a) \<Rightarrow> int \<Rightarrow> 'a" where
  "subview off v = (\<lambda>i. v (off + i))"

definition pack_multi_x ::
  "grid \<Rightarrow> int \<Rightarrow> 'a field \<Rightarrow> (int \<Rightarrow> 'a) \<times> (int \<Rightarrow> 'a) \<Rightarrow> (int \<Rightarrow> 'a) \<times> (int \<Rightarrow> 'a)" where
  "pack_multi_x g offset f bufs =
     (let h = get_halo_cells g; nx_phys = local_physical_size (dim_x g);
          nz' = get_local_total_points_z g; ny' = get_local_total_points_y g; data = fdata f
      in parallel_for (mdrange3 0 0 0 nz' ny' h)
           (\<lambda>(k, j, ih) (l, r). let idx = k * (ny' * h) + j * h + ih in
              (l(offset + idx := data (0, k, j, h + ih)),
               r(offset + idx := data (0, k, j, h + nx_phys - h + ih)))) bufs)"

definition pack_multi_y ::
  "grid \<Rightarrow> int \<Rightarrow> 'a field \<Rightarrow> (int \<Rightarrow> 'a) \<times> (int \<Rightarrow> 'a) \<Rightarrow> (int \<Rightarrow> 'a) \<times> (int \<Rightarrow> 'a)" where
  "pack_multi_y g offset f bufs =
     (let h = get_halo_cells g; ny_phys = local_physical_size (dim_y g);
          nz' = get_local_total_points_z g; nx' = get_local_total_points_x g; data = fdata f
      in parallel_for (mdrange3 0 0 0 nz' nx' h)
           (\<lambda>(k, i, jh) (b, t). let idx = k * (h * nx') + jh * nx' + i in
              (b(offset + idx := data (0, k, h + jh, i)),
               t(offset + idx := data (0, k, h + ny_phys - h + jh, i)))) bufs)"

definition unpack_multi_x ::
  "exchanger \<Rightarrow> int \<Rightarrow> (int \<Rightarrow> 'a) \<Rightarrow> (int \<Rightarrow> 'a) \<Rightarrow> 'a field \<Rightarrow> 'a field" where
  "unpack_multi_x ex offset recv_l recv_r f =
     (let g = grid_ref ex; h = get_halo_cells g; nx_phys = local_physical_size (dim_x g);
          left = neighbor_left ex \<noteq> None; right = neighbor_right ex \<noteq> None;
          nz' = get_local_total_points_z g; ny' = get_local_total_points_y g;
          recv_l_f = subview offset recv_l; recv_r_f = subview offset recv_r
      in f\<lparr>fdata := parallel_for (mdrange3 0 0 0 nz' ny' h)
           (assign2
              left (\<lambda>(k, j, ih). (0, k, j, h - h + ih))
                   (\<lambda>(k, j, ih) _. recv_l_f (k * (ny' * h) + j * h + ih))
              right (\<lambda>(k, j, ih). (0, k, j, h + nx_phys + ih))
                   (\<lambda>(k, j, ih) _. recv_r_f (k * (ny' * h) + j * h + ih)))
           (fdata f)\<rparr>)"

definition unpack_multi_y ::
  "exchanger \<Rightarrow> int \<Rightarrow> (int \<Rightarrow> 'a) \<Rightarrow> (int \<Rightarrow> 'a) \<Rightarrow> 'a field \<Rightarrow> 'a field" where
  "unpack_multi_y ex offset recv_b recv_t f =
     (let g = grid_ref ex; h = get_halo_cells g; ny_phys = local_physical_size (dim_y g);
          bottom = neighbor_bottom ex \<noteq> None; top = neighbor_top ex \<noteq> None;
          nz' = get_local_total_points_z g; nx' = get_local_total_points_x g;
          recv_b_f = subview offset recv_b; recv_t_f = subview offset recv_t
      in f\<lparr>fdata := parallel_for (mdrange3 0 0 0 nz' nx' h)
           (assign2
              bottom (\<lambda>(k, i, jh). (0, k, h - h + jh, i))
                   (\<lambda>(k, i, jh) _. recv_b_f (k * (h * nx') + jh * nx' + i))
              top (\<lambda>(k, i, jh). (0, k, h + ny_phys + jh, i))
                   (\<lambda>(k, i, jh) _. recv_t_f (k * (h * nx') + jh * nx' + i)))
           (fdata f)\<rparr>)"

text \<open>The loops over the fields; field \<open>n\<close> uses the part of the buffers at \<open>n * bsize\<close>.\<close>

primrec pack_fields_x ::
  "grid \<Rightarrow> int \<Rightarrow> nat \<Rightarrow> 'a field list \<Rightarrow> (int \<Rightarrow> 'a) \<times> (int \<Rightarrow> 'a) \<Rightarrow> (int \<Rightarrow> 'a) \<times> (int \<Rightarrow> 'a)" where
  "pack_fields_x g bsize n [] bufs = bufs"
| "pack_fields_x g bsize n (f # fs) bufs =
     pack_fields_x g bsize (Suc n) fs (pack_multi_x g (int n * bsize) f bufs)"

primrec pack_fields_y ::
  "grid \<Rightarrow> int \<Rightarrow> nat \<Rightarrow> 'a field list \<Rightarrow> (int \<Rightarrow> 'a) \<times> (int \<Rightarrow> 'a) \<Rightarrow> (int \<Rightarrow> 'a) \<times> (int \<Rightarrow> 'a)" where
  "pack_fields_y g bsize n [] bufs = bufs"
| "pack_fields_y g bsize n (f # fs) bufs =
     pack_fields_y g bsize (Suc n) fs (pack_multi_y g (int n * bsize) f bufs)"

section \<open>The exchange of a batch\<close>

type_synonym 'a batch = "'a field list \<times> 'a halo_buffers"

definition count_x_total :: "exchanger \<Rightarrow> 'a field list \<Rightarrow> int" where
  "count_x_total ex fs = int (length fs) * buffer_size_x_3d ex"

definition count_y_total :: "exchanger \<Rightarrow> 'a field list \<Rightarrow> int" where
  "count_y_total ex fs = int (length fs) * buffer_size_y_3d ex"

text \<open>\<open>Kokkos::resize(v, n)\<close> keeps the entries of \<open>v\<close> below \<open>n\<close> and sets new ones to zero.\<close>

definition view_resize :: "int \<Rightarrow> int \<Rightarrow> (int \<Rightarrow> 'a) \<Rightarrow> int \<Rightarrow> ('a :: zero)" where
  "view_resize old n v = (\<lambda>i. if i < min old n then v i else 0)"

definition resize_buffers :: "exchanger \<Rightarrow> 'a field list \<Rightarrow> 'a halo_buffers \<Rightarrow> ('a :: zero) halo_buffers" where
  "resize_buffers ex fs b =
     (let cx = count_x_total ex fs; cy = count_y_total ex fs;
          b1 = (if x_extent b < cx
                then b\<lparr>send_x_left := view_resize (x_extent b) cx (send_x_left b),
                       recv_x_left := view_resize (x_extent b) cx (recv_x_left b),
                       send_x_right := view_resize (x_extent b) cx (send_x_right b),
                       recv_x_right := view_resize (x_extent b) cx (recv_x_right b),
                       x_extent := cx\<rparr>
                else b)
      in if y_extent b1 < cy
         then b1\<lparr>send_y_bottom := view_resize (y_extent b1) cy (send_y_bottom b1),
                 recv_y_bottom := view_resize (y_extent b1) cy (recv_y_bottom b1),
                 send_y_top := view_resize (y_extent b1) cy (send_y_top b1),
                 recv_y_top := view_resize (y_extent b1) cy (recv_y_top b1),
                 y_extent := cy\<rparr>
         else b1)"

definition fill_singletons :: "exchanger \<Rightarrow> 'a field list \<Rightarrow> 'a field list" where
  "fill_singletons ex fs =
     (let g = grid_ref ex; h = get_halo_cells g;
          fs1 = (if is_singleton_y g then map (fill_singleton_y_halo h h) fs else fs)
      in if is_singleton_x g then map (fill_singleton_x_halo h h) fs1 else fs1)"

definition post_multi_x :: "exchanger \<Rightarrow> 'a batch \<Rightarrow> 'a request list \<times> 'a batch" where
  "post_multi_x ex s =
     (let (fs, b) = s; cnt = count_x_total ex fs
      in if cnt > 0 \<and> \<not> is_singleton_x (grid_ref ex) then
           (let (l, r) = pack_fields_x (grid_ref ex) (buffer_size_x_3d ex) 0 fs (send_x_left b, send_x_right b)
            in (irecv (neighbor_right ex) X_right SEND_TO_LEFT cnt @
                irecv (neighbor_left ex) X_left SEND_TO_RIGHT cnt @
                isend (neighbor_left ex) SEND_TO_LEFT cnt l @
                isend (neighbor_right ex) SEND_TO_RIGHT cnt r,
                fs, b\<lparr>send_x_left := l, send_x_right := r\<rparr>))
         else ([], fs, b))"

definition wait_multi_x :: "exchanger \<Rightarrow> 'a mailbox \<Rightarrow> 'a request list \<Rightarrow> 'a batch \<Rightarrow> 'a batch" where
  "wait_multi_x ex mail reqs s =
     (let (fs, b) = s
      in if count_x_total ex fs > 0 \<and> \<not> is_singleton_x (grid_ref ex) then
           (let b' = (if reqs \<noteq> [] then waitall mail reqs b else b)
            in (map (\<lambda>(n, f). unpack_multi_x ex (int n * buffer_size_x_3d ex)
                   (recv_x_left b') (recv_x_right b') f) (enumerate 0 fs), b'))
         else s)"

definition post_multi_y :: "exchanger \<Rightarrow> 'a batch \<Rightarrow> 'a request list \<times> 'a batch" where
  "post_multi_y ex s =
     (let (fs, b) = s; cnt = count_y_total ex fs
      in if cnt > 0 \<and> \<not> is_singleton_y (grid_ref ex) then
           (let (bot, top) = pack_fields_y (grid_ref ex) (buffer_size_y_3d ex) 0 fs (send_y_bottom b, send_y_top b)
            in (irecv (neighbor_bottom ex) Y_bottom SEND_TO_TOP cnt @
                irecv (neighbor_top ex) Y_top SEND_TO_BOTTOM cnt @
                isend (neighbor_top ex) SEND_TO_TOP cnt top @
                isend (neighbor_bottom ex) SEND_TO_BOTTOM cnt bot,
                fs, b\<lparr>send_y_bottom := bot, send_y_top := top\<rparr>))
         else ([], fs, b))"

definition wait_multi_y :: "exchanger \<Rightarrow> 'a mailbox \<Rightarrow> 'a request list \<Rightarrow> 'a batch \<Rightarrow> 'a batch" where
  "wait_multi_y ex mail reqs s =
     (let (fs, b) = s
      in if count_y_total ex fs > 0 \<and> \<not> is_singleton_y (grid_ref ex) then
           (let b' = (if reqs \<noteq> [] then waitall mail reqs b else b)
            in (map (\<lambda>(n, f). unpack_multi_y ex (int n * buffer_size_y_3d ex)
                   (recv_y_bottom b') (recv_y_top b') f) (enumerate 0 fs), b'))
         else s)"

definition begin_multiple :: "exchanger \<Rightarrow> 'a batch \<Rightarrow> ('a :: zero) batch" where
  "begin_multiple ex s = (fill_singletons ex (fst s), resize_buffers ex (fst s) (snd s))"

definition exchange_multiple_halos ::
  "exchanger \<Rightarrow> 'a mailbox \<Rightarrow> 'a mailbox \<Rightarrow> 'a batch \<Rightarrow> ('a :: zero) batch" where
  "exchange_multiple_halos ex mail_x mail_y s =
     (if fst s = [] then s
      else if get_halo_cells (grid_ref ex) = 0 then s
      else (let (reqs_x, s1) = post_multi_x ex (begin_multiple ex s);
                s2 = wait_multi_x ex mail_x reqs_x s1;
                (reqs_y, s3) = post_multi_y ex s2
            in wait_multi_y ex mail_y reqs_y s3))"

section \<open>The batch on every process\<close>

definition multi_x_round ::
  "'a delivery \<Rightarrow> (nat \<Rightarrow> exchanger) \<Rightarrow> (nat \<Rightarrow> 'a batch) \<Rightarrow> nat \<Rightarrow> 'a batch" where
  "multi_x_round deliver ex st =
     (let posted = (\<lambda>r. post_multi_x (ex r) (st r)); mail = deliver (\<lambda>r. fst (posted r))
      in (\<lambda>r. wait_multi_x (ex r) (mail r) (fst (posted r)) (snd (posted r))))"

definition multi_y_round ::
  "'a delivery \<Rightarrow> (nat \<Rightarrow> exchanger) \<Rightarrow> (nat \<Rightarrow> 'a batch) \<Rightarrow> nat \<Rightarrow> 'a batch" where
  "multi_y_round deliver ex st =
     (let posted = (\<lambda>r. post_multi_y (ex r) (st r)); mail = deliver (\<lambda>r. fst (posted r))
      in (\<lambda>r. wait_multi_y (ex r) (mail r) (fst (posted r)) (snd (posted r))))"

definition exchange_multiple_halos_all ::
  "'a delivery \<Rightarrow> (nat \<Rightarrow> exchanger) \<Rightarrow> (nat \<Rightarrow> 'a batch) \<Rightarrow> nat \<Rightarrow> ('a :: zero) batch" where
  "exchange_multiple_halos_all deliver ex st =
     (let st0 = (\<lambda>r. begin_multiple (ex r) (st r));
          posted_x = (\<lambda>r. post_multi_x (ex r) (st0 r));
          mail_x = deliver (\<lambda>r. fst (posted_x r));
          st1 = multi_x_round deliver ex st0;
          posted_y = (\<lambda>r. post_multi_y (ex r) (st1 r));
          mail_y = deliver (\<lambda>r. fst (posted_y r))
      in (\<lambda>r. exchange_multiple_halos (ex r) (mail_x r) (mail_y r) (st r)))"

lemma exchange_multiple_halos_all_rounds:
  assumes "fst (st r) \<noteq> []" and "get_halo_cells (grid_ref (ex r)) \<noteq> 0"
  shows "exchange_multiple_halos_all deliver ex st r =
    multi_y_round deliver ex (multi_x_round deliver ex (\<lambda>r. begin_multiple (ex r) (st r))) r"
  using assms
  by (simp add: exchange_multiple_halos_all_def exchange_multiple_halos_def multi_x_round_def
      multi_y_round_def Let_def case_prod_beta)

section \<open>Messages of a batch\<close>

definition covers :: "grid \<Rightarrow> 'a field \<Rightarrow> bool" where
  "covers g f \<longleftrightarrow> field_wf f \<and> fdim f = 3 \<and> ext_z f = get_local_total_points_z g \<and>
     ext_y f = get_local_total_points_y g \<and> ext_x f = get_local_total_points_x g"

lemma coversD:
  assumes "covers g f"
  shows "field_wf f" "2 \<le> fdim f" "fdim f = 3" "ext_w f = 1" "ext_z f = get_local_total_points_z g"
    "ext_y f = get_local_total_points_y g" "ext_x f = get_local_total_points_x g"
  using assms by (auto simp: covers_def field_wf_def)

interpretation multi_x_pack: kernel "mdrange4 0 0 0 0 nw nz' ny' h" "\<lambda>c. off + x_index nz' ny' h c"
  "\<lambda>c (_ :: int \<Rightarrow> 'a). src c" for nw nz' ny' h off src
  using x_index_inj [of nz' ny' h nw] by unfold_locales (auto simp: range_simps inj_on_def)

interpretation multi_y_pack: kernel "mdrange4 0 0 0 0 nw nz' nx' h" "\<lambda>c. off + y_index nz' nx' h c"
  "\<lambda>c (_ :: int \<Rightarrow> 'a). src c" for nw nz' nx' h off src
  using y_index_inj [of nz' nx' h nw] by unfold_locales (auto simp: range_simps inj_on_def)

lemma pack_multi_x_4:
  assumes "covers g f"
  shows "pack_multi_x g off f (l, r) =
    (let h = get_halo_cells g; xs = mdrange4 0 0 0 0 (ext_w f) (ext_z f) (ext_y f) h;
         idx = (\<lambda>c. off + x_index (ext_z f) (ext_y f) h c)
     in (parallel_for xs (assign idx (\<lambda>c _. case c of (w, k, j, ih) \<Rightarrow> fdata f (w, k, j, h + ih))) l,
         parallel_for xs (assign idx (\<lambda>c _. case c of (w, k, j, ih) \<Rightarrow> fdata f (w, k, j,
           h + local_physical_size (dim_x g) - h + ih))) r))"
  unfolding Let_def parallel_for_pair [symmetric] pack_multi_x_def parallel_for_3_as_4 coversD [OF assms]
  by (rule parallel_for_cong [OF refl])
    (auto simp: x_index_def assign_def fun_eq_iff range_simps dest!: unit_index simp del: fun_upd_apply)

lemma pack_multi_y_4:
  assumes "covers g f"
  shows "pack_multi_y g off f (b, t) =
    (let h = get_halo_cells g; xs = mdrange4 0 0 0 0 (ext_w f) (ext_z f) (ext_x f) h;
         idx = (\<lambda>c. off + y_index (ext_z f) (ext_x f) h c)
     in (parallel_for xs (assign idx (\<lambda>c _. case c of (w, k, i, jh) \<Rightarrow> fdata f (w, k, h + jh, i))) b,
         parallel_for xs (assign idx (\<lambda>c _. case c of (w, k, i, jh) \<Rightarrow> fdata f (w, k,
           h + local_physical_size (dim_y g) - h + jh, i))) t))"
  unfolding Let_def parallel_for_pair [symmetric] pack_multi_y_def parallel_for_3_as_4 coversD [OF assms]
  by (rule parallel_for_cong [OF refl])
    (auto simp: y_index_def assign_def fun_eq_iff range_simps dest!: unit_index simp del: fun_upd_apply)

lemma pack_multi_x_message:
  assumes "covers g f"
  shows "x_message_left g (get_halo_cells g) f (subview off (fst (pack_multi_x g off f bufs)))"
    and "x_message_right g (get_halo_cells g) f (subview off (snd (pack_multi_x g off f bufs)))"
  by (cases bufs, auto simp: x_message_left_def x_message_right_def subview_def Let_def in_rows_def range_simps
      pack_multi_x_4 [OF assms] multi_x_pack.result)+

lemma pack_multi_y_message:
  assumes "covers g f"
  shows "y_message_bottom g (get_halo_cells g) f (subview off (fst (pack_multi_y g off f bufs)))"
    and "y_message_top g (get_halo_cells g) f (subview off (snd (pack_multi_y g off f bufs)))"
  by (cases bufs, auto simp: y_message_bottom_def y_message_top_def subview_def Let_def in_columns_def range_simps
      pack_multi_y_4 [OF assms] multi_y_pack.result)+

text \<open>A field writes only its own part of the buffers.\<close>

definition x_part :: "grid \<Rightarrow> int" where
  "x_part g = get_halo_cells g * get_local_total_points_y g * get_local_total_points_z g"

definition y_part :: "grid \<Rightarrow> int" where
  "y_part g = get_halo_cells g * get_local_total_points_x g * get_local_total_points_z g"

lemma pack_multi_x_frame:
  assumes "covers g f" and "i < off \<or> off + x_part g \<le> i"
  shows "fst (pack_multi_x g off f bufs) i = fst bufs i" "snd (pack_multi_x g off f bufs) i = snd bufs i"
proof -
  have other: "i \<notin> (\<lambda>c. off + x_index (ext_z f) (ext_y f) (get_halo_cells g) c) `
      set (mdrange4 0 0 0 0 (ext_w f) (ext_z f) (ext_y f) (get_halo_cells g))"
  proof
    assume "i \<in> (\<lambda>c. off + x_index (ext_z f) (ext_y f) (get_halo_cells g) c) `
      set (mdrange4 0 0 0 0 (ext_w f) (ext_z f) (ext_y f) (get_halo_cells g))"
    then obtain c where c: "c \<in> set (mdrange4 0 0 0 0 (ext_w f) (ext_z f) (ext_y f) (get_halo_cells g))"
      and i: "i = off + x_index (ext_z f) (ext_y f) (get_halo_cells g) c" by blast
    have "ext_w f * ext_z f * ext_y f * get_halo_cells g = x_part g"
      unfolding coversD(4-7) [OF assms(1)] x_part_def by simp
    with x_index_bound [OF c] i assms(2) show False by linarith
  qed
  show "fst (pack_multi_x g off f bufs) i = fst bufs i" "snd (pack_multi_x g off f bufs) i = snd bufs i"
    by (cases bufs, simp only: pack_multi_x_4 [OF assms(1)] Let_def fst_conv snd_conv parallel_for_frame [OF other])+
qed

lemma pack_multi_y_frame:
  assumes "covers g f" and "i < off \<or> off + y_part g \<le> i"
  shows "fst (pack_multi_y g off f bufs) i = fst bufs i" "snd (pack_multi_y g off f bufs) i = snd bufs i"
proof -
  have other: "i \<notin> (\<lambda>c. off + y_index (ext_z f) (ext_x f) (get_halo_cells g) c) `
      set (mdrange4 0 0 0 0 (ext_w f) (ext_z f) (ext_x f) (get_halo_cells g))"
  proof
    assume "i \<in> (\<lambda>c. off + y_index (ext_z f) (ext_x f) (get_halo_cells g) c) `
      set (mdrange4 0 0 0 0 (ext_w f) (ext_z f) (ext_x f) (get_halo_cells g))"
    then obtain c where c: "c \<in> set (mdrange4 0 0 0 0 (ext_w f) (ext_z f) (ext_x f) (get_halo_cells g))"
      and i: "i = off + y_index (ext_z f) (ext_x f) (get_halo_cells g) c" by blast
    have "ext_w f * ext_z f * get_halo_cells g * ext_x f = y_part g"
      unfolding coversD(4-7) [OF assms(1)] y_part_def by simp
    with y_index_bound [OF c] i assms(2) show False by linarith
  qed
  show "fst (pack_multi_y g off f bufs) i = fst bufs i" "snd (pack_multi_y g off f bufs) i = snd bufs i"
    by (cases bufs, simp only: pack_multi_y_4 [OF assms(1)] Let_def fst_conv snd_conv parallel_for_frame [OF other])+
qed

lemma x_count: "covers g f \<Longrightarrow> halo_count_x (get_halo_cells g) f = x_part g"
  using coversD [of g f] by (simp add: halo_count_x_eq x_part_def)

lemma x_message_cong:
  assumes f: "covers g f" and eq: "\<And>i. 0 \<le> i \<Longrightarrow> i < x_part g \<Longrightarrow> q i = p i"
  shows "x_message_left g (get_halo_cells g) f p \<Longrightarrow> x_message_left g (get_halo_cells g) f q"
    and "x_message_right g (get_halo_cells g) f p \<Longrightarrow> x_message_right g (get_halo_cells g) f q"
proof -
  have read: "q (x_index (ext_z f) (ext_y f) (get_halo_cells g) c) = p (x_index (ext_z f) (ext_y f) (get_halo_cells g) c)"
    if "c = (w, k, j, m)" "in_rows f (w, k, j, 0)" "0 \<le> m" "m < get_halo_cells g" for c w k j m
    using x_index_in_count [OF coversD(1,2) [OF f] that(2-4)] eq that(1) x_count [OF f] by simp
  show "x_message_left g (get_halo_cells g) f p \<Longrightarrow> x_message_left g (get_halo_cells g) f q"
    "x_message_right g (get_halo_cells g) f p \<Longrightarrow> x_message_right g (get_halo_cells g) f q"
    unfolding x_message_left_def x_message_right_def using read [OF refl] by simp_all
qed

lemma pack_fields_x_frame:
  assumes "\<forall>f \<in> set fs. covers g f" and "0 \<le> x_part g" and "i < int n * x_part g"
  shows "fst (pack_fields_x g (x_part g) n fs bufs) i = fst bufs i \<and>
    snd (pack_fields_x g (x_part g) n fs bufs) i = snd bufs i"
  using assms
proof (induction fs arbitrary: n bufs)
  case Nil
  then show ?case by simp
next
  case (Cons f fs)
  have "i < int (Suc n) * x_part g" using Cons.prems by (simp add: algebra_simps)
  with Cons show ?case by (simp add: pack_multi_x_frame)
qed

lemma pack_fields_x_message:
  assumes "\<forall>f \<in> set fs. covers g f" and "0 \<le> x_part g" and "m < length fs"
  shows "x_message_left g (get_halo_cells g) (fs ! m)
      (subview (int (n + m) * x_part g) (fst (pack_fields_x g (x_part g) n fs bufs))) \<and>
    x_message_right g (get_halo_cells g) (fs ! m)
      (subview (int (n + m) * x_part g) (snd (pack_fields_x g (x_part g) n fs bufs)))"
  using assms
proof (induction fs arbitrary: n m bufs)
  case Nil
  then show ?case by simp
next
  case (Cons f fs)
  show ?case
  proof (cases m)
    case (Suc m')
    with Cons.prems show ?thesis using Cons.IH [of m' "Suc n" "pack_multi_x g (int n * x_part g) f bufs"] by simp
  next
    case 0
    let ?mid = "pack_multi_x g (int n * x_part g) f bufs"
    have f: "covers g f" using Cons.prems by simp
    have "int n * x_part g + i < int (Suc n) * x_part g" if "i < x_part g" for i
      using that by (simp add: algebra_simps)
    then have same: "subview (int n * x_part g) (fst (pack_fields_x g (x_part g) (Suc n) fs ?mid)) i =
        subview (int n * x_part g) (fst ?mid) i"
      "subview (int n * x_part g) (snd (pack_fields_x g (x_part g) (Suc n) fs ?mid)) i =
        subview (int n * x_part g) (snd ?mid) i" if "i < x_part g" for i
      using that Cons.prems pack_fields_x_frame [of fs g _ "Suc n" ?mid] by (simp_all add: subview_def)
    show ?thesis
      using x_message_cong(1) [OF f same(1) pack_multi_x_message(1) [OF f]]
        x_message_cong(2) [OF f same(2) pack_multi_x_message(2) [OF f]] by (simp add: 0)
  qed
qed


lemma y_count: "covers g f \<Longrightarrow> halo_count_y (get_halo_cells g) f = y_part g"
  using coversD [of g f] by (simp add: halo_count_y_eq y_part_def)

lemma y_message_cong:
  assumes f: "covers g f" and eq: "\<And>i. 0 \<le> i \<Longrightarrow> i < y_part g \<Longrightarrow> q i = p i"
  shows "y_message_bottom g (get_halo_cells g) f p \<Longrightarrow> y_message_bottom g (get_halo_cells g) f q"
    and "y_message_top g (get_halo_cells g) f p \<Longrightarrow> y_message_top g (get_halo_cells g) f q"
proof -
  have read: "q (y_index (ext_z f) (ext_x f) (get_halo_cells g) c) = p (y_index (ext_z f) (ext_x f) (get_halo_cells g) c)"
    if "c = (w, k, i, m)" "in_columns f (w, k, 0, i)" "0 \<le> m" "m < get_halo_cells g" for c w k i m
    using y_index_in_count [OF coversD(1,2) [OF f] that(2-4)] eq that(1) y_count [OF f] by simp
  show "y_message_bottom g (get_halo_cells g) f p \<Longrightarrow> y_message_bottom g (get_halo_cells g) f q"
    "y_message_top g (get_halo_cells g) f p \<Longrightarrow> y_message_top g (get_halo_cells g) f q"
    unfolding y_message_bottom_def y_message_top_def using read [OF refl] by simp_all
qed

lemma pack_fields_y_frame:
  assumes "\<forall>f \<in> set fs. covers g f" and "0 \<le> y_part g" and "i < int n * y_part g"
  shows "fst (pack_fields_y g (y_part g) n fs bufs) i = fst bufs i \<and>
    snd (pack_fields_y g (y_part g) n fs bufs) i = snd bufs i"
  using assms
proof (induction fs arbitrary: n bufs)
  case Nil
  then show ?case by simp
next
  case (Cons f fs)
  have "i < int (Suc n) * y_part g" using Cons.prems by (simp add: algebra_simps)
  with Cons show ?case by (simp add: pack_multi_y_frame)
qed

lemma pack_fields_y_message:
  assumes "\<forall>f \<in> set fs. covers g f" and "0 \<le> y_part g" and "m < length fs"
  shows "y_message_bottom g (get_halo_cells g) (fs ! m)
      (subview (int (n + m) * y_part g) (fst (pack_fields_y g (y_part g) n fs bufs))) \<and>
    y_message_top g (get_halo_cells g) (fs ! m)
      (subview (int (n + m) * y_part g) (snd (pack_fields_y g (y_part g) n fs bufs)))"
  using assms
proof (induction fs arbitrary: n m bufs)
  case Nil
  then show ?case by simp
next
  case (Cons f fs)
  show ?case
  proof (cases m)
    case (Suc m')
    with Cons.prems show ?thesis using Cons.IH [of m' "Suc n" "pack_multi_y g (int n * y_part g) f bufs"] by simp
  next
    case 0
    let ?mid = "pack_multi_y g (int n * y_part g) f bufs"
    have f: "covers g f" using Cons.prems by simp
    have "int n * y_part g + i < int (Suc n) * y_part g" if "i < y_part g" for i
      using that by (simp add: algebra_simps)
    then have same: "subview (int n * y_part g) (fst (pack_fields_y g (y_part g) (Suc n) fs ?mid)) i =
        subview (int n * y_part g) (fst ?mid) i"
      "subview (int n * y_part g) (snd (pack_fields_y g (y_part g) (Suc n) fs ?mid)) i =
        subview (int n * y_part g) (snd ?mid) i" if "i < y_part g" for i
      using that Cons.prems pack_fields_y_frame [of fs g _ "Suc n" ?mid] by (simp_all add: subview_def)
    show ?thesis
      using y_message_cong(1) [OF f same(1) pack_multi_y_message(1) [OF f]]
        y_message_cong(2) [OF f same(2) pack_multi_y_message(2) [OF f]] by (simp add: 0)
  qed
qed

lemma run_total_z:
  assumes "run_ok R" "r \<in> run_ranks R"
  shows "get_local_total_points_z (run_grid R r) = global_size (dim_z (run_global R)) + 2 * run_halo R"
  by (simp add: run_grid_eq(1) [OF assms] get_local_total_points_z_def axis_simps run_halo_def)

definition batch_ok :: "run \<Rightarrow> nat \<Rightarrow> (nat \<Rightarrow> 'a batch) \<Rightarrow> bool" where
  "batch_ok R N st \<longleftrightarrow>
     (\<forall>r \<in> run_ranks R. length (fst (st r)) = N \<and> (\<forall>f \<in> set (fst (st r)). covers (run_grid R r) f))"


lemma x_part_size:
  assumes "run_ok R" "r \<in> run_ranks R"
  shows "buffer_size_x_3d (run_exchanger R r) = x_part (run_grid R r)"
  using run_okD(5) [OF assms(1)] run_grid_simps(1) [OF assms]
  by (simp add: run_exchanger_def halo_exchanger_def Let_def x_part_def)

lemma unpack_multi_x_eq:
  assumes "covers (grid_ref ex) f"
  shows "unpack_multi_x ex off recv_l recv_r f =
    unpack_x ex (get_halo_cells (grid_ref ex)) (subview off recv_l) (subview off recv_r) f"
  by (simp add: unpack_multi_x_def unpack_x_def Let_def coversD(3,5-7) [OF assms])

lemma x_neighbor_part:
  assumes R: "run_ok R" "r \<in> run_ranks R" "s \<in> run_ranks R" "fst (run_coords R s) = fst (run_coords R r)"
  shows "x_part (run_grid R s) = x_part (run_grid R r)"
proof -
  have "dim_y (run_grid R s) = dim_y (run_grid R r)"
    using R(4) by (simp add: run_axes [OF R(1,2)] run_axes [OF R(1,3)])
  then show ?thesis
    by (simp add: x_part_def run_grid_simps [OF R(1,2)] run_grid_simps [OF R(1,3)]
        run_total_z [OF R(1,2)] run_total_z [OF R(1,3)])
qed

lemma post_multi_x_requests:
  assumes B: "batch_ok R N st" and R: "run_ok R" and r: "r \<in> run_ranks R"
    and N: "0 < N" "0 < x_part (run_grid R r)" and ns: "\<not> is_singleton_x (run_global R)"
  obtains l rr b' where "post_multi_x (run_exchanger R r) (st r) =
      (irecv (snd (run_shift R r 1)) X_right SEND_TO_LEFT (int N * x_part (run_grid R r)) @
       irecv (fst (run_shift R r 1)) X_left SEND_TO_RIGHT (int N * x_part (run_grid R r)) @
       isend (fst (run_shift R r 1)) SEND_TO_LEFT (int N * x_part (run_grid R r)) l @
       isend (snd (run_shift R r 1)) SEND_TO_RIGHT (int N * x_part (run_grid R r)) rr, fst (st r), b')"
    and "\<forall>m < N. x_message_left (run_grid R r) (run_halo R) (fst (st r) ! m) (subview (int m * x_part (run_grid R r)) l)"
    and "\<forall>m < N. x_message_right (run_grid R r) (run_halo R) (fst (st r) ! m) (subview (int m * x_part (run_grid R r)) rr)"
proof -
  let ?g = "run_grid R r"
  obtain l rr where lr: "pack_fields_x ?g (x_part ?g) 0 (fst (st r)) (send_x_left (snd (st r)), send_x_right (snd (st r))) = (l, rr)"
    by fastforce
  have len: "length (fst (st r)) = N" and cov: "\<forall>f \<in> set (fst (st r)). covers ?g f"
    using B r by (auto simp: batch_ok_def)
  have msg: "x_message_left ?g (run_halo R) (fst (st r) ! m) (subview (int m * x_part ?g) l) \<and>
      x_message_right ?g (run_halo R) (fst (st r) ! m) (subview (int m * x_part ?g) rr)" if "m < N" for m
    using pack_fields_x_message [OF cov, of m 0] that len N(2) lr run_grid_simps(1) [OF R r]
    by (metis add_0 fst_conv less_imp_le snd_conv)
  show ?thesis
    by (rule that [where l = l and rr = rr and b' = "(snd (st r))\<lparr>send_x_left := l, send_x_right := rr\<rparr>"])
       (use msg N ns lr len in \<open>simp_all add: post_multi_x_def count_x_total_def case_prod_beta Let_def x_part_size [OF R r]
          run_grid_simps [OF R r]\<close>)
qed

lemma multi_x_mail:
  assumes B: "batch_ok R N st" and R: "run_ok R" and D: "delivers deliver" and r: "r \<in> run_ranks R"
    and N: "0 < N" "0 < x_part (run_grid R r)" and ns: "\<not> is_singleton_x (run_global R)"
    and mail: "mail = deliver (\<lambda>r. fst (post_multi_x (run_exchanger R r) (st r))) r"
    and c: "c = int N * x_part (run_grid R r)" and m: "m < N"
  shows "fst (run_shift R r 1) = Some s \<Longrightarrow> fst (mail s (tag_code SEND_TO_RIGHT)) = c \<and>
      x_message_right (run_grid R s) (run_halo R) (fst (st s) ! m)
        (subview (int m * x_part (run_grid R r)) (snd (mail s (tag_code SEND_TO_RIGHT))))"
    and "snd (run_shift R r 1) = Some s \<Longrightarrow> fst (mail s (tag_code SEND_TO_LEFT)) = c \<and>
      x_message_left (run_grid R s) (run_halo R) (fst (st s) ! m)
        (subview (int m * x_part (run_grid R r)) (snd (mail s (tag_code SEND_TO_LEFT))))"
proof -
  {
    assume s0: "fst (run_shift R r 1) = Some s"
    have s: "s \<in> run_ranks R" "snd (run_shift R s 1) = Some r" "fst (run_coords R s) = fst (run_coords R r)"
      using x_neighbor_back(1) [OF R r s0] by auto
    note part = x_neighbor_part [OF R r s(1,3)]
    obtain l rr b' where p: "post_multi_x (run_exchanger R s) (st s) = (irecv (snd (run_shift R s 1)) X_right SEND_TO_LEFT (int N * x_part (run_grid R s)) @
       irecv (fst (run_shift R s 1)) X_left SEND_TO_RIGHT (int N * x_part (run_grid R s)) @
       isend (fst (run_shift R s 1)) SEND_TO_LEFT (int N * x_part (run_grid R s)) l @
       isend (snd (run_shift R s 1)) SEND_TO_RIGHT (int N * x_part (run_grid R s)) rr, fst (st s), b')"
      and msg: "\<forall>m < N. x_message_right (run_grid R s) (run_halo R) (fst (st s) ! m) (subview (int m * x_part (run_grid R s)) rr)"
      using N ns part by (metis post_multi_x_requests [OF B R s(1)])
    have "mail s (tag_code SEND_TO_RIGHT) = (c, rr)"
      using D p s(2) unfolding delivers_def mail c part by (simp add: sends_to_x del: tag_code.simps)
    with msg m part show "fst (mail s (tag_code SEND_TO_RIGHT)) = c \<and>
      x_message_right (run_grid R s) (run_halo R) (fst (st s) ! m)
        (subview (int m * x_part (run_grid R r)) (snd (mail s (tag_code SEND_TO_RIGHT))))" by simp
  }
  {
    assume s0: "snd (run_shift R r 1) = Some s"
    have s: "s \<in> run_ranks R" "fst (run_shift R s 1) = Some r" "fst (run_coords R s) = fst (run_coords R r)"
      using x_neighbor_back(2) [OF R r s0] by auto
    note part = x_neighbor_part [OF R r s(1,3)]
    obtain l rr b' where p: "post_multi_x (run_exchanger R s) (st s) = (irecv (snd (run_shift R s 1)) X_right SEND_TO_LEFT (int N * x_part (run_grid R s)) @
       irecv (fst (run_shift R s 1)) X_left SEND_TO_RIGHT (int N * x_part (run_grid R s)) @
       isend (fst (run_shift R s 1)) SEND_TO_LEFT (int N * x_part (run_grid R s)) l @
       isend (snd (run_shift R s 1)) SEND_TO_RIGHT (int N * x_part (run_grid R s)) rr, fst (st s), b')"
      and msg: "\<forall>m < N. x_message_left (run_grid R s) (run_halo R) (fst (st s) ! m) (subview (int m * x_part (run_grid R s)) l)"
      using N ns part by (metis post_multi_x_requests [OF B R s(1)])
    have "mail s (tag_code SEND_TO_LEFT) = (c, l)"
      using D p s(2) unfolding delivers_def mail c part by (simp add: sends_to_x del: tag_code.simps)
    with msg m part show "fst (mail s (tag_code SEND_TO_LEFT)) = c \<and>
      x_message_left (run_grid R s) (run_halo R) (fst (st s) ! m)
        (subview (int m * x_part (run_grid R r)) (snd (mail s (tag_code SEND_TO_LEFT))))" by simp
  }
qed


lemma y_part_size:
  assumes "run_ok R" "r \<in> run_ranks R"
  shows "buffer_size_y_3d (run_exchanger R r) = y_part (run_grid R r)"
  using run_okD(5) [OF assms(1)] run_grid_simps(1) [OF assms]
  by (simp add: run_exchanger_def halo_exchanger_def Let_def y_part_def)

lemma unpack_multi_y_eq:
  assumes "covers (grid_ref ex) f"
  shows "unpack_multi_y ex off recv_l recv_r f =
    unpack_y ex (get_halo_cells (grid_ref ex)) (subview off recv_l) (subview off recv_r) f"
  by (simp add: unpack_multi_y_def unpack_y_def Let_def coversD(3,5-7) [OF assms])

lemma y_neighbor_part:
  assumes R: "run_ok R" "r \<in> run_ranks R" "s \<in> run_ranks R" "snd (run_coords R s) = snd (run_coords R r)"
  shows "y_part (run_grid R s) = y_part (run_grid R r)"
proof -
  have "dim_x (run_grid R s) = dim_x (run_grid R r)"
    using R(4) by (simp add: run_axes [OF R(1,2)] run_axes [OF R(1,3)])
  then show ?thesis
    by (simp add: y_part_def run_grid_simps [OF R(1,2)] run_grid_simps [OF R(1,3)]
        run_total_z [OF R(1,2)] run_total_z [OF R(1,3)])
qed

lemma post_multi_y_requests:
  assumes B: "batch_ok R N st" and R: "run_ok R" and r: "r \<in> run_ranks R"
    and N: "0 < N" "0 < y_part (run_grid R r)" and ns: "\<not> is_singleton_y (run_global R)"
  obtains l rr b' where "post_multi_y (run_exchanger R r) (st r) =
      (irecv (fst (run_shift R r 0)) Y_bottom SEND_TO_TOP (int N * y_part (run_grid R r)) @
       irecv (snd (run_shift R r 0)) Y_top SEND_TO_BOTTOM (int N * y_part (run_grid R r)) @
       isend (snd (run_shift R r 0)) SEND_TO_TOP (int N * y_part (run_grid R r)) rr @
       isend (fst (run_shift R r 0)) SEND_TO_BOTTOM (int N * y_part (run_grid R r)) l, fst (st r), b')"
    and "\<forall>m < N. y_message_bottom (run_grid R r) (run_halo R) (fst (st r) ! m) (subview (int m * y_part (run_grid R r)) l)"
    and "\<forall>m < N. y_message_top (run_grid R r) (run_halo R) (fst (st r) ! m) (subview (int m * y_part (run_grid R r)) rr)"
proof -
  let ?g = "run_grid R r"
  obtain l rr where lr: "pack_fields_y ?g (y_part ?g) 0 (fst (st r)) (send_y_bottom (snd (st r)), send_y_top (snd (st r))) = (l, rr)"
    by fastforce
  have len: "length (fst (st r)) = N" and cov: "\<forall>f \<in> set (fst (st r)). covers ?g f"
    using B r by (auto simp: batch_ok_def)
  have msg: "y_message_bottom ?g (run_halo R) (fst (st r) ! m) (subview (int m * y_part ?g) l) \<and>
      y_message_top ?g (run_halo R) (fst (st r) ! m) (subview (int m * y_part ?g) rr)" if "m < N" for m
    using pack_fields_y_message [OF cov, of m 0] that len N(2) lr run_grid_simps(1) [OF R r]
    by (metis add_0 fst_conv less_imp_le snd_conv)
  show ?thesis
    by (rule that [where l = l and rr = rr and b' = "(snd (st r))\<lparr>send_y_bottom := l, send_y_top := rr\<rparr>"])
       (use msg N ns lr len in \<open>simp_all add: post_multi_y_def count_y_total_def case_prod_beta Let_def y_part_size [OF R r]
          run_grid_simps [OF R r]\<close>)
qed

lemma multi_y_mail:
  assumes B: "batch_ok R N st" and R: "run_ok R" and D: "delivers deliver" and r: "r \<in> run_ranks R"
    and N: "0 < N" "0 < y_part (run_grid R r)" and ns: "\<not> is_singleton_y (run_global R)"
    and mail: "mail = deliver (\<lambda>r. fst (post_multi_y (run_exchanger R r) (st r))) r"
    and c: "c = int N * y_part (run_grid R r)" and m: "m < N"
  shows "fst (run_shift R r 0) = Some s \<Longrightarrow> fst (mail s (tag_code SEND_TO_TOP)) = c \<and>
      y_message_top (run_grid R s) (run_halo R) (fst (st s) ! m)
        (subview (int m * y_part (run_grid R r)) (snd (mail s (tag_code SEND_TO_TOP))))"
    and "snd (run_shift R r 0) = Some s \<Longrightarrow> fst (mail s (tag_code SEND_TO_BOTTOM)) = c \<and>
      y_message_bottom (run_grid R s) (run_halo R) (fst (st s) ! m)
        (subview (int m * y_part (run_grid R r)) (snd (mail s (tag_code SEND_TO_BOTTOM))))"
proof -
  {
    assume s0: "fst (run_shift R r 0) = Some s"
    have s: "s \<in> run_ranks R" "snd (run_shift R s 0) = Some r" "snd (run_coords R s) = snd (run_coords R r)"
      using y_neighbor_back(1) [OF R r s0] by auto
    note part = y_neighbor_part [OF R r s(1,3)]
    obtain l rr b' where p: "post_multi_y (run_exchanger R s) (st s) = (irecv (fst (run_shift R s 0)) Y_bottom SEND_TO_TOP (int N * y_part (run_grid R s)) @
       irecv (snd (run_shift R s 0)) Y_top SEND_TO_BOTTOM (int N * y_part (run_grid R s)) @
       isend (snd (run_shift R s 0)) SEND_TO_TOP (int N * y_part (run_grid R s)) rr @
       isend (fst (run_shift R s 0)) SEND_TO_BOTTOM (int N * y_part (run_grid R s)) l, fst (st s), b')"
      and msg: "\<forall>m < N. y_message_top (run_grid R s) (run_halo R) (fst (st s) ! m) (subview (int m * y_part (run_grid R s)) rr)"
      using N ns part by (metis post_multi_y_requests [OF B R s(1)])
    have "mail s (tag_code SEND_TO_TOP) = (c, rr)"
      using D p s(2) unfolding delivers_def mail c part by (simp add: sends_to_y del: tag_code.simps)
    with msg m part show "fst (mail s (tag_code SEND_TO_TOP)) = c \<and>
      y_message_top (run_grid R s) (run_halo R) (fst (st s) ! m)
        (subview (int m * y_part (run_grid R r)) (snd (mail s (tag_code SEND_TO_TOP))))" by simp
  }
  {
    assume s0: "snd (run_shift R r 0) = Some s"
    have s: "s \<in> run_ranks R" "fst (run_shift R s 0) = Some r" "snd (run_coords R s) = snd (run_coords R r)"
      using y_neighbor_back(2) [OF R r s0] by auto
    note part = y_neighbor_part [OF R r s(1,3)]
    obtain l rr b' where p: "post_multi_y (run_exchanger R s) (st s) = (irecv (fst (run_shift R s 0)) Y_bottom SEND_TO_TOP (int N * y_part (run_grid R s)) @
       irecv (snd (run_shift R s 0)) Y_top SEND_TO_BOTTOM (int N * y_part (run_grid R s)) @
       isend (snd (run_shift R s 0)) SEND_TO_TOP (int N * y_part (run_grid R s)) rr @
       isend (fst (run_shift R s 0)) SEND_TO_BOTTOM (int N * y_part (run_grid R s)) l, fst (st s), b')"
      and msg: "\<forall>m < N. y_message_bottom (run_grid R s) (run_halo R) (fst (st s) ! m) (subview (int m * y_part (run_grid R s)) l)"
      using N ns part by (metis post_multi_y_requests [OF B R s(1)])
    have "mail s (tag_code SEND_TO_BOTTOM) = (c, l)"
      using D p s(2) unfolding delivers_def mail c part by (simp add: sends_to_y del: tag_code.simps)
    with msg m part show "fst (mail s (tag_code SEND_TO_BOTTOM)) = c \<and>
      y_message_bottom (run_grid R s) (run_halo R) (fst (st s) ! m)
        (subview (int m * y_part (run_grid R r)) (snd (mail s (tag_code SEND_TO_BOTTOM))))" by simp
  }
qed

lemma waitall_nil: "waitall mail [] b = b"
  by (simp add: waitall_def)

lemma batch_covers:
  assumes "batch_ok R N st" "r \<in> run_ranks R" "m < N"
  shows "covers (run_grid R r) (fst (st r) ! m)"
  using assms by (auto simp: batch_ok_def)

lemma covers_fits:
  assumes R: "run_ok R" "r \<in> run_ranks R" and "covers (run_grid R r) f"
  shows "fits R 3 1 (global_size (dim_z (run_global R)) + 2 * run_halo R) r f"
  using coversD [OF assms(3)] by (simp add: fits_def run_total_z [OF R])

lemma part_in_batch:
  assumes "m < N" and "0 \<le> x" "x < P"
  shows "0 \<le> int m * P + x \<and> int m * P + x < int N * P"
  using radix_bound [of "int m" "int N" x P] assms by simp


lemma multi_x_cells:
  assumes B: "batch_ok R N st" and R: "run_ok R" and D: "delivers deliver" and r: "r \<in> run_ranks R"
    and ns: "\<not> is_singleton_x (run_global R)" and m: "m < N"
  shows "fdata (fst (multi_x_round deliver (run_exchanger R) st r) ! m) c =
    x_moved R (run_halo R) (\<lambda>r. fst (st r) ! m) r c"
proof -
  obtain w k j i where c: "c = (w, k, j, i)" by (cases c)
  let ?f = "fst (st r) ! m" and ?P = "x_part (run_grid R r)" and ?ex = "run_exchanger R r"
  have cov: "covers (run_grid R r) ?f" and len: "length (fst (st r)) = N"
    using batch_covers [OF B r m] B r by (auto simp: batch_ok_def)
  note f = coversD(1,2) [OF cov] and H = run_grid_simps(1) [OF R r]
  have N: "0 < N" using m by simp
  show ?thesis
  proof (cases "0 < ?P")
    case False
    have "\<not> in_rows ?f (w, k, j, 0)"
    proof
      assume inr: "in_rows ?f (w, k, j, 0)"
      then have "?P \<noteq> 0"
        using in_rows_count [OF inr f run_okD(5) [OF R]] x_count [OF cov] H by simp
      moreover have "0 \<le> ?P"
        using inr run_okD(5) [OF R] coversD(5-7) [OF cov] by (auto simp: x_part_def H in_rows_def)
      ultimately show False using False by simp
    qed
    moreover have "multi_x_round deliver (run_exchanger R) st r = st r"
      using False N len
      by (auto simp: multi_x_round_def Let_def post_multi_x_def wait_multi_x_def count_x_total_def
          x_part_size [OF R r] case_prod_beta zero_less_mult_iff)
    ultimately show ?thesis by (simp add: x_moved_def Let_def c in_rows_column [of ?f w k j i])
  next
    case P: True
    define mail where "mail = deliver (\<lambda>r. fst (post_multi_x (run_exchanger R r) (st r))) r"
    note M = multi_x_mail [OF B R D r N P ns mail_def refl m]
    have msgs: "\<And>s. fst (run_shift R r 1) = Some s \<Longrightarrow> x_message_right (run_grid R s) (run_halo R) (fst (st s) ! m)
        (subview (int m * ?P) (snd (mail s (tag_code SEND_TO_RIGHT))))"
      "\<And>s. snd (run_shift R r 1) = Some s \<Longrightarrow> x_message_left (run_grid R s) (run_halo R) (fst (st s) ! m)
        (subview (int m * ?P) (snd (mail s (tag_code SEND_TO_LEFT))))"
      using M by blast+
    obtain l rr b' where post: "post_multi_x ?ex (st r) = (irecv (snd (run_shift R r 1)) X_right SEND_TO_LEFT (int N * x_part (run_grid R r)) @
       irecv (fst (run_shift R r 1)) X_left SEND_TO_RIGHT (int N * x_part (run_grid R r)) @
       isend (fst (run_shift R r 1)) SEND_TO_LEFT (int N * x_part (run_grid R r)) l @
       isend (snd (run_shift R r 1)) SEND_TO_RIGHT (int N * x_part (run_grid R r)) rr, fst (st r), b')"
      by (rule post_multi_x_requests [OF B R r N P ns])
    define b'' where "b'' = waitall mail (fst (post_multi_x ?ex (st r))) b'"
    have eq: "fst (multi_x_round deliver (run_exchanger R) st r) ! m =
        unpack_x ?ex (run_halo R) (subview (int m * ?P) (recv_x_left b'')) (subview (int m * ?P) (recv_x_right b'')) ?f"
      using N P ns m cov len
      by (auto simp: multi_x_round_def Let_def wait_multi_x_def post count_x_total_def b''_def
          x_part_size [OF R r] run_grid_simps [OF R r] nth_enumerate_eq unpack_multi_x_eq waitall_nil
          mail_def [symmetric])
    have buf: "recv_x_left b'' = (case fst (run_shift R r 1) of None \<Rightarrow> recv_x_left b'
        | Some s \<Rightarrow> receive (int N * ?P) (mail s (tag_code SEND_TO_RIGHT)) (recv_x_left b'))"
      "recv_x_right b'' = (case snd (run_shift R r 1) of None \<Rightarrow> recv_x_right b'
        | Some s \<Rightarrow> receive (int N * ?P) (mail s (tag_code SEND_TO_LEFT)) (recv_x_right b'))"
      by (simp_all add: b''_def post waitall_x del: tag_code.simps One_nat_def)
    have idx: "0 \<le> int m * ?P + x_index (ext_z ?f) (ext_y ?f) (run_halo R) (w, k, j, q) \<and>
        int m * ?P + x_index (ext_z ?f) (ext_y ?f) (run_halo R) (w, k, j, q) < int N * ?P"
      if "in_rows ?f (w, k, j, 0)" "0 \<le> q" "q < run_halo R" for q
      using x_index_in_count [OF f that] x_count [OF cov] m part_in_batch [OF m _ _, of _ ?P]
      by (simp add: H)
    have n0: "0 \<le> local_physical_size (dim_x (run_grid R r))" using local_size_pos [OF R r] by simp
    have F: "\<And>r. r \<in> run_ranks R \<Longrightarrow>
        fits R 3 1 (global_size (dim_z (run_global R)) + 2 * run_halo R) r (fst (st r) ! m)"
      using covers_fits [OF R] batch_covers [OF B _ m] by blast
    note arrived = x_arrivals [where F = "\<lambda>r. fst (st r) ! m", OF R r F msgs refl]
    show ?thesis
      unfolding eq c
      using M idx
      by (simp only: arrived [symmetric])
        (auto simp: unpack_x_cell [OF f run_grid_simps(1) [OF R r, symmetric, folded run_exchanger_simps(1)] _ n0]
          in_rows_column [of ?f w k j i] buf receive_def subview_def simp del: tag_code.simps One_nat_def)
  qed
qed


lemma multi_y_cells:
  assumes B: "batch_ok R N st" and R: "run_ok R" and D: "delivers deliver" and r: "r \<in> run_ranks R"
    and ns: "\<not> is_singleton_y (run_global R)" and m: "m < N"
  shows "fdata (fst (multi_y_round deliver (run_exchanger R) st r) ! m) c =
    y_moved R (run_halo R) (\<lambda>r. fst (st r) ! m) r c"
proof -
  obtain w k j i where c: "c = (w, k, j, i)" by (cases c)
  let ?f = "fst (st r) ! m" and ?P = "y_part (run_grid R r)" and ?ex = "run_exchanger R r"
  have cov: "covers (run_grid R r) ?f" and len: "length (fst (st r)) = N"
    using batch_covers [OF B r m] B r by (auto simp: batch_ok_def)
  note f = coversD(1,2) [OF cov] and H = run_grid_simps(1) [OF R r]
  have N: "0 < N" using m by simp
  show ?thesis
  proof (cases "0 < ?P")
    case False
    have "\<not> in_columns ?f (w, k, 0, i)"
    proof
      assume inr: "in_columns ?f (w, k, 0, i)"
      then have "?P \<noteq> 0"
        using in_columns_count [OF inr f run_okD(5) [OF R]] y_count [OF cov] H by simp
      moreover have "0 \<le> ?P"
        using inr run_okD(5) [OF R] coversD(5-7) [OF cov] by (auto simp: y_part_def H in_columns_def)
      ultimately show False using False by simp
    qed
    moreover have "multi_y_round deliver (run_exchanger R) st r = st r"
      using False N len
      by (auto simp: multi_y_round_def Let_def post_multi_y_def wait_multi_y_def count_y_total_def
          y_part_size [OF R r] case_prod_beta zero_less_mult_iff)
    ultimately show ?thesis by (simp add: y_moved_def Let_def c in_columns_row [of ?f w k j i])
  next
    case P: True
    define mail where "mail = deliver (\<lambda>r. fst (post_multi_y (run_exchanger R r) (st r))) r"
    note M = multi_y_mail [OF B R D r N P ns mail_def refl m]
    have msgs: "\<And>s. fst (run_shift R r 0) = Some s \<Longrightarrow> y_message_top (run_grid R s) (run_halo R) (fst (st s) ! m)
        (subview (int m * ?P) (snd (mail s (tag_code SEND_TO_TOP))))"
      "\<And>s. snd (run_shift R r 0) = Some s \<Longrightarrow> y_message_bottom (run_grid R s) (run_halo R) (fst (st s) ! m)
        (subview (int m * ?P) (snd (mail s (tag_code SEND_TO_BOTTOM))))"
      using M by blast+
    obtain l rr b' where post: "post_multi_y ?ex (st r) = (irecv (fst (run_shift R r 0)) Y_bottom SEND_TO_TOP (int N * y_part (run_grid R r)) @
       irecv (snd (run_shift R r 0)) Y_top SEND_TO_BOTTOM (int N * y_part (run_grid R r)) @
       isend (snd (run_shift R r 0)) SEND_TO_TOP (int N * y_part (run_grid R r)) rr @
       isend (fst (run_shift R r 0)) SEND_TO_BOTTOM (int N * y_part (run_grid R r)) l, fst (st r), b')"
      by (rule post_multi_y_requests [OF B R r N P ns])
    define b'' where "b'' = waitall mail (fst (post_multi_y ?ex (st r))) b'"
    have eq: "fst (multi_y_round deliver (run_exchanger R) st r) ! m =
        unpack_y ?ex (run_halo R) (subview (int m * ?P) (recv_y_bottom b'')) (subview (int m * ?P) (recv_y_top b'')) ?f"
      using N P ns m cov len
      by (auto simp: multi_y_round_def Let_def wait_multi_y_def post count_y_total_def b''_def
          y_part_size [OF R r] run_grid_simps [OF R r] nth_enumerate_eq unpack_multi_y_eq waitall_nil
          mail_def [symmetric])
    have buf: "recv_y_bottom b'' = (case fst (run_shift R r 0) of None \<Rightarrow> recv_y_bottom b'
        | Some s \<Rightarrow> receive (int N * ?P) (mail s (tag_code SEND_TO_TOP)) (recv_y_bottom b'))"
      "recv_y_top b'' = (case snd (run_shift R r 0) of None \<Rightarrow> recv_y_top b'
        | Some s \<Rightarrow> receive (int N * ?P) (mail s (tag_code SEND_TO_BOTTOM)) (recv_y_top b'))"
      by (simp_all add: b''_def post waitall_y del: tag_code.simps One_nat_def)
    have idx: "0 \<le> int m * ?P + y_index (ext_z ?f) (ext_x ?f) (run_halo R) (w, k, i, q) \<and>
        int m * ?P + y_index (ext_z ?f) (ext_x ?f) (run_halo R) (w, k, i, q) < int N * ?P"
      if "in_columns ?f (w, k, 0, i)" "0 \<le> q" "q < run_halo R" for q
      using y_index_in_count [OF f that] y_count [OF cov] m part_in_batch [OF m _ _, of _ ?P]
      by (simp add: H)
    have n0: "0 \<le> local_physical_size (dim_y (run_grid R r))" using local_size_pos [OF R r] by simp
    have F: "\<And>r. r \<in> run_ranks R \<Longrightarrow>
        fits R 3 1 (global_size (dim_z (run_global R)) + 2 * run_halo R) r (fst (st r) ! m)"
      using covers_fits [OF R] batch_covers [OF B _ m] by blast
    note arrived = y_arrivals [where F = "\<lambda>r. fst (st r) ! m", OF R r F msgs refl]
    show ?thesis
      unfolding eq c
      using M idx
      by (simp only: arrived [symmetric])
        (auto simp: unpack_y_cell [OF f run_grid_simps(1) [OF R r, symmetric, folded run_exchanger_simps(1)] _ n0]
          in_columns_row [of ?f w k j i] buf receive_def subview_def simp del: tag_code.simps One_nat_def)
  qed
qed

definition field_of :: "nat \<Rightarrow> (nat \<Rightarrow> 'a batch) \<Rightarrow> nat \<Rightarrow> 'a field \<times> 'a halo_buffers" where
  "field_of m st = (\<lambda>r. (fst (st r) ! m, snd (st r)))"

lemma same_shape_eq: "same_shape f f1 \<Longrightarrow> same_shape f f2 \<Longrightarrow> fdata f1 = fdata f2 \<Longrightarrow> f1 = f2"
  unfolding same_shape_def by metis


lemma multi_x_length: "length (fst (multi_x_round deliver ex st r)) = length (fst (st r))"
  by (auto simp: multi_x_round_def Let_def post_multi_x_def wait_multi_x_def split: prod.splits)

lemma multi_x_shape:
  assumes "m < length (fst (st r))"
  shows "same_shape (fst (st r) ! m) (fst (multi_x_round deliver ex st r) ! m)"
  using assms
  by (auto simp: multi_x_round_def Let_def post_multi_x_def wait_multi_x_def nth_enumerate_eq
      same_shape_def unpack_multi_x_def split: prod.splits)

lemma multi_x_ok:
  assumes B: "batch_ok R N st"
  shows "batch_ok R N (multi_x_round deliver ex st)"
  unfolding batch_ok_def
proof (intro ballI conjI)
  fix r assume r: "r \<in> run_ranks R"
  then show len: "length (fst (multi_x_round deliver ex st r)) = N"
    using B by (simp add: batch_ok_def multi_x_length)
  fix f assume "f \<in> set (fst (multi_x_round deliver ex st r))"
  then obtain m where m: "m < N" "f = fst (multi_x_round deliver ex st r) ! m"
    using len by (metis in_set_conv_nth)
  have "same_shape (fst (st r) ! m) f"
    unfolding m(2) using B r m(1) by (intro multi_x_shape) (simp add: batch_ok_def)
  with batch_covers [OF B r m(1)] show "covers (run_grid R r) f"
    using same_shape_simps same_shape_field_wf by (fastforce simp: covers_def)
qed

text \<open>Field \<open>m\<close> of a batch goes through the round of a single field.\<close>

lemma multi_x_single:
  assumes B: "batch_ok R N st" and R: "run_ok R" and D: "delivers deliver" and r: "r \<in> run_ranks R"
    and m: "m < N"
  shows "fst (multi_x_round deliver (run_exchanger R) st r) ! m =
    (if is_singleton_x (run_global R) then fst (st r) ! m
     else fst (x_round first_match (run_exchanger R) (-1) (field_of m st) r))"
proof (cases "is_singleton_x (run_global R)")
  case True
  then show ?thesis
    by (simp add: multi_x_round_def Let_def post_multi_x_def wait_multi_x_def run_grid_simps [OF R r]
        case_prod_beta)
next
  case False
  have d: "run_depth R (-1) = run_halo R" by (simp add: run_depth_def)
  have F: "\<forall>r \<in> run_ranks R. fits R 3 1 (global_size (dim_z (run_global R)) + 2 * run_halo R) r
      (fst (field_of m st r))"
    using covers_fits [OF R] batch_covers [OF B _ m] by (auto simp: field_of_def)
  have "fst (multi_x_round deliver (run_exchanger R) st r) ! m =
      fst (x_round first_match (run_exchanger R) (-1) (field_of m st) r)"
  proof (rule same_shape_eq [where f = "fst (st r) ! m"])
    show "same_shape (fst (st r) ! m) (fst (multi_x_round deliver (run_exchanger R) st r) ! m)"
      using B r m by (intro multi_x_shape) (simp add: batch_ok_def)
    show "same_shape (fst (st r) ! m) (fst (x_round first_match (run_exchanger R) (-1) (field_of m st) r))"
      using x_round_shape [of "field_of m st"] by (simp add: field_of_def)
    show "fdata (fst (multi_x_round deliver (run_exchanger R) st r) ! m) =
        fdata (fst (x_round first_match (run_exchanger R) (-1) (field_of m st) r))"
      using x_round_cells [OF R first_match_delivers F _ False r] run_okD(5) [OF R]
      by (simp add: fun_eq_iff multi_x_cells [OF B R D r False m] d field_of_def)
  qed
  with False show ?thesis by simp
qed


lemma multi_y_length: "length (fst (multi_y_round deliver ex st r)) = length (fst (st r))"
  by (auto simp: multi_y_round_def Let_def post_multi_y_def wait_multi_y_def split: prod.splits)

lemma multi_y_shape:
  assumes "m < length (fst (st r))"
  shows "same_shape (fst (st r) ! m) (fst (multi_y_round deliver ex st r) ! m)"
  using assms
  by (auto simp: multi_y_round_def Let_def post_multi_y_def wait_multi_y_def nth_enumerate_eq
      same_shape_def unpack_multi_y_def split: prod.splits)

lemma multi_y_ok:
  assumes B: "batch_ok R N st"
  shows "batch_ok R N (multi_y_round deliver ex st)"
  unfolding batch_ok_def
proof (intro ballI conjI)
  fix r assume r: "r \<in> run_ranks R"
  then show len: "length (fst (multi_y_round deliver ex st r)) = N"
    using B by (simp add: batch_ok_def multi_y_length)
  fix f assume "f \<in> set (fst (multi_y_round deliver ex st r))"
  then obtain m where m: "m < N" "f = fst (multi_y_round deliver ex st r) ! m"
    using len by (metis in_set_conv_nth)
  have "same_shape (fst (st r) ! m) f"
    unfolding m(2) using B r m(1) by (intro multi_y_shape) (simp add: batch_ok_def)
  with batch_covers [OF B r m(1)] show "covers (run_grid R r) f"
    using same_shape_simps same_shape_field_wf by (fastforce simp: covers_def)
qed

text \<open>Field \<open>m\<close> of a batch goes through the round of a single field.\<close>

lemma multi_y_single:
  assumes B: "batch_ok R N st" and R: "run_ok R" and D: "delivers deliver" and r: "r \<in> run_ranks R"
    and m: "m < N"
  shows "fst (multi_y_round deliver (run_exchanger R) st r) ! m =
    (if is_singleton_y (run_global R) then fst (st r) ! m
     else fst (y_round first_match (run_exchanger R) (-1) (field_of m st) r))"
proof (cases "is_singleton_y (run_global R)")
  case True
  then show ?thesis
    by (simp add: multi_y_round_def Let_def post_multi_y_def wait_multi_y_def run_grid_simps [OF R r]
        case_prod_beta)
next
  case False
  have d: "run_depth R (-1) = run_halo R" by (simp add: run_depth_def)
  have F: "\<forall>r \<in> run_ranks R. fits R 3 1 (global_size (dim_z (run_global R)) + 2 * run_halo R) r
      (fst (field_of m st r))"
    using covers_fits [OF R] batch_covers [OF B _ m] by (auto simp: field_of_def)
  have "fst (multi_y_round deliver (run_exchanger R) st r) ! m =
      fst (y_round first_match (run_exchanger R) (-1) (field_of m st) r)"
  proof (rule same_shape_eq [where f = "fst (st r) ! m"])
    show "same_shape (fst (st r) ! m) (fst (multi_y_round deliver (run_exchanger R) st r) ! m)"
      using B r m by (intro multi_y_shape) (simp add: batch_ok_def)
    show "same_shape (fst (st r) ! m) (fst (y_round first_match (run_exchanger R) (-1) (field_of m st) r))"
      using y_round_shape [of "field_of m st"] by (simp add: field_of_def)
    show "fdata (fst (multi_y_round deliver (run_exchanger R) st r) ! m) =
        fdata (fst (y_round first_match (run_exchanger R) (-1) (field_of m st) r))"
      using y_round_cells [OF R first_match_delivers F _ False r] run_okD(5) [OF R]
      by (simp add: fun_eq_iff multi_y_cells [OF B R D r False m] d field_of_def)
  qed
  with False show ?thesis by simp
qed

section \<open>Correctness of the batch\<close>

lemma fill_agrees:
  assumes R: "run_ok R" and F: "\<And>r. r \<in> run_ranks R \<Longrightarrow> fits R nd nw nz' r (F r)" and r: "r \<in> run_ranks R"
  shows "is_singleton_y (run_global R) \<Longrightarrow> \<forall>r \<in> run_ranks R. agrees R \<Phi> r (F r) 0 ex \<Longrightarrow> ex \<le> run_halo R \<Longrightarrow>
      agrees R \<Phi> r (fill_singleton_y_halo (run_halo R) (run_halo R) (F r)) (run_halo R) ex"
    and "is_singleton_x (run_global R) \<Longrightarrow> \<forall>r \<in> run_ranks R. agrees R \<Phi> r (F r) ey 0 \<Longrightarrow> ey \<le> run_halo R \<Longrightarrow>
      agrees R \<Phi> r (fill_singleton_x_halo (run_halo R) (run_halo R) (F r)) ey (run_halo R)"
  using y_round_singleton [OF R, of nd nw nz' "\<lambda>r. (F r, undefined)" "-1" ex \<Phi> r]
    x_round_singleton [OF R, of nd nw nz' "\<lambda>r. (F r, undefined)" "-1" ey \<Phi> r]
    F r run_okD(5) [OF R]
  by (simp_all add: run_depth_def x_round_def y_round_def post_exchange_halo_x_def post_exchange_halo_y_def
      wait_exchange_halo_x_def wait_exchange_halo_y_def Let_def run_grid_simps [OF R r])

lemma begin_multiple_field:
  assumes "m < length (fst s)"
  shows "fst (begin_multiple ex s) ! m =
    (let h = get_halo_cells (grid_ref ex);
         f = (if is_singleton_y (grid_ref ex) then fill_singleton_y_halo h h (fst s ! m) else fst s ! m)
     in if is_singleton_x (grid_ref ex) then fill_singleton_x_halo h h f else f)"
  using assms by (simp add: begin_multiple_def fill_singletons_def Let_def)

lemma begin_multiple_ok:
  assumes B: "batch_ok R N st"
  shows "batch_ok R N (\<lambda>r. begin_multiple (ex r) (st r))"
proof -
  have "covers g (fill_singleton_y_halo a b f) \<longleftrightarrow> covers g f" "covers g (fill_singleton_x_halo a b f) \<longleftrightarrow> covers g f"
    for g a b and f :: "'a field"
    using same_shape_simps [OF same_shape_fills(3) [of f a b]] same_shape_simps [OF same_shape_fills(4) [of f a b]]
      same_shape_field_wf [OF same_shape_fills(3) [of f a b]] same_shape_field_wf [OF same_shape_fills(4) [of f a b]]
    by (simp_all add: covers_def)
  with B show ?thesis
    by (auto simp: batch_ok_def begin_multiple_def fill_singletons_def Let_def)
qed

lemma begin_multiple_agrees:
  assumes B: "batch_ok R N st" and R: "run_ok R" and m: "m < N"
    and A: "\<forall>r \<in> run_ranks R. agrees R \<Phi> r (fst (st r) ! m) 0 0" and r: "r \<in> run_ranks R"
  shows "agrees R \<Phi> r (fst (begin_multiple (run_exchanger R r) (st r)) ! m)
    (if is_singleton_y (run_global R) then run_halo R else 0)
    (if is_singleton_x (run_global R) then run_halo R else 0)"
proof -
  let ?H = "run_halo R" and ?sy = "is_singleton_y (run_global R)"
  define F where "F r = (if ?sy then fill_singleton_y_halo ?H ?H (fst (st r) ! m) else fst (st r) ! m)" for r
  have H: "0 \<le> ?H" using run_okD(5) [OF R] by simp
  have fits: "fits R 3 1 (global_size (dim_z (run_global R)) + 2 * ?H) r (fst (st r) ! m)"
    if "r \<in> run_ranks R" for r
    using covers_fits [OF R that] batch_covers [OF B that m] by blast
  then have fits': "fits R 3 1 (global_size (dim_z (run_global R)) + 2 * ?H) r (F r)"
    if "r \<in> run_ranks R" for r
    using that fits_round [OF fits [OF that] same_shape_fills(4)] by (simp add: F_def)
  have F: "\<forall>r \<in> run_ranks R. agrees R \<Phi> r (F r) (if ?sy then ?H else 0) 0"
    using A H fill_agrees(1) [OF R fits _ _ A] by (simp add: F_def)
  have len: "m < length (fst (st r))" using B r m by (simp add: batch_ok_def)
  show ?thesis
    unfolding begin_multiple_field [OF len] Let_def run_exchanger_simps run_grid_simps [OF R r] F_def [symmetric]
    using F H fill_agrees(2) [OF R fits' r _ F] r by simp
qed

lemma batch_exchange_agrees:
  assumes R: "run_ok R" and D: "delivers deliver" and P: "run_periodic R" and B: "batch_ok R N st"
    and A: "\<forall>r \<in> run_ranks R. agrees R \<Phi> r (fst (st r) ! m) 0 0" and r: "r \<in> run_ranks R" and m: "m < N"
  shows "agrees R \<Phi> r (fst (exchange_multiple_halos_all deliver (run_exchanger R) st r) ! m) (run_halo R) (run_halo R)"
proof -
  let ?H = "run_halo R" and ?sx = "is_singleton_x (run_global R)" and ?sy = "is_singleton_y (run_global R)"
  let ?st0 = "\<lambda>r. begin_multiple (run_exchanger R r) (st r)"
  let ?st1 = "multi_x_round deliver (run_exchanger R) ?st0"
  have H: "0 < ?H" using run_okD(5) [OF R] .
  have d: "run_depth R (-1) = ?H" by (simp add: run_depth_def)
  note B0 = begin_multiple_ok [OF B, of "run_exchanger R"]
  note B1 = multi_x_ok [OF B0, of deliver "run_exchanger R"]
  have fits: "\<forall>r \<in> run_ranks R. fits R 3 1 (global_size (dim_z (run_global R)) + 2 * ?H) r (fst (field_of m st r))"
    if "batch_ok R N st" for st :: "nat \<Rightarrow> 'a batch"
    using covers_fits [OF R] batch_covers [OF that _ m] by (auto simp: field_of_def)
  have A0: "\<forall>r \<in> run_ranks R. agrees R \<Phi> r (fst (field_of m ?st0 r)) (if ?sy then ?H else 0) (if ?sx then ?H else 0)"
    using begin_multiple_agrees [OF B R m A] by (simp add: field_of_def)
  have A1: "\<forall>r \<in> run_ranks R. agrees R \<Phi> r (fst (?st1 r) ! m) (if ?sy then ?H else 0) ?H"
  proof
    fix r assume r: "r \<in> run_ranks R"
    note single = multi_x_single [OF B0 R D r m]
    show "agrees R \<Phi> r (fst (?st1 r) ! m) (if ?sy then ?H else 0) ?H"
    proof (cases ?sx)
      case True
      then show ?thesis using A0 r by (simp add: single field_of_def)
    next
      case False
      with P have per: "snd (run_periods R)" by (simp add: run_periodic_def)
      show ?thesis
        using x_round_agrees [OF R first_match_delivers fits [OF B0] _ _ False per _ _ r, of "-1"] A0 False H
        by (simp add: single d)
    qed
  qed
  have ne: "fst (st r) \<noteq> []" using B r m by (auto simp: batch_ok_def)
  note single = multi_y_single [OF B1 R D r m]
  have eq: "exchange_multiple_halos_all deliver (run_exchanger R) st r =
      multi_y_round deliver (run_exchanger R) ?st1 r"
    using ne H by (intro exchange_multiple_halos_all_rounds) (simp_all add: run_grid_simps [OF R r])
  show ?thesis
  proof (cases ?sy)
    case True
    then show ?thesis using A1 r by (simp add: eq single)
  next
    case False
    with P have per: "fst (run_periods R)" by (simp add: run_periodic_def)
    have "\<forall>r \<in> run_ranks R. agrees R \<Phi> r (fst (field_of m ?st1 r)) 0 ?H"
      using A1 False by (simp add: field_of_def)
    then show ?thesis
      using y_round_agrees [OF R first_match_delivers fits [OF B1] _ _ False per _ _ r, of "-1"] False H
      by (simp add: eq single d)
  qed
qed

lemma batch_exchange_ok:
  assumes R: "run_ok R" and B: "batch_ok R N st"
  shows "batch_ok R N (exchange_multiple_halos_all deliver (run_exchanger R) st)"
proof (cases "N = 0")
  case True
  with B show ?thesis
    by (simp add: batch_ok_def exchange_multiple_halos_all_def exchange_multiple_halos_def Let_def)
next
  case False
  have "exchange_multiple_halos_all deliver (run_exchanger R) st r =
      multi_y_round deliver (run_exchanger R) (multi_x_round deliver (run_exchanger R)
        (\<lambda>r. begin_multiple (run_exchanger R r) (st r))) r" if r: "r \<in> run_ranks R" for r
    using False B r run_okD(5) [OF R]
    by (intro exchange_multiple_halos_all_rounds) (auto simp: run_grid_simps [OF R r] batch_ok_def)
  with multi_y_ok [OF multi_x_ok [OF begin_multiple_ok [OF B]]] show ?thesis
    unfolding batch_ok_def by simp
qed

text \<open>C31. Batched halo exchange: when every process exchanges the same number of three-dimensional
  fields in one batch, each field ends up with the same guarantee as if it were exchanged alone:
  starting from its block of a global field, every process holds the periodic continuation of that
  field on all its halo layers, corners included.  The messages of different fields never mix,
  although all fields share one buffer and one message per neighbour.\<close>

theorem batch_exchange_is_periodic_extension:
  assumes "run_ok R" and "delivers deliver" and "run_periodic R" and "batch_ok R N st"
    and "\<forall>r \<in> run_ranks R. agrees R \<Phi> r (fst (st r) ! m) 0 0" and "r \<in> run_ranks R" and "m < N"
  shows "agrees R \<Phi> r (fst (exchange_multiple_halos_all deliver (run_exchanger R) st r) ! m)
    (run_halo R) (run_halo R)"
  using assms by (rule batch_exchange_agrees)

definition sample_layers :: "int \<Rightarrow> nat \<Rightarrow> int field" where
  "sample_layers a r =
     (sample_local r)\<lparr>fdim := 3, ext_z := get_local_total_points_z (run_grid sample_run r),
        fdata := (\<lambda>(w, k, j, i). a * fdata (sample_local r) (0, 0, j, i))\<rparr>"

definition sample_batch :: "nat \<Rightarrow> int batch" where
  "sample_batch r = ([sample_layers 1 r, sample_layers 2 r], allocate_buffers (run_exchanger sample_run r))"

lemma sample_batch_ok: "batch_ok sample_run 2 sample_batch"
  unfolding batch_ok_def
proof (intro ballI)
  fix r assume r: "r \<in> run_ranks sample_run"
  have "0 \<le> get_local_total_points_z (run_grid sample_run r)"
    unfolding run_total_z [OF sample_run_ok r]
    by (simp add: run_halo_def sample_run_def sample_grid_def initial_dimension_def)
  then have "covers (run_grid sample_run r) (sample_layers a r)" for a
    using bspec [OF sample_fits r]
    by (auto simp: covers_def sample_layers_def fits_def field_wf_def sample_state_def)
  then show "length (fst (sample_batch r)) = 2 \<and> (\<forall>f \<in> set (fst (sample_batch r)). covers (run_grid sample_run r) f)"
    by (simp add: sample_batch_def)
qed

lemma sample_layers_agrees:
  assumes r: "r \<in> run_ranks sample_run"
  shows "agrees sample_run (\<lambda>w k J I. a * sample_global w k J I) r (sample_layers a r) 0 0"
proof (rule agreesI)
  fix w k j i
  assume c: "run_halo sample_run - 0 \<le> j"
    "j < run_halo sample_run + local_physical_size (dim_y (run_grid sample_run r)) + 0"
    "run_halo sample_run - 0 \<le> i"
    "i < run_halo sample_run + local_physical_size (dim_x (run_grid sample_run r)) + 0"
  have e: "0 < ext_w (sample_local r)" "0 < ext_z (sample_local r)"
    by (simp_all add: sample_local_def Let_def)
  have ag: "agrees sample_run sample_global r (sample_local r) 0 0"
    using sample_agrees r by (simp add: sample_state_def)
  show "fdata (sample_layers a r) (w, k, j, i) = a * sample_global w k
      ((local_physical_start_idx (dim_y (run_grid sample_run r)) + (j - run_halo sample_run))
        mod global_size (dim_y (run_grid sample_run r)))
      ((local_physical_start_idx (dim_x (run_grid sample_run r)) + (i - run_halo sample_run))
        mod global_size (dim_x (run_grid sample_run r)))"
    using agreesD [OF ag _ _ _ _ c, of 0 0] e by (simp add: sample_layers_def sample_global_def)
qed

text \<open>The corner of the second field of process 0.\<close>

lemma batch_exchange_is_periodic_extension_witness:
  "fdata (fst (exchange_multiple_halos_all first_match (run_exchanger sample_run) sample_batch 0) ! 1) (0, 0, 0, 0) = 70"
proof -
  let ?st = "exchange_multiple_halos_all first_match (run_exchanger sample_run) sample_batch"
  let ?\<Phi> = "\<lambda>w k J I. 2 * sample_global w k J I"
  have H: "run_halo sample_run = 2"
    by (simp add: run_halo_def sample_run_def sample_grid_def initial_dimension_def)
  have r: "0 \<in> run_ranks sample_run" by (simp add: sample_run_def)
  have "run_periodic sample_run" by (simp add: run_periodic_def sample_run_def)
  then have ag: "agrees sample_run ?\<Phi> 0 (fst (?st 0) ! 1) (run_halo sample_run) (run_halo sample_run)"
    using sample_layers_agrees
    by (intro batch_exchange_is_periodic_extension [OF sample_run_ok first_match_delivers _ sample_batch_ok _ r])
      (simp_all add: sample_batch_def)
  have ext: "0 < ext_w (fst (?st 0) ! 1)" "0 < ext_z (fst (?st 0) ! 1)"
    using batch_exchange_ok [OF sample_run_ok sample_batch_ok, of first_match]
      run_total_z [OF sample_run_ok r] r H coversD [OF batch_covers [of sample_run 2 ?st 0 1]]
    by (simp_all add: sample_run_def sample_grid_def initial_dimension_def)
  have g: "dim_y (run_grid sample_run 0) = split_axis 2 0 (initial_dimension 5 (Fin 100) 2)"
    "dim_x (run_grid sample_run 0) = split_axis 2 0 (initial_dimension 7 (Fin 100) 2)"
    using run_axes [OF sample_run_ok r]
    by (simp_all add: sample_run_def sample_coords_def sample_grid_def)
  show ?thesis
    using agreesD [OF ag, of 0 0 0 0] ext
    by (simp add: H g axis_simps split_nonneg sample_global_def)
qed

text \<open>Buffers of a batch: after the reallocation at the start of a batched exchange, every index
  that the pack and unpack kernels use for any field of the batch lies inside the buffers, however
  many fields there are and whatever size the buffers had before.\<close>

theorem batch_buffer_bounds:
  assumes "grid_ref ex = g" and "buffer_size_x_3d ex = x_part g" and "buffer_size_y_3d ex = y_part g"
    and "m < length (fst s)" and "covers g f"
    and "c \<in> set (mdrange4 0 0 0 0 (ext_w f) (ext_z f) (ext_y f) (get_halo_cells g))"
    and "d \<in> set (mdrange4 0 0 0 0 (ext_w f) (ext_z f) (ext_x f) (get_halo_cells g))"
  shows "0 \<le> int m * x_part g + x_index (ext_z f) (ext_y f) (get_halo_cells g) c \<and>
    int m * x_part g + x_index (ext_z f) (ext_y f) (get_halo_cells g) c < x_extent (snd (begin_multiple ex s)) \<and>
    0 \<le> int m * y_part g + y_index (ext_z f) (ext_x f) (get_halo_cells g) d \<and>
    int m * y_part g + y_index (ext_z f) (ext_x f) (get_halo_cells g) d < y_extent (snd (begin_multiple ex s))"
proof -
  have x: "ext_w f * ext_z f * ext_y f * get_halo_cells g = x_part g"
    and y: "ext_w f * ext_z f * get_halo_cells g * ext_x f = y_part g"
    unfolding coversD(4-7) [OF assms(5)] x_part_def y_part_def by simp_all
  have "int (length (fst s)) * x_part g \<le> x_extent (snd (begin_multiple ex s))"
    "int (length (fst s)) * y_part g \<le> y_extent (snd (begin_multiple ex s))"
    using assms(2,3) by (simp_all add: begin_multiple_def resize_buffers_def Let_def count_x_total_def count_y_total_def)
  then show ?thesis
    using part_in_batch [OF assms(4), of "x_index (ext_z f) (ext_y f) (get_halo_cells g) c" "x_part g"]
      part_in_batch [OF assms(4), of "y_index (ext_z f) (ext_x f) (get_halo_cells g) d" "y_part g"]
      x_index_bound [OF assms(6)] y_index_bound [OF assms(7)] x y
    by linarith
qed

lemma batch_buffer_bounds_witness:
  "int 1 * y_part (run_grid sample_run 0) + y_index (ext_z (sample_layers 2 0)) (ext_x (sample_layers 2 0))
      (get_halo_cells (run_grid sample_run 0)) (0, 0, 0, 1) <
    y_extent (snd (begin_multiple (run_exchanger sample_run 0) (sample_batch 0)))"
proof -
  have r: "0 \<in> run_ranks sample_run" by (simp add: sample_run_def)
  have c: "covers (run_grid sample_run 0) (sample_layers 2 0)"
    using batch_covers [OF sample_batch_ok r, of 1] by (simp add: sample_batch_def)
  note f = coversD [OF c]
  have H: "run_halo sample_run = 2"
    by (simp add: run_halo_def sample_run_def sample_grid_def initial_dimension_def)
  have pos: "0 < get_local_total_points_z (run_grid sample_run 0)"
    unfolding run_total_z [OF sample_run_ok r] H
    by (simp add: sample_run_def sample_grid_def initial_dimension_def)
  have n: "0 < get_local_total_points_x (run_grid sample_run 0)" "0 < get_local_total_points_y (run_grid sample_run 0)"
    using run_grid_simps(4,5) [OF sample_run_ok r] local_size_pos [OF sample_run_ok r] H by simp_all
  show ?thesis
    using batch_buffer_bounds [of "run_exchanger sample_run 0" "run_grid sample_run 0" 1 "sample_batch 0"
        "sample_layers 2 0" "(0, 0, 0, 0)" "(0, 0, 0, 1)"] c pos n
    by (simp add: x_part_size [OF sample_run_ok r] y_part_size [OF sample_run_ok r] sample_batch_def range_simps
        f(4-7) run_grid_simps(1) [OF sample_run_ok r] H)
qed

end
