(* ===== verification/Random_Forcing.thy ===== *)
theory Random_Forcing
  imports Halo_Batch Time_Integration
begin

text \<open>
  \<open>dynamics/forcings/DeterministicPerturbation.hpp\<close> and \<open>dynamics/forcings/RandomForcing\<close>: the
  reproducible noise that the random forcing adds to the potential temperature.

  The hash works on 64-bit words as in the code; only the last step, from the bits to a number,
  is real arithmetic (its results are exact in the precision it is compiled for).  The lemmas show that
  the mixing function loses nothing and that the noise of a cell does not depend on how the domain is
  split over processes.
\<close>

unbundle bit_operations_syntax

section \<open>The deterministic random numbers\<close>

text \<open>\<open>RandomForcingDetail\<close>: the arithmetic is that of \<open>std::uint64_t\<close>.  \<open>double_precision\<close> tells
  whether \<open>VVM_USE_DOUBLE_PRECISION\<close> is set.\<close>

definition mix64 :: "64 word \<Rightarrow> 64 word" where
  "mix64 value0 =
     (let value1 = value0 + 0x9e3779b97f4a7c15;
          value2 = (value1 XOR drop_bit 30 value1) * 0xbf58476d1ce4e5b9;
          value3 = (value2 XOR drop_bit 27 value2) * 0x94d049bb133111eb
      in value3 XOR drop_bit 31 value3)"

definition random_bits :: "int \<Rightarrow> 64 word \<Rightarrow> 64 word \<Rightarrow> 64 word \<Rightarrow> 64 word \<Rightarrow> 64 word" where
  "random_bits seed step global_k global_j global_i =
     (let key0 = mix64 (ucast (word_of_int seed :: 32 word));
          key1 = mix64 (key0 XOR step);
          key2 = mix64 (key1 XOR global_k);
          key3 = mix64 (key2 XOR global_j)
      in mix64 (key3 XOR global_i))"

definition signed_unit_random ::
  "bool \<Rightarrow> int \<Rightarrow> 64 word \<Rightarrow> 64 word \<Rightarrow> 64 word \<Rightarrow> 64 word \<Rightarrow> real" where
  "signed_unit_random double_precision seed step global_k global_j global_i =
     (let bits = random_bits seed step global_k global_j global_i;
          unit = (if double_precision then real (unat (drop_bit 11 bits)) / 2 ^ 53
                  else real (unat (drop_bit 40 bits)) / 2 ^ 24)
      in 2 * unit - 1)"

section \<open>\<open>RandomForcing\<close>\<close>

record random_forcing =
  rf_enabled :: bool
  rf_end_time :: real
  rf_amplitude :: real
  rf_seed :: int
  rf_k_start :: int
  rf_k_end :: int

text \<open>The loops of \<open>initialize\<close>: the first level at or above \<open>z_start_m\<close>, the last one at or below
  \<open>z_end_m\<close>; without one, values that leave the range of levels empty.\<close>

definition random_forcing_levels :: "grid \<Rightarrow> (int \<Rightarrow> real) \<Rightarrow> real \<Rightarrow> real \<Rightarrow> int \<times> int" where
  "random_forcing_levels g z_mid z_start_m z_end_m =
     (let h = get_halo_cells g; nz' = get_local_total_points_z g;
          up = range1 h (nz' - h); down = rev up
      in (case find (\<lambda>k. z_mid k \<ge> z_start_m) up of None \<Rightarrow> nz' - h | Some k \<Rightarrow> k,
          case find (\<lambda>k. z_mid k \<le> z_end_m) down of None \<Rightarrow> h - 1 | Some k \<Rightarrow> k))"

definition make_random_forcing :: "grid \<Rightarrow> json \<Rightarrow> (int \<Rightarrow> real) \<Rightarrow> config_error + random_forcing" where
  "make_random_forcing g config z_mid =
     (let key = (\<lambda>k. ''dynamics.forcings.random_perturbation.'' @ k);
          get_real = (\<lambda>k d. get_value_default (map_option fval \<circ> as_double) config (key k) d)
      in rbind (get_value_default as_bool config (key ''enable'') False) (\<lambda>enabled.
         rbind (get_real ''time_s'' 50) (\<lambda>end_time.
         rbind (get_real ''amplitude'' 1) (\<lambda>amplitude.
         rbind (get_value_default as_int config (key ''random_seed'') 12345) (\<lambda>seed.
         rbind (get_real ''z_start_m'' 0) (\<lambda>z_start.
         rbind (get_real ''z_end_m'' 0) (\<lambda>z_end.
           let (k_start, k_end) = random_forcing_levels g z_mid z_start z_end
           in Inr \<lparr>rf_enabled = enabled, rf_end_time = end_time, rf_amplitude = amplitude,
                   rf_seed = seed, rf_k_start = k_start, rf_k_end = k_end\<rparr>)))))))"

definition random_noise :: "bool \<Rightarrow> random_forcing \<Rightarrow> 64 word \<Rightarrow> int \<Rightarrow> int \<Rightarrow> int \<Rightarrow> real" where
  "random_noise dbl F step K J I =
     signed_unit_random dbl (rf_seed F) step (word_of_int K) (word_of_int J) (word_of_int I) * rf_amplitude F"

definition random_forcing_apply ::
  "bool \<Rightarrow> grid \<Rightarrow> random_forcing \<Rightarrow> 64 word \<Rightarrow> real \<Rightarrow> real field \<Rightarrow> real field" where
  "random_forcing_apply dbl g F step t th =
     (if \<not> rf_enabled F then th
      else if t \<ge> rf_end_time F then th
      else if rf_k_start F > rf_k_end F then th
      else
        (let h = get_halo_cells g; nz' = get_local_total_points_z g;
             k_end = min (rf_k_end F + 1) nz';
             global_z_start = local_physical_start_idx (dim_z g);
             global_y_start = local_physical_start_idx (dim_y g);
             global_x_start = local_physical_start_idx (dim_x g)
         in th\<lparr>fdata := parallel_for (physical_cells g (rf_k_start F) k_end)
              (assign at_cell (\<lambda>c d. d (at_cell c) +
                 (case c of (k, j, i) \<Rightarrow> random_noise dbl F step (global_z_start + k - h)
                    (global_y_start + j - h) (global_x_start + i - h)))) (fdata th)\<rparr>))"

section \<open>Quality of the numbers\<close>

text \<open>The rounds of \<open>mix64\<close> undone in reverse order, with the inverse multipliers modulo \<open>2 ^ 64\<close>.\<close>

definition unmix64 :: "64 word \<Rightarrow> 64 word" where
  "unmix64 value =
     (let value3 = value XOR drop_bit 31 value XOR drop_bit 62 value;
          value2 = value3 * 0x319642b2d24d8ec3;
          value1 = (value2 XOR drop_bit 27 value2 XOR drop_bit 54 value2) * 0x96de1b173f119089
      in (value1 XOR drop_bit 30 value1 XOR drop_bit 60 value1) - 0x9e3779b97f4a7c15)"

lemma xorshift_inverse:
  assumes "64 \<le> 3 * s"
  shows "(x XOR drop_bit s x) XOR drop_bit s (x XOR drop_bit s x) XOR drop_bit (2 * s) (x XOR drop_bit s x) = (x :: 64 word)"
proof (rule bit_word_eqI)
  fix n assume "n < LENGTH(64)"
  have "\<not> bit x (n + (s + (s + s)))" using assms by (intro notI) (drule bit_imp_le_length, simp)
  then show "bit ((x XOR drop_bit s x) XOR drop_bit s (x XOR drop_bit s x) XOR drop_bit (2 * s) (x XOR drop_bit s x)) n =
      bit x n"
    by (auto simp: bit_xor_iff bit_drop_bit_eq algebra_simps mult_2_right)
qed

lemma xorshift_inverse':
  assumes "64 \<le> 3 * s" and "y = x XOR drop_bit s x XOR drop_bit (2 * s) (x :: 64 word)"
  shows "y XOR drop_bit s y = x"
  unfolding assms(2)
proof (rule bit_word_eqI)
  fix n assume "n < LENGTH(64)"
  have "\<not> bit x (n + (s + (s + s)))" using assms(1) by (intro notI) (drule bit_imp_le_length, simp)
  then show "bit ((x XOR drop_bit s x XOR drop_bit (2 * s) x) XOR
      drop_bit s (x XOR drop_bit s x XOR drop_bit (2 * s) x)) n = bit x n"
    by (auto simp: bit_xor_iff bit_drop_bit_eq algebra_simps mult_2_right)
qed

lemma multipliers:
  "(0xbf58476d1ce4e5b9 :: 64 word) * 0x96de1b173f119089 = 1"
  "(0x94d049bb133111eb :: 64 word) * 0x319642b2d24d8ec3 = 1"
  by simp_all

lemma mix64_inverse: "unmix64 (mix64 x) = x" and unmix64_inverse: "mix64 (unmix64 x) = x"
proof -
  have s: "30 + 30 = (60 :: nat)" "27 + 27 = (54 :: nat)" "31 + 31 = (62 :: nat)" by simp_all
  have m1: "v * 0xbf58476d1ce4e5b9 * 0x96de1b173f119089 = (v :: 64 word)"
    "v * 0x96de1b173f119089 * 0xbf58476d1ce4e5b9 = (v :: 64 word)" for v
    using multipliers(1) by (simp_all only: mult.assoc mult.commute [of "0x96de1b173f119089"] mult_1_right)
  have m2: "v * 0x94d049bb133111eb * 0x319642b2d24d8ec3 = (v :: 64 word)"
    "v * 0x319642b2d24d8ec3 * 0x94d049bb133111eb = (v :: 64 word)" for v
    using multipliers(2) by (simp_all only: mult.assoc mult.commute [of "0x319642b2d24d8ec3"] mult_1_right)
  note inv = xorshift_inverse [of 30] xorshift_inverse [of 27] xorshift_inverse [of 31]
  note inv' = xorshift_inverse' [OF _ refl, of 30] xorshift_inverse' [OF _ refl, of 27] xorshift_inverse' [OF _ refl, of 31]
  show "unmix64 (mix64 x) = x"
    using inv by (simp only: unmix64_def mix64_def Let_def mult_2 s m1 m2 add_diff_cancel_right' le_refl)
  show "mix64 (unmix64 x) = x"
    using inv' by (simp only: unmix64_def mix64_def Let_def mult_2 s m1 m2 diff_add_cancel le_refl)
qed

lemma random_bits_inj:
  "random_bits seed step k j i = random_bits seed step k j i' \<longleftrightarrow> i = i'"
proof -
  have inj: "mix64 a = mix64 b \<longleftrightarrow> a = b" for a b by (rule inj_on_eq_iff [OF inj_on_inverseI, of UNIV unmix64]) (simp_all only: mix64_inverse UNIV_I)
  have x: "c XOR a = c XOR b \<longleftrightarrow> a = b" for a b c :: "64 word"
  proof
    assume "c XOR a = c XOR b"
    then have "(c XOR c) XOR a = (c XOR c) XOR b" by (simp only: xor.assoc)
    then show "a = b" by simp
  qed simp
  show ?thesis by (simp add: random_bits_def Let_def inj x)
qed

text \<open>The mixing function of the random forcing is a bijection on 64-bit words (undoing its rounds in
  reverse order gives the argument back, in both directions), and two cells of a row never get the same
  random bits.\<close>

theorem mix64_is_bijective:
  "unmix64 (mix64 x) = x \<and> mix64 (unmix64 x) = x \<and>
    (random_bits seed step k j i = random_bits seed step k j i' \<longleftrightarrow> i = i')"
  by (simp add: mix64_inverse unmix64_inverse random_bits_inj)

section \<open>Independence of the decomposition\<close>

definition forcing_active :: "random_forcing \<Rightarrow> real \<Rightarrow> int \<Rightarrow> bool" where
  "forcing_active F t k \<longleftrightarrow> rf_enabled F \<and> t < rf_end_time F \<and> rf_k_start F \<le> k \<and> k \<le> rf_k_end F"

lemma random_forcing_shape: "same_shape th (random_forcing_apply dbl g F step t th)"
  by (simp add: random_forcing_apply_def same_shape_def Let_def)

lemma random_forcing_cell:
  "fdata (random_forcing_apply dbl g F step t th) (0, k, j, i) =
    (if forcing_active F t k \<and> k < get_local_total_points_z g \<and> interior g j i
     then fdata th (0, k, j, i) + random_noise dbl F step (local_physical_start_idx (dim_z g) + k - get_halo_cells g)
       (local_physical_start_idx (dim_y g) + j - get_halo_cells g)
       (local_physical_start_idx (dim_x g) + i - get_halo_cells g)
     else fdata th (0, k, j, i))"
proof (cases "\<not> rf_enabled F \<or> t \<ge> rf_end_time F \<or> rf_k_start F > rf_k_end F")
  case True
  then show ?thesis by (auto simp: random_forcing_apply_def forcing_active_def)
next
  case False
  note upd = physical_update_cell [of g "rf_k_start F" "min (rf_k_end F + 1) (get_local_total_points_z g)"
      "\<lambda>c v. v + (case c of (k, j, i) \<Rightarrow> random_noise dbl F step (local_physical_start_idx (dim_z g) + k - get_halo_cells g)
        (local_physical_start_idx (dim_y g) + j - get_halo_cells g)
        (local_physical_start_idx (dim_x g) + i - get_halo_cells g))" "fdata th" k j i]
  show ?thesis
    using False by (auto simp: random_forcing_apply_def Let_def upd forcing_active_def)
qed

lemma random_forcing_agrees:
  assumes R: "run_ok R" and r: "r \<in> run_ranks R" and c: "covers (run_grid R r) th"
    and A: "agrees R \<Phi> r th 0 0"
  shows "agrees R (\<lambda>w k J I. \<Phi> w k J I +
      (if forcing_active F t k then random_noise dbl F step (k - run_halo R) J I else 0)) r
      (random_forcing_apply dbl (run_grid R r) F step t th) 0 0"
proof (rule agreesI)
  fix w k j i
  let ?th = "random_forcing_apply dbl (run_grid R r) F step t th" and ?g = "run_grid R r"
  note sh = same_shape_simps [OF random_forcing_shape [of th dbl ?g F step t]]
  assume a: "0 \<le> w" "w < ext_w ?th" "0 \<le> k" "k < ext_z ?th"
    "run_halo R - 0 \<le> j" "j < run_halo R + local_physical_size (dim_y ?g) + 0"
    "run_halo R - 0 \<le> i" "i < run_halo R + local_physical_size (dim_x ?g) + 0"
  note dom = run_in_domain [OF R r]
  have w: "w = 0" using a(1,2) sh coversD(4) [OF c] by simp
  have k: "k < get_local_total_points_z ?g" using a(4) sh coversD(5) [OF c] by simp
  have int: "interior ?g j i"
    using a(5-8) by (simp add: interior_def run_grid_simps [OF R r])
  have z0: "local_physical_start_idx (dim_z ?g) = 0"
    by (simp add: run_grid_eq(1) [OF R r] axis_simps full_axis_def)
  have m: "(local_physical_start_idx (dim_y ?g) + (j - run_halo R)) mod global_size (dim_y ?g) =
      local_physical_start_idx (dim_y ?g) + j - run_halo R"
    "(local_physical_start_idx (dim_x ?g) + (i - run_halo R)) mod global_size (dim_x ?g) =
      local_physical_start_idx (dim_x ?g) + i - run_halo R"
    using dom a(5-8) by simp_all
  have old: "fdata th (w, k, j, i) = \<Phi> w k (local_physical_start_idx (dim_y ?g) + j - run_halo R)
      (local_physical_start_idx (dim_x ?g) + i - run_halo R)"
    using agreesD [OF A, of w k j i] a sh unfolding m by simp
  show "fdata ?th (w, k, j, i) =
      \<Phi> w k ((local_physical_start_idx (dim_y ?g) + (j - run_halo R)) mod global_size (dim_y ?g))
        ((local_physical_start_idx (dim_x ?g) + (i - run_halo R)) mod global_size (dim_x ?g)) +
      (if forcing_active F t k then random_noise dbl F step (k - run_halo R)
         ((local_physical_start_idx (dim_y ?g) + (j - run_halo R)) mod global_size (dim_y ?g))
         ((local_physical_start_idx (dim_x ?g) + (i - run_halo R)) mod global_size (dim_x ?g)) else 0)"
    unfolding m using old k int by (simp add: w random_forcing_cell z0 run_grid_simps [OF R r])
qed

lemma random_bound:
  "- 1 \<le> signed_unit_random dbl seed step k j i \<and> signed_unit_random dbl seed step k j i < 1"
proof -
  have *: "unat (drop_bit n (x :: 64 word)) < 2 ^ (64 - n)" if "n < 64" for n x
  proof -
    have "unat x < 2 ^ (64 - n) * 2 ^ n"
      using unsigned_less [of x, where ?'a = nat] that by (simp flip: power_add)
    then show ?thesis
      unfolding unat_drop_bit_eq by (simp only: drop_bit_eq_div less_mult_imp_div_less)
  qed
  have "unat (drop_bit 11 (x :: 64 word)) < 2 ^ 53" "unat (drop_bit 40 (x :: 64 word)) < 2 ^ 24" for x
    using * [of 11 x] * [of 40 x] by simp_all
  then have "real (unat (drop_bit 11 (x :: 64 word))) < real (2 ^ 53)"
    "real (unat (drop_bit 40 (x :: 64 word))) < real (2 ^ 24)" for x
    by (simp_all only: of_nat_less_iff)
  moreover have "0 \<le> (unsigned (y :: 64 word) :: real)" for y
    using of_nat_0_le_iff [of "unat y", where ?'a = real] by simp
  ultimately show ?thesis
    by (simp add: signed_unit_random_def Let_def field_simps)
qed

text \<open>C36. Random forcing: the perturbation of a cell depends on the seed, the step and the global index of the
  cell only, so that a run on any number of processes adds the same noise to the global field; it is
  at most the configured amplitude, and zero outside the configured levels and after the end time.\<close>

theorem random_forcing_ignores_decomposition:
  assumes "run_ok R" and "r \<in> run_ranks R" and "covers (run_grid R r) th" and "agrees R \<Phi> r th 0 0"
  shows "agrees R (\<lambda>w k J I. \<Phi> w k J I +
      (if forcing_active F t k then random_noise dbl F step (k - run_halo R) J I else 0)) r
      (random_forcing_apply dbl (run_grid R r) F step t th) 0 0 \<and>
    \<bar>random_noise dbl F step K J I\<bar> \<le> \<bar>rf_amplitude F\<bar>"
proof
  have "\<bar>signed_unit_random dbl (rf_seed F) step (word_of_int K) (word_of_int J) (word_of_int I)\<bar> \<le> 1"
    using random_bound [of dbl "rf_seed F" step "word_of_int K" "word_of_int J" "word_of_int I"]
    by (simp add: abs_le_iff)
  from mult_right_mono [OF this abs_ge_zero [of "rf_amplitude F"]]
  show "\<bar>random_noise dbl F step K J I\<bar> \<le> \<bar>rf_amplitude F\<bar>"
    by (simp add: random_noise_def abs_mult)
qed (rule random_forcing_agrees [OF assms])

definition sample_forcing :: random_forcing where
  "sample_forcing = \<lparr>rf_enabled = True, rf_end_time = 50, rf_amplitude = 2, rf_seed = 12345,
     rf_k_start = 2, rf_k_end = 3\<rparr>"

definition sample_theta :: "nat \<Rightarrow> real field" where
  "sample_theta r =
     (let g = run_grid sample_run r in
      \<lparr>fname = ''th'', fdim = 3, ext_w = 1, ext_z = get_local_total_points_z g,
       ext_y = get_local_total_points_y g, ext_x = get_local_total_points_x g, fdata = (\<lambda>_. 300)\<rparr>)"

lemma random_forcing_ignores_decomposition_witness:
  "fdata (random_forcing_apply True (run_grid sample_run 0) sample_forcing 7 10 (sample_theta 0)) (0, 2, 2, 3) =
    300 + random_noise True sample_forcing 7 0 0 1"
proof -
  let ?g = "run_grid sample_run 0" and ?th = "random_forcing_apply True (run_grid sample_run 0) sample_forcing 7 10 (sample_theta 0)"
  have r: "0 \<in> run_ranks sample_run" by (simp add: sample_run_def)
  have H: "run_halo sample_run = 2"
    by (simp add: run_halo_def sample_run_def sample_grid_def initial_dimension_def)
  have z: "get_local_total_points_z ?g = 8"
    unfolding run_total_z [OF sample_run_ok r] H
    by (simp add: sample_run_def sample_grid_def initial_dimension_def)
  have c: "covers ?g (sample_theta 0)"
    using run_grid_simps(4,5) [OF sample_run_ok r] local_size_pos [OF sample_run_ok r] H z
    by (simp add: covers_def sample_theta_def field_wf_def Let_def)
  have "agrees sample_run (\<lambda>w k J I. 300) 0 (sample_theta 0) 0 0"
    by (rule agreesI) (simp add: sample_theta_def Let_def)
  note ag = random_forcing_ignores_decomposition [OF sample_run_ok r c this, THEN conjunct1, of sample_forcing 10 True 7]
  have g: "dim_y ?g = split_axis 2 0 (initial_dimension 5 (Fin 100) 2)"
    "dim_x ?g = split_axis 2 0 (initial_dimension 7 (Fin 100) 2)"
    using run_axes [OF sample_run_ok r]
    by (simp_all add: sample_run_def sample_coords_def sample_grid_def)
  note sh = same_shape_simps [OF random_forcing_shape [of "sample_theta 0" True ?g sample_forcing 7 10]]
  show ?thesis
    using agreesD [OF ag, of 0 2 2 3] sh coversD(4,5) [OF c] z
    by (simp add: H g axis_simps split_nonneg forcing_active_def sample_forcing_def)
qed

end
