(* ===== verification/Restart_Time.thy ===== *)
theory Restart_Time
  imports Floating_Point Json_Config
begin

text \<open>
  \<open>utils/RestartTime.hpp\<close>: the time and the step a restarted run begins with, from the file's
  metadata and the configured policy; and what \<open>Initializer::load_restart\<close> makes of them.
  The messages of the source are constructors that hold the values they print.  A failed
  resolution carries its message only (the caller throws it and prints no warning).  A step count is
  turned into a double without rounding.
\<close>

section \<open>The code\<close>

record restart_file_metadata =
  meta_has_time :: bool
  meta_time_s :: fp
  meta_has_step :: bool
  meta_step :: int

record time_policy =
  policy_dt_s :: fp
  has_legacy_time :: bool
  legacy_time_s :: fp
  allow_filename_fallback :: bool
  filename_interval_s :: fp
  ignore_stored_step :: bool

datatype restart_time_source =
  FileTimeAndStep | FileTimeDerivedStep | FileStepDerivedTime | LegacyConfig | Filename

datatype restart_time_error =
    Dt_not_positive fp
  | Time_not_finite fp
  | Time_negative fp
  | Step_negative int
  | Inconsistent_metadata fp int fp fp
  | No_trailing_digits
  | Index_negative int
  | Interval_not_positive fp
  | No_metadata

datatype restart_time_warning =
    Step_is_approximate fp int fp
  | Stored_step_ignored int
  | Time_derived_from_step fp
  | Legacy_time_used fp
  | Filename_used int fp

record restart_time_resolution =
  resolved_time_s :: fp
  resolved_step :: int
  resolved_source :: restart_time_source
  resolved_warnings :: "restart_time_warning list"

definition restart_time_tolerance_s :: "fp \<Rightarrow> fp \<Rightarrow> fp" where
  "restart_time_tolerance_s a b =
     (let scale = fp_max (fp_abs a) (fp_abs b)
      in fp_max (Fin (1 / 10 ^ 6)) (fp_mul (Fin (1 / 10 ^ 6)) scale))"

subsection \<open>The index in a file name\<close>

fun find_last_of :: "char \<Rightarrow> string \<Rightarrow> nat option" where
  "find_last_of c [] = None"
| "find_last_of c (x # xs) =
     (case find_last_of c xs of
        Some n \<Rightarrow> Some (Suc n)
      | None \<Rightarrow> if x = c then Some 0 else None)"

text \<open>\<open>while (n > 0 && P(s[n - 1])) --n;\<close>\<close>

fun scan_back :: "(char \<Rightarrow> bool) \<Rightarrow> string \<Rightarrow> nat \<Rightarrow> nat" where
  "scan_back P s 0 = 0"
| "scan_back P s (Suc n) = (if P (s ! n) then scan_back P s n else Suc n)"

text \<open>\<open>std::stoll\<close> of a string of digits throws when the value exceeds a \<open>long long\<close>.\<close>

definition parse_trailing_file_index :: "string \<Rightarrow> int option" where
  "parse_trailing_file_index source_file =
     (let search_end = (case find_last_of CHR ''.'' source_file of None \<Rightarrow> length source_file
                        | Some dot_pos \<Rightarrow> dot_pos);
          digit_end = scan_back (\<lambda>c. \<not> is_digit c) source_file search_end;
          digit_start = scan_back is_digit source_file digit_end
      in if digit_start = digit_end then None
         else (let v = int (read_digits (take (digit_end - digit_start) (drop digit_start source_file)))
               in if v < 2 ^ 63 then Some v else None))"

subsection \<open>The resolution\<close>

definition validate_time :: "fp \<Rightarrow> restart_time_error + unit" where
  "validate_time time_s =
     rbind (throw_if (\<not> is_finite time_s) (Time_not_finite time_s)) (\<lambda>_.
       throw_if (fp_less time_s (Fin 0)) (Time_negative time_s))"

text \<open>The step nearest to a time, and the warning when it does not reproduce the time.\<close>

definition derive_step :: "(fp \<Rightarrow> int) \<Rightarrow> fp \<Rightarrow> fp \<Rightarrow> int \<times> restart_time_warning list" where
  "derive_step ub dt time_s =
     (let step = fp_to_int ub 63 (fp_round (fp_div time_s dt));
          expected = fp_mul (Fin (of_int step)) dt;
          tolerance = restart_time_tolerance_s time_s expected
      in (step, if fp_less tolerance (fp_abs (fp_sub expected time_s))
                then [Step_is_approximate time_s step expected] else []))"

text \<open>The explicit fallbacks for a file that stores neither a time nor a step.\<close>

definition resolve_without_metadata ::
  "(fp \<Rightarrow> int) \<Rightarrow> time_policy \<Rightarrow> string \<Rightarrow> restart_time_error + restart_time_resolution" where
  "resolve_without_metadata ub policy source_file =
     (if has_legacy_time policy then
        rbind (validate_time (legacy_time_s policy)) (\<lambda>_.
          let (step, ws) = derive_step ub (policy_dt_s policy) (legacy_time_s policy) in
          Inr \<lparr>resolved_time_s = legacy_time_s policy, resolved_step = step,
               resolved_source = LegacyConfig,
               resolved_warnings = Legacy_time_used (legacy_time_s policy) # ws\<rparr>)
      else if allow_filename_fallback policy then
        (case parse_trailing_file_index source_file of
           None \<Rightarrow> Inl No_trailing_digits
         | Some index \<Rightarrow>
             rbind (throw_if (index < 0) (Index_negative index)) (\<lambda>_.
             rbind (throw_if (\<not> is_finite (filename_interval_s policy) \<or>
                       fp_le (filename_interval_s policy) (Fin 0))
                     (Interval_not_positive (filename_interval_s policy))) (\<lambda>_.
               let time_s = fp_mul (Fin (of_int index)) (filename_interval_s policy) in
               rbind (validate_time time_s) (\<lambda>_.
                 let (step, ws) = derive_step ub (policy_dt_s policy) time_s in
                 Inr \<lparr>resolved_time_s = time_s, resolved_step = step, resolved_source = Filename,
                      resolved_warnings = Filename_used index time_s # ws\<rparr>))))
      else Inl No_metadata)"

definition resolve_restart_time ::
  "(fp \<Rightarrow> int) \<Rightarrow> restart_file_metadata \<Rightarrow> time_policy \<Rightarrow> string \<Rightarrow>
     restart_time_error + restart_time_resolution" where
  "resolve_restart_time ub meta policy source_file =
     (let dt = policy_dt_s policy in
      rbind (throw_if (\<not> is_finite dt \<or> fp_le dt (Fin 0)) (Dt_not_positive dt)) (\<lambda>_.
      if meta_has_time meta then
        rbind (validate_time (meta_time_s meta)) (\<lambda>_.
          let ignored = (if meta_has_step meta \<and> ignore_stored_step policy
                         then [Stored_step_ignored (meta_step meta)] else []) in
          if meta_has_step meta \<and> \<not> ignore_stored_step policy then
            rbind (throw_if (meta_step meta < 0) (Step_negative (meta_step meta))) (\<lambda>_.
              let expected = fp_mul (Fin (of_int (meta_step meta))) dt;
                  tolerance = restart_time_tolerance_s (meta_time_s meta) expected in
              rbind (throw_if (fp_less tolerance (fp_abs (fp_sub expected (meta_time_s meta))))
                       (Inconsistent_metadata (meta_time_s meta) (meta_step meta) dt expected)) (\<lambda>_.
                Inr \<lparr>resolved_time_s = meta_time_s meta, resolved_step = meta_step meta,
                     resolved_source = FileTimeAndStep, resolved_warnings = ignored\<rparr>))
          else
            (let (step, ws) = derive_step ub dt (meta_time_s meta) in
             Inr \<lparr>resolved_time_s = meta_time_s meta, resolved_step = step,
                  resolved_source = FileTimeDerivedStep, resolved_warnings = ignored @ ws\<rparr>))
      else if meta_has_step meta then
        rbind (throw_if (meta_step meta < 0) (Step_negative (meta_step meta))) (\<lambda>_.
          let time_s = fp_mul (Fin (of_int (meta_step meta))) dt in
          Inr \<lparr>resolved_time_s = time_s, resolved_step = meta_step meta,
               resolved_source = FileStepDerivedTime, resolved_warnings = [Time_derived_from_step time_s]\<rparr>)
      else resolve_without_metadata ub policy source_file))"

subsection \<open>Loading a restart\<close>

definition restart_time_policy :: "json \<Rightarrow> config_error + time_policy" where
  "restart_time_policy config =
     rbind (get_value as_double config ''simulation.dt_s'') (\<lambda>dt.
     let legacy = has_key config ''restart.legacy_time_s'' in
     rbind (if legacy then get_value as_double config ''restart.legacy_time_s'' else Inr (Fin 0)) (\<lambda>t.
     rbind (get_value_default as_bool config ''restart.allow_filename_time_fallback'' False) (\<lambda>allow.
     rbind (get_value_default as_double config ''restart.file_interval_s'' (Fin 3600)) (\<lambda>interval.
     rbind (get_value_default as_bool config ''restart.ignore_stored_step'' False) (\<lambda>ignore.
       Inr \<lparr>policy_dt_s = dt, has_legacy_time = legacy, legacy_time_s = t,
            allow_filename_fallback = allow, filename_interval_s = interval,
            ignore_stored_step = ignore\<rparr>)))))"

text \<open>\<open>MPI_Bcast\<close> from process 0, the head of the list: what each process is left with.\<close>

definition broadcast_restart_metadata ::
  "restart_file_metadata list \<Rightarrow> restart_file_metadata list" where
  "broadcast_restart_metadata ms =
     map (\<lambda>m. \<lparr>meta_has_time = meta_has_time (hd ms), meta_time_s = meta_time_s (hd ms),
                meta_has_step = meta_has_step (hd ms), meta_step = meta_step (hd ms)\<rparr>) ms"

datatype load_restart_error = Restart_config config_error | Restart_clock restart_time_error

text \<open>The clock part of \<open>load_restart\<close> on a process, whose metadata is the broadcast one: the new
  time and step of the state.  \<open>size_t(step)\<close> is a 64-bit word.\<close>

definition load_restart ::
  "(fp \<Rightarrow> int) \<Rightarrow> json \<Rightarrow> restart_file_metadata \<Rightarrow> load_restart_error + fp \<times> 64 word" where
  "load_restart ub config metadata =
     rbind (map_error Restart_config (get_value as_string config ''restart.source_file'')) (\<lambda>file.
     rbind (map_error Restart_config (restart_time_policy config)) (\<lambda>policy.
     rbind (map_error Restart_clock (resolve_restart_time ub metadata policy file)) (\<lambda>r.
       Inr (resolved_time_s r, word_of_int (resolved_step r)))))"

definition load_restart_all ::
  "(fp \<Rightarrow> int) \<Rightarrow> json \<Rightarrow> restart_file_metadata list \<Rightarrow> (load_restart_error + fp \<times> 64 word) list" where
  "load_restart_all ub config ms = map (load_restart ub config) (broadcast_restart_metadata ms)"

text \<open>The name of an HDF5 output file (\<open>io/OutputManager.cpp\<close>): \<open>setfill('0') << setw(6)\<close> of a
  number that is not negative.\<close>

definition format_to_six_digits :: "nat \<Rightarrow> string" where
  "format_to_six_digits n = replicate (6 - length (show_nat n)) CHR ''0'' @ show_nat n"

definition hdf5_file_name :: "string \<Rightarrow> string \<Rightarrow> nat \<Rightarrow> string" where
  "hdf5_file_name output_dir filename_prefix n =
     output_dir @ ''/'' @ filename_prefix @ ''_'' @ format_to_six_digits n @ ''.h5''"

section \<open>The index in a file name\<close>

lemma find_last_of_none: "c \<notin> set s \<Longrightarrow> find_last_of c s = None"
  by (induction s) auto

lemma find_last_of_append: "c \<notin> set v \<Longrightarrow> find_last_of c (u @ c # v) = Some (length u)"
  by (induction u) (simp_all add: find_last_of_none)

lemma scan_back_append:
  assumes "\<forall>c \<in> set v. P c" and "u = [] \<or> \<not> P (last u)"
  shows "scan_back P (u @ v @ w) (length u + length v) = length u"
  using assms(1)
proof (induction v arbitrary: w rule: rev_induct)
  case Nil
  show ?case
  proof (cases u rule: rev_cases)
    case (snoc u' c)
    then show ?thesis using assms(2) by (simp add: nth_append)
  qed simp
next
  case (snoc c v)
  then show ?case using snoc.IH [of "c # w"] by (simp add: nth_append)
qed

text \<open>The digits before the last run of other characters in front of the last dot.\<close>

lemma parse_index_before_dot:
  assumes "\<forall>c \<in> set ds. is_digit c" and "ds \<noteq> []" and "u = [] \<or> \<not> is_digit (last u)"
    and "\<forall>c \<in> set mid. \<not> is_digit c" and "CHR ''.'' \<notin> set rest"
  shows "parse_trailing_file_index (u @ ds @ mid @ CHR ''.'' # rest) =
    (if int (read_digits ds) < 2 ^ 63 then Some (int (read_digits ds)) else None)"
proof -
  have dot: "find_last_of CHR ''.'' (u @ ds @ mid @ CHR ''.'' # rest) = Some (length (u @ ds) + length mid)"
    using find_last_of_append [OF assms(5), of "u @ ds @ mid"] by simp
  have last: "is_digit (last (u @ ds))" using assms(1,2) by simp
  have e: "scan_back (\<lambda>c. \<not> is_digit c) (u @ ds @ mid @ CHR ''.'' # rest) (length (u @ ds) + length mid) = length (u @ ds)"
    using scan_back_append [of mid "\<lambda>c. \<not> is_digit c" "u @ ds"] assms(4) last by simp
  have d: "scan_back is_digit (u @ ds @ mid @ CHR ''.'' # rest) (length (u @ ds)) = length u"
    using scan_back_append [of ds is_digit u] assms(1,3) by simp
  show ?thesis using assms(2) by (simp add: parse_trailing_file_index_def dot e d Let_def del: length_append)
    simp
qed

lemma read_digits_zeros: "read_digits (replicate m CHR ''0'' @ ds) = read_digits ds"
proof -
  have "fold (\<lambda>c n. 10 * n + digit_value c) (replicate m CHR ''0'') (0 :: nat) = 0"
    by (induction m) (simp_all add: digit_value_def)
  then show ?thesis by (simp add: read_digits_def)
qed

lemma format_to_six_digits:
  "\<forall>c \<in> set (format_to_six_digits n). is_digit c" "format_to_six_digits n \<noteq> []"
  "read_digits (format_to_six_digits n) = n"
  using show_nat_digits [of n] show_nat_nonempty [of n]
  by (auto simp: format_to_six_digits_def read_digits_zeros read_show_nat is_digit_def)

text \<open>The number in the name of an HDF5 output file is what the fallback reads from it, for
  every directory and prefix.\<close>

theorem file_index_roundtrip:
  "n < 2 ^ 63 \<Longrightarrow> parse_trailing_file_index (hdf5_file_name output_dir prefix n) = Some (int n)"
  using parse_index_before_dot [of "format_to_six_digits n" "output_dir @ ''/'' @ prefix @ ''_''" "[]" "''h5''"]
  by (simp add: hdf5_file_name_def format_to_six_digits) (simp add: is_digit_def)

lemma file_index_roundtrip_witness:
  "parse_trailing_file_index (hdf5_file_name ''out.2024'' ''vvm2d'' 36) = Some 36"
  using file_index_roundtrip [of 36] by simp

text \<open>The search starts from the last dot of the whole path: when the file name has no dot, a dot in a
  directory name hides the file name, and the index is read from the directory.\<close>

theorem file_index_from_directory:
  assumes "CHR ''.'' \<notin> set rest" and "\<not> is_digit (last u)"
  shows "parse_trailing_file_index (u @ show_nat m @ CHR ''.'' # rest) =
    (if m < 2 ^ 63 then Some (int m) else None)"
  using parse_index_before_dot [of "show_nat m" u "[]" rest] assms show_nat_digits [of m]
    show_nat_nonempty [of m] read_show_nat [of m]
  by auto

lemma file_index_from_directory_witness:
  "parse_trailing_file_index (''case'' @ show_nat 2 @ ''.out/restart_000012'') = Some 2"
  using file_index_from_directory [of "''out/restart_000012''" "''case''" 2] by (simp add: is_digit_def)

section \<open>The clock of a restarted run\<close>

definition tolerance :: "real \<Rightarrow> real \<Rightarrow> real" where
  "tolerance a b = max (1 / 10 ^ 6) (1 / 10 ^ 6 * max \<bar>a\<bar> \<bar>b\<bar>)"

lemma restart_time_tolerance_Fin:
  assumes "\<bar>a\<bar> \<le> dbl_max" and "\<bar>b\<bar> \<le> dbl_max"
  shows "restart_time_tolerance_s (Fin a) (Fin b) = Fin (tolerance a b)"
proof -
  have "\<bar>1 / 10 ^ 6 * max \<bar>a\<bar> \<bar>b\<bar>\<bar> \<le> dbl_max" 
    using assms dbl_max_pos by (simp add: abs_mult max_def)
  then show ?thesis by (simp add: restart_time_tolerance_s_def tolerance_def Let_def)
qed

lemma tolerance_pos: "0 < tolerance a b"
  by (simp add: tolerance_def max_def)

text \<open>The consistency test on finite values.\<close>

lemma inconsistent_iff:
  assumes "0 \<le> a" "a \<le> dbl_max" "0 \<le> b" "b \<le> dbl_max"
  shows "fp_less (restart_time_tolerance_s (Fin a) (Fin b)) (fp_abs (fp_sub (Fin b) (Fin a))) \<longleftrightarrow>
    tolerance a b < \<bar>b - a\<bar>"
  using assms by (simp add: restart_time_tolerance_Fin abs_le_iff)

lemma derive_step_Fin:
  assumes "0 < dt" and "dt * 2 ^ 64 \<le> dbl_max" and "0 \<le> t" and "t < (2 ^ 63 - 1) * dt"
    and "step = cpp_round (t / dt)"
  shows "derive_step ub (Fin dt) (Fin t) =
      (step, if tolerance t (of_int step * dt) < \<bar>of_int step * dt - t\<bar>
             then [Step_is_approximate (Fin t) step (Fin (of_int step * dt))] else [])"
    and "0 \<le> step" and "\<bar>of_int step * dt - t\<bar> \<le> dt / 2"
    and "of_int step * dt \<le> dbl_max" and "t \<le> dbl_max"
proof -
  have q: "0 \<le> t / dt" "t / dt < 2 ^ 63 - 1" using assms by (simp_all add: pos_divide_less_eq)
  show nonneg: "0 \<le> step" using q by (simp add: assms(5) cpp_round_def)
  have err: "\<bar>of_int step - t / dt\<bar> \<le> 1 / 2" unfolding assms(5) by (rule cpp_round_error)
  have "of_int step < (2 ^ 63 :: real)" using err q(2) by linarith
  then have step: "step < 2 ^ 63" by simp
  have "\<bar>of_int step * dt - t\<bar> = \<bar>of_int step - t / dt\<bar> * dt"
    by (rule abs_diff_scale [OF assms(1)])
  also have "\<dots> \<le> 1 / 2 * dt" by (rule mult_right_mono) (use err assms(1) in simp_all)
  finally show "\<bar>of_int step * dt - t\<bar> \<le> dt / 2" by simp
  have "of_int step * dt \<le> 2 ^ 64 * dt"
    using \<open>of_int step < (2 ^ 63 :: real)\<close> assms(1) by (intro mult_right_mono) simp_all
  then show e: "of_int step * dt \<le> dbl_max" using assms(2) by (simp add: mult.commute)
  have "(2 ^ 63 - 1) * dt \<le> 2 ^ 64 * dt" using assms(1) by (intro mult_right_mono) simp_all
  then show t: "t \<le> dbl_max" using assms(2,4) by (simp add: mult.commute)
  have quot: "fp_to_int ub 63 (fp_round (fp_div (Fin t) (Fin dt))) = step"
    using assms(1,5) q nonneg step dbl_max_pos by (simp add: fp_to_int_def)
  have mul: "fp_mul (Fin (of_int step)) (Fin dt) = Fin (of_int step * dt)"
    using e nonneg assms(1) by (simp add: abs_mult)
  show "derive_step ub (Fin dt) (Fin t) =
      (step, if tolerance t (of_int step * dt) < \<bar>of_int step * dt - t\<bar>
             then [Step_is_approximate (Fin t) step (Fin (of_int step * dt))] else [])"
    unfolding derive_step_def Let_def quot mul
    by (subst inconsistent_iff) (use assms(1,3) nonneg t e in simp_all)
qed

lemma validate_time_eq_Inr [simp]: "validate_time t = Inr u \<longleftrightarrow> (\<exists>r. t = Fin r \<and> 0 \<le> r)"
  by (cases t) (auto simp: validate_time_def rbind_eq_Inr_iff)

lemma resolve_cases:
  assumes "resolve_restart_time ub meta policy file = Inr r" and "policy_dt_s policy = Fin dt"
  shows "(\<exists>t. meta_time_s meta = Fin t \<and> 0 \<le> t \<and> 0 \<le> meta_step meta \<and>
      \<not> fp_less (restart_time_tolerance_s (Fin t) (fp_mul (Fin (of_int (meta_step meta))) (Fin dt)))
         (fp_abs (fp_sub (fp_mul (Fin (of_int (meta_step meta))) (Fin dt)) (Fin t))) \<and>
      resolved_time_s r = Fin t \<and> resolved_step r = meta_step meta) \<or>
    0 \<le> meta_step meta \<and> resolved_step r = meta_step meta \<and>
      resolved_time_s r = fp_mul (Fin (of_int (meta_step meta))) (Fin dt) \<or>
    (\<exists>t. 0 \<le> t \<and> resolved_time_s r = Fin t \<and> resolved_step r = fst (derive_step ub (Fin dt) (Fin t)) \<and>
      set (snd (derive_step ub (Fin dt) (Fin t))) \<subseteq> set (resolved_warnings r))"
  using assms
  by (auto simp: resolve_restart_time_def resolve_without_metadata_def rbind_eq_Inr_iff Let_def not_less case_prod_beta
      simp del: fp_mul.simps split: if_splits option.splits)

text \<open>C8. The clock of an accepted restart, when \<open>dt\<close> is small enough for no \<open>step * dt\<close> to
  leave the range of a double and the time is less than \<open>2^63 - 1\<close> steps: the time step is
  positive, the time is finite and not negative, the step is not negative, and either \<open>step * dt\<close> is the
  time up to the tolerance, or the step is the nearest one and a warning says so.\<close>

theorem restart_clock_is_consistent:
  assumes "resolve_restart_time ub meta policy file = Inr r" and "policy_dt_s policy = Fin dt"
    and "dt * 2 ^ 64 \<le> dbl_max" and "meta_step meta < 2 ^ 63"
    and "\<forall>t. resolved_time_s r = Fin t \<longrightarrow> t < (2 ^ 63 - 1) * dt"
  shows "\<exists>t. 0 < dt \<and> resolved_time_s r = Fin t \<and> 0 \<le> t \<and> 0 \<le> resolved_step r \<and>
    (\<bar>of_int (resolved_step r) * dt - t\<bar> \<le> tolerance t (of_int (resolved_step r) * dt) \<or>
     \<bar>of_int (resolved_step r) * dt - t\<bar> \<le> dt / 2 \<and>
       Step_is_approximate (Fin t) (resolved_step r) (Fin (of_int (resolved_step r) * dt))
         \<in> set (resolved_warnings r))"
proof -
  have dt: "0 < dt"
    using assms(1,2) by (simp add: resolve_restart_time_def resolve_without_metadata_def rbind_eq_Inr_iff Let_def not_le)
  have from_time: ?thesis
    if "0 \<le> t" "resolved_time_s r = Fin t" "resolved_step r = fst (derive_step ub (Fin dt) (Fin t))"
      "set (snd (derive_step ub (Fin dt) (Fin t))) \<subseteq> set (resolved_warnings r)" for t
  proof -
    have bound: "t < (2 ^ 63 - 1) * dt" using assms(5) that(2) by blast
    note d = derive_step_Fin [OF dt assms(3) that(1) bound refl]
    have "resolved_step r = cpp_round (t / dt)" using that(3) d(1) [of ub] by simp
    then show ?thesis
      using d(2,3) d(1) [of ub] that dt by (auto split: if_splits)
  qed
  have step_bound: "of_int (meta_step meta) * dt \<le> dbl_max" if "0 \<le> meta_step meta"
  proof -
    have "(of_int (meta_step meta) :: real) \<le> of_int (2 ^ 63)" using assms(4) unfolding of_int_le_iff by simp
    then have "of_int (meta_step meta) * dt \<le> 2 ^ 64 * dt" using dt by (intro mult_right_mono) simp_all
    then show ?thesis using assms(3) by (simp add: mult.commute)
  qed
  have mul: "fp_mul (Fin (of_int (meta_step meta))) (Fin dt) = Fin (of_int (meta_step meta) * dt)"
    if "0 \<le> meta_step meta"
    using step_bound [OF that] that dt by (simp add: abs_mult)
  from resolve_cases [OF assms(1,2)]
  consider
      (both) t where "meta_time_s meta = Fin t" "0 \<le> t" "0 \<le> meta_step meta"
        "\<not> fp_less (restart_time_tolerance_s (Fin t) (fp_mul (Fin (of_int (meta_step meta))) (Fin dt)))
           (fp_abs (fp_sub (fp_mul (Fin (of_int (meta_step meta))) (Fin dt)) (Fin t)))"
        "resolved_time_s r = Fin t" "resolved_step r = meta_step meta"
    | (step) "0 \<le> meta_step meta" "resolved_step r = meta_step meta"
        "resolved_time_s r = fp_mul (Fin (of_int (meta_step meta))) (Fin dt)"
    | (time) t where "0 \<le> t" "resolved_time_s r = Fin t"
        "resolved_step r = fst (derive_step ub (Fin dt) (Fin t))"
        "set (snd (derive_step ub (Fin dt) (Fin t))) \<subseteq> set (resolved_warnings r)"
    by blast
  then show ?thesis
  proof cases
    case both
    have "t < (2 ^ 63 - 1) * dt" using assms(5) both(5) by blast
    then have t: "t \<le> dbl_max" by (rule derive_step_Fin(5) [OF dt assms(3) both(2) _ refl])
    have "\<bar>of_int (meta_step meta) * dt - t\<bar> \<le> tolerance t (of_int (meta_step meta) * dt)"
      using both(4) inconsistent_iff [OF both(2) t _ step_bound [OF both(3)]] both(3) dt
      unfolding mul [OF both(3)] by simp
    then show ?thesis using both dt by simp
  next
    case step
    then show ?thesis using dt mul tolerance_pos by (simp add: less_imp_le)
  next
    case time
    then show ?thesis using from_time [of t] by blast
  qed
qed

definition sample_policy :: time_policy where
  "sample_policy = \<lparr>policy_dt_s = Fin 10, has_legacy_time = False, legacy_time_s = Fin 0,
     allow_filename_fallback = False, filename_interval_s = Fin 3600, ignore_stored_step = False\<rparr>"

definition sample_metadata :: restart_file_metadata where
  "sample_metadata = \<lparr>meta_has_time = True, meta_time_s = Fin 604, meta_has_step = False, meta_step = 0\<rparr>"

lemma sample_resolution:
  "resolve_restart_time ub sample_metadata sample_policy file =
     Inr \<lparr>resolved_time_s = Fin 604, resolved_step = 60, resolved_source = FileTimeDerivedStep,
          resolved_warnings = [Step_is_approximate (Fin 604) 60 (Fin 600)]\<rparr>"
proof -
  have dt: "10 * 2 ^ 64 \<le> dbl_max" by (rule dbl_max_ge) simp
  have round: "60 = cpp_round (604 / 10)" by (simp add: cpp_round_def)
  have "derive_step ub (Fin 10) (Fin 604) = (60, [Step_is_approximate (Fin 604) 60 (Fin 600)])"
    using derive_step_Fin(1) [OF _ dt _ _ round, of ub] by (simp add: tolerance_def)
  then show ?thesis
    by (simp add: resolve_restart_time_def sample_metadata_def sample_policy_def validate_time_def Let_def)
qed

text \<open>604 s are no whole number of steps of 10 s: step 60, with a warning.\<close>

lemma restart_clock_is_consistent_witness:
  "\<exists>r. resolve_restart_time (\<lambda>_. 0) sample_metadata sample_policy ''restart.h5'' = Inr r \<and>
     \<bar>of_int (resolved_step r) * 10 - 604\<bar> \<le> (5 :: real)"
proof -
  have dt: "10 * 2 ^ 64 \<le> dbl_max" by (rule dbl_max_ge) simp
  show ?thesis
    using restart_clock_is_consistent [OF sample_resolution, where dt = 10] dt
    by (simp add: sample_resolution)
qed

text \<open>As long as the file stores a time or a step, the file name and the policy's fallbacks have
  no influence on the clock, and the source of the clock follows the documented order.\<close>

theorem restart_metadata_priority:
  assumes "meta_has_time meta \<or> meta_has_step meta"
    and "policy_dt_s policy = policy_dt_s policy'"
    and "ignore_stored_step policy = ignore_stored_step policy'"
  shows "resolve_restart_time ub meta policy file = resolve_restart_time ub meta policy' file' \<and>
    (case resolve_restart_time ub meta policy file of Inl e \<Rightarrow> True
     | Inr r \<Rightarrow> resolved_source r =
         (if meta_has_time meta \<and> meta_has_step meta \<and> \<not> ignore_stored_step policy then FileTimeAndStep
          else if meta_has_time meta then FileTimeDerivedStep else FileStepDerivedTime) \<and>
         (meta_has_time meta \<longrightarrow> resolved_time_s r = meta_time_s meta) \<and>
         (\<not> meta_has_time meta \<or> meta_has_step meta \<and> \<not> ignore_stored_step policy \<longrightarrow>
            resolved_step r = meta_step meta))"
proof -
  have "resolve_restart_time ub meta policy file = resolve_restart_time ub meta policy' file'"
    using assms by (auto simp: resolve_restart_time_def Let_def)
  moreover have "resolve_restart_time ub meta policy file = Inr r \<Longrightarrow>
      resolved_source r =
         (if meta_has_time meta \<and> meta_has_step meta \<and> \<not> ignore_stored_step policy then FileTimeAndStep
          else if meta_has_time meta then FileTimeDerivedStep else FileStepDerivedTime) \<and>
         (meta_has_time meta \<longrightarrow> resolved_time_s r = meta_time_s meta) \<and>
         (\<not> meta_has_time meta \<or> meta_has_step meta \<and> \<not> ignore_stored_step policy \<longrightarrow>
            resolved_step r = meta_step meta)" for r
    using assms(1)
    by (auto simp: resolve_restart_time_def resolve_without_metadata_def rbind_eq_Inr_iff Let_def case_prod_beta
        simp del: fp_mul.simps split: if_splits)
  ultimately show ?thesis by (auto split: sum.splits)
qed

lemma restart_metadata_priority_witness:
  "resolve_restart_time (\<lambda>_. 0) sample_metadata
     (sample_policy\<lparr>allow_filename_fallback := True, has_legacy_time := True\<rparr>) ''out_000007.h5'' =
   resolve_restart_time (\<lambda>_. 0) sample_metadata sample_policy ''restart.h5''"
  using restart_metadata_priority [of sample_metadata
      "sample_policy\<lparr>allow_filename_fallback := True, has_legacy_time := True\<rparr>" sample_policy "\<lambda>_. 0"
      "''out_000007.h5''" "''restart.h5''"]
  by (simp add: sample_metadata_def)

text \<open>C11. A run that resumes from a file written after \<open>n\<close> steps of length \<open>dt\<close> has the clock
  of that moment, whichever of the time and the step the file stores, and every process of the run has it.\<close>

theorem restart_resumes_written_clock:
  assumes "0 < dt" and "dt * 2 ^ 64 \<le> dbl_max" and "0 \<le> n" and "n < 2 ^ 63 - 1"
    and "meta_has_time m \<or> meta_has_step m"
    and "meta_time_s m = Fin (of_int n * dt)" and "meta_step m = n"
    and "get_value as_string config ''restart.source_file'' = Inr file"
    and "restart_time_policy config = Inr policy" and "policy_dt_s policy = Fin dt"
    and "hd metas = m"
  shows "load_restart_all ub config metas =
    replicate (length metas) (Inr (Fin (of_int n * dt), word_of_int n))"
proof -
  have "(of_int n :: real) < of_int (2 ^ 63 - 1)" using assms(4) unfolding of_int_less_iff .
  then have n: "(of_int n :: real) < 2 ^ 63 - 1" by simp
  have t: "of_int n * dt < (2 ^ 63 - 1) * dt" by (rule mult_strict_right_mono) (rule n, rule assms(1))
  have r: "n = cpp_round (of_int n * dt / dt)" using assms(1) by simp
  note d = derive_step_Fin [OF assms(1,2) _ t r]
  have d1: "derive_step ub (Fin dt) (Fin (of_int n * dt)) = (n, [])"
    using d(1) [of ub] assms(1,3) tolerance_pos by (simp add: not_less less_imp_le)
  have mul: "fp_mul (Fin (of_int n)) (Fin dt) = Fin (of_int n * dt)"
    using d(5) assms(1,3) by (simp add: abs_mult)
  have ok: "\<not> fp_less (restart_time_tolerance_s (Fin (of_int n * dt)) (Fin (of_int n * dt)))
      (fp_abs (fp_sub (Fin (of_int n * dt)) (Fin (of_int n * dt))))"
    using inconsistent_iff [of "of_int n * dt" "of_int n * dt"] d(5) assms(1,3) tolerance_pos
    by (simp add: not_less less_imp_le)
  have valid: "validate_time (Fin (of_int n * dt)) = Inr ()" using assms(1,3) by simp
  have "\<exists>s w. resolve_restart_time ub m policy file =
      Inr \<lparr>resolved_time_s = Fin (of_int n * dt), resolved_step = n, resolved_source = s, resolved_warnings = w\<rparr>"
    using assms(1,3,5) ok
    unfolding resolve_restart_time_def Let_def assms(6,7,10) mul valid d1
    by (cases "meta_has_time m"; cases "meta_has_step m"; cases "ignore_stored_step policy")
       (simp_all del: fp_sub_Fin)
  then have "load_restart ub config m = Inr (Fin (of_int n * dt), word_of_int n)"
    using assms(8,9) by (auto simp: load_restart_def)
  moreover have "broadcast_restart_metadata metas = replicate (length metas) m"
    using assms(11) by (simp add: broadcast_restart_metadata_def map_replicate_const)
  ultimately show ?thesis by (simp add: load_restart_all_def)
qed

definition sample_restart_config :: json where
  "sample_restart_config = JObject [(''simulation'', JObject [(''dt_s'', JInt 10)]),
     (''restart'', JObject [(''source_file'', JString ''restart.h5'')])]"

lemma restart_resumes_written_clock_witness:
  "load_restart_all (\<lambda>_. 0) sample_restart_config
     (replicate 3 \<lparr>meta_has_time = False, meta_time_s = Fin 1200, meta_has_step = True, meta_step = 120\<rparr>) =
   replicate 3 (Inr (Fin 1200, 120))"
proof -
  have find: "find_node sample_restart_config ''restart.source_file'' = Some (JString ''restart.h5'')"
    "find_node sample_restart_config ''simulation.dt_s'' = Some (JInt 10)"
    "find_node sample_restart_config ''restart.legacy_time_s'' = None"
    "find_node sample_restart_config ''restart.allow_filename_time_fallback'' = None"
    "find_node sample_restart_config ''restart.file_interval_s'' = None"
    "find_node sample_restart_config ''restart.ignore_stored_step'' = None"
    by code_simp+
  have src: "get_value as_string sample_restart_config ''restart.source_file'' = Inr ''restart.h5''"
    by (simp add: get_value_def find)
  have policy: "restart_time_policy sample_restart_config = Inr sample_policy"
    by (simp add: restart_time_policy_def get_value_def get_value_default_def has_key_def find sample_policy_def
        Let_def)
  have dt: "10 * 2 ^ 64 \<le> dbl_max" by (rule dbl_max_ge) simp
  show ?thesis
    using restart_resumes_written_clock [where dt = 10 and n = 120, OF _ dt _ _ _ _ _ src policy, where
        m = "\<lparr>meta_has_time = False, meta_time_s = Fin 1200, meta_has_step = True, meta_step = 120\<rparr>" and
        metas = "replicate 3 \<lparr>meta_has_time = False, meta_time_s = Fin 1200, meta_has_step = True, meta_step = 120\<rparr>"
        and ub = "\<lambda>_. 0"]
    by (simp add: sample_policy_def)
qed

end
