(* ===== verification/Nudging.thy ===== *)
theory Nudging
  imports Time_Integration Restart_Time
begin

text \<open>
  \<open>dynamics/forcings/SpongeLayer\<close> and \<open>dynamics/forcings/LateralBoundaryNudging\<close>: the tendencies that
  relax the state towards reference profiles near the model top and towards large-scale fields near
  the lateral boundaries, and the buffers with the large-scale forcing that varies in time.

  The fields \<open>..._ls\<close>, \<open>..._ls_T1\<close> and \<open>..._ls_T2\<close> of the state are the map \<open>store\<close>.  PnetCDF is a
  parameter.  The lemmas follow the buffers through the exchanges of their names; the properties say when the
  forcing interpolates in time, when it does not, and that both tendencies relax.
\<close>

section \<open>The sponge layer\<close>

record sponge =
  sponge_thermo_vars :: "string list"
  sponge_dynamics_vars :: "string list"
  damp_thermo :: bool
  damp_vort :: bool
  crad :: real
  k_start_thermo :: int
  k_start_vort :: int
  cgr_thermo :: "int \<Rightarrow> real"
  cgr_vort :: "int \<Rightarrow> real"

text \<open>The loop that looks for the first level of the layer from the top of the array downwards.
  \<open>None\<close>: no level lies below the base, and the code leaves the member without a value.\<close>

definition sponge_start :: "grid \<Rightarrow> (int \<Rightarrow> real) \<Rightarrow> real \<Rightarrow> int option" where
  "sponge_start g z base =
     (let nz' = get_local_total_points_z g; h = get_halo_cells g
      in map_option (\<lambda>k. k + 1) (find (\<lambda>k. z k < base) (rev (range1 (h + 1) (nz' - h + 1)))))"

text \<open>\<open>initialize\<close>; \<open>None\<close> when one of the start levels has no value.  The profiles are zero when they
  are added to the state.\<close>

definition make_sponge ::
  "grid \<Rightarrow> json \<Rightarrow> (int \<Rightarrow> real) \<Rightarrow> (int \<Rightarrow> real) \<Rightarrow> config_error + sponge option" where
  "make_sponge g config z_mid z_up =
     (let key = (\<lambda>k. ''dynamics.forcings.sponge_layer.'' @ k);
          get_real = (\<lambda>k d. get_value_default (map_option fval \<circ> as_double) config (key k) d);
          top = get_local_total_points_z g - get_halo_cells g
      in rbind (get_value_default as_bool config ''physics.p3.enable_p3'' False) (\<lambda>p3.
         rbind (get_value_default as_bool config (key ''damp_thermo'') True) (\<lambda>thermo.
         rbind (get_value_default as_bool config (key ''damp_vort'') True) (\<lambda>vort.
         rbind (get_real ''inv_CRAD'' (-1)) (\<lambda>inv.
         rbind (get_real ''sponge_layer_base'' (-1)) (\<lambda>base.
           let rate = 1 / inv in
           Inr (Option.bind (sponge_start g z_mid base) (\<lambda>kt.
                map_option (\<lambda>kv.
                  \<lparr>sponge_thermo_vars = [''th'', ''qv''] @
                     (if p3 then [''qc'', ''qr'', ''qi'', ''nc'', ''nr'', ''ni'', ''bm'', ''qm''] else []),
                   sponge_dynamics_vars = [''xi'', ''eta'', ''zeta''],
                   damp_thermo = thermo, damp_vort = vort, crad = rate,
                   k_start_thermo = kt, k_start_vort = kv,
                   cgr_thermo = (\<lambda>k. if kt \<le> k \<and> k < top
                     then rate * (z_mid k - z_mid (kt - 1)) / (z_mid (top - 1) - z_mid (kt - 1)) else 0),
                   cgr_vort = (\<lambda>k. if kv \<le> k \<and> k < top
                     then rate * (z_up k - z_mid (kt - 1)) / (z_mid (top - 1) - z_mid (kt - 1)) else 0)\<rparr>)
                (sponge_start g z_up base)))))))))"

text \<open>\<open>calculate_tendencies\<close> into a three-dimensional field.  \<open>reference\<close> gives the profiles \<open>thbar\<close> and
  \<open>qvbar\<close>.\<close>

definition sponge_tendency_3 ::
  "grid \<Rightarrow> sponge \<Rightarrow> (string \<Rightarrow> int \<Rightarrow> real) \<Rightarrow> string \<Rightarrow> view \<Rightarrow> view \<Rightarrow> view" where
  "sponge_tendency_3 g S reference name var_data tend =
     (if \<not> damp_vort S \<and> name \<in> set (sponge_dynamics_vars S) then tend
      else if \<not> damp_thermo S \<and> name \<in> set (sponge_thermo_vars S) then tend
      else
        (let h = get_halo_cells g; nz' = get_local_total_points_z g;
             k_end = (if name = ''xi'' \<or> name = ''eta'' then nz' - h - 1 else nz' - h)
         in if name = ''xi'' \<or> name = ''eta'' then
              parallel_for (physical_cells g (k_start_vort S) k_end)
                (assign at_cell (\<lambda>c d. d (at_cell c) + - cgr_vort S (fst c) * var_data (at_cell c))) tend
            else if name = ''th'' \<or> name = ''qv'' then
              parallel_for (physical_cells g (k_start_thermo S) k_end)
                (assign at_cell (\<lambda>c d. d (at_cell c) +
                   - cgr_thermo S (fst c) * (var_data (at_cell c) - reference name (fst c)))) tend
            else
              parallel_for (physical_cells g (k_start_thermo S) k_end)
                (assign at_cell (\<lambda>c d. d (at_cell c) + - cgr_thermo S (fst c) * var_data (at_cell c))) tend))"

text \<open>Into a two-dimensional field, that is for \<open>zeta\<close> on the top level; \<open>background\<close> is the field
  \<open>rll_background_zeta\<close> of a mapped grid, if the state has it.\<close>

definition sponge_tendency_2 ::
  "grid \<Rightarrow> sponge \<Rightarrow> view option \<Rightarrow> string \<Rightarrow> view \<Rightarrow> view \<Rightarrow> view" where
  "sponge_tendency_2 g S background name var_data tend =
     (if \<not> damp_vort S \<and> name \<in> set (sponge_dynamics_vars S) then tend
      else if \<not> damp_thermo S \<and> name \<in> set (sponge_thermo_vars S) then tend
      else
        (let h = get_halo_cells g; k_top = get_local_total_points_z g - h - 1;
             mapped = kind (geometry (horizontal (grid_spec g))) \<noteq> Cartesian;
             relax = (\<lambda>ref. parallel_for
               (mdrange2 h h (get_local_total_points_y g - h) (get_local_total_points_x g - h))
               (assign (\<lambda>(j, i). (0, 0, j, i)) (\<lambda>(j, i) d. d (0, 0, j, i) +
                  - crad S * (var_data (0, k_top, j, i) - ref (0, 0, j, i)))) tend)
         in case background of
              Some b \<Rightarrow> if mapped then relax b else relax (\<lambda>_. 0)
            | None \<Rightarrow> relax (\<lambda>_. 0)))"

section \<open>Lateral boundary nudging\<close>

datatype nudging_error = Forcing_file_error string | Config_error_in_nudging config_error

record lateral =
  nudge_w :: bool
  nudge_e :: bool
  nudge_s :: bool
  nudge_n :: bool
  inv_tau_b :: real
  lbn_offset :: real
  lbn_width :: real
  lbn_radius :: real
  target_vars :: "string list"
  lbn_directory :: string
  time_varying :: bool
  lbn_prefix :: string
  update_interval :: real
  constant_file :: string

text \<open>The constructor; \<open>None\<close> when the nudging is not enabled.  The members for a forcing that varies in
  time keep the empty prefix and the interval zero when it does not vary, and the other way round for the
  name of the constant file.\<close>

definition make_lateral :: "json \<Rightarrow> config_error + lateral option" where
  "make_lateral config =
     (let key = (\<lambda>k. ''dynamics.forcings.lateral_boundary_nudging.'' @ k);
          get_bool = (\<lambda>k. get_value_default as_bool config (key k) False);
          get_real = (\<lambda>k d. get_value_default (map_option fval \<circ> as_double) config (key k) d);
          get_string = (\<lambda>k d. get_value_default as_string config (key k) d)
      in rbind (get_bool ''enable'') (\<lambda>on.
         if \<not> on then Inr None else
         rbind (get_bool ''boundaries.west'') (\<lambda>w.
         rbind (get_bool ''boundaries.east'') (\<lambda>e.
         rbind (get_bool ''boundaries.south'') (\<lambda>s.
         rbind (get_bool ''boundaries.north'') (\<lambda>n.
         rbind (get_real ''tau_b'' 300) (\<lambda>tau_b.
         rbind (get_real ''offset'' 2500) (\<lambda>offset.
         rbind (get_real ''width'' 600) (\<lambda>width.
         rbind (get_real ''radius'' 2500) (\<lambda>radius.
         rbind (get_value_default (as_list as_string) config (key ''target_vars'') [''th'', ''qv'']) (\<lambda>vars.
         rbind (get_string ''forcing_data.directory'' ''../rundata/LS_forcings/'') (\<lambda>dir.
         rbind (get_bool ''forcing_data.time_varying'') (\<lambda>varying.
         rbind (if varying then get_string ''forcing_data.file_prefix'' ''ls_forcing_'' else Inr []) (\<lambda>prefix.
         rbind (if varying then get_real ''forcing_data.update_interval_s'' 3600 else Inr 0) (\<lambda>interval.
         rbind (if varying then Inr []
                else get_string ''forcing_data.file_name_for_not_varying'' ''ls_forcing_constant.nc'') (\<lambda>file_name.
         Inr (Some \<lparr>nudge_w = w, nudge_e = e, nudge_s = s, nudge_n = n, inv_tau_b = 1 / tau_b,
           lbn_offset = offset, lbn_width = width, lbn_radius = radius, target_vars = vars,
           lbn_directory = dir, time_varying = varying, lbn_prefix = prefix, update_interval = interval,
           constant_file = file_name\<rparr>)))))))))))))))))"

record lateral_state =
  time_T1 :: real
  time_T2 :: real
  name_T1 :: "string \<Rightarrow> string"
  name_T2 :: "string \<Rightarrow> string"
  targets :: "(string \<times> string \<times> string) list"
  store :: "string \<Rightarrow> view"

text \<open>The weight of a cell on a Cartesian grid.\<close>

definition gauss :: "real \<Rightarrow> real \<Rightarrow> real" where
  "gauss d width = exp (- (1 / 2) * (d / width) * (d / width))"

definition lbn_weight :: "grid \<Rightarrow> lateral \<Rightarrow> real \<Rightarrow> real \<Rightarrow> int \<Rightarrow> int \<Rightarrow> real" where
  "lbn_weight g L dx dy j i =
     (let h = get_halo_cells g; nW = nudge_w L; nE = nudge_e L; nS = nudge_s L; nN = nudge_n L;
          offset = lbn_offset L; width = lbn_width L; radius = lbn_radius L;
          xsize = real_of_int (global_size (dim_x g)) * dx; ysize = real_of_int (global_size (dim_y g)) * dy;
          x = real_of_int (local_physical_start_idx (dim_x g) + (i - h)) * dx + 1 / 2 * dx;
          y = real_of_int (local_physical_start_idx (dim_y g) + (j - h)) * dy + 1 / 2 * dy;
          dc = offset + radius;
          in_W = x < dc; in_E = x > xsize - dc; in_S = y < dc; in_N = y > ysize - dc;
          corner = (\<lambda>cx cy. gauss (sqrt ((x - cx) * (x - cx) + (y - cy) * (y - cy)) - radius) width);
          f = (if in_W \<and> in_S \<and> nW \<and> nS then corner dc dc
               else if in_E \<and> in_S \<and> nE \<and> nS then corner (xsize - dc) dc
               else if in_W \<and> in_N \<and> nW \<and> nN then corner dc (ysize - dc)
               else if in_E \<and> in_N \<and> nE \<and> nN then corner (xsize - dc) (ysize - dc)
               else (if nW then gauss (x - offset) width else 0) +
                    (if nE then gauss (x - (xsize - offset)) width else 0) +
                    (if nS then gauss (y - offset) width else 0) +
                    (if nN then gauss (y - (ysize - offset)) width else 0));
          f1 = (if f < 1 / 1000 then 0 else f)
      in if f1 > 1 then 1 else f1)"

text \<open>The weight on a mapped grid, from the distances of the cell to the four boundaries.\<close>

definition lbn_weight_mapped :: "lateral \<Rightarrow> real \<Rightarrow> real \<Rightarrow> real \<Rightarrow> real \<Rightarrow> real" where
  "lbn_weight_mapped L west east south north =
     (let part = (\<lambda>on d. of_bool on * (let r = (d - lbn_offset L) / lbn_width L in exp (- (1 / 2) * r * r)));
          value = part (nudge_w L) west + part (nudge_e L) east + part (nudge_s L) south + part (nudge_n L) north
      in if value < 1 / 1000 then 0 else min 1 value)"

text \<open>PnetCDF is a parameter: \<open>read_var path name\<close> is the block of the process that the collective
  read of variable \<open>name\<close> from the file returns, or its error.\<close>

type_synonym netcdf = "string \<Rightarrow> string \<Rightarrow> (int \<times> int \<times> int \<Rightarrow> real) option"

definition forcing_file :: "lateral \<Rightarrow> real \<Rightarrow> string" where
  "forcing_file L t = lbn_directory L @ lbn_prefix L @ format_to_six_digits (nat (truncate_real t)) @ ''.nc''"

definition place_block :: "grid \<Rightarrow> (int \<times> int \<times> int \<Rightarrow> real) \<Rightarrow> view \<Rightarrow> view" where
  "place_block g blk v =
     (let h = get_halo_cells g in
      parallel_for (mdrange3 0 0 0 (global_size (dim_z g)) (local_physical_size (dim_y g))
          (local_physical_size (dim_x g)))
        (assign (\<lambda>(k, j, i). (0, k + h, j + h, i + h)) (\<lambda>c d. blk c)) v)"

primrec load_vars ::
  "grid \<Rightarrow> netcdf \<Rightarrow> string \<Rightarrow> (string \<Rightarrow> string) \<Rightarrow> string list \<Rightarrow> (string \<Rightarrow> view) \<Rightarrow>
     nudging_error + (string \<Rightarrow> view)" where
  "load_vars g read_var path field_name [] st = Inr st"
| "load_vars g read_var path field_name (v # vs) st =
     (case read_var path v of
        None \<Rightarrow> Inl (Forcing_file_error path)
      | Some blk \<Rightarrow> load_vars g read_var path field_name vs
          (st(field_name v := place_block g blk (st (field_name v)))))"

definition load_forcing_data ::
  "grid \<Rightarrow> netcdf \<Rightarrow> lateral \<Rightarrow> string \<Rightarrow> bool \<Rightarrow> lateral_state \<Rightarrow> nudging_error + lateral_state" where
  "load_forcing_data g read_var L path is_constant s =
     rbind (load_vars g read_var path (\<lambda>v. if is_constant then v @ ''_ls'' else name_T2 s v) (target_vars L) (store s))
       (\<lambda>st. Inr (s\<lparr>store := st\<rparr>))"

text \<open>\<open>std::swap(name_T1_[var], name_T2_[var])\<close> for every target variable.\<close>

definition swap_name :: "lateral_state \<Rightarrow> string \<Rightarrow> lateral_state" where
  "swap_name s v = s\<lparr>name_T1 := (name_T1 s)(v := name_T2 s v), name_T2 := (name_T2 s)(v := name_T1 s v)\<rparr>"

definition swap_names :: "lateral \<Rightarrow> lateral_state \<Rightarrow> lateral_state" where
  "swap_names L s = foldl swap_name s (target_vars L)"

text \<open>\<open>forcing_targets_\<close>: the fields at the two ends of the interval and the current field of every target
  variable, filled with the names of the first call and kept.\<close>

definition cached_targets :: "lateral \<Rightarrow> lateral_state \<Rightarrow> (string \<times> string \<times> string) list" where
  "cached_targets L s =
     (if targets s = [] then map (\<lambda>v. (name_T1 s v, name_T2 s v, v @ ''_ls'')) (target_vars L) else targets s)"

definition interpolate_forcing :: "grid \<Rightarrow> lateral \<Rightarrow> real \<Rightarrow> lateral_state \<Rightarrow> lateral_state" where
  "interpolate_forcing g L current_time s =
     (let W0 = (current_time - time_T1 s) / (time_T2 s - time_T1 s);
          W1 = (if W0 < 0 then 0 else W0);
          W = (if W1 > 1 then 1 else W1);
          cells = mdrange3 0 0 0 (get_local_total_points_z g) (get_local_total_points_y g) (get_local_total_points_x g);
          step = (\<lambda>st (t1, t2, current). st(current := parallel_for cells
             (assign at_cell (\<lambda>c d. (1 - W) * st t1 (at_cell c) + W * st t2 (at_cell c))) (st current)))
      in s\<lparr>targets := cached_targets L s, store := foldl step (store s) (cached_targets L s)\<rparr>)"

definition update_large_scale_forcing ::
  "grid \<Rightarrow> netcdf \<Rightarrow> lateral \<Rightarrow> real \<Rightarrow> lateral_state \<Rightarrow> nudging_error + lateral_state" where
  "update_large_scale_forcing g read_var L current_time s =
     (if \<not> time_varying L then Inr s
      else
        rbind
          (if current_time \<ge> time_T2 s then
             (let s1 = swap_names L s;
                  s2 = s1\<lparr>time_T1 := time_T2 s1, time_T2 := time_T2 s1 + update_interval L\<rparr>
              in load_forcing_data g read_var L (forcing_file L (time_T2 s2)) False s2)
           else Inr s)
          (\<lambda>s'. Inr (interpolate_forcing g L current_time s')))"

text \<open>The part of \<open>initialize\<close> that reads the forcing; \<open>st\<close> has the new fields of the state.\<close>

definition initial_lateral_state :: "lateral \<Rightarrow> (string \<Rightarrow> view) \<Rightarrow> lateral_state" where
  "initial_lateral_state L st =
     \<lparr>time_T1 = 0, time_T2 = update_interval L, name_T1 = (\<lambda>v. v @ ''_ls_T1''),
      name_T2 = (\<lambda>v. v @ ''_ls_T2''), targets = [], store = st\<rparr>"

definition initialize_forcing ::
  "grid \<Rightarrow> netcdf \<Rightarrow> lateral \<Rightarrow> real \<Rightarrow> (string \<Rightarrow> view) \<Rightarrow> nudging_error + lateral_state" where
  "initialize_forcing g read_var L state_time st =
     (let s0 = initial_lateral_state L st in
      if time_varying L then
        rbind (load_forcing_data g read_var L (forcing_file L (time_T1 s0)) False s0) (\<lambda>s1.
        rbind (load_forcing_data g read_var L (forcing_file L (time_T2 s0)) False (swap_names L s1)) (\<lambda>s2.
          update_large_scale_forcing g read_var L state_time s2))
      else load_forcing_data g read_var L (lbn_directory L @ constant_file L) True s0)"

text \<open>\<open>calculate_tendencies\<close>, with the field \<open>lbn_weight\<close> of the state.\<close>

definition lateral_tendency :: "grid \<Rightarrow> lateral \<Rightarrow> (int \<Rightarrow> int \<Rightarrow> real) \<Rightarrow> view \<Rightarrow> view \<Rightarrow> view \<Rightarrow> view" where
  "lateral_tendency g L weight var_ls var_data tend =
     (let h = get_halo_cells g; nz' = get_local_total_points_z g in
      parallel_for (physical_cells g h (nz' - h))
        (assign at_cell (\<lambda>c d. case c of (k, j, i) \<Rightarrow>
           let fn = weight j i in
           if fn > 1 / 1000000 then d (at_cell c) + fn * inv_tau_b L * (var_ls (at_cell c) - var_data (at_cell c))
           else d (at_cell c))) tend)"

section \<open>The forcing buffers\<close>

lemma foldl_updates:
  assumes "distinct (map f vs)"
    and "\<And>v n st x. v \<in> set vs \<Longrightarrow> n \<in> f ` set vs \<Longrightarrow> n \<noteq> f v \<Longrightarrow> G v (st(n := x)) = G v st"
  shows "(\<forall>v \<in> set vs. foldl (\<lambda>st v. st(f v := G v st)) st vs (f v) = G v st) \<and>
    (\<forall>n. n \<notin> f ` set vs \<longrightarrow> foldl (\<lambda>st v. st(f v := G v st)) st vs n = st n)"
  using assms
proof (induction vs arbitrary: st)
  case Nil
  then show ?case by simp
next
  case (Cons a vs)
  let ?st = "st(f a := G a st)"
  have IH: "(\<forall>v \<in> set vs. foldl (\<lambda>st v. st(f v := G v st)) ?st vs (f v) = G v ?st) \<and>
    (\<forall>n. n \<notin> f ` set vs \<longrightarrow> foldl (\<lambda>st v. st(f v := G v st)) ?st vs n = ?st n)"
    using Cons.prems by (intro Cons.IH) auto
  have "G v ?st = G v st" if "v \<in> set vs" for v
    using Cons.prems that by (intro Cons.prems(2)) force+
  with IH Cons.prems(1) show ?case by (auto simp del: fun_upd_apply simp: fun_upd_other fun_upd_same)
qed

definition in_block :: "grid \<Rightarrow> int \<times> int \<times> int \<Rightarrow> bool" where
  "in_block g c = (case c of (k, j, i) \<Rightarrow> 0 \<le> k \<and> k < global_size (dim_z g) \<and>
     0 \<le> j \<and> j < local_physical_size (dim_y g) \<and> 0 \<le> i \<and> i < local_physical_size (dim_x g))"

definition block_cell :: "grid \<Rightarrow> int \<times> int \<times> int \<Rightarrow> cell" where
  "block_cell g c = (case c of (k, j, i) \<Rightarrow>
     (0, k + get_halo_cells g, j + get_halo_cells g, i + get_halo_cells g))"

interpretation block: kernel "mdrange3 0 0 0 a b c" "\<lambda>(k, j, i). (0 :: int, k + h, j + h, i + h :: int)"
  "\<lambda>c (d :: view). blk c" for a b c h blk
  by unfold_locales (auto simp: range_simps inj_on_def)

lemma place_block_cell: "in_block g c \<Longrightarrow> place_block g blk v (block_cell g c) = blk c"
  using block.result [of c "global_size (dim_z g)" "local_physical_size (dim_y g)" "local_physical_size (dim_x g)"
      "get_halo_cells g" blk v]
  by (cases c) (simp add: in_block_def block_cell_def place_block_def Let_def range_simps)

text \<open>A view holds what the file has for the variable.\<close>

definition holds :: "grid \<Rightarrow> netcdf \<Rightarrow> string \<Rightarrow> string \<Rightarrow> view \<Rightarrow> bool" where
  "holds g read_var path name v \<longleftrightarrow>
     (\<exists>blk. read_var path name = Some blk \<and> (\<forall>c. in_block g c \<longrightarrow> v (block_cell g c) = blk c))"

lemma load_vars_holds:
  assumes "load_vars g read_var path f vs st = Inr st'" and "distinct (map f vs)"
  shows "(\<forall>v \<in> set vs. holds g read_var path v (st' (f v))) \<and> (\<forall>n. n \<notin> f ` set vs \<longrightarrow> st' n = st n)"
  using assms
proof (induction vs arbitrary: st)
  case Nil
  then show ?case by simp
next
  case (Cons a vs)
  from Cons.prems(1) obtain blk where blk: "read_var path a = Some blk"
    and rest: "load_vars g read_var path f vs (st(f a := place_block g blk (st (f a)))) = Inr st'"
    by (auto split: option.splits)
  have IH: "(\<forall>v \<in> set vs. holds g read_var path v (st' (f v))) \<and>
      (\<forall>n. n \<notin> f ` set vs \<longrightarrow> st' n = (st(f a := place_block g blk (st (f a)))) n)"
    by (rule Cons.IH [OF rest]) (use Cons.prems(2) in simp)
  have "f a \<notin> f ` set vs" using Cons.prems(2) by auto
  with IH have "st' (f a) = place_block g blk (st (f a))" by simp
  then have "holds g read_var path a (st' (f a))"
    using blk by (auto simp: holds_def place_block_cell)
  with IH Cons.prems(2) show ?case by auto
qed

lemma append_last_neq: "x \<noteq> [] \<Longrightarrow> y \<noteq> [] \<Longrightarrow> last x \<noteq> last y \<Longrightarrow> u @ x \<noteq> v @ y"
  by (metis last_appendR)

lemma suffix_neq [simp]:
  "u @ ''_ls_T1'' \<noteq> v @ ''_ls_T2''" "u @ ''_ls_T2'' \<noteq> v @ ''_ls_T1''"
  "u @ ''_ls'' \<noteq> v @ ''_ls_T1''" "u @ ''_ls'' \<noteq> v @ ''_ls_T2''"
  "u @ ''_ls_T1'' \<noteq> v @ ''_ls''" "u @ ''_ls_T2'' \<noteq> v @ ''_ls''"
  by (rule append_last_neq; simp)+

definition names_ok :: "lateral \<Rightarrow> lateral_state \<Rightarrow> bool" where
  "names_ok L s \<longleftrightarrow>
     distinct (target_vars L) \<and>
     (\<forall>v \<in> set (target_vars L).
        name_T1 s v = v @ ''_ls_T1'' \<and> name_T2 s v = v @ ''_ls_T2'' \<or>
        name_T1 s v = v @ ''_ls_T2'' \<and> name_T2 s v = v @ ''_ls_T1'')"

lemma names_ok_distinct:
  assumes "names_ok L s"
  shows "distinct (map (name_T1 s) (target_vars L))" "distinct (map (name_T2 s) (target_vars L))"
    "u \<in> set (target_vars L) \<Longrightarrow> v \<in> set (target_vars L) \<Longrightarrow> name_T1 s u \<noteq> name_T2 s v"
    "u \<in> set (target_vars L) \<Longrightarrow> name_T1 s u \<noteq> v @ ''_ls''"
    "u \<in> set (target_vars L) \<Longrightarrow> name_T2 s u \<noteq> v @ ''_ls''"
proof -
  have n: "name_T1 s v = v @ ''_ls_T1'' \<and> name_T2 s v = v @ ''_ls_T2'' \<or>
      name_T1 s v = v @ ''_ls_T2'' \<and> name_T2 s v = v @ ''_ls_T1''" if "v \<in> set (target_vars L)" for v
    using assms that by (simp add: names_ok_def)
  have d: "distinct (target_vars L)" using assms by (simp add: names_ok_def)
  have inj: "u = v" if "u \<in> set (target_vars L)" "v \<in> set (target_vars L)"
    "name_T1 s u = name_T1 s v \<or> name_T2 s u = name_T2 s v" for u v
    using n [OF that(1)] n [OF that(2)] that(3) by (elim disjE conjE) simp_all
  then show "distinct (map (name_T1 s) (target_vars L))" "distinct (map (name_T2 s) (target_vars L))"
    using d by (auto simp: distinct_map inj_on_def)
  show "name_T1 s u \<noteq> v @ ''_ls''" "name_T2 s u \<noteq> v @ ''_ls''" if "u \<in> set (target_vars L)"
    using n [OF that] by (elim disjE conjE; simp)+
  show "name_T1 s u \<noteq> name_T2 s v" if "u \<in> set (target_vars L)" "v \<in> set (target_vars L)"
  proof (cases "u = v")
    case True
    then show ?thesis using n [OF that(1)] by (elim disjE conjE) simp_all
  next
    case False
    then show ?thesis using n [OF that(1)] n [OF that(2)] by (elim disjE conjE) simp_all
  qed
qed

lemma swap_names_simps:
  assumes "distinct (target_vars L)"
  shows "v \<in> set (target_vars L) \<Longrightarrow> name_T1 (swap_names L s) v = name_T2 s v"
    "v \<in> set (target_vars L) \<Longrightarrow> name_T2 (swap_names L s) v = name_T1 s v"
    "store (swap_names L s) = store s" "time_T1 (swap_names L s) = time_T1 s" "time_T2 (swap_names L s) = time_T2 s"
    "targets (swap_names L s) = targets s"
proof -
  have all: "(\<forall>v. v \<in> set vs \<longrightarrow> name_T1 (foldl swap_name s vs) v = name_T2 s v \<and>
      name_T2 (foldl swap_name s vs) v = name_T1 s v) \<and>
    (\<forall>v. v \<notin> set vs \<longrightarrow> name_T1 (foldl swap_name s vs) v = name_T1 s v \<and>
      name_T2 (foldl swap_name s vs) v = name_T2 s v) \<and>
    store (foldl swap_name s vs) = store s \<and> time_T1 (foldl swap_name s vs) = time_T1 s \<and>
    time_T2 (foldl swap_name s vs) = time_T2 s \<and> targets (foldl swap_name s vs) = targets s" if "distinct vs" for vs
    using that
  proof (induction vs arbitrary: s)
    case Nil
    then show ?case by simp
  next
    case (Cons a vs)
    have "distinct vs" "a \<notin> set vs" using Cons.prems by auto
    with Cons.IH [of "swap_name s a"] show ?case by (auto simp: swap_name_def)
  qed
  from all [OF assms] show "v \<in> set (target_vars L) \<Longrightarrow> name_T1 (swap_names L s) v = name_T2 s v"
    "v \<in> set (target_vars L) \<Longrightarrow> name_T2 (swap_names L s) v = name_T1 s v"
    "store (swap_names L s) = store s" "time_T1 (swap_names L s) = time_T1 s" "time_T2 (swap_names L s) = time_T2 s"
    "targets (swap_names L s) = targets s"
    by (simp_all add: swap_names_def)
qed

interpretation lin: kernel "mdrange3 0 0 0 a b c" at_cell "\<lambda>i (d :: view). f i" for a b c f
  by unfold_locales (auto simp: range_simps inj_on_def at_cell_def)

definition whole_columns :: "grid \<Rightarrow> bool" where
  "whole_columns g \<longleftrightarrow>
     local_physical_size (dim_z g) = global_size (dim_z g) \<and> 0 \<le> get_halo_cells g \<and>
     num_halo_cells (dim_y g) = get_halo_cells g \<and> num_halo_cells (dim_x g) = get_halo_cells g"

definition forcing_weight :: "lateral_state \<Rightarrow> real \<Rightarrow> real" where
  "forcing_weight s t = max 0 (min 1 ((t - time_T1 s) / (time_T2 s - time_T1 s)))"

lemma interpolate_forcing_simps:
  "time_T1 (interpolate_forcing g L t s) = time_T1 s" "time_T2 (interpolate_forcing g L t s) = time_T2 s"
  "name_T1 (interpolate_forcing g L t s) = name_T1 s" "name_T2 (interpolate_forcing g L t s) = name_T2 s"
  "targets (interpolate_forcing g L t s) = cached_targets L s"
  by (simp_all add: interpolate_forcing_def Let_def)

text \<open>The kept targets name the buffers in the order of the interval, or the other way round.\<close>

definition target_T1 :: "bool \<Rightarrow> lateral_state \<Rightarrow> string \<Rightarrow> string" where
  "target_T1 reversed s v = (if reversed then name_T2 s v else name_T1 s v)"

definition cache_is :: "lateral \<Rightarrow> bool \<Rightarrow> lateral_state \<Rightarrow> bool" where
  "cache_is L reversed s \<longleftrightarrow>
     cached_targets L s = map (\<lambda>v. (target_T1 reversed s v, target_T1 (\<not> reversed) s v, v @ ''_ls'')) (target_vars L)"

lemma cache_is_empty: "targets s = [] \<Longrightarrow> cache_is L False s"
  by (simp add: cache_is_def cached_targets_def target_T1_def)

lemma cache_is_interpolate: "cache_is L r s \<Longrightarrow> cache_is L r (interpolate_forcing g L t s)"
  by (auto simp: cache_is_def cached_targets_def interpolate_forcing_simps target_T1_def)

lemma cache_is_swap:
  assumes "cache_is L r s" and "targets s \<noteq> []" and "distinct (target_vars L)"
    and "name_T1 s' = name_T1 (swap_names L s)" and "name_T2 s' = name_T2 (swap_names L s)" and "targets s' = targets s"
  shows "cache_is L (\<not> r) s'"
  using assms swap_names_simps(1,2) [OF assms(3), of _ s]
  by (auto simp: cache_is_def cached_targets_def target_T1_def)

lemma interpolate_forcing_store:
  assumes "names_ok L s" and "cache_is L r s"
  shows "v \<in> set (target_vars L) \<Longrightarrow> in_block g c \<Longrightarrow> whole_columns g \<Longrightarrow>
      store (interpolate_forcing g L t s) (v @ ''_ls'') (block_cell g c) =
        (1 - forcing_weight s t) * store s (target_T1 r s v) (block_cell g c) +
        forcing_weight s t * store s (target_T1 (\<not> r) s v) (block_cell g c)"
    and "v \<in> set (target_vars L) \<Longrightarrow> store (interpolate_forcing g L t s) (name_T1 s v) = store s (name_T1 s v)"
    and "v \<in> set (target_vars L) \<Longrightarrow> store (interpolate_forcing g L t s) (name_T2 s v) = store s (name_T2 s v)"
proof -
  let ?cells = "mdrange3 0 0 0 (get_local_total_points_z g) (get_local_total_points_y g) (get_local_total_points_x g)"
  let ?W = "forcing_weight s t"
  let ?G = "\<lambda>v st. parallel_for ?cells (assign at_cell (\<lambda>c d.
      (1 - ?W) * st (target_T1 r s v) (at_cell c) + ?W * st (target_T1 (\<not> r) s v) (at_cell c))) (st (v @ ''_ls''))"
  have W: "(let W0 = (t - time_T1 s) / (time_T2 s - time_T1 s); W1 = (if W0 < 0 then 0 else W0)
      in if W1 > 1 then 1 else W1) = ?W"
    by (auto simp: forcing_weight_def Let_def max_def min_def)
  have eq: "store (interpolate_forcing g L t s) =
      foldl (\<lambda>st v. st(v @ ''_ls'' := ?G v st)) (store s) (target_vars L)"
    using W assms(2) by (simp add: interpolate_forcing_def Let_def cache_is_def foldl_map)
  have d: "distinct (map (\<lambda>v. v @ ''_ls'') (target_vars L))"
    using assms by (simp add: names_ok_def distinct_map inj_on_def)
  have all: "(\<forall>v \<in> set (target_vars L). store (interpolate_forcing g L t s) (v @ ''_ls'') = ?G v (store s)) \<and>
      (\<forall>n. n \<notin> (\<lambda>v. v @ ''_ls'') ` set (target_vars L) \<longrightarrow> store (interpolate_forcing g L t s) n = store s n)"
    unfolding eq using names_ok_distinct(4,5) [OF assms(1)]
    by (intro foldl_updates [OF d]) (auto simp: target_T1_def)
  show "store (interpolate_forcing g L t s) (name_T1 s v) = store s (name_T1 s v)"
    "store (interpolate_forcing g L t s) (name_T2 s v) = store s (name_T2 s v)" if "v \<in> set (target_vars L)"
    using all names_ok_distinct(4,5) [OF assms(1) that] by (metis (no_types, lifting) imageE)+
  assume v: "v \<in> set (target_vars L)" and c: "in_block g c" "whole_columns g"
  obtain k j i where kji: "c = (k, j, i)" by (cases c)
  have "(k + get_halo_cells g, j + get_halo_cells g, i + get_halo_cells g) \<in> set ?cells"
    using c by (simp add: kji in_block_def whole_columns_def range_simps get_local_total_points_z_def
        get_local_total_points_y_def get_local_total_points_x_def) (simp add: get_halo_cells_def)
  from lin.result [OF this, of "\<lambda>c. (1 - ?W) * store s (target_T1 r s v) (at_cell c) +
        ?W * store s (target_T1 (\<not> r) s v) (at_cell c)" "store s (v @ ''_ls'')"]
  show "store (interpolate_forcing g L t s) (v @ ''_ls'') (block_cell g c) =
        (1 - ?W) * store s (target_T1 r s v) (block_cell g c) + ?W * store s (target_T1 (\<not> r) s v) (block_cell g c)"
    using all v by (simp add: kji block_cell_def at_cell_def)
qed

text \<open>The two buffers hold the forcing at the two ends of an interval.\<close>

definition lateral_ok :: "grid \<Rightarrow> netcdf \<Rightarrow> lateral \<Rightarrow> lateral_state \<Rightarrow> bool" where
  "lateral_ok g read_var L s \<longleftrightarrow>
     names_ok L s \<and> time_T2 s = time_T1 s + update_interval L \<and>
     (\<forall>v \<in> set (target_vars L).
        holds g read_var (forcing_file L (time_T1 s)) v (store s (name_T1 s v)) \<and>
        holds g read_var (forcing_file L (time_T2 s)) v (store s (name_T2 s v)))"

definition file_value :: "netcdf \<Rightarrow> lateral \<Rightarrow> real \<Rightarrow> string \<Rightarrow> int \<times> int \<times> int \<Rightarrow> real" where
  "file_value read_var L t v c = the (read_var (forcing_file L t) v) c"

lemma holds_cell: "holds g read_var path v st \<Longrightarrow> in_block g c \<Longrightarrow> st (block_cell g c) = the (read_var path v) c"
  by (cases c) (auto simp: holds_def)

definition interval_end :: "bool \<Rightarrow> lateral_state \<Rightarrow> real" where
  "interval_end reversed s = (if reversed then time_T2 s else time_T1 s)"

lemma interpolate_ok:
  assumes "lateral_ok g read_var L s" and "whole_columns g" and "cache_is L r s"
  shows "lateral_ok g read_var L (interpolate_forcing g L t s)"
    and "v \<in> set (target_vars L) \<Longrightarrow> in_block g c \<Longrightarrow>
      store (interpolate_forcing g L t s) (v @ ''_ls'') (block_cell g c) =
        (1 - forcing_weight s t) * file_value read_var L (interval_end r s) v c +
        forcing_weight s t * file_value read_var L (interval_end (\<not> r) s) v c"
proof -
  have n: "names_ok L s" using assms(1) by (simp add: lateral_ok_def)
  note st = interpolate_forcing_store [OF n assms(3)]
  show "lateral_ok g read_var L (interpolate_forcing g L t s)"
    using assms(1) st(2,3)
    by (auto simp: lateral_ok_def interpolate_forcing_simps names_ok_def)
  assume v: "v \<in> set (target_vars L)" and c: "in_block g c"
  have "store s (name_T1 s v) (block_cell g c) = file_value read_var L (time_T1 s) v c \<and>
    store s (name_T2 s v) (block_cell g c) = file_value read_var L (time_T2 s) v c"
    using assms(1) v holds_cell [OF _ c] unfolding lateral_ok_def file_value_def by blast
  then have "store s (target_T1 b s v) (block_cell g c) = file_value read_var L (interval_end b s) v c" for b
    by (simp add: target_T1_def interval_end_def)
  then show "store (interpolate_forcing g L t s) (v @ ''_ls'') (block_cell g c) =
        (1 - forcing_weight s t) * file_value read_var L (interval_end r s) v c +
        forcing_weight s t * file_value read_var L (interval_end (\<not> r) s) v c"
    using st(1) [OF v c assms(2)] by simp
qed

text \<open>Exchanging the buffers and reading the next file.\<close>

lemma next_interval_ok:
  assumes ok: "lateral_ok g read_var L s"
    and s2: "s2 = (swap_names L s)\<lparr>time_T1 := time_T2 s, time_T2 := time_T2 s + update_interval L\<rparr>"
    and l: "load_forcing_data g read_var L (forcing_file L (time_T2 s2)) False s2 = Inr s3"
  shows "lateral_ok g read_var L s3 \<and> time_T1 s3 = time_T2 s \<and> targets s3 = targets s \<and>
    name_T1 s3 = name_T1 (swap_names L s) \<and> name_T2 s3 = name_T2 (swap_names L s)"
proof -
  have n: "names_ok L s" and d: "distinct (target_vars L)" using ok by (auto simp: lateral_ok_def names_ok_def)
  note sw = swap_names_simps [OF d]
  have n2: "names_ok L s2" using n by (auto simp: names_ok_def s2 sw)
  obtain st where st: "load_vars g read_var (forcing_file L (time_T2 s2)) (name_T2 s2) (target_vars L) (store s2) = Inr st"
    and s3: "s3 = s2\<lparr>store := st\<rparr>"
    using l by (auto simp: load_forcing_data_def elim!: rbind_InrE)
  note lv = load_vars_holds [OF st names_ok_distinct(2) [OF n2]]
  have "st (name_T1 s2 v) = store s2 (name_T1 s2 v)" if "v \<in> set (target_vars L)" for v
    using lv names_ok_distinct(3) [OF n2 that] by auto
  moreover have "holds g read_var (forcing_file L (time_T2 s)) v (store s2 (name_T1 s2 v))"
    if "v \<in> set (target_vars L)" for v
  proof -
    have "holds g read_var (forcing_file L (time_T2 s)) v (store s (name_T2 s v))"
      using ok that unfolding lateral_ok_def by blast
    then show ?thesis using that by (simp add: s2 sw)
  qed
  ultimately show ?thesis
    using lv n2 by (auto simp: lateral_ok_def s3 names_ok_def s2 sw)
qed

text \<open>One call of the update.  Passing the end of the interval turns the kept order round.\<close>

lemma update_forcing_ok:
  assumes tv: "time_varying L" and ok: "lateral_ok g read_var L s" and w: "whole_columns g" and c: "cache_is L r s"
    and up: "update_large_scale_forcing g read_var L t s = Inr s'"
    and r': "r' = (if time_T2 s \<le> t \<and> targets s \<noteq> [] then \<not> r else if targets s = [] then False else r)"
  shows "lateral_ok g read_var L s' \<and> cache_is L r' s' \<and>
    time_T1 s' = (if time_T2 s \<le> t then time_T2 s else time_T1 s) \<and>
    (target_vars L \<noteq> [] \<longrightarrow> targets s' \<noteq> []) \<and>
    (\<forall>v \<in> set (target_vars L). \<forall>c. in_block g c \<longrightarrow> store s' (v @ ''_ls'') (block_cell g c) =
       (1 - forcing_weight s' t) * file_value read_var L (interval_end r' s') v c +
       forcing_weight s' t * file_value read_var L (interval_end (\<not> r') s') v c)"
proof -
  have d: "distinct (target_vars L)" using ok by (simp add: lateral_ok_def names_ok_def)
  obtain s3 where s3: "lateral_ok g read_var L s3" "time_T1 s3 = (if time_T2 s \<le> t then time_T2 s else time_T1 s)"
    and c3: "cache_is L r' s3" and s': "s' = interpolate_forcing g L t s3"
  proof (cases "time_T2 s \<le> t")
    case False
    with up tv have "s' = interpolate_forcing g L t s"
      by (auto simp: update_large_scale_forcing_def elim!: rbind_InrE)
    then show ?thesis using that [of s] ok False c r' cache_is_empty by auto
  next
    case True
    let ?s2 = "(swap_names L s)\<lparr>time_T1 := time_T2 s, time_T2 := time_T2 s + update_interval L\<rparr>"
    from up True tv obtain s3 where
      l: "load_forcing_data g read_var L (forcing_file L (time_T2 ?s2)) False ?s2 = Inr s3"
      and s': "s' = interpolate_forcing g L t s3"
      by (auto simp: update_large_scale_forcing_def Let_def swap_names_simps(4,5) [OF d] elim!: rbind_InrE)
    note next_ok = next_interval_ok [OF ok refl l]
    have "cache_is L r' s3"
      using cache_is_swap [OF c _ d] cache_is_empty next_ok r' True by auto
    with next_ok True s' that show ?thesis by auto
  qed
  have "forcing_weight s' t = forcing_weight s3 t" "interval_end b s' = interval_end b s3" for b
    by (simp_all add: forcing_weight_def s' interpolate_forcing_simps interval_end_def)
  moreover have "target_vars L \<noteq> [] \<longrightarrow> targets s' \<noteq> []"
    by (simp add: s' interpolate_forcing_simps cached_targets_def)
  ultimately show ?thesis
    using interpolate_ok [where t = t, OF s3(1) w c3] cache_is_interpolate [OF c3] s3
    by (simp add: s' interpolate_forcing_simps)
qed

lemma initialize_forcing_ok:
  assumes tv: "time_varying L" and d: "distinct (target_vars L)" and U: "0 < update_interval L"
    and ini: "initialize_forcing g read_var L t st = Inr s'"
  obtains s where "lateral_ok g read_var L s" and "time_T1 s = 0" and "time_T2 s = update_interval L" and "targets s = []"
    and "update_large_scale_forcing g read_var L t s = Inr s'"
proof -
  let ?s0 = "initial_lateral_state L st"
  obtain s1 s2 where l1: "load_forcing_data g read_var L (forcing_file L 0) False ?s0 = Inr s1"
    and l2: "load_forcing_data g read_var L (forcing_file L (update_interval L)) False (swap_names L s1) = Inr s2"
    and up: "update_large_scale_forcing g read_var L t s2 = Inr s'"
    using ini tv by (auto simp: initialize_forcing_def Let_def initial_lateral_state_def elim!: rbind_InrE)
  have n0: "names_ok L ?s0" using d by (simp add: names_ok_def initial_lateral_state_def)
  obtain st1 where st1: "load_vars g read_var (forcing_file L 0) (name_T2 ?s0) (target_vars L) (store ?s0) = Inr st1"
    and s1: "s1 = ?s0\<lparr>store := st1\<rparr>"
    using l1 by (auto simp: load_forcing_data_def elim!: rbind_InrE)
  note sw = swap_names_simps [OF d]
  have n1: "names_ok L (swap_names L s1)"
    using n0 by (auto simp: names_ok_def sw s1)
  obtain st2 where st2: "load_vars g read_var (forcing_file L (update_interval L)) (name_T2 (swap_names L s1))
      (target_vars L) (store (swap_names L s1)) = Inr st2" and s2: "s2 = (swap_names L s1)\<lparr>store := st2\<rparr>"
    using l2 by (auto simp: load_forcing_data_def elim!: rbind_InrE)
  note lv1 = load_vars_holds [OF st1 names_ok_distinct(2) [OF n0]]
  note lv2 = load_vars_holds [OF st2 names_ok_distinct(2) [OF n1]]
  have keep: "st2 (name_T1 (swap_names L s1) v) = st1 (name_T2 ?s0 v)" if "v \<in> set (target_vars L)" for v
    using lv2 names_ok_distinct(3) [OF n1 that] that by (auto simp: sw s1)
  have t: "time_T1 s2 = 0" "time_T2 s2 = update_interval L" "targets s2 = []"
    by (simp_all add: s2 sw s1 initial_lateral_state_def)
  have "lateral_ok g read_var L s2"
    using lv1 lv2 keep n1 t by (auto simp: lateral_ok_def s2 names_ok_def)
  with t up that show ?thesis by blast
qed

text \<open>C35. Time-varying lateral forcing: as long as no step jumps over a whole forcing interval, every call of
  the update keeps the two buffers filled with the forcing at the two ends of the interval that contains
  the model time.  On every cell of the process the field of each target variable is the linear interpolation in time
  between the two while the kept targets name the buffers in the order of the interval, and the interpolation with the
  two ends exchanged while they name them the other way round; the first call sets the order of the interval, and every
  later call that enters a new interval turns the order round.\<close>

theorem lateral_forcing_interpolates:
  assumes "time_varying L" and "0 < update_interval L" and "whole_columns g" and "lateral_ok g read_var L s"
    and "cache_is L r s" and "time_T1 s \<le> t" and "t < time_T2 s + update_interval L"
    and "update_large_scale_forcing g read_var L t s = Inr s'"
    and "r' = (if targets s = [] then False else if time_T2 s \<le> t then \<not> r else r)"
    and "W = (t - time_T1 s') / update_interval L"
  shows "lateral_ok g read_var L s' \<and> time_T1 s' \<le> t \<and> t < time_T2 s' \<and> cache_is L r' s' \<and>
    (target_vars L \<noteq> [] \<longrightarrow> targets s' \<noteq> []) \<and>
    (\<forall>v c. v \<in> set (target_vars L) \<and> in_block g c \<longrightarrow> store s' (v @ ''_ls'') (block_cell g c) =
       (if r' then W * file_value read_var L (time_T1 s') v c + (1 - W) * file_value read_var L (time_T2 s') v c
        else (1 - W) * file_value read_var L (time_T1 s') v c + W * file_value read_var L (time_T2 s') v c))"
proof -
  have r': "r' = (if time_T2 s \<le> t \<and> targets s \<noteq> [] then \<not> r else if targets s = [] then False else r)"
    by (simp add: assms(9))
  note up = update_forcing_ok [OF assms(1,4,3,5,8) r']
  have T2: "time_T2 s = time_T1 s + update_interval L" "time_T2 s' = time_T1 s' + update_interval L"
    using assms(4) up by (simp_all add: lateral_ok_def)
  have in_interval: "time_T1 s' \<le> t" "t < time_T2 s'"
    using up assms(2,6,7) T2 by (auto split: if_splits)
  then have "forcing_weight s' t = W"
    using T2 assms(2) by (simp add: forcing_weight_def assms(10))
  with up in_interval show ?thesis by (simp add: interval_end_def)
qed

text \<open>C33. The first update after the end of the first interval interpolates with the two files exchanged: the
  kept targets still name the buffers in the order they had before the exchange.  At the start of the
  second interval the forcing is the file of the end of that interval, and it runs backwards from there.\<close>

theorem lateral_forcing_runs_backwards:
  assumes "time_varying L" and "0 < update_interval L" and "whole_columns g" and "distinct (target_vars L)"
    and "t0 < update_interval L" and "initialize_forcing g read_var L t0 st = Inr s"
    and "update_interval L \<le> t" and "t < 2 * update_interval L"
    and "update_large_scale_forcing g read_var L t s = Inr s'"
    and "v \<in> set (target_vars L)" and "in_block g c"
  shows "time_T1 s' = update_interval L \<and> time_T2 s' = 2 * update_interval L \<and>
    store s' (v @ ''_ls'') (block_cell g c) =
      (2 - t / update_interval L) * file_value read_var L (2 * update_interval L) v c +
      (t / update_interval L - 1) * file_value read_var L (update_interval L) v c"
proof -
  obtain s0 where s0: "lateral_ok g read_var L s0" "time_T1 s0 = 0" "time_T2 s0 = update_interval L" "targets s0 = []"
    and up0: "update_large_scale_forcing g read_var L t0 s0 = Inr s"
    by (rule initialize_forcing_ok [OF assms(1,4,2,6)])
  have ok: "lateral_ok g read_var L s \<and> cache_is L False s \<and> time_T1 s = 0 \<and> targets s \<noteq> []"
    using update_forcing_ok [OF assms(1) s0(1) assms(3) cache_is_empty [OF s0(4)] up0 refl] s0 assms(5,10)
    by (auto split: if_splits)
  then have T2: "time_T2 s = update_interval L" by (simp add: lateral_ok_def)
  note up = update_forcing_ok [OF assms(1) _ assms(3) _ assms(9), of False True]
  have t: "time_T1 s' = update_interval L" "time_T2 s' = 2 * update_interval L"
    using up ok T2 assms(7) by (auto simp: lateral_ok_def)
  then have "forcing_weight s' t = t / update_interval L - 1"
    using assms(2,7,8) by (simp add: forcing_weight_def field_simps)
  then show ?thesis
    using up ok t T2 assms(7,10,11) by (cases c) (auto simp: interval_end_def)
qed

text \<open>A restarted run: \<open>initialize\<close> always begins at the interval from zero and moves by at most one
  interval, so that after a restart later than the second interval the forcing is the file of twice
  the interval, whatever the time of the restart.\<close>

theorem restart_forcing_lags:
  assumes "time_varying L" and "0 < update_interval L" and "whole_columns g" and "distinct (target_vars L)"
    and "2 * update_interval L \<le> t" and "initialize_forcing g read_var L t st = Inr s'"
    and "v \<in> set (target_vars L)" and "in_block g c"
  shows "time_T2 s' = 2 * update_interval L \<and>
    store s' (v @ ''_ls'') (block_cell g c) = file_value read_var L (2 * update_interval L) v c"
proof -
  obtain s where s: "lateral_ok g read_var L s" "time_T1 s = 0" "time_T2 s = update_interval L" "targets s = []"
    and up: "update_large_scale_forcing g read_var L t s = Inr s'"
    by (rule initialize_forcing_ok [OF assms(1,4,2,6)])
  note ok = update_forcing_ok [OF assms(1) s(1) assms(3) cache_is_empty [OF s(4)] up refl]
  have t: "time_T1 s' = update_interval L" "time_T2 s' = 2 * update_interval L"
    using ok s assms(2,5) by (auto simp: lateral_ok_def)
  then have "forcing_weight s' t = 1"
    using assms(2,5) by (simp add: forcing_weight_def)
  with ok t s(4) assms(7,8) show ?thesis by (cases c) (auto simp: interval_end_def)
qed

definition sample_lateral :: lateral where
  "sample_lateral = \<lparr>nudge_w = True, nudge_e = True, nudge_s = False, nudge_n = False, inv_tau_b = 1 / 300,
     lbn_offset = 2500, lbn_width = 600, lbn_radius = 2500, target_vars = [''th'', ''qv''],
     lbn_directory = ''ls/'', time_varying = True, lbn_prefix = ''f_'', update_interval = 3600, constant_file = ''c.nc''\<rparr>"

definition sample_read :: netcdf where
  "sample_read path name = Some (\<lambda>c. if path = ''ls/f_007200.nc'' then 9 else if path = ''ls/f_003600.nc'' then 5 else 1)"

lemma sample_whole_columns: "whole_columns (distributed (sample_grid 3 3) (1, 1) (0, 0))"
  by (simp add: whole_columns_def distributed_def sample_grid_def axis_simps get_halo_cells_def
      full_axis_def initial_dimension_def distribute_x_def distribute_y_def)

lemma sample_six_digits:
  "format_to_six_digits 0 = ''000000''" "format_to_six_digits 3600 = ''003600''" "format_to_six_digits 7200 = ''007200''"
proof -
  have d: "digit_char 0 = CHR ''0''" "digit_char 2 = CHR ''2''" "digit_char 3 = CHR ''3''" "digit_char 6 = CHR ''6''"
    "digit_char 7 = CHR ''7''" by code_simp+
  have r: "replicate 2 x = [x, x]" "replicate 5 x = [x, x, x, x, x]" for x :: char
    by (simp_all add: eval_nat_numeral)
  show "format_to_six_digits 0 = ''000000''" "format_to_six_digits 3600 = ''003600''"
    "format_to_six_digits 7200 = ''007200''"
    by (simp_all add: format_to_six_digits_def show_nat.simps d r)
qed

lemma sample_forcing_file:
  "forcing_file sample_lateral 0 = ''ls/f_000000.nc''" "forcing_file sample_lateral 3600 = ''ls/f_003600.nc''"
  "forcing_file sample_lateral 7200 = ''ls/f_007200.nc''"
  by (simp_all add: forcing_file_def sample_lateral_def truncate_real_def sample_six_digits)

lemma sample_load: "\<exists>st'. load_vars g sample_read path f vs st = Inr st'"
  by (induction vs arbitrary: st) (simp_all add: sample_read_def)

lemma sample_initialize: "\<exists>s'. initialize_forcing g sample_read sample_lateral t st = Inr s'"
proof -
  have l: "\<exists>s'. load_forcing_data g sample_read L path b s = Inr s'" for L path b s
  proof -
    obtain st' where "load_vars g sample_read path (\<lambda>v. if b then v @ ''_ls'' else name_T2 s v) (target_vars L) (store s) = Inr st'"
      using sample_load by blast
    then show ?thesis by (simp add: load_forcing_data_def)
  qed
  have u: "\<exists>s'. update_large_scale_forcing g sample_read L t s = Inr s'" for L s
  proof -
    obtain s3 where "load_forcing_data g sample_read L (forcing_file L (time_T2 (swap_names L s) + update_interval L)) False
        ((swap_names L s)\<lparr>time_T1 := time_T2 (swap_names L s), time_T2 := time_T2 (swap_names L s) + update_interval L\<rparr>) = Inr s3"
      using l by blast
    then show ?thesis by (simp add: update_large_scale_forcing_def Let_def)
  qed
  obtain s1 where s1: "load_forcing_data g sample_read sample_lateral (forcing_file sample_lateral 0) False
      (initial_lateral_state sample_lateral st) = Inr s1" using l by blast
  obtain s2 where s2: "load_forcing_data g sample_read sample_lateral (forcing_file sample_lateral 3600) False
      (swap_names sample_lateral s1) = Inr s2" using l by blast
  have L: "time_varying sample_lateral" "time_T1 (initial_lateral_state sample_lateral st) = 0"
    "time_T2 (initial_lateral_state sample_lateral st) = 3600"
    by (simp_all add: initial_lateral_state_def sample_lateral_def)
  show ?thesis
    using u [of sample_lateral s2] by (simp add: initialize_forcing_def Let_def L s1 s2)
qed

lemma restart_forcing_lags_witness:
  "\<exists>s'. initialize_forcing (distributed (sample_grid 3 3) (1, 1) (0, 0)) sample_read sample_lateral 36000 (\<lambda>_ _. 0) = Inr s' \<and>
    store s' ''th_ls'' (block_cell (distributed (sample_grid 3 3) (1, 1) (0, 0)) (0, 1, 1)) = 9"
proof -
  let ?g = "distributed (sample_grid 3 3) (1, 1) (0, 0)"
  obtain s' where s': "initialize_forcing ?g sample_read sample_lateral 36000 (\<lambda>_ _. 0) = Inr s'"
    using sample_initialize by blast
  have blk: "in_block ?g (0, 1, 1)"
    by (simp add: in_block_def distributed_def sample_grid_def axis_simps full_axis_def initial_dimension_def
        distribute_x_def distribute_y_def split_nonneg)
  have L: "update_interval sample_lateral = 3600" "time_varying sample_lateral" "target_vars sample_lateral = [''th'', ''qv'']"
    by (simp_all add: sample_lateral_def)
  show ?thesis
    using restart_forcing_lags [OF _ _ sample_whole_columns _ _ s' _ blk, of "''th''"] s'
    by (simp add: L file_value_def sample_forcing_file sample_read_def)
qed

lemma sample_update: "\<exists>s'. update_large_scale_forcing g sample_read L t s = Inr s'"
proof -
  have l: "\<exists>s'. load_forcing_data g sample_read L path b s = Inr s'" for L path b s
  proof -
    obtain st' where "load_vars g sample_read path (\<lambda>v. if b then v @ ''_ls'' else name_T2 s v) (target_vars L) (store s) = Inr st'"
      using sample_load by blast
    then show ?thesis by (simp add: load_forcing_data_def)
  qed
  obtain s3 where "load_forcing_data g sample_read L (forcing_file L (time_T2 (swap_names L s) + update_interval L)) False
      ((swap_names L s)\<lparr>time_T1 := time_T2 (swap_names L s), time_T2 := time_T2 (swap_names L s) + update_interval L\<rparr>) = Inr s3"
    using l by blast
  then show ?thesis by (simp add: update_large_scale_forcing_def Let_def)
qed

lemma sample_lateral_simps:
  "update_interval sample_lateral = 3600" "time_varying sample_lateral" "target_vars sample_lateral = [''th'', ''qv'']"
  by (simp_all add: sample_lateral_def)

lemma sample_block: "in_block (distributed (sample_grid 3 3) (1, 1) (0, 0)) (0, 1, 1)"
  by (simp add: in_block_def distributed_def sample_grid_def axis_simps full_axis_def initial_dimension_def
      distribute_x_def distribute_y_def split_nonneg)

lemma lateral_forcing_interpolates_witness:
  "\<exists>s s'. update_large_scale_forcing (distributed (sample_grid 3 3) (1, 1) (0, 0)) sample_read sample_lateral 1800 s = Inr s' \<and>
    store s' ''th_ls'' (block_cell (distributed (sample_grid 3 3) (1, 1) (0, 0)) (0, 1, 1)) = 3"
proof -
  let ?g = "distributed (sample_grid 3 3) (1, 1) (0, 0)"
  note L = sample_lateral_simps
  obtain s0 where s0: "initialize_forcing ?g sample_read sample_lateral 1800 (\<lambda>_ _. 0) = Inr s0"
    using sample_initialize by blast
  obtain s where s: "lateral_ok ?g sample_read sample_lateral s" "time_T1 s = 0" "time_T2 s = 3600" "targets s = []"
    and up: "update_large_scale_forcing ?g sample_read sample_lateral 1800 s = Inr s0"
    by (rule initialize_forcing_ok [OF _ _ _ s0]) (simp_all add: L)
  have t: "time_T1 s0 = 0" "time_T2 s0 = 3600"
    using update_forcing_ok [OF L(2) s(1) sample_whole_columns cache_is_empty [OF s(4)] up refl] s
    by (auto simp: lateral_ok_def L)
  note interp = lateral_forcing_interpolates [OF L(2) _ sample_whole_columns s(1) cache_is_empty [OF s(4)] _ _ up refl refl]
  have "store s0 (''th'' @ ''_ls'') (block_cell ?g (0, 1, 1)) =
      (1 - (1800 - time_T1 s0) / update_interval sample_lateral) * file_value sample_read sample_lateral (time_T1 s0) ''th'' (0, 1, 1) +
      (1800 - time_T1 s0) / update_interval sample_lateral * file_value sample_read sample_lateral (time_T2 s0) ''th'' (0, 1, 1)"
    using interp [THEN conjunct2, THEN conjunct2, THEN conjunct2, THEN conjunct2, THEN conjunct2, rule_format, of "''th''" "(0, 1, 1)"]
      sample_block by (simp add: L s)
  then have "store s0 ''th_ls'' (block_cell ?g (0, 1, 1)) = 3"
    by (simp add: t L file_value_def sample_forcing_file sample_read_def)
  with up show ?thesis by blast
qed

lemma lateral_forcing_runs_backwards_witness:
  "\<exists>s s'. initialize_forcing (distributed (sample_grid 3 3) (1, 1) (0, 0)) sample_read sample_lateral 0 (\<lambda>_ _. 0) = Inr s \<and>
    update_large_scale_forcing (distributed (sample_grid 3 3) (1, 1) (0, 0)) sample_read sample_lateral 3600 s = Inr s' \<and>
    store s' ''th_ls'' (block_cell (distributed (sample_grid 3 3) (1, 1) (0, 0)) (0, 1, 1)) = 9"
proof -
  let ?g = "distributed (sample_grid 3 3) (1, 1) (0, 0)"
  note L = sample_lateral_simps
  obtain s where s: "initialize_forcing ?g sample_read sample_lateral 0 (\<lambda>_ _. 0) = Inr s"
    using sample_initialize by blast
  obtain s' where up: "update_large_scale_forcing ?g sample_read sample_lateral 3600 s = Inr s'"
    using sample_update by blast
  have "store s' (''th'' @ ''_ls'') (block_cell ?g (0, 1, 1)) = 9"
    using lateral_forcing_runs_backwards [OF L(2) _ sample_whole_columns _ _ s _ _ up _ sample_block, of "''th''"]
    by (simp add: L file_value_def sample_forcing_file sample_read_def)
  with s up show ?thesis by auto
qed

section \<open>Relaxation\<close>

lemma find_Some_in: "find P xs = Some x \<Longrightarrow> P x \<and> x \<in> set xs"
  by (induction xs) (auto split: if_splits)

lemma sponge_start_Some:
  assumes "sponge_start g z base = Some ks"
  shows "z (ks - 1) < base" "get_halo_cells g + 2 \<le> ks"
    "ks \<le> get_local_total_points_z g - get_halo_cells g + 1"
  using assms find_Some_in by (fastforce simp: sponge_start_def Let_def in_range1)+

lemma make_sponge_profile:
  assumes "make_sponge g config z_mid z_up = Inr (Some S)"
  shows "cgr_thermo S k = (if k_start_thermo S \<le> k \<and> k < get_local_total_points_z g - get_halo_cells g
      then crad S * (z_mid k - z_mid (k_start_thermo S - 1)) /
        (z_mid (get_local_total_points_z g - get_halo_cells g - 1) - z_mid (k_start_thermo S - 1)) else 0)"
  using assms
  by (clarsimp simp: make_sponge_def Let_def bind_eq_Some_conv elim!: rbind_InrE)

lemma make_sponge_start:
  assumes "make_sponge g config z_mid z_up = Inr (Some S)"
  shows "sponge_dynamics_vars S = [''xi'', ''eta'', ''zeta'']"
    and "\<exists>base. sponge_start g z_mid base = Some (k_start_thermo S)"
  using assms
  by (clarsimp simp: make_sponge_def Let_def bind_eq_Some_conv elim!: rbind_InrE; blast?)+

lemma cgr_thermo_range:
  assumes "make_sponge g config z_mid z_up = Inr (Some S)" and "0 \<le> crad S"
    and mono: "\<And>k k'. k < k' \<Longrightarrow> z_mid k < z_mid k'"
  shows "0 \<le> cgr_thermo S k \<and> cgr_thermo S k \<le> crad S"
proof -
  let ?top = "get_local_total_points_z g - get_halo_cells g - 1" and ?b = "k_start_thermo S - 1"
  note cgr = make_sponge_profile [OF assms(1), of k]
  show ?thesis
  proof (cases "k_start_thermo S \<le> k \<and> k < get_local_total_points_z g - get_halo_cells g")
    case True
    then have "0 < z_mid k - z_mid ?b" using mono [of ?b k] by simp
    moreover have "z_mid k - z_mid ?b \<le> z_mid ?top - z_mid ?b"
      using mono [of k ?top] True by (cases "k = ?top") auto
    ultimately have "0 \<le> (z_mid k - z_mid ?b) / (z_mid ?top - z_mid ?b)"
      "(z_mid k - z_mid ?b) / (z_mid ?top - z_mid ?b) \<le> 1" by simp_all
    from this mult_left_le [OF this(2) assms(2)] mult_nonneg_nonneg [OF assms(2) this(1)]
    show ?thesis using True by (simp add: cgr)
  next
    case False
    then show ?thesis using assms(2) by (auto simp: cgr)
  qed
qed

text \<open>A step of forward Euler towards a reference value does not leave the interval between the two.\<close>

lemma relax_between:
  fixes x r c :: real
  assumes "0 \<le> c" and "c \<le> 1"
  shows "\<bar>x + c * (r - x) - r\<bar> \<le> \<bar>x - r\<bar>"
proof -
  have "x + c * (r - x) - r = (1 - c) * (x - r)" by (simp add: algebra_simps)
  then have "\<bar>x + c * (r - x) - r\<bar> = (1 - c) * \<bar>x - r\<bar>" using assms by (simp add: abs_mult)
  also have "\<dots> \<le> \<bar>x - r\<bar>" using assms by (simp add: mult_left_le_one_le)
  finally show ?thesis .
qed

lemma sponge_step_cell:
  assumes "damp_thermo S" and "name = ''th'' \<or> name = ''qv''" and "name \<notin> set (sponge_dynamics_vars S)"
    and "get_halo_cells g \<le> k_start_thermo S"
  shows "apply_forward_update_3 g name dt (sponge_tendency_3 g S reference name x (\<lambda>_. 0)) x (0, k, j, i) =
    (if k_start_thermo S \<le> k \<and> k < get_local_total_points_z g - get_halo_cells g \<and> interior g j i
     then x (0, k, j, i) + dt * cgr_thermo S k * (reference name k - x (0, k, j, i)) else x (0, k, j, i))"
proof -
  note upd = physical_update_cell [of g "k_start_thermo S" "get_local_total_points_z g - get_halo_cells g"
      "\<lambda>c v. v + - cgr_thermo S (fst c) * (x (at_cell c) - reference name (fst c))" "\<lambda>_. 0" k j i]
  have ke: "k_end g name = get_local_total_points_z g - get_halo_cells g" using assms(2) by (auto simp: k_end_def)
  have nm: "name \<noteq> ''xi'' \<and> name \<noteq> ''eta''" using assms(2) by auto
  have "sponge_tendency_3 g S reference name x (\<lambda>_. 0) (0, k, j, i) =
    (if k_start_thermo S \<le> k \<and> k < get_local_total_points_z g - get_halo_cells g \<and> interior g j i
     then - cgr_thermo S k * (x (0, k, j, i) - reference name k) else 0)"
    using upd assms(1-3) nm by (simp add: sponge_tendency_3_def Let_def at_cell_def)
  then show ?thesis
    using assms(4) by (simp add: apply_forward_update_3_def add_tendency_cell ke algebra_simps)
qed

text \<open>The sponge layer: with heights that increase upwards and a rate that the time step resolves, the
  forward step with the sponge tendency moves no value of potential temperature or water vapour away
  from its reference profile, and changes nothing below the start level of the layer.\<close>

theorem sponge_relaxes:
  assumes "make_sponge g config z_mid z_up = Inr (Some S)" and "damp_thermo S"
    and "\<And>k k'. k < k' \<Longrightarrow> z_mid k < z_mid k'" and "0 \<le> crad S" and "0 \<le> dt" and "dt * crad S \<le> 1"
    and "name = ''th'' \<or> name = ''qv''"
    and "x' = apply_forward_update_3 g name dt (sponge_tendency_3 g S reference name x (\<lambda>_. 0)) x"
  shows "\<bar>x' (0, k, j, i) - reference name k\<bar> \<le> \<bar>x (0, k, j, i) - reference name k\<bar> \<and>
    (k < k_start_thermo S \<longrightarrow> x' (0, k, j, i) = x (0, k, j, i))"
proof -
  have dyn: "sponge_dynamics_vars S = [''xi'', ''eta'', ''zeta'']"
    and start: "\<exists>base. sponge_start g z_mid base = Some (k_start_thermo S)"
    using make_sponge_start [OF assms(1)] by simp_all
  then have h: "get_halo_cells g \<le> k_start_thermo S" using sponge_start_Some(2) by fastforce
  have nd: "name \<notin> set (sponge_dynamics_vars S)" using assms(7) dyn by auto
  note cell = sponge_step_cell [OF assms(2,7) nd h, of dt reference x k j i, folded assms(8)]
  have c: "0 \<le> cgr_thermo S k" "cgr_thermo S k \<le> crad S"
    using cgr_thermo_range [OF assms(1,4,3)] by simp_all
  then have "0 \<le> dt * cgr_thermo S k" "dt * cgr_thermo S k \<le> 1"
    using assms(5,6) mult_left_mono [OF c(2) assms(5)] by simp_all
  then show ?thesis using relax_between [of "dt * cgr_thermo S k"] cell by auto
qed

text \<open>The nudging of the lateral boundaries relaxes in the same way, with a weight between 0 and 1.\<close>

lemma lbn_weight_range:
  "lbn_weight g L dx dy j i = 0 \<or> 1 / 1000 \<le> lbn_weight g L dx dy j i \<and> lbn_weight g L dx dy j i \<le> 1"
  unfolding lbn_weight_def Let_def by (simp split: if_split)

lemma clip_range:
  fixes x :: real
  shows "(if x < 1 / 1000 then 0 else min 1 x) = 0 \<or>
    1 / 1000 \<le> (if x < 1 / 1000 then 0 else min 1 x) \<and> (if x < 1 / 1000 then 0 else min 1 x) \<le> 1"
  by (simp add: min_def)

lemma lbn_weight_mapped_range:
  "lbn_weight_mapped L dw de ds dn = 0 \<or> 1 / 1000 \<le> lbn_weight_mapped L dw de ds dn \<and> lbn_weight_mapped L dw de ds dn \<le> 1"
  unfolding lbn_weight_mapped_def Let_def by (rule clip_range)

lemma lateral_step_cell:
  "apply_forward_update_3 g name dt (lateral_tendency g L weight var_ls x (\<lambda>_. 0)) x (0, k, j, i) =
    (if get_halo_cells g \<le> k \<and> k < k_end g name \<and> interior g j i \<and> weight j i > 1 / 1000000
     then x (0, k, j, i) + dt * (weight j i * inv_tau_b L) * (var_ls (0, k, j, i) - x (0, k, j, i))
     else x (0, k, j, i))"
proof -
  note upd = physical_update_cell [of g "get_halo_cells g" "get_local_total_points_z g - get_halo_cells g"
      "\<lambda>c v. case c of (k, j, i) \<Rightarrow> let fn = weight j i in
         if fn > 1 / 1000000 then v + fn * inv_tau_b L * (var_ls (at_cell c) - x (at_cell c)) else v" "\<lambda>_. 0" k j i]
  have "(\<lambda>c (d :: view). case c of (k, j, i) \<Rightarrow> let fn = weight j i in
         if fn > 1 / 1000000 then d (at_cell c) + fn * inv_tau_b L * (var_ls (at_cell c) - x (at_cell c))
         else d (at_cell c)) =
      (\<lambda>c d. (\<lambda>c v. case c of (k, j, i) \<Rightarrow> let fn = weight j i in
         if fn > 1 / 1000000 then v + fn * inv_tau_b L * (var_ls (at_cell c) - x (at_cell c)) else v) c (d (at_cell c)))"
    by (simp add: fun_eq_iff)
  then have "lateral_tendency g L weight var_ls x (\<lambda>_. 0) (0, k, j, i) =
    (if get_halo_cells g \<le> k \<and> k < get_local_total_points_z g - get_halo_cells g \<and> interior g j i \<and>
       weight j i > 1 / 1000000
     then weight j i * inv_tau_b L * (var_ls (0, k, j, i) - x (0, k, j, i)) else 0)"
    unfolding lateral_tendency_def Let_def using upd by (simp add: Let_def at_cell_def)
  moreover have "k_end g name \<le> get_local_total_points_z g - get_halo_cells g" by (simp add: k_end_def)
  ultimately show ?thesis
    by (auto simp: apply_forward_update_3_def add_tendency_cell algebra_simps)
qed

text \<open>Lateral nudging: the weight of a cell, on a Cartesian or a mapped grid, is zero or between one
  thousandth and one, and with a relaxation time that the time step resolves the nudging step moves no value away
  from the large-scale field and leaves the cells with weight zero alone.\<close>

theorem lateral_nudging_relaxes:
  assumes "0 \<le> dt" and "0 \<le> inv_tau_b L" and "dt * inv_tau_b L \<le> 1"
    and "weight j i = lbn_weight g L dx dy j i \<or> weight j i = lbn_weight_mapped L west east south north"
    and "x' = apply_forward_update_3 g name dt (lateral_tendency g L weight var_ls x (\<lambda>_. 0)) x"
  shows "\<bar>x' (0, k, j, i) - var_ls (0, k, j, i)\<bar> \<le> \<bar>x (0, k, j, i) - var_ls (0, k, j, i)\<bar> \<and>
    (weight j i = 0 \<longrightarrow> x' (0, k, j, i) = x (0, k, j, i)) \<and>
    (weight j i = 0 \<or> 1 / 1000 \<le> weight j i \<and> weight j i \<le> 1)"
proof -
  have w: "weight j i = 0 \<or> 1 / 1000 \<le> weight j i \<and> weight j i \<le> 1"
    using assms(4) lbn_weight_range [of g L dx dy j i] lbn_weight_mapped_range [of L west east south north] by metis
  have w01: "0 \<le> weight j i" "weight j i \<le> 1" using w by auto
  have "0 \<le> dt * inv_tau_b L" using assms(1,2) by simp
  then have "weight j i * (dt * inv_tau_b L) \<le> 1" using w01 assms(3) mult_le_one by blast
  then have "0 \<le> dt * (weight j i * inv_tau_b L)" "dt * (weight j i * inv_tau_b L) \<le> 1"
    using w01 assms(1,2) by (simp_all add: algebra_simps)
  from relax_between [OF this] show ?thesis
    unfolding assms(5) lateral_step_cell using w by auto
qed

text \<open>The start level of the sponge layer is found exactly when some level above the lowest physical one, up
  to the first level above the domain, lies below the base of the layer; otherwise, in
  particular with the default base \<open>-1\<close> above a ground at height zero or higher, the code leaves it
  without a value.\<close>

theorem sponge_start_unset:
  "sponge_start g z base = None \<longleftrightarrow>
     (\<nexists>k. get_halo_cells g < k \<and> k \<le> get_local_total_points_z g - get_halo_cells g \<and> z k < base)"
  by (auto simp: sponge_start_def Let_def find_None_iff in_range1 not_less)

definition sample_sponge_config :: json where
  "sample_sponge_config = JObject [(''dynamics'', JObject [(''forcings'', JObject [(''sponge_layer'', JObject
     [(''inv_CRAD'', JInt 100), (''sponge_layer_base'', JInt 5)])])])]"

lemma sample_sponge_find:
  "find_node sample_sponge_config ''physics.p3.enable_p3'' = None"
  "find_node sample_sponge_config ''dynamics.forcings.sponge_layer.damp_thermo'' = None"
  "find_node sample_sponge_config ''dynamics.forcings.sponge_layer.damp_vort'' = None"
  "find_node sample_sponge_config ''dynamics.forcings.sponge_layer.inv_CRAD'' = Some (JInt 100)"
  "find_node sample_sponge_config ''dynamics.forcings.sponge_layer.sponge_layer_base'' = Some (JInt 5)"
  by code_simp+

lemma sample_sponge_axis:
  "get_halo_cells (distributed (sample_grid 3 3) (1, 1) (0, 0)) = 2"
  "get_local_total_points_z (distributed (sample_grid 3 3) (1, 1) (0, 0)) = 8"
  by (simp_all add: sample_grid_def initial_dimension_def get_halo_cells_def get_local_total_points_z_def
      distributed_def full_axis_def)

lemma sample_sponge_start:
  "sponge_start (distributed (sample_grid 3 3) (1, 1) (0, 0)) real_of_int 5 = Some 5"
proof -
  have "range1 3 7 = [3, 4, 5, 6]" by code_simp
  then show ?thesis by (simp add: sponge_start_def Let_def sample_sponge_axis)
qed

lemma sponge_relaxes_witness:
  "\<exists>S. make_sponge (distributed (sample_grid 3 3) (1, 1) (0, 0)) sample_sponge_config real_of_int real_of_int = Inr (Some S) \<and>
    \<bar>apply_forward_update_3 (distributed (sample_grid 3 3) (1, 1) (0, 0)) ''th'' 10
       (sponge_tendency_3 (distributed (sample_grid 3 3) (1, 1) (0, 0)) S (\<lambda>_ _. 300) ''th'' (\<lambda>_. 290) (\<lambda>_. 0))
       (\<lambda>_. 290) (0, 5, 2, 2) - 300\<bar> \<le> 10"
proof -
  let ?g = "distributed (sample_grid 3 3) (1, 1) (0, 0)"
  obtain S where S: "make_sponge ?g sample_sponge_config real_of_int real_of_int = Inr (Some S)"
    "damp_thermo S" "crad S = 1 / 100"
    by (simp add: make_sponge_def get_value_default_def sample_sponge_find sample_sponge_start Let_def)
  show ?thesis
    using sponge_relaxes [OF S(1,2) _ _ _ _ _ refl, of 10 "''th''" "\<lambda>_ _. 300" "\<lambda>_. 290" 5 2 2] S(1)
    by (simp add: S(3))
qed

lemma lateral_nudging_relaxes_witness:
  "\<bar>apply_forward_update_3 (distributed (sample_grid 3 3) (1, 1) (0, 0)) ''th'' 10
     (lateral_tendency (distributed (sample_grid 3 3) (1, 1) (0, 0)) sample_lateral
       (lbn_weight (distributed (sample_grid 3 3) (1, 1) (0, 0)) sample_lateral 100 100) (\<lambda>_. 300) (\<lambda>_. 290) (\<lambda>_. 0))
     (\<lambda>_. 290) (0, 3, 2, 2) - 300\<bar> \<le> 10"
  using lateral_nudging_relaxes [where dt = 10 and L = sample_lateral and dx = 100 and dy = 100
      and g = "distributed (sample_grid 3 3) (1, 1) (0, 0)" and name = "''th''" and var_ls = "\<lambda>_. 300"
      and weight = "lbn_weight (distributed (sample_grid 3 3) (1, 1) (0, 0)) sample_lateral 100 100"
      and x = "\<lambda>_. 290" and k = 3 and j = 2 and i = 2, OF _ _ _ disjI1 [OF refl] refl]
  by (simp add: sample_lateral_def)

end
