(* ===== verification/Poisson_Line.thy ===== *)
theory Poisson_Line
  imports Halo_Periodic Kernels
begin

text \<open>
  The vertical part of the wind solver: the parameters of the model, the coefficients and factors that
  \<open>initialize_poisson\<close> (\<^verbatim>\<open>src/core/initialization/Initializer.cpp\<close>) computes, and the elimination of one column in
  \<open>fused_tridiagonal_solver\<close> (\<^verbatim>\<open>src/dynamics/solvers/WindSolver.cpp\<close>).  The factors have positive pivots, the
  elimination solves its tridiagonal system exactly, and the system has a maximum principle.
\<close>

section \<open>Parameters\<close>

record parameters =
  p_rdx :: real
  p_rdy :: real
  p_rdz :: real
  p_rdx2 :: real
  p_rdy2 :: real
  p_rdz2 :: real
  p_dz :: real
  p_WRXMU :: real
  p_solver_iteration :: int
  p_max_topo_idx :: int
  p_flex_mid :: "int \<Rightarrow> real"
  p_flex_up :: "int \<Rightarrow> real"
  p_AGAU :: "int \<Rightarrow> real"
  p_BGAU :: "int \<Rightarrow> real"
  p_CGAU :: "int \<Rightarrow> real"
  p_bn_new :: "int \<Rightarrow> real"
  p_cn_new :: "int \<Rightarrow> real"

section \<open>Coefficients and factors\<close>

definition init_poisson_coef :: "grid \<Rightarrow> (int \<Rightarrow> real) \<Rightarrow> (int \<Rightarrow> real) \<Rightarrow> parameters \<Rightarrow> parameters" where
  "init_poisson_coef g rho rho_up P =
     (let h = get_halo_cells g; nz' = get_local_total_points_z g;
          inner = (\<lambda>k. h \<le> k \<and> k \<le> nz' - h - 2);
          up = p_flex_up P; mid = p_flex_mid P
      in P\<lparr>p_AGAU := (\<lambda>k. if 0 \<le> k \<and> k < nz' then
              if inner k then - up k * mid k * p_rdz2 P / rho k else - (9 * 10 ^ 16) else p_AGAU P k),
           p_BGAU := (\<lambda>k. if 0 \<le> k \<and> k < nz' then
              if inner k then (p_WRXMU P + 2 * p_rdx2 P + 2 * p_rdy2 P) / rho_up k +
                up k * (mid (k + 1) / rho (k + 1) + mid k / rho k) * p_rdz2 P
              else - (9 * 10 ^ 16) else p_BGAU P k),
           p_CGAU := (\<lambda>k. if 0 \<le> k \<and> k < nz' then
              if inner k then - up k * mid (k + 1) * p_rdz2 P / rho (k + 1) else - (9 * 10 ^ 16)
              else p_CGAU P k)\<rparr>)"

definition factor_step ::
  "int \<Rightarrow> int \<Rightarrow> parameters \<Rightarrow> int \<Rightarrow> (int \<Rightarrow> real) \<times> (int \<Rightarrow> real) \<Rightarrow> (int \<Rightarrow> real) \<times> (int \<Rightarrow> real)" where
  "factor_step h nz' P k bc =
     (let (bn, cn) = bc in
      if k = h then (bn, cn(h := p_CGAU P h / p_BGAU P h))
      else if h + 1 \<le> k \<and> k \<le> nz' - h - 2 then
        (let bn' = bn(k := p_BGAU P k - p_AGAU P k * cn (k - 1)) in (bn', cn(k := p_CGAU P k / bn' k)))
      else (bn(k := - (9 * 10 ^ 16)), cn(k := - (9 * 10 ^ 16))))"

definition initialize_poisson :: "grid \<Rightarrow> (int \<Rightarrow> real) \<Rightarrow> (int \<Rightarrow> real) \<Rightarrow> parameters \<Rightarrow> parameters" where
  "initialize_poisson g rho rho_up P =
     (let nz' = get_local_total_points_z g; P1 = init_poisson_coef g rho rho_up P;
          (bn, cn) = fold (factor_step (get_halo_cells g) nz' P1) (range1 0 nz') (p_bn_new P1, p_cn_new P1)
      in P1\<lparr>p_bn_new := bn, p_cn_new := cn\<rparr>)"

section \<open>One line\<close>

text \<open>The two loops of \<open>fused_tridiagonal_solver\<close> over the levels \<open>h\<close> to \<open>n = nz - h - 2\<close> of a
  column: \<open>tmp\<close> is the row of the column in the work array, \<open>col\<close> the column of the new iterate.\<close>

definition forward_elimination :: "int \<Rightarrow> int \<Rightarrow> parameters \<Rightarrow> (int \<Rightarrow> real) \<Rightarrow> (int \<Rightarrow> real) \<Rightarrow> int \<Rightarrow> real" where
  "forward_elimination h n P rhs tmp =
     fold (\<lambda>k t. t(k := (rhs k - p_AGAU P k * t (k - 1)) / p_bn_new P k)) (range1 (h + 1) (n + 1))
       (tmp(h := rhs h / p_BGAU P h))"

definition backward_substitution ::
  "int \<Rightarrow> int \<Rightarrow> parameters \<Rightarrow> (int \<Rightarrow> real) \<Rightarrow> (int \<Rightarrow> real) \<Rightarrow> (int \<Rightarrow> real) \<Rightarrow> int \<Rightarrow> real" where
  "backward_substitution h n P rho_up tmp col =
     (let (pm, col') = fold (\<lambda>k (pm_next, c).
            let pm_k = tmp k - p_cn_new P k * pm_next in (pm_k, c(k := pm_k / rho_up k)))
          (rev (range1 h n)) (tmp n, col(n := tmp n / rho_up n))
      in col'(h - 1 := 0, n + 1 := 0))"

definition line_solve ::
  "int \<Rightarrow> int \<Rightarrow> parameters \<Rightarrow> (int \<Rightarrow> real) \<Rightarrow> (int \<Rightarrow> real) \<Rightarrow> (int \<Rightarrow> real) \<Rightarrow> (int \<Rightarrow> real) \<Rightarrow> int \<Rightarrow> real" where
  "line_solve h n P rho_up rhs tmp col = backward_substitution h n P rho_up (forward_elimination h n P rhs tmp) col"

section \<open>Loops over a range\<close>

lemma range1_snoc: "range1 a (a + int (Suc m)) = range1 a (a + int m) @ [a + int m]"
  unfolding range1_def using upto_rec2 [of a "a + int m"] by simp

lemma range1_empty: "b \<le> a \<Longrightarrow> range1 a b = []"
  by (simp add: range1_def)

lemma rev_range1_snoc: "rev (range1 (b - int (Suc m)) b) = rev (range1 (b - int m) b) @ [b - int (Suc m)]"
  unfolding range1_def using upto_rec1 [of "b - int (Suc m)" "b - 1"] by simp

text \<open>A loop that defines every entry from the previous one.\<close>

lemma fold_recurrence:
  fixes t0 :: "int \<Rightarrow> 'a" and F :: "int \<Rightarrow> 'a \<Rightarrow> 'a"
  assumes t_def: "t = fold (\<lambda>k t. t(k := F k (t (k - 1)))) (range1 a b) t0"
  shows "t k = (if a \<le> k \<and> k < b then F k (t (k - 1)) else t0 k)"
proof -
  define f where "f m = fold (\<lambda>k t. t(k := F k (t (k - 1)))) (range1 a (a + int m)) t0" for m
  have step: "f (Suc m) = (f m)(a + int m := F (a + int m) (f m (a + int m - 1)))" for m
    by (simp add: f_def range1_snoc del: of_nat_Suc)
  have rec: "f m k = (if a \<le> k \<and> k < a + int m then F k (f m (k - 1)) else t0 k)" for m k
  proof (induction m arbitrary: k)
    case 0
    show ?case by (auto simp: f_def range1_empty)
  next
    case (Suc m)
    show ?case
    proof (cases "k = a + int m")
      case True
      then show ?thesis by (simp add: step)
    next
      case False
      then have "f (Suc m) k = (if a \<le> k \<and> k < a + int m then F k (f m (k - 1)) else t0 k)"
        by (simp add: step Suc [of k])
      moreover have "k < a + int m \<Longrightarrow> f m (k - 1) = f (Suc m) (k - 1)" by (simp add: step)
      ultimately show ?thesis using False by auto
    qed
  qed
  have t: "t = f (nat (b - a))"
    by (cases "a \<le> b") (simp_all add: t_def f_def range1_empty)
  have "a \<le> k \<and> k < a + int (nat (b - a)) \<longleftrightarrow> a \<le> k \<and> k < b" by auto
  then show ?thesis unfolding t by (subst rec) simp
qed

lemma forward_elimination_eq:
  assumes "h \<le> n" and t: "t = forward_elimination h n P rhs tmp"
  shows "t h = rhs h / p_BGAU P h"
    and "h < k \<Longrightarrow> k \<le> n \<Longrightarrow> t k = (rhs k - p_AGAU P k * t (k - 1)) / p_bn_new P k"
proof -
  note F = fold_recurrence [where F = "\<lambda>k x. (rhs k - p_AGAU P k * x) / p_bn_new P k", OF t [unfolded forward_elimination_def]]
  show "t h = rhs h / p_BGAU P h" using F [of h] by simp
  show "h < k \<Longrightarrow> k \<le> n \<Longrightarrow> t k = (rhs k - p_AGAU P k * t (k - 1)) / p_bn_new P k"
    using F [of k] by simp
qed

text \<open>The values of \<open>pm\<close> in the downward loop, \<open>m\<close> levels below the top.\<close>

fun substituted :: "parameters \<Rightarrow> (int \<Rightarrow> real) \<Rightarrow> int \<Rightarrow> nat \<Rightarrow> real" where
  "substituted P tmp n 0 = tmp n"
| "substituted P tmp n (Suc m) = tmp (n - int (Suc m)) - p_cn_new P (n - int (Suc m)) * substituted P tmp n m"

lemma backward_loop:
  "fold (\<lambda>k (pm_next, c). let pm_k = tmp k - p_cn_new P k * pm_next in (pm_k, c(k := pm_k / rho_up k)))
      (rev (range1 (n - int m) n)) (tmp n, col(n := tmp n / rho_up n)) =
    (substituted P tmp n m,
     \<lambda>k. if n - int m \<le> k \<and> k \<le> n then substituted P tmp n (nat (n - k)) / rho_up k else col k)"
proof (induction m)
  case 0
  show ?case by (auto simp: range1_empty)
next
  case (Suc m)
  have "nat (n - (n - int (Suc m))) = Suc m" by simp
  then show ?case
    unfolding rev_range1_snoc fold_append comp_apply Suc by (auto simp: Let_def fun_eq_iff)
qed

lemma backward_substitution_eq:
  assumes "h \<le> n" and c: "c = backward_substitution h n P rho_up tmp col"
  defines "p \<equiv> (\<lambda>k. substituted P tmp n (nat (n - k)))"
  shows "h \<le> k \<Longrightarrow> k \<le> n \<Longrightarrow> c k = p k / rho_up k"
    and "c (h - 1) = 0" and "c (n + 1) = 0"
    and "p n = tmp n" and "k < n \<Longrightarrow> p k = tmp k - p_cn_new P k * p (k + 1)"
    and "k < h - 1 \<or> n + 1 < k \<Longrightarrow> c k = col k"
proof -
  have "n - int (nat (n - h)) = h" using assms(1) by simp
  note B = backward_loop [of tmp P rho_up n "nat (n - h)" col, unfolded this]
  have c': "c = (\<lambda>k. if h \<le> k \<and> k \<le> n then p k / rho_up k else col k)(h - 1 := 0, n + 1 := 0)"
    unfolding c backward_substitution_def B p_def by simp
  show "h \<le> k \<Longrightarrow> k \<le> n \<Longrightarrow> c k = p k / rho_up k" "c (h - 1) = 0" "c (n + 1) = 0"
    "k < h - 1 \<or> n + 1 < k \<Longrightarrow> c k = col k"
    using assms(1) by (auto simp: c')
  show "p n = tmp n" by (simp add: p_def)
  assume k: "k < n"
  then have "nat (n - k) = Suc (nat (n - (k + 1)))" by simp
  moreover have "n - int (Suc (nat (n - (k + 1)))) = k" using k by simp
  ultimately show "p k = tmp k - p_cn_new P k * p (k + 1)"
    unfolding p_def by (simp only: substituted.simps)
qed

section \<open>The factors\<close>

definition profile_ok :: "grid \<Rightarrow> (int \<Rightarrow> real) \<Rightarrow> (int \<Rightarrow> real) \<Rightarrow> parameters \<Rightarrow> bool" where
  "profile_ok g rho rho_up P \<longleftrightarrow>
     (let h = get_halo_cells g; n = get_local_total_points_z g - h - 2 in
      1 \<le> h \<and> h \<le> n \<and>
      (\<forall>k \<in> {h..n}. 0 < rho_up k \<and> 0 < p_flex_up P k) \<and>
      (\<forall>k \<in> {h..n + 1}. 0 < rho k \<and> 0 < p_flex_mid P k) \<and>
      0 < p_rdx2 P \<and> 0 < p_rdy2 P \<and> 0 < p_rdz2 P \<and> 0 \<le> p_WRXMU P)"

definition column_weight :: "parameters \<Rightarrow> real" where
  "column_weight P = p_WRXMU P + 2 * p_rdx2 P + 2 * p_rdy2 P"

definition poisson_ready :: "grid \<Rightarrow> (int \<Rightarrow> real) \<Rightarrow> (int \<Rightarrow> real) \<Rightarrow> parameters \<Rightarrow> bool" where
  "poisson_ready g rho rho_up P \<longleftrightarrow>
     profile_ok g rho rho_up P \<and>
     (let h = get_halo_cells g; n = get_local_total_points_z g - h - 2; up = p_flex_up P; mid = p_flex_mid P in
      (\<forall>k \<in> {h..n}.
         p_AGAU P k = - (up k * mid k * p_rdz2 P / rho k) \<and>
         p_CGAU P k = - (up k * mid (k + 1) * p_rdz2 P / rho (k + 1)) \<and>
         p_BGAU P k = column_weight P / rho_up k - p_AGAU P k - p_CGAU P k) \<and>
      p_cn_new P h = p_CGAU P h / p_BGAU P h \<and>
      (\<forall>k \<in> {h + 1..n}.
         p_bn_new P k = p_BGAU P k - p_AGAU P k * p_cn_new P (k - 1) \<and>
         p_cn_new P k = p_CGAU P k / p_bn_new P k))"

lemma factors_loop:
  assumes "0 \<le> h" and "h + int m \<le> nz' - h - 2"
  shows "\<exists>bn cn. fold (factor_step h nz' P) (range1 0 (h + int (Suc m))) bc0 = (bn, cn) \<and>
    cn h = p_CGAU P h / p_BGAU P h \<and>
    (\<forall>k \<in> {h + 1..h + int m}. bn k = p_BGAU P k - p_AGAU P k * cn (k - 1) \<and> cn k = p_CGAU P k / bn k)"
  using assms
proof (induction m)
  case 0
  obtain bn cn where "fold (factor_step h nz' P) (range1 0 h) bc0 = (bn, cn)"
    by (cases "fold (factor_step h nz' P) (range1 0 h) bc0")
  then have "fold (factor_step h nz' P) (range1 0 (h + int (Suc 0))) bc0 = (bn, cn(h := p_CGAU P h / p_BGAU P h))"
    using 0 range1_snoc [of 0 "nat h"] by (simp add: factor_step_def add.commute)
  then show ?case by auto
next
  case (Suc m)
  let ?k = "h + int (Suc m)"
  obtain bn cn where IH: "fold (factor_step h nz' P) (range1 0 ?k) bc0 = (bn, cn)"
    "cn h = p_CGAU P h / p_BGAU P h"
    "\<forall>k \<in> {h + 1..h + int m}. bn k = p_BGAU P k - p_AGAU P k * cn (k - 1) \<and> cn k = p_CGAU P k / bn k"
    using Suc by auto
  let ?b = "p_BGAU P ?k - p_AGAU P ?k * cn (?k - 1)"
  have "range1 0 (h + int (Suc (Suc m))) = range1 0 ?k @ [?k]"
    using range1_snoc [of 0 "nat ?k"] Suc.prems by (simp add: algebra_simps)
  then have "fold (factor_step h nz' P) (range1 0 (h + int (Suc (Suc m)))) bc0 =
      (bn(?k := ?b), cn(?k := p_CGAU P ?k / ?b))"
    using IH(1) Suc.prems by (simp add: factor_step_def Let_def)
  moreover have "\<forall>k \<in> {h + 1..?k}. (bn(?k := ?b)) k = p_BGAU P k - p_AGAU P k * (cn(?k := p_CGAU P ?k / ?b)) (k - 1) \<and>
      (cn(?k := p_CGAU P ?k / ?b)) k = p_CGAU P k / (bn(?k := ?b)) k"
    using IH(3) by auto
  ultimately show ?case using IH(2) by auto
qed

lemma factor_step_outside:
  "nz' - h - 2 < k \<Longrightarrow> h \<le> nz' - h - 2 \<Longrightarrow>
    factor_step h nz' P k bc = ((fst bc)(k := - (9 * 10 ^ 16)), (snd bc)(k := - (9 * 10 ^ 16)))"
  by (auto simp: factor_step_def case_prod_beta)

lemma factor_tail:
  assumes "h \<le> nz' - h - 2" and "k \<le> nz' - h - 2"
  shows "fst (fold (factor_step h nz' P) (range1 (nz' - h - 1) (nz' - h - 1 + int m)) bc) k = fst bc k \<and>
    snd (fold (factor_step h nz' P) (range1 (nz' - h - 1) (nz' - h - 1 + int m)) bc) k = snd bc k"
proof (induction m)
  case 0
  show ?case by (simp add: range1_empty)
next
  case (Suc m)
  have "k \<noteq> nz' - h - 1 + int m" using assms by simp
  then show ?case
    unfolding range1_snoc fold_append comp_apply fold.simps id_apply
    using Suc by (simp add: factor_step_outside assms)
qed

lemma range1_split: "a \<le> b \<Longrightarrow> b \<le> c \<Longrightarrow> range1 a c = range1 a b @ range1 b c"
  by (cases "b = c") (simp_all add: range1_def upto_split1 [of a b "c - 1"])

lemma initialize_poisson_ready:
  assumes "profile_ok g rho rho_up P"
  shows "poisson_ready g rho rho_up (initialize_poisson g rho rho_up P)"
proof -
  let ?h = "get_halo_cells g" and ?nz = "get_local_total_points_z g"
  let ?n = "?nz - ?h - 2"
  let ?P1 = "init_poisson_coef g rho rho_up P"
  have hn: "1 \<le> ?h" "?h \<le> ?n" using assms by (simp_all add: profile_ok_def Let_def)
  obtain bn cn where L: "fold (factor_step ?h ?nz ?P1) (range1 0 (?n + 1)) (p_bn_new ?P1, p_cn_new ?P1) = (bn, cn)"
    "cn ?h = p_CGAU ?P1 ?h / p_BGAU ?P1 ?h"
    "\<forall>k \<in> {?h + 1..?n}. bn k = p_BGAU ?P1 k - p_AGAU ?P1 k * cn (k - 1) \<and> cn k = p_CGAU ?P1 k / bn k"
    using factors_loop [of ?h "nat (?n - ?h)" ?nz ?P1 "(p_bn_new ?P1, p_cn_new ?P1)"] hn
    by (auto simp: algebra_simps)
  have "range1 0 ?nz = range1 0 (?n + 1) @ range1 (?n + 1) ?nz"
    by (rule range1_split) (use hn in simp_all)
  moreover have "range1 (?n + 1) ?nz = range1 (?nz - ?h - 1) (?nz - ?h - 1 + int (nat (?h + 1)))"
    using hn by simp
  ultimately have F: "fold (factor_step ?h ?nz ?P1) (range1 0 ?nz) (p_bn_new ?P1, p_cn_new ?P1) =
      fold (factor_step ?h ?nz ?P1) (range1 (?nz - ?h - 1) (?nz - ?h - 1 + int (nat (?h + 1)))) (bn, cn)"
    by (simp only: L(1) fold_append comp_apply)
  let ?r = "fold (factor_step ?h ?nz ?P1) (range1 0 ?nz) (p_bn_new ?P1, p_cn_new ?P1)"
  have I: "initialize_poisson g rho rho_up P = ?P1\<lparr>p_bn_new := fst ?r, p_cn_new := snd ?r\<rparr>"
    by (simp add: initialize_poisson_def Let_def case_prod_beta)
  have bc: "k \<in> {?h..?n} \<Longrightarrow> fst ?r k = bn k \<and> snd ?r k = cn k" for k
    unfolding F using factor_tail [OF hn(2), of k ?P1 "nat (?h + 1)" "(bn, cn)"] by simp
  show ?thesis
    unfolding poisson_ready_def Let_def I
    using assms hn L(2,3) bc
    by (simp add: profile_ok_def init_poisson_coef_def Let_def column_weight_def field_simps)
qed

lemma poisson_readyD:
  assumes "poisson_ready g rho rho_up P" and "h = get_halo_cells g" and "n = get_local_total_points_z g - h - 2"
  shows "1 \<le> h" and "h \<le> n" and "0 < column_weight P"
    and "h \<le> k \<Longrightarrow> k \<le> n \<Longrightarrow> 0 < rho_up k"
    and "h \<le> k \<Longrightarrow> k \<le> n \<Longrightarrow> p_AGAU P k < 0"
    and "h \<le> k \<Longrightarrow> k \<le> n \<Longrightarrow> p_CGAU P k < 0"
    and "h \<le> k \<Longrightarrow> k \<le> n \<Longrightarrow> p_BGAU P k = column_weight P / rho_up k - p_AGAU P k - p_CGAU P k"
    and "p_cn_new P h = p_CGAU P h / p_BGAU P h"
    and "h < k \<Longrightarrow> k \<le> n \<Longrightarrow> p_bn_new P k = p_BGAU P k - p_AGAU P k * p_cn_new P (k - 1)"
    and "h < k \<Longrightarrow> k \<le> n \<Longrightarrow> p_cn_new P k = p_CGAU P k / p_bn_new P k"
  using assms(1) unfolding poisson_ready_def profile_ok_def Let_def assms(2) [symmetric] assms(3) [symmetric]
  by (auto simp: column_weight_def)

text \<open>The pivots of the elimination are positive, so that no division by zero occurs.\<close>

definition pivot :: "int \<Rightarrow> parameters \<Rightarrow> int \<Rightarrow> real" where
  "pivot h P k = (if k = h then p_BGAU P h else p_bn_new P k)"

lemma pivots_positive:
  assumes P: "poisson_ready g rho rho_up P" "h = get_halo_cells g" "n = get_local_total_points_z g - h - 2"
    and k: "h \<le> k" "k \<le> n"
  shows "0 < pivot h P k \<and> - 1 < p_cn_new P k \<and> p_cn_new P k < 0"
proof -
  note D = poisson_readyD [OF P]
  have "0 < pivot h P (h + int m) \<and> - 1 < p_cn_new P (h + int m) \<and> p_cn_new P (h + int m) < 0"
    if "h + int m \<le> n" for m
    using that
  proof (induction m)
    case 0
    have "0 < column_weight P / rho_up h" using D(3) D(4) [of h] D(2) by simp
    then have "- p_CGAU P h < p_BGAU P h" "0 < p_BGAU P h" "p_CGAU P h < 0"
      using D(5,6,7) [of h] D(2) by linarith+
    then show ?case by (simp add: pivot_def D(8) field_simps)
  next
    case (Suc m)
    let ?k = "h + int (Suc m)"
    have k: "h \<le> ?k" "?k \<le> n" "h < ?k" using Suc.prems by auto
    have IH: "- 1 < p_cn_new P (?k - 1)" "p_cn_new P (?k - 1) < 0" using Suc by (simp_all add: algebra_simps)
    have "0 < column_weight P / rho_up ?k" using D(3) D(4) [OF k(1,2)] by simp
    moreover have "p_AGAU P ?k * p_cn_new P (?k - 1) < - p_AGAU P ?k"
    proof -
      have "p_AGAU P ?k * p_cn_new P (?k - 1) < p_AGAU P ?k * (- 1)"
        using D(5) [OF k(1,2)] IH(1) by (rule mult_strict_left_mono_neg [rotated])
      then show ?thesis by simp
    qed
    ultimately have b: "- p_CGAU P ?k < p_bn_new P ?k"
      using D(7) [OF k(1,2)] D(9) [OF k(3,2)] by linarith
    with D(6) [OF k(1,2)] have "0 < p_bn_new P ?k" by linarith
    moreover from this have "- 1 < p_CGAU P ?k / p_bn_new P ?k \<and> p_CGAU P ?k / p_bn_new P ?k < 0"
      using b D(6) [OF k(1,2)] by (simp only: divide_less_0_iff less_divide_eq) simp
    ultimately show ?case using k(3) by (simp only: pivot_def D(10) [OF k(3,2)]) simp
  qed
  from this [of "nat (k - h)"] k show ?thesis by simp
qed

text \<open>Forward elimination and backward substitution solve the tridiagonal system of the column, with
  \<open>w = 0\<close> at the surface and at the lid.\<close>

lemma line_solve_exact:
  assumes P: "poisson_ready g rho rho_up P" "h = get_halo_cells g" "n = get_local_total_points_z g - h - 2"
    and c: "c = line_solve h n P rho_up rhs tmp col" and k: "h \<le> k" "k \<le> n"
  shows "p_AGAU P k * rho_up (k - 1) * c (k - 1) + p_BGAU P k * rho_up k * c k +
      p_CGAU P k * rho_up (k + 1) * c (k + 1) = rhs k"
    and "c (h - 1) = 0" and "c (n + 1) = 0"
proof -
  note D = poisson_readyD [OF P]
  let ?t = "forward_elimination h n P rhs tmp"
  define p where "p j = substituted P ?t n (nat (n - j))" for j
  note F = forward_elimination_eq [OF D(2), where t = ?t and rhs = rhs and P = P and tmp = tmp, OF refl]
  note B = backward_substitution_eq [OF D(2) c [unfolded line_solve_def], folded p_def]
  show z: "c (h - 1) = 0" "c (n + 1) = 0" using B(2,3) by auto
  have val: "rho_up j * c j = p j" if "h \<le> j" "j \<le> n" for j
    using B(1) [OF that] D(4) [OF that] by simp
  have piv: "0 < pivot h P k" using pivots_positive [OF P k] by simp
  have up: "p_CGAU P k * (rho_up (k + 1) * c (k + 1)) + pivot h P k * p k = pivot h P k * ?t k"
  proof (cases "k = n")
    case True
    then show ?thesis using z B(4) by simp
  next
    case False
    then have t: "?t k = p k + p_cn_new P k * p (k + 1)" using B(5) k by simp
    have C: "p_CGAU P k = pivot h P k * p_cn_new P k"
      using piv D(8) D(10) [of k] k by (auto simp: pivot_def)
    have "rho_up (k + 1) * c (k + 1) = p (k + 1)" using val [of "k + 1"] False k by simp
    then show ?thesis by (simp only: t C) (simp add: algebra_simps)
  qed
  have down: "p_AGAU P k * (rho_up (k - 1) * c (k - 1)) + p_BGAU P k * p k =
      pivot h P k * p k + (if k = h then 0 else p_AGAU P k * ?t (k - 1))"
  proof (cases "k = h")
    case True
    then show ?thesis using z by (simp add: pivot_def)
  next
    case False
    then have t: "?t (k - 1) = p (k - 1) + p_cn_new P (k - 1) * p k" using B(5) [of "k - 1"] k by simp
    have C: "p_BGAU P k = pivot h P k + p_AGAU P k * p_cn_new P (k - 1)" using False k D(9) [of k] by (simp add: pivot_def)
    have "rho_up (k - 1) * c (k - 1) = p (k - 1)" using val [of "k - 1"] False k by simp
    then show ?thesis using False by (simp only: t C) (simp add: algebra_simps)
  qed
  have "pivot h P k * ?t k = rhs k - (if k = h then 0 else p_AGAU P k * ?t (k - 1))"
    using piv F(1) F(2) [of k] k by (auto simp: pivot_def)
  with up down val [OF k] show "p_AGAU P k * rho_up (k - 1) * c (k - 1) + p_BGAU P k * rho_up k * c k +
      p_CGAU P k * rho_up (k + 1) * c (k + 1) = rhs k"
    by (simp add: mult.assoc)
qed

text \<open>The maximum principle of the system.\<close>

lemma line_bound:
  assumes P: "poisson_ready g rho rho_up P" "h = get_halo_cells g" "n = get_local_total_points_z g - h - 2"
    and eq: "\<And>k. h \<le> k \<Longrightarrow> k \<le> n \<Longrightarrow> p_AGAU P k * d (k - 1) + p_BGAU P k * d k + p_CGAU P k * d (k + 1) = e k"
    and ends: "d (h - 1) = 0" "d (n + 1) = 0" and "0 \<le> M"
    and e: "\<And>k. h \<le> k \<Longrightarrow> k \<le> n \<Longrightarrow> \<bar>e k\<bar> \<le> column_weight P / rho_up k * M" and k: "h \<le> k" "k \<le> n"
  shows "\<bar>d k\<bar> \<le> M"
proof -
  note D = poisson_readyD [OF P]
  obtain m where m: "h \<le> m" "m \<le> n" "\<And>j. h \<le> j \<Longrightarrow> j \<le> n \<Longrightarrow> \<bar>d j\<bar> \<le> \<bar>d m\<bar>"
  proof -
    have "finite {h..n}" "{h..n} \<noteq> {}" using D(2) by auto
    from obtains_MAX [OF this, of "\<lambda>k. \<bar>d k\<bar>"]
    obtain x where x: "x \<in> {h..n}" "\<bar>d x\<bar> = (MAX k \<in> {h..n}. \<bar>d k\<bar>)" by metis
    show ?thesis by (rule that [of x]) (use x in auto)
  qed
  have near: "\<bar>d j\<bar> \<le> \<bar>d m\<bar>" if "h - 1 \<le> j" "j \<le> n + 1" for j
    using m(3) [of j] ends that by (cases "j = h - 1 \<or> j = n + 1") auto
  let ?w = "column_weight P / rho_up m"
  have w: "0 < ?w" using D(3) D(4) [OF m(1,2)] by simp
  have A: "\<bar>p_AGAU P m * d (m - 1)\<bar> \<le> - p_AGAU P m * \<bar>d m\<bar>" "\<bar>p_CGAU P m * d (m + 1)\<bar> \<le> - p_CGAU P m * \<bar>d m\<bar>"
    using near [of "m - 1"] near [of "m + 1"] D(5,6) [OF m(1,2)] m
    by (simp_all add: abs_mult mult_left_mono)
  have "p_BGAU P m * \<bar>d m\<bar> = \<bar>p_BGAU P m * d m\<bar>"
    using D(5,6,7) [OF m(1,2)] w by (simp add: abs_mult)
  also have "\<dots> = \<bar>e m - p_AGAU P m * d (m - 1) - p_CGAU P m * d (m + 1)\<bar>"
    using eq [OF m(1,2)] by (simp add: algebra_simps)
  also have "\<dots> \<le> ?w * M + - p_AGAU P m * \<bar>d m\<bar> + - p_CGAU P m * \<bar>d m\<bar>"
    using e [OF m(1,2)] A by linarith
  finally have "?w * \<bar>d m\<bar> \<le> ?w * M"
    unfolding D(7) [OF m(1,2)] by (simp add: algebra_simps)
  then have "\<bar>d m\<bar> \<le> M" using w by (rule mult_left_le_imp_le)
  with m(3) [OF k] show ?thesis by linarith
qed

end
