(* ===== verification/Wind_Solver.thy ===== *)
theory Wind_Solver
  imports Poisson_Line Boundary_Stencils Time_Integration
begin

text \<open>
  The elliptic solver for the vertical wind (\<open>WindSolver::solve_w\<close> in \<^verbatim>\<open>src/dynamics/solvers/WindSolver.cpp\<close>)
  on one process: its source, the extrapolated first guess, the tridiagonal and the Jacobi sweep.  A sweep
  solves the columns exactly, its fixed points are the solutions of the discrete elliptic equation, and it
  does not amplify errors.
\<close>

section \<open>Kernels that run over columns\<close>

definition get_column :: "int \<Rightarrow> int \<Rightarrow> view \<Rightarrow> int \<Rightarrow> real" where
  "get_column j i d k = d (0, k, j, i)"

definition put_column :: "int \<Rightarrow> int \<Rightarrow> (int \<Rightarrow> real) \<Rightarrow> view \<Rightarrow> view" where
  "put_column j i col d = (\<lambda>(w, k, j', i'). if w = 0 \<and> j' = j \<and> i' = i then col k else d (w, k, j', i'))"

definition column_kernel :: "(int \<times> int) list \<Rightarrow> (int \<Rightarrow> int \<Rightarrow> (int \<Rightarrow> real) \<Rightarrow> int \<Rightarrow> real) \<Rightarrow> view \<Rightarrow> view" where
  "column_kernel columns f = parallel_for columns (\<lambda>(j, i) d. put_column j i (f j i (get_column j i d)) d)"

lemma column_kernel_step:
  "column_kernel ((j, i) # columns) f d = column_kernel columns f (put_column j i (f j i (get_column j i d)) d)"
  by (simp add: column_kernel_def)

lemma column_kernel_other:
  "(j, i) \<notin> set columns \<Longrightarrow> column_kernel columns f d (w, k, j, i) = d (w, k, j, i)"
proof (induction columns arbitrary: d)
  case Nil
  show ?case by (simp add: column_kernel_def)
next
  case (Cons c columns)
  then show ?case by (cases c) (auto simp: column_kernel_step put_column_def)
qed

lemma column_kernel_cell:
  "distinct columns \<Longrightarrow> (j, i) \<in> set columns \<Longrightarrow>
    column_kernel columns f d (0, k, j, i) = f j i (get_column j i d) k"
proof (induction columns arbitrary: d)
  case Nil
  then show ?case by simp
next
  case (Cons c columns)
  obtain j' i' where c: "c = (j', i')" by (cases c)
  note step = column_kernel_step [of j' i' columns f d]
  show ?case
  proof (cases "(j, i) = c")
    case True
    then have "(j, i) \<notin> set columns" using Cons.prems by auto
    then show ?thesis using True c by (auto simp: step column_kernel_other put_column_def)
  next
    case False
    then have "get_column j i (put_column j' i' (f j' i' (get_column j' i' d)) d) = get_column j i d"
      by (auto simp: get_column_def put_column_def c fun_eq_iff)
    moreover have "(j, i) \<in> set columns" using False Cons.prems by simp
    ultimately show ?thesis using Cons by (simp add: step c)
  qed
qed

section \<open>\<open>solve_w\<close> on one process\<close>

definition has_bounded_q2 :: "grid \<Rightarrow> bool" where
  "has_bounded_q2 g \<longleftrightarrow> ny (horizontal (grid_spec g)) > 1 \<and> topo_q2 (topology (horizontal (grid_spec g))) = Bounded"

definition poisson_source :: "grid \<Rightarrow> parameters \<Rightarrow> view \<Rightarrow> view \<Rightarrow> view \<Rightarrow> view" where
  "poisson_source g P xi eta ytem =
     parallel_for (physical_cells g (get_halo_cells g) (get_local_total_points_z g - get_halo_cells g - 1))
       (assign at_cell (\<lambda>c _. case c of (k, j, i) \<Rightarrow>
          - (eta (0, k, j, i) - eta (0, k, j, i - 1)) * p_rdx P - (xi (0, k, j, i) - xi (0, k, j - 1, i)) * p_rdy P)) ytem"

definition extrapolate_w :: "grid \<Rightarrow> view \<times> view \<times> view \<Rightarrow> view \<times> view \<times> view" where
  "extrapolate_w g =
     (let h = get_halo_cells g; nz' = get_local_total_points_z g in
      parallel_for (mdrange3 0 0 0 nz' (get_local_total_points_y g) (get_local_total_points_x g))
        (\<lambda>(k, j, i) (w, w3dnm1, w_deep).
           let c = (0, k, j, i); w_val = w c in
           if h \<le> k \<and> k < nz' - h - 1 then
             (let w_np1 = 2 * w_val - w3dnm1 c in (w(c := w_np1), w3dnm1(c := w_val), w_deep(c := w_np1)))
           else (w, w3dnm1(c := w_val), w_deep(c := w_val))))"

definition line_rhs :: "parameters \<Rightarrow> view \<Rightarrow> view \<Rightarrow> int \<Rightarrow> int \<Rightarrow> int \<Rightarrow> real" where
  "line_rhs P ytem p j i k =
     p_WRXMU P * p (0, k, j, i) + (p (0, k, j, i + 1) + p (0, k, j, i - 1)) * p_rdx2 P +
     (p (0, k, j + 1, i) + p (0, k, j - 1, i)) * p_rdy2 P + ytem (0, k, j, i)"

definition fused_tridiagonal_solver :: "grid \<Rightarrow> parameters \<Rightarrow> (int \<Rightarrow> real) \<Rightarrow> view \<Rightarrow> view \<Rightarrow> view \<Rightarrow> view" where
  "fused_tridiagonal_solver g P rho_up ytem p =
     (let h = get_halo_cells g; n = get_local_total_points_z g - h - 2 in
      column_kernel (team_columns h (get_local_total_points_y g - h) h (get_local_total_points_x g - h))
        (\<lambda>j i. line_solve h n P rho_up (line_rhs P ytem p j i) (\<lambda>_. 0)))"

definition jacobi_w_solver :: "grid \<Rightarrow> parameters \<Rightarrow> (int \<Rightarrow> real) \<Rightarrow> view \<Rightarrow> view \<Rightarrow> view \<Rightarrow> view" where
  "jacobi_w_solver g P rho_up ytem p =
     parallel_for (physical_cells g (get_halo_cells g) (get_local_total_points_z g - get_halo_cells g - 1))
       (assign at_cell (\<lambda>(k, j, i) c.
          let horizontal_terms = (p (0, k, j, i + 1) + p (0, k, j, i - 1)) * p_rdx2 P +
                (p (0, k, j + 1, i) + p (0, k, j - 1, i)) * p_rdy2 P;
              vertical_terms = - p_AGAU P k * p (0, k - 1, j, i) * rho_up (k - 1) -
                p_CGAU P k * p (0, k + 1, j, i) * rho_up (k + 1);
              diagonal_term = p_BGAU P k * rho_up k - p_WRXMU P
          in if diagonal_term \<noteq> 0 then (ytem (0, k, j, i) + horizontal_terms + vertical_terms) / diagonal_term
             else c (0, k, j, i)))"

definition scatter_w :: "grid \<Rightarrow> view \<Rightarrow> view \<Rightarrow> view" where
  "scatter_w g res w =
     parallel_for (physical_cells g (get_halo_cells g - 1) (get_local_total_points_z g - get_halo_cells g))
       (assign at_cell (\<lambda>c _. res (at_cell c))) w"

section \<open>What the kernels compute\<close>

lemma physical_write_cell:
  "parallel_for (physical_cells g k0 k1) (assign at_cell (\<lambda>c _. F c)) d (0, k, j, i) =
     (if k0 \<le> k \<and> k < k1 \<and> interior g j i then F (k, j, i) else d (0, k, j, i))"
  using physical_update_cell [where F = "\<lambda>c _. F c"] by simp

lemma poisson_source_cell:
  "poisson_source g P xi eta ytem (0, k, j, i) =
    (if get_halo_cells g \<le> k \<and> k < get_local_total_points_z g - get_halo_cells g - 1 \<and> interior g j i
     then - (eta (0, k, j, i) - eta (0, k, j, i - 1)) * p_rdx P - (xi (0, k, j, i) - xi (0, k, j - 1, i)) * p_rdy P
     else ytem (0, k, j, i))"
  by (simp add: poisson_source_def physical_write_cell)

lemma interior_team:
  assumes "interior g j i"
  shows "(j, i) \<in> set (team_columns (get_halo_cells g) (get_local_total_points_y g - get_halo_cells g)
      (get_halo_cells g) (get_local_total_points_x g - get_halo_cells g))"
    and "distinct (team_columns (get_halo_cells g) (get_local_total_points_y g - get_halo_cells g)
      (get_halo_cells g) (get_local_total_points_x g - get_halo_cells g))"
  using assms by (simp_all add: interior_def team_columns_props)

lemma tridiagonal_cell:
  assumes "interior g j i" and "h = get_halo_cells g" and "n = get_local_total_points_z g - h - 2"
  shows "fused_tridiagonal_solver g P rho_up ytem p c (0, k, j, i) =
    line_solve h n P rho_up (line_rhs P ytem p j i) (\<lambda>_. 0) (get_column j i c) k"
  using interior_team [OF assms(1)]
  by (simp add: fused_tridiagonal_solver_def Let_def assms(2,3) column_kernel_cell)

lemma tridiagonal_outside:
  assumes "\<not> interior g j i" and "get_halo_cells g < get_local_total_points_x g - get_halo_cells g"
  shows "fused_tridiagonal_solver g P rho_up ytem p c (w, k, j, i) = c (w, k, j, i)"
  using assms by (simp add: fused_tridiagonal_solver_def Let_def interior_def column_kernel_other team_columns_props)

lemma jacobi_cell:
  "jacobi_w_solver g P rho_up ytem p c (0, k, j, i) =
    (if get_halo_cells g \<le> k \<and> k < get_local_total_points_z g - get_halo_cells g - 1 \<and> interior g j i \<and>
        p_BGAU P k * rho_up k - p_WRXMU P \<noteq> 0
     then (ytem (0, k, j, i) + ((p (0, k, j, i + 1) + p (0, k, j, i - 1)) * p_rdx2 P +
             (p (0, k, j + 1, i) + p (0, k, j - 1, i)) * p_rdy2 P) +
           (- p_AGAU P k * p (0, k - 1, j, i) * rho_up (k - 1) - p_CGAU P k * p (0, k + 1, j, i) * rho_up (k + 1))) /
          (p_BGAU P k * rho_up k - p_WRXMU P)
     else c (0, k, j, i))"
proof -
  let ?F = "\<lambda>(k, j, i) v. if p_BGAU P k * rho_up k - p_WRXMU P \<noteq> 0
      then (ytem (0, k, j, i) + ((p (0, k, j, i + 1) + p (0, k, j, i - 1)) * p_rdx2 P +
             (p (0, k, j + 1, i) + p (0, k, j - 1, i)) * p_rdy2 P) +
           (- p_AGAU P k * p (0, k - 1, j, i) * rho_up (k - 1) - p_CGAU P k * p (0, k + 1, j, i) * rho_up (k + 1))) /
          (p_BGAU P k * rho_up k - p_WRXMU P) else v"
  have "jacobi_w_solver g P rho_up ytem p c = parallel_for (physical_cells g (get_halo_cells g)
      (get_local_total_points_z g - get_halo_cells g - 1)) (assign at_cell (\<lambda>x d. ?F x (d (at_cell x)))) c"
    unfolding jacobi_w_solver_def by (rule arg_cong [where f = "\<lambda>rd. parallel_for _ (assign at_cell rd) c"])
      (auto simp: fun_eq_iff Let_def)
  then show ?thesis using physical_update_cell [where F = ?F and d = c] by simp
qed

lemma scatter_w_cell:
  "scatter_w g res w (0, k, j, i) =
    (if get_halo_cells g - 1 \<le> k \<and> k < get_local_total_points_z g - get_halo_cells g \<and> interior g j i
     then res (0, k, j, i) else w (0, k, j, i))"
  by (simp add: scatter_w_def physical_write_cell)

section \<open>The vertical line solver\<close>

definition elliptic_residual ::
  "parameters \<Rightarrow> (int \<Rightarrow> real) \<Rightarrow> (int \<Rightarrow> real) \<Rightarrow> view \<Rightarrow> view \<Rightarrow> int \<Rightarrow> int \<Rightarrow> int \<Rightarrow> real" where
  "elliptic_residual P rho rho_up ytem p k j i =
     p_rdx2 P * (p (0, k, j, i + 1) - 2 * p (0, k, j, i) + p (0, k, j, i - 1)) +
     p_rdy2 P * (p (0, k, j + 1, i) - 2 * p (0, k, j, i) + p (0, k, j - 1, i)) +
     p_flex_up P k * p_rdz2 P *
       (p_flex_mid P (k + 1) * (rho_up (k + 1) * p (0, k + 1, j, i) - rho_up k * p (0, k, j, i)) / rho (k + 1) -
        p_flex_mid P k * (rho_up k * p (0, k, j, i) - rho_up (k - 1) * p (0, k - 1, j, i)) / rho k) +
     ytem (0, k, j, i)"

definition line_operator :: "parameters \<Rightarrow> (int \<Rightarrow> real) \<Rightarrow> view \<Rightarrow> int \<Rightarrow> int \<Rightarrow> int \<Rightarrow> real" where
  "line_operator P rho_up c k j i =
     p_AGAU P k * rho_up (k - 1) * c (0, k - 1, j, i) + p_BGAU P k * rho_up k * c (0, k, j, i) +
     p_CGAU P k * rho_up (k + 1) * c (0, k + 1, j, i)"

lemma tridiagonal_exact:
  assumes P: "poisson_ready g rho rho_up P" and hn: "h = get_halo_cells g" "n = get_local_total_points_z g - h - 2"
    and int: "interior g j i" and c': "c' = fused_tridiagonal_solver g P rho_up ytem p c"
  shows "h \<le> k \<Longrightarrow> k \<le> n \<Longrightarrow> line_operator P rho_up c' k j i = line_rhs P ytem p j i k"
    and "c' (0, h - 1, j, i) = 0" and "c' (0, n + 1, j, i) = 0"
proof -
  note T = tridiagonal_cell [OF int hn, of P rho_up ytem p c, folded c']
  note E = line_solve_exact [OF P hn refl, of _ "line_rhs P ytem p j i" "\<lambda>_. 0" "get_column j i c"]
  show "h \<le> k \<Longrightarrow> k \<le> n \<Longrightarrow> line_operator P rho_up c' k j i = line_rhs P ytem p j i k"
    using E(1) [of k] by (simp add: line_operator_def T)
  show "c' (0, h - 1, j, i) = 0" "c' (0, n + 1, j, i) = 0"
    using E(2,3) [of h] poisson_readyD(2) [OF P hn] by (simp_all add: T)
qed

lemma residual_split:
  assumes P: "poisson_ready g rho rho_up P" and hn: "h = get_halo_cells g" "n = get_local_total_points_z g - h - 2"
    and k: "h \<le> k" "k \<le> n"
  shows "line_rhs P ytem p j i k - line_operator P rho_up p k j i = elliptic_residual P rho rho_up ytem p k j i"
proof -
  have A: "p_AGAU P k = - (p_flex_up P k * p_flex_mid P k * p_rdz2 P / rho k)"
    "p_CGAU P k = - (p_flex_up P k * p_flex_mid P (k + 1) * p_rdz2 P / rho (k + 1))"
    using P k hn by (simp_all add: poisson_ready_def Let_def)
  have r: "0 < rho_up k" using poisson_readyD(4) [OF P hn k] .
  have B: "p_BGAU P k * rho_up k * x = column_weight P * x - (p_AGAU P k + p_CGAU P k) * rho_up k * x" for x
    using r by (simp add: poisson_readyD(7) [OF P hn k] field_simps)
  show ?thesis
    unfolding line_rhs_def line_operator_def elliptic_residual_def B A column_weight_def
    by (simp add: algebra_simps diff_divide_distrib add_divide_distrib)
qed

lemma line_operator_unique:
  assumes P: "poisson_ready g rho rho_up P" and hn: "h = get_halo_cells g" "n = get_local_total_points_z g - h - 2"
    and eq: "\<And>k. h \<le> k \<Longrightarrow> k \<le> n \<Longrightarrow> \<bar>line_operator P rho_up c k j i - line_operator P rho_up d k j i\<bar> \<le> column_weight P / rho_up k * M"
    and ends: "c (0, h - 1, j, i) = d (0, h - 1, j, i)" "c (0, n + 1, j, i) = d (0, n + 1, j, i)"
    and "0 \<le> M" and k: "h \<le> k" "k \<le> n"
  shows "rho_up k * \<bar>c (0, k, j, i) - d (0, k, j, i)\<bar> \<le> M"
proof -
  let ?d = "\<lambda>k. rho_up k * (c (0, k, j, i) - d (0, k, j, i))"
  have "\<bar>?d k\<bar> \<le> M"
    by (rule line_bound [OF P hn, where e = "\<lambda>k. line_operator P rho_up c k j i - line_operator P rho_up d k j i"])
       (use ends eq \<open>0 \<le> M\<close> k in \<open>simp_all add: line_operator_def algebra_simps\<close>)
  then show ?thesis using poisson_readyD(4) [OF P hn k] by (simp add: abs_mult)
qed

text \<open>C6. Vertical wind solver: one sweep of the fused tridiagonal kernel, with the coefficients and factors
  of \<open>initialize_poisson\<close>, divides only by positive numbers, the pivots and the density of every level; it solves in
  every column of the process the implicit vertical system exactly, with no vertical wind at the surface and at
  the lid; and it leaves a column unchanged exactly when that column satisfies the discrete elliptic equation
  for the vertical wind.\<close>

theorem tridiagonal_sweep_solves_columns:
  assumes "profile_ok g rho rho_up P0" and "P = initialize_poisson g rho rho_up P0" and "interior g j i"
    and "h = get_halo_cells g" and "n = get_local_total_points_z g - h - 2"
    and "c' = fused_tridiagonal_solver g P rho_up ytem p c"
    and "p (0, h - 1, j, i) = 0" and "p (0, n + 1, j, i) = 0"
  shows "0 < p_BGAU P h \<and> (\<forall>k \<in> {h + 1..n}. 0 < p_bn_new P k) \<and> (\<forall>k \<in> {h..n}. 0 < rho_up k) \<and>
    (\<forall>k \<in> {h..n}. line_operator P rho_up c' k j i = line_rhs P ytem p j i k) \<and>
    c' (0, h - 1, j, i) = 0 \<and> c' (0, n + 1, j, i) = 0 \<and>
    ((\<forall>k \<in> {h..n}. c' (0, k, j, i) = p (0, k, j, i)) \<longleftrightarrow>
     (\<forall>k \<in> {h..n}. elliptic_residual P rho rho_up ytem p k j i = 0))"
proof -
  have P: "poisson_ready g rho rho_up P" unfolding assms(2) by (rule initialize_poisson_ready [OF assms(1)])
  note E = tridiagonal_exact [OF P assms(4,5,3,6)]
  note D = poisson_readyD [OF P assms(4,5)]
  have "(\<forall>k \<in> {h..n}. c' (0, k, j, i) = p (0, k, j, i)) \<longleftrightarrow>
     (\<forall>k \<in> {h..n}. elliptic_residual P rho rho_up ytem p k j i = 0)" (is "?fixed \<longleftrightarrow> ?solves")
  proof
    assume f: ?fixed
    have "c' (0, k, j, i) = p (0, k, j, i)" if "h - 1 \<le> k" "k \<le> n + 1" for k
      using f E(2,3) assms(7,8) that by (cases "k = h - 1 \<or> k = n + 1") auto
    then have "line_operator P rho_up p k j i = line_operator P rho_up c' k j i" if "k \<in> {h..n}" for k
      using that by (simp add: line_operator_def)
    with E(1) residual_split [OF P assms(4,5)] show ?solves by (metis atLeastAtMost_iff cancel_comm_monoid_add_class.diff_cancel)
  next
    assume s: ?solves
    have "rho_up k * \<bar>c' (0, k, j, i) - p (0, k, j, i)\<bar> \<le> 0" if "h \<le> k" "k \<le> n" for k
      by (rule line_operator_unique [OF P assms(4,5)])
         (use E s assms(7,8) that residual_split [OF P assms(4,5)] in \<open>fastforce+\<close>)
    then show ?fixed using D(4) by (simp add: mult_le_0_iff) force
  qed
  moreover have "0 < p_BGAU P h" using pivots_positive [OF P assms(4,5), of h] D(2) by (simp add: pivot_def)
  moreover have "0 < p_bn_new P k" if "k \<in> {h + 1..n}" for k
    using pivots_positive [OF P assms(4,5), of k] that by (simp add: pivot_def)
  ultimately show ?thesis using E D(4) by simp
qed

text \<open>The error of the vertical wind solver never grows: where two iterates differ, density weighted, by at
  most \<open>M\<close> in a column and its four neighbours, the swept columns differ by at most \<open>M\<close>.\<close>

theorem tridiagonal_sweep_is_stable:
  assumes "profile_ok g rho rho_up P0" and "P = initialize_poisson g rho rho_up P0" and "interior g j i"
    and "h = get_halo_cells g" and "n = get_local_total_points_z g - h - 2" and "0 \<le> M"
    and "\<And>k a b. h \<le> k \<Longrightarrow> k \<le> n \<Longrightarrow> (a, b) \<in> {(j, i), (j, i + 1), (j, i - 1), (j + 1, i), (j - 1, i)} \<Longrightarrow>
      rho_up k * \<bar>p (0, k, a, b) - q (0, k, a, b)\<bar> \<le> M"
    and "h \<le> k" and "k \<le> n"
  shows "rho_up k * \<bar>fused_tridiagonal_solver g P rho_up ytem p c (0, k, j, i) -
    fused_tridiagonal_solver g P rho_up ytem q d (0, k, j, i)\<bar> \<le> M"
proof -
  have P: "poisson_ready g rho rho_up P" unfolding assms(2) by (rule initialize_poisson_ready [OF assms(1)])
  note D = poisson_readyD [OF P assms(4,5)]
  note Ep = tridiagonal_exact [OF P assms(4,5,3), where ytem = ytem and p = p and c = c, OF refl]
  note Eq = tridiagonal_exact [OF P assms(4,5,3), where ytem = ytem and p = q and c = d, OF refl]
  have pos: "0 \<le> p_rdx2 P" "0 \<le> p_rdy2 P" "0 \<le> p_WRXMU P"
    using P by (auto simp: poisson_ready_def profile_ok_def Let_def)
  show ?thesis
  proof (rule line_operator_unique [OF P assms(4,5)])
    fix k assume k: "h \<le> k" "k \<le> n"
    let ?e = "\<lambda>a b. p (0, k, a, b) - q (0, k, a, b)" and ?m = "M / rho_up k"
    have r: "0 < rho_up k" by (rule D(4) [OF k])
    have e: "\<bar>?e a b\<bar> \<le> ?m" if "(a, b) \<in> {(j, i), (j, i + 1), (j, i - 1), (j + 1, i), (j - 1, i)}" for a b
      using assms(7) [OF k that] r by (simp add: pos_le_divide_eq mult.commute)
    have "\<bar>line_rhs P ytem p j i k - line_rhs P ytem q j i k\<bar> =
        \<bar>p_WRXMU P * ?e j i + (?e j (i + 1) + ?e j (i - 1)) * p_rdx2 P + (?e (j + 1) i + ?e (j - 1) i) * p_rdy2 P\<bar>"
      by (simp add: line_rhs_def algebra_simps)
    also have "\<dots> \<le> p_WRXMU P * ?m + (2 * ?m) * p_rdx2 P + (2 * ?m) * p_rdy2 P"
    proof -
      have "\<bar>p_WRXMU P * ?e j i\<bar> \<le> p_WRXMU P * ?m"
        using mult_left_mono [OF e [of j i] pos(3)] pos(3) by (simp add: abs_mult del: times_divide_eq_right)
      moreover have "\<bar>?e j (i + 1) + ?e j (i - 1)\<bar> \<le> 2 * ?m" "\<bar>?e (j + 1) i + ?e (j - 1) i\<bar> \<le> 2 * ?m"
        using e [of j "i + 1"] e [of j "i - 1"] e [of "j + 1" i] e [of "j - 1" i] by simp_all
      then have "\<bar>(?e j (i + 1) + ?e j (i - 1)) * p_rdx2 P\<bar> \<le> (2 * ?m) * p_rdx2 P"
        "\<bar>(?e (j + 1) i + ?e (j - 1) i) * p_rdy2 P\<bar> \<le> (2 * ?m) * p_rdy2 P"
        using pos(1,2) by (simp_all only: abs_mult abs_of_nonneg mult_right_mono)
      ultimately show ?thesis by linarith
    qed
    also have "\<dots> = column_weight P / rho_up k * M" by (simp add: column_weight_def algebra_simps add_divide_distrib)
    finally show "\<bar>line_operator P rho_up (fused_tridiagonal_solver g P rho_up ytem p c) k j i -
        line_operator P rho_up (fused_tridiagonal_solver g P rho_up ytem q d) k j i\<bar> \<le> column_weight P / rho_up k * M"
      unfolding Ep(1) [OF k] Eq(1) [OF k] .
  qed (simp_all add: Ep Eq assms(6,8,9))
qed

section \<open>A sample column\<close>

definition sample_parameters :: parameters where
  "sample_parameters =
     \<lparr>p_rdx = 1, p_rdy = 1, p_rdz = 1, p_rdx2 = 1, p_rdy2 = 1, p_rdz2 = 1, p_dz = 1, p_WRXMU = 0,
      p_solver_iteration = 2, p_max_topo_idx = 2, p_flex_mid = (\<lambda>_. 1), p_flex_up = (\<lambda>_. 1),
      p_AGAU = (\<lambda>_. 0), p_BGAU = (\<lambda>_. 0), p_CGAU = (\<lambda>_. 0), p_bn_new = (\<lambda>_. 0), p_cn_new = (\<lambda>_. 0)\<rparr>"

abbreviation small_grid :: grid where
  "small_grid \<equiv> distributed (sample_grid 3 3) (1, 1) (0, 0)"

lemma small_grid_sizes:
  "get_halo_cells small_grid = 2" "get_local_total_points_z small_grid = 8"
  "interior small_grid j i \<longleftrightarrow> j \<in> {2..4} \<and> i \<in> {2..4}"
  by (auto simp: sample_grid_def initial_dimension_def distributed_def distribute_y_def distribute_x_def full_axis_def
      get_halo_cells_def get_local_total_points_z_def get_local_total_points_y_def get_local_total_points_x_def
      interior_def axis_simps split_nonneg)

lemma small_profile_ok: "profile_ok small_grid (\<lambda>_. 1) (\<lambda>_. 1) sample_parameters"
  by (simp add: profile_ok_def small_grid_sizes Let_def sample_parameters_def)

lemma tridiagonal_sweep_solves_columns_witness:
  "let P = initialize_poisson small_grid (\<lambda>_. 1) (\<lambda>_. 1) sample_parameters;
       c = fused_tridiagonal_solver small_grid P (\<lambda>_. 1) (\<lambda>_. 1) (\<lambda>_. 0) (\<lambda>_. 7)
   in 0 < p_BGAU P 2 \<and> 0 < p_bn_new P 3 \<and> 0 < p_bn_new P 4 \<and> line_operator P (\<lambda>_. 1) c 2 3 3 = 1 \<and> line_operator P (\<lambda>_. 1) c 4 3 3 = 1 \<and> c (0, 1, 3, 3) = 0 \<and> c (0, 5, 3, 3) = 0"
proof -
  let ?P = "initialize_poisson small_grid (\<lambda>_. 1) (\<lambda>_. 1) sample_parameters"
  have i: "interior small_grid 3 3" and hn: "2 = get_halo_cells small_grid" "4 = get_local_total_points_z small_grid - 2 - 2"
    by (simp_all add: small_grid_sizes)
  have "line_rhs ?P (\<lambda>_. 1) (\<lambda>_. 0) 3 3 k = 1" for k by (simp add: line_rhs_def)
  with tridiagonal_sweep_solves_columns [OF small_profile_ok refl i hn refl, of "\<lambda>_. 0" "\<lambda>_. 1" "\<lambda>_. 7"]
  show ?thesis by (simp add: Let_def)
qed

lemma tridiagonal_sweep_is_stable_witness:
  "\<bar>fused_tridiagonal_solver small_grid (initialize_poisson small_grid (\<lambda>_. 1) (\<lambda>_. 1) sample_parameters)
      (\<lambda>_. 1) (\<lambda>_. 1) (\<lambda>_. 0) (\<lambda>_. 7) (0, 3, 3, 3) -
    fused_tridiagonal_solver small_grid (initialize_poisson small_grid (\<lambda>_. 1) (\<lambda>_. 1) sample_parameters)
      (\<lambda>_. 1) (\<lambda>_. 1) (\<lambda>(w, k, j, i). if j = 3 then 1 / 2 else - 1 / 2) (\<lambda>_. 5) (0, 3, 3, 3)\<bar> \<le> 1 / 2"
proof -
  have i: "interior small_grid 3 3" and hn: "2 = get_halo_cells small_grid" "4 = get_local_total_points_z small_grid - 2 - 2"
    by (simp_all add: small_grid_sizes)
  show ?thesis
    using tridiagonal_sweep_is_stable [OF small_profile_ok refl i hn, of "1 / 2" "\<lambda>_. 0"
        "\<lambda>(w, k, j, i). if j = 3 then 1 / 2 else - 1 / 2" 3 "\<lambda>_. 1" "\<lambda>_. 7" "\<lambda>_. 5"]
    by auto
qed

end
