(* ===== verification/Wind_Recovery.thy ===== *)
theory Wind_Recovery
  imports Wind_Solver
begin

text \<open>
  The recovery of the horizontal wind (\<open>WindSolver::recover_cartesian_horizontal_wind\<close> in
  \<^verbatim>\<open>src/dynamics/solvers/WindSolver.cpp\<close>) on a Cartesian geometry: the relaxation of the two potentials,
  the wind of the top level, its mean, and the downward integration of every column.  With the vertical wind of
  the solver the recovered wind satisfies the discrete continuity equation.
\<close>

section \<open>Downward integration\<close>

definition integrate_column :: "int \<Rightarrow> int \<Rightarrow> (int \<Rightarrow> real) \<Rightarrow> (int \<Rightarrow> real) \<Rightarrow> int \<Rightarrow> real" where
  "integrate_column h nz' F col =
     (let c = fold (\<lambda>k c. c(k := c (k + 1) - F k)) (rev (range1 (h - 1) (nz' - h - 1))) col
      in c(nz' - h := c (nz' - h - 1) + F (nz' - h - 1)))"

lemma fold_down:
  "fold (\<lambda>k c. c(k := c (k + 1) - F k)) (rev (range1 (b - int m) b)) col k =
    (if b - int m \<le> k \<and> k < b then fold (\<lambda>k c. c(k := c (k + 1) - F k)) (rev (range1 (b - int m) b)) col (k + 1) - F k
     else col k)"
proof -
  define f where "f m = fold (\<lambda>k c. c(k := c (k + 1) - F k)) (rev (range1 (b - int m) b)) col" for m
  have zero: "f 0 = col" by (simp add: f_def range1_empty)
  have step: "f (Suc m) = (f m)(b - int (Suc m) := f m (b - int m) - F (b - int (Suc m)))" for m
    unfolding f_def rev_range1_snoc fold_append comp_apply by simp
  have "f m k = (if b - int m \<le> k \<and> k < b then f m (k + 1) - F k else col k)" for k
  proof (induction m arbitrary: k)
    case 0
    show ?case by (auto simp: zero)
  next
    case (Suc m)
    show ?case
    proof (cases "k = b - int (Suc m)")
      case True
      then show ?thesis by (simp add: step)
    next
      case False
      have "f (Suc m) k = (if b - int m \<le> k \<and> k < b then f m (k + 1) - F k else col k)"
        unfolding step fun_upd_other [OF False] by (rule Suc)
      moreover have "b - int m \<le> k \<Longrightarrow> f m (k + 1) = f (Suc m) (k + 1)" by (simp add: step)
      ultimately show ?thesis using False by (auto simp del: of_nat_Suc)
    qed
  qed
  then show ?thesis unfolding f_def .
qed

lemma integrate_column_eq:
  assumes "0 \<le> h" and "h \<le> nz' - h - 1" and c: "c = integrate_column h nz' F col"
  shows "h - 1 \<le> k \<Longrightarrow> k \<le> nz' - h - 1 \<Longrightarrow> c (k + 1) - c k = F k"
    and "c (nz' - h - 1) = col (nz' - h - 1)"
    and "k < h - 1 \<or> nz' - h < k \<Longrightarrow> c k = col k"
proof -
  let ?f = "fold (\<lambda>k c. c(k := c (k + 1) - F k)) (rev (range1 (h - 1) (nz' - h - 1))) col"
  note D = fold_down [of F "nz' - h - 1" "nat (nz' - 2 * h)" col]
  have "nz' - h - 1 - int (nat (nz' - 2 * h)) = h - 1" using assms(1,2) by simp
  note D = D [unfolded this]
  have c': "c = ?f(nz' - h := ?f (nz' - h - 1) + F (nz' - h - 1))" by (simp add: c integrate_column_def Let_def)
  show "h - 1 \<le> k \<Longrightarrow> k \<le> nz' - h - 1 \<Longrightarrow> c (k + 1) - c k = F k"
    using D [of k] by (cases "k = nz' - h - 1") (auto simp: c')
  show "c (nz' - h - 1) = col (nz' - h - 1)" using D [of "nz' - h - 1"] by (simp add: c')
  show "k < h - 1 \<or> nz' - h < k \<Longrightarrow> c k = col k" using D [of k] assms(1,2) by (auto simp: c')
qed

section \<open>Recovery of the horizontal wind\<close>

text \<open>\<open>HorizontalWindReconstructionDeviceView\<close> on a Cartesian geometry, whose metric is one.\<close>

record wind_reconstruction =
  sqrt_g_g_contra_11_at_u :: "int \<times> int \<Rightarrow> real"
  sqrt_g_g_contra_22_at_v :: "int \<times> int \<Rightarrow> real"
  rec_rdq1 :: real
  rec_rdq2 :: real

definition cartesian_reconstruction :: "parameters \<Rightarrow> wind_reconstruction" where
  "cartesian_reconstruction P =
     \<lparr>sqrt_g_g_contra_11_at_u = (\<lambda>_. 1), sqrt_g_g_contra_22_at_v = (\<lambda>_. 1), rec_rdq1 = p_rdx P, rec_rdq2 = p_rdy P\<rparr>"

definition calculate_covariant_q1_at_u :: "wind_reconstruction \<Rightarrow> view \<Rightarrow> view \<Rightarrow> int \<Rightarrow> int \<Rightarrow> real" where
  "calculate_covariant_q1_at_u W psi chi j i =
     (let rotational = - (psi (0, 0, j, i) - psi (0, 0, j - 1, i)) * rec_rdq2 W / sqrt_g_g_contra_11_at_u W (j, i);
          divergent = (chi (0, 0, j, i + 1) - chi (0, 0, j, i)) * rec_rdq1 W
      in rotational + divergent)"

definition calculate_covariant_q2_at_v :: "wind_reconstruction \<Rightarrow> view \<Rightarrow> view \<Rightarrow> int \<Rightarrow> int \<Rightarrow> real" where
  "calculate_covariant_q2_at_v W psi chi j i =
     (let rotational = (psi (0, 0, j, i) - psi (0, 0, j, i - 1)) * rec_rdq1 W / sqrt_g_g_contra_22_at_v W (j, i);
          divergent = (chi (0, 0, j + 1, i) - chi (0, 0, j, i)) * rec_rdq2 W
      in rotational + divergent)"

text \<open>A kernel over the physical points of a plane.\<close>

definition physical_plane :: "grid \<Rightarrow> (int \<times> int) list" where
  "physical_plane g =
     (let h = get_halo_cells g in mdrange2 h h (get_local_total_points_y g - h) (get_local_total_points_x g - h))"

definition at_level :: "int \<Rightarrow> int \<times> int \<Rightarrow> cell" where
  "at_level k = (\<lambda>(j, i). (0, k, j, i))"

definition write_plane_pair ::
  "grid \<Rightarrow> int \<Rightarrow> (int \<Rightarrow> int \<Rightarrow> real) \<Rightarrow> (int \<Rightarrow> int \<Rightarrow> real) \<Rightarrow> view \<times> view \<Rightarrow> view \<times> view" where
  "write_plane_pair g l F G =
     parallel_for (physical_plane g) (\<lambda>(j, i) (u, v). (u((0, l, j, i) := F j i), v((0, l, j, i) := G j i)))"

definition reconstruct_cartesian_top_wind :: "grid \<Rightarrow> parameters \<Rightarrow> view \<Rightarrow> view \<Rightarrow> view \<times> view \<Rightarrow> view \<times> view" where
  "reconstruct_cartesian_top_wind g P psi chi =
     (let W = cartesian_reconstruction P in
      write_plane_pair g 0 (calculate_covariant_q1_at_u W psi chi) (calculate_covariant_q2_at_v W psi chi))"

definition clip_mean :: "real \<Rightarrow> real" where
  "clip_mean m = (if \<bar>m\<bar> < 1 / 10 ^ 15 then 0 else m)"

text \<open>\<open>apply_cartesian_top_wind_closure\<close>: \<open>utopm\<close> and \<open>vtopm\<close> are the horizontal means of \<open>utop\<close> and \<open>vtop\<close>.\<close>

definition apply_cartesian_top_wind_closure ::
  "grid \<Rightarrow> real \<times> real \<Rightarrow> real \<times> real \<Rightarrow> view \<times> view \<Rightarrow> view \<times> view \<Rightarrow> view \<times> view" where
  "apply_cartesian_top_wind_closure g means predicted top_wind =
     (let ktop = get_local_total_points_z g - get_halo_cells g - 1;
          (utop, vtop) = top_wind; (utopmn, vtopmn) = predicted;
          utopm = clip_mean (fst means); vtopm = clip_mean (snd means)
      in write_plane_pair g ktop (\<lambda>j i. utopmn + utop (0, 0, j, i) - utopm)
           (\<lambda>j i. vtopmn + vtop (0, 0, j, i) - vtopm))"

definition u_source :: "parameters \<Rightarrow> view \<Rightarrow> view \<Rightarrow> int \<Rightarrow> int \<Rightarrow> int \<Rightarrow> real" where
  "u_source P w eta j i k =
     ((w (0, k, j, i + 1) - w (0, k, j, i)) * p_rdx P - eta (0, k, j, i)) * p_dz P / p_flex_up P k"

definition v_source :: "parameters \<Rightarrow> view \<Rightarrow> view \<Rightarrow> int \<Rightarrow> int \<Rightarrow> int \<Rightarrow> real" where
  "v_source P w xi j i k =
     ((w (0, k, j + 1, i) - w (0, k, j, i)) * p_rdy P - xi (0, k, j, i)) * p_dz P / p_flex_up P k"

definition integrate_uv_from_top ::
  "grid \<Rightarrow> parameters \<Rightarrow> view \<Rightarrow> view \<Rightarrow> view \<Rightarrow> view \<times> view \<Rightarrow> view \<times> view" where
  "integrate_uv_from_top g P w xi eta =
     (let h = get_halo_cells g; nz' = get_local_total_points_z g in
      parallel_for (physical_plane g) (\<lambda>(j, i) (u, v).
        (put_column j i (integrate_column h nz' (u_source P w eta j i) (get_column j i u)) u,
         put_column j i (integrate_column h nz' (v_source P w xi j i) (get_column j i v)) v)))"

text \<open>The right-hand sides of the two equations for the potentials, and the five-point relaxation.\<close>

definition rhs_psi :: "grid \<Rightarrow> view \<Rightarrow> int \<Rightarrow> int \<Rightarrow> real" where
  "rhs_psi g zeta j i = zeta (0, get_local_total_points_z g - get_halo_cells g - 1, j, i)"

definition rhs_chi :: "grid \<Rightarrow> parameters \<Rightarrow> (int \<Rightarrow> real) \<Rightarrow> (int \<Rightarrow> real) \<Rightarrow> view \<Rightarrow> int \<Rightarrow> int \<Rightarrow> real" where
  "rhs_chi g P rho rho_up w j i =
     (let nz' = get_local_total_points_z g; h = get_halo_cells g in
      p_flex_mid P (nz' - h - 1) * rho_up (nz' - h - 2) * w (0, nz' - h - 2, j, i) * p_rdz P / rho (nz' - h - 1))"

definition relax_point :: "parameters \<Rightarrow> real \<Rightarrow> view \<Rightarrow> int \<Rightarrow> int \<Rightarrow> real" where
  "relax_point P rhs p j i =
     (let inv_C0 = 1 / (p_WRXMU P + 2 * p_rdx2 P + 2 * p_rdy2 P); cartesian_jacobian = 1 in
      (p_WRXMU P * p (0, 0, j, i) + p_rdx2 P * (p (0, 0, j, i - 1) + p (0, 0, j, i + 1)) +
       p_rdy2 P * (p (0, 0, j - 1, i) + p (0, 0, j + 1, i)) - cartesian_jacobian * rhs) * inv_C0)"

definition relax_2d_sweep :: "grid \<Rightarrow> parameters \<Rightarrow> view \<Rightarrow> view \<Rightarrow> view \<times> view \<Rightarrow> view \<times> view \<Rightarrow> view \<times> view" where
  "relax_2d_sweep g P psi_rhs chi_rhs previous =
     write_plane_pair g 0 (\<lambda>j i. relax_point P (psi_rhs (0, 0, j, i)) (fst previous) j i)
       (\<lambda>j i. relax_point P (chi_rhs (0, 0, j, i)) (snd previous) j i)"

section \<open>Closed forms\<close>

lemma in_physical_plane: "(j, i) \<in> set (physical_plane g) \<longleftrightarrow> interior g j i"
  by (simp add: physical_plane_def Let_def range_simps interior_def)

lemma distinct_physical_plane: "distinct (physical_plane g)"
  by (simp add: physical_plane_def Let_def range_simps)

interpretation plane: kernel "physical_plane g" "at_level k" "\<lambda>c _. F c :: 'a" for g k F
  by unfold_locales (auto simp: distinct_physical_plane inj_on_def at_level_def)

lemma plane_write:
  "parallel_for (physical_plane g) (assign (at_level l) (\<lambda>c _. F c)) s (0, k, j, i) =
    (if k = l \<and> interior g j i then F (j, i) else s (0, k, j, i))"
proof (cases "k = l \<and> interior g j i")
  case True
  then show ?thesis using plane.result [of "(j, i)" g l F s] by (simp add: in_physical_plane at_level_def)
next
  case False
  then show ?thesis by (subst parallel_for_frame) (auto simp: at_level_def in_physical_plane)
qed

lemma plane_pair:
  "fst (write_plane_pair g l F G s) (0, k, j, i) = (if k = l \<and> interior g j i then F j i else fst s (0, k, j, i))"
  "snd (write_plane_pair g l F G s) (0, k, j, i) = (if k = l \<and> interior g j i then G j i else snd s (0, k, j, i))"
proof -
  have "(\<lambda>(j, i) (u, v). (u((0, l, j, i) := F j i), v((0, l, j, i) := G j i))) =
      (\<lambda>c (u, v). (assign (at_level l) (\<lambda>c _. F (fst c) (snd c)) c u, assign (at_level l) (\<lambda>c _. G (fst c) (snd c)) c v))"
    by (auto simp: fun_eq_iff assign_def at_level_def)
  then have r: "write_plane_pair g l F G s =
      (parallel_for (physical_plane g) (assign (at_level l) (\<lambda>c _. F (fst c) (snd c))) (fst s),
       parallel_for (physical_plane g) (assign (at_level l) (\<lambda>c _. G (fst c) (snd c))) (snd s))"
    unfolding write_plane_pair_def by (cases s) (simp only: parallel_for_pair fst_conv snd_conv)
  show "fst (write_plane_pair g l F G s) (0, k, j, i) = (if k = l \<and> interior g j i then F j i else fst s (0, k, j, i))"
    "snd (write_plane_pair g l F G s) (0, k, j, i) = (if k = l \<and> interior g j i then G j i else snd s (0, k, j, i))"
    by (simp_all add: r plane_write)
qed

lemma integrate_uv_cell:
  assumes "interior g j i"
  shows "fst (integrate_uv_from_top g P w xi eta s) (0, k, j, i) =
      integrate_column (get_halo_cells g) (get_local_total_points_z g) (u_source P w eta j i) (get_column j i (fst s)) k"
    and "snd (integrate_uv_from_top g P w xi eta s) (0, k, j, i) =
      integrate_column (get_halo_cells g) (get_local_total_points_z g) (v_source P w xi j i) (get_column j i (snd s)) k"
proof -
  let ?h = "get_halo_cells g" and ?nz = "get_local_total_points_z g"
  have "(\<lambda>(j, i) (u, v). (put_column j i (integrate_column ?h ?nz (u_source P w eta j i) (get_column j i u)) u,
        put_column j i (integrate_column ?h ?nz (v_source P w xi j i) (get_column j i v)) v)) =
      (\<lambda>c (u, v). ((\<lambda>(j, i) u. put_column j i (integrate_column ?h ?nz (u_source P w eta j i) (get_column j i u)) u) c u,
        (\<lambda>(j, i) v. put_column j i (integrate_column ?h ?nz (v_source P w xi j i) (get_column j i v)) v) c v))"
    by (auto simp: fun_eq_iff)
  then have r: "integrate_uv_from_top g P w xi eta s =
      (column_kernel (physical_plane g) (\<lambda>j i. integrate_column ?h ?nz (u_source P w eta j i)) (fst s),
       column_kernel (physical_plane g) (\<lambda>j i. integrate_column ?h ?nz (v_source P w xi j i)) (snd s))"
    unfolding integrate_uv_from_top_def Let_def column_kernel_def
    by (cases s) (simp only: parallel_for_pair fst_conv snd_conv)
  show "fst (integrate_uv_from_top g P w xi eta s) (0, k, j, i) =
      integrate_column ?h ?nz (u_source P w eta j i) (get_column j i (fst s)) k"
    "snd (integrate_uv_from_top g P w xi eta s) (0, k, j, i) =
      integrate_column ?h ?nz (v_source P w xi j i) (get_column j i (snd s)) k"
    using assms by (simp_all add: r column_kernel_cell distinct_physical_plane in_physical_plane)
qed

section \<open>The recovered wind\<close>

definition spacing_ok :: "parameters \<Rightarrow> bool" where
  "spacing_ok P \<longleftrightarrow> p_rdx2 P = p_rdx P * p_rdx P \<and> p_rdy2 P = p_rdy P * p_rdy P \<and> p_rdz2 P = p_rdz P * p_rdz P \<and>
     p_rdz P * p_dz P = 1"

definition horizontal_divergence :: "parameters \<Rightarrow> view \<times> view \<Rightarrow> int \<Rightarrow> int \<Rightarrow> int \<Rightarrow> real" where
  "horizontal_divergence P uv k j i =
     (fst uv (0, k, j, i) - fst uv (0, k, j, i - 1)) * p_rdx P + (snd uv (0, k, j, i) - snd uv (0, k, j - 1, i)) * p_rdy P"

definition vertical_flux_divergence ::
  "parameters \<Rightarrow> (int \<Rightarrow> real) \<Rightarrow> (int \<Rightarrow> real) \<Rightarrow> view \<Rightarrow> int \<Rightarrow> int \<Rightarrow> int \<Rightarrow> real" where
  "vertical_flux_divergence P rho rho_up w k j i =
     p_flex_mid P k * p_rdz P * (rho_up k * w (0, k, j, i) - rho_up (k - 1) * w (0, k - 1, j, i)) / rho k"

text \<open>The two steps of \<open>recover_cartesian_horizontal_wind\<close> that change \<open>u\<close> and \<open>v\<close>, on one process.\<close>

definition recover_wind ::
  "grid \<Rightarrow> parameters \<Rightarrow> real \<times> real \<Rightarrow> real \<times> real \<Rightarrow> view \<Rightarrow> view \<Rightarrow> view \<Rightarrow> view \<Rightarrow> view \<Rightarrow>
   view \<times> view \<Rightarrow> view \<times> view \<Rightarrow> view \<times> view" where
  "recover_wind g P means predicted psi chi w xi eta top_wind uv =
     (let top_wind' = reconstruct_cartesian_top_wind g P psi chi top_wind;
          uv1 = apply_cartesian_top_wind_closure g means predicted top_wind' uv
      in integrate_uv_from_top g P w xi eta uv1)"

lemma mult_inverse_eq:
  fixes c :: real
  assumes "c \<noteq> 0" and "x * (1 / c) = y"
  shows "x = y * c"
  using assms by auto

lemma relax_fixed:
  assumes "0 < column_weight P" and "relax_point P r p j i = p (0, 0, j, i)"
  shows "p_rdx2 P * (p (0, 0, j, i - 1) - 2 * p (0, 0, j, i) + p (0, 0, j, i + 1)) +
    p_rdy2 P * (p (0, 0, j - 1, i) - 2 * p (0, 0, j, i) + p (0, 0, j + 1, i)) = r"
proof -
  let ?C = "p_WRXMU P + 2 * p_rdx2 P + 2 * p_rdy2 P"
  let ?N = "p_WRXMU P * p (0, 0, j, i) + p_rdx2 P * (p (0, 0, j, i - 1) + p (0, 0, j, i + 1)) +
      p_rdy2 P * (p (0, 0, j - 1, i) + p (0, 0, j + 1, i)) - r"
  have C: "?C \<noteq> 0" using assms(1) by (simp add: column_weight_def)
  have "?N * (1 / ?C) = p (0, 0, j, i)" using assms(2) by (simp only: relax_point_def Let_def mult_1)
  from mult_inverse_eq [OF C this] have "?N = p (0, 0, j, i) * ?C" .
  then show ?thesis by (simp add: algebra_simps)
qed

lemma recover_wind_step:
  assumes hz: "0 \<le> get_halo_cells g" "get_halo_cells g \<le> get_local_total_points_z g - get_halo_cells g - 1"
    and uv: "uv' = recover_wind g P means predicted psi chi w xi eta top_wind uv" and int: "interior g j i"
    and k: "get_halo_cells g - 1 \<le> k" "k \<le> get_local_total_points_z g - get_halo_cells g - 1"
  shows "fst uv' (0, k + 1, j, i) - fst uv' (0, k, j, i) = u_source P w eta j i k"
    and "snd uv' (0, k + 1, j, i) - snd uv' (0, k, j, i) = v_source P w xi j i k"
  using integrate_column_eq(1) [OF hz refl k]
  by (simp_all add: uv recover_wind_def Let_def integrate_uv_cell [OF int])

lemma recover_wind_top:
  assumes hz: "0 \<le> get_halo_cells g" "get_halo_cells g \<le> get_local_total_points_z g - get_halo_cells g - 1"
    and uv: "uv' = recover_wind g P means predicted psi chi w xi eta top_wind uv" and int: "interior g j i"
    and k: "k = get_local_total_points_z g - get_halo_cells g - 1"
  shows "fst uv' (0, k, j, i) =
      fst predicted + calculate_covariant_q1_at_u (cartesian_reconstruction P) psi chi j i - clip_mean (fst means)"
    and "snd uv' (0, k, j, i) =
      snd predicted + calculate_covariant_q2_at_v (cartesian_reconstruction P) psi chi j i - clip_mean (snd means)"
  using integrate_column_eq(2) [OF hz refl]
  by (simp_all add: uv recover_wind_def Let_def integrate_uv_cell [OF int] k get_column_def int plane_pair
      apply_cartesian_top_wind_closure_def reconstruct_cartesian_top_wind_def case_prod_beta)

lemma divergence_step:
  assumes P: "spacing_ok P" and up: "0 < p_flex_up P k"
    and u: "\<And>a b. (a, b) \<in> {(j, i), (j, i - 1), (j - 1, i)} \<Longrightarrow>
      fst uv (0, k + 1, a, b) - fst uv (0, k, a, b) = u_source P w eta a b k \<and>
      snd uv (0, k + 1, a, b) - snd uv (0, k, a, b) = v_source P w xi a b k"
    and y: "ytem (0, k, j, i) = - (eta (0, k, j, i) - eta (0, k, j, i - 1)) * p_rdx P -
      (xi (0, k, j, i) - xi (0, k, j - 1, i)) * p_rdy P"
    and e: "elliptic_residual P rho rho_up ytem w k j i = 0"
  shows "horizontal_divergence P uv k j i + vertical_flux_divergence P rho rho_up w k j i =
    horizontal_divergence P uv (k + 1) j i + vertical_flux_divergence P rho rho_up w (k + 1) j i"
proof -
  let ?V = "\<lambda>k. vertical_flux_divergence P rho rho_up w k j i"
  let ?L = "p_rdx2 P * (w (0, k, j, i + 1) - 2 * w (0, k, j, i) + w (0, k, j, i - 1)) +
     p_rdy2 P * (w (0, k, j + 1, i) - 2 * w (0, k, j, i) + w (0, k, j - 1, i))"
  have sp: "p_rdx2 P = p_rdx P * p_rdx P" "p_rdy2 P = p_rdy P * p_rdy P" "p_rdz2 P = p_rdz P * p_rdz P"
    "p_dz P = 1 / p_rdz P" "p_rdz P \<noteq> 0"
  proof -
    show "p_rdx2 P = p_rdx P * p_rdx P" "p_rdy2 P = p_rdy P * p_rdy P" "p_rdz2 P = p_rdz P * p_rdz P"
      using P by (simp_all add: spacing_ok_def)
    have "p_rdz P * p_dz P = 1" using P by (simp add: spacing_ok_def)
    then show "p_rdz P \<noteq> 0" by auto
    with \<open>p_rdz P * p_dz P = 1\<close> show "p_dz P = 1 / p_rdz P" by (simp add: eq_divide_eq mult.commute)
  qed
  have E: "?L + p_flex_up P k * p_rdz P * (?V (k + 1) - ?V k) + ytem (0, k, j, i) = 0"
    using e unfolding elliptic_residual_def vertical_flux_divergence_def
    by (simp add: sp(3) algebra_simps)
  have "horizontal_divergence P uv (k + 1) j i - horizontal_divergence P uv k j i =
      (u_source P w eta j i k - u_source P w eta j (i - 1) k) * p_rdx P +
      (v_source P w xi j i k - v_source P w xi (j - 1) i k) * p_rdy P"
    using u [of j i] u [of j "i - 1"] u [of "j - 1" i]
    by (simp add: horizontal_divergence_def algebra_simps)
  also have "\<dots> = (?L + ytem (0, k, j, i)) * p_dz P / p_flex_up P k"
    by (simp add: u_source_def v_source_def y sp(1,2) diff_divide_distrib add_divide_distrib algebra_simps)
  also have "\<dots> = ?V k - ?V (k + 1)"
  proof -
    have "(?L + ytem (0, k, j, i)) = p_flex_up P k * p_rdz P * (?V k - ?V (k + 1))"
      using E by (simp add: algebra_simps)
    then show ?thesis using up sp(5) by (simp add: sp(4))
  qed
  finally show ?thesis by simp
qed

lemma top_mass:
  assumes P: "spacing_ok P" and weight: "0 < column_weight P" and rho: "0 < rho k"
    and k: "k = get_local_total_points_z g - get_halo_cells g - 1"
    and u: "\<And>a b. (a, b) \<in> {(j, i), (j, i - 1), (j - 1, i)} \<Longrightarrow>
      fst uv (0, k, a, b) = A + calculate_covariant_q1_at_u (cartesian_reconstruction P) psi chi a b \<and>
      snd uv (0, k, a, b) = B + calculate_covariant_q2_at_v (cartesian_reconstruction P) psi chi a b"
    and chi: "relax_point P (rhs_chi g P rho rho_up w j i) chi j i = chi (0, 0, j, i)"
    and lid: "w (0, k, j, i) = 0"
  shows "horizontal_divergence P uv k j i + vertical_flux_divergence P rho rho_up w k j i = 0"
proof -
  have sp: "p_rdx2 P = p_rdx P * p_rdx P" "p_rdy2 P = p_rdy P * p_rdy P" using P by (simp_all add: spacing_ok_def)
  have "horizontal_divergence P uv k j i =
      p_rdx2 P * (chi (0, 0, j, i - 1) - 2 * chi (0, 0, j, i) + chi (0, 0, j, i + 1)) +
      p_rdy2 P * (chi (0, 0, j - 1, i) - 2 * chi (0, 0, j, i) + chi (0, 0, j + 1, i))"
  proof -
    note U = u [unfolded calculate_covariant_q1_at_u_def calculate_covariant_q2_at_v_def cartesian_reconstruction_def]
    have f: "fst uv (0, k, j, i) = A + (psi (0, 0, j - 1, i) - psi (0, 0, j, i)) * p_rdy P +
          (chi (0, 0, j, i + 1) - chi (0, 0, j, i)) * p_rdx P"
      "snd uv (0, k, j, i) = B + (psi (0, 0, j, i) - psi (0, 0, j, i - 1)) * p_rdx P +
          (chi (0, 0, j + 1, i) - chi (0, 0, j, i)) * p_rdy P"
      "fst uv (0, k, j, i - 1) = A + (psi (0, 0, j - 1, i - 1) - psi (0, 0, j, i - 1)) * p_rdy P +
          (chi (0, 0, j, i) - chi (0, 0, j, i - 1)) * p_rdx P"
      "snd uv (0, k, j - 1, i) = B + (psi (0, 0, j - 1, i) - psi (0, 0, j - 1, i - 1)) * p_rdx P +
          (chi (0, 0, j, i) - chi (0, 0, j - 1, i)) * p_rdy P"
      using U [of j i] U [of j "i - 1"] U [of "j - 1" i] by (simp_all add: Let_def)
    show ?thesis by (simp only: horizontal_divergence_def sp f) (simp add: algebra_simps)
  qed
  also have "\<dots> = rhs_chi g P rho rho_up w j i" by (rule relax_fixed [OF weight chi])
  finally show ?thesis
    using lid by (simp add: rhs_chi_def vertical_flux_divergence_def Let_def k algebra_simps)
qed

text \<open>C2. Mass conservation: where the vertical wind satisfies the discrete elliptic equation with the sources
  of the wind solver and vanishes at the lid, and the velocity potential is a fixed point of its relaxation,
  the horizontal wind recovered from the top level downwards satisfies the discrete anelastic continuity
  equation at every level.\<close>

theorem recovered_wind_conserves_mass:
  assumes "profile_ok g rho rho_up P" and "spacing_ok P"
    and "h = get_halo_cells g" and "n = get_local_total_points_z g - h - 2"
    and "interior g j i" and "interior g j (i - 1)" and "interior g (j - 1) i"
    and "\<forall>k \<in> {h..n}. elliptic_residual P rho rho_up (poisson_source g P xi eta ytem) w k j i = 0"
    and "w (0, n + 1, j, i) = 0"
    and "relax_point P (rhs_chi g P rho rho_up w j i) chi j i = chi (0, 0, j, i)"
    and "uv' = recover_wind g P means predicted psi chi w xi eta top_wind uv" and "k \<in> {h..n + 1}"
  shows "rho k * horizontal_divergence P uv' k j i +
    p_flex_mid P k * p_rdz P * (rho_up k * w (0, k, j, i) - rho_up (k - 1) * w (0, k - 1, j, i)) = 0"
proof -
  let ?M = "\<lambda>k. horizontal_divergence P uv' k j i + vertical_flux_divergence P rho rho_up w k j i"
  have pr: "1 \<le> h" "h \<le> n" "\<And>k. k \<in> {h..n} \<Longrightarrow> 0 < p_flex_up P k" "\<And>k. k \<in> {h..n + 1} \<Longrightarrow> 0 < rho k"
    "0 < column_weight P"
    using assms(1) by (auto simp: profile_ok_def Let_def assms(3,4) column_weight_def)
  have hz: "0 \<le> get_halo_cells g" "get_halo_cells g \<le> get_local_total_points_z g - get_halo_cells g - 1"
    using pr assms(3,4) by simp_all
  have own: "interior g a b" if "(a, b) \<in> {(j, i), (j, i - 1), (j - 1, i)}" for a b
    using that assms(5,6,7) by auto
  have top: "?M (n + 1) = 0"
  proof (rule top_mass [OF assms(2) pr(5), where A = "fst predicted - clip_mean (fst means)"
        and B = "snd predicted - clip_mean (snd means)"])
    show "n + 1 = get_local_total_points_z g - get_halo_cells g - 1" by (simp add: assms(3,4))
    fix a b assume "(a, b) \<in> {(j, i), (j, i - 1), (j - 1, i)}"
    from recover_wind_top [OF hz assms(11) own [OF this], of "n + 1"]
    show "fst uv' (0, n + 1, a, b) = fst predicted - clip_mean (fst means) +
          calculate_covariant_q1_at_u (cartesian_reconstruction P) psi chi a b \<and>
        snd uv' (0, n + 1, a, b) = snd predicted - clip_mean (snd means) +
          calculate_covariant_q2_at_v (cartesian_reconstruction P) psi chi a b"
      by (simp add: assms(3,4))
  qed (use assms(9,10) pr(2,4) in simp_all)
  have step: "?M k = ?M (k + 1)" if k: "h \<le> k" "k \<le> n" for k
  proof (rule divergence_step [OF assms(2) pr(3)])
    show "k \<in> {h..n}" using k by simp
    show "elliptic_residual P rho rho_up (poisson_source g P xi eta ytem) w k j i = 0" using assms(8) k by simp
    show "poisson_source g P xi eta ytem (0, k, j, i) = - (eta (0, k, j, i) - eta (0, k, j, i - 1)) * p_rdx P -
        (xi (0, k, j, i) - xi (0, k, j - 1, i)) * p_rdy P"
      using k assms(3,4,5) by (simp add: poisson_source_cell)
    fix a b assume "(a, b) \<in> {(j, i), (j, i - 1), (j - 1, i)}"
    from recover_wind_step [OF hz assms(11) own [OF this], of k]
    show "fst uv' (0, k + 1, a, b) - fst uv' (0, k, a, b) = u_source P w eta a b k \<and>
        snd uv' (0, k + 1, a, b) - snd uv' (0, k, a, b) = v_source P w xi a b k"
      using k by (simp add: assms(3,4))
  qed
  have "?M (n + 1 - int m) = 0" if "h \<le> n + 1 - int m" for m
    using that
  proof (induction m)
    case 0
    show ?case using top by simp
  next
    case (Suc m)
    have e: "n + 1 - int (Suc m) + 1 = n + 1 - int m" by simp
    have "?M (n + 1 - int (Suc m)) = ?M (n + 1 - int (Suc m) + 1)" by (rule step) (use Suc.prems in simp_all)
    then show ?case unfolding e using Suc by simp
  qed
  from this [of "nat (n + 1 - k)"] assms(12) have "?M k = 0" by simp
  moreover have "0 < rho k" using pr(4) assms(12) by simp
  ultimately show ?thesis by (simp add: vertical_flux_divergence_def field_simps)
qed

text \<open>A vorticity that grows linearly in \<open>x\<close>: the vertical wind is a parabola in height.\<close>

definition sample_eta :: view where
  "sample_eta = (\<lambda>(w, k, j, i). of_int i)"

definition sample_w :: view where
  "sample_w = (\<lambda>(w, k, j, i). of_int ((k - 1) * (k - 5)) / 2)"

definition sample_chi :: view where
  "sample_chi = (\<lambda>(w, k, j, i). - 3 / 4 * of_int (i * i))"

lemma recovered_wind_conserves_mass_witness:
  "horizontal_divergence sample_parameters
     (recover_wind small_grid sample_parameters (1, 2) (3, 4) sample_eta sample_chi sample_w (\<lambda>_. 5) sample_eta
        (\<lambda>_. 0, \<lambda>_. 0) (\<lambda>_. 6, \<lambda>_. 7)) 2 3 3 +
   (sample_w (0, 2, 3, 3) - sample_w (0, 1, 3, 3)) = 0"
proof -
  have i: "interior small_grid 3 3" "interior small_grid 3 (3 - 1)" "interior small_grid (3 - 1) 3"
    and hn: "2 = get_halo_cells small_grid" "4 = get_local_total_points_z small_grid - 2 - 2"
    by (simp_all add: small_grid_sizes)
  have s: "spacing_ok sample_parameters" by (simp add: spacing_ok_def sample_parameters_def)
  have "\<forall>k \<in> {2..4}. elliptic_residual sample_parameters (\<lambda>_. 1) (\<lambda>_. 1)
      (poisson_source small_grid sample_parameters (\<lambda>_. 5) sample_eta (\<lambda>_. 0)) sample_w k 3 3 = 0"
  proof
    fix k :: int assume "k \<in> {2..4}"
    then have "k = 2 \<or> k = 3 \<or> k = 4" by auto
    then show "elliptic_residual sample_parameters (\<lambda>_. 1) (\<lambda>_. 1)
      (poisson_source small_grid sample_parameters (\<lambda>_. 5) sample_eta (\<lambda>_. 0)) sample_w k 3 3 = 0"
      by (auto simp: elliptic_residual_def poisson_source_cell small_grid_sizes sample_parameters_def
          sample_w_def sample_eta_def)
  qed
  moreover have "relax_point sample_parameters
      (rhs_chi small_grid sample_parameters (\<lambda>_. 1) (\<lambda>_. 1) sample_w 3 3) sample_chi 3 3 = sample_chi (0, 0, 3, 3)"
    by (simp add: relax_point_def rhs_chi_def small_grid_sizes sample_parameters_def sample_w_def sample_chi_def Let_def)
  moreover have "sample_w (0, 4 + 1, 3, 3) = 0" by (simp add: sample_w_def)
  ultimately show ?thesis
    using recovered_wind_conserves_mass [OF small_profile_ok s hn i _ _ _ refl, of "\<lambda>_. 5" sample_eta "\<lambda>_. 0" sample_w
        sample_chi 2 "(1, 2)" "(3, 4)" sample_eta "(\<lambda>_. 0, \<lambda>_. 0)" "(\<lambda>_. 6, \<lambda>_. 7)"]
    by (simp add: sample_parameters_def)
qed

end
