(* ===== verification/Halo_Faces.thy ===== *)
theory Halo_Faces
  imports Halo_Periodic
begin

text \<open>
  \<open>HaloExchangerMPI::exchange_face_halos\<close> on all processes: both directions are posted before either
  is waited for, so that the messages of both travel in one delivery and the corners of the halo
  stay as they are.  The main lemma is the counterpart of the one on \<open>exchange_halos\<close>: the four faces
  hold the periodic continuation of the global field.
\<close>

section \<open>Messages of both directions in one delivery\<close>

lemma sends_to_append: "sends_to me tag (xs @ ys) = sends_to me tag xs @ sends_to me tag ys"
  by (simp add: sends_to_def)

lemma x_posts_no_y_messages:
  "tag = tag_code SEND_TO_TOP \<or> tag = tag_code SEND_TO_BOTTOM \<Longrightarrow>
    sends_to me tag (fst (post_exchange_halo_x ex depth s)) = []"
  by (cases s) (auto simp: post_exchange_halo_x_def Let_def sends_to_def irecv_def isend_def
      split: option.splits prod.splits)

lemma y_posts_no_x_messages:
  "tag = tag_code SEND_TO_LEFT \<or> tag = tag_code SEND_TO_RIGHT \<Longrightarrow>
    sends_to me tag (fst (post_exchange_halo_y ex depth s)) = []"
  by (cases s) (auto simp: post_exchange_halo_y_def Let_def sends_to_def irecv_def isend_def
      split: option.splits prod.splits)

text \<open>A delivery of the messages of both directions is one of each direction alone.\<close>

definition x_part :: "'a delivery \<Rightarrow> (nat \<Rightarrow> 'a request list) \<Rightarrow> 'a delivery" where
  "x_part deliver other net me src tag =
     (if tag = tag_code SEND_TO_LEFT \<or> tag = tag_code SEND_TO_RIGHT
      then deliver (\<lambda>r. net r @ other r) me src tag else deliver net me src tag)"

definition y_part :: "'a delivery \<Rightarrow> (nat \<Rightarrow> 'a request list) \<Rightarrow> 'a delivery" where
  "y_part deliver other net me src tag =
     (if tag = tag_code SEND_TO_TOP \<or> tag = tag_code SEND_TO_BOTTOM
      then deliver (\<lambda>r. other r @ net r) me src tag else deliver net me src tag)"

lemma x_part_delivers:
  assumes "delivers deliver"
  shows "delivers (x_part deliver (\<lambda>r. fst (post_exchange_halo_y (ex r) depth (s r))))"
  using assms by (auto simp: delivers_def x_part_def sends_to_append y_posts_no_x_messages
      simp del: tag_code.simps)

lemma y_part_delivers:
  assumes "delivers deliver"
  shows "delivers (y_part deliver (\<lambda>r. fst (post_exchange_halo_x (ex r) depth (s r))))"
  using assms by (auto simp: delivers_def y_part_def sends_to_append x_posts_no_y_messages
      simp del: tag_code.simps)

lemma post_x_field:
  "fst (snd (post_exchange_halo_x ex depth s)) =
    (if halo_depth ex depth \<noteq> 0 \<and> is_singleton_x (grid_ref ex)
     then fill_singleton_x_halo (get_halo_cells (grid_ref ex)) (halo_depth ex depth) (fst s) else fst s)"
  by (cases s) (simp add: post_exchange_halo_x_def Let_def split: prod.splits)

lemma post_y_field:
  "fst (snd (post_exchange_halo_y ex depth s)) =
    (if halo_depth ex depth \<noteq> 0 \<and> is_singleton_y (grid_ref ex)
     then fill_singleton_y_halo (get_halo_cells (grid_ref ex)) (halo_depth ex depth) (fst s) else fst s)"
  by (cases s) (simp add: post_exchange_halo_y_def Let_def split: prod.splits)

lemma post_y_same_field:
  assumes "fst s = fst t"
  shows "is_singleton_y (grid_ref ex) \<Longrightarrow> fst (post_exchange_halo_y ex depth s) = []"
    and "halo_depth ex depth = 0 \<Longrightarrow> fst (post_exchange_halo_y ex depth s) = []"
  by (cases s, simp add: post_exchange_halo_y_def Let_def)+

definition x_layers :: "run \<Rightarrow> int \<Rightarrow> 'a field \<Rightarrow> nat \<Rightarrow> cell \<Rightarrow> bool" where
  "x_layers R h f r c = (case c of (w, k, j, i) \<Rightarrow>
     let off = run_halo R; n = local_physical_size (dim_x (run_grid R r)); sh = run_shift R r 1
     in in_rows f c \<and> ((off - h \<le> i \<and> i < off \<and> fst sh \<noteq> None) \<or>
          (off + n \<le> i \<and> i < off + n + h \<and> snd sh \<noteq> None)))"

definition y_layers :: "run \<Rightarrow> int \<Rightarrow> 'a field \<Rightarrow> nat \<Rightarrow> cell \<Rightarrow> bool" where
  "y_layers R h f r c = (case c of (w, k, j, i) \<Rightarrow>
     let off = run_halo R; n = local_physical_size (dim_y (run_grid R r)); sh = run_shift R r 0
     in in_columns f c \<and> ((off - h \<le> j \<and> j < off \<and> fst sh \<noteq> None) \<or>
          (off + n \<le> j \<and> j < off + n + h \<and> snd sh \<noteq> None)))"

lemma wait_x_onto:
  assumes R: "run_ok R" and D: "delivers deliver"
    and F': "\<forall>r \<in> run_ranks R. fits R nd nw nz' r (fst (st r))"
    and h: "0 < run_depth R depth" and ns: "\<not> is_singleton_x (run_global R)" and r: "r \<in> run_ranks R"
    and mail: "\<And>s tag. tag = tag_code SEND_TO_LEFT \<or> tag = tag_code SEND_TO_RIGHT \<Longrightarrow>
      mail s tag = deliver (\<lambda>r. fst (post_exchange_halo_x (run_exchanger R r) depth (st r))) r s tag"
    and f: "same_shape (fst (st r)) f"
  shows "fdata (fst (wait_exchange_halo_x (run_exchanger R r) depth mail
      (fst (post_exchange_halo_x (run_exchanger R r) depth (st r))) (f, b))) c =
    (if x_layers R (run_depth R depth) f r c then x_moved R (run_depth R depth) (\<lambda>r. fst (st r)) r c
     else fdata f c)"
proof -
  note F = F' [rule_format]
  obtain w k j i where c: "c = (w, k, j, i)" by (cases c)
  let ?ex = "run_exchanger R r" and ?h = "run_depth R depth" and ?f = "fst (st r)"
  let ?n = "local_physical_size (dim_x (run_grid R r))"
  have wf: "field_wf ?f" "2 \<le> fdim ?f" using fits_wf [OF F [OF r]] by auto
  note sh = same_shape_simps [OF f]
  have wf': "field_wf f" "2 \<le> fdim f" using wf sh same_shape_field_wf [OF f] by simp_all
  have hd: "halo_depth ?ex depth = ?h" by (rule run_grid_simps(6) [OF R r])
  have cnt: "halo_count_x ?h f = halo_count_x ?h ?f" using sh by (simp add: halo_count_x_def)
  have rows: "in_rows f d = in_rows ?f d" for d using sh by (simp add: in_rows_def)
  have row0: "in_rows ?f (w, k, j, i) = in_rows ?f (w, k, j, 0)" by (simp add: in_rows_def)
  show ?thesis
  proof (cases "halo_count_x ?h ?f = 0")
    case True
    then have "\<not> in_rows ?f (w, k, j, 0)" using in_rows_count wf h by blast
    moreover have "fst (post_exchange_halo_x ?ex depth (st r)) = []"
      using True h ns hd by (simp add: post_exchange_halo_x_def Let_def run_grid_simps [OF R r] case_prod_beta)
    ultimately show ?thesis by (simp add: wait_exchange_halo_x_def x_layers_def Let_def c rows row0)
  next
    case False
    have ns': "\<not> is_singleton_x (grid_ref ?ex)" using ns by (simp add: run_grid_simps [OF R r])
    note M = x_mail [OF R D F' refl h ns r refl False refl]
    obtain l rr where post: "fst (post_exchange_halo_x ?ex depth (?f, snd (st r))) =
        irecv (neighbor_right ?ex) X_right SEND_TO_LEFT (halo_count_x ?h ?f) @
        irecv (neighbor_left ?ex) X_left SEND_TO_RIGHT (halo_count_x ?h ?f) @
        isend (neighbor_left ?ex) SEND_TO_LEFT (halo_count_x ?h ?f) l @
        isend (neighbor_right ?ex) SEND_TO_RIGHT (halo_count_x ?h ?f) rr"
      using post_x_cases [OF wf, of ?ex depth "snd (st r)"] h ns' False unfolding hd by (metis fst_conv)
    have n0: "0 \<le> ?n" using local_size_pos(1) [OF R r] by simp
    have msgs: "\<And>s. fst (run_shift R r 1) = Some s \<Longrightarrow>
        x_message_right (run_grid R s) ?h (fst (st s)) (snd (mail s (tag_code SEND_TO_RIGHT)))"
      "\<And>s. snd (run_shift R r 1) = Some s \<Longrightarrow>
        x_message_left (run_grid R s) ?h (fst (st s)) (snd (mail s (tag_code SEND_TO_LEFT)))"
      using M mail by (simp_all del: tag_code.simps)
    have lens: "\<And>s. neighbor_left ?ex = Some s \<Longrightarrow> fst (mail s (tag_code SEND_TO_RIGHT)) = halo_count_x ?h f"
      "\<And>s. neighbor_right ?ex = Some s \<Longrightarrow> fst (mail s (tag_code SEND_TO_LEFT)) = halo_count_x ?h f"
      using M mail by (simp_all add: cnt del: tag_code.simps)
    note W = wait_x_cells [where mail = mail and l = l and r = rr and b = b and w = w and k = k and j = j and i = i,
        OF wf' hd [symmetric] h run_grid_simps(1) [OF R r, symmetric, folded run_exchanger_simps(1)] _ n0 refl lens]
    note A = x_arrivals [where F = "\<lambda>r. fst (st r)", OF R r F msgs refl, where w = w and k = k and j = j and i = i]
    have "fdata (fst (wait_exchange_halo_x ?ex depth mail (fst (post_exchange_halo_x ?ex depth (st r))) (f, b))) c =
      (if in_rows ?f (w, k, j, 0) \<and> run_halo R - ?h \<le> i \<and> i < run_halo R \<and> fst (run_shift R r 1) \<noteq> None
       then snd (mail (the (fst (run_shift R r 1))) (tag_code SEND_TO_RIGHT)) (x_index (ext_z ?f) (ext_y ?f) ?h (w, k, j, i - run_halo R + ?h))
       else if in_rows ?f (w, k, j, 0) \<and> run_halo R + ?n \<le> i \<and> i < run_halo R + ?n + ?h \<and> snd (run_shift R r 1) \<noteq> None
       then snd (mail (the (snd (run_shift R r 1))) (tag_code SEND_TO_LEFT)) (x_index (ext_z ?f) (ext_y ?f) ?h (w, k, j, i - run_halo R - ?n))
       else fdata f (w, k, j, i))"
      using W post by (simp only: c rows cnt sh prod.collapse run_exchanger_simps simp_thms)
    with A show ?thesis
      by (auto simp: x_layers_def Let_def c rows row0 simp del: tag_code.simps split: if_splits)
  qed
qed

lemma wait_y_onto:
  assumes R: "run_ok R" and D: "delivers deliver"
    and F': "\<forall>r \<in> run_ranks R. fits R nd nw nz' r (fst (st r))"
    and h: "0 < run_depth R depth" and ns: "\<not> is_singleton_y (run_global R)" and r: "r \<in> run_ranks R"
    and mail: "\<And>s tag. tag = tag_code SEND_TO_TOP \<or> tag = tag_code SEND_TO_BOTTOM \<Longrightarrow>
      mail s tag = deliver (\<lambda>r. fst (post_exchange_halo_y (run_exchanger R r) depth (st r))) r s tag"
    and f: "same_shape (fst (st r)) f"
  shows "fdata (fst (wait_exchange_halo_y (run_exchanger R r) depth mail
      (fst (post_exchange_halo_y (run_exchanger R r) depth (st r))) (f, b))) c =
    (if y_layers R (run_depth R depth) f r c then y_moved R (run_depth R depth) (\<lambda>r. fst (st r)) r c
     else fdata f c)"
proof -
  note F = F' [rule_format]
  obtain w k j i where c: "c = (w, k, j, i)" by (cases c)
  let ?ex = "run_exchanger R r" and ?h = "run_depth R depth" and ?f = "fst (st r)"
  let ?n = "local_physical_size (dim_y (run_grid R r))"
  have wf: "field_wf ?f" "2 \<le> fdim ?f" using fits_wf [OF F [OF r]] by auto
  note sh = same_shape_simps [OF f]
  have wf': "field_wf f" "2 \<le> fdim f" using wf sh same_shape_field_wf [OF f] by simp_all
  have hd: "halo_depth ?ex depth = ?h" by (rule run_grid_simps(6) [OF R r])
  have cnt: "halo_count_y ?h f = halo_count_y ?h ?f" using sh by (simp add: halo_count_y_def)
  have cols: "in_columns f d = in_columns ?f d" for d using sh by (simp add: in_columns_def)
  have col0: "in_columns ?f (w, k, j, i) = in_columns ?f (w, k, 0, i)" by (simp add: in_columns_def)
  show ?thesis
  proof (cases "halo_count_y ?h ?f = 0")
    case True
    then have "\<not> in_columns ?f (w, k, 0, i)" using in_columns_count wf h by blast
    moreover have "fst (post_exchange_halo_y ?ex depth (st r)) = []"
      using True h ns hd by (simp add: post_exchange_halo_y_def Let_def run_grid_simps [OF R r] case_prod_beta)
    ultimately show ?thesis by (simp add: wait_exchange_halo_y_def y_layers_def Let_def c cols col0)
  next
    case False
    have ns': "\<not> is_singleton_y (grid_ref ?ex)" using ns by (simp add: run_grid_simps [OF R r])
    note M = y_mail [OF R D F' refl h ns r refl False refl]
    obtain rr l where post: "fst (post_exchange_halo_y ?ex depth (?f, snd (st r))) =
        irecv (neighbor_bottom ?ex) Y_bottom SEND_TO_TOP (halo_count_y ?h ?f) @
        irecv (neighbor_top ?ex) Y_top SEND_TO_BOTTOM (halo_count_y ?h ?f) @
        isend (neighbor_top ?ex) SEND_TO_TOP (halo_count_y ?h ?f) rr @
        isend (neighbor_bottom ?ex) SEND_TO_BOTTOM (halo_count_y ?h ?f) l"
      using post_y_cases [OF wf, of ?ex depth "snd (st r)"] h ns' False unfolding hd by (metis fst_conv)
    have n0: "0 \<le> ?n" using local_size_pos(2) [OF R r] by simp
    have msgs: "\<And>s. fst (run_shift R r 0) = Some s \<Longrightarrow>
        y_message_top (run_grid R s) ?h (fst (st s)) (snd (mail s (tag_code SEND_TO_TOP)))"
      "\<And>s. snd (run_shift R r 0) = Some s \<Longrightarrow>
        y_message_bottom (run_grid R s) ?h (fst (st s)) (snd (mail s (tag_code SEND_TO_BOTTOM)))"
      using M mail by (simp_all del: tag_code.simps)
    have lens: "\<And>s. neighbor_bottom ?ex = Some s \<Longrightarrow> fst (mail s (tag_code SEND_TO_TOP)) = halo_count_y ?h f"
      "\<And>s. neighbor_top ?ex = Some s \<Longrightarrow> fst (mail s (tag_code SEND_TO_BOTTOM)) = halo_count_y ?h f"
      using M mail by (simp_all add: cnt del: tag_code.simps)
    note W = wait_y_cells [where mail = mail and t = rr and bb = l and b = b and w = w and k = k and j = j and i = i,
        OF wf' hd [symmetric] h run_grid_simps(1) [OF R r, symmetric, folded run_exchanger_simps(1)] _ n0 refl lens]
    note A = y_arrivals [where F = "\<lambda>r. fst (st r)", OF R r F msgs refl, where w = w and k = k and j = j and i = i]
    have "fdata (fst (wait_exchange_halo_y ?ex depth mail (fst (post_exchange_halo_y ?ex depth (st r))) (f, b))) c =
      (if in_columns ?f (w, k, 0, i) \<and> run_halo R - ?h \<le> j \<and> j < run_halo R \<and> fst (run_shift R r 0) \<noteq> None
       then snd (mail (the (fst (run_shift R r 0))) (tag_code SEND_TO_TOP)) (y_index (ext_z ?f) (ext_x ?f) ?h (w, k, i, j - run_halo R + ?h))
       else if in_columns ?f (w, k, 0, i) \<and> run_halo R + ?n \<le> j \<and> j < run_halo R + ?n + ?h \<and> snd (run_shift R r 0) \<noteq> None
       then snd (mail (the (snd (run_shift R r 0))) (tag_code SEND_TO_BOTTOM)) (y_index (ext_z ?f) (ext_x ?f) ?h (w, k, i, j - run_halo R - ?n))
       else fdata f (w, k, j, i))"
      using W post by (simp only: c cols cnt sh prod.collapse run_exchanger_simps simp_thms)
    with A show ?thesis
      by (auto simp: y_layers_def Let_def c cols col0 simp del: tag_code.simps split: if_splits)
  qed
qed

lemma x_moved_inner: "\<not> x_layers R h (F r) r c \<Longrightarrow> x_moved R h F r c = fdata (F r) c"
  by (cases c) (auto simp: x_layers_def x_moved_def Let_def)

lemma y_moved_inner: "\<not> y_layers R h (F r) r c \<Longrightarrow> y_moved R h F r c = fdata (F r) c"
  by (cases c) (auto simp: y_layers_def y_moved_def Let_def)

lemma layers_shape:
  assumes "same_shape f f'"
  shows "x_layers R h f' r c = x_layers R h f r c" and "y_layers R h f' r c = y_layers R h f r c"
  using same_shape_simps [OF assms]
  by (cases c; simp add: x_layers_def y_layers_def in_rows_def in_columns_def Let_def)+

definition inner_row :: "run \<Rightarrow> nat \<Rightarrow> int \<Rightarrow> bool" where
  "inner_row R r j \<longleftrightarrow> run_halo R \<le> j \<and> j < run_halo R + local_physical_size (dim_y (run_grid R r))"

definition inner_column :: "run \<Rightarrow> nat \<Rightarrow> int \<Rightarrow> bool" where
  "inner_column R r i \<longleftrightarrow> run_halo R \<le> i \<and> i < run_halo R + local_physical_size (dim_x (run_grid R r))"

lemma inner_not_layers:
  "inner_row R r j \<Longrightarrow> \<not> y_layers R h f r (w, k, j, i)"
  "inner_column R r i \<Longrightarrow> \<not> x_layers R h f r (w, k, j, i)"
  by (auto simp: inner_row_def inner_column_def y_layers_def x_layers_def Let_def)

lemma post_x_shape: "same_shape (fst s) (fst (snd (post_exchange_halo_x ex depth s)))"
  by (simp add: post_x_field)

lemma post_y_shape: "same_shape (fst s) (fst (snd (post_exchange_halo_y ex depth s)))"
  by (simp add: post_y_field)

lemma wait_x_shape: "same_shape (fst s) (fst (wait_exchange_halo_x ex depth mail reqs s))"
  by (cases s) (simp add: wait_exchange_halo_x_def Let_def)

lemma wait_y_shape: "same_shape (fst s) (fst (wait_exchange_halo_y ex depth mail reqs s))"
  by (cases s) (simp add: wait_exchange_halo_y_def Let_def)

lemma post_x_singleton:
  "is_singleton_x (grid_ref ex) \<Longrightarrow> fst (post_exchange_halo_x ex depth s) = []"
  by (cases s) (simp add: post_exchange_halo_x_def Let_def)

lemma post_y_singleton:
  "is_singleton_y (grid_ref ex) \<Longrightarrow> fst (post_exchange_halo_y ex depth s) = []"
  by (cases s) (simp add: post_exchange_halo_y_def Let_def)

lemma post_y_row:
  assumes R: "run_ok R" "r \<in> run_ranks R" and f: "field_wf (fst s)" "2 \<le> fdim (fst s)" and j: "inner_row R r j"
  shows "fdata (fst (snd (post_exchange_halo_y (run_exchanger R r) depth s))) (w, k, j, i) = fdata (fst s) (w, k, j, i)"
  using j singleton_extent(2) [OF R] run_grid_simps(3) [OF R]
  by (auto simp: post_y_field run_grid_simps [OF R] fill_singleton_y_halo_cell [OF f] inner_row_def)

lemma post_x_column:
  assumes R: "run_ok R" "r \<in> run_ranks R" and f: "field_wf (fst s)" "2 \<le> fdim (fst s)" and i: "inner_column R r i"
  shows "fdata (fst (snd (post_exchange_halo_x (run_exchanger R r) depth s))) (w, k, j, i) = fdata (fst s) (w, k, j, i)"
  using i singleton_extent(1) [OF R] run_grid_simps(2) [OF R]
  by (auto simp: post_x_field run_grid_simps [OF R] fill_singleton_x_halo_cell [OF f] inner_column_def)

text \<open>The two phases of \<open>exchange_face_halos\<close> on every process.\<close>

definition posted_x_all ::
  "(nat \<Rightarrow> exchanger) \<Rightarrow> int \<Rightarrow> (nat \<Rightarrow> 'a field \<times> 'a halo_buffers) \<Rightarrow> nat \<Rightarrow> 'a request list \<times> 'a field \<times> 'a halo_buffers" where
  "posted_x_all ex depth st r = post_exchange_halo_x (ex r) depth (st r)"

definition posted_y_all ::
  "(nat \<Rightarrow> exchanger) \<Rightarrow> int \<Rightarrow> (nat \<Rightarrow> 'a field \<times> 'a halo_buffers) \<Rightarrow> nat \<Rightarrow> 'a request list \<times> 'a field \<times> 'a halo_buffers" where
  "posted_y_all ex depth st r = post_exchange_halo_y (ex r) depth (snd (posted_x_all ex depth st r))"

definition face_mail ::
  "'a delivery \<Rightarrow> (nat \<Rightarrow> exchanger) \<Rightarrow> int \<Rightarrow> (nat \<Rightarrow> 'a field \<times> 'a halo_buffers) \<Rightarrow> nat \<Rightarrow> 'a mailbox" where
  "face_mail deliver ex depth st = deliver (\<lambda>r. fst (posted_x_all ex depth st r) @ fst (posted_y_all ex depth st r))"

definition waited_x_all ::
  "'a delivery \<Rightarrow> (nat \<Rightarrow> exchanger) \<Rightarrow> int \<Rightarrow> (nat \<Rightarrow> 'a field \<times> 'a halo_buffers) \<Rightarrow> nat \<Rightarrow> 'a field \<times> 'a halo_buffers" where
  "waited_x_all deliver ex depth st r =
     wait_exchange_halo_x (ex r) depth (face_mail deliver ex depth st r) (fst (posted_x_all ex depth st r))
       (snd (posted_y_all ex depth st r))"

lemma exchange_face_halos_all_phases:
  "exchange_face_halos_all deliver ex depth st r =
     wait_exchange_halo_y (ex r) depth (face_mail deliver ex depth st r) (fst (posted_y_all ex depth st r))
       (waited_x_all deliver ex depth st r)"
  by (simp add: exchange_face_halos_all_def exchange_face_halos_def Let_def case_prod_beta posted_x_all_def
      posted_y_all_def face_mail_def waited_x_all_def)

lemmas posted_defs = posted_x_all_def posted_y_all_def

lemma face_shapes:
  "same_shape (fst (st r)) (fst (snd (posted_x_all ex depth st r)))"
  "same_shape (fst (st r)) (fst (snd (posted_y_all ex depth st r)))"
  "same_shape (fst (st r)) (fst (waited_x_all deliver ex depth st r))"
  "same_shape (fst (st r)) (fst (exchange_face_halos_all deliver ex depth st r))"
proof -
  show 1: "same_shape (fst (st r)) (fst (snd (posted_x_all ex depth st r)))"
    by (simp add: posted_defs post_x_shape)
  show 2: "same_shape (fst (st r)) (fst (snd (posted_y_all ex depth st r)))"
    using same_shape_trans [OF 1 post_y_shape] by (simp add: posted_defs)
  show 3: "same_shape (fst (st r)) (fst (waited_x_all deliver ex depth st r))"
    unfolding waited_x_all_def by (rule same_shape_trans [OF 2 wait_x_shape])
  show "same_shape (fst (st r)) (fst (exchange_face_halos_all deliver ex depth st r))"
    unfolding exchange_face_halos_all_phases by (rule same_shape_trans [OF 3 wait_y_shape])
qed

lemma face_mail_x:
  "tag = tag_code SEND_TO_LEFT \<or> tag = tag_code SEND_TO_RIGHT \<Longrightarrow>
    face_mail deliver ex depth st r s tag =
    x_part deliver (\<lambda>r. fst (post_exchange_halo_y (ex r) depth (snd (posted_x_all ex depth st r))))
      (\<lambda>r. fst (post_exchange_halo_x (ex r) depth (st r))) r s tag"
  by (simp add: face_mail_def x_part_def posted_defs)

lemma face_mail_y:
  "tag = tag_code SEND_TO_TOP \<or> tag = tag_code SEND_TO_BOTTOM \<Longrightarrow>
    face_mail deliver ex depth st r s tag =
    y_part deliver (\<lambda>r. fst (post_exchange_halo_x (ex r) depth (st r)))
      (\<lambda>r. fst (post_exchange_halo_y (ex r) depth (snd (posted_x_all ex depth st r)))) r s tag"
  by (auto simp: face_mail_def y_part_def posted_defs)

abbreviation x_delivery where
  "x_delivery deliver ex depth st \<equiv>
     x_part deliver (\<lambda>r. fst (post_exchange_halo_y (ex r) depth (snd (posted_x_all ex depth st r))))"

abbreviation y_delivery where
  "y_delivery deliver ex depth st \<equiv> y_part deliver (\<lambda>r. fst (post_exchange_halo_x (ex r) depth (st r)))"

lemma face_fit:
  assumes "\<forall>r \<in> run_ranks R. fits R nd nw nz' r (fst (st r))"
  shows "\<forall>r \<in> run_ranks R. fits R nd nw nz' r (fst (snd (posted_x_all ex depth st r)))"
  using assms fits_round face_shapes(1) by blast

lemma face_rows:
  assumes run: "run_ok R" and delivery: "delivers deliver"
    and fit: "\<forall>r \<in> run_ranks R. fits R nd nw nz' r (fst (st r))" and pos: "0 < run_depth R depth"
    and r: "r \<in> run_ranks R" and j: "inner_row R r j"
  shows "fdata (fst (exchange_face_halos_all deliver (run_exchanger R) depth st r)) (w, k, j, i) =
    fdata (fst (x_round (x_delivery deliver (run_exchanger R) depth st) (run_exchanger R) depth st r)) (w, k, j, i)"
proof -
  let ?ex = "run_exchanger R" and ?st1 = "\<lambda>r. snd (posted_x_all (run_exchanger R) depth st r)"
  let ?dx = "x_delivery deliver (run_exchanger R) depth st"
  let ?dy = "y_delivery deliver (run_exchanger R) depth st"
  note fit1 = face_fit [OF fit, of ?ex depth]
  note wf = fits_wf [OF fit1 [rule_format, OF r]]
  let ?c = "(w, k, j, i)"
  have "fdata (fst (exchange_face_halos_all deliver ?ex depth st r)) ?c = fdata (fst (waited_x_all deliver ?ex depth st r)) ?c"
  proof (cases "is_singleton_y (run_global R)")
    case True
    then show ?thesis
      by (simp add: exchange_face_halos_all_phases posted_y_all_def post_y_singleton run_grid_simps [OF run r]
          wait_exchange_halo_y_def)
  next
    case False
    have sh: "same_shape (fst (?st1 r)) (fst (waited_x_all deliver ?ex depth st r))"
      unfolding waited_x_all_def posted_y_all_def by (rule same_shape_trans [OF post_y_shape wait_x_shape])
    have m: "\<And>s tag. tag = tag_code SEND_TO_TOP \<or> tag = tag_code SEND_TO_BOTTOM \<Longrightarrow>
        face_mail deliver ?ex depth st r s tag = ?dy (\<lambda>r. fst (post_exchange_halo_y (?ex r) depth (?st1 r))) r s tag"
      by (rule face_mail_y)
    show ?thesis
      using wait_y_onto [where deliver = ?dy and st = ?st1 and f = "fst (waited_x_all deliver ?ex depth st r)",
          OF run y_part_delivers [OF delivery] fit1 pos False r m sh, where b = "snd (waited_x_all deliver ?ex depth st r)" and c = ?c]
      by (simp add: inner_not_layers(1) [OF j] exchange_face_halos_all_phases posted_y_all_def)
  qed
  also have "\<dots> = fdata (fst (x_round ?dx ?ex depth st r)) ?c"
  proof (cases "is_singleton_x (run_global R)")
    case True
    have "fdata (fst (waited_x_all deliver ?ex depth st r)) ?c = fdata (fst (snd (posted_y_all ?ex depth st r))) ?c"
      using True by (simp add: waited_x_all_def posted_x_all_def post_x_singleton run_grid_simps [OF run r]
          wait_exchange_halo_x_def)
    also have "\<dots> = fdata (fst (?st1 r)) ?c"
      unfolding posted_y_all_def by (rule post_y_row [OF run r wf [THEN conjunct1] wf [THEN conjunct2] j])
    finally show ?thesis
      using True by (simp add: x_round_def Let_def post_x_singleton run_grid_simps [OF run r]
          wait_exchange_halo_x_def posted_x_all_def)
  next
    case False
    have same: "fst (?st1 r) = fst (st r)"
      using False by (simp add: posted_x_all_def post_x_field run_grid_simps [OF run r])
    have m: "\<And>s tag. tag = tag_code SEND_TO_LEFT \<or> tag = tag_code SEND_TO_RIGHT \<Longrightarrow>
        face_mail deliver ?ex depth st r s tag = ?dx (\<lambda>r. fst (post_exchange_halo_x (?ex r) depth (st r))) r s tag"
      by (rule face_mail_x)
    note W = wait_x_onto [where deliver = ?dx and st = st and f = "fst (snd (posted_y_all ?ex depth st r))",
          OF run x_part_delivers [OF delivery] fit pos False r m face_shapes(2), where b = "snd (snd (posted_y_all ?ex depth st r))" and c = ?c]
    have inner: "fdata (fst (snd (posted_y_all ?ex depth st r))) ?c = fdata (fst (st r)) ?c"
      unfolding posted_y_all_def using post_y_row [OF run r wf [THEN conjunct1] wf [THEN conjunct2] j] by (simp add: same)
    have "fdata (fst (waited_x_all deliver ?ex depth st r)) ?c =
        x_moved R (run_depth R depth) (\<lambda>r. fst (st r)) r ?c"
      using W by (simp add: waited_x_all_def posted_x_all_def inner x_moved_inner
          layers_shape [OF face_shapes(2)] split: if_splits)
    then show ?thesis
      by (simp add: x_round_cells [OF run x_part_delivers [OF delivery] fit pos False r])
  qed
  finally show ?thesis .
qed

lemma face_columns:
  assumes run: "run_ok R" and delivery: "delivers deliver"
    and fit: "\<forall>r \<in> run_ranks R. fits R nd nw nz' r (fst (st r))" and pos: "0 < run_depth R depth"
    and r: "r \<in> run_ranks R" and i: "inner_column R r i"
  shows "fdata (fst (exchange_face_halos_all deliver (run_exchanger R) depth st r)) (w, k, j, i) =
    fdata (fst (y_round (y_delivery deliver (run_exchanger R) depth st) (run_exchanger R) depth (\<lambda>r. snd (posted_x_all (run_exchanger R) depth st r)) r)) (w, k, j, i)"
proof -
  let ?ex = "run_exchanger R" and ?st1 = "\<lambda>r. snd (posted_x_all (run_exchanger R) depth st r)"
  let ?dx = "x_delivery deliver (run_exchanger R) depth st"
  let ?dy = "y_delivery deliver (run_exchanger R) depth st"
  note fit1 = face_fit [OF fit, of ?ex depth]
  note wf = fits_wf [OF fit1 [rule_format, OF r]]
  let ?c = "(w, k, j, i)"
  have inner: "fdata (fst (waited_x_all deliver ?ex depth st r)) ?c = fdata (fst (snd (posted_y_all ?ex depth st r))) ?c"
  proof (cases "is_singleton_x (run_global R)")
    case True
    then show ?thesis
      by (simp add: waited_x_all_def posted_x_all_def post_x_singleton run_grid_simps [OF run r]
          wait_exchange_halo_x_def)
  next
    case False
    have m: "\<And>s tag. tag = tag_code SEND_TO_LEFT \<or> tag = tag_code SEND_TO_RIGHT \<Longrightarrow>
        face_mail deliver ?ex depth st r s tag = ?dx (\<lambda>r. fst (post_exchange_halo_x (?ex r) depth (st r))) r s tag"
      by (rule face_mail_x)
    show ?thesis
      using wait_x_onto [where deliver = ?dx and st = st and f = "fst (snd (posted_y_all ?ex depth st r))",
          OF run x_part_delivers [OF delivery] fit pos False r m face_shapes(2), where b = "snd (snd (posted_y_all ?ex depth st r))" and c = ?c]
      by (simp add: inner_not_layers(2) [OF i] waited_x_all_def posted_x_all_def)
  qed
  show ?thesis
  proof (cases "is_singleton_y (run_global R)")
    case True
    then show ?thesis
      using inner by (simp add: exchange_face_halos_all_phases posted_y_all_def post_y_singleton
          run_grid_simps [OF run r] wait_exchange_halo_y_def y_round_def Let_def)
  next
    case False
    have same: "fst (snd (posted_y_all ?ex depth st r)) = fst (?st1 r)"
      using False by (simp add: posted_y_all_def post_y_field run_grid_simps [OF run r])
    have sh: "same_shape (fst (?st1 r)) (fst (waited_x_all deliver ?ex depth st r))"
      unfolding waited_x_all_def posted_y_all_def by (rule same_shape_trans [OF post_y_shape wait_x_shape])
    have m: "\<And>s tag. tag = tag_code SEND_TO_TOP \<or> tag = tag_code SEND_TO_BOTTOM \<Longrightarrow>
        face_mail deliver ?ex depth st r s tag = ?dy (\<lambda>r. fst (post_exchange_halo_y (?ex r) depth (?st1 r))) r s tag"
      by (rule face_mail_y)
    note W = wait_y_onto [where deliver = ?dy and st = ?st1 and f = "fst (waited_x_all deliver ?ex depth st r)",
          OF run y_part_delivers [OF delivery] fit1 pos False r m sh, where b = "snd (waited_x_all deliver ?ex depth st r)" and c = ?c]
    have "fdata (fst (exchange_face_halos_all deliver ?ex depth st r)) ?c =
        y_moved R (run_depth R depth) (\<lambda>r. fst (?st1 r)) r ?c"
      using W inner same by (simp add: exchange_face_halos_all_phases posted_y_all_def y_moved_inner
          layers_shape [OF sh] split: if_splits)
    then show ?thesis
      by (simp add: y_round_cells [OF run y_part_delivers [OF delivery] fit1 pos False r])
  qed
qed


lemma same_shape_sym: "same_shape f f' \<Longrightarrow> same_shape f' f"
  by (cases f; cases f') (simp add: same_shape_def)

lemma posted_x_agrees:
  assumes R: "run_ok R" and r: "r \<in> run_ranks R" and f: "fits R nd nw nz' r (fst (st r))"
    and A: "agrees R \<Phi> r (fst (st r)) 0 0"
  shows "agrees R \<Phi> r (fst (snd (posted_x_all (run_exchanger R) depth st r))) 0 0"
proof (rule agreesI)
  fix w k j i
  let ?f' = "fst (snd (posted_x_all (run_exchanger R) depth st r))"
  note sh = same_shape_simps [OF face_shapes(1) [of st r "run_exchanger R" depth]]
  assume c: "0 \<le> w" "w < ext_w ?f'" "0 \<le> k" "k < ext_z ?f'"
    "run_halo R - 0 \<le> j" "j < run_halo R + local_physical_size (dim_y (run_grid R r)) + 0"
    "run_halo R - 0 \<le> i" "i < run_halo R + local_physical_size (dim_x (run_grid R r)) + 0"
  have "inner_column R r i" using c by (simp add: inner_column_def)
  then have "fdata ?f' (w, k, j, i) = fdata (fst (st r)) (w, k, j, i)"
    unfolding posted_x_all_def
    by (rule post_x_column [OF R r fits_wf [OF f, THEN conjunct1] fits_wf [OF f, THEN conjunct2]])
  with agreesD [OF A, of w k j i] c sh
  show "fdata ?f' (w, k, j, i) =
      \<Phi> w k ((local_physical_start_idx (dim_y (run_grid R r)) + (j - run_halo R)) mod global_size (dim_y (run_grid R r)))
        ((local_physical_start_idx (dim_x (run_grid R r)) + (i - run_halo R)) mod global_size (dim_x (run_grid R r)))"
    by simp
qed

lemma agrees_transfer:
  assumes "agrees R \<Phi> r f ey ex" and "same_shape f f'"
    and "\<And>w k j i. run_halo R - ey \<le> j \<Longrightarrow> j < run_halo R + local_physical_size (dim_y (run_grid R r)) + ey \<Longrightarrow>
      run_halo R - ex \<le> i \<Longrightarrow> i < run_halo R + local_physical_size (dim_x (run_grid R r)) + ex \<Longrightarrow>
      fdata f' (w, k, j, i) = fdata f (w, k, j, i)"
  shows "agrees R \<Phi> r f' ey ex"
  using assms(1,3) same_shape_simps [OF assms(2)] by (auto simp: agrees_def Let_def)

text \<open>\<open>exchange_face_halos\<close> fills the four faces of the halo; its corners are not specified.\<close>

lemma exchange_face_halos_all_agrees:
  assumes R: "run_ok R" and D: "delivers deliver" and P: "run_periodic R"
    and F: "\<forall>r \<in> run_ranks R. fits R nd nw nz' r (fst (st r))"
    and d: "0 < run_depth R depth" "run_depth R depth \<le> run_halo R"
    and A: "\<forall>r \<in> run_ranks R. agrees R \<Phi> r (fst (st r)) 0 0" and r: "r \<in> run_ranks R"
  shows "agrees R \<Phi> r (fst (exchange_face_halos_all deliver (run_exchanger R) depth st r)) 0 (run_depth R depth)"
    and "agrees R \<Phi> r (fst (exchange_face_halos_all deliver (run_exchanger R) depth st r)) (run_depth R depth) 0"
proof -
  let ?ex = "run_exchanger R" and ?st1 = "\<lambda>r. snd (posted_x_all (run_exchanger R) depth st r)"
  let ?f = "fst (exchange_face_halos_all deliver ?ex depth st r)"
  let ?dx = "x_delivery deliver ?ex depth st" and ?dy = "y_delivery deliver ?ex depth st"
  have H: "0 \<le> run_halo R" using run_okD(5) [OF R] by simp
  note F1 = face_fit [OF F, of ?ex depth]
  have A1: "\<forall>r \<in> run_ranks R. agrees R \<Phi> r (fst (?st1 r)) 0 0"
    using posted_x_agrees [OF R] F A by blast
  have X: "agrees R \<Phi> r (fst (x_round ?dx ?ex depth st r)) 0 (run_depth R depth)"
  proof (cases "is_singleton_x (run_global R)")
    case True
    show ?thesis by (rule x_round_singleton [OF R F d(1) True H A r])
  next
    case False
    with P have "snd (run_periods R)" by (simp add: run_periodic_def)
    then show ?thesis by (intro x_round_agrees [OF R x_part_delivers [OF D] F d False _ H A r])
  qed
  have Y: "agrees R \<Phi> r (fst (y_round ?dy ?ex depth ?st1 r)) (run_depth R depth) 0"
  proof (cases "is_singleton_y (run_global R)")
    case True
    show ?thesis by (rule y_round_singleton [OF R F1 d(1) True H A1 r])
  next
    case False
    with P have "fst (run_periods R)" by (simp add: run_periodic_def)
    then show ?thesis by (intro y_round_agrees [OF R y_part_delivers [OF D] F1 d False _ H A1 r])
  qed
  have shx: "same_shape (fst (x_round ?dx ?ex depth st r)) ?f"
    by (rule same_shape_trans [OF same_shape_sym [OF x_round_shape] face_shapes(4)])
  have shy: "same_shape (fst (y_round ?dy ?ex depth ?st1 r)) ?f"
    by (rule same_shape_trans [OF same_shape_sym [OF y_round_shape]
          same_shape_trans [OF same_shape_sym [OF face_shapes(1)] face_shapes(4)]])
  show "agrees R \<Phi> r ?f 0 (run_depth R depth)"
    by (rule agrees_transfer [OF X shx face_rows [OF R D F d(1) r]]) (simp add: inner_row_def)
  show "agrees R \<Phi> r ?f (run_depth R depth) 0"
    by (rule agrees_transfer [OF Y shy face_columns [OF R D F d(1) r]]) (simp add: inner_column_def)
qed

end
