(* ===== verification/Run_Fields.thy ===== *)
theory Run_Fields
  imports Halo_Faces Halo_Batch Boundary_Stencils Time_Integration
begin

text \<open>
  Fields of a run: the cells that a process owns and their position in the domain, agreement of the fields with a
  global field on a cell and its four neighbours, and the global field that the owned cells of any family of
  fields make up.  A halo exchange leaves the owned cells alone.
\<close>

type_synonym global_field = "int \<Rightarrow> int \<Rightarrow> int \<Rightarrow> int \<Rightarrow> real"

section \<open>Owned cells\<close>

lemma run_interior:
  assumes "run_ok R" and "r \<in> run_ranks R"
  shows "interior (run_grid R r) j i \<longleftrightarrow>
    run_halo R \<le> j \<and> j < run_halo R + local_physical_size (dim_y (run_grid R r)) \<and>
    run_halo R \<le> i \<and> i < run_halo R + local_physical_size (dim_x (run_grid R r))"
  by (auto simp: interior_def run_grid_simps [OF assms])

text \<open>The position of a cell of the process in the domain.\<close>

abbreviation global_row :: "run \<Rightarrow> nat \<Rightarrow> int \<Rightarrow> int" where
  "global_row R r j \<equiv>
     (local_physical_start_idx (dim_y (run_grid R r)) + (j - run_halo R)) mod global_size (dim_y (run_global R))"

abbreviation global_column :: "run \<Rightarrow> nat \<Rightarrow> int \<Rightarrow> int" where
  "global_column R r i \<equiv>
     (local_physical_start_idx (dim_x (run_grid R r)) + (i - run_halo R)) mod global_size (dim_x (run_global R))"

definition run_levels :: "run \<Rightarrow> int" where
  "run_levels R = global_size (dim_z (run_global R)) + 2 * run_halo R"

lemma fits_levels: "fits R 3 1 nz' r f \<Longrightarrow> ext_w f = 1 \<and> ext_z f = nz'"
  by (simp add: fits_def)

lemma fits_data: "fits R nd nw nz' r f \<Longrightarrow> fits R nd nw nz' r (f\<lparr>fdata := d\<rparr>)"
  by (auto simp: fits_def field_wf_def)

lemma fdata_of: "fdata (f\<lparr>fdata := d\<rparr>) = d"
  by simp

lemma agrees_interiorI:
  assumes "run_ok R" "r \<in> run_ranks R" and "ext_w f = 1" and "ext_z f = nz'"
    and "\<And>k j i. 0 \<le> k \<Longrightarrow> k < nz' \<Longrightarrow> interior (run_grid R r) j i \<Longrightarrow>
      fdata f (0, k, j, i) = \<Phi> 0 k (global_row R r j) (global_column R r i)"
  shows "agrees R \<Phi> r f 0 0"
proof (rule agreesI)
  fix w k j i assume a: "0 \<le> w" "w < ext_w f" "0 \<le> k" "k < ext_z f"
    "run_halo R - 0 \<le> j" "j < run_halo R + local_physical_size (dim_y (run_grid R r)) + 0"
    "run_halo R - 0 \<le> i" "i < run_halo R + local_physical_size (dim_x (run_grid R r)) + 0"
  then have "w = 0" "k < nz'" "interior (run_grid R r) j i" using assms(3,4) by (auto simp: run_interior [OF assms(1,2)])
  with assms(5) [OF a(3), of j i]
  show "fdata f (w, k, j, i) =
      \<Phi> w k ((local_physical_start_idx (dim_y (run_grid R r)) + (j - run_halo R)) mod global_size (dim_y (run_grid R r)))
        ((local_physical_start_idx (dim_x (run_grid R r)) + (i - run_halo R)) mod global_size (dim_x (run_grid R r)))"
    by (simp add: run_global_size [OF assms(1,2)])
qed

lemma agrees_mono:
  assumes "agrees R \<Phi> r f ey ex" and "ey' \<le> ey" "ex' \<le> ex"
  shows "agrees R \<Phi> r f ey' ex'"
  using assms by (auto simp: agrees_def Let_def)

lemma run_depth_one: "run_ok R \<Longrightarrow> run_depth R 1 = 1 \<and> 1 \<le> run_halo R"
  using run_okD(5) [of R] by (simp add: run_depth_def)

lemma near_cells:
  assumes "run_ok R" "r \<in> run_ranks R"
    and "run_halo R - 1 \<le> j" "j < run_halo R + local_physical_size (dim_y (run_grid R r)) + 1"
    and "run_halo R - 1 \<le> i" "i < run_halo R + local_physical_size (dim_x (run_grid R r)) + 1"
  shows "0 \<le> j \<and> j < get_local_total_points_y (run_grid R r) \<and> 0 \<le> i \<and> i < get_local_total_points_x (run_grid R r)"
  using assms(3-) run_depth_one [OF assms(1)] by (simp add: run_grid_simps [OF assms(1,2)])

section \<open>Agreement on a cell and its neighbours\<close>

abbreviation cross_agrees :: "run \<Rightarrow> (int \<Rightarrow> int \<Rightarrow> int \<Rightarrow> int \<Rightarrow> 'a) \<Rightarrow> nat \<Rightarrow> 'a field \<Rightarrow> bool" where
  "cross_agrees R \<Phi> r f \<equiv> agrees R \<Phi> r f 0 1 \<and> agrees R \<Phi> r f 1 0"

text \<open>The four neighbours of an owned cell.\<close>

lemma cross_cells:
  assumes R: "run_ok R" "r \<in> run_ranks R" and A: "cross_agrees R \<Phi> r f" and int: "interior (run_grid R r) j i"
    and w: "0 < ext_w f" and k: "0 \<le> k" "k < ext_z f"
    and J: "J = (local_physical_start_idx (dim_y (run_grid R r)) + (j - run_halo R)) mod ny'"
    and I: "I = (local_physical_start_idx (dim_x (run_grid R r)) + (i - run_halo R)) mod nx'"
    and n: "ny' = global_size (dim_y (run_global R))" "nx' = global_size (dim_x (run_global R))"
  shows "fdata f (0, k, j, i) = \<Phi> 0 k J I"
    and "fdata f (0, k, j, i + 1) = \<Phi> 0 k J ((I + 1) mod nx')" and "fdata f (0, k, j, i - 1) = \<Phi> 0 k J ((I - 1) mod nx')"
    and "fdata f (0, k, j + 1, i) = \<Phi> 0 k ((J + 1) mod ny') I" and "fdata f (0, k, j - 1, i) = \<Phi> 0 k ((J - 1) mod ny') I"
proof -
  note in' = int [unfolded run_interior [OF R]] and g = run_global_size [OF R]
  show "fdata f (0, k, j, i) = \<Phi> 0 k J I"
    using agreesD [OF A [THEN conjunct1], of 0 k j i] in' w k by (simp add: J I n g)
  show "fdata f (0, k, j, i + 1) = \<Phi> 0 k J ((I + 1) mod nx')"
    using agreesD [OF A [THEN conjunct1], of 0 k j "i + 1"] in' w k by (simp add: J I n g mod_simps algebra_simps)
  show "fdata f (0, k, j, i - 1) = \<Phi> 0 k J ((I - 1) mod nx')"
    using agreesD [OF A [THEN conjunct1], of 0 k j "i - 1"] in' w k by (simp add: J I n g mod_simps algebra_simps)
  show "fdata f (0, k, j + 1, i) = \<Phi> 0 k ((J + 1) mod ny') I"
    using agreesD [OF A [THEN conjunct2], of 0 k "j + 1" i] in' w k by (simp add: J I n g mod_simps algebra_simps)
  show "fdata f (0, k, j - 1, i) = \<Phi> 0 k ((J - 1) mod ny') I"
    using agreesD [OF A [THEN conjunct2], of 0 k "j - 1" i] in' w k by (simp add: J I n g mod_simps algebra_simps)
qed

section \<open>A sample field\<close>

definition sample_global_field :: "global_field \<Rightarrow> nat \<Rightarrow> real field" where
  "sample_global_field \<Phi> r =
     (let g = run_grid sample_run r in
      \<lparr>fname = ''w'', fdim = 3, ext_w = 1, ext_z = get_local_total_points_z g,
       ext_y = get_local_total_points_y g, ext_x = get_local_total_points_x g,
       fdata = (\<lambda>(w, k, j, i). \<Phi> w k (global_row sample_run r j) (global_column sample_run r i))\<rparr>)"

lemma sample_global_field_ok:
  assumes "r \<in> run_ranks sample_run"
  shows "fits sample_run 3 1 (run_levels sample_run) r (sample_global_field \<Phi> r)" and "agrees sample_run \<Phi> r (sample_global_field \<Phi> r) ey ex"
proof -
  note R = sample_run_ok assms
  show "fits sample_run 3 1 (run_levels sample_run) r (sample_global_field \<Phi> r)"
  proof -
    have "global_size (dim_z (run_global sample_run)) = 4"
      by (simp add: sample_run_def sample_grid_def initial_dimension_def)
    then show ?thesis
      using run_grid_simps(4,5) [OF R] local_size_pos [OF R] run_okD(5) [OF R(1)]
      by (simp add: fits_def sample_global_field_def field_wf_def Let_def run_levels_def run_total_z [OF R])
  qed
  show "agrees sample_run \<Phi> r (sample_global_field \<Phi> r) ey ex"
    by (rule agreesI) (simp add: sample_global_field_def Let_def run_global_size [OF R])
qed

section \<open>The global field of a family of fields\<close>

lemma split_index_unique:
  assumes "0 \<le> n" "0 < p" "0 \<le> c" "c < p" "0 \<le> d" "d < p"
    and "split_start n p c \<le> x" "x < split_start n p c + split_size n p c"
    and "split_start n p d \<le> x" "x < split_start n p d + split_size n p d"
  shows "c = d"
  using split_disjoint [of n p c d] split_disjoint [of n p d c] assms by (cases c d rule: linorder_cases) simp_all

lemma owned_position:
  assumes R: "run_ok R" "r \<in> run_ranks R" and "interior (run_grid R r) j i"
  shows "global_row R r j = local_physical_start_idx (dim_y (run_grid R r)) + (j - run_halo R)"
    and "global_column R r i = local_physical_start_idx (dim_x (run_grid R r)) + (i - run_halo R)"
  using run_in_domain [OF R] assms(3) by (simp_all add: run_interior [OF R] run_global_size [OF R])

lemma owner_is_unique:
  assumes R: "run_ok R" "r \<in> run_ranks R" "s \<in> run_ranks R"
    and int: "interior (run_grid R r) j i" "interior (run_grid R s) j' i'"
    and pos: "global_row R r j = global_row R s j'" "global_column R r i = global_column R s i'"
  shows "r = s \<and> j = j' \<and> i = i'"
proof -
  note p = owned_position [OF R(1,2) int(1)] owned_position [OF R(1,3) int(2)]
  note in' = int(1) [unfolded run_interior [OF R(1,2)]] int(2) [unfolded run_interior [OF R(1,3)]]
  note d = run_okD(1-4) [OF R(1)] and c = coords_range [OF R(1,2)] coords_range [OF R(1,3)]
  have "fst (run_coords R r) = fst (run_coords R s)"
    by (rule split_index_unique [of "global_size (dim_y (run_global R))" "fst (run_dims R)" _ _ "global_row R r j"])
       (use d c in' p pos(1) in \<open>simp_all add: run_axes [OF R(1,2)] run_axes [OF R(1,3)] axis_simps\<close>)
  moreover have "snd (run_coords R r) = snd (run_coords R s)"
    by (rule split_index_unique [of "global_size (dim_x (run_global R))" "snd (run_dims R)" _ _ "global_column R r i"])
       (use d c in' p pos(2) in \<open>simp_all add: run_axes [OF R(1,2)] run_axes [OF R(1,3)] axis_simps\<close>)
  ultimately have "r = s" using rank_unique [OF R] by (simp add: prod_eq_iff)
  then show ?thesis using p pos by simp
qed

text \<open>The owned cells of any family of fields are the cells of one global field.\<close>

lemma owned_cells_agree:
  fixes f :: "nat \<Rightarrow> 'a field"
  assumes "run_ok R"
  obtains \<Phi> where "\<forall>r \<in> run_ranks R. agrees R \<Phi> r (f r) 0 0"
proof
  let ?own = "\<lambda>J I r j i. r \<in> run_ranks R \<and> interior (run_grid R r) j i \<and> global_row R r j = J \<and> global_column R r i = I"
  let ?\<Phi> = "\<lambda>w k J I. SOME v. \<exists>r j i. ?own J I r j i \<and> v = fdata (f r) (w, k, j, i)"
  show "\<forall>r \<in> run_ranks R. agrees R ?\<Phi> r (f r) 0 0"
  proof (intro ballI agreesI)
    fix r w k j i
    assume r: "r \<in> run_ranks R" and a: "0 \<le> w" "w < ext_w (f r)" "0 \<le> k" "k < ext_z (f r)"
      "run_halo R - 0 \<le> j" "j < run_halo R + local_physical_size (dim_y (run_grid R r)) + 0"
      "run_halo R - 0 \<le> i" "i < run_halo R + local_physical_size (dim_x (run_grid R r)) + 0"
    have own: "?own (global_row R r j) (global_column R r i) r j i"
      using r a by (simp add: run_interior [OF assms r])
    have "?\<Phi> w k (global_row R r j) (global_column R r i) = fdata (f r) (w, k, j, i)"
    proof (rule some_equality)
      show "\<exists>r' j' i'. ?own (global_row R r j) (global_column R r i) r' j' i' \<and>
          fdata (f r) (w, k, j, i) = fdata (f r') (w, k, j', i')"
        using own by blast
      fix v assume "\<exists>r' j' i'. ?own (global_row R r j) (global_column R r i) r' j' i' \<and> v = fdata (f r') (w, k, j', i')"
      then obtain r' j' i' where o: "?own (global_row R r j) (global_column R r i) r' j' i'" "v = fdata (f r') (w, k, j', i')"
        by blast
      then have "r = r' \<and> j = j' \<and> i = i'"
        by (intro owner_is_unique [OF assms r]) (use own in simp_all)
      then show "v = fdata (f r) (w, k, j, i)" using o(2) by simp
    qed
    then show "fdata (f r) (w, k, j, i) = ?\<Phi> w k
        ((local_physical_start_idx (dim_y (run_grid R r)) + (j - run_halo R)) mod global_size (dim_y (run_grid R r)))
        ((local_physical_start_idx (dim_x (run_grid R r)) + (i - run_halo R)) mod global_size (dim_x (run_grid R r)))"
      by (simp add: run_global_size [OF assms r])
  qed
qed

text \<open>A halo exchange keeps the cells a process owns.\<close>

lemma exchange_keeps_owned:
  assumes R: "run_ok R" "delivers deliver" "run_periodic R"
    and F: "\<forall>r \<in> run_ranks R. fits R nd nw nz' r (fst (st r))"
    and d: "0 < run_depth R depth" "run_depth R depth \<le> run_halo R"
    and r: "r \<in> run_ranks R" and int: "interior (run_grid R r) j i"
    and "0 \<le> w" "w < nw" "0 \<le> k" "k < nz'"
  shows "fdata (fst (exchange_halos_all deliver (run_exchanger R) depth st r)) (w, k, j, i) = fdata (fst (st r)) (w, k, j, i)"
proof -
  let ?f' = "fst (exchange_halos_all deliver (run_exchanger R) depth st r)"
  obtain \<Phi> where A: "\<forall>r \<in> run_ranks R. agrees R \<Phi> r (fst (st r)) 0 0" using owned_cells_agree [OF R(1)] .
  have B: "agrees R \<Phi> r ?f' 0 0"
    by (rule agrees_mono [OF exchange_halos_all_agrees [OF R F d A r]]) (use d in simp_all)
  note sh = same_shape_simps [OF exchange_halos_all_shape [of st r deliver "run_exchanger R" depth]]
  have "ext_w (fst (st r)) = nw" "ext_z (fst (st r)) = nz'" using F r by (auto simp: fits_def)
  with agreesD [OF B, of w k j i] agreesD [OF bspec [OF A r], of w k j i] sh int [unfolded run_interior [OF R(1) r]] assms(9-)
  show ?thesis by simp
qed

end
