(* ===== verification/Wind_World.thy ===== *)
theory Wind_World
  imports Wind_Recovery Run_Fields
begin

text \<open>
  \<open>WindSolver::solve_w\<close> (\<^verbatim>\<open>src/dynamics/solvers/WindSolver.cpp\<close>) as all processes of a run execute it: the local
  kernels of \<open>Wind_Solver\<close> with the exchanges of the halo faces between the iterations.  The result is
  compared with the iteration of one process on the whole periodic domain.
\<close>

section \<open>The solver on all processes\<close>

record wind_state =
  w_field :: "real field"
  W3DNM1 :: "real field"
  w_deep_field :: "real field"
  W3DN_field :: "real field"
  YTEM_field :: view
  wind_buffers :: "real halo_buffers"

text \<open>One iteration: the newest iterate and the previous one change places, the sweep runs on every
  process, and the faces of the new iterate are exchanged.\<close>

definition tridiagonal_iteration ::
  "real delivery \<Rightarrow> (nat \<Rightarrow> exchanger) \<Rightarrow> (nat \<Rightarrow> grid) \<Rightarrow> parameters \<Rightarrow> (int \<Rightarrow> real) \<Rightarrow>
   (nat \<Rightarrow> wind_state) \<Rightarrow> nat \<Rightarrow> wind_state" where
  "tridiagonal_iteration deliver ex g P rho_up st =
     (let swept = (\<lambda>r. case st r of s \<Rightarrow>
            ((W3DN_field s)\<lparr>fdata := fused_tridiagonal_solver (g r) P rho_up (YTEM_field s)
                (fdata (w_deep_field s)) (fdata (W3DN_field s))\<rparr>, wind_buffers s));
          out = exchange_face_halos_all deliver ex 1 swept
      in (\<lambda>r. (st r)\<lparr>w_deep_field := fst (out r), W3DN_field := w_deep_field (st r), wind_buffers := snd (out r)\<rparr>))"

definition begin_solve_w :: "grid \<Rightarrow> parameters \<Rightarrow> view \<Rightarrow> view \<Rightarrow> wind_state \<Rightarrow> wind_state" where
  "begin_solve_w g P xi eta s =
     (case extrapolate_w g (fdata (w_field s), fdata (W3DNM1 s), fdata (w_deep_field s)) of (w, m, d) \<Rightarrow>
        s\<lparr>YTEM_field := poisson_source g P xi eta (YTEM_field s),
          w_field := (w_field s)\<lparr>fdata := w\<rparr>, W3DNM1 := (W3DNM1 s)\<lparr>fdata := m\<rparr>,
          w_deep_field := (w_deep_field s)\<lparr>fdata := d\<rparr>\<rparr>)"

definition solve_w ::
  "real delivery \<Rightarrow> (nat \<Rightarrow> exchanger) \<Rightarrow> (nat \<Rightarrow> grid) \<Rightarrow> parameters \<Rightarrow> (int \<Rightarrow> real) \<Rightarrow>
   (nat \<Rightarrow> view) \<Rightarrow> (nat \<Rightarrow> view) \<Rightarrow> (nat \<Rightarrow> wind_state) \<Rightarrow> nat \<Rightarrow> wind_state" where
  "solve_w deliver ex g P rho_up xi eta st =
     (let st1 = (tridiagonal_iteration deliver ex g P rho_up ^^ nat (p_solver_iteration P))
            (\<lambda>r. begin_solve_w (g r) P (xi r) (eta r) (st r));
          scattered = (\<lambda>r. (w_field (st1 r))\<lparr>fdata := scatter_w (g r) (fdata (w_deep_field (st1 r))) (fdata (w_field (st1 r)))\<rparr>);
          out = exchange_halos_all deliver ex 1 (\<lambda>r. (scattered r, wind_buffers (st1 r)))
      in (\<lambda>r. (st1 r)\<lparr>w_field := fst (out r), wind_buffers := snd (out r)\<rparr>))"

section \<open>The same iteration on the whole periodic domain\<close>

definition periodic_sweep ::
  "int \<Rightarrow> int \<Rightarrow> int \<Rightarrow> int \<Rightarrow> parameters \<Rightarrow> (int \<Rightarrow> real) \<Rightarrow> global_field \<Rightarrow> global_field \<times> global_field \<Rightarrow>
   global_field \<times> global_field" where
  "periodic_sweep ny' nx' h n P rho_up Y \<Phi>\<Psi> =
     (case \<Phi>\<Psi> of (\<Phi>, \<Psi>) \<Rightarrow>
       ((\<lambda>w k J I. line_solve h n P rho_up
           (\<lambda>k. p_WRXMU P * \<Phi> w k J I + (\<Phi> w k J ((I + 1) mod nx') + \<Phi> w k J ((I - 1) mod nx')) * p_rdx2 P +
              (\<Phi> w k ((J + 1) mod ny') I + \<Phi> w k ((J - 1) mod ny') I) * p_rdy2 P + Y w k J I)
           (\<lambda>_. 0) (\<lambda>k. \<Psi> w k J I) k), \<Phi>))"

definition first_guess :: "int \<Rightarrow> int \<Rightarrow> global_field \<Rightarrow> global_field \<Rightarrow> global_field" where
  "first_guess h n W M = (\<lambda>w k J I. if h \<le> k \<and> k \<le> n then 2 * W w k J I - M w k J I else W w k J I)"

definition wind_source :: "int \<Rightarrow> int \<Rightarrow> parameters \<Rightarrow> global_field \<Rightarrow> global_field \<Rightarrow> global_field" where
  "wind_source ny' nx' P Xi Eta =
     (\<lambda>w k J I. - (Eta w k J I - Eta w k J ((I - 1) mod nx')) * p_rdx P - (Xi w k J I - Xi w k ((J - 1) mod ny') I) * p_rdy P)"

definition solve_w_reference ::
  "int \<Rightarrow> int \<Rightarrow> int \<Rightarrow> int \<Rightarrow> parameters \<Rightarrow> (int \<Rightarrow> real) \<Rightarrow> global_field \<Rightarrow> global_field \<Rightarrow>
   global_field \<Rightarrow> global_field \<Rightarrow> global_field \<Rightarrow> global_field" where
  "solve_w_reference ny' nx' h n P rho_up Xi Eta W M \<Psi> =
     (let \<Phi> = fst ((periodic_sweep ny' nx' h n P rho_up (wind_source ny' nx' P Xi Eta) ^^ nat (p_solver_iteration P))
            (first_guess h n W M, \<Psi>))
      in (\<lambda>w k J I. if h - 1 \<le> k \<and> k \<le> n + 1 then \<Phi> w k J I else W w k J I))"

section \<open>The columns of a process and of the domain\<close>

lemma forward_elimination_cong:
  assumes "\<And>k. h \<le> k \<Longrightarrow> k \<le> n \<Longrightarrow> rhs k = rhs' k" and "h \<le> n"
  shows "forward_elimination h n P rhs tmp = forward_elimination h n P rhs' tmp"
  unfolding forward_elimination_def using assms by (intro fold_cong) (auto simp: range_simps)

lemma line_solve_cong:
  assumes "\<And>k. h \<le> k \<Longrightarrow> k \<le> n \<Longrightarrow> rhs k = rhs' k" and "h \<le> n" and "col k = col' k"
  shows "line_solve h n P rho_up rhs tmp col k = line_solve h n P rho_up rhs' tmp col' k"
proof -
  have f: "forward_elimination h n P rhs tmp = forward_elimination h n P rhs' tmp"
    by (rule forward_elimination_cong [OF assms(1,2)])
  note B = backward_substitution_eq [where P = P and rho_up = rho_up and tmp = "forward_elimination h n P rhs' tmp",
      OF assms(2) refl]
  consider "h \<le> k" "k \<le> n" | "k = h - 1" | "k = n + 1" | "k < h - 1 \<or> n + 1 < k" by linarith
  then show ?thesis
    unfolding line_solve_def f
    by cases (use B assms(3) in auto)
qed

definition wind_state_ok :: "run \<Rightarrow> nat \<Rightarrow> wind_state \<Rightarrow> bool" where
  "wind_state_ok R r s \<longleftrightarrow>
     (\<forall>f \<in> {w_field s, W3DNM1 s, w_deep_field s, W3DN_field s}. fits R 3 1 (run_levels R) r f)"

definition source_agrees :: "run \<Rightarrow> global_field \<Rightarrow> nat \<Rightarrow> view \<Rightarrow> bool" where
  "source_agrees R Y r ytem \<longleftrightarrow>
     (\<forall>k j i. run_halo R \<le> k \<and> k \<le> run_levels R - run_halo R - 2 \<and> interior (run_grid R r) j i \<longrightarrow>
        ytem (0, k, j, i) = Y 0 k (global_row R r j) (global_column R r i))"

lemma sweep_agrees:
  assumes R: "run_ok R" "r \<in> run_ranks R" and h: "h = run_halo R" and n: "n = run_levels R - h - 2" "h \<le> n"
    and F: "fits R 3 1 (run_levels R) r cur" "fits R 3 1 (run_levels R) r prv"
    and A: "cross_agrees R \<Phi> r cur" and B: "agrees R \<Psi> r prv 0 0" and Y: "source_agrees R Y r ytem"
  shows "agrees R (fst (periodic_sweep (global_size (dim_y (run_global R))) (global_size (dim_x (run_global R))) h n P rho_up Y
      (\<Phi>, \<Psi>))) r (prv\<lparr>fdata := fused_tridiagonal_solver (run_grid R r) P rho_up ytem (fdata cur) (fdata prv)\<rparr>) 0 0"
proof (rule agrees_interiorI [OF R])
  let ?g = "run_grid R r"
  have z: "get_local_total_points_z ?g = run_levels R" by (simp add: run_levels_def run_total_z [OF R])
  have hh: "h = get_halo_cells ?g" "n = get_local_total_points_z ?g - h - 2"
    using h n by (simp_all add: z run_grid_simps [OF R])
  have pos: "0 \<le> h" using run_okD(5) [OF R(1)] h by simp
  fix k j i assume k: "0 \<le> k" "k < run_levels R" and int: "interior ?g j i"
  note C = cross_cells [OF R A int _ _ _ refl refl refl refl]
  have prv: "fdata prv (0, k, j, i) = \<Psi> 0 k (global_row R r j) (global_column R r i)"
    using agreesD [OF B, of 0 k j i] fits_levels [OF F(2)] k int [unfolded run_interior [OF R]]
    by (simp add: run_global_size [OF R])
  show "fdata (prv\<lparr>fdata := fused_tridiagonal_solver ?g P rho_up ytem (fdata cur) (fdata prv)\<rparr>) (0, k, j, i) =
      fst (periodic_sweep (global_size (dim_y (run_global R))) (global_size (dim_x (run_global R))) h n P rho_up Y (\<Phi>, \<Psi>))
        0 k (global_row R r j) (global_column R r i)"
    unfolding fdata_of tridiagonal_cell [OF int hh] periodic_sweep_def
      prod.case fst_conv
  proof (rule line_solve_cong)
    fix k' assume k': "h \<le> k'" "k' \<le> n"
    then have "0 \<le> k'" "k' < run_levels R" using pos n by simp_all
    note C = C [of k', unfolded fits_levels [OF F(1), THEN conjunct1] fits_levels [OF F(1), THEN conjunct2], OF _ this]
    have "ytem (0, k', j, i) = Y 0 k' (global_row R r j) (global_column R r i)"
      using Y int k' by (simp add: source_agrees_def h n)
    with C show "line_rhs P ytem (fdata cur) j i k' =
        p_WRXMU P * \<Phi> 0 k' (global_row R r j) (global_column R r i) +
        (\<Phi> 0 k' (global_row R r j) ((global_column R r i + 1) mod global_size (dim_x (run_global R))) +
          \<Phi> 0 k' (global_row R r j) ((global_column R r i - 1) mod global_size (dim_x (run_global R)))) * p_rdx2 P +
        (\<Phi> 0 k' ((global_row R r j + 1) mod global_size (dim_y (run_global R))) (global_column R r i) +
          \<Phi> 0 k' ((global_row R r j - 1) mod global_size (dim_y (run_global R))) (global_column R r i)) * p_rdy2 P +
        Y 0 k' (global_row R r j) (global_column R r i)"
      unfolding line_rhs_def by simp
  qed (use n(2) prv in \<open>simp_all add: get_column_def\<close>)
qed (use fits_levels [OF F(2)] in simp_all)

text \<open>What one process holds between two iterations.\<close>

definition iterate_ok :: "run \<Rightarrow> global_field \<Rightarrow> global_field \<times> global_field \<Rightarrow> nat \<Rightarrow> wind_state \<Rightarrow> bool" where
  "iterate_ok R Y \<Phi>\<Psi> r s \<longleftrightarrow>
     wind_state_ok R r s \<and> cross_agrees R (fst \<Phi>\<Psi>) r (w_deep_field s) \<and> agrees R (snd \<Phi>\<Psi>) r (W3DN_field s) 0 0 \<and>
     source_agrees R Y r (YTEM_field s)"

lemma iteration_agrees:
  assumes R: "run_ok R" and D: "delivers deliver" "run_periodic R" and h: "h = run_halo R"
    and n: "n = run_levels R - h - 2" "h \<le> n" and ok: "\<forall>r \<in> run_ranks R. iterate_ok R Y \<Phi>\<Psi> r (st r)"
    and st': "st' = tridiagonal_iteration deliver (run_exchanger R) (run_grid R) P rho_up st" and r: "r \<in> run_ranks R"
  shows "iterate_ok R Y (periodic_sweep (global_size (dim_y (run_global R))) (global_size (dim_x (run_global R))) h n P rho_up Y
      \<Phi>\<Psi>) r (st' r) \<and> w_field (st' r) = w_field (st r)"
proof -
  let ?S = "periodic_sweep (global_size (dim_y (run_global R))) (global_size (dim_x (run_global R))) h n P rho_up Y"
  define swept where "swept r = (case st r of s \<Rightarrow>
            ((W3DN_field s)\<lparr>fdata := fused_tridiagonal_solver (run_grid R r) P rho_up (YTEM_field s)
                (fdata (w_deep_field s)) (fdata (W3DN_field s))\<rparr>, wind_buffers s))" for r
  let ?out = "exchange_face_halos_all deliver (run_exchanger R) 1 swept"
  have F: "fits R 3 1 (run_levels R) r (fst (swept r))" if "r \<in> run_ranks R" for r
    using ok that by (simp add: swept_def fits_data iterate_ok_def wind_state_ok_def)
  have A: "agrees R (fst (?S \<Phi>\<Psi>)) r (fst (swept r)) 0 0" if "r \<in> run_ranks R" for r
    using sweep_agrees [OF R that h n, of "w_deep_field (st r)" "W3DN_field (st r)" "fst \<Phi>\<Psi>" "snd \<Phi>\<Psi>" Y "YTEM_field (st r)" P rho_up]
      ok that by (simp add: swept_def iterate_ok_def wind_state_ok_def)
  note d = run_depth_one [OF R]
  have X: "cross_agrees R (fst (?S \<Phi>\<Psi>)) r (fst (?out r))"
    using exchange_face_halos_all_agrees [OF R D, where st = swept and depth = 1 and nd = 3 and nw = 1 and nz' = "run_levels R"
        and \<Phi> = "fst (?S \<Phi>\<Psi>)" and r = r] F A r d by simp
  have sh: "fits R 3 1 (run_levels R) r (fst (?out r))"
    using fits_round [OF F [OF r]] face_shapes(4) by blast
  have o: "iterate_ok R Y \<Phi>\<Psi> r (st r)" using ok r by simp
  have s': "st' r = (st r)\<lparr>w_deep_field := fst (?out r), W3DN_field := w_deep_field (st r), wind_buffers := snd (?out r)\<rparr>"
    by (simp add: st' tridiagonal_iteration_def Let_def swept_def [abs_def])
  have "agrees R (snd (?S \<Phi>\<Psi>)) r (w_deep_field (st r)) 0 0"
    using o agrees_mono [where ey = 0 and ex = 1 and ey' = 0 and ex' = 0]
    by (auto simp: iterate_ok_def periodic_sweep_def case_prod_beta)
  then show ?thesis
    using o X sh unfolding s' by (simp add: iterate_ok_def wind_state_ok_def)
qed

section \<open>The first guess and the last copy\<close>

definition guess_cell :: "int \<Rightarrow> int \<Rightarrow> int \<Rightarrow> real \<Rightarrow> real \<Rightarrow> real" where
  "guess_cell h n k w m = (if h \<le> k \<and> k \<le> n then 2 * w - m else w)"

definition guess_step :: "int \<Rightarrow> int \<Rightarrow> int \<times> int \<times> int \<Rightarrow> view \<times> view \<times> view \<Rightarrow> view \<times> view \<times> view" where
  "guess_step h n c s = (case c of (k, j, i) \<Rightarrow> case s of (w, m, d) \<Rightarrow>
     let c = (0, k, j, i); v = guess_cell h n k (w c) (m c) in (w(c := v), m(c := w c), d(c := v)))"

lemma guess_loop:
  assumes "distinct cells"
  shows "parallel_for cells (guess_step h n) (w, m, d) =
    (\<lambda>(v, k, j, i). if v = 0 \<and> (k, j, i) \<in> set cells then guess_cell h n k (w (v, k, j, i)) (m (v, k, j, i)) else w (v, k, j, i),
     \<lambda>(v, k, j, i). if v = 0 \<and> (k, j, i) \<in> set cells then w (v, k, j, i) else m (v, k, j, i),
     \<lambda>(v, k, j, i). if v = 0 \<and> (k, j, i) \<in> set cells then guess_cell h n k (w (v, k, j, i)) (m (v, k, j, i)) else d (v, k, j, i))"
  using assms
proof (induction cells arbitrary: w m d)
  case Nil
  show ?case by auto
next
  case (Cons c cells)
  obtain k j i where c: "c = (k, j, i)" by (cases c)
  then have "(k, j, i) \<notin> set cells" "distinct cells" using Cons.prems by auto
  then show ?case
    unfolding c parallel_for_simps guess_step_def prod.case Let_def
    by (simp only: Cons.IH [unfolded guess_step_def Let_def]) (auto simp: fun_eq_iff)
qed

lemma extrapolate_w_cell:
  assumes "extrapolate_w g (w, m, d) = (w', m', d')" and "h = get_halo_cells g"
    and "n = get_local_total_points_z g - h - 2" and "0 \<le> k" "k < get_local_total_points_z g"
    and "0 \<le> j" "j < get_local_total_points_y g" "0 \<le> i" "i < get_local_total_points_x g"
  shows "w' (0, k, j, i) = guess_cell h n k (w (0, k, j, i)) (m (0, k, j, i)) \<and>
    m' (0, k, j, i) = w (0, k, j, i) \<and> d' (0, k, j, i) = guess_cell h n k (w (0, k, j, i)) (m (0, k, j, i))"
proof -
  have "extrapolate_w g = parallel_for (mdrange3 0 0 0 (get_local_total_points_z g) (get_local_total_points_y g)
      (get_local_total_points_x g)) (guess_step h n)"
    unfolding extrapolate_w_def Let_def
    by (rule arg_cong [where f = "parallel_for _"]) (auto simp: fun_eq_iff guess_step_def guess_cell_def Let_def assms(2,3))
  with assms(1) show ?thesis
    by (simp only: guess_loop distinct_mdrange3) (use assms(4-) in \<open>auto simp: range_simps\<close>)
qed

lemma extrapolated_agrees:
  assumes R: "run_ok R" "r \<in> run_ranks R" and h: "h = run_halo R" and n: "n = run_levels R - h - 2"
    and F: "fits R 3 1 (run_levels R) r w0" "fits R 3 1 (run_levels R) r m0" "fits R 3 1 (run_levels R) r d0"
    and A: "agrees R W r w0 1 1" "agrees R M r m0 1 1"
    and e: "extrapolate_w (run_grid R r) (fdata w0, fdata m0, dd) = (w', m', d')"
  shows "agrees R (first_guess h n W M) r (w0\<lparr>fdata := w'\<rparr>) 1 1 \<and> agrees R (first_guess h n W M) r (d0\<lparr>fdata := d'\<rparr>) 1 1"
proof (intro conjI agreesI)
  let ?g = "run_grid R r"
  note hh = h [folded run_grid_simps(1) [OF R]]
  have nn: "n = get_local_total_points_z ?g - h - 2" by (simp add: n run_levels_def run_total_z [OF R])
  { fix w k j i :: int
    assume a: "0 \<le> w" "w < 1" "0 \<le> k" "k < run_levels R"
      "run_halo R - 1 \<le> j" "j < run_halo R + local_physical_size (dim_y (run_grid R r)) + 1"
      "run_halo R - 1 \<le> i" "i < run_halo R + local_physical_size (dim_x (run_grid R r)) + 1"
    then have [simp]: "w = 0" by simp
    have k: "k < get_local_total_points_z ?g" using a by (simp add: run_levels_def run_total_z [OF R])
    note W = agreesD [OF A(1), of w k j i] agreesD [OF A(2), of w k j i]
    have "w' (w, k, j, i) = guess_cell h n k (fdata w0 (w, k, j, i)) (fdata m0 (w, k, j, i)) \<and>
        d' (w, k, j, i) = guess_cell h n k (fdata w0 (w, k, j, i)) (fdata m0 (w, k, j, i))"
      using extrapolate_w_cell [OF e hh nn a(3) k, of j i] near_cells [OF R a(5-8)] by simp
    then have "w' (w, k, j, i) = first_guess h n W M w k
          ((local_physical_start_idx (dim_y ?g) + (j - run_halo R)) mod global_size (dim_y ?g))
          ((local_physical_start_idx (dim_x ?g) + (i - run_halo R)) mod global_size (dim_x ?g)) \<and>
        d' (w, k, j, i) = first_guess h n W M w k
          ((local_physical_start_idx (dim_y ?g) + (j - run_halo R)) mod global_size (dim_y ?g))
          ((local_physical_start_idx (dim_x ?g) + (i - run_halo R)) mod global_size (dim_x ?g))"
      using W a fits_levels [OF F(1)] fits_levels [OF F(2)] by (simp add: guess_cell_def first_guess_def) }
  note cell = this
  fix w k j i
  show "fdata (w0\<lparr>fdata := w'\<rparr>) (w, k, j, i) = first_guess h n W M w k
      ((local_physical_start_idx (dim_y ?g) + (j - run_halo R)) mod global_size (dim_y ?g))
      ((local_physical_start_idx (dim_x ?g) + (i - run_halo R)) mod global_size (dim_x ?g))"
    if "0 \<le> w" "w < ext_w (w0\<lparr>fdata := w'\<rparr>)" "0 \<le> k" "k < ext_z (w0\<lparr>fdata := w'\<rparr>)"
      "run_halo R - 1 \<le> j" "j < run_halo R + local_physical_size (dim_y (run_grid R r)) + 1"
      "run_halo R - 1 \<le> i" "i < run_halo R + local_physical_size (dim_x (run_grid R r)) + 1"
    using cell [of w k j i] that fits_levels [OF F(1)] by simp
  show "fdata (d0\<lparr>fdata := d'\<rparr>) (w, k, j, i) = first_guess h n W M w k
      ((local_physical_start_idx (dim_y ?g) + (j - run_halo R)) mod global_size (dim_y ?g))
      ((local_physical_start_idx (dim_x ?g) + (i - run_halo R)) mod global_size (dim_x ?g))"
    if "0 \<le> w" "w < ext_w (d0\<lparr>fdata := d'\<rparr>)" "0 \<le> k" "k < ext_z (d0\<lparr>fdata := d'\<rparr>)"
      "run_halo R - 1 \<le> j" "j < run_halo R + local_physical_size (dim_y (run_grid R r)) + 1"
      "run_halo R - 1 \<le> i" "i < run_halo R + local_physical_size (dim_x (run_grid R r)) + 1"
    using cell [of w k j i] that fits_levels [OF F(3)] by simp
qed

lemma poisson_source_agrees:
  assumes R: "run_ok R" "r \<in> run_ranks R"
    and F: "fits R 3 1 (run_levels R) r xi" "fits R 3 1 (run_levels R) r eta"
    and A: "cross_agrees R Xi r xi" "cross_agrees R Eta r eta"
  shows "source_agrees R (wind_source (global_size (dim_y (run_global R))) (global_size (dim_x (run_global R))) P Xi Eta) r
    (poisson_source (run_grid R r) P (fdata xi) (fdata eta) ytem)"
  unfolding source_agrees_def
proof (intro allI impI)
  fix k j i assume a: "run_halo R \<le> k \<and> k \<le> run_levels R - run_halo R - 2 \<and> interior (run_grid R r) j i"
  note C = cross_cells [OF R _ a [THEN conjunct2, THEN conjunct2] _ _ _ refl refl refl refl]
  have z: "get_local_total_points_z (run_grid R r) = run_levels R" by (simp add: run_levels_def run_total_z [OF R])
  have l: "0 \<le> k" "k < run_levels R" using a run_depth_one [OF R(1)] by auto
  note X = C [OF A(1), of k] C [OF A(2), of k]
  show "poisson_source (run_grid R r) P (fdata xi) (fdata eta) ytem (0, k, j, i) =
      wind_source (global_size (dim_y (run_global R))) (global_size (dim_x (run_global R))) P Xi Eta 0 k
        (global_row R r j) (global_column R r i)"
    using a l fits_levels [OF F(1)] fits_levels [OF F(2)]
    by (simp add: poisson_source_cell run_grid_simps(1) [OF R] z wind_source_def X)
qed

section \<open>Independence of the decomposition\<close>

lemma begin_solve_w_agrees:
  assumes R: "run_ok R" "r \<in> run_ranks R" and h: "h = run_halo R" and n: "n = run_levels R - h - 2"
    and S: "wind_state_ok R r s" and A: "agrees R W r (w_field s) 1 1" "agrees R M r (W3DNM1 s) 1 1" "agrees R \<Psi> r (W3DN_field s) 0 0"
    and X: "fits R 3 1 (run_levels R) r xi" "fits R 3 1 (run_levels R) r eta" "cross_agrees R Xi r xi" "cross_agrees R Eta r eta"
    and s': "s' = begin_solve_w (run_grid R r) P (fdata xi) (fdata eta) s"
  shows "iterate_ok R (wind_source (global_size (dim_y (run_global R))) (global_size (dim_x (run_global R))) P Xi Eta)
      (first_guess h n W M, \<Psi>) r s' \<and> agrees R (first_guess h n W M) r (w_field s') 0 0"
proof -
  obtain w m d where e: "extrapolate_w (run_grid R r) (fdata (w_field s), fdata (W3DNM1 s), fdata (w_deep_field s)) = (w, m, d)"
    by (metis prod_cases3)
  have F: "fits R 3 1 (run_levels R) r (w_field s)" "fits R 3 1 (run_levels R) r (W3DNM1 s)"
    "fits R 3 1 (run_levels R) r (w_deep_field s)" "fits R 3 1 (run_levels R) r (W3DN_field s)"
    using S by (simp_all add: wind_state_ok_def)
  note E = extrapolated_agrees [OF R h n F(1-3) A(1,2) e]
  note Y = poisson_source_agrees [OF R X, of P "YTEM_field s"]
  have "cross_agrees R (first_guess h n W M) r ((w_deep_field s)\<lparr>fdata := d\<rparr>)"
    "agrees R (first_guess h n W M) r ((w_field s)\<lparr>fdata := w\<rparr>) 0 0"
    using E agrees_mono by fastforce+
  then show ?thesis
    using Y A(3) F
    by (simp add: s' begin_solve_w_def e iterate_ok_def wind_state_ok_def fits_data)
qed

lemma iterations_agree:
  assumes R: "run_ok R" and D: "delivers deliver" "run_periodic R" and h: "h = run_halo R"
    and n: "n = run_levels R - h - 2" "h \<le> n" and ok: "\<forall>r \<in> run_ranks R. iterate_ok R Y \<Phi>\<Psi> r (st r)"
  shows "\<forall>r \<in> run_ranks R.
    iterate_ok R Y ((periodic_sweep (global_size (dim_y (run_global R))) (global_size (dim_x (run_global R))) h n P rho_up Y ^^ m) \<Phi>\<Psi>) r
      ((tridiagonal_iteration deliver (run_exchanger R) (run_grid R) P rho_up ^^ m) st r) \<and>
    w_field ((tridiagonal_iteration deliver (run_exchanger R) (run_grid R) P rho_up ^^ m) st r) = w_field (st r)"
proof (induction m)
  case 0
  show ?case using ok by simp
next
  case (Suc m)
  show ?case
  proof
    fix r assume r: "r \<in> run_ranks R"
    have ok': "\<forall>r \<in> run_ranks R. iterate_ok R Y
        ((periodic_sweep (global_size (dim_y (run_global R))) (global_size (dim_x (run_global R))) h n P rho_up Y ^^ m) \<Phi>\<Psi>) r
        ((tridiagonal_iteration deliver (run_exchanger R) (run_grid R) P rho_up ^^ m) st r)"
      using Suc by simp
    from iteration_agrees [OF R D h n ok' refl r] Suc r
    show "iterate_ok R Y ((periodic_sweep (global_size (dim_y (run_global R))) (global_size (dim_x (run_global R))) h n P rho_up Y ^^ Suc m) \<Phi>\<Psi>) r
        ((tridiagonal_iteration deliver (run_exchanger R) (run_grid R) P rho_up ^^ Suc m) st r) \<and>
      w_field ((tridiagonal_iteration deliver (run_exchanger R) (run_grid R) P rho_up ^^ Suc m) st r) = w_field (st r)"
      unfolding funpow.simps comp_apply by simp
  qed
qed

text \<open>C5. Wind solver on many processes: the source, the extrapolated first guess, any number of tridiagonal
  sweeps with face exchanges between them, and the final copy with its halo exchange compute, on every process and
  in its first halo layer, the vertical wind that one process computes on the whole periodic domain.\<close>

theorem solve_w_ignores_decomposition:
  assumes "run_ok R" and "delivers deliver" and "run_periodic R"
    and "2 \<le> global_size (dim_z (run_global R))"
    and "\<forall>r \<in> run_ranks R. wind_state_ok R r (st r) \<and>
      fits R 3 1 (run_levels R) r (xi r) \<and> fits R 3 1 (run_levels R) r (eta r)"
    and "\<forall>r \<in> run_ranks R. agrees R W r (w_field (st r)) 1 1 \<and> agrees R M r (W3DNM1 (st r)) 1 1 \<and>
      agrees R \<Psi> r (W3DN_field (st r)) 0 0 \<and> cross_agrees R Xi r (xi r) \<and> cross_agrees R Eta r (eta r)"
    and "r \<in> run_ranks R"
    and "w' = w_field (solve_w deliver (run_exchanger R) (run_grid R) P rho_up (\<lambda>r. fdata (xi r)) (\<lambda>r. fdata (eta r)) st r)"
  shows "fits R 3 1 (run_levels R) r w' \<and>
    agrees R (solve_w_reference (global_size (dim_y (run_global R))) (global_size (dim_x (run_global R)))
      (run_halo R) (run_levels R - run_halo R - 2) P rho_up Xi Eta W M \<Psi>) r w' 1 1"
proof -
  let ?ny = "global_size (dim_y (run_global R))" and ?nx = "global_size (dim_x (run_global R))"
  let ?h = "run_halo R" and ?n = "run_levels R - run_halo R - 2" and ?m = "nat (p_solver_iteration P)"
  let ?Y = "wind_source ?ny ?nx P Xi Eta" and ?G = "first_guess ?h ?n W M"
  let ?\<Phi> = "(periodic_sweep ?ny ?nx ?h ?n P rho_up ?Y ^^ ?m) (?G, \<Psi>)"
  define st0 where "st0 r = begin_solve_w (run_grid R r) P (fdata (xi r)) (fdata (eta r)) (st r)" for r
  define st1 where "st1 = (tridiagonal_iteration deliver (run_exchanger R) (run_grid R) P rho_up ^^ ?m) st0"
  define sc where "sc r = (w_field (st1 r))\<lparr>fdata := scatter_w (run_grid R r) (fdata (w_deep_field (st1 r))) (fdata (w_field (st1 r)))\<rparr>" for r
  have hn: "?h \<le> ?n" using assms(4) by (simp add: run_levels_def)
  have B: "iterate_ok R ?Y (?G, \<Psi>) r (st0 r) \<and> agrees R ?G r (w_field (st0 r)) 0 0" if "r \<in> run_ranks R" for r
    by (rule begin_solve_w_agrees [OF assms(1) that refl refl]) (use assms(5,6) that in \<open>simp_all add: st0_def\<close>)
  have I: "iterate_ok R ?Y ?\<Phi> r (st1 r) \<and> w_field (st1 r) = w_field (st0 r)" if "r \<in> run_ranks R" for r
    using iterations_agree [where st = st0 and P = P and rho_up = rho_up and m = ?m and Y = ?Y and \<Phi>\<Psi> = "(?G, \<Psi>)",
        OF assms(1-3) refl refl hn] B that by (simp add: st1_def)
  have ref: "solve_w_reference ?ny ?nx ?h ?n P rho_up Xi Eta W M \<Psi> =
      (\<lambda>w k J I. if ?h - 1 \<le> k \<and> k \<le> ?n + 1 then fst ?\<Phi> w k J I else W w k J I)"
    by (simp add: solve_w_reference_def Let_def)
  have F: "fits R 3 1 (run_levels R) r (sc r)" if "r \<in> run_ranks R" for r
    unfolding sc_def by (rule fits_data) (use I [OF that, THEN conjunct1] in \<open>simp add: iterate_ok_def wind_state_ok_def\<close>)
  have A: "agrees R (solve_w_reference ?ny ?nx ?h ?n P rho_up Xi Eta W M \<Psi>) r (sc r) 0 0" if r: "r \<in> run_ranks R" for r
  proof (rule agrees_interiorI [OF assms(1) r])
    note f = fits_levels [OF F [OF r]]
    show "ext_w (sc r) = 1" "ext_z (sc r) = run_levels R" using f by simp_all
    fix k j i assume k: "0 \<le> k" "k < run_levels R" and int: "interior (run_grid R r) j i"
    have z: "get_local_total_points_z (run_grid R r) = run_levels R" by (simp add: run_levels_def run_total_z [OF assms(1) r])
    have l: "fits R 3 1 (run_levels R) r (w_deep_field (st1 r))" "fits R 3 1 (run_levels R) r (w_field (st0 r))"
      using I [OF r, THEN conjunct1] B [OF r] by (simp_all add: iterate_ok_def wind_state_ok_def)
    have "fdata (w_deep_field (st1 r)) (0, k, j, i) = fst ?\<Phi> 0 k (global_row R r j) (global_column R r i)"
      by (rule cross_cells(1) [OF assms(1) r _ int _ k(1) _ refl refl refl refl])
         (use I [OF r] k(2) fits_levels [OF l(1)] in \<open>simp_all add: iterate_ok_def\<close>)
    moreover have "fdata (w_field (st0 r)) (0, k, j, i) = ?G 0 k (global_row R r j) (global_column R r i)"
      using agreesD [OF B [OF r, THEN conjunct2], of 0 k j i] k fits_levels [OF l(2)] int [unfolded run_interior [OF assms(1) r]]
      by (simp add: run_global_size [OF assms(1) r])
    ultimately show "fdata (sc r) (0, k, j, i) =
        solve_w_reference ?ny ?nx ?h ?n P rho_up Xi Eta W M \<Psi> 0 k (global_row R r j) (global_column R r i)"
      using int I [OF r, THEN conjunct2]
      by (simp add: ref sc_def scatter_w_cell run_grid_simps(1) [OF assms(1) r] z first_guess_def)
  qed
  note d = run_depth_one [OF assms(1)]
  have w': "w' = fst (exchange_halos_all deliver (run_exchanger R) 1 (\<lambda>r. (sc r, wind_buffers (st1 r))) r)"
    by (simp add: assms(8) solve_w_def Let_def st1_def [unfolded st0_def [abs_def]] sc_def)
  have "same_shape (sc r) w'"
    using exchange_halos_all_shape [where st = "\<lambda>r. (sc r, wind_buffers (st1 r))" and r = r] by (simp add: w')
  then have "fits R 3 1 (run_levels R) r w'" by (rule fits_round [OF F [OF assms(7)]])
  then show ?thesis
    using exchange_halos_all_agrees [OF assms(1-3), where st = "\<lambda>r. (sc r, wind_buffers (st1 r))" and depth = 1 and nd = 3
        and nw = 1 and nz' = "run_levels R" and r = r] F A assms(7) d by (simp add: w')
qed


definition sample_wind :: "nat \<Rightarrow> wind_state" where
  "sample_wind r =
     \<lparr>w_field = sample_global_field (\<lambda>w k J I. of_int (k * J)) r, W3DNM1 = sample_global_field (\<lambda>w k J I. of_int I) r,
      w_deep_field = sample_global_field (\<lambda>w k J I. 0) r, W3DN_field = sample_global_field (\<lambda>w k J I. 0) r,
      YTEM_field = (\<lambda>_. 0), wind_buffers = allocate_buffers (run_exchanger sample_run r)\<rparr>"

text \<open>The halo cell west of process 0 holds the vertical wind of column 6 of the domain.\<close>

lemma solve_w_ignores_decomposition_witness:
  "fdata (w_field (solve_w first_match (run_exchanger sample_run) (run_grid sample_run) sample_parameters (\<lambda>_. 1)
      (\<lambda>r. fdata (sample_global_field (\<lambda>w k J I. of_int J) r)) (\<lambda>r. fdata (sample_global_field (\<lambda>w k J I. of_int I) r)) sample_wind 0))
      (0, 3, 2, 1) =
    solve_w_reference 5 7 2 4 sample_parameters (\<lambda>_. 1) (\<lambda>w k J I. of_int J) (\<lambda>w k J I. of_int I)
      (\<lambda>w k J I. of_int (k * J)) (\<lambda>w k J I. of_int I) (\<lambda>w k J I. 0) 0 3 0 6"
proof -
  let ?s = "w_field (solve_w first_match (run_exchanger sample_run) (run_grid sample_run) sample_parameters (\<lambda>_. 1)
      (\<lambda>r. fdata (sample_global_field (\<lambda>w k J I. of_int J) r)) (\<lambda>r. fdata (sample_global_field (\<lambda>w k J I. of_int I) r)) sample_wind 0)"
  have r: "0 \<in> run_ranks sample_run" by (simp add: sample_run_def)
  have H: "run_halo sample_run = 2" "run_levels sample_run = 8" "global_size (dim_y (run_global sample_run)) = 5"
    "global_size (dim_x (run_global sample_run)) = 7" "global_size (dim_z (run_global sample_run)) = 4"
    by (simp_all add: run_halo_def run_levels_def sample_run_def sample_grid_def initial_dimension_def)
  have P: "run_periodic sample_run" by (simp add: run_periodic_def sample_run_def)
  have A: "fits sample_run 3 1 8 0 ?s \<and> agrees sample_run (solve_w_reference 5 7 2 4 sample_parameters (\<lambda>_. 1) (\<lambda>w k J I. of_int J) (\<lambda>w k J I. of_int I)
      (\<lambda>w k J I. of_int (k * J)) (\<lambda>w k J I. of_int I) (\<lambda>w k J I. 0)) 0 ?s 1 1"
    using solve_w_ignores_decomposition [where xi = "sample_global_field (\<lambda>w k J I. of_int J)" and eta = "sample_global_field (\<lambda>w k J I. of_int I)"
        and st = sample_wind and P = sample_parameters and rho_up = "\<lambda>_. 1" and \<Psi> = "\<lambda>w k J I. 0" and r = 0
        and W = "\<lambda>w k J I. of_int (k * J)" and M = "\<lambda>w k J I. of_int I" and Xi = "\<lambda>w k J I. of_int J"
        and Eta = "\<lambda>w k J I. of_int I", OF sample_run_ok first_match_delivers P]
    by (simp add: H r sample_global_field_ok sample_global_field_ok(1) [unfolded H(2)] wind_state_ok_def sample_wind_def)
  have g: "dim_y (run_grid sample_run 0) = split_axis 2 0 (initial_dimension 5 (Fin 100) 2)"
    "dim_x (run_grid sample_run 0) = split_axis 2 0 (initial_dimension 7 (Fin 100) 2)"
    using run_axes [OF sample_run_ok r]
    by (simp_all add: sample_run_def sample_coords_def sample_grid_def)
  show ?thesis
    using agreesD [OF A [THEN conjunct2], of 0 3 2 1] fits_levels [OF A [THEN conjunct1]] H g by (simp add: axis_simps split_nonneg initial_dimension_def)
qed

end
