(* ===== verification/Terrain.thy ===== *)
theory Terrain
  imports Wind_Recovery Run_Fields
begin

text \<open>
The terrain of a Cartesian run (\<open>Initializer::initialize_topo\<close> in \<^verbatim>\<open>src/core/initialization/Initializer.cpp\<close>)
  on all processes, the corrected masks of curvilinear grids (\<open>finalize_mapped_terrain_masks\<close>), and the wind and
  vorticity that the wind solver reads over terrain (\<open>WindSolver::prepare_cartesian_wind_recovery_inputs\<close>).
\<close>

section \<open>Masks\<close>

text \<open>\<open>assign_ITYPE\<close>, first kernel: the levels from 0 up to the terrain index of a column are solid.\<close>

definition assign_itype :: "grid \<Rightarrow> view \<Rightarrow> view \<times> view \<times> view \<Rightarrow> view \<times> view \<times> view" where
  "assign_itype g topo =
     parallel_for (physical_plane g) (\<lambda>(j, i) s.
       if topo (0, 0, j, i) \<noteq> 0 then
         fold (\<lambda>k (u, v, w). (u((0, k, j, i) := 0), v((0, k, j, i) := 0), w((0, k, j, i) := 0)))
           (range1 0 (\<lfloor>topo (0, 0, j, i)\<rfloor> + 1)) s
       else s)"

text \<open>Second kernel: a solid cell closes its west and its south face.\<close>

definition close_lower_faces :: "grid \<Rightarrow> view \<Rightarrow> view \<times> view \<Rightarrow> view \<times> view" where
  "close_lower_faces g w =
     (let h = get_halo_cells g in
      parallel_for (mdrange3 0 h h (get_local_total_points_z g - h) (get_local_total_points_y g - h) (get_local_total_points_x g - h))
        (\<lambda>(k, j, i) (u, v). if w (0, k, j, i) = 0 then (u((0, k, j, i - 1) := 0), v((0, k, j - 1, i) := 0)) else (u, v)))"

definition assign_topou_topov :: "grid \<Rightarrow> view \<Rightarrow> view \<times> view \<Rightarrow> view \<times> view" where
  "assign_topou_topov g topo =
     parallel_for (physical_plane g) (\<lambda>(j, i) (tu, tv).
       (if topo (0, 0, j, i + 1) - topo (0, 0, j, i) > 0 then tu((0, 0, j, i) := topo (0, 0, j, i + 1)) else tu,
        if topo (0, 0, j + 1, i) - topo (0, 0, j, i) > 0 then tv((0, 0, j, i) := topo (0, 0, j + 1, i)) else tv))"

definition modify_topo :: "grid \<Rightarrow> view \<Rightarrow> view" where
  "modify_topo g =
     parallel_for (physical_plane g) (\<lambda>(j, i) t.
       if t (0, 0, j, i) = 0 then t((0, 0, j, i) := of_int (get_halo_cells g - 1)) else t)"

definition find_max_topo :: "grid \<Rightarrow> view \<Rightarrow> real" where
  "find_max_topo g topo = Max (set (map (\<lambda>(j, i). topo (0, 0, j, i)) (physical_plane g)))"

definition int_of_real :: "real \<Rightarrow> int" where
  "int_of_real x = (if 0 \<le> x then \<lfloor>x\<rfloor> else \<lceil>x\<rceil>)"

record terrain_state =
  topo_field :: "real field"
  itypeu_field :: "real field"
  itypev_field :: "real field"
  itypew_field :: "real field"
  topou :: view
  topov :: view
  terrain_buffers :: "real halo_buffers"

definition begin_masks :: "grid \<Rightarrow> terrain_state \<Rightarrow> terrain_state" where
  "begin_masks g s =
     (case assign_itype g (fdata (topo_field s)) (\<lambda>_. 1, \<lambda>_. 1, \<lambda>_. 1) of (u, v, w) \<Rightarrow>
        s\<lparr>itypeu_field := (itypeu_field s)\<lparr>fdata := u\<rparr>, itypev_field := (itypev_field s)\<lparr>fdata := v\<rparr>, itypew_field := (itypew_field s)\<lparr>fdata := w\<rparr>\<rparr>)"

definition exchange_terrain ::
  "(terrain_state \<Rightarrow> real field) \<Rightarrow> (real field \<Rightarrow> terrain_state \<Rightarrow> terrain_state) \<Rightarrow> real delivery \<Rightarrow> (nat \<Rightarrow> exchanger) \<Rightarrow>
   (nat \<Rightarrow> terrain_state) \<Rightarrow> nat \<Rightarrow> terrain_state" where
  "exchange_terrain get put deliver ex st =
     (let out = exchange_halos_all deliver ex (- 1) (\<lambda>r. (get (st r), terrain_buffers (st r)))
      in (\<lambda>r. put (fst (out r)) ((st r)\<lparr>terrain_buffers := snd (out r)\<rparr>)))"

definition exchange_itypew :: "real delivery \<Rightarrow> (nat \<Rightarrow> exchanger) \<Rightarrow> (nat \<Rightarrow> terrain_state) \<Rightarrow> nat \<Rightarrow> terrain_state" where
  "exchange_itypew = exchange_terrain itypew_field (\<lambda>f. itypew_field_update (\<lambda>_. f))"

definition exchange_itypeu :: "real delivery \<Rightarrow> (nat \<Rightarrow> exchanger) \<Rightarrow> (nat \<Rightarrow> terrain_state) \<Rightarrow> nat \<Rightarrow> terrain_state" where
  "exchange_itypeu = exchange_terrain itypeu_field (\<lambda>f. itypeu_field_update (\<lambda>_. f))"

definition exchange_itypev :: "real delivery \<Rightarrow> (nat \<Rightarrow> exchanger) \<Rightarrow> (nat \<Rightarrow> terrain_state) \<Rightarrow> nat \<Rightarrow> terrain_state" where
  "exchange_itypev = exchange_terrain itypev_field (\<lambda>f. itypev_field_update (\<lambda>_. f))"

definition close_faces :: "grid \<Rightarrow> terrain_state \<Rightarrow> terrain_state" where
  "close_faces g s =
     (case close_lower_faces g (fdata (itypew_field s)) (fdata (itypeu_field s), fdata (itypev_field s)) of (u, v) \<Rightarrow>
        s\<lparr>itypeu_field := (itypeu_field s)\<lparr>fdata := u\<rparr>, itypev_field := (itypev_field s)\<lparr>fdata := v\<rparr>\<rparr>)"

definition finish_topo :: "grid \<Rightarrow> terrain_state \<Rightarrow> terrain_state" where
  "finish_topo g s =
     (case assign_topou_topov g (fdata (topo_field s)) (topou s, topov s) of (tu, tv) \<Rightarrow>
        s\<lparr>topou := tu, topov := tv, topo_field := (topo_field s)\<lparr>fdata := modify_topo g (fdata (topo_field s))\<rparr>\<rparr>)"

text \<open>\<open>initialize_topo\<close> on all processes; \<open>MPI_Allreduce\<close> returns the maximum over the processes.\<close>

definition initialize_topo ::
  "nat set \<Rightarrow> real delivery \<Rightarrow> (nat \<Rightarrow> exchanger) \<Rightarrow> (nat \<Rightarrow> grid) \<Rightarrow> (nat \<Rightarrow> terrain_state) \<Rightarrow>
   (nat \<Rightarrow> int) \<times> (nat \<Rightarrow> terrain_state)" where
  "initialize_topo ranks deliver ex g st =
     (let maxtopo_h = Max ((\<lambda>r. find_max_topo (g r) (fdata (topo_field (st r)))) ` ranks);
          st1 = exchange_itypew deliver ex (\<lambda>r. begin_masks (g r) (st r));
          st2 = exchange_itypeu deliver ex (\<lambda>r. close_faces (g r) (st1 r));
          st3 = exchange_itypev deliver ex st2
      in (\<lambda>r. int_of_real (maxtopo_h + of_int (get_halo_cells (g r))), \<lambda>r. finish_topo (g r) (st3 r)))"

text \<open>\<open>finalize_mapped_terrain_masks\<close> on a curvilinear grid without a wall in \<open>q2\<close>.\<close>

definition owned_face_masks :: "grid \<Rightarrow> view \<Rightarrow> view \<times> view \<Rightarrow> view \<times> view" where
  "owned_face_masks g w =
     (let h = get_halo_cells g in
      parallel_for (mdrange3 0 h h (get_local_total_points_z g) (get_local_total_points_y g - h) (get_local_total_points_x g - h))
        (\<lambda>(k, j, i) (u, v).
          (u((0, k, j, i) := w (0, k, j, i) * w (0, k, j, i + 1)), v((0, k, j, i) := w (0, k, j, i) * w (0, k, j + 1, i)))))"

definition gather_faces :: "grid \<Rightarrow> terrain_state \<Rightarrow> terrain_state" where
  "gather_faces g s =
     (case owned_face_masks g (fdata (itypew_field s)) (fdata (itypeu_field s), fdata (itypev_field s)) of (u, v) \<Rightarrow>
        s\<lparr>itypeu_field := (itypeu_field s)\<lparr>fdata := u\<rparr>, itypev_field := (itypev_field s)\<lparr>fdata := v\<rparr>\<rparr>)"

definition finalize_mapped_terrain_masks ::
  "real delivery \<Rightarrow> (nat \<Rightarrow> exchanger) \<Rightarrow> (nat \<Rightarrow> grid) \<Rightarrow> (nat \<Rightarrow> terrain_state) \<Rightarrow> nat \<Rightarrow> terrain_state" where
  "finalize_mapped_terrain_masks deliver ex g st =
     (let st1 = exchange_itypew deliver ex st;
          st2 = exchange_terrain topo_field (\<lambda>f. topo_field_update (\<lambda>_. f)) deliver ex (\<lambda>r. gather_faces (g r) (st1 r))
      in exchange_itypew deliver ex (exchange_itypev deliver ex (exchange_itypeu deliver ex st2)))"

section \<open>Closed forms\<close>

definition solid :: "view \<Rightarrow> int \<Rightarrow> int \<Rightarrow> int \<Rightarrow> bool" where
  "solid topo k j i \<longleftrightarrow> topo (0, 0, j, i) \<noteq> 0 \<and> 0 \<le> k \<and> of_int k \<le> topo (0, 0, j, i)"

definition close_where :: "(int \<Rightarrow> int \<Rightarrow> int \<Rightarrow> bool) \<Rightarrow> view \<Rightarrow> view" where
  "close_where Q d = (\<lambda>(a, k, j, i). if a = 0 \<and> Q k j i then 0 else d (a, k, j, i))"

lemma close_levels:
  "fold (\<lambda>k (u, v, w). (u((0, k, j, i) := 0), v((0, k, j, i) := 0), w((0, k, j, i) := 0))) ks (u, v, w) =
    (let Q = (\<lambda>k j' i'. j' = j \<and> i' = i \<and> k \<in> set ks) in (close_where Q u, close_where Q v, close_where Q w))"
  by (induction ks arbitrary: u v w) (auto simp: close_where_def fun_eq_iff Let_def)

lemma solid_levels:
  "topo (0, 0, j, i) \<noteq> 0 \<Longrightarrow> k \<in> set (range1 0 (\<lfloor>topo (0, 0, j, i)\<rfloor> + 1)) \<longleftrightarrow> solid topo k j i"
  by (auto simp: range_simps solid_def le_floor_iff)

lemma assign_itype_loop:
  "parallel_for columns (\<lambda>(j, i) s.
       if topo (0, 0, j, i) \<noteq> 0 then
         fold (\<lambda>k (u, v, w). (u((0, k, j, i) := 0), v((0, k, j, i) := 0), w((0, k, j, i) := 0)))
           (range1 0 (\<lfloor>topo (0, 0, j, i)\<rfloor> + 1)) s
       else s) (u, v, w) =
    (let Q = (\<lambda>k j i. (j, i) \<in> set columns \<and> solid topo k j i) in (close_where Q u, close_where Q v, close_where Q w))"
proof (induction columns arbitrary: u v w)
  case Nil
  show ?case by (simp add: close_where_def fun_eq_iff)
next
  case (Cons c columns)
  obtain j i where c: "c = (j, i)" by (cases c)
  let ?step = "if topo (0, 0, j, i) \<noteq> 0 then
         fold (\<lambda>k (u, v, w). (u((0, k, j, i) := 0), v((0, k, j, i) := 0), w((0, k, j, i) := 0)))
           (range1 0 (\<lfloor>topo (0, 0, j, i)\<rfloor> + 1)) (u, v, w) else (u, v, w)"
  let ?Q = "\<lambda>k j' i'. j' = j \<and> i' = i \<and> solid topo k j i"
  have step: "?step = (close_where ?Q u, close_where ?Q v, close_where ?Q w)"
  proof (cases "topo (0, 0, j, i) = 0")
    case True
    then show ?thesis by (simp add: close_where_def solid_def fun_eq_iff)
  next
    case False
    then show ?thesis using solid_levels [of topo j i] by (simp only: close_levels Let_def) simp
  qed
  show ?case
    unfolding c parallel_for_simps prod.case step Cons.IH Let_def
    by (auto simp: close_where_def fun_eq_iff)
qed

lemma assign_itype_eq:
  "assign_itype g topo (u, v, w) =
    (let Q = (\<lambda>k j i. interior g j i \<and> solid topo k j i) in (close_where Q u, close_where Q v, close_where Q w))"
  unfolding assign_itype_def assign_itype_loop in_physical_plane ..

lemma close_lower_faces_eq:
  "close_lower_faces g w (u, v) =
    (let open_levels = (\<lambda>k. 0 \<le> k \<and> k < get_local_total_points_z g - get_halo_cells g) in
     (close_where (\<lambda>k j i. open_levels k \<and> interior g j (i + 1) \<and> w (0, k, j, i + 1) = 0) u,
      close_where (\<lambda>k j i. open_levels k \<and> interior g (j + 1) i \<and> w (0, k, j + 1, i) = 0) v))"
proof -
  have "parallel_for cells (\<lambda>(k, j, i) (u, v). if w (0, k, j, i) = 0 then (u((0, k, j, i - 1) := 0), v((0, k, j - 1, i) := 0)) else (u, v)) (u, v) =
      (close_where (\<lambda>k j i. (k, j, i + 1) \<in> set cells \<and> w (0, k, j, i + 1) = 0) u,
       close_where (\<lambda>k j i. (k, j + 1, i) \<in> set cells \<and> w (0, k, j + 1, i) = 0) v)" for cells
  proof (induction cells arbitrary: u v)
    case Nil
    show ?case by (simp add: close_where_def fun_eq_iff)
  next
    case (Cons c cells)
    obtain k j i where c: "c = (k, j, i)" by (cases c)
    show ?case
    proof (cases "w (0, k, j, i) = 0")
      case True
      then show ?thesis unfolding c parallel_for_simps prod.case if_P [OF True] Cons.IH
        by (auto simp: close_where_def fun_eq_iff)
    next
      case False
      then show ?thesis unfolding c parallel_for_simps prod.case if_not_P [OF False] Cons.IH
        by (auto simp: close_where_def fun_eq_iff)
    qed
  qed
  then show ?thesis
    by (simp add: close_lower_faces_def Let_def range_simps interior_def conj_ac)
qed

section \<open>The masks of a run\<close>

definition terrain_ok :: "run \<Rightarrow> nat \<Rightarrow> terrain_state \<Rightarrow> bool" where
  "terrain_ok R r s \<longleftrightarrow>
     (\<forall>f \<in> {itypeu_field s, itypev_field s, itypew_field s}. fits R 3 1 (run_levels R) r f) \<and> fits R 2 1 1 r (topo_field s)"

lemma depth_all: "run_ok R \<Longrightarrow> run_depth R (- 1) = run_halo R \<and> 0 < run_halo R"
  using run_okD(5) [of R] by (simp add: run_depth_def)

lemma exchange_field:
  assumes R: "run_ok R" "delivers deliver" "run_periodic R" and F: "\<forall>r \<in> run_ranks R. fits R nd 1 nz' r (fst (st r))"
    and r: "r \<in> run_ranks R" and f': "f' = fst (exchange_halos_all deliver (run_exchanger R) (- 1) st r)"
  shows "fits R nd 1 nz' r f'"
    and "interior (run_grid R r) j i \<Longrightarrow> 0 \<le> k \<Longrightarrow> k < nz' \<Longrightarrow> fdata f' (0, k, j, i) = fdata (fst (st r)) (0, k, j, i)"
proof -
  note d = depth_all [OF R(1)]
  show "fits R nd 1 nz' r f'"
    using fits_round [OF F [rule_format, OF r]] exchange_halos_all_shape unfolding f' by blast
  show "fdata f' (0, k, j, i) = fdata (fst (st r)) (0, k, j, i)" if "interior (run_grid R r) j i" "0 \<le> k" "k < nz'"
    unfolding f' using exchange_keeps_owned [OF R F _ _ r that(1) _ _ that(2,3), of "- 1" 0] d by simp
qed

lemma begin_masks_fields:
  assumes "terrain_ok R r s"
  shows "terrain_ok R r (begin_masks g s)" and "topo_field (begin_masks g s) = topo_field s"
    and "fdata (itypeu_field (begin_masks g s)) (0, k, j, i) = (if interior g j i \<and> solid (fdata (topo_field s)) k j i then 0 else 1)"
    and "fdata (itypev_field (begin_masks g s)) (0, k, j, i) = (if interior g j i \<and> solid (fdata (topo_field s)) k j i then 0 else 1)"
    and "fdata (itypew_field (begin_masks g s)) (0, k, j, i) = (if interior g j i \<and> solid (fdata (topo_field s)) k j i then 0 else 1)"
  using assms by (simp_all add: begin_masks_def assign_itype_eq Let_def close_where_def terrain_ok_def fits_data)

lemma exchange_terrain_cases:
  assumes R: "run_ok R" "delivers deliver" "run_periodic R" and T: "\<forall>r \<in> run_ranks R. fits R nd 1 nz' r (get (st r))"
    and r: "r \<in> run_ranks R"
  obtains f' b where "exchange_terrain get put deliver (run_exchanger R) st r = put f' ((st r)\<lparr>terrain_buffers := b\<rparr>)"
    and "fits R nd 1 nz' r f'"
    and "\<forall>k j i. interior (run_grid R r) j i \<and> 0 \<le> k \<and> k < nz' \<longrightarrow> fdata f' (0, k, j, i) = fdata (get (st r)) (0, k, j, i)"
proof (rule that)
  let ?out = "exchange_halos_all deliver (run_exchanger R) (- 1) (\<lambda>r. (get (st r), terrain_buffers (st r)))"
  have F: "\<forall>r \<in> run_ranks R. fits R nd 1 nz' r (fst (get (st r), terrain_buffers (st r)))" using T by simp
  show "exchange_terrain get put deliver (run_exchanger R) st r = put (fst (?out r)) ((st r)\<lparr>terrain_buffers := snd (?out r)\<rparr>)"
    by (simp add: exchange_terrain_def Let_def)
  show "fits R nd 1 nz' r (fst (?out r))" by (rule exchange_field(1) [OF R F r refl])
  show "\<forall>k j i. interior (run_grid R r) j i \<and> 0 \<le> k \<and> k < nz' \<longrightarrow> fdata (fst (?out r)) (0, k, j, i) = fdata (get (st r)) (0, k, j, i)"
    using exchange_field(2) [OF R F r refl] by simp
qed

lemma exchange_itypew_fields:
  assumes R: "run_ok R" "delivers deliver" "run_periodic R" and T: "\<forall>r \<in> run_ranks R. terrain_ok R r (st r)"
    and r: "r \<in> run_ranks R" and st': "st' = exchange_itypew deliver (run_exchanger R) st"
  shows "terrain_ok R r (st' r)" and "topo_field (st' r) = topo_field (st r)"
    and "itypeu_field (st' r) = itypeu_field (st r)" and "itypev_field (st' r) = itypev_field (st r)"
    and "interior (run_grid R r) j i \<Longrightarrow> 0 \<le> k \<Longrightarrow> k < run_levels R \<Longrightarrow>
      fdata (itypew_field (st' r)) (0, k, j, i) = fdata (itypew_field (st r)) (0, k, j, i)"
proof -
  have "\<forall>r \<in> run_ranks R. fits R 3 1 (run_levels R) r (itypew_field (st r))" using T by (simp add: terrain_ok_def)
  note e = exchange_terrain_cases [OF R this r, where put = "\<lambda>f. itypew_field_update (\<lambda>_. f)"]
  show "terrain_ok R r (st' r)" "topo_field (st' r) = topo_field (st r)"
    "itypeu_field (st' r) = itypeu_field (st r)" "itypev_field (st' r) = itypev_field (st r)"
    "interior (run_grid R r) j i \<Longrightarrow> 0 \<le> k \<Longrightarrow> k < run_levels R \<Longrightarrow>
      fdata (itypew_field (st' r)) (0, k, j, i) = fdata (itypew_field (st r)) (0, k, j, i)"
    unfolding st' exchange_itypew_def by (rule e, use T r in \<open>simp add: terrain_ok_def\<close>)+
qed

lemma exchange_itypeu_fields:
  assumes R: "run_ok R" "delivers deliver" "run_periodic R" and T: "\<forall>r \<in> run_ranks R. terrain_ok R r (st r)"
    and r: "r \<in> run_ranks R" and st': "st' = exchange_itypeu deliver (run_exchanger R) st"
  shows "terrain_ok R r (st' r)" and "topo_field (st' r) = topo_field (st r)"
    and "itypew_field (st' r) = itypew_field (st r)" and "itypev_field (st' r) = itypev_field (st r)"
    and "interior (run_grid R r) j i \<Longrightarrow> 0 \<le> k \<Longrightarrow> k < run_levels R \<Longrightarrow>
      fdata (itypeu_field (st' r)) (0, k, j, i) = fdata (itypeu_field (st r)) (0, k, j, i)"
proof -
  have "\<forall>r \<in> run_ranks R. fits R 3 1 (run_levels R) r (itypeu_field (st r))" using T by (simp add: terrain_ok_def)
  note e = exchange_terrain_cases [OF R this r, where put = "\<lambda>f. itypeu_field_update (\<lambda>_. f)"]
  show "terrain_ok R r (st' r)" "topo_field (st' r) = topo_field (st r)"
    "itypew_field (st' r) = itypew_field (st r)" "itypev_field (st' r) = itypev_field (st r)"
    "interior (run_grid R r) j i \<Longrightarrow> 0 \<le> k \<Longrightarrow> k < run_levels R \<Longrightarrow>
      fdata (itypeu_field (st' r)) (0, k, j, i) = fdata (itypeu_field (st r)) (0, k, j, i)"
    unfolding st' exchange_itypeu_def by (rule e, use T r in \<open>simp add: terrain_ok_def\<close>)+
qed

lemma exchange_itypev_fields:
  assumes R: "run_ok R" "delivers deliver" "run_periodic R" and T: "\<forall>r \<in> run_ranks R. terrain_ok R r (st r)"
    and r: "r \<in> run_ranks R" and st': "st' = exchange_itypev deliver (run_exchanger R) st"
  shows "terrain_ok R r (st' r)" and "topo_field (st' r) = topo_field (st r)"
    and "itypew_field (st' r) = itypew_field (st r)" and "itypeu_field (st' r) = itypeu_field (st r)"
    and "interior (run_grid R r) j i \<Longrightarrow> 0 \<le> k \<Longrightarrow> k < run_levels R \<Longrightarrow>
      fdata (itypev_field (st' r)) (0, k, j, i) = fdata (itypev_field (st r)) (0, k, j, i)"
proof -
  have "\<forall>r \<in> run_ranks R. fits R 3 1 (run_levels R) r (itypev_field (st r))" using T by (simp add: terrain_ok_def)
  note e = exchange_terrain_cases [OF R this r, where put = "\<lambda>f. itypev_field_update (\<lambda>_. f)"]
  show "terrain_ok R r (st' r)" "topo_field (st' r) = topo_field (st r)"
    "itypew_field (st' r) = itypew_field (st r)" "itypeu_field (st' r) = itypeu_field (st r)"
    "interior (run_grid R r) j i \<Longrightarrow> 0 \<le> k \<Longrightarrow> k < run_levels R \<Longrightarrow>
      fdata (itypev_field (st' r)) (0, k, j, i) = fdata (itypev_field (st r)) (0, k, j, i)"
    unfolding st' exchange_itypev_def by (rule e, use T r in \<open>simp add: terrain_ok_def\<close>)+
qed

lemma run_ranks_finite:
  assumes "run_ok R"
  shows "finite (run_ranks R)"
proof -
  have "inj_on (run_coords R) (run_ranks R)"
    "run_coords R ` run_ranks R = {0..<fst (run_dims R)} \<times> {0..<snd (run_dims R)}"
    using assms by (simp_all add: run_ok_def Let_def cart_ok_def)
  then show ?thesis by (metis finite_SigmaI finite_atLeastLessThan_int finite_image_iff)
qed

lemma close_faces_fields:
  assumes "terrain_ok R r s" and "h = get_halo_cells g" and "nz' = get_local_total_points_z g"
  shows "terrain_ok R r (close_faces g s)" and "topo_field (close_faces g s) = topo_field s"
    and "itypew_field (close_faces g s) = itypew_field s"
    and "fdata (itypeu_field (close_faces g s)) (0, k, j, i) =
      (if 0 \<le> k \<and> k < nz' - h \<and> interior g j (i + 1) \<and> fdata (itypew_field s) (0, k, j, i + 1) = 0 then 0
       else fdata (itypeu_field s) (0, k, j, i))"
    and "fdata (itypev_field (close_faces g s)) (0, k, j, i) =
      (if 0 \<le> k \<and> k < nz' - h \<and> interior g (j + 1) i \<and> fdata (itypew_field s) (0, k, j + 1, i) = 0 then 0
       else fdata (itypev_field s) (0, k, j, i))"
  using assms by (simp_all add: close_faces_def close_lower_faces_eq Let_def close_where_def terrain_ok_def fits_data)

lemma finish_topo_fields:
  "itypeu_field (finish_topo g s) = itypeu_field s" "itypev_field (finish_topo g s) = itypev_field s" "itypew_field (finish_topo g s) = itypew_field s"
  by (simp_all add: finish_topo_def case_prod_beta)

lemma find_max_topo_ge: "interior g j i \<Longrightarrow> topo (0, 0, j, i) \<le> find_max_topo g topo"
  unfolding find_max_topo_def by (rule Max_ge) (auto simp: image_iff in_physical_plane intro!: bexI [of _ "(j, i)"])

lemma initialize_topo_masks:
  assumes "run_ok R" and "delivers deliver" and "run_periodic R"
    and "\<forall>r \<in> run_ranks R. terrain_ok R r (st r)"
    and "initialize_topo (run_ranks R) deliver (run_exchanger R) (run_grid R) st = (idx, st')"
    and "r \<in> run_ranks R" and "interior (run_grid R r) j i" and "0 \<le> k" and "k < run_levels R"
    and "topo = fdata (topo_field (st r))" and "inside = (\<lambda>j i. k < run_levels R - run_halo R \<and> interior (run_grid R r) j i)"
  shows "fdata (itypew_field (st' r)) (0, k, j, i) = (if solid topo k j i then 0 else 1) \<and>
    fdata (itypeu_field (st' r)) (0, k, j, i) = (if solid topo k j i \<or> inside j (i + 1) \<and> solid topo k j (i + 1) then 0 else 1) \<and>
    fdata (itypev_field (st' r)) (0, k, j, i) = (if solid topo k j i \<or> inside (j + 1) i \<and> solid topo k (j + 1) i then 0 else 1) \<and>
    (solid topo k j i \<longrightarrow> k + run_halo R \<le> idx r) \<and> (\<forall>s \<in> run_ranks R. idx s = idx r)"
proof -
  note R = assms(1-3)
  let ?ex = "run_exchanger R" and ?g = "run_grid R"
  let ?M = "Max ((\<lambda>r. find_max_topo (?g r) (fdata (topo_field (st r)))) ` run_ranks R)"
  define s0 where "s0 r = begin_masks (?g r) (st r)" for r
  define s1 where "s1 = exchange_itypew deliver ?ex s0"
  define s1' where "s1' r = close_faces (?g r) (s1 r)" for r
  define s2 where "s2 = exchange_itypeu deliver ?ex s1'"
  define s3 where "s3 = exchange_itypev deliver ?ex s2"
  have res: "idx r = int_of_real (?M + of_int (get_halo_cells (?g r)))" "st' r = finish_topo (?g r) (s3 r)" for r
    using assms(5) by (simp_all add: initialize_topo_def Let_def s0_def [abs_def] s1_def s1'_def [abs_def] s2_def s3_def
        prod_eq_iff fun_eq_iff)
  have T0: "\<forall>r \<in> run_ranks R. terrain_ok R r (s0 r)" using assms(4) begin_masks_fields(1) by (simp add: s0_def)
  note E1 = exchange_itypew_fields [OF R T0 _ s1_def]
  have T1: "\<forall>r \<in> run_ranks R. terrain_ok R r (s1' r)" using E1(1) close_faces_fields(1) by (simp add: s1'_def)
  note E2 = exchange_itypeu_fields [OF R T1 _ s2_def]
  have T2: "\<forall>r \<in> run_ranks R. terrain_ok R r (s2 r)" using E2(1) by simp
  note E3 = exchange_itypev_fields [OF R T2 _ s3_def]
  have z: "get_halo_cells (?g r) = run_halo R" "get_local_total_points_z (?g r) = run_levels R"
    by (simp_all add: run_grid_simps(1) [OF R(1) assms(6)] run_levels_def run_total_z [OF R(1) assms(6)])
  note B = begin_masks_fields [OF assms(4) [rule_format, OF assms(6)], of "?g r", folded s0_def assms(10)]
  note C = close_faces_fields [OF E1(1) [OF assms(6)] z [symmetric], folded s1'_def]
  have W1: "fdata (itypew_field (s1 r)) (0, k, b, a) = (if solid topo k b a then 0 else 1)" if "interior (?g r) b a" for a b
    using E1(5) [OF assms(6) that assms(8,9)] B(5) that by simp
  note out = E3(3,4) [OF assms(6)] E3(5) [OF assms(6-9)] E2(3,4) [OF assms(6)] E2(5) [OF assms(6-9)] finish_topo_fields res(2)
  have "fdata (itypew_field (st' r)) (0, k, j, i) = (if solid topo k j i then 0 else 1)"
    using W1 [OF assms(7)] by (simp only: out C(3))
  moreover have "fdata (itypeu_field (st' r)) (0, k, j, i) = (if solid topo k j i \<or> inside j (i + 1) \<and> solid topo k j (i + 1) then 0 else 1)"
    using W1 [of j "i + 1"] assms(7,8) by (auto simp: out C(4) E1(3) [OF assms(6)] B(3) assms(11) split: if_splits)
  moreover have "fdata (itypev_field (st' r)) (0, k, j, i) = (if solid topo k j i \<or> inside (j + 1) i \<and> solid topo k (j + 1) i then 0 else 1)"
    using W1 [of "j + 1" i] assms(7,8) by (auto simp: out C(5) E1(4) [OF assms(6)] B(4) assms(11) split: if_splits)
  moreover have "k + run_halo R \<le> idx r" if "solid topo k j i"
  proof -
    have "find_max_topo (?g r) topo \<le> ?M"
      using run_ranks_finite [OF R(1)] assms(6) unfolding assms(10) by simp
    with find_max_topo_ge [OF assms(7), of topo] that
    have "of_int k \<le> ?M" by (simp add: solid_def)
    moreover have "0 \<le> run_halo R" using depth_all [OF R(1)] by simp
    ultimately show ?thesis using assms(8) by (simp add: res(1) z int_of_real_def le_floor_iff)
  qed
  moreover have "\<forall>s \<in> run_ranks R. idx s = idx r"
    using run_grid_simps(1) [OF R(1)] z(1) by (simp add: res(1))
  ultimately show ?thesis by blast
qed

text \<open>C17. Terrain of a run: on every process a cell is open exactly when its level lies above the terrain of its
  column; the east face of a cell is closed exactly when the cell itself or its east neighbour \<open>on the same
  process\<close> is solid, and in the same way the north face; every solid level lies at least a halo below
  \<open>max_topo_idx\<close>, which is the same on every process.\<close>

theorem terrain_masks:
  assumes "run_ok R" and "delivers deliver" and "run_periodic R"
    and "\<forall>r \<in> run_ranks R. terrain_ok R r (st r)"
    and "initialize_topo (run_ranks R) deliver (run_exchanger R) (run_grid R) st = (idx, st')"
    and "r \<in> run_ranks R" and "interior (run_grid R r) j i" and "0 \<le> k" and "k < run_levels R"
    and "topo = fdata (topo_field (st r))" and "inside = (\<lambda>j i. k < run_levels R - run_halo R \<and> interior (run_grid R r) j i)"
  shows "fdata (itypew_field (st' r)) (0, k, j, i) = (if solid topo k j i then 0 else 1) \<and>
    fdata (itypeu_field (st' r)) (0, k, j, i) = (if solid topo k j i \<or> inside j (i + 1) \<and> solid topo k j (i + 1) then 0 else 1) \<and>
    fdata (itypev_field (st' r)) (0, k, j, i) = (if solid topo k j i \<or> inside (j + 1) i \<and> solid topo k (j + 1) i then 0 else 1) \<and>
    (solid topo k j i \<longrightarrow> k + run_halo R \<le> idx r) \<and> (\<forall>s \<in> run_ranks R. idx s = idx r)"
  using assms by (rule initialize_topo_masks)

section \<open>Curvilinear grids\<close>

lemma gather_faces_fields:
  assumes "terrain_ok R r s" and "interior g j i" and "0 \<le> k" and "k < get_local_total_points_z g"
  shows "terrain_ok R r (gather_faces g s)"
    and "topo_field (gather_faces g s) = topo_field s" and "itypew_field (gather_faces g s) = itypew_field s"
    and "fdata (itypeu_field (gather_faces g s)) (0, k, j, i) = fdata (itypew_field s) (0, k, j, i) * fdata (itypew_field s) (0, k, j, i + 1)"
    and "fdata (itypev_field (gather_faces g s)) (0, k, j, i) = fdata (itypew_field s) (0, k, j, i) * fdata (itypew_field s) (0, k, j + 1, i)"
proof -
  let ?w = "fdata (itypew_field s)" and ?u = "fdata (itypeu_field s)" and ?v = "fdata (itypev_field s)"
  let ?FU = "\<lambda>(k, j, i). ?w (0, k, j, i) * ?w (0, k, j, i + 1)" and ?FV = "\<lambda>(k, j, i). ?w (0, k, j, i) * ?w (0, k, j + 1, i)"
  have O: "owned_face_masks g ?w (?u, ?v) =
      (parallel_for (physical_cells g 0 (get_local_total_points_z g)) (assign at_cell (\<lambda>c _. ?FU c)) ?u,
       parallel_for (physical_cells g 0 (get_local_total_points_z g)) (assign at_cell (\<lambda>c _. ?FV c)) ?v)"
    unfolding parallel_for_pair [symmetric] owned_face_masks_def physical_cells_def Let_def
    by (rule arg_cong [where f = "\<lambda>b. parallel_for _ b _"]) (auto simp: fun_eq_iff assign_def at_cell_def)
  show "terrain_ok R r (gather_faces g s)" "topo_field (gather_faces g s) = topo_field s"
    "itypew_field (gather_faces g s) = itypew_field s"
    using assms(1) by (simp_all add: gather_faces_def O terrain_ok_def fits_data)
  show "fdata (itypeu_field (gather_faces g s)) (0, k, j, i) = ?w (0, k, j, i) * ?w (0, k, j, i + 1)"
    "fdata (itypev_field (gather_faces g s)) (0, k, j, i) = ?w (0, k, j, i) * ?w (0, k, j + 1, i)"
    using assms(2-4) unfolding gather_faces_def O by (simp_all add: physical_write_cell)
qed

lemma exchange_terrain_agrees:
  assumes R: "run_ok R" "delivers deliver" "run_periodic R" and T: "\<forall>r \<in> run_ranks R. fits R nd 1 nz' r (get (st r))"
    and A: "\<forall>r \<in> run_ranks R. agrees R \<Phi> r (get (st r)) 0 0" and put: "\<And>f s. get (put f s) = f" and r: "r \<in> run_ranks R"
  shows "agrees R \<Phi> r (get (exchange_terrain get put deliver (run_exchanger R) st r)) (run_halo R) (run_halo R)"
  using exchange_halos_all_agrees [OF R, where depth = "- 1" and st = "\<lambda>r. (get (st r), terrain_buffers (st r))" and nd = nd
      and nw = 1 and nz' = nz' and \<Phi> = \<Phi> and r = r] T A r depth_all [OF R(1)]
  by (simp add: exchange_terrain_def Let_def put)

lemma exchange_topo_fields:
  assumes R: "run_ok R" "delivers deliver" "run_periodic R" and T: "\<forall>r \<in> run_ranks R. terrain_ok R r (st r)"
    and r: "r \<in> run_ranks R" and st': "st' = exchange_terrain topo_field (\<lambda>f. topo_field_update (\<lambda>_. f)) deliver (run_exchanger R) st"
  shows "terrain_ok R r (st' r)" and "itypew_field (st' r) = itypew_field (st r)"
    and "itypeu_field (st' r) = itypeu_field (st r)" and "itypev_field (st' r) = itypev_field (st r)"
proof -
  have "\<forall>r \<in> run_ranks R. fits R 2 1 1 r (topo_field (st r))" using T by (simp add: terrain_ok_def)
  note e = exchange_terrain_cases [OF R this r, where put = "\<lambda>f. topo_field_update (\<lambda>_. f)"]
  show "terrain_ok R r (st' r)" "itypew_field (st' r) = itypew_field (st r)"
    "itypeu_field (st' r) = itypeu_field (st r)" "itypev_field (st' r) = itypev_field (st r)"
    unfolding st' by (rule e, use T r in \<open>simp add: terrain_ok_def\<close>)+
qed

lemma gathered_masks_agree:
  assumes R: "run_ok R" and r: "r \<in> run_ranks R" and ok: "terrain_ok R r s" and W: "agrees R \<Phi> r (itypew_field s) h h"
    and h: "h = run_halo R" and n: "ny' = global_size (dim_y (run_global R))" "nx' = global_size (dim_x (run_global R))"
    and s': "s' = gather_faces (run_grid R r) s"
  shows "terrain_ok R r s' \<and> itypew_field s' = itypew_field s \<and>
    agrees R (\<lambda>w k J I. \<Phi> w k J I * \<Phi> w k J ((I + 1) mod nx')) r (itypeu_field s') 0 0 \<and>
    agrees R (\<lambda>w k J I. \<Phi> w k J I * \<Phi> w k ((J + 1) mod ny') I) r (itypev_field s') 0 0"
proof -
  have z: "get_local_total_points_z (run_grid R r) = run_levels R" by (simp add: run_levels_def run_total_z [OF R r])
  note G = gather_faces_fields [OF ok, where g = "run_grid R r", unfolded z, folded s']
  have T2: "terrain_ok R r s'" "itypew_field s' = itypew_field s"
    using ok by (simp_all add: s' gather_faces_def terrain_ok_def fits_data case_prod_beta)
  have X: "cross_agrees R \<Phi> r (itypew_field s)"
    using agrees_mono [OF W] depth_all [OF R] h by fastforce
  have sz: "ext_w (itypew_field s) = 1" "ext_z (itypew_field s) = run_levels R"
    "ext_w (itypeu_field s') = 1" "ext_z (itypeu_field s') = run_levels R"
    "ext_w (itypev_field s') = 1" "ext_z (itypev_field s') = run_levels R"
    using ok T2(1) fits_levels by (auto simp: terrain_ok_def)
  note C = cross_cells [OF R r X, unfolded sz(1,2), OF _ _ _ _ refl refl n, of j i for j i]
  show ?thesis
    using T2 by (intro conjI agrees_interiorI [OF R r sz(3,4)] agrees_interiorI [OF R r sz(5,6)])
      (simp_all add: G(4,5) C n)
qed

text \<open>Terrain on a curvilinear grid: the face masks are the products of the masks of the two cells at the
  face, whichever processes own them, and every mask is extended periodically into the halo; so they do not
  depend on the decomposition.\<close>

theorem mapped_terrain_masks:
  assumes "run_ok R" and "delivers deliver" and "run_periodic R"
    and "\<forall>r \<in> run_ranks R. terrain_ok R r (st r) \<and> agrees R \<Phi> r (itypew_field (st r)) 0 0"
    and "st' = finalize_mapped_terrain_masks deliver (run_exchanger R) (run_grid R) st" and "r \<in> run_ranks R"
    and "h = run_halo R" and "ny' = global_size (dim_y (run_global R))" and "nx' = global_size (dim_x (run_global R))"
  shows "agrees R (\<lambda>w k J I. \<Phi> w k J I * \<Phi> w k J ((I + 1) mod nx')) r (itypeu_field (st' r)) h h \<and>
    agrees R (\<lambda>w k J I. \<Phi> w k J I * \<Phi> w k ((J + 1) mod ny') I) r (itypev_field (st' r)) h h \<and>
    agrees R \<Phi> r (itypew_field (st' r)) h h"
proof -
  note R = assms(1-3)
  let ?ex = "run_exchanger R" and ?u = "\<lambda>w k J I. \<Phi> w k J I * \<Phi> w k J ((I + 1) mod nx')"
    and ?v = "\<lambda>w k J I. \<Phi> w k J I * \<Phi> w k ((J + 1) mod ny') I"
  define s1 where "s1 = exchange_itypew deliver ?ex st"
  define s2 where "s2 r = gather_faces (run_grid R r) (s1 r)" for r
  define s3 where "s3 = exchange_terrain topo_field (\<lambda>f. topo_field_update (\<lambda>_. f)) deliver ?ex s2"
  define s4 where "s4 = exchange_itypeu deliver ?ex s3"
  define s5 where "s5 = exchange_itypev deliver ?ex s4"
  have st': "st' = exchange_itypew deliver ?ex s5"
    by (simp add: assms(5) finalize_mapped_terrain_masks_def Let_def s1_def s2_def [abs_def] s3_def s4_def s5_def)
  have T0: "\<forall>r \<in> run_ranks R. terrain_ok R r (st r)" using assms(4) by simp
  note E1 = exchange_itypew_fields [OF R T0 _ s1_def]
  have W1: "agrees R \<Phi> r (itypew_field (s1 r)) h h" if "r \<in> run_ranks R" for r
    unfolding s1_def exchange_itypew_def assms(7)
    by (rule exchange_terrain_agrees [OF R, where nd = 3 and nz' = "run_levels R"])
       (use assms(4) that in \<open>simp_all add: terrain_ok_def\<close>)
  have faces: "terrain_ok R r (s2 r) \<and> itypew_field (s2 r) = itypew_field (s1 r) \<and>
      agrees R ?u r (itypeu_field (s2 r)) 0 0 \<and> agrees R ?v r (itypev_field (s2 r)) 0 0" if r: "r \<in> run_ranks R" for r
    by (rule gathered_masks_agree [OF R(1) r E1(1) [OF r] W1 [OF r] assms(7-9) s2_def])
  have T2: "\<forall>r \<in> run_ranks R. terrain_ok R r (s2 r)" using faces by blast
  note E3 = exchange_topo_fields [OF R T2 _ s3_def]
  have T3: "\<forall>r \<in> run_ranks R. terrain_ok R r (s3 r)" using E3(1) by blast
  note E4 = exchange_itypeu_fields [OF R T3 _ s4_def]
  have T4: "\<forall>r \<in> run_ranks R. terrain_ok R r (s4 r)" using E4(1) by blast
  note E5 = exchange_itypev_fields [OF R T4 _ s5_def]
  have T5: "\<forall>r \<in> run_ranks R. terrain_ok R r (s5 r)" using E5(1) by blast
  note E6 = exchange_itypew_fields [OF R T5 _ st']
  have "agrees R ?u r (itypeu_field (s4 r)) h h"
    unfolding s4_def exchange_itypeu_def assms(7)
    by (rule exchange_terrain_agrees [OF R, where nd = 3 and nz' = "run_levels R"])
       (use T3 E3(3) faces assms(6) in \<open>simp_all add: terrain_ok_def\<close>)
  moreover have "agrees R ?v r (itypev_field (s5 r)) h h"
    unfolding s5_def exchange_itypev_def assms(7)
    by (rule exchange_terrain_agrees [OF R, where nd = 3 and nz' = "run_levels R"])
       (use T4 E3(4) E4(4) faces assms(6) in \<open>simp_all add: terrain_ok_def\<close>)
  moreover have "agrees R \<Phi> r (itypew_field (st' r)) h h"
    unfolding st' exchange_itypew_def assms(7)
    by (rule exchange_terrain_agrees [OF R, where nd = 3 and nz' = "run_levels R"])
       (use T5 E3(2) E4(3) E5(3) faces W1 agrees_mono [OF W1, of _ 0 0] depth_all [OF R(1)] assms(6,7) in \<open>simp_all add: terrain_ok_def\<close>)
  ultimately show ?thesis using E6(3,4) [OF assms(6)] E5(4) [OF assms(6)] by simp
qed

section \<open>A mountain on a process boundary\<close>

text \<open>Two by two processes on five rows and seven columns; a mountain of three levels on row 0 and column 4, the
  first column of process 1.\<close>

definition sample_topo :: "nat \<Rightarrow> real field" where
  "sample_topo r =
     (let g = run_grid sample_run r in
      \<lparr>fname = ''topo'', fdim = 2, ext_w = 1, ext_z = 1,
       ext_y = get_local_total_points_y g, ext_x = get_local_total_points_x g,
       fdata = (\<lambda>(w, k, j, i). if global_row sample_run r j = 0 \<and> global_column sample_run r i = 4 then 3 else 0)\<rparr>)"

definition sample_terrain :: "nat \<Rightarrow> terrain_state" where
  "sample_terrain r =
     \<lparr>topo_field = sample_topo r, itypeu_field = sample_global_field (\<lambda>w k J I. 0) r,
      itypev_field = sample_global_field (\<lambda>w k J I. 0) r, itypew_field = sample_global_field (\<lambda>w k J I. of_int (I mod 2)) r,
      topou = (\<lambda>_. 0), topov = (\<lambda>_. 0), terrain_buffers = allocate_buffers (run_exchanger sample_run r)\<rparr>"

lemma sample_terrain_ok: "r \<in> run_ranks sample_run \<Longrightarrow> terrain_ok sample_run r (sample_terrain r)"
  using run_grid_simps(4,5) [OF sample_run_ok, of r] local_size_pos [OF sample_run_ok, of r] run_okD(5) [OF sample_run_ok]
  by (simp add: terrain_ok_def sample_terrain_def sample_global_field_ok fits_def [of _ 2] sample_topo_def Let_def field_wf_def)

lemma sample_run_sizes:
  "run_halo sample_run = 2" "run_levels sample_run = 8" "global_size (dim_y (run_global sample_run)) = 5"
  "global_size (dim_x (run_global sample_run)) = 7" "0 \<in> run_ranks sample_run" "1 \<in> run_ranks sample_run" "run_periodic sample_run"
  by (simp_all add: run_halo_def run_levels_def sample_run_def sample_grid_def initial_dimension_def run_periodic_def)

lemma sample_axes:
  "r \<in> run_ranks sample_run \<Longrightarrow> dim_y (run_grid sample_run r) = split_axis 2 (int (r div 2)) (initial_dimension 5 (Fin 100) 2)"
  "r \<in> run_ranks sample_run \<Longrightarrow> dim_x (run_grid sample_run r) = split_axis 2 (int (r mod 2)) (initial_dimension 7 (Fin 100) 2)"
  using run_axes [OF sample_run_ok, of r] by (simp_all add: sample_run_def sample_coords_def sample_grid_def)

text \<open>The cell west of the mountain belongs to process 0, whose east face towards the solid cell stays open.\<close>

lemma terrain_masks_witness:
  "let st' = snd (initialize_topo (run_ranks sample_run) first_match (run_exchanger sample_run) (run_grid sample_run) sample_terrain) in
   fdata (itypew_field (st' 1)) (0, 2, 2, 2) = 0 \<and> fdata (itypeu_field (st' 0)) (0, 2, 2, 5) = 1"
proof -
  let ?I = "initialize_topo (run_ranks sample_run) first_match (run_exchanger sample_run) (run_grid sample_run) sample_terrain"
  have T: "\<forall>r \<in> run_ranks sample_run. terrain_ok sample_run r (sample_terrain r)" using sample_terrain_ok by blast
  have e: "?I = (fst ?I, snd ?I)" by simp
  note M = terrain_masks [OF sample_run_ok first_match_delivers sample_run_sizes(7) T e]
  have int: "interior (run_grid sample_run 1) 2 2" "interior (run_grid sample_run 0) 2 5" "\<not> interior (run_grid sample_run 0) 2 6"
    by (simp_all add: run_interior [OF sample_run_ok] sample_run_sizes sample_axes axis_simps split_nonneg initial_dimension_def
        del: One_nat_def)
  have s: "solid (fdata (topo_field (sample_terrain 1))) 2 2 2" "\<not> solid (fdata (topo_field (sample_terrain 0))) 2 2 5"
    by (simp_all add: solid_def sample_terrain_def sample_topo_def Let_def sample_run_sizes sample_axes axis_simps split_nonneg
        initial_dimension_def del: One_nat_def)
  have "fdata (itypew_field (snd ?I 1)) (0, 2, 2, 2) = 0"
    using M [OF sample_run_sizes(6) int(1) _ _ refl refl, of 2, THEN conjunct1] s(1) by (simp only: sample_run_sizes) simp
  moreover have "fdata (itypeu_field (snd ?I 0)) (0, 2, 2, 5) = 1"
    using M [OF sample_run_sizes(5) int(2) _ _ refl refl, of 2, THEN conjunct2, THEN conjunct1] s(2) int(3)
    by (simp only: sample_run_sizes) simp
  ultimately show ?thesis by (simp only: Let_def)
qed

lemma mapped_terrain_masks_witness:
  "agrees sample_run (\<lambda>w k J I. of_int (I mod 2) * of_int ((I + 1) mod 7 mod 2)) 0
    (itypeu_field (finalize_mapped_terrain_masks first_match (run_exchanger sample_run) (run_grid sample_run) sample_terrain 0)) 2 2"
proof -
  have T: "\<forall>r \<in> run_ranks sample_run. terrain_ok sample_run r (sample_terrain r) \<and>
      agrees sample_run (\<lambda>w k J I. of_int (I mod 2)) r (itypew_field (sample_terrain r)) 0 0"
    using sample_terrain_ok by (simp add: sample_terrain_def sample_global_field_ok)
  show ?thesis
    using mapped_terrain_masks [OF sample_run_ok first_match_delivers sample_run_sizes(7) T refl sample_run_sizes(5) refl refl refl]
    by (simp add: sample_run_sizes)
qed

section \<open>The wind with the terrain\<close>

text \<open>\<open>prepare_cartesian_wind_recovery_inputs\<close>: the wind with its solid cells set to zero, then the vorticity, which
  is recomputed from that wind where a face is closed.\<close>

definition mask_wind :: "view \<Rightarrow> view \<Rightarrow> cell \<Rightarrow> view \<Rightarrow> view" where
  "mask_wind itype u c u_topo = (if itype c \<noteq> 1 then u_topo(c := 0) else u_topo(c := u c))"

definition wind_topo :: "grid \<Rightarrow> int \<Rightarrow> view \<times> view \<times> view \<Rightarrow> view \<times> view \<times> view \<Rightarrow> view \<times> view \<times> view" where
  "wind_topo g max_idx itype wind =
     (case itype of (iu, iv, iw) \<Rightarrow> case wind of (u, v, w) \<Rightarrow>
      parallel_for (mdrange3 (get_halo_cells g - 1) 0 0 (max_idx + 2) (get_local_total_points_y g) (get_local_total_points_x g))
        (\<lambda>(k, j, i) (u_topo, v_topo, w_topo). let c = (0, k, j, i) in
           (mask_wind iu u c u_topo, mask_wind iv v c v_topo, mask_wind iw w c w_topo)) (u, v, w))"

definition vorticity_topo ::
  "grid \<Rightarrow> parameters \<Rightarrow> view \<times> view \<Rightarrow> view \<times> view \<times> view \<Rightarrow> view \<times> view \<Rightarrow> view \<times> view \<Rightarrow> view \<times> view" where
  "vorticity_topo g P itype wind vorticity =
     (case itype of (iu, iv) \<Rightarrow> case wind of (u, v, w) \<Rightarrow> case vorticity of (xi, eta) \<Rightarrow>
      parallel_for (physical_cells g (get_halo_cells g - 1) (get_local_total_points_z g - get_halo_cells g))
        (\<lambda>(k, j, i) (xi_topo, eta_topo). let c = (0, k, j, i) in
           (xi_topo(c := if iv c \<noteq> 1 then (w (0, k, j + 1, i) - w c) * p_rdy P - (v (0, k + 1, j, i) - v c) * p_rdz P * p_flex_up P k
              else xi c),
            eta_topo(c := if iu c \<noteq> 1 then (w (0, k, j, i + 1) - w c) * p_rdx P - (u (0, k + 1, j, i) - u c) * p_rdz P * p_flex_up P k
              else eta c))))"

definition prepare_cartesian_wind_recovery_inputs ::
  "grid \<Rightarrow> parameters \<Rightarrow> int \<Rightarrow> view \<times> view \<times> view \<Rightarrow> view \<times> view \<times> view \<Rightarrow> view \<times> view \<Rightarrow> view \<times> view \<Rightarrow>
   (view \<times> view \<times> view) \<times> (view \<times> view)" where
  "prepare_cartesian_wind_recovery_inputs g P max_idx itype wind vorticity old =
     (let topo = wind_topo g max_idx itype wind
      in (topo, vorticity_topo g P (fst itype, fst (snd itype)) topo vorticity old))"

lemma mask_wind_loop:
  "parallel_for cells (\<lambda>(k, j, i) (a, b, c). let x = (0, k, j, i) in (mask_wind iu u x a, mask_wind iv v x b, mask_wind iw w x c)) (a, b, c) =
    (let here = (\<lambda>(x, k, j, i). x = 0 \<and> (k, j, i) \<in> set cells) in
     (\<lambda>x. if here x then (if iu x = 1 then u x else 0) else a x, \<lambda>x. if here x then (if iv x = 1 then v x else 0) else b x,
      \<lambda>x. if here x then (if iw x = 1 then w x else 0) else c x))"
proof (induction cells arbitrary: a b c)
  case Nil
  show ?case by (auto simp: fun_eq_iff)
next
  case (Cons x cells)
  obtain k j i where x: "x = (k, j, i)" by (cases x)
  show ?case
    unfolding x parallel_for_simps prod.case Let_def Cons.IH [unfolded Let_def]
    by (auto simp: fun_eq_iff mask_wind_def)
qed

lemma wind_topo_cell:
  assumes "wind_topo g max_idx (iu, iv, iw) (u, v, w) = (u', v', w')" and "get_halo_cells g - 1 \<le> k"
    and "0 \<le> j" "j < get_local_total_points_y g" "0 \<le> i" "i < get_local_total_points_x g"
    and "max_idx + 2 \<le> k \<Longrightarrow> iu (0, k, j, i) = 1 \<and> iv (0, k, j, i) = 1 \<and> iw (0, k, j, i) = 1"
  shows "u' (0, k, j, i) = (if iu (0, k, j, i) = 1 then u (0, k, j, i) else 0) \<and>
    v' (0, k, j, i) = (if iv (0, k, j, i) = 1 then v (0, k, j, i) else 0) \<and>
    w' (0, k, j, i) = (if iw (0, k, j, i) = 1 then w (0, k, j, i) else 0)"
proof -
  have "u' = fst (wind_topo g max_idx (iu, iv, iw) (u, v, w))" "v' = fst (snd (wind_topo g max_idx (iu, iv, iw) (u, v, w)))"
    "w' = snd (snd (wind_topo g max_idx (iu, iv, iw) (u, v, w)))" using assms(1) by simp_all
  note uvw = this [unfolded wind_topo_def prod.case mask_wind_loop]
  show ?thesis
    using assms(2-) by (cases "k < max_idx + 2") (simp_all add: uvw Let_def range_simps)
qed

lemma vorticity_topo_cell:
  assumes "interior g j i" and "get_halo_cells g - 1 \<le> k" "k < get_local_total_points_z g - get_halo_cells g"
  shows "fst (vorticity_topo g P (iu, iv) (u, v, w) (xi, eta) old) (0, k, j, i) =
      (if iv (0, k, j, i) \<noteq> 1 then (w (0, k, j + 1, i) - w (0, k, j, i)) * p_rdy P -
         (v (0, k + 1, j, i) - v (0, k, j, i)) * p_rdz P * p_flex_up P k else xi (0, k, j, i))"
    and "snd (vorticity_topo g P (iu, iv) (u, v, w) (xi, eta) old) (0, k, j, i) =
      (if iu (0, k, j, i) \<noteq> 1 then (w (0, k, j, i + 1) - w (0, k, j, i)) * p_rdx P -
         (u (0, k + 1, j, i) - u (0, k, j, i)) * p_rdz P * p_flex_up P k else eta (0, k, j, i))"
proof -
  let ?X = "\<lambda>(k, j, i). if iv (0, k, j, i) \<noteq> 1 then (w (0, k, j + 1, i) - w (0, k, j, i)) * p_rdy P -
         (v (0, k + 1, j, i) - v (0, k, j, i)) * p_rdz P * p_flex_up P k else xi (0, k, j, i)"
    and ?E = "\<lambda>(k, j, i). if iu (0, k, j, i) \<noteq> 1 then (w (0, k, j, i + 1) - w (0, k, j, i)) * p_rdx P -
         (u (0, k + 1, j, i) - u (0, k, j, i)) * p_rdz P * p_flex_up P k else eta (0, k, j, i)"
  let ?cells = "physical_cells g (get_halo_cells g - 1) (get_local_total_points_z g - get_halo_cells g)"
  have "vorticity_topo g P (iu, iv) (u, v, w) (xi, eta) (fst old, snd old) =
      (parallel_for ?cells (assign at_cell (\<lambda>c _. ?X c)) (fst old), parallel_for ?cells (assign at_cell (\<lambda>c _. ?E c)) (snd old))"
    unfolding parallel_for_pair [symmetric] vorticity_topo_def prod.case
    by (rule arg_cong [where f = "\<lambda>b. parallel_for _ b _"]) (auto simp: fun_eq_iff assign_def at_cell_def Let_def)
  then have V: "vorticity_topo g P (iu, iv) (u, v, w) (xi, eta) old =
      (parallel_for ?cells (assign at_cell (\<lambda>c _. ?X c)) (fst old), parallel_for ?cells (assign at_cell (\<lambda>c _. ?E c)) (snd old))"
    by simp
  show "fst (vorticity_topo g P (iu, iv) (u, v, w) (xi, eta) old) (0, k, j, i) = (if iv (0, k, j, i) \<noteq> 1 then (w (0, k, j + 1, i) - w (0, k, j, i)) * p_rdy P -
         (v (0, k + 1, j, i) - v (0, k, j, i)) * p_rdz P * p_flex_up P k else xi (0, k, j, i))"
    "snd (vorticity_topo g P (iu, iv) (u, v, w) (xi, eta) old) (0, k, j, i) = (if iu (0, k, j, i) \<noteq> 1 then (w (0, k, j, i + 1) - w (0, k, j, i)) * p_rdx P -
         (u (0, k + 1, j, i) - u (0, k, j, i)) * p_rdz P * p_flex_up P k else eta (0, k, j, i))"
    unfolding V fst_conv snd_conv physical_write_cell prod.case using assms by simp_all
qed

text \<open>C24. The wind solver over terrain: with the masks and the \<open>max_topo_idx\<close> of \<open>initialize_topo\<close> the wind that the
  solver reads vanishes exactly at the closed faces and in the solid cells and is the wind itself elsewhere, at every
  level: the vertical wind in solid cells, a horizontal component where the cell or its east (north) neighbour of the
  same process is solid.  The vorticity at a closed face is the shear of the masked wind, and unchanged elsewhere.\<close>

theorem masked_wind_stops_at_terrain:
  assumes "run_ok R" and "delivers deliver" and "run_periodic R"
    and "\<forall>r \<in> run_ranks R. terrain_ok R r (st r)"
    and "initialize_topo (run_ranks R) deliver (run_exchanger R) (run_grid R) st = (idx, st')"
    and "r \<in> run_ranks R" and "interior (run_grid R r) j i" and "run_halo R - 1 \<le> k" and "k < run_levels R - run_halo R"
    and "topo = fdata (topo_field (st r))"
    and "prepare_cartesian_wind_recovery_inputs (run_grid R r) P (idx r)
      (fdata (itypeu_field (st' r)), fdata (itypev_field (st' r)), fdata (itypew_field (st' r))) (u, v, w) (xi, eta) old =
      ((u', v', w'), (xi', eta'))"
    and "c = (0, k, j, i)"
    and "closed_u = (solid topo k j i \<or> interior (run_grid R r) j (i + 1) \<and> solid topo k j (i + 1))"
    and "closed_v = (solid topo k j i \<or> interior (run_grid R r) (j + 1) i \<and> solid topo k (j + 1) i)"
  shows "u' c = (if closed_u then 0 else u c) \<and> v' c = (if closed_v then 0 else v c) \<and>
    w' c = (if solid topo k j i then 0 else w c) \<and>
    xi' c = (if closed_v then (w' (0, k, j + 1, i) - w' c) * p_rdy P - (v' (0, k + 1, j, i) - v' c) * p_rdz P * p_flex_up P k
      else xi c) \<and>
    eta' c = (if closed_u then (w' (0, k, j, i + 1) - w' c) * p_rdx P - (u' (0, k + 1, j, i) - u' c) * p_rdz P * p_flex_up P k
      else eta c)"
proof -
  let ?g = "run_grid R r" and ?iu = "fdata (itypeu_field (st' r))" and ?iv = "fdata (itypev_field (st' r))"
    and ?iw = "fdata (itypew_field (st' r))"
  have h: "0 < run_halo R" using depth_all [OF assms(1)] by simp
  have z: "get_halo_cells ?g = run_halo R" "get_local_total_points_z ?g = run_levels R"
    by (simp_all add: run_grid_simps(1) [OF assms(1,6)] run_levels_def run_total_z [OF assms(1,6)])
  have k: "0 \<le> k" "k < run_levels R" using assms(8,9) h by simp_all
  note M = initialize_topo_masks [OF assms(1-6) _ k assms(10) refl]
  have top: "\<not> solid topo k b a" if "idx r + 2 \<le> k" "interior ?g b a" for a b
    using M [OF that(2)] that(1) h by auto
  have W: "wind_topo ?g (idx r) (?iu, ?iv, ?iw) (u, v, w) = (u', v', w')"
    and V: "vorticity_topo ?g P (?iu, ?iv) (u', v', w') (xi, eta) old = (xi', eta')"
    using assms(11) unfolding prepare_cartesian_wind_recovery_inputs_def Let_def by auto
  have in': "0 \<le> j" "j < get_local_total_points_y ?g" "0 \<le> i" "i < get_local_total_points_x ?g"
    using assms(7) h by (simp_all add: interior_def z)
  have X: "u' c = (if ?iu c = 1 then u c else 0) \<and> v' c = (if ?iv c = 1 then v c else 0) \<and> w' c = (if ?iw c = 1 then w c else 0)"
    unfolding assms(12)
  proof (rule wind_topo_cell [OF W _ in'])
    show "get_halo_cells ?g - 1 \<le> k" using assms(8) by (simp add: z)
    show "?iu (0, k, j, i) = 1 \<and> ?iv (0, k, j, i) = 1 \<and> ?iw (0, k, j, i) = 1" if "idx r + 2 \<le> k"
      using M [OF assms(7)] top [OF that] assms(7) by auto
  qed
  have faces: "?iw c = (if solid topo k j i then 0 else 1)" "?iu c = (if closed_u then 0 else 1)"
    "?iv c = (if closed_v then 0 else 1)"
    using M [OF assms(7)] assms(9) unfolding assms(12-14) by simp_all
  note Y = vorticity_topo_cell [OF assms(7), of k P ?iu ?iv u' v' w' xi eta old, folded assms(12)]
  have Y': "xi' c = (if ?iv c \<noteq> 1 then (w' (0, k, j + 1, i) - w' c) * p_rdy P -
      (v' (0, k + 1, j, i) - v' c) * p_rdz P * p_flex_up P k else xi c)"
    "eta' c = (if ?iu c \<noteq> 1 then (w' (0, k, j, i + 1) - w' c) * p_rdx P -
      (u' (0, k + 1, j, i) - u' c) * p_rdz P * p_flex_up P k else eta c)"
    using Y assms(8,9) by (simp_all only: V z fst_conv snd_conv)
  show ?thesis unfolding Y' using X by (simp add: faces)
qed

lemma masked_wind_stops_at_terrain_witness:
  "let (idx, st') = initialize_topo (run_ranks sample_run) first_match (run_exchanger sample_run) (run_grid sample_run) sample_terrain;
       ((u', v', w'), (xi', eta')) = prepare_cartesian_wind_recovery_inputs (run_grid sample_run 1) sample_parameters (idx 1)
         (fdata (itypeu_field (st' 1)), fdata (itypev_field (st' 1)), fdata (itypew_field (st' 1)))
         (\<lambda>_. 5, \<lambda>_. 6, \<lambda>_. 7) (\<lambda>_. 8, \<lambda>_. 9) (\<lambda>_. 0, \<lambda>_. 0)
   in u' (0, 2, 2, 2) = 0 \<and> w' (0, 2, 2, 2) = 0 \<and> u' (0, 4, 2, 2) = 5 \<and> xi' (0, 4, 2, 2) = 8 \<and>
     xi' (0, 2, 2, 2) = w' (0, 2, 3, 2) - v' (0, 3, 2, 2)"
proof -
  obtain idx st' where I: "initialize_topo (run_ranks sample_run) first_match (run_exchanger sample_run) (run_grid sample_run) sample_terrain = (idx, st')"
    by (cases "initialize_topo (run_ranks sample_run) first_match (run_exchanger sample_run) (run_grid sample_run) sample_terrain")
  obtain u' v' w' xi' eta' where W: "prepare_cartesian_wind_recovery_inputs (run_grid sample_run 1) sample_parameters (idx 1)
      (fdata (itypeu_field (st' 1)), fdata (itypev_field (st' 1)), fdata (itypew_field (st' 1)))
      (\<lambda>_. 5, \<lambda>_. 6, \<lambda>_. 7) (\<lambda>_. 8, \<lambda>_. 9) (\<lambda>_. 0, \<lambda>_. 0) = ((u', v', w'), (xi', eta'))"
    by (metis prod.exhaust)
  have T: "\<forall>r \<in> run_ranks sample_run. terrain_ok sample_run r (sample_terrain r)" using sample_terrain_ok by blast
  have int: "interior (run_grid sample_run 1) 2 2"
    by (simp add: run_interior [OF sample_run_ok] sample_run_sizes sample_axes axis_simps split_nonneg initial_dimension_def
        del: One_nat_def)
  have s: "solid (fdata (topo_field (sample_terrain 1))) k b a \<longleftrightarrow> 0 \<le> k \<and> k \<le> 3 \<and> global_row sample_run 1 b = 0 \<and> global_column sample_run 1 a = 4" for k b a
    by (auto simp: solid_def sample_terrain_def sample_topo_def Let_def)
  note M = masked_wind_stops_at_terrain [OF sample_run_ok first_match_delivers sample_run_sizes(7) T I sample_run_sizes(6) int _ _ refl W refl refl refl,
      unfolded s sample_run_sizes]
  have "u' (0, 2, 2, 2) = 0 \<and> w' (0, 2, 2, 2) = 0 \<and> xi' (0, 2, 2, 2) = w' (0, 2, 3, 2) - v' (0, 3, 2, 2)"
    using M [of 2] by (simp add: sample_parameters_def sample_axes sample_run_sizes axis_simps split_nonneg initial_dimension_def del: One_nat_def)
  moreover have "u' (0, 4, 2, 2) = 5 \<and> xi' (0, 4, 2, 2) = 8"
    using M [of 4] by simp
  ultimately show ?thesis unfolding I W Let_def prod.case by simp
qed

end
