(* ===== verification/Horizontal_Mean.thy ===== *)
theory Horizontal_Mean
  imports Run_Fields Terrain
begin

text \<open>
The mean of a field over one horizontal level (\<open>State::calculate_horizontal_mean\<close> in
  \<^verbatim>\<open>src/core/state/State.hpp\<close>): the sum of the physical cells of every process, gathered and summed in rank
  order, divided by the number of cells of the domain.  \<open>mean_level\<close> is the range check of the level.  The device
  sums of Kokkos and the all-gather of MPI are taken over the reals, where their order does not matter.
\<close>

section \<open>The mean\<close>

datatype mean_error = Level_out_of_range int int int

text \<open>The sum of the physical cells of one process, row by row.\<close>

definition row_sum :: "grid \<Rightarrow> real field \<Rightarrow> int \<Rightarrow> int \<Rightarrow> real" where
  "row_sum g f k row =
     (let h = get_halo_cells g in
      fold (\<lambda>i sum. sum + fdata f (0, k, h + row, h + i)) (range1 0 (local_physical_size (dim_x g))) 0)"

definition local_sum :: "grid \<Rightarrow> real field \<Rightarrow> int \<Rightarrow> real" where
  "local_sum g f k = fold (\<lambda>row sum. sum + row_sum g f k row) (range1 0 (local_physical_size (dim_y g))) 0"

text \<open>\<open>calculate_horizontal_mean\<close> on one process: the sums of all processes are what \<open>MPI_Allgather\<close> returns.
  A 3-D field has its level checked; a 2-D field, stored at level 0, has none.\<close>

definition mean_level :: "grid \<Rightarrow> int \<Rightarrow> mean_error + int" where
  "mean_level g k_level =
     (let h = get_halo_cells g; nz' = get_local_total_points_z g; k = (if k_level = -1 then nz' - h - 1 else k_level) in
      if k < h \<or> nz' - h \<le> k then Inl (Level_out_of_range k h (nz' - h - 1)) else Inr k)"

definition mean_of_level :: "nat \<Rightarrow> (nat \<Rightarrow> grid) \<Rightarrow> (nat \<Rightarrow> real field) \<Rightarrow> int \<Rightarrow> nat \<Rightarrow> real" where
  "mean_of_level comm_size g f k r =
     (let total = of_int (global_size (dim_x (g r))) * of_int (global_size (dim_y (g r))) in
      if total = 0 then 0
      else (let rank_sums = map (\<lambda>s. local_sum (g s) (f s) k) [0..<comm_size] in fold (\<lambda>s sum. sum + s) rank_sums 0 / total))"

definition calculate_horizontal_mean ::
  "nat \<Rightarrow> (nat \<Rightarrow> grid) \<Rightarrow> (nat \<Rightarrow> real field) \<Rightarrow> int \<Rightarrow> nat \<Rightarrow> mean_error + real" where
  "calculate_horizontal_mean comm_size g f k_level r =
     (case mean_level (g r) k_level of Inl e \<Rightarrow> Inl e | Inr k \<Rightarrow> Inr (mean_of_level comm_size g f k r))"

definition calculate_horizontal_mean2 :: "nat \<Rightarrow> (nat \<Rightarrow> grid) \<Rightarrow> (nat \<Rightarrow> real field) \<Rightarrow> nat \<Rightarrow> real" where
  "calculate_horizontal_mean2 comm_size g f = mean_of_level comm_size g f 0"

section \<open>The mean of the global field\<close>

lemma fold_sum: "fold (\<lambda>x s. s + f x) xs a = a + (\<Sum>x\<leftarrow>xs. f x)" for a :: real
  by (induction xs arbitrary: a) simp_all

lemma fold_range_sum: "fold (\<lambda>x s. s + f x) (range1 a b) 0 = (\<Sum>x \<in> {a..<b}. f x)" for f :: "int \<Rightarrow> real"
  unfolding fold_sum by (simp add: range1_def sum_list_distinct_conv_sum_set atLeastLessThanPlusOne_atLeastAtMost_int [symmetric])

lemma local_sum_eq:
  assumes "run_ok R" and "r \<in> run_ranks R"
  shows "local_sum (run_grid R r) f k = (\<Sum>(j, i) \<in> {(j, i). interior (run_grid R r) j i}. fdata f (0, k, j, i))"
proof -
  let ?ny = "local_physical_size (dim_y (run_grid R r))" and ?nx = "local_physical_size (dim_x (run_grid R r))"
  have "local_sum (run_grid R r) f k = (\<Sum>row \<in> {0..<?ny}. \<Sum>i \<in> {0..<?nx}. fdata f (0, k, run_halo R + row, run_halo R + i))"
    by (simp add: local_sum_def row_sum_def Let_def fold_range_sum run_grid_simps [OF assms])
  also have "\<dots> = (\<Sum>(b, a) \<in> {0..<?ny} \<times> {0..<?nx}. fdata f (0, k, run_halo R + b, run_halo R + a))"
    by (simp add: sum.cartesian_product)
  also have "\<dots> = (\<Sum>(j, i) \<in> {(j, i). interior (run_grid R r) j i}. fdata f (0, k, j, i))"
    by (rule sum.reindex_bij_witness [where i = "\<lambda>(j, i). (j - run_halo R, i - run_halo R)" and j = "\<lambda>(b, a). (run_halo R + b, run_halo R + a)"])
       (auto simp: run_interior [OF assms])
  finally show ?thesis .
qed

lemma interior_finite:
  assumes "run_ok R" and "r \<in> run_ranks R"
  shows "finite {(j, i). interior (run_grid R r) j i}"
proof -
  let ?g = "run_grid R r"
  have "{(j, i). interior ?g j i} \<subseteq> {run_halo R..<run_halo R + local_physical_size (dim_y ?g)} \<times>
      {run_halo R..<run_halo R + local_physical_size (dim_x ?g)}"
    by (auto simp: run_interior [OF assms])
  then show ?thesis by (rule finite_subset) simp
qed

text \<open>Every cell of the domain has an owner.\<close>

lemma owner_exists_at:
  assumes R: "run_ok R" and "0 \<le> J" "J < global_size (dim_y (run_global R))" and "0 \<le> I" "I < global_size (dim_x (run_global R))"
  obtains r j i where "r \<in> run_ranks R" "interior (run_grid R r) j i" "global_row R r j = J" "global_column R r i = I"
proof -
  note d = run_okD(1-4) [OF R]
  obtain cy where cy: "0 \<le> cy" "cy < fst (run_dims R)"
    "split_start (global_size (dim_y (run_global R))) (fst (run_dims R)) cy \<le> J"
    "J < split_start (global_size (dim_y (run_global R))) (fst (run_dims R)) cy + split_size (global_size (dim_y (run_global R))) (fst (run_dims R)) cy"
    using split_owner [of "global_size (dim_y (run_global R))" "fst (run_dims R)" J] d assms(2,3) by auto
  obtain cx where cx: "0 \<le> cx" "cx < snd (run_dims R)"
    "split_start (global_size (dim_x (run_global R))) (snd (run_dims R)) cx \<le> I"
    "I < split_start (global_size (dim_x (run_global R))) (snd (run_dims R)) cx + split_size (global_size (dim_x (run_global R))) (snd (run_dims R)) cx"
    using split_owner [of "global_size (dim_x (run_global R))" "snd (run_dims R)" I] d assms(4,5) by auto
  have "run_coords R ` run_ranks R = {0..<fst (run_dims R)} \<times> {0..<snd (run_dims R)}"
    using R by (simp add: run_ok_def Let_def cart_ok_def)
  then obtain r where r: "r \<in> run_ranks R" "run_coords R r = (cy, cx)"
    using cy cx by (metis (no_types, lifting) atLeastLessThan_iff imageE mem_Sigma_iff)
  note ax = run_axes [OF R r(1)]
  let ?j = "J - local_physical_start_idx (dim_y (run_grid R r)) + run_halo R"
  let ?i = "I - local_physical_start_idx (dim_x (run_grid R r)) + run_halo R"
  have int: "interior (run_grid R r) ?j ?i"
    using cy cx by (simp add: run_interior [OF R r(1)] ax axis_simps r(2))
  show ?thesis
    by (rule that [OF r(1) int]) (use assms(2-) owned_position [OF R r(1) int] in simp_all)
qed

lemma positions_bij:
  assumes R: "run_ok R"
  shows "bij_betw (\<lambda>(r, j, i). (global_row R r j, global_column R r i))
    (SIGMA r : run_ranks R. {(j, i). interior (run_grid R r) j i})
    ({0..<global_size (dim_y (run_global R))} \<times> {0..<global_size (dim_x (run_global R))})"
proof (rule bij_betwI')
  fix x y assume "x \<in> (SIGMA r : run_ranks R. {(j, i). interior (run_grid R r) j i})"
    and "y \<in> (SIGMA r : run_ranks R. {(j, i). interior (run_grid R r) j i})"
  then show "((case x of (r, j, i) \<Rightarrow> (global_row R r j, global_column R r i)) =
      (case y of (r, j, i) \<Rightarrow> (global_row R r j, global_column R r i))) = (x = y)"
    using owner_is_unique [OF R] by (cases x, cases y) auto
next
  fix x assume "x \<in> (SIGMA r : run_ranks R. {(j, i). interior (run_grid R r) j i})"
  then show "(case x of (r, j, i) \<Rightarrow> (global_row R r j, global_column R r i)) \<in>
      {0..<global_size (dim_y (run_global R))} \<times> {0..<global_size (dim_x (run_global R))}"
    using run_okD(1,2) [OF R] by auto
next
  fix y assume "y \<in> {0..<global_size (dim_y (run_global R))} \<times> {0..<global_size (dim_x (run_global R))}"
  then obtain J I where y: "y = (J, I)" "0 \<le> J" "J < global_size (dim_y (run_global R))" "0 \<le> I" "I < global_size (dim_x (run_global R))"
    by auto
  obtain r j i where "r \<in> run_ranks R" "interior (run_grid R r) j i" "global_row R r j = J" "global_column R r i = I"
    using owner_exists_at [OF R y(2-5)] .
  then show "\<exists>x \<in> (SIGMA r : run_ranks R. {(j, i). interior (run_grid R r) j i}). y = (case x of (r, j, i) \<Rightarrow> (global_row R r j, global_column R r i))"
    by (intro bexI [of _ "(r, j, i)"]) (auto simp: y(1))
qed

lemma rank_sums:
  assumes R: "run_ok R" and V: "\<And>r j i. r \<in> run_ranks R \<Longrightarrow> interior (run_grid R r) j i \<Longrightarrow>
    fdata (f r) (0, k, j, i) = \<Psi> (global_row R r j) (global_column R r i)"
  shows "(\<Sum>r \<in> run_ranks R. local_sum (run_grid R r) (f r) k) =
    (\<Sum>J \<in> {0..<global_size (dim_y (run_global R))}. \<Sum>I \<in> {0..<global_size (dim_x (run_global R))}. \<Psi> J I)"
proof -
  have "(\<Sum>r \<in> run_ranks R. local_sum (run_grid R r) (f r) k) =
      (\<Sum>r \<in> run_ranks R. \<Sum>(j, i) \<in> {(j, i). interior (run_grid R r) j i}. \<Psi> (global_row R r j) (global_column R r i))"
    by (intro sum.cong [OF refl]) (auto simp: local_sum_eq [OF R] V intro!: sum.cong)
  also have "\<dots> = (\<Sum>(r, j, i) \<in> (SIGMA r : run_ranks R. {(j, i). interior (run_grid R r) j i}).
      \<Psi> (global_row R r j) (global_column R r i))"
    using run_ranks_finite [OF R] interior_finite [OF R] by (subst sum.Sigma) (auto simp: case_prod_beta)
  also have "\<dots> = (\<Sum>x \<in> (SIGMA r : run_ranks R. {(j, i). interior (run_grid R r) j i}).
      (\<lambda>(J, I). \<Psi> J I) (case x of (r, j, i) \<Rightarrow> (global_row R r j, global_column R r i)))"
    by (rule sum.cong) auto
  also have "\<dots> = (\<Sum>(J, I) \<in> {0..<global_size (dim_y (run_global R))} \<times> {0..<global_size (dim_x (run_global R))}. \<Psi> J I)"
    by (rule sum.reindex_bij_betw [OF positions_bij [OF R]])
  also have "\<dots> = (\<Sum>J \<in> {0..<global_size (dim_y (run_global R))}. \<Sum>I \<in> {0..<global_size (dim_x (run_global R))}. \<Psi> J I)"
    by (rule sum.cartesian_product [symmetric])
  finally show ?thesis .
qed

text \<open>The mean at one level, of a field with any number of levels.\<close>

lemma mean_of_level_cells:
  assumes "run_ok R" and "run_ranks R = {..<comm_size}" and "r \<in> run_ranks R"
    and "\<And>r j i. r \<in> run_ranks R \<Longrightarrow> interior (run_grid R r) j i \<Longrightarrow>
      fdata (f r) (0, k, j, i) = \<Psi> (global_row R r j) (global_column R r i)"
    and "ny' = global_size (dim_y (run_global R))" and "nx' = global_size (dim_x (run_global R))"
  shows "mean_of_level comm_size (run_grid R) f k r = (\<Sum>J \<in> {0..<ny'}. \<Sum>I \<in> {0..<nx'}. \<Psi> J I) / (of_int nx' * of_int ny')"
proof -
  have pos: "0 < nx'" "0 < ny'" using run_okD(1,2) [OF assms(1)] by (simp_all add: assms(5,6))
  have "fold (\<lambda>s sum. sum + s) (map (\<lambda>s. local_sum (run_grid R s) (f s) k) [0..<comm_size]) 0 =
      (\<Sum>s \<in> run_ranks R. local_sum (run_grid R s) (f s) k)"
    using fold_sum [of "\<lambda>s. s" "map (\<lambda>s. local_sum (run_grid R s) (f s) k) [0..<comm_size]" 0]
    by (simp add: assms(2) interv_sum_list_conv_sum_set_nat atLeast0LessThan)
  also have "\<dots> = (\<Sum>J \<in> {0..<ny'}. \<Sum>I \<in> {0..<nx'}. \<Psi> J I)"
    unfolding assms(5,6) by (rule rank_sums [OF assms(1,4)])
  finally show ?thesis
    using pos by (simp add: mean_of_level_def Let_def run_global_size [OF assms(1,3)] assms(5,6))
qed

lemma mean_of_level_global:
  assumes "run_ok R" and "run_ranks R = {..<comm_size}" and "r \<in> run_ranks R"
    and "\<forall>r \<in> run_ranks R. agrees R \<Phi> r (f r) 0 0 \<and> 0 < ext_w (f r) \<and> 0 \<le> k \<and> k < ext_z (f r)"
    and "ny' = global_size (dim_y (run_global R))" and "nx' = global_size (dim_x (run_global R))"
  shows "mean_of_level comm_size (run_grid R) f k r = (\<Sum>J \<in> {0..<ny'}. \<Sum>I \<in> {0..<nx'}. \<Phi> 0 k J I) / (of_int nx' * of_int ny')"
proof (rule mean_of_level_cells [OF assms(1-3) _ assms(5,6)])
  fix r j i assume r: "r \<in> run_ranks R" and "interior (run_grid R r) j i"
  then show "fdata (f r) (0, k, j, i) = \<Phi> 0 k (global_row R r j) (global_column R r i)"
    using agreesD [of R \<Phi> r "f r" 0 0 0 k j i] assms(4) by (auto simp: run_interior [OF assms(1) r] run_global_size [OF assms(1) r])
qed

text \<open>A constant added to a field is added to its mean.\<close>

lemma mean_of_level_shift:
  assumes "run_ok R" and "run_ranks R = {..<comm_size}" and "r \<in> run_ranks R"
    and eq: "\<And>r j i. r \<in> run_ranks R \<Longrightarrow> interior (run_grid R r) j i \<Longrightarrow>
      fdata (f r) (0, k, j, i) = c + fdata (f' r) (0, k', j, i)"
    and "\<And>r. r \<in> run_ranks R \<Longrightarrow> 0 < ext_w (f' r) \<and> 0 \<le> k' \<and> k' < ext_z (f' r)"
  shows "mean_of_level comm_size (run_grid R) f k r = c + mean_of_level comm_size (run_grid R) f' k' r"
proof -
  let ?ny = "global_size (dim_y (run_global R))" and ?nx = "global_size (dim_x (run_global R))"
  have pos: "0 < ?nx" "0 < ?ny" using run_okD(1,2) [OF assms(1)] by simp_all
  obtain \<Phi> where A: "\<forall>r \<in> run_ranks R. agrees R \<Phi> r (f' r) 0 0" using owned_cells_agree [OF assms(1)] .
  have V: "fdata (f' r) (0, k', j, i) = \<Phi> 0 k' (global_row R r j) (global_column R r i)"
    if r: "r \<in> run_ranks R" "interior (run_grid R r) j i" for r j i
    using agreesD [OF bspec [OF A r(1)], of 0 k' j i] assms(5) [OF r(1)] r(2)
    by (simp add: run_interior [OF assms(1) r(1)] run_global_size [OF assms(1) r(1)])
  have "mean_of_level comm_size (run_grid R) f k r = (\<Sum>J \<in> {0..<?ny}. \<Sum>I \<in> {0..<?nx}. c + \<Phi> 0 k' J I) / (of_int ?nx * of_int ?ny)"
    by (rule mean_of_level_cells [OF assms(1-3) _ refl refl]) (simp add: eq V)
  also have "\<dots> = c + (\<Sum>J \<in> {0..<?ny}. \<Sum>I \<in> {0..<?nx}. \<Phi> 0 k' J I) / (of_int ?nx * of_int ?ny)"
    using pos by (simp add: sum.distrib field_simps)
  also have "(\<Sum>J \<in> {0..<?ny}. \<Sum>I \<in> {0..<?nx}. \<Phi> 0 k' J I) / (of_int ?nx * of_int ?ny) = mean_of_level comm_size (run_grid R) f' k' r"
    by (rule mean_of_level_cells [OF assms(1-3) _ refl refl, symmetric]) (simp add: V)
  finally show ?thesis .
qed

text \<open>C19. Horizontal means: on every process the mean of a 3-D field at a level is the mean of the global field over
  the whole domain, however the domain is decomposed; level \<open>-1\<close> stands for the highest physical level, and a level
  outside the physical range is an error.\<close>

theorem horizontal_mean_is_global:
  assumes "run_ok R" and "run_ranks R = {..<comm_size}"
    and "\<forall>r \<in> run_ranks R. fits R 3 1 (run_levels R) r (f r) \<and> agrees R \<Phi> r (f r) 0 0" and "r \<in> run_ranks R"
    and "k = (if k_level = -1 then run_levels R - run_halo R - 1 else k_level)"
    and "ny' = global_size (dim_y (run_global R))" and "nx' = global_size (dim_x (run_global R))"
  shows "calculate_horizontal_mean comm_size (run_grid R) f k_level r =
    (if run_halo R \<le> k \<and> k < run_levels R - run_halo R
     then Inr ((\<Sum>J \<in> {0..<ny'}. \<Sum>I \<in> {0..<nx'}. \<Phi> 0 k J I) / (of_int nx' * of_int ny'))
     else Inl (Level_out_of_range k (run_halo R) (run_levels R - run_halo R - 1)))"
proof -
  have lev: "mean_level (run_grid R r) k_level =
      (if run_halo R \<le> k \<and> k < run_levels R - run_halo R then Inr k
       else Inl (Level_out_of_range k (run_halo R) (run_levels R - run_halo R - 1)))"
    by (auto simp: mean_level_def Let_def run_grid_simps [OF assms(1,4)] assms(5) run_levels_def run_total_z [OF assms(1,4)])
  show ?thesis
  proof (cases "run_halo R \<le> k \<and> k < run_levels R - run_halo R")
    case True
    then have "0 \<le> k" "k < run_levels R" using depth_all [OF assms(1)] by simp_all
    then have "\<forall>r \<in> run_ranks R. agrees R \<Phi> r (f r) 0 0 \<and> 0 < ext_w (f r) \<and> 0 \<le> k \<and> k < ext_z (f r)"
      using assms(3) fits_levels by fastforce
    from mean_of_level_global [OF assms(1,2,4) this assms(6,7)] True show ?thesis
      by (simp add: calculate_horizontal_mean_def lev)
  qed (auto simp: calculate_horizontal_mean_def lev)
qed

lemma horizontal_mean_is_global_witness:
  "calculate_horizontal_mean 4 (run_grid sample_run) (sample_global_field (\<lambda>w k J I. of_int (J + k))) (-1) 0 = Inr 7 \<and>
   calculate_horizontal_mean 4 (run_grid sample_run) (sample_global_field (\<lambda>w k J I. of_int (J + k))) 6 0 = Inl (Level_out_of_range 6 2 5)"
proof -
  let ?f = "sample_global_field (\<lambda>w k J I. of_int (J + k))"
  have r: "run_ranks sample_run = {..<4}" "(0 :: nat) \<in> run_ranks sample_run" by (auto simp: sample_run_def)
  have F: "\<forall>r \<in> run_ranks sample_run. fits sample_run 3 1 (run_levels sample_run) r (?f r) \<and>
      agrees sample_run (\<lambda>w k J I. of_int (J + k)) r (?f r) 0 0"
    using sample_global_field_ok by blast
  have s: "{0..<5 :: int} = {0, 1, 2, 3, 4}" "{0..<7 :: int} = {0, 1, 2, 3, 4, 5, 6}" by auto
  have "calculate_horizontal_mean 4 (run_grid sample_run) ?f (-1) 0 = Inr 7"
    using horizontal_mean_is_global [OF sample_run_ok r(1) F r(2) refl refl refl, of "-1"]
    by (simp add: sample_run_sizes s)
  moreover have "calculate_horizontal_mean 4 (run_grid sample_run) ?f 6 0 = Inl (Level_out_of_range 6 2 5)"
    using horizontal_mean_is_global [OF sample_run_ok r(1) F r(2) refl refl refl, of 6]
    by (simp add: sample_run_sizes)
  ultimately show ?thesis by (rule conjI)
qed

end
