(* ===== verification/Dynamical_Core.thy ===== *)
theory Dynamical_Core
  imports Horizontal_Mean
begin

text \<open>
The diagnostic parts of \<open>DynamicalCore\<close> (\<^verbatim>\<open>src/dynamics/DynamicalCore.cpp\<close>) on a Cartesian geometry: the
  vertical vorticity (\<open>compute_zeta_vertical_structure\<close>), the mean wind of the top level (\<open>compute_uvtopmn\<close>) and its
  state across a restart (\<open>initialize_restart_history\<close>), and the density scaling around the evaluation of the
  vorticity tendencies.  The theorems join them with the recovery of the wind and with the horizontal means.
\<close>

section \<open>The vertical vorticity\<close>

text \<open>The loops of \<open>compute_zeta_vertical_structure\<close> over one column.\<close>

definition zeta_column :: "int \<Rightarrow> int \<Rightarrow> parameters \<Rightarrow> view \<Rightarrow> view \<Rightarrow> int \<Rightarrow> int \<Rightarrow> (int \<Rightarrow> real) \<Rightarrow> int \<Rightarrow> real" where
  "zeta_column h nz' P xi eta j i col =
     (let dxi = (\<lambda>k. xi (0, k, j, i + 1) - xi (0, k, j, i)); deta = (\<lambda>k. eta (0, k, j + 1, i) - eta (0, k, j, i));
          c = fold (\<lambda>k c. c(k := c (k + 1) + dxi k * p_rdx P * p_dz P / p_flex_up P k - deta k * p_rdy P * p_dz P / p_flex_up P k))
            (rev (range1 (h - 1) (nz' - h - 1))) col;
          t = nz' - h - 1
      in c(nz' - h := c t - dxi t * p_dz P * p_rdx P / p_flex_up P t + deta t * p_dz P * p_rdy P / p_flex_up P t))"

definition compute_zeta_vertical_structure :: "grid \<Rightarrow> parameters \<Rightarrow> view \<Rightarrow> view \<Rightarrow> view \<Rightarrow> view" where
  "compute_zeta_vertical_structure g P xi eta =
     column_kernel (physical_plane g) (zeta_column (get_halo_cells g) (get_local_total_points_z g) P xi eta)"

definition zeta_source :: "parameters \<Rightarrow> view \<Rightarrow> view \<Rightarrow> int \<Rightarrow> int \<Rightarrow> int \<Rightarrow> real" where
  "zeta_source P xi eta j i k =
     ((eta (0, k, j + 1, i) - eta (0, k, j, i)) * p_rdy P - (xi (0, k, j, i + 1) - xi (0, k, j, i)) * p_rdx P) * p_dz P / p_flex_up P k"

lemma zeta_column_integrates:
  "zeta_column h nz' P xi eta j i col = integrate_column h nz' (zeta_source P xi eta j i) col"
proof -
  have d: "c + (x - y) * p_rdx P * p_dz P / f - (a - b) * p_rdy P * p_dz P / f =
      c - ((a - b) * p_rdy P - (x - y) * p_rdx P) * p_dz P / f" for c x y a b f
    by (simp add: diff_divide_distrib left_diff_distrib)
  have u: "c - (x - y) * p_dz P * p_rdx P / f + (a - b) * p_dz P * p_rdy P / f =
      c + ((a - b) * p_rdy P - (x - y) * p_rdx P) * p_dz P / f" for c x y a b f
    by (simp add: diff_divide_distrib add_divide_distrib algebra_simps)
  show ?thesis
    unfolding zeta_column_def integrate_column_def Let_def d u zeta_source_def ..
qed

lemma zeta_cell:
  "interior g j i \<Longrightarrow> compute_zeta_vertical_structure g P xi eta zeta (0, k, j, i) =
    integrate_column (get_halo_cells g) (get_local_total_points_z g) (zeta_source P xi eta j i) (get_column j i zeta) k"
  by (simp add: compute_zeta_vertical_structure_def column_kernel_cell distinct_physical_plane in_physical_plane zeta_column_integrates)

definition vertical_vorticity :: "parameters \<Rightarrow> view \<times> view \<Rightarrow> int \<Rightarrow> int \<Rightarrow> int \<Rightarrow> real" where
  "vertical_vorticity P uv k j i =
     (snd uv (0, k, j, i + 1) - snd uv (0, k, j, i)) * p_rdx P - (fst uv (0, k, j + 1, i) - fst uv (0, k, j, i)) * p_rdy P"

text \<open>Vertical vorticity: the downward integration keeps the top level and makes the vorticity vector
  divergence free at every level, the first level above the model top included.\<close>

theorem vorticity_is_solenoidal:
  assumes "spacing_ok P" and "interior g j i" and "h = get_halo_cells g" and "nz' = get_local_total_points_z g"
    and "0 \<le> h" and "h \<le> nz' - h - 1" and "p_flex_up P k \<noteq> 0"
    and "zeta' = compute_zeta_vertical_structure g P xi eta zeta" and "h - 1 \<le> k" and "k \<le> nz' - h - 1"
  shows "(xi (0, k, j, i + 1) - xi (0, k, j, i)) * p_rdx P - (eta (0, k, j + 1, i) - eta (0, k, j, i)) * p_rdy P +
      (zeta' (0, k + 1, j, i) - zeta' (0, k, j, i)) * p_rdz P * p_flex_up P k = 0 \<and>
    zeta' (0, nz' - h - 1, j, i) = zeta (0, nz' - h - 1, j, i)"
proof -
  note Z = zeta_cell [OF assms(2), of P xi eta zeta, folded assms(3,4,8)]
  note I = integrate_column_eq [where F = "zeta_source P xi eta j i" and col = "get_column j i zeta", OF assms(5,6) refl]
  have r: "p_rdz P * p_dz P = 1" using assms(1) by (simp add: spacing_ok_def)
  have "(zeta' (0, k + 1, j, i) - zeta' (0, k, j, i)) * p_rdz P * p_flex_up P k =
      ((eta (0, k, j + 1, i) - eta (0, k, j, i)) * p_rdy P - (xi (0, k, j, i + 1) - xi (0, k, j, i)) * p_rdx P) * (p_rdz P * p_dz P)"
    using I(1) [OF assms(9,10)] assms(7) by (simp add: Z zeta_source_def)
  then show ?thesis using I(2) by (simp add: r Z get_column_def)
qed

lemma top_vorticity:
  assumes P: "spacing_ok P" and weight: "0 < column_weight P"
    and u: "\<And>a b. (a, b) \<in> {(j, i), (j, i + 1), (j + 1, i)} \<Longrightarrow>
      fst uv (0, k, a, b) = A + calculate_covariant_q1_at_u (cartesian_reconstruction P) psi chi a b \<and>
      snd uv (0, k, a, b) = B + calculate_covariant_q2_at_v (cartesian_reconstruction P) psi chi a b"
    and psi: "relax_point P r psi j i = psi (0, 0, j, i)"
  shows "vertical_vorticity P uv k j i = r"
proof -
  have sp: "p_rdx2 P = p_rdx P * p_rdx P" "p_rdy2 P = p_rdy P * p_rdy P" using P by (simp_all add: spacing_ok_def)
  note U = u [unfolded calculate_covariant_q1_at_u_def calculate_covariant_q2_at_v_def cartesian_reconstruction_def]
  have f: "fst uv (0, k, j, i) = A + (psi (0, 0, j - 1, i) - psi (0, 0, j, i)) * p_rdy P +
        (chi (0, 0, j, i + 1) - chi (0, 0, j, i)) * p_rdx P"
    "snd uv (0, k, j, i) = B + (psi (0, 0, j, i) - psi (0, 0, j, i - 1)) * p_rdx P +
        (chi (0, 0, j + 1, i) - chi (0, 0, j, i)) * p_rdy P"
    "snd uv (0, k, j, i + 1) = B + (psi (0, 0, j, i + 1) - psi (0, 0, j, i)) * p_rdx P +
        (chi (0, 0, j + 1, i + 1) - chi (0, 0, j, i + 1)) * p_rdy P"
    "fst uv (0, k, j + 1, i) = A + (psi (0, 0, j, i) - psi (0, 0, j + 1, i)) * p_rdy P +
        (chi (0, 0, j + 1, i + 1) - chi (0, 0, j + 1, i)) * p_rdx P"
    using U [of j i] U [of j "i + 1"] U [of "j + 1" i] by (simp_all add: Let_def)
  have "vertical_vorticity P uv k j i =
      p_rdx2 P * (psi (0, 0, j, i - 1) - 2 * psi (0, 0, j, i) + psi (0, 0, j, i + 1)) +
      p_rdy2 P * (psi (0, 0, j - 1, i) - 2 * psi (0, 0, j, i) + psi (0, 0, j + 1, i))"
    by (simp only: vertical_vorticity_def sp f) (simp add: algebra_simps)
  also have "\<dots> = r" by (rule relax_fixed [OF weight psi])
  finally show ?thesis .
qed

lemma zeta_shear_step:
  assumes u: "\<And>a b. (a, b) \<in> {(j, i), (j, i + 1), (j + 1, i)} \<Longrightarrow>
      fst uv (0, k + 1, a, b) - fst uv (0, k, a, b) = u_source P w eta a b k \<and>
      snd uv (0, k + 1, a, b) - snd uv (0, k, a, b) = v_source P w xi a b k"
  shows "vertical_vorticity P uv (k + 1) j i - vertical_vorticity P uv k j i = zeta_source P xi eta j i k"
proof -
  have "vertical_vorticity P uv (k + 1) j i - vertical_vorticity P uv k j i =
      (v_source P w xi j (i + 1) k - v_source P w xi j i k) * p_rdx P -
      (u_source P w eta (j + 1) i k - u_source P w eta j i k) * p_rdy P"
    using u [of j i] u [of j "i + 1"] u [of "j + 1" i] by (simp add: vertical_vorticity_def algebra_simps)
  also have "\<dots> = zeta_source P xi eta j i k"
    by (simp add: u_source_def v_source_def zeta_source_def diff_divide_distrib add_divide_distrib algebra_simps)
  finally show ?thesis .
qed

text \<open>C3. Wind recovery: the recovered horizontal wind has, together with the vertical wind, the vorticity it was
  recovered from: both horizontal components at every level, and the vertical component at every level when the
  stream function is a fixed point of its relaxation.\<close>

theorem recovered_wind_has_vorticity:
  assumes "spacing_ok P" and "0 < column_weight P" and "\<forall>l. h - 1 \<le> l \<and> l \<le> nz' - h - 1 \<longrightarrow> p_flex_up P l \<noteq> 0"
    and "h = get_halo_cells g" and "nz' = get_local_total_points_z g" and "0 \<le> h" and "h \<le> nz' - h - 1"
    and "interior g j i" and "interior g j (i + 1)" and "interior g (j + 1) i"
    and "zeta' = compute_zeta_vertical_structure g P xi eta zeta"
    and "relax_point P (rhs_psi g zeta' j i) psi j i = psi (0, 0, j, i)"
    and "uv' = recover_wind g P means predicted psi chi w xi eta top_wind uv" and "h - 1 \<le> k" and "k \<le> nz' - h - 1"
  shows "(w (0, k, j, i + 1) - w (0, k, j, i)) * p_rdx P -
      (fst uv' (0, k + 1, j, i) - fst uv' (0, k, j, i)) * p_rdz P * p_flex_up P k = eta (0, k, j, i) \<and>
    (w (0, k, j + 1, i) - w (0, k, j, i)) * p_rdy P -
      (snd uv' (0, k + 1, j, i) - snd uv' (0, k, j, i)) * p_rdz P * p_flex_up P k = xi (0, k, j, i) \<and>
    vertical_vorticity P uv' k j i = zeta' (0, k, j, i)"
proof -
  have hz: "0 \<le> get_halo_cells g" "get_halo_cells g \<le> get_local_total_points_z g - get_halo_cells g - 1"
    using assms(4-7) by simp_all
  have r: "p_rdz P * p_dz P = 1" using assms(1) by (simp add: spacing_ok_def)
  have own: "interior g a b" if "(a, b) \<in> {(j, i), (j, i + 1), (j + 1, i)}" for a b
    using that assms(8-10) by auto
  note S = recover_wind_step [OF hz assms(13), folded assms(4,5)]
  have horizontal: "(fst uv' (0, k + 1, j, i) - fst uv' (0, k, j, i)) * p_rdz P * p_flex_up P k =
      ((w (0, k, j, i + 1) - w (0, k, j, i)) * p_rdx P - eta (0, k, j, i)) * (p_rdz P * p_dz P)"
    "(snd uv' (0, k + 1, j, i) - snd uv' (0, k, j, i)) * p_rdz P * p_flex_up P k =
      ((w (0, k, j + 1, i) - w (0, k, j, i)) * p_rdy P - xi (0, k, j, i)) * (p_rdz P * p_dz P)"
    using S [OF assms(8,14,15)] assms(3) assms(14,15) by (simp_all add: u_source_def v_source_def)
  note Z = zeta_cell [OF assms(8), of P xi eta zeta, folded assms(4,5,11)]
  note I = integrate_column_eq [where F = "zeta_source P xi eta j i" and col = "get_column j i zeta", OF assms(6,7) refl, folded Z]
  let ?t = "nz' - h - 1"
  have top: "vertical_vorticity P uv' ?t j i = zeta' (0, ?t, j, i)"
  proof -
    have "rhs_psi g zeta' j i = zeta' (0, ?t, j, i)" by (simp add: rhs_psi_def assms(4,5))
    moreover have "vertical_vorticity P uv' ?t j i = rhs_psi g zeta' j i"
    proof (rule top_vorticity [OF assms(1,2) _ assms(12), where A = "fst predicted - clip_mean (fst means)"
          and B = "snd predicted - clip_mean (snd means)"])
      fix a b assume "(a, b) \<in> {(j, i), (j, i + 1), (j + 1, i)}"
      from recover_wind_top [OF hz assms(13) own [OF this], of ?t]
      show "fst uv' (0, ?t, a, b) = fst predicted - clip_mean (fst means) + calculate_covariant_q1_at_u (cartesian_reconstruction P) psi chi a b \<and>
          snd uv' (0, ?t, a, b) = snd predicted - clip_mean (snd means) + calculate_covariant_q2_at_v (cartesian_reconstruction P) psi chi a b"
        by (simp add: assms(4,5))
    qed
    ultimately show ?thesis by simp
  qed
  have "vertical_vorticity P uv' (?t - int m) j i = zeta' (0, ?t - int m, j, i)" if "h - 1 \<le> ?t - int m" for m
    using that
  proof (induction m)
    case 0
    show ?case using top by simp
  next
    case (Suc m)
    let ?k = "?t - int (Suc m)"
    have e: "?k + 1 = ?t - int m" by simp
    have k: "h - 1 \<le> ?k" "?k \<le> ?t" using Suc.prems by simp_all
    have "vertical_vorticity P uv' (?k + 1) j i - vertical_vorticity P uv' ?k j i = zeta_source P xi eta j i ?k"
      by (rule zeta_shear_step [where w = w]) (use S [OF own k] in blast)
    with I(1) [OF k] Suc show ?case unfolding e by simp
  qed
  from this [of "nat (?t - k)"] assms(14,15) horizontal show ?thesis by (simp add: r)
qed

section \<open>The mean wind of the top level\<close>

text \<open>The scalars that \<open>compute_uvtopmn\<close> advances, with the two tendency slots of each.\<close>

record top_mean =
  utopmn :: real
  vtopmn :: real
  utopmn_m :: real
  vtopmn_m :: real
  d_utopmn :: "real \<times> real"
  d_vtopmn :: "real \<times> real"

definition slot :: "nat \<Rightarrow> 'a \<times> 'a \<Rightarrow> 'a" where
  "slot k d = (if k = 0 then fst d else snd d)"

definition set_slot :: "nat \<Rightarrow> 'a \<Rightarrow> 'a \<times> 'a \<Rightarrow> 'a \<times> 'a" where
  "set_slot k x d = (if k = 0 then (x, snd d) else (fst d, x))"

text \<open>The horizontal means of one step: of the vertical fluxes of momentum, of the turbulent fluxes and of the
  Coriolis terms.\<close>

record top_forcing =
  tempumn :: real
  tempvmn :: real
  mean_u_turb :: real
  mean_v_turb :: real
  mean_u_coriolis :: real
  mean_v_coriolis :: real

definition flux_kernel :: "grid \<Rightarrow> (int \<Rightarrow> real) \<Rightarrow> view \<Rightarrow> view \<Rightarrow> view \<Rightarrow> view \<times> view \<Rightarrow> view \<times> view" where
  "flux_kernel g rhobar u v w =
     (let NK1 = get_local_total_points_z g - get_halo_cells g - 2; NK2 = NK1 + 1 in
      write_plane_pair g 0
        (\<lambda>j i. (rhobar NK1 * u (0, NK1, j, i) + rhobar NK2 * u (0, NK2, j, i)) * (w (0, NK1, j, i) + w (0, NK1, j, i + 1)))
        (\<lambda>j i. (rhobar NK1 * v (0, NK1, j, i) + rhobar NK2 * v (0, NK2, j, i)) * (w (0, NK1, j, i) + w (0, NK1, j + 1, i))))"

definition turbulent_flux_kernel :: "grid \<Rightarrow> (int \<Rightarrow> real) \<Rightarrow> view \<Rightarrow> view \<Rightarrow> view \<Rightarrow> view \<times> view \<Rightarrow> view \<times> view" where
  "turbulent_flux_kernel g rhobar_up RKM R_xi R_eta =
     (let NK1 = get_local_total_points_z g - get_halo_cells g - 2; NK2 = NK1 + 1 in
      write_plane_pair g 0
        (\<lambda>j i. (RKM (0, NK1, j, i) + RKM (0, NK1, j, i + 1) + RKM (0, NK2, j, i) + RKM (0, NK2, j, i + 1)) *
           R_eta (0, NK1, j, i) * rhobar_up NK1)
        (\<lambda>j i. (RKM (0, NK1, j, i) + RKM (0, NK1, j + 1, i) + RKM (0, NK2, j, i) + RKM (0, NK2, j + 1, i)) *
           R_xi (0, NK1, j, i) * rhobar_up NK1))"

definition coriolis_kernel :: "grid \<Rightarrow> (int \<Rightarrow> real) \<Rightarrow> view \<Rightarrow> view \<Rightarrow> view \<times> view \<Rightarrow> view \<times> view" where
  "coriolis_kernel g f u v =
     (let NK2 = get_local_total_points_z g - get_halo_cells g - 1 in
      write_plane_pair g 0 (\<lambda>j i. f j * v (0, NK2, j, i)) (\<lambda>j i. f j * u (0, NK2, j, i)))"

definition top_tendency :: "grid \<Rightarrow> parameters \<Rightarrow> (int \<Rightarrow> real) \<Rightarrow> top_forcing \<Rightarrow> real \<times> real" where
  "top_tendency g P rhobar F =
     (let NK2 = get_local_total_points_z g - get_halo_cells g - 1; mid = p_flex_mid P NK2 in
      (1 / 4 * mid * tempumn F * p_rdz P / rhobar NK2 - 1 / 4 * mid * mean_u_turb F * p_rdz P / rhobar NK2 + mean_u_coriolis F,
       1 / 4 * mid * tempvmn F * p_rdz P / rhobar NK2 - 1 / 4 * mid * mean_v_turb F * p_rdz P / rhobar NK2 - mean_v_coriolis F))"

definition advance_top_mean :: "nat \<Rightarrow> real \<Rightarrow> real \<times> real \<Rightarrow> top_mean \<Rightarrow> top_mean" where
  "advance_top_mean step dt tendency s =
     (let now = step mod 2; prev = (step + 1) mod 2;
          s1 = s\<lparr>utopmn_m := utopmn s, vtopmn_m := vtopmn s,
            d_utopmn := set_slot now (fst tendency) (d_utopmn s), d_vtopmn := set_slot now (snd tendency) (d_vtopmn s)\<rparr>
      in if step = 0 then
           s1\<lparr>utopmn := utopmn_m s1 + dt * slot now (d_utopmn s1), vtopmn := vtopmn_m s1 + dt * slot now (d_vtopmn s1)\<rparr>
         else
           s1\<lparr>utopmn := utopmn_m s1 + dt * (3 / 2 * slot now (d_utopmn s1) - 1 / 2 * slot prev (d_utopmn s1)),
              vtopmn := vtopmn_m s1 + dt * (3 / 2 * slot now (d_vtopmn s1) - 1 / 2 * slot prev (d_vtopmn s1))\<rparr>)"

text \<open>What \<open>compute_uvtopmn\<close> reads on one process.\<close>

record top_input =
  ti_u :: view
  ti_v :: view
  ti_w :: view
  ti_RKM :: view
  ti_R_xi :: view
  ti_R_eta :: view
  ti_f :: "int \<Rightarrow> real"
  ti_tempu :: "real field"
  ti_tempv :: "real field"

definition clipped_means :: "nat \<Rightarrow> (nat \<Rightarrow> grid) \<Rightarrow> (nat \<Rightarrow> top_input) \<Rightarrow> (nat \<Rightarrow> view \<times> view) \<Rightarrow> nat \<Rightarrow> real \<times> real" where
  "clipped_means comm_size g inp temp r =
     (clip_mean (calculate_horizontal_mean2 comm_size g (\<lambda>s. (ti_tempu (inp s))\<lparr>fdata := fst (temp s)\<rparr>) r),
      clip_mean (calculate_horizontal_mean2 comm_size g (\<lambda>s. (ti_tempv (inp s))\<lparr>fdata := snd (temp s)\<rparr>) r))"

definition top_forcing_of ::
  "nat \<Rightarrow> (nat \<Rightarrow> grid) \<Rightarrow> (int \<Rightarrow> real) \<Rightarrow> (int \<Rightarrow> real) \<Rightarrow> bool \<Rightarrow> bool \<Rightarrow> (nat \<Rightarrow> top_input) \<Rightarrow> nat \<Rightarrow> top_forcing" where
  "top_forcing_of comm_size g rhobar rhobar_up enable_turbulence enable_coriolis inp r =
     (let temp = (\<lambda>s. (fdata (ti_tempu (inp s)), fdata (ti_tempv (inp s))));
          flux = (\<lambda>s. flux_kernel (g s) rhobar (ti_u (inp s)) (ti_v (inp s)) (ti_w (inp s)) (temp s));
          turb = (\<lambda>s. if enable_turbulence
             then turbulent_flux_kernel (g s) rhobar_up (ti_RKM (inp s)) (ti_R_xi (inp s)) (ti_R_eta (inp s)) (flux s) else flux s);
          cor = (\<lambda>s. coriolis_kernel (g s) (ti_f (inp s)) (ti_u (inp s)) (ti_v (inp s)) (turb s));
          mf = clipped_means comm_size g inp flux r;
          mt = (if enable_turbulence then clipped_means comm_size g inp turb r else (0, 0));
          mc = (if enable_coriolis then clipped_means comm_size g inp cor r else (0, 0))
      in \<lparr>tempumn = fst mf, tempvmn = snd mf, mean_u_turb = fst mt, mean_v_turb = snd mt,
          mean_u_coriolis = fst mc, mean_v_coriolis = snd mc\<rparr>)"

definition compute_uvtopmn ::
  "nat \<Rightarrow> (nat \<Rightarrow> grid) \<Rightarrow> parameters \<Rightarrow> (int \<Rightarrow> real) \<Rightarrow> (int \<Rightarrow> real) \<Rightarrow> bool \<Rightarrow> bool \<Rightarrow> nat \<Rightarrow> real \<Rightarrow>
   (nat \<Rightarrow> top_input) \<Rightarrow> (nat \<Rightarrow> top_mean) \<Rightarrow> nat \<Rightarrow> top_mean" where
  "compute_uvtopmn comm_size g P rhobar rhobar_up enable_turbulence enable_coriolis step dt inp st r =
     advance_top_mean step dt
       (top_tendency (g r) P rhobar (top_forcing_of comm_size g rhobar rhobar_up enable_turbulence enable_coriolis inp r)) (st r)"

text \<open>\<open>initialize_restart_history\<close>: the means are recovered from the loaded wind, their tendencies are not touched.\<close>

definition restart_top_mean ::
  "nat \<Rightarrow> (nat \<Rightarrow> grid) \<Rightarrow> (nat \<Rightarrow> real field) \<Rightarrow> (nat \<Rightarrow> real field) \<Rightarrow> (nat \<Rightarrow> top_mean) \<Rightarrow> nat \<Rightarrow> mean_error + top_mean" where
  "restart_top_mean comm_size g u v st r =
     (case calculate_horizontal_mean comm_size g u (-1) r of Inl e \<Rightarrow> Inl e
      | Inr mu \<Rightarrow>
          (case calculate_horizontal_mean comm_size g v (-1) r of Inl e \<Rightarrow> Inl e
           | Inr mv \<Rightarrow> Inr ((st r)\<lparr>utopmn := mu, vtopmn := mv, utopmn_m := mu, vtopmn_m := mv\<rparr>)))"

text \<open>The history of the other prognostic variables: the tendency of the loaded state fills both slots.\<close>

definition duplicate_history :: "nat \<Rightarrow> view \<times> view \<Rightarrow> view \<times> view" where
  "duplicate_history step d = (let now = slot (step mod 2) d in (now, now))"

section \<open>The mean wind across a restart\<close>

text \<open>The mean of the recovered top wind is the predicted mean, up to a clipped mean of the potential flow.\<close>

lemma recovered_top_mean:
  assumes R: "run_ok R" "run_ranks R = {..<comm_size}" "r \<in> run_ranks R" and K: "K = run_levels R - run_halo R - 1"
    and lev: "run_halo R \<le> K"
    and uv: "\<And>r. uv' r = recover_wind (run_grid R r) P (mu, mv) predicted (psi r) (chi r) (w r) (xi r) (eta r) (tw r) (uv r)"
    and U: "\<And>r. r \<in> run_ranks R \<Longrightarrow> fdata (u r) = fst (uv' r) \<and> fdata (v r) = snd (uv' r)"
    and T: "\<And>r. r \<in> run_ranks R \<Longrightarrow> fits R 2 1 1 r (ut r) \<and> fits R 2 1 1 r (vt r) \<and>
      (fdata (ut r), fdata (vt r)) = reconstruct_cartesian_top_wind (run_grid R r) P (psi r) (chi r) (tw r)"
    and mu: "mu = calculate_horizontal_mean2 comm_size (run_grid R) ut r"
    and mv: "mv = calculate_horizontal_mean2 comm_size (run_grid R) vt r"
  shows "mean_of_level comm_size (run_grid R) u K r = fst predicted - clip_mean mu + mu"
    and "mean_of_level comm_size (run_grid R) v K r = snd predicted - clip_mean mv + mv"
proof -
  have cell: "fdata (u r) (0, K, j, i) = fst predicted - clip_mean mu + fdata (ut r) (0, 0, j, i) \<and>
      fdata (v r) (0, K, j, i) = snd predicted - clip_mean mv + fdata (vt r) (0, 0, j, i)"
    if r: "r \<in> run_ranks R" and int: "interior (run_grid R r) j i" for r j i
  proof -
    let ?g = "run_grid R r"
    have z: "get_halo_cells ?g = run_halo R" "get_local_total_points_z ?g = run_levels R"
      by (simp_all add: run_grid_simps(1) [OF R(1) r] run_levels_def run_total_z [OF R(1) r])
    have hz: "0 \<le> get_halo_cells ?g" "get_halo_cells ?g \<le> get_local_total_points_z ?g - get_halo_cells ?g - 1"
      using depth_all [OF R(1)] lev by (simp_all add: z K)
    have "fdata (ut r) = fst (reconstruct_cartesian_top_wind ?g P (psi r) (chi r) (tw r))"
      "fdata (vt r) = snd (reconstruct_cartesian_top_wind ?g P (psi r) (chi r) (tw r))"
      using T [OF r] by (simp_all add: prod_eq_iff)
    then show ?thesis
      using recover_wind_top [OF hz uv int, of K] int
      by (simp add: U [OF r] z K reconstruct_cartesian_top_wind_def Let_def plane_pair)
  qed
  have ext: "0 < ext_w (ut r) \<and> 0 \<le> (0 :: int) \<and> 0 < ext_z (ut r)" "0 < ext_w (vt r) \<and> 0 \<le> (0 :: int) \<and> 0 < ext_z (vt r)"
    if "r \<in> run_ranks R" for r
    using T [OF that] by (simp_all add: fits_def)
  show "mean_of_level comm_size (run_grid R) u K r = fst predicted - clip_mean mu + mu"
    using mean_of_level_shift [OF R _ ext(1), of u K] cell by (simp add: mu calculate_horizontal_mean2_def)
  show "mean_of_level comm_size (run_grid R) v K r = snd predicted - clip_mean mv + mv"
    using mean_of_level_shift [OF R _ ext(2), of v K] cell by (simp add: mv calculate_horizontal_mean2_def)
qed

lemma clip_mean_close: "\<bar>m - clip_mean m\<bar> < 1 / 10 ^ 15"
  by (simp add: clip_mean_def)

text \<open>C13. Restart of the top mean wind: from the wind that the solver recovered before the restart, the mean is
  restored to the predicted mean up to 1e-15, and to the same value on every process.\<close>

theorem top_mean_survives_restart:
  assumes "run_ok R" and "run_ranks R = {..<comm_size}" and "r \<in> run_ranks R"
    and "run_halo R \<le> run_levels R - run_halo R - 1"
    and "\<And>r. uv' r = recover_wind (run_grid R r) P (mu, mv) predicted (psi r) (chi r) (w r) (xi r) (eta r) (tw r) (uv r)"
    and "\<And>r. r \<in> run_ranks R \<Longrightarrow> fdata (u r) = fst (uv' r) \<and> fdata (v r) = snd (uv' r)"
    and "\<And>r. r \<in> run_ranks R \<Longrightarrow> fits R 2 1 1 r (ut r) \<and> fits R 2 1 1 r (vt r) \<and>
      (fdata (ut r), fdata (vt r)) = reconstruct_cartesian_top_wind (run_grid R r) P (psi r) (chi r) (tw r)"
    and "\<And>r. r \<in> run_ranks R \<Longrightarrow> mu = calculate_horizontal_mean2 comm_size (run_grid R) ut r \<and>
      mv = calculate_horizontal_mean2 comm_size (run_grid R) vt r"
  shows "\<exists>s. restart_top_mean comm_size (run_grid R) u v st r = Inr s \<and>
    \<bar>utopmn s - fst predicted\<bar> < 1 / 10 ^ 15 \<and> \<bar>vtopmn s - snd predicted\<bar> < 1 / 10 ^ 15 \<and>
    utopmn s = fst predicted - clip_mean mu + mu \<and> vtopmn s = snd predicted - clip_mean mv + mv \<and>
    d_utopmn s = d_utopmn (st r)"
proof -
  let ?K = "run_levels R - run_halo R - 1"
  have mu: "mu = calculate_horizontal_mean2 comm_size (run_grid R) ut r" and mv: "mv = calculate_horizontal_mean2 comm_size (run_grid R) vt r"
    using assms(8) [OF assms(3)] by simp_all
  note m = recovered_top_mean [OF assms(1-3) refl assms(4-7) mu mv]
  have lev: "mean_level (run_grid R r) (-1) = Inr ?K"
    using assms(4) by (simp add: mean_level_def Let_def run_grid_simps(1) [OF assms(1,3)] run_levels_def run_total_z [OF assms(1,3)])
  show ?thesis
    using clip_mean_close [of mu] clip_mean_close [of mv]
    by (simp add: restart_top_mean_def calculate_horizontal_mean_def lev m)
qed

text \<open>C12. First step after a restart: the tendencies of the top mean wind are not restored, so a step that is not
  the first of the run adds one and a half times the tendency of the loaded state to the mean; the duplicated
  history makes the same scheme add the tendency once to every other prognostic variable.\<close>

theorem restarted_top_mean_overshoots:
  assumes "restart_top_mean comm_size g u v st r = Inr s" and "d_utopmn (st r) = (0, 0)" and "d_vtopmn (st r) = (0, 0)"
    and "0 < step" and "st1 r = s"
    and "T = top_tendency (g r) P rhobar (top_forcing_of comm_size g rhobar rhobar_up turbulence coriolis inp r)"
    and "s' = compute_uvtopmn comm_size g P rhobar rhobar_up turbulence coriolis step dt inp st1 r"
    and "hist = duplicate_history step d"
  shows "utopmn s' = utopmn s + 3 / 2 * (dt * fst T) \<and> vtopmn s' = vtopmn s + 3 / 2 * (dt * snd T) \<and>
    dt * (3 / 2 * slot (step mod 2) hist c - 1 / 2 * slot ((step + 1) mod 2) hist c) = dt * slot (step mod 2) d c"
proof -
  have s: "d_utopmn s = (0, 0)" "d_vtopmn s = (0, 0)"
    using assms(1-3) by (auto simp: restart_top_mean_def split: sum.splits)
  have m: "step mod 2 = 0 \<and> (step + 1) mod 2 = 1 \<or> step mod 2 = 1 \<and> (step + 1) mod 2 = 0" by presburger
  then show ?thesis
    using assms(4) s
    by (auto simp: assms(5-8) compute_uvtopmn_def advance_top_mean_def Let_def slot_def set_slot_def duplicate_history_def)
qed

lemma mean_uniform:
  assumes "run_ok R" "r \<in> run_ranks R" "s \<in> run_ranks R"
  shows "mean_of_level n (run_grid R) f k r = mean_of_level n (run_grid R) f k s"
  by (simp add: mean_of_level_def Let_def run_global_size [OF assms(1,2)] run_global_size [OF assms(1,3)])

section \<open>Density scaling\<close>

definition scale_levels :: "grid \<Rightarrow> int \<Rightarrow> (real \<Rightarrow> real \<Rightarrow> real) \<Rightarrow> (int \<Rightarrow> real) \<Rightarrow> view \<Rightarrow> view" where
  "scale_levels g k_end' f rho =
     parallel_for (mdrange3 (get_halo_cells g - 1) 0 0 k_end' (get_local_total_points_y g) (get_local_total_points_x g))
       (\<lambda>(k, j, i) d. d((0, k, j, i) := f (d (0, k, j, i)) (rho k)))"

text \<open>The prognostic vorticity \<open>xi_con\<close>, \<open>eta_con\<close> and its compatibility copies.\<close>

record vorticity =
  xi_con :: view
  eta_con :: view
  zeta_con :: view
  xi_phys :: view
  eta_phys :: view
  zeta_phys :: view

definition sync_physical_horizontal_vorticity_from_contravariant :: "vorticity \<Rightarrow> vorticity" where
  "sync_physical_horizontal_vorticity_from_contravariant s = s\<lparr>xi_phys := xi_con s, eta_phys := eta_con s\<rparr>"

definition sync_contravariant_vorticity_from_physical :: "vorticity \<Rightarrow> vorticity" where
  "sync_contravariant_vorticity_from_physical s = s\<lparr>xi_con := xi_phys s, eta_con := eta_phys s, zeta_con := zeta_phys s\<rparr>"

definition prepare_vorticity_for_tendency_evaluation ::
  "grid \<Rightarrow> (int \<Rightarrow> real) \<Rightarrow> (int \<Rightarrow> real) \<Rightarrow> vorticity \<Rightarrow> vorticity" where
  "prepare_vorticity_for_tendency_evaluation g rhobar rhobar_up s0 =
     (let s = sync_physical_horizontal_vorticity_from_contravariant s0; k1 = get_local_total_points_z g - get_halo_cells g in
      s\<lparr>xi_phys := scale_levels g k1 divide rhobar_up (xi_phys s), eta_phys := scale_levels g k1 divide rhobar_up (eta_phys s),
        zeta_phys := scale_levels g (k1 + 1) divide rhobar (zeta_phys s)\<rparr>)"

definition restore_vorticity_after_tendency_evaluation ::
  "grid \<Rightarrow> (int \<Rightarrow> real) \<Rightarrow> (int \<Rightarrow> real) \<Rightarrow> vorticity \<Rightarrow> vorticity" where
  "restore_vorticity_after_tendency_evaluation g rhobar rhobar_up s =
     (let k1 = get_local_total_points_z g - get_halo_cells g in
      s\<lparr>xi_phys := scale_levels g k1 times rhobar_up (xi_phys s), eta_phys := scale_levels g k1 times rhobar_up (eta_phys s),
        zeta_phys := scale_levels g (k1 + 1) times rhobar (zeta_phys s)\<rparr>)"

text \<open>\<open>calculate_vorticity_tendencies\<close> on a Cartesian grid: \<open>tend\<close> evaluates the tendencies of the scaled
  vorticity into their own arrays.\<close>

definition calculate_vorticity_tendencies ::
  "grid \<Rightarrow> (int \<Rightarrow> real) \<Rightarrow> (int \<Rightarrow> real) \<Rightarrow> (vorticity \<Rightarrow> 't \<Rightarrow> 't) \<Rightarrow> vorticity \<times> 't \<Rightarrow> vorticity \<times> 't" where
  "calculate_vorticity_tendencies g rhobar rhobar_up tend st =
     (let s = prepare_vorticity_for_tendency_evaluation g rhobar rhobar_up (fst st); t = tend s (snd st)
      in (sync_contravariant_vorticity_from_physical (restore_vorticity_after_tendency_evaluation g rhobar rhobar_up s), t))"

lemma scale_levels_eq:
  "scale_levels g k1 f rho d = (\<lambda>(a, k, j, i). if a = 0 \<and> get_halo_cells g - 1 \<le> k \<and> k < k1 \<and>
      0 \<le> j \<and> j < get_local_total_points_y g \<and> 0 \<le> i \<and> i < get_local_total_points_x g
    then f (d (a, k, j, i)) (rho k) else d (a, k, j, i))"
proof -
  have "distinct cells \<Longrightarrow> parallel_for cells (\<lambda>(k, j, i) d. d((0, k, j, i) := f (d (0, k, j, i)) (rho k))) d =
      (\<lambda>(a, k, j, i). if a = 0 \<and> (k, j, i) \<in> set cells then f (d (a, k, j, i)) (rho k) else d (a, k, j, i))" for cells
  proof (induction cells arbitrary: d)
    case Nil
    show ?case by auto
  next
    case (Cons c cells)
    then show ?case by (cases c) (auto simp: fun_eq_iff)
  qed
  then show ?thesis by (simp add: scale_levels_def distinct_mdrange3 in_mdrange3)
qed

text \<open>Vorticity tendencies: they are evaluated on the vorticity divided by the density of its level, and leave
  the prognostic vorticity and its copies as they were wherever the densities are positive.\<close>

theorem tendency_evaluation_restores_vorticity:
  assumes "\<forall>k \<in> {get_halo_cells g - 1..<get_local_total_points_z g - get_halo_cells g}. 0 < rhobar_up k"
    and "\<forall>k \<in> {get_halo_cells g - 1..get_local_total_points_z g - get_halo_cells g}. 0 < rhobar k"
    and "zeta_con s = zeta_phys s" and "(s', t') = calculate_vorticity_tendencies g rhobar rhobar_up tend (s, t)"
  shows "s' = sync_physical_horizontal_vorticity_from_contravariant s \<and>
    (\<exists>e. t' = tend e t \<and> (\<forall>k j i. get_halo_cells g \<le> k \<and> k < get_local_total_points_z g - get_halo_cells g \<and> interior g j i \<and> 0 \<le> get_halo_cells g \<longrightarrow>
      xi_phys e (0, k, j, i) = xi_con s (0, k, j, i) / rhobar_up k \<and> eta_phys e (0, k, j, i) = eta_con s (0, k, j, i) / rhobar_up k \<and>
      zeta_phys e (0, k, j, i) = zeta_phys s (0, k, j, i) / rhobar k))"
proof -
  let ?k1 = "get_local_total_points_z g - get_halo_cells g"
  have undo: "scale_levels g k1 times rho (scale_levels g k1 divide rho d) = d"
    if pos: "\<forall>k \<in> {get_halo_cells g - 1..<k1}. 0 < rho k" for k1 rho d
  proof -
    have "rho k \<noteq> 0" if "get_halo_cells g - 1 \<le> k" "k < k1" for k using pos that by force
    then show ?thesis by (auto simp: scale_levels_eq fun_eq_iff)
  qed
  have "\<forall>k \<in> {get_halo_cells g - 1..<?k1 + 1}. 0 < rhobar k" using assms(2) by auto
  note b = undo [OF assms(1)] undo [OF this]
  let ?e = "prepare_vorticity_for_tendency_evaluation g rhobar rhobar_up s"
  have "s' = sync_physical_horizontal_vorticity_from_contravariant s" "t' = tend ?e t"
    using assms(3,4) by (simp_all add: calculate_vorticity_tendencies_def Let_def prepare_vorticity_for_tendency_evaluation_def
        restore_vorticity_after_tendency_evaluation_def sync_contravariant_vorticity_from_physical_def
        sync_physical_horizontal_vorticity_from_contravariant_def b)
  moreover have "xi_phys ?e (0, k, j, i) = xi_con s (0, k, j, i) / rhobar_up k \<and> eta_phys ?e (0, k, j, i) = eta_con s (0, k, j, i) / rhobar_up k \<and>
      zeta_phys ?e (0, k, j, i) = zeta_phys s (0, k, j, i) / rhobar k"
    if "get_halo_cells g \<le> k" "k < ?k1" "interior g j i" "0 \<le> get_halo_cells g" for k j i
    using that by (simp add: prepare_vorticity_for_tendency_evaluation_def Let_def scale_levels_eq interior_def
        sync_physical_horizontal_vorticity_from_contravariant_def)
  ultimately show ?thesis by blast
qed

section \<open>Witnesses\<close>

lemma vorticity_is_solenoidal_witness:
  "let z = compute_zeta_vertical_structure small_grid sample_parameters sample_w sample_eta (\<lambda>_. 4)
   in (z (0, 4, 3, 3) - z (0, 3, 3, 3)) = 0 \<and> z (0, 5, 3, 3) = 4"
proof -
  have i: "interior small_grid 3 3" and hn: "2 = get_halo_cells small_grid" "8 = get_local_total_points_z small_grid"
    by (simp_all add: small_grid_sizes)
  have s: "spacing_ok sample_parameters" by (simp add: spacing_ok_def sample_parameters_def)
  show ?thesis
    using vorticity_is_solenoidal [OF s i hn, where xi = sample_w and eta = sample_eta and zeta = "\<lambda>_. 4" and k = 3, OF _ _ _ refl]
    by (simp add: Let_def sample_parameters_def sample_w_def sample_eta_def)
qed

text \<open>A vorticity of 2 at the top, and the stream function of its Poisson equation.\<close>

definition sample_psi :: view where
  "sample_psi = (\<lambda>(w, k, j, i). of_int (i * i))"

lemma recovered_wind_has_vorticity_witness:
  "let z = compute_zeta_vertical_structure small_grid sample_parameters (\<lambda>_. 5) sample_eta (\<lambda>_. 2);
       uv = recover_wind small_grid sample_parameters (1, 2) (3, 4) sample_psi sample_chi sample_w (\<lambda>_. 5) sample_eta
         (\<lambda>_. 0, \<lambda>_. 0) (\<lambda>_. 6, \<lambda>_. 7)
   in vertical_vorticity sample_parameters uv 2 3 3 = z (0, 2, 3, 3)"
proof -
  have i: "interior small_grid 3 3" "interior small_grid 3 (3 + 1)" "interior small_grid (3 + 1) 3"
    and hn: "2 = get_halo_cells small_grid" "8 = get_local_total_points_z small_grid"
    by (simp_all add: small_grid_sizes)
  have s: "spacing_ok sample_parameters" "0 < column_weight sample_parameters"
    "\<forall>l. 2 - 1 \<le> l \<and> l \<le> 8 - 2 - 1 \<longrightarrow> p_flex_up sample_parameters l \<noteq> 0"
    by (simp_all add: spacing_ok_def column_weight_def sample_parameters_def)
  let ?z = "compute_zeta_vertical_structure small_grid sample_parameters (\<lambda>_. 5) sample_eta (\<lambda>_. 2)"
  have "?z (0, 8 - 2 - 1, 3, 3) = 2"
    using integrate_column_eq(2) [of 2 8 _ "zeta_source sample_parameters (\<lambda>_. 5) sample_eta 3 3" "get_column 3 3 (\<lambda>_. 2)", OF _ _ refl]
    by (simp add: zeta_cell [OF i(1)] small_grid_sizes get_column_def)
  then have "relax_point sample_parameters (rhs_psi small_grid ?z 3 3) sample_psi 3 3 = sample_psi (0, 0, 3, 3)"
    by (simp add: relax_point_def rhs_psi_def small_grid_sizes sample_parameters_def sample_psi_def Let_def)
  from recovered_wind_has_vorticity [OF s hn _ _ i refl this refl, of 2] show ?thesis by (simp add: Let_def)
qed

text \<open>A run of four processes with a linear velocity potential: the top wind of the potential flow is 2 everywhere.\<close>

definition slope_chi :: view where
  "slope_chi = (\<lambda>(w, k, j, i). 2 * of_int i)"

definition top_wind_field :: "(view \<times> view \<Rightarrow> view) \<Rightarrow> nat \<Rightarrow> real field" where
  "top_wind_field sel r =
     (let g = run_grid sample_run r in
      \<lparr>fname = ''top'', fdim = 2, ext_w = 1, ext_z = 1, ext_y = get_local_total_points_y g, ext_x = get_local_total_points_x g,
       fdata = sel (reconstruct_cartesian_top_wind g sample_parameters (\<lambda>_. 0) slope_chi (\<lambda>_. 9, \<lambda>_. 9))\<rparr>)"

definition sample_recovery :: "nat \<Rightarrow> view \<times> view" where
  "sample_recovery r = recover_wind (run_grid sample_run r) sample_parameters (2, 0) (3, 4)
     (\<lambda>_. 0) slope_chi sample_w (\<lambda>_. 5) sample_eta (\<lambda>_. 9, \<lambda>_. 9) (\<lambda>_. 6, \<lambda>_. 7)"

definition recovered_field :: "(view \<times> view \<Rightarrow> view) \<Rightarrow> nat \<Rightarrow> real field" where
  "recovered_field sel r = (sample_global_field (\<lambda>_ _ _ _. 0) r)\<lparr>fdata := sel (sample_recovery r)\<rparr>"

lemma top_wind_fits:
  assumes "r \<in> run_ranks sample_run"
  shows "fits sample_run 2 1 1 r (top_wind_field sel r)"
  using run_grid_simps(4,5) [OF sample_run_ok assms] local_size_pos [OF sample_run_ok assms] run_okD(5) [OF sample_run_ok]
  by (simp add: fits_def top_wind_field_def field_wf_def Let_def)

lemma top_wind_means:
  assumes "r \<in> run_ranks sample_run"
  shows "calculate_horizontal_mean2 4 (run_grid sample_run) (top_wind_field fst) r = 2"
    and "calculate_horizontal_mean2 4 (run_grid sample_run) (top_wind_field snd) r = 0"
proof -
  have K: "run_ranks sample_run = {..<4}" by (auto simp: sample_run_def)
  note M = mean_of_level_cells [OF sample_run_ok K assms _ refl refl, of _ 0]
  have "fdata (top_wind_field fst r) (0, 0, j, i) = 2" "fdata (top_wind_field snd r) (0, 0, j, i) = 0"
    if "interior (run_grid sample_run r) j i" for r j i
    by (simp_all add: top_wind_field_def Let_def reconstruct_cartesian_top_wind_def plane_pair that
        calculate_covariant_q1_at_u_def calculate_covariant_q2_at_v_def cartesian_reconstruction_def slope_chi_def sample_parameters_def)
  then show "calculate_horizontal_mean2 4 (run_grid sample_run) (top_wind_field fst) r = 2"
    "calculate_horizontal_mean2 4 (run_grid sample_run) (top_wind_field snd) r = 0"
    using M [of "top_wind_field fst" "\<lambda>_ _. 2"] M [of "top_wind_field snd" "\<lambda>_ _. 0"]
    by (simp_all add: calculate_horizontal_mean2_def sample_run_sizes)
qed

definition fresh_top_mean :: top_mean where
  "fresh_top_mean = \<lparr>utopmn = 0, vtopmn = 0, utopmn_m = 0, vtopmn_m = 0, d_utopmn = (0, 0), d_vtopmn = (0, 0)\<rparr>"

lemma top_mean_survives_restart_witness:
  "\<exists>s. restart_top_mean 4 (run_grid sample_run) (recovered_field fst) (recovered_field snd) (\<lambda>_. fresh_top_mean) 0 = Inr s \<and>
    utopmn s = 3 \<and> vtopmn s = 4 \<and> d_utopmn s = (0, 0)"
proof -
  have K: "run_ranks sample_run = {..<4}" and r: "0 \<in> run_ranks sample_run" by (auto simp: sample_run_def)
  have lev: "run_halo sample_run \<le> run_levels sample_run - run_halo sample_run - 1" by (simp add: sample_run_sizes)
  have U: "fdata (recovered_field fst r) = fst (sample_recovery r) \<and> fdata (recovered_field snd r) = snd (sample_recovery r)" for r
    by (simp add: recovered_field_def)
  have T: "fits sample_run 2 1 1 r (top_wind_field fst r) \<and> fits sample_run 2 1 1 r (top_wind_field snd r) \<and>
      (fdata (top_wind_field fst r), fdata (top_wind_field snd r)) =
      reconstruct_cartesian_top_wind (run_grid sample_run r) sample_parameters (\<lambda>_. 0) slope_chi (\<lambda>_. 9, \<lambda>_. 9)"
    if "r \<in> run_ranks sample_run" for r
    using top_wind_fits [OF that] by (simp add: top_wind_field_def Let_def)
  have M: "2 = calculate_horizontal_mean2 4 (run_grid sample_run) (top_wind_field fst) r \<and>
      0 = calculate_horizontal_mean2 4 (run_grid sample_run) (top_wind_field snd) r" if "r \<in> run_ranks sample_run" for r
    using top_wind_means [OF that] by simp
  from top_mean_survives_restart [OF sample_run_ok K r lev sample_recovery_def U T M, of "\<lambda>_. fresh_top_mean"]
  show ?thesis by (auto simp: clip_mean_def fresh_top_mean_def)
qed

text \<open>A Coriolis parameter of one and a meridional wind of 4 accelerate the mean zonal wind by 4.\<close>

definition coriolis_input :: "nat \<Rightarrow> top_input" where
  "coriolis_input r = \<lparr>ti_u = (\<lambda>_. 0), ti_v = (\<lambda>_. 4), ti_w = (\<lambda>_. 0), ti_RKM = (\<lambda>_. 0), ti_R_xi = (\<lambda>_. 0), ti_R_eta = (\<lambda>_. 0),
     ti_f = (\<lambda>_. 1), ti_tempu = top_wind_field fst r, ti_tempv = top_wind_field snd r\<rparr>"

lemma plane_mean:
  assumes "r \<in> run_ranks sample_run"
  shows "calculate_horizontal_mean2 4 (run_grid sample_run) (\<lambda>s. (F s)\<lparr>fdata := fst (write_plane_pair (run_grid sample_run s) 0 (\<lambda>_ _. c) G (uv s))\<rparr>) r = c"
    and "calculate_horizontal_mean2 4 (run_grid sample_run) (\<lambda>s. (F s)\<lparr>fdata := snd (write_plane_pair (run_grid sample_run s) 0 H (\<lambda>_ _. c) (uv s))\<rparr>) r = c"
proof -
  have K: "run_ranks sample_run = {..<4}" by (auto simp: sample_run_def)
  note M = mean_of_level_cells [OF sample_run_ok K assms _ refl refl, of _ 0 "\<lambda>_ _. c"]
  show "calculate_horizontal_mean2 4 (run_grid sample_run) (\<lambda>s. (F s)\<lparr>fdata := fst (write_plane_pair (run_grid sample_run s) 0 (\<lambda>_ _. c) G (uv s))\<rparr>) r = c"
    unfolding calculate_horizontal_mean2_def by (subst M) (simp_all add: plane_pair sample_run_sizes)
  show "calculate_horizontal_mean2 4 (run_grid sample_run) (\<lambda>s. (F s)\<lparr>fdata := snd (write_plane_pair (run_grid sample_run s) 0 H (\<lambda>_ _. c) (uv s))\<rparr>) r = c"
    unfolding calculate_horizontal_mean2_def by (subst M) (simp_all add: plane_pair sample_run_sizes)
qed

lemma coriolis_tendency:
  "top_tendency (run_grid sample_run 0) sample_parameters (\<lambda>_. 1)
     (top_forcing_of 4 (run_grid sample_run) (\<lambda>_. 1) (\<lambda>_. 1) False True coriolis_input 0) = (4, 0)"
proof -
  have r: "0 \<in> run_ranks sample_run" by (auto simp: sample_run_def)
  show ?thesis
    by (simp add: top_tendency_def Let_def top_forcing_of_def clipped_means_def flux_kernel_def coriolis_kernel_def coriolis_input_def
        plane_mean [OF r] clip_mean_def)
qed

lemma restarted_top_mean_overshoots_witness:
  "\<exists>s. restart_top_mean 4 (run_grid sample_run) (\<lambda>r. sample_global_field (\<lambda>_ _ _ _. 3) r) (\<lambda>r. sample_global_field (\<lambda>_ _ _ _. 3) r)
      (\<lambda>_. fresh_top_mean) 0 = Inr s \<and>
    utopmn (compute_uvtopmn 4 (run_grid sample_run) sample_parameters (\<lambda>_. 1) (\<lambda>_. 1) False True 5 2 coriolis_input (\<lambda>_. s) 0) =
      utopmn s + 3 / 2 * (2 * 4)"
proof -
  have lev: "mean_level (run_grid sample_run 0) (-1) = Inr 5"
    using run_total_z [OF sample_run_ok, of 0] run_grid_simps(1) [OF sample_run_ok, of 0] sample_run_sizes
    by (simp add: mean_level_def Let_def sample_run_def run_levels_def)
  let ?f = "\<lambda>r. sample_global_field (\<lambda>_ _ _ _. 3) r"
  obtain s where s: "restart_top_mean 4 (run_grid sample_run) ?f ?f (\<lambda>_. fresh_top_mean) 0 = Inr s"
    by (simp add: restart_top_mean_def calculate_horizontal_mean_def lev)
  have "utopmn (compute_uvtopmn 4 (run_grid sample_run) sample_parameters (\<lambda>_. 1) (\<lambda>_. 1) False True 5 2 coriolis_input (\<lambda>_. s) 0) =
      utopmn s + 3 / 2 * (2 * 4)"
    using restarted_top_mean_overshoots [OF s, where step = 5 and P = sample_parameters and rhobar = "\<lambda>_. 1" and rhobar_up = "\<lambda>_. 1"
        and turbulence = False and coriolis = True and inp = coriolis_input and dt = 2 and ?st1.0 = "\<lambda>_. s"
        and d = "(\<lambda>_. 0, \<lambda>_. 0)", OF _ _ _ refl refl refl refl]
    by (simp add: coriolis_tendency fresh_top_mean_def)
  with s show ?thesis by blast
qed

definition sample_vorticity :: vorticity where
  "sample_vorticity = \<lparr>xi_con = (\<lambda>_. 1), eta_con = (\<lambda>_. 2), zeta_con = (\<lambda>_. 6), xi_phys = (\<lambda>_. 4), eta_phys = (\<lambda>_. 5), zeta_phys = (\<lambda>_. 6)\<rparr>"

lemma tendency_evaluation_restores_vorticity_witness:
  "\<exists>s'. calculate_vorticity_tendencies small_grid (\<lambda>_. 2) (\<lambda>_. 4) (\<lambda>e t. zeta_phys e (0, 3, 3, 3)) (sample_vorticity, 0) = (s', 3) \<and>
    xi_phys s' (0, 3, 3, 3) = 1 \<and> zeta_phys s' = (\<lambda>_. 6)"
proof -
  obtain s' t' where r: "(s', t') = calculate_vorticity_tendencies small_grid (\<lambda>_. 2) (\<lambda>_. 4) (\<lambda>e t. zeta_phys e (0, 3, 3, 3)) (sample_vorticity, 0)"
    by (metis surj_pair)
  have z: "zeta_con sample_vorticity = zeta_phys sample_vorticity" by (simp add: sample_vorticity_def)
  have "s' = sync_physical_horizontal_vorticity_from_contravariant sample_vorticity \<and> t' = 3"
    using tendency_evaluation_restores_vorticity [OF _ _ z r]
    by (simp add: small_grid_sizes sample_vorticity_def) force
  with r have "calculate_vorticity_tendencies small_grid (\<lambda>_. 2) (\<lambda>_. 4) (\<lambda>e t. zeta_phys e (0, 3, 3, 3)) (sample_vorticity, 0) =
      (sync_physical_horizontal_vorticity_from_contravariant sample_vorticity, 3)" by simp
  then show ?thesis
    by (intro exI [of _ "sync_physical_horizontal_vorticity_from_contravariant sample_vorticity"])
       (simp add: sync_physical_horizontal_vorticity_from_contravariant_def sample_vorticity_def)
qed

end
