(* ===== verification/Area_Nudging.thy ===== *)
theory Area_Nudging
  imports Nudging Dynamical_Core
begin

text \<open>
The nudging of the domain means (\<open>AreaMeanNudging\<close> in \<^verbatim>\<open>src/dynamics/forcings/AreaMeanNudging.cpp\<close>) on a Cartesian
  grid: its configuration, the wind profiles it reads and interpolates in time, the sums over all processes, and the
  change of the vorticity and of the mean top wind.  With the recovery of the wind it imposes the target profile on
  the domain mean of the horizontal wind.  The files are the parameter \<open>wind_files\<close>; every process gets the profile
  that rank 0 read (\<open>MPI_Bcast\<close>), and the sums of all processes in rank order (\<open>MPI_Allgather\<close>).
\<close>

section \<open>Construction\<close>

datatype area_error =
    Area_config_error config_error
  | Interval_not_positive
  | Unsupported_target_source string
  | Area_forcing_error string

record area_nudging =
  uvtau :: real
  nudgelim :: real
  inv_total_xy_pts :: real
  use_netcdf_target :: bool
  area_directory :: string
  area_prefix :: string
  forcing_interval_s :: real
  constant_upper_wind :: bool
  constant_upper_wind_threshold_Pa :: real

text \<open>The constructor; \<open>None\<close> when the nudging is not enabled.  The number of cells of a level is a product of
  32-bit integers, taken to wrap around.\<close>

definition make_area_nudging :: "json \<Rightarrow> grid \<Rightarrow> area_error + area_nudging option" where
  "make_area_nudging config g =
     (let key = (\<lambda>k. ''dynamics.forcings.areamn.'' @ k);
          get_bool = (\<lambda>k d. map_error Area_config_error (get_value_default as_bool config k d));
          get_real = (\<lambda>k d. map_error Area_config_error (get_value_default (map_option fval \<circ> as_double) config k d));
          get_string = (\<lambda>k d. map_error Area_config_error (get_value_default as_string config k d));
          total_pts = real_of_int (to_int32 (global_size (dim_x g) * global_size (dim_y g)))
      in rbind (get_bool (key ''enable'') False) (\<lambda>on.
         if \<not> on then Inr None else
         rbind (get_real (key ''uvtau'') 0) (\<lambda>tau.
         rbind (get_real (key ''nudge_start_m'') 0) (\<lambda>lim.
         rbind (get_string (key ''target_source'') ''initial'') (\<lambda>source.
         if source = ''netcdf'' then
           rbind (map_error Area_config_error (get_value as_string config (key ''forcing_data.directory''))) (\<lambda>dir.
           rbind (get_string (key ''forcing_data.file_prefix'') ''ls_forcing_'') (\<lambda>prefix.
           rbind (get_real (key ''forcing_data.update_interval_s'') 3600) (\<lambda>interval.
           if interval \<le> 0 then Inl Interval_not_positive else
           rbind (get_bool ''initial_conditions.constant_upper_wind.enable'' False) (\<lambda>upper.
           rbind (get_real ''initial_conditions.constant_upper_wind.pressure_threshold_Pa'' 3000) (\<lambda>threshold.
           Inr (Some \<lparr>uvtau = tau, nudgelim = lim, inv_total_xy_pts = 1 / total_pts, use_netcdf_target = True,
             area_directory = (if dir \<noteq> [] \<and> last dir \<noteq> CHR ''/'' then dir @ ''/'' else dir), area_prefix = prefix,
             forcing_interval_s = interval, constant_upper_wind = upper, constant_upper_wind_threshold_Pa = threshold\<rparr>))))))
         else if source \<noteq> ''initial'' then Inl (Unsupported_target_source source)
         else Inr (Some \<lparr>uvtau = tau, nudgelim = lim, inv_total_xy_pts = 1 / total_pts, use_netcdf_target = False,
             area_directory = [], area_prefix = [], forcing_interval_s = 3600, constant_upper_wind = False,
             constant_upper_wind_threshold_Pa = 3000\<rparr>))))))"

lemma make_area_nudgingD:
  assumes "make_area_nudging config g = Inr (Some A)"
  shows "inv_total_xy_pts A = 1 / real_of_int (to_int32 (global_size (dim_x g) * global_size (dim_y g)))"
    and "0 < forcing_interval_s A"
  using assms by (auto simp: make_area_nudging_def Let_def rbind_eq_Inr_iff split: if_splits)

section \<open>Profiles from files\<close>

text \<open>NetCDF is a parameter: the contents of a file, every part of which may be missing.\<close>

record wind_file =
  file_nz :: "int option"
  time_seconds :: "int option"
  file_U :: "(int \<Rightarrow> real) option"
  file_V :: "(int \<Rightarrow> real) option"
  file_pbar :: "(int \<Rightarrow> real) option"

type_synonym wind_files = "string \<Rightarrow> wind_file option"

definition area_forcing_filename :: "area_nudging \<Rightarrow> real \<Rightarrow> string" where
  "area_forcing_filename A t = area_directory A @ area_prefix A @ format_to_six_digits (nat (cpp_round t)) @ ''.nc''"

definition hold_upper :: "area_nudging \<Rightarrow> int \<Rightarrow> (int \<Rightarrow> real) \<Rightarrow> (int \<Rightarrow> real) \<Rightarrow> int \<Rightarrow> real" where
  "hold_upper A n pbar prof k =
     (if constant_upper_wind A then
        (case find (\<lambda>l. pbar l \<le> constant_upper_wind_threshold_Pa A) (range1 0 n) of
           None \<Rightarrow> prof k | Some l \<Rightarrow> if l < k then prof l else prof k)
      else prof k)"

text \<open>The levels of the domain and the halo below and above them.\<close>

definition profile_levels :: "grid \<Rightarrow> (int \<Rightarrow> real) \<Rightarrow> int \<Rightarrow> real" where
  "profile_levels g prof k =
     (let h = get_halo_cells g; n = global_size (dim_z g) in
      if k < h then prof 0 else if k < h + n then prof (k - h) else prof (n - 1))"

definition load_wind_profiles ::
  "grid \<Rightarrow> wind_files \<Rightarrow> area_nudging \<Rightarrow> real \<Rightarrow> area_error + (int \<Rightarrow> real) \<times> (int \<Rightarrow> real)" where
  "load_wind_profiles g files A expected_time =
     (let path = area_forcing_filename A expected_time; n = global_size (dim_z g) in
      case files path of None \<Rightarrow> Inl (Area_forcing_error path)
      | Some f \<Rightarrow>
         if file_nz f \<noteq> Some n \<or> time_seconds f \<noteq> Some (cpp_round expected_time) then Inl (Area_forcing_error path)
         else (case (file_U f, file_V f, file_pbar f) of
             (Some u, Some v, Some pbar) \<Rightarrow>
               Inr (profile_levels g (hold_upper A n pbar u), profile_levels g (hold_upper A n pbar v))
           | _ \<Rightarrow> Inl (Area_forcing_error path)))"

section \<open>Targets\<close>

record area_state =
  u_T1 :: "int \<Rightarrow> real"
  v_T1 :: "int \<Rightarrow> real"
  u_T2 :: "int \<Rightarrow> real"
  v_T2 :: "int \<Rightarrow> real"
  forcing_T1 :: real
  forcing_T2 :: real
  areamn_xi0 :: "int \<Rightarrow> real"
  areamn_eta0 :: "int \<Rightarrow> real"
  areamn_zeta0_top :: real
  areamn_utopmn0 :: real
  areamn_vtopmn0 :: real
  areamn_u_target :: "int \<Rightarrow> real"
  areamn_v_target :: "int \<Rightarrow> real"

text \<open>The loop of \<open>update_forcing_target\<close> that reads the files up to the interval of the model time.\<close>

definition next_forcing :: "grid \<Rightarrow> wind_files \<Rightarrow> area_nudging \<Rightarrow> area_state \<Rightarrow> area_error + area_state" where
  "next_forcing g files A s =
     (let s1 = s\<lparr>u_T1 := u_T2 s, v_T1 := v_T2 s, u_T2 := u_T1 s, v_T2 := v_T1 s,
            forcing_T1 := forcing_T2 s, forcing_T2 := forcing_T2 s + forcing_interval_s A\<rparr>
      in rbind (load_wind_profiles g files A (forcing_T2 s1)) (\<lambda>(u, v). Inr (s1\<lparr>u_T2 := u, v_T2 := v\<rparr>)))"

partial_function (option) advance_forcing ::
  "grid \<Rightarrow> wind_files \<Rightarrow> area_nudging \<Rightarrow> real \<Rightarrow> area_state \<Rightarrow> (area_error + area_state) option" where
  "advance_forcing g files A current_time s =
     (if current_time \<ge> forcing_T2 s then
        (case next_forcing g files A s of Inl e \<Rightarrow> Some (Inl e) | Inr s' \<Rightarrow> advance_forcing g files A current_time s')
      else Some (Inr s))"

definition interpolate_targets :: "grid \<Rightarrow> parameters \<Rightarrow> real \<Rightarrow> area_state \<Rightarrow> area_state" where
  "interpolate_targets g P current_time s =
     (let weight0 = (current_time - forcing_T1 s) / (forcing_T2 s - forcing_T1 s); weight = max 0 (min 1 weight0);
          h = get_halo_cells g; top_k = get_local_total_points_z g - h - 1;
          u = (\<lambda>k. (1 - weight) * u_T1 s k + weight * u_T2 s k); v = (\<lambda>k. (1 - weight) * v_T1 s k + weight * v_T2 s k);
          s1 = parallel_for (range1 h top_k) (\<lambda>k s. s\<lparr>
             areamn_u_target := (areamn_u_target s)(k := u k), areamn_v_target := (areamn_v_target s)(k := v k),
             areamn_eta0 := (areamn_eta0 s)(k := - (u (k + 1) - u k) * p_rdz P * p_flex_up P k),
             areamn_xi0 := (areamn_xi0 s)(k := - (v (k + 1) - v k) * p_rdz P * p_flex_up P k)\<rparr>) s
      in s1\<lparr>areamn_xi0 := (areamn_xi0 s1)(top_k := 0), areamn_eta0 := (areamn_eta0 s1)(top_k := 0),
           areamn_u_target := (areamn_u_target s1)(top_k := u top_k), areamn_v_target := (areamn_v_target s1)(top_k := v top_k),
           areamn_utopmn0 := u top_k, areamn_vtopmn0 := v top_k\<rparr>)"

definition update_forcing_target ::
  "grid \<Rightarrow> wind_files \<Rightarrow> area_nudging \<Rightarrow> parameters \<Rightarrow> real \<Rightarrow> area_state \<Rightarrow> (area_error + area_state) option" where
  "update_forcing_target g files A P current_time s =
     (if \<not> use_netcdf_target A then Some (Inr s)
      else (case advance_forcing g files A current_time s of
          None \<Rightarrow> None | Some (Inl e) \<Rightarrow> Some (Inl e) | Some (Inr s') \<Rightarrow> Some (Inr (interpolate_targets g P current_time s'))))"

section \<open>Sums\<close>

text \<open>\<open>AREAMN_Sum\<close> and \<open>deterministic_global_sum\<close>: the sum of every physical level, in rank order.\<close>

definition level_sum :: "nat \<Rightarrow> (nat \<Rightarrow> grid) \<Rightarrow> (nat \<Rightarrow> real field) \<Rightarrow> int \<Rightarrow> real" where
  "level_sum comm_size g f k = fold (\<lambda>s total. total + s) (map (\<lambda>r. local_sum (g r) (f r) k) [0..<comm_size]) 0"

definition global_sum :: "nat \<Rightarrow> (nat \<Rightarrow> grid) \<Rightarrow> (nat \<Rightarrow> real field) \<Rightarrow> nat \<Rightarrow> int \<Rightarrow> real" where
  "global_sum comm_size g f r k =
     (if get_halo_cells (g r) \<le> k \<and> k < get_local_total_points_z (g r) - get_halo_cells (g r)
      then level_sum comm_size g f k else 0)"

record area_fields =
  an_xi :: "real field"
  an_eta :: "real field"
  an_zeta :: "real field"
  an_u :: "real field"
  an_v :: "real field"
  an_itypeu :: view
  an_itypev :: view

text \<open>\<open>initialize\<close> on one process, from the sums over all: the targets, and the mean top wind set to them.\<close>

definition initial_targets ::
  "nat \<Rightarrow> (nat \<Rightarrow> grid) \<Rightarrow> area_nudging \<Rightarrow> (nat \<Rightarrow> area_fields) \<Rightarrow> nat \<Rightarrow> area_state \<Rightarrow> area_state" where
  "initial_targets comm_size g A F r s =
     (let inv = inv_total_xy_pts A; top_k = get_local_total_points_z (g r) - get_halo_cells (g r) - 1;
          in_range = (\<lambda>k. 0 \<le> k \<and> k < get_local_total_points_z (g r)) in
      s\<lparr>areamn_xi0 := (\<lambda>k. if in_range k then global_sum comm_size g (\<lambda>r. an_xi (F r)) r k * inv else areamn_xi0 s k),
        areamn_eta0 := (\<lambda>k. if in_range k then global_sum comm_size g (\<lambda>r. an_eta (F r)) r k * inv else areamn_eta0 s k),
        areamn_zeta0_top := level_sum comm_size g (\<lambda>r. an_zeta (F r)) top_k * inv,
        areamn_utopmn0 := level_sum comm_size g (\<lambda>r. an_u (F r)) top_k * inv,
        areamn_vtopmn0 := level_sum comm_size g (\<lambda>r. an_v (F r)) top_k * inv\<rparr>)"

definition initialize_area_nudging ::
  "nat \<Rightarrow> (nat \<Rightarrow> grid) \<Rightarrow> wind_files \<Rightarrow> area_nudging \<Rightarrow> parameters \<Rightarrow> real \<Rightarrow> (nat \<Rightarrow> area_fields) \<Rightarrow> nat \<Rightarrow>
   area_state \<times> top_mean \<Rightarrow> (area_error + area_state \<times> top_mean) option" where
  "initialize_area_nudging comm_size g files A P time F r st =
     (let s = initial_targets comm_size g A F r (fst st); tm = (snd st)\<lparr>utopmn := areamn_utopmn0 s, vtopmn := areamn_vtopmn0 s\<rparr>;
          t1 = of_int \<lfloor>time / forcing_interval_s A\<rfloor> * forcing_interval_s A; t2 = t1 + forcing_interval_s A in
      if \<not> use_netcdf_target A then Some (Inr (s, tm))
      else (case rbind (load_wind_profiles (g r) files A t1) (\<lambda>(u1, v1).
                 rbind (load_wind_profiles (g r) files A t2) (\<lambda>(u2, v2).
                   Inr (s\<lparr>forcing_T1 := t1, forcing_T2 := t2, u_T1 := u1, v_T1 := v1, u_T2 := u2, v_T2 := v2\<rparr>))) of
          Inl e \<Rightarrow> Some (Inl e)
        | Inr s1 \<Rightarrow> (case update_forcing_target (g r) files A P time s1 of
            None \<Rightarrow> None | Some (Inl e) \<Rightarrow> Some (Inl e) | Some (Inr s2) \<Rightarrow> Some (Inr (s2, tm)))))"

section \<open>Nudging\<close>

definition nudged_mean :: "area_nudging \<Rightarrow> real \<Rightarrow> real \<Rightarrow> real \<Rightarrow> real" where
  "nudged_mean A dt current target =
     (if uvtau A = 0 then target else (1 - dt / uvtau A) * current + target * (dt / uvtau A))"

text \<open>\<open>AREAMN_Apply\<close>: \<open>gxi\<close>, \<open>geta\<close> and \<open>gzeta\<close> are the sums.\<close>

definition areamn_apply ::
  "grid \<Rightarrow> area_nudging \<Rightarrow> (int \<Rightarrow> real) \<Rightarrow> real \<Rightarrow> area_state \<Rightarrow> (int \<Rightarrow> real) \<times> (int \<Rightarrow> real) \<times> real \<Rightarrow> view \<times> view \<Rightarrow>
   view \<times> view \<times> view \<Rightarrow> view \<times> view \<times> view" where
  "areamn_apply g A z_coords dt s totals itype =
     (case totals of (gxi, geta, gzeta) \<Rightarrow> case itype of (iu, iv) \<Rightarrow>
      (let h = get_halo_cells g; nz' = get_local_total_points_z g; inv = inv_total_xy_pts A in
      parallel_for (physical_cells g h (nz' - h)) (\<lambda>(k, j, i) (xi, eta, zeta).
        let c = (0, k, j, i); sum_xi = gxi k * inv; sum_eta = geta k * inv;
            sumxn = nudged_mean A dt sum_xi (areamn_xi0 s k); sumyn = nudged_mean A dt sum_eta (areamn_eta0 s k);
            high = z_coords k \<ge> nudgelim A
        in (if high \<and> iv c = 1 then xi(c := xi c - sum_xi + sumxn) else xi,
            if high \<and> iu c = 1 then eta(c := eta c - sum_eta + sumyn) else eta,
            if k = nz' - h - 1 then zeta(c := zeta c - gzeta * inv + areamn_zeta0_top s) else zeta))))"

definition apply_area_vorticity ::
  "nat \<Rightarrow> (nat \<Rightarrow> grid) \<Rightarrow> area_nudging \<Rightarrow> (int \<Rightarrow> real) \<Rightarrow> real \<Rightarrow> (nat \<Rightarrow> area_state) \<Rightarrow> (nat \<Rightarrow> area_fields) \<Rightarrow> nat \<Rightarrow> area_fields" where
  "apply_area_vorticity comm_size g A z_coords dt s F r =
     (let f = F r; top_k = get_local_total_points_z (g r) - get_halo_cells (g r) - 1;
          totals = (global_sum comm_size g (\<lambda>r. an_xi (F r)) r, global_sum comm_size g (\<lambda>r. an_eta (F r)) r,
            level_sum comm_size g (\<lambda>r. an_zeta (F r)) top_k)
      in case areamn_apply (g r) A z_coords dt (s r) totals (an_itypeu f, an_itypev f) (fdata (an_xi f), fdata (an_eta f), fdata (an_zeta f)) of
         (xi, eta, zeta) \<Rightarrow> f\<lparr>an_xi := (an_xi f)\<lparr>fdata := xi\<rparr>, an_eta := (an_eta f)\<lparr>fdata := eta\<rparr>, an_zeta := (an_zeta f)\<lparr>fdata := zeta\<rparr>\<rparr>)"

definition apply_uvtopmn :: "area_nudging \<Rightarrow> real \<Rightarrow> area_state \<Rightarrow> top_mean \<Rightarrow> top_mean" where
  "apply_uvtopmn A dt s tm =
     tm\<lparr>utopmn := nudged_mean A dt (utopmn tm) (areamn_utopmn0 s), vtopmn := nudged_mean A dt (vtopmn tm) (areamn_vtopmn0 s)\<rparr>"

section \<open>The forcing interval\<close>

lemmas advance_forcing_unfold = advance_forcing.simps

text \<open>The loop ends for every interval that the constructor accepts, whatever the files hold.\<close>

lemma advance_forcing_returns:
  assumes "0 < forcing_interval_s A"
  shows "\<exists>x. advance_forcing g files A t s = Some x"
proof -
  have "t - forcing_T2 s < real n * forcing_interval_s A \<Longrightarrow> \<exists>x. advance_forcing g files A t s = Some x" for n
  proof (induction n arbitrary: s)
    case 0
    then show ?case by (subst advance_forcing.simps) simp
  next
    case (Suc n)
    show ?case
    proof (cases "forcing_T2 s \<le> t")
      case False
      then show ?thesis by (subst advance_forcing.simps) simp
    next
      case loop: True
      show ?thesis
      proof (cases "next_forcing g files A s")
        case (Inl e)
        with loop show ?thesis by (subst advance_forcing.simps) simp
      next
        case (Inr s')
        then have "forcing_T2 s' = forcing_T2 s + forcing_interval_s A"
          by (auto simp: next_forcing_def Let_def rbind_eq_Inr_iff)
        with Suc.prems have "t - forcing_T2 s' < real n * forcing_interval_s A" by (simp add: algebra_simps)
        from Suc.IH [OF this] Inr loop show ?thesis by (subst advance_forcing.simps) simp
      qed
    qed
  qed
  moreover obtain n where "(t - forcing_T2 s) / forcing_interval_s A < real n" using reals_Archimedean2 by blast
  ultimately show ?thesis using assms by (simp add: divide_less_eq)
qed

text \<open>The buffers hold the profiles of the two ends of interval \<open>n\<close>.\<close>

definition forcing_at ::
  "area_nudging \<Rightarrow> (nat \<Rightarrow> (int \<Rightarrow> real) \<times> (int \<Rightarrow> real)) \<Rightarrow> nat \<Rightarrow> area_state \<Rightarrow> bool" where
  "forcing_at A prof n s \<longleftrightarrow>
     forcing_T1 s = real n * forcing_interval_s A \<and> forcing_T2 s = real (Suc n) * forcing_interval_s A \<and>
     (u_T1 s, v_T1 s) = prof n \<and> (u_T2 s, v_T2 s) = prof (Suc n)"

definition files_hold :: "grid \<Rightarrow> wind_files \<Rightarrow> area_nudging \<Rightarrow> (nat \<Rightarrow> (int \<Rightarrow> real) \<times> (int \<Rightarrow> real)) \<Rightarrow> nat \<Rightarrow> bool" where
  "files_hold g files A prof N \<longleftrightarrow> (\<forall>n \<le> N. load_wind_profiles g files A (real n * forcing_interval_s A) = Inr (prof n))"

lemma next_forcing_at:
  assumes "files_hold g files A prof N" and "forcing_at A prof n s" and "Suc (Suc n) \<le> N"
  shows "\<exists>s'. next_forcing g files A s = Inr s' \<and> forcing_at A prof (Suc n) s'"
proof -
  have t2: "forcing_T2 s + forcing_interval_s A = real (Suc (Suc n)) * forcing_interval_s A"
    and T2: "forcing_T2 s = real (Suc n) * forcing_interval_s A"
    using assms(2) by (simp_all add: forcing_at_def algebra_simps)
  have "load_wind_profiles g files A (forcing_T2 s + forcing_interval_s A) = Inr (prof (Suc (Suc n)))"
    using assms(1,3) unfolding t2 files_hold_def by blast
  then have "next_forcing g files A s = Inr (s\<lparr>u_T1 := u_T2 s, v_T1 := v_T2 s, u_T2 := fst (prof (Suc (Suc n))),
      v_T2 := snd (prof (Suc (Suc n))), forcing_T1 := forcing_T2 s, forcing_T2 := forcing_T2 s + forcing_interval_s A\<rparr>)"
    by (simp add: next_forcing_def Let_def case_prod_beta)
  then show ?thesis using assms(2) T2 t2 unfolding forcing_at_def by force
qed

lemma advance_forcing_at:
  assumes I: "0 < forcing_interval_s A" and F: "files_hold g files A prof (Suc (nat \<lfloor>t / forcing_interval_s A\<rfloor>))"
    and "forcing_at A prof n s" and "real n * forcing_interval_s A \<le> t"
  shows "\<exists>s'. advance_forcing g files A t s = Some (Inr s') \<and> forcing_at A prof (nat \<lfloor>t / forcing_interval_s A\<rfloor>) s'"
  using assms(3,4)
proof (induction "nat \<lfloor>t / forcing_interval_s A\<rfloor> - n" arbitrary: n s)
  case 0
  have le: "real n \<le> t / forcing_interval_s A" using 0(3) I by (simp add: pos_le_divide_eq)
  then have "nat \<lfloor>t / forcing_interval_s A\<rfloor> = n" using 0(1) by linarith
  moreover from this le have "t / forcing_interval_s A < real (Suc n)" by linarith
  then have "t < forcing_T2 s" using 0(2) I by (simp add: forcing_at_def pos_divide_less_eq)
  ultimately show ?case using 0(2) by (subst advance_forcing.simps) simp
next
  case (Suc m)
  have "real (Suc n) \<le> t / forcing_interval_s A" using Suc(2) by linarith
  then have le: "real (Suc n) * forcing_interval_s A \<le> t" using I by (simp add: pos_le_divide_eq)
  then have loop: "forcing_T2 s \<le> t" using Suc(3) by (simp add: forcing_at_def)
  have "Suc (Suc n) \<le> Suc (nat \<lfloor>t / forcing_interval_s A\<rfloor>)" using Suc(2) by arith
  then obtain s' where s': "next_forcing g files A s = Inr s'" "forcing_at A prof (Suc n) s'"
    using next_forcing_at [OF F Suc(3)] by blast
  have "m = nat \<lfloor>t / forcing_interval_s A\<rfloor> - Suc n" using Suc(2) by simp
  from Suc(1) [OF this s'(2) le] s'(1) loop show ?case by (subst advance_forcing.simps) simp
qed

section \<open>The targets of a time\<close>

lemma target_loop:
  "distinct ks \<Longrightarrow> parallel_for ks (\<lambda>k s. s\<lparr>areamn_u_target := (areamn_u_target s)(k := u k),
      areamn_v_target := (areamn_v_target s)(k := v k), areamn_eta0 := (areamn_eta0 s)(k := e k),
      areamn_xi0 := (areamn_xi0 s)(k := x k)\<rparr>) s =
    s\<lparr>areamn_u_target := (\<lambda>k. if k \<in> set ks then u k else areamn_u_target s k),
      areamn_v_target := (\<lambda>k. if k \<in> set ks then v k else areamn_v_target s k),
      areamn_eta0 := (\<lambda>k. if k \<in> set ks then e k else areamn_eta0 s k),
      areamn_xi0 := (\<lambda>k. if k \<in> set ks then x k else areamn_xi0 s k)\<rparr>"
proof (induction ks arbitrary: s)
  case Nil
  then show ?case by simp
next
  case (Cons k ks)
  then show ?case by (simp add: fun_eq_iff) 
qed

text \<open>The interpolation in time between two profiles.\<close>

definition profile_at :: "area_nudging \<Rightarrow> (nat \<Rightarrow> (int \<Rightarrow> real) \<times> (int \<Rightarrow> real)) \<Rightarrow> real \<Rightarrow> (int \<Rightarrow> real) \<times> (int \<Rightarrow> real)" where
  "profile_at A prof t =
     (let n = nat \<lfloor>t / forcing_interval_s A\<rfloor>; weight = t / forcing_interval_s A - real n in
      (\<lambda>k. (1 - weight) * fst (prof n) k + weight * fst (prof (Suc n)) k,
       \<lambda>k. (1 - weight) * snd (prof n) k + weight * snd (prof (Suc n)) k))"

definition targets_at :: "grid \<Rightarrow> parameters \<Rightarrow> (int \<Rightarrow> real) \<times> (int \<Rightarrow> real) \<Rightarrow> area_state \<Rightarrow> bool" where
  "targets_at g P UV s \<longleftrightarrow>
     (let h = get_halo_cells g; top_k = get_local_total_points_z g - h - 1 in
      (\<forall>k. h \<le> k \<and> k \<le> top_k \<longrightarrow> areamn_u_target s k = fst UV k \<and> areamn_v_target s k = snd UV k) \<and>
      (\<forall>k. h \<le> k \<and> k < top_k \<longrightarrow>
         areamn_eta0 s k = - (fst UV (k + 1) - fst UV k) * p_rdz P * p_flex_up P k \<and>
         areamn_xi0 s k = - (snd UV (k + 1) - snd UV k) * p_rdz P * p_flex_up P k) \<and>
      areamn_eta0 s top_k = 0 \<and> areamn_xi0 s top_k = 0 \<and> areamn_utopmn0 s = fst UV top_k \<and> areamn_vtopmn0 s = snd UV top_k)"

lemma interpolate_targets_at:
  assumes I: "0 < forcing_interval_s A" and n: "n = nat \<lfloor>t / forcing_interval_s A\<rfloor>" and "0 \<le> t" and s: "forcing_at A prof n s"
  shows "targets_at g P (profile_at A prof t) (interpolate_targets g P t s) \<and> forcing_at A prof n (interpolate_targets g P t s)"
proof -
  have "0 \<le> t / forcing_interval_s A" using assms(1,3) by simp
  then have le: "real n \<le> t / forcing_interval_s A" and lt: "t / forcing_interval_s A < real (Suc n)"
    unfolding n by linarith+
  have "(t - forcing_T1 s) / (forcing_T2 s - forcing_T1 s) = t / forcing_interval_s A - real n"
    using s I by (simp add: forcing_at_def field_simps)
  then have w: "max 0 (min 1 ((t - forcing_T1 s) / (forcing_T2 s - forcing_T1 s))) = t / forcing_interval_s A - real n"
    using le lt by simp
  have p: "u_T1 s = fst (prof n)" "v_T1 s = snd (prof n)" "u_T2 s = fst (prof (Suc n))" "v_T2 s = snd (prof (Suc n))"
    using s by (simp_all add: forcing_at_def prod_eq_iff)
  show ?thesis
    using s unfolding interpolate_targets_def Let_def w p target_loop [OF distinct_range1]
    by (auto simp: targets_at_def Let_def profile_at_def n [symmetric] range_simps forcing_at_def)
qed

text \<open>C34. Targets of the area-mean nudging: initialization at any time, a restart included, and every later update end,
  whatever the files hold; when the files up to the end of the interval exist they leave the buffers with the profiles at the two ends of the
  interval of the model time, and the targets with the profile interpolated to that time and its vertical shear.\<close>

theorem area_targets_follow_time:
  assumes "make_area_nudging config (g r) = Inr (Some A)" and "use_netcdf_target A" and "0 \<le> t"
  shows "(\<exists>x. initialize_area_nudging comm_size g files A P t F r st = Some x) \<and>
    (\<exists>x. update_forcing_target (g r) files A P t s = Some x) \<and>
    (files_hold (g r) files A prof (Suc (nat \<lfloor>t / forcing_interval_s A\<rfloor>)) \<longrightarrow>
      (\<exists>s' tm. initialize_area_nudging comm_size g files A P t F r st = Some (Inr (s', tm)) \<and>
        forcing_at A prof (nat \<lfloor>t / forcing_interval_s A\<rfloor>) s' \<and> targets_at (g r) P (profile_at A prof t) s') \<and>
      (forcing_at A prof n s \<and> real n * forcing_interval_s A \<le> t \<longrightarrow>
        (\<exists>s'. update_forcing_target (g r) files A P t s = Some (Inr s') \<and>
          forcing_at A prof (nat \<lfloor>t / forcing_interval_s A\<rfloor>) s' \<and> targets_at (g r) P (profile_at A prof t) s')))"
proof -
  have I: "0 < forcing_interval_s A" by (rule make_area_nudgingD(2) [OF assms(1)])
  have any: "\<exists>x. update_forcing_target (g r) files A P t s = Some x" for s
    using advance_forcing_returns [OF I, of "g r" files t s] by (auto simp: update_forcing_target_def split: sum.splits)
  have update: "\<exists>s'. update_forcing_target (g r) files A P t s = Some (Inr s') \<and>
      forcing_at A prof (nat \<lfloor>t / forcing_interval_s A\<rfloor>) s' \<and> targets_at (g r) P (profile_at A prof t) s'"
    if "files_hold (g r) files A prof (Suc (nat \<lfloor>t / forcing_interval_s A\<rfloor>))" and at: "forcing_at A prof n s" "real n * forcing_interval_s A \<le> t" for n s
  proof -
    from advance_forcing_at [OF I that] obtain s' where
      "advance_forcing (g r) files A t s = Some (Inr s')" "forcing_at A prof (nat \<lfloor>t / forcing_interval_s A\<rfloor>) s'" by blast
    with interpolate_targets_at [OF I refl assms(3) this(2), of "g r" P] show ?thesis by (simp add: update_forcing_target_def assms(2))
  qed
  have "\<exists>x. initialize_area_nudging comm_size g files A P t F r st = Some x"
  proof -
    have "\<exists>x. (case X of Inl e \<Rightarrow> Some (Inl e) | Inr s1 \<Rightarrow> (case update_forcing_target (g r) files A P t s1 of
        None \<Rightarrow> None | Some (Inl e) \<Rightarrow> Some (Inl e) | Some (Inr s2) \<Rightarrow> Some (Inr (s2, tm)))) = Some x"
      for X :: "area_error + area_state" and tm :: top_mean
    proof (cases X)
      case (Inr s1)
      from any [of s1] obtain y where "update_forcing_target (g r) files A P t s1 = Some y" by blast
      with Inr show ?thesis by (cases y) simp_all
    qed simp
    then show ?thesis by (simp only: initialize_area_nudging_def Let_def assms(2) not_True_eq_False if_False)
  qed
  moreover have "\<exists>s' tm. initialize_area_nudging comm_size g files A P t F r st = Some (Inr (s', tm)) \<and>
        forcing_at A prof (nat \<lfloor>t / forcing_interval_s A\<rfloor>) s' \<and> targets_at (g r) P (profile_at A prof t) s'"
    if F: "files_hold (g r) files A prof (Suc (nat \<lfloor>t / forcing_interval_s A\<rfloor>))"
  proof -
    let ?n = "nat \<lfloor>t / forcing_interval_s A\<rfloor>"
    have n: "of_int \<lfloor>t / forcing_interval_s A\<rfloor> = real ?n" using assms(3) I by simp
    have n1: "real ?n * forcing_interval_s A + forcing_interval_s A = real (Suc ?n) * forcing_interval_s A" by (simp add: algebra_simps)
    have l: "load_wind_profiles (g r) files A (real m * forcing_interval_s A) = Inr (prof m)" if "m \<le> Suc ?n" for m
      using F that by (simp add: files_hold_def)
    have "real ?n \<le> t / forcing_interval_s A" using assms(3) I by simp
    then have le: "real ?n * forcing_interval_s A \<le> t" using I by (simp add: pos_le_divide_eq)
    let ?s = "initial_targets comm_size g A F r (fst st)"
    let ?s1 = "?s\<lparr>forcing_T1 := real ?n * forcing_interval_s A, forcing_T2 := real (Suc ?n) * forcing_interval_s A,
       u_T1 := fst (prof ?n), v_T1 := snd (prof ?n), u_T2 := fst (prof (Suc ?n)), v_T2 := snd (prof (Suc ?n))\<rparr>"
    have "forcing_at A prof ?n ?s1" by (simp add: forcing_at_def)
    from update [OF F this le] obtain s' where s': "update_forcing_target (g r) files A P t ?s1 = Some (Inr s')"
      "forcing_at A prof ?n s'" "targets_at (g r) P (profile_at A prof t) s'" by blast
    have "initialize_area_nudging comm_size g files A P t F r st =
        Some (Inr (s', (snd st)\<lparr>utopmn := areamn_utopmn0 ?s, vtopmn := areamn_vtopmn0 ?s\<rparr>))"
      unfolding initialize_area_nudging_def Let_def n n1 l [OF le_SucI [OF order_refl]] l [OF order_refl]
      by (simp add: assms(2) case_prod_beta s'(1) del: of_nat_Suc)
    with s' show ?thesis by blast
  qed
  ultimately show ?thesis using any update by blast
qed

section \<open>What the nudging does to a cell\<close>

lemma triple_loop:
  "distinct cells \<Longrightarrow> parallel_for cells (\<lambda>(k, j, i) (a, b, c). let x = (0 :: int, k, j, i) in
      (if PA k x then a(x := a x + fa k) else a, if PB k x then b(x := b x + fb k) else b, if PC k then c(x := c x + fc) else c)) (a, b, c) =
    (let here = (\<lambda>(x, k, j, i). x = 0 \<and> (k, j, i) \<in> set cells) in
     (\<lambda>x. if here x \<and> PA (fst (snd x)) x then a x + fa (fst (snd x)) else a x,
      \<lambda>x. if here x \<and> PB (fst (snd x)) x then b x + fb (fst (snd x)) else b x,
      \<lambda>x. if here x \<and> PC (fst (snd x)) then c x + fc else (c x :: real)))" for a b c :: view
proof (induction cells arbitrary: a b c)
  case Nil
  show ?case by (auto simp: fun_eq_iff)
next
  case (Cons x cells)
  obtain k j i where x: "x = (k, j, i)" by (cases x)
  have "distinct cells" "(k, j, i) \<notin> set cells" using Cons.prems x by simp_all
  then show ?case
    unfolding x parallel_for_simps prod.case Let_def Cons.IH [OF \<open>distinct cells\<close>, unfolded Let_def]
    by (auto simp: fun_eq_iff)
qed

lemma areamn_apply_cell:
  assumes "(xi', eta', zeta') = areamn_apply g A z dt s (gxi, geta, gzeta) (iu, iv) (xi, eta, zeta)"
    and "get_halo_cells g \<le> k" and "k < get_local_total_points_z g - get_halo_cells g" and "interior g j i"
    and "c = (0, k, j, i)"
  shows "xi' c = (if nudgelim A \<le> z k \<and> iv c = 1
      then xi c + (nudged_mean A dt (gxi k * inv_total_xy_pts A) (areamn_xi0 s k) - gxi k * inv_total_xy_pts A) else xi c)"
    and "eta' c = (if nudgelim A \<le> z k \<and> iu c = 1
      then eta c + (nudged_mean A dt (geta k * inv_total_xy_pts A) (areamn_eta0 s k) - geta k * inv_total_xy_pts A) else eta c)"
    and "zeta' c = (if k = get_local_total_points_z g - get_halo_cells g - 1
      then zeta c + (areamn_zeta0_top s - gzeta * inv_total_xy_pts A) else zeta c)"
proof -
  have arr: "v - x + y = v + (y - x)" for v x y :: real by simp
  have "(k, j, i) \<in> set (physical_cells g (get_halo_cells g) (get_local_total_points_z g - get_halo_cells g))"
    using assms(2-4) by (simp add: in_physical_cells interior_def)
  moreover have "(xi', eta', zeta') = parallel_for (physical_cells g (get_halo_cells g) (get_local_total_points_z g - get_halo_cells g))
    (\<lambda>(k, j, i) (a, b, c). let x = (0, k, j, i) in
      (if nudgelim A \<le> z k \<and> iv x = 1 then a(x := a x + (nudged_mean A dt (gxi k * inv_total_xy_pts A) (areamn_xi0 s k) - gxi k * inv_total_xy_pts A)) else a,
       if nudgelim A \<le> z k \<and> iu x = 1 then b(x := b x + (nudged_mean A dt (geta k * inv_total_xy_pts A) (areamn_eta0 s k) - geta k * inv_total_xy_pts A)) else b,
       if k = get_local_total_points_z g - get_halo_cells g - 1 then c(x := c x + (areamn_zeta0_top s - gzeta * inv_total_xy_pts A)) else c)) (xi, eta, zeta)"
    unfolding assms(1) areamn_apply_def prod.case Let_def arr ..
  ultimately show
    "xi' c = (if nudgelim A \<le> z k \<and> iv c = 1
      then xi c + (nudged_mean A dt (gxi k * inv_total_xy_pts A) (areamn_xi0 s k) - gxi k * inv_total_xy_pts A) else xi c)"
    "eta' c = (if nudgelim A \<le> z k \<and> iu c = 1
      then eta c + (nudged_mean A dt (geta k * inv_total_xy_pts A) (areamn_eta0 s k) - geta k * inv_total_xy_pts A) else eta c)"
    "zeta' c = (if k = get_local_total_points_z g - get_halo_cells g - 1
      then zeta c + (areamn_zeta0_top s - gzeta * inv_total_xy_pts A) else zeta c)"
    using triple_loop [OF distinct_physical_cells, where
        PA = "\<lambda>k x. nudgelim A \<le> z k \<and> iv x = 1" and PB = "\<lambda>k x. nudgelim A \<le> z k \<and> iu x = 1"
        and PC = "\<lambda>k. k = get_local_total_points_z g - get_halo_cells g - 1"]
    by (simp_all add: Let_def assms(5))
qed

section \<open>Means\<close>

lemma owned_values:
  fixes val :: "nat \<Rightarrow> int \<Rightarrow> int \<Rightarrow> real"
  assumes "run_ok R"
  obtains \<Psi> where "\<And>r j i. r \<in> run_ranks R \<Longrightarrow> interior (run_grid R r) j i \<Longrightarrow> val r j i = \<Psi> (global_row R r j) (global_column R r i)"
proof -
  define \<Psi> where "\<Psi> J I = (SOME v. \<exists>r j i. r \<in> run_ranks R \<and> interior (run_grid R r) j i \<and> global_row R r j = J \<and>
    global_column R r i = I \<and> v = val r j i)" for J I
  show ?thesis
  proof (rule that)
    fix r j i assume own: "r \<in> run_ranks R" "interior (run_grid R r) j i"
    show "val r j i = \<Psi> (global_row R r j) (global_column R r i)"
      unfolding \<Psi>_def
    proof (rule some_equality [symmetric])
      show "\<exists>r' j' i'. r' \<in> run_ranks R \<and> interior (run_grid R r') j' i' \<and> global_row R r' j' = global_row R r j \<and>
        global_column R r' i' = global_column R r i \<and> val r j i = val r' j' i'" using own by blast
      fix v assume "\<exists>r' j' i'. r' \<in> run_ranks R \<and> interior (run_grid R r') j' i' \<and> global_row R r' j' = global_row R r j \<and>
        global_column R r' i' = global_column R r i \<and> v = val r' j' i'"
      then obtain r' j' i' where o: "r' \<in> run_ranks R" "interior (run_grid R r') j' i'" "global_row R r' j' = global_row R r j"
        "global_column R r' i' = global_column R r i" "v = val r' j' i'" by blast
      have "r' = r \<and> j' = j \<and> i' = i" by (rule owner_is_unique [OF assms o(1) own(1) o(2) own(2) o(3,4)])
      then show "v = val r j i" using o(5) by simp
    qed
  qed
qed

lemma sum_rotate:
  fixes f :: "int \<Rightarrow> real"
  assumes "0 < n"
  shows "(\<Sum>x \<in> {0..<n}. f ((x + 1) mod n)) = (\<Sum>x \<in> {0..<n}. f x)"
  by (rule sum.reindex_bij_witness [where i = "\<lambda>x. (x - 1) mod n" and j = "\<lambda>x. (x + 1) mod n"])
     (use assms in \<open>auto simp: mod_simps\<close>)

text \<open>A combination of two fields, and of a field whose global sum over a level vanishes.\<close>

lemma mean_combination:
  assumes R: "run_ok R" "run_ranks R = {..<comm_size}" "r \<in> run_ranks R"
    and eq: "\<And>r j i. r \<in> run_ranks R \<Longrightarrow> interior (run_grid R r) j i \<Longrightarrow>
      fdata (f r) (0, k, j, i) = fdata (p r) (0, kp, j, i) + c * fdata (q r) (0, kq, j, i) + \<Delta> (global_row R r j) (global_column R r i)"
    and zero: "(\<Sum>J \<in> {0..<global_size (dim_y (run_global R))}. \<Sum>I \<in> {0..<global_size (dim_x (run_global R))}. \<Delta> J I) = 0"
  shows "mean_of_level comm_size (run_grid R) f k r =
    mean_of_level comm_size (run_grid R) p kp r + c * mean_of_level comm_size (run_grid R) q kq r"
proof -
  let ?ny = "global_size (dim_y (run_global R))" and ?nx = "global_size (dim_x (run_global R))"
  obtain \<Phi>p where p: "\<And>r j i. r \<in> run_ranks R \<Longrightarrow> interior (run_grid R r) j i \<Longrightarrow>
      fdata (p r) (0, kp, j, i) = \<Phi>p (global_row R r j) (global_column R r i)"
    using owned_values [OF R(1), of "\<lambda>r j i. fdata (p r) (0, kp, j, i)"] by blast
  obtain \<Phi>q where q: "\<And>r j i. r \<in> run_ranks R \<Longrightarrow> interior (run_grid R r) j i \<Longrightarrow>
      fdata (q r) (0, kq, j, i) = \<Phi>q (global_row R r j) (global_column R r i)"
    using owned_values [OF R(1), of "\<lambda>r j i. fdata (q r) (0, kq, j, i)"] by blast
  have f: "fdata (f r) (0, k, j, i) = \<Phi>p (global_row R r j) (global_column R r i) +
      c * \<Phi>q (global_row R r j) (global_column R r i) + \<Delta> (global_row R r j) (global_column R r i)"
    if "r \<in> run_ranks R" "interior (run_grid R r) j i" for r j i
    using eq [OF that] p [OF that] q [OF that] by simp
  show ?thesis
    by (subst mean_of_level_cells [OF R p refl refl], assumption+, subst mean_of_level_cells [OF R q refl refl], assumption+,
        subst mean_of_level_cells [OF R f refl refl], assumption+)
       (simp add: zero sum.distrib sum_distrib_left add_divide_distrib)
qed

lemma level_mean:
  assumes "run_ok R" and "r \<in> run_ranks R"
    and "inv_total_xy_pts A = 1 / real_of_int (global_size (dim_x (run_global R)) * global_size (dim_y (run_global R)))"
  shows "level_sum comm_size (run_grid R) f k * inv_total_xy_pts A = mean_of_level comm_size (run_grid R) f k r"
  using run_okD(1,2) [OF assms(1)]
  by (simp add: mean_of_level_def Let_def run_global_size [OF assms(1,2)] level_sum_def assms(3))

lemma mean_shifted:
  assumes R: "run_ok R" "run_ranks R = {..<comm_size}" "r \<in> run_ranks R"
    and eq: "\<And>r j i. r \<in> run_ranks R \<Longrightarrow> interior (run_grid R r) j i \<Longrightarrow> fdata (f r) (0, k, j, i) = fdata (p r) (0, k, j, i) + c"
  shows "mean_of_level comm_size (run_grid R) f k r = mean_of_level comm_size (run_grid R) p k r + c"
proof -
  let ?ny = "global_size (dim_y (run_global R))" and ?nx = "global_size (dim_x (run_global R))"
  have pos: "0 < ?nx" "0 < ?ny" using run_okD(1,2) [OF R(1)] by simp_all
  obtain \<Phi>p where p: "\<And>r j i. r \<in> run_ranks R \<Longrightarrow> interior (run_grid R r) j i \<Longrightarrow>
      fdata (p r) (0, k, j, i) = \<Phi>p (global_row R r j) (global_column R r i)"
    using owned_values [OF R(1), of "\<lambda>r j i. fdata (p r) (0, k, j, i)"] by blast
  have f: "fdata (f r) (0, k, j, i) = \<Phi>p (global_row R r j) (global_column R r i) + c"
    if "r \<in> run_ranks R" "interior (run_grid R r) j i" for r j i
    using eq [OF that] p [OF that] by simp
  show ?thesis
    by (subst mean_of_level_cells [OF R p refl refl], assumption+, subst mean_of_level_cells [OF R f refl refl], assumption+)
       (use pos in \<open>simp add: sum.distrib field_simps\<close>)
qed

section \<open>The nudged vorticity\<close>

lemma area_inverse:
  assumes R: "run_ok R" "r \<in> run_ranks R" and "make_area_nudging config (run_grid R r) = Inr (Some A)"
    and "global_size (dim_x (run_global R)) * global_size (dim_y (run_global R)) < 2 ^ 31"
  shows "inv_total_xy_pts A = 1 / real_of_int (global_size (dim_x (run_global R)) * global_size (dim_y (run_global R)))"
proof -
  have "0 < global_size (dim_x (run_global R)) * global_size (dim_y (run_global R))"
    using run_okD(1,2) [OF R(1)] by simp
  then have "to_int32 (global_size (dim_x (run_global R)) * global_size (dim_y (run_global R))) =
      global_size (dim_x (run_global R)) * global_size (dim_y (run_global R))"
    using assms(4) by (intro to_int32_id) simp_all
  then show ?thesis using make_area_nudgingD(1) [OF assms(3)] by (simp add: run_global_size [OF R])
qed

lemma nudged_cell:
  assumes R: "run_ok R" "r \<in> run_ranks R" and inv: "inv_total_xy_pts A = 1 / real_of_int (global_size (dim_x (run_global R)) * global_size (dim_y (run_global R)))"
    and k: "run_halo R \<le> k" "k < run_levels R - run_halo R" and int: "interior (run_grid R r) j i" and c: "c = (0, k, j, i)"
    and F: "F' = apply_area_vorticity comm_size (run_grid R) A z dt s F r"
  shows "nudgelim A \<le> z k \<Longrightarrow> an_itypev (F r) c = 1 \<Longrightarrow> fdata (an_xi F') c = fdata (an_xi (F r)) c +
      (nudged_mean A dt (mean_of_level comm_size (run_grid R) (\<lambda>r. an_xi (F r)) k r) (areamn_xi0 (s r) k) -
       mean_of_level comm_size (run_grid R) (\<lambda>r. an_xi (F r)) k r)"
    and "nudgelim A \<le> z k \<Longrightarrow> an_itypeu (F r) c = 1 \<Longrightarrow> fdata (an_eta F') c = fdata (an_eta (F r)) c +
      (nudged_mean A dt (mean_of_level comm_size (run_grid R) (\<lambda>r. an_eta (F r)) k r) (areamn_eta0 (s r) k) -
       mean_of_level comm_size (run_grid R) (\<lambda>r. an_eta (F r)) k r)"
    and "k = run_levels R - run_halo R - 1 \<Longrightarrow> fdata (an_zeta F') c = fdata (an_zeta (F r)) c +
      (areamn_zeta0_top (s r) - mean_of_level comm_size (run_grid R) (\<lambda>r. an_zeta (F r)) k r)"
proof -
  let ?g = "run_grid R r"
  have z: "get_halo_cells ?g = run_halo R" "get_local_total_points_z ?g = run_levels R"
    by (simp_all add: run_grid_simps(1) [OF R] run_levels_def run_total_z [OF R])
  have k': "get_halo_cells ?g \<le> k" "k < get_local_total_points_z ?g - get_halo_cells ?g" using k by (simp_all add: z)
  obtain xi' eta' zeta' where e: "(xi', eta', zeta') = areamn_apply ?g A z dt (s r)
      (global_sum comm_size (run_grid R) (\<lambda>r. an_xi (F r)) r, global_sum comm_size (run_grid R) (\<lambda>r. an_eta (F r)) r,
       level_sum comm_size (run_grid R) (\<lambda>r. an_zeta (F r)) (get_local_total_points_z ?g - get_halo_cells ?g - 1))
      (an_itypeu (F r), an_itypev (F r)) (fdata (an_xi (F r)), fdata (an_eta (F r)), fdata (an_zeta (F r)))"
    by (metis surj_pair)
  have F': "fdata (an_xi F') = xi'" "fdata (an_eta F') = eta'" "fdata (an_zeta F') = zeta'"
    by (simp_all add: F apply_area_vorticity_def Let_def e [symmetric])
  have gs: "global_sum comm_size (run_grid R) f r k * inv_total_xy_pts A = mean_of_level comm_size (run_grid R) f k r" for f
    using k' by (simp add: global_sum_def level_mean [OF R inv])
  note cell = areamn_apply_cell [OF e k' int c, unfolded gs]
  show "nudgelim A \<le> z k \<Longrightarrow> an_itypev (F r) c = 1 \<Longrightarrow> fdata (an_xi F') c = fdata (an_xi (F r)) c +
      (nudged_mean A dt (mean_of_level comm_size (run_grid R) (\<lambda>r. an_xi (F r)) k r) (areamn_xi0 (s r) k) -
       mean_of_level comm_size (run_grid R) (\<lambda>r. an_xi (F r)) k r)"
    by (simp add: F' cell(1))
  show "nudgelim A \<le> z k \<Longrightarrow> an_itypeu (F r) c = 1 \<Longrightarrow> fdata (an_eta F') c = fdata (an_eta (F r)) c +
      (nudged_mean A dt (mean_of_level comm_size (run_grid R) (\<lambda>r. an_eta (F r)) k r) (areamn_eta0 (s r) k) -
       mean_of_level comm_size (run_grid R) (\<lambda>r. an_eta (F r)) k r)"
    by (simp add: F' cell(2))
  show "k = run_levels R - run_halo R - 1 \<Longrightarrow> fdata (an_zeta F') c = fdata (an_zeta (F r)) c +
      (areamn_zeta0_top (s r) - mean_of_level comm_size (run_grid R) (\<lambda>r. an_zeta (F r)) k r)"
    by (simp add: F' cell(3) z level_mean [OF R inv])
qed

text \<open>Over a level without terrain the nudging moves the mean of the vorticity to the relaxed mean, on all processes.\<close>

lemma nudged_means:
  assumes R: "run_ok R" "run_ranks R = {..<comm_size}" "r \<in> run_ranks R"
    and inv: "inv_total_xy_pts A = 1 / real_of_int (global_size (dim_x (run_global R)) * global_size (dim_y (run_global R)))"
    and k: "run_halo R \<le> k" "k < run_levels R - run_halo R" and high: "nudgelim A \<le> z k"
    and F: "\<And>r. F' r = apply_area_vorticity comm_size (run_grid R) A z dt s F r"
    and free: "\<And>r j i. r \<in> run_ranks R \<Longrightarrow> interior (run_grid R r) j i \<Longrightarrow> an_itypeu (F r) (0, k, j, i) = 1 \<and> an_itypev (F r) (0, k, j, i) = 1"
    and t: "\<And>r. r \<in> run_ranks R \<Longrightarrow> areamn_xi0 (s r) k = x0 \<and> areamn_eta0 (s r) k = e0"
  shows "mean_of_level comm_size (run_grid R) (\<lambda>r. an_xi (F' r)) k r =
      nudged_mean A dt (mean_of_level comm_size (run_grid R) (\<lambda>r. an_xi (F r)) k r) x0"
    and "mean_of_level comm_size (run_grid R) (\<lambda>r. an_eta (F' r)) k r =
      nudged_mean A dt (mean_of_level comm_size (run_grid R) (\<lambda>r. an_eta (F r)) k r) e0"
proof -
  have u: "mean_of_level comm_size (run_grid R) f k q = mean_of_level comm_size (run_grid R) f k r" if "q \<in> run_ranks R" for f q
    by (rule mean_uniform [OF R(1) that R(3)])
  have c: "fdata (an_xi (F' q)) (0, k, j, i) = fdata (an_xi (F q)) (0, k, j, i) +
      (nudged_mean A dt (mean_of_level comm_size (run_grid R) (\<lambda>r. an_xi (F r)) k r) x0 - mean_of_level comm_size (run_grid R) (\<lambda>r. an_xi (F r)) k r)"
    "fdata (an_eta (F' q)) (0, k, j, i) = fdata (an_eta (F q)) (0, k, j, i) +
      (nudged_mean A dt (mean_of_level comm_size (run_grid R) (\<lambda>r. an_eta (F r)) k r) e0 - mean_of_level comm_size (run_grid R) (\<lambda>r. an_eta (F r)) k r)"
    if q: "q \<in> run_ranks R" "interior (run_grid R q) j i" for q j i
    using nudged_cell(1,2) [OF R(1) q(1) inv k q(2) refl F high] free [OF q] t [OF q(1)] by (simp_all add: u [OF q(1)])
  show "mean_of_level comm_size (run_grid R) (\<lambda>r. an_xi (F' r)) k r =
      nudged_mean A dt (mean_of_level comm_size (run_grid R) (\<lambda>r. an_xi (F r)) k r) x0"
    by (subst mean_shifted [OF R c(1)]) simp_all
  show "mean_of_level comm_size (run_grid R) (\<lambda>r. an_eta (F' r)) k r =
      nudged_mean A dt (mean_of_level comm_size (run_grid R) (\<lambda>r. an_eta (F r)) k r) e0"
    by (subst mean_shifted [OF R c(2)]) simp_all
qed

section \<open>The wind that is recovered from the nudged vorticity\<close>

text \<open>The vertical wind does not contribute to the mean shear of a periodic domain.\<close>

lemma mean_gradient_vanishes:
  fixes \<Phi> :: "int \<Rightarrow> int \<Rightarrow> real"
  assumes "0 < nx'" and "0 < ny'"
  shows "(\<Sum>J \<in> {0..<ny'}. \<Sum>I \<in> {0..<nx'}. d * (\<Phi> J ((I + 1) mod nx') - \<Phi> J I)) = 0"
    and "(\<Sum>J \<in> {0..<ny'}. \<Sum>I \<in> {0..<nx'}. d * (\<Phi> ((J + 1) mod ny') I - \<Phi> J I)) = 0"
proof -
  have "(\<Sum>I \<in> {0..<nx'}. d * (\<Phi> J ((I + 1) mod nx') - \<Phi> J I)) = 0" for J
    by (simp add: sum_distrib_left [symmetric] sum_subtractf sum_rotate [OF assms(1)])
  then show "(\<Sum>J \<in> {0..<ny'}. \<Sum>I \<in> {0..<nx'}. d * (\<Phi> J ((I + 1) mod nx') - \<Phi> J I)) = 0" by simp
  have "(\<Sum>J \<in> {0..<ny'}. d * (\<Phi> ((J + 1) mod ny') I - \<Phi> J I)) = 0" for I
    by (simp add: sum_distrib_left [symmetric] sum_subtractf sum_rotate [OF assms(2), where f = "\<lambda>J. \<Phi> J I"])
  then show "(\<Sum>J \<in> {0..<ny'}. \<Sum>I \<in> {0..<nx'}. d * (\<Phi> ((J + 1) mod ny') I - \<Phi> J I)) = 0" by (subst sum.swap) simp
qed

lemma recovered_mean_shear:
  assumes R: "run_ok R" "run_ranks R = {..<comm_size}" "r \<in> run_ranks R"
    and k: "run_halo R \<le> k" "k < run_levels R - run_halo R - 1"
    and uv: "\<And>r. uv' r = recover_wind (run_grid R r) P means predicted (psi r) (chi r) (fdata (w r)) (fdata (xi r)) (fdata (eta r)) (tw r) (uv r)"
    and U: "\<And>r. r \<in> run_ranks R \<Longrightarrow> fdata (u r) = fst (uv' r) \<and> fdata (v r) = snd (uv' r)"
    and W: "\<And>r. r \<in> run_ranks R \<Longrightarrow> fits R 3 1 (run_levels R) r (w r) \<and> cross_agrees R W r (w r)"
  shows "mean_of_level comm_size (run_grid R) u k r = mean_of_level comm_size (run_grid R) u (k + 1) r +
      p_dz P / p_flex_up P k * mean_of_level comm_size (run_grid R) eta k r"
    and "mean_of_level comm_size (run_grid R) v k r = mean_of_level comm_size (run_grid R) v (k + 1) r +
      p_dz P / p_flex_up P k * mean_of_level comm_size (run_grid R) xi k r"
proof -
  let ?ny = "global_size (dim_y (run_global R))" and ?nx = "global_size (dim_x (run_global R))"
  let ?a = "p_dz P / p_flex_up P k"
  have pos: "0 < ?nx" "0 < ?ny" using run_okD(1,2) [OF R(1)] by simp_all
  have cell: "fdata (u q) (0, k, j, i) = fdata (u q) (0, k + 1, j, i) + ?a * fdata (eta q) (0, k, j, i) +
        - ?a * p_rdx P * (W 0 k (global_row R q j) ((global_column R q i + 1) mod ?nx) - W 0 k (global_row R q j) (global_column R q i))"
      "fdata (v q) (0, k, j, i) = fdata (v q) (0, k + 1, j, i) + ?a * fdata (xi q) (0, k, j, i) +
        - ?a * p_rdy P * (W 0 k ((global_row R q j + 1) mod ?ny) (global_column R q i) - W 0 k (global_row R q j) (global_column R q i))"
    if q: "q \<in> run_ranks R" and int: "interior (run_grid R q) j i" for q j i
  proof -
    let ?g = "run_grid R q"
    have z: "get_halo_cells ?g = run_halo R" "get_local_total_points_z ?g = run_levels R"
      by (simp_all add: run_grid_simps(1) [OF R(1) q] run_levels_def run_total_z [OF R(1) q])
    have hz: "0 \<le> get_halo_cells ?g" "get_halo_cells ?g \<le> get_local_total_points_z ?g - get_halo_cells ?g - 1"
      using depth_all [OF R(1)] k by (simp_all add: z)
    have k': "get_halo_cells ?g - 1 \<le> k" "k \<le> get_local_total_points_z ?g - get_halo_cells ?g - 1" using k by (simp_all add: z)
    have kk: "0 < ext_w (w q)" "0 \<le> k" "k < ext_z (w q)"
      using W [OF q] fits_levels [of R "run_levels R" q "w q"] depth_all [OF R(1)] k by auto
    note S = recover_wind_step [OF hz uv int k']
    note N = cross_cells [OF R(1) q conjunct2 [OF W [OF q]] int kk _ _ refl refl,
        of "global_row R q j" "global_column R q i"]
    show "fdata (u q) (0, k, j, i) = fdata (u q) (0, k + 1, j, i) + ?a * fdata (eta q) (0, k, j, i) +
        - ?a * p_rdx P * (W 0 k (global_row R q j) ((global_column R q i + 1) mod ?nx) - W 0 k (global_row R q j) (global_column R q i))"
      using S(1) N by (simp add: U [OF q] u_source_def run_global_size [OF R(1) q] algebra_simps diff_divide_distrib add_divide_distrib)
    show "fdata (v q) (0, k, j, i) = fdata (v q) (0, k + 1, j, i) + ?a * fdata (xi q) (0, k, j, i) +
        - ?a * p_rdy P * (W 0 k ((global_row R q j + 1) mod ?ny) (global_column R q i) - W 0 k (global_row R q j) (global_column R q i))"
      using S(2) N by (simp add: U [OF q] v_source_def run_global_size [OF R(1) q] algebra_simps diff_divide_distrib add_divide_distrib)
  qed
  show "mean_of_level comm_size (run_grid R) u k r = mean_of_level comm_size (run_grid R) u (k + 1) r +
      ?a * mean_of_level comm_size (run_grid R) eta k r"
    by (rule mean_combination [OF R, where \<Delta> = "\<lambda>J I. - ?a * p_rdx P * (W 0 k J ((I + 1) mod ?nx) - W 0 k J I)"])
       (use cell(1) mean_gradient_vanishes(1) [OF pos, of "- ?a * p_rdx P" "W 0 k"] in simp_all)
  show "mean_of_level comm_size (run_grid R) v k r = mean_of_level comm_size (run_grid R) v (k + 1) r +
      ?a * mean_of_level comm_size (run_grid R) xi k r"
    by (rule mean_combination [OF R, where \<Delta> = "\<lambda>J I. - ?a * p_rdy P * (W 0 k ((J + 1) mod ?ny) I - W 0 k J I)"])
       (use cell(2) mean_gradient_vanishes(2) [OF pos, of "- ?a * p_rdy P" "W 0 k"] in simp_all)
qed

text \<open>C4. Area-mean nudging without a relaxation time: in a periodic domain without terrain, the wind recovered from the
  nudged vorticity and the nudged mean of the top level has, at every physical level, the target profile as its
  domain mean, up to a mean below 1e-15 that the wind solver clips.\<close>

theorem area_nudging_imposes_profile:
  assumes "run_ok R" and "run_ranks R = {..<comm_size}" and "r \<in> run_ranks R"
    and "make_area_nudging config (run_grid R r) = Inr (Some A)" and "uvtau A = 0"
    and "\<forall>l. run_halo R \<le> l \<and> l < run_levels R - run_halo R \<longrightarrow> nudgelim A \<le> z l"
    and "global_size (dim_x (run_global R)) * global_size (dim_y (run_global R)) < 2 ^ 31"
    and "spacing_ok P" and "\<forall>l. run_halo R \<le> l \<and> l < run_levels R - run_halo R \<longrightarrow> p_flex_up P l \<noteq> 0"
    and "\<And>r. F' r = apply_area_vorticity comm_size (run_grid R) A z dt s F r"
    and "\<And>r k j i. r \<in> run_ranks R \<Longrightarrow> interior (run_grid R r) j i \<Longrightarrow> an_itypeu (F r) (0, k, j, i) = 1 \<and> an_itypev (F r) (0, k, j, i) = 1"
    and "\<And>r. r \<in> run_ranks R \<Longrightarrow> targets_at (run_grid R r) P UV (s r) \<and>
      predicted = (utopmn (apply_uvtopmn A dt (s r) (tm r)), vtopmn (apply_uvtopmn A dt (s r) (tm r)))"
    and "\<And>r. uv' r = recover_wind (run_grid R r) P (mu, mv) predicted (psi r) (chi r) (fdata (w r))
      (fdata (an_xi (F' r))) (fdata (an_eta (F' r))) (tw r) (uv r)"
    and "\<And>r. r \<in> run_ranks R \<Longrightarrow> fdata (u r) = fst (uv' r) \<and> fdata (v r) = snd (uv' r)"
    and "\<And>r. r \<in> run_ranks R \<Longrightarrow> fits R 3 1 (run_levels R) r (w r) \<and> cross_agrees R W r (w r)"
    and "\<And>r. r \<in> run_ranks R \<Longrightarrow> fits R 2 1 1 r (ut r) \<and> fits R 2 1 1 r (vt r) \<and>
      (fdata (ut r), fdata (vt r)) = reconstruct_cartesian_top_wind (run_grid R r) P (psi r) (chi r) (tw r)"
    and "mu = calculate_horizontal_mean2 comm_size (run_grid R) ut r" and "mv = calculate_horizontal_mean2 comm_size (run_grid R) vt r"
    and "run_halo R \<le> k" and "k < run_levels R - run_halo R"
  shows "mean_of_level comm_size (run_grid R) u k r = fst UV k + (mu - clip_mean mu) \<and>
    mean_of_level comm_size (run_grid R) v k r = snd UV k + (mv - clip_mean mv) \<and>
    \<bar>mu - clip_mean mu\<bar> < 1 / 10 ^ 15 \<and> \<bar>mv - clip_mean mv\<bar> < 1 / 10 ^ 15"
proof -
  note R = assms(1-3)
  let ?h = "run_halo R" and ?t = "run_levels R - run_halo R - 1"
  let ?m = "\<lambda>f k. mean_of_level comm_size (run_grid R) f k r"
  have lev: "?h \<le> ?t" using assms(19,20) by simp
  have z: "get_halo_cells (run_grid R q) = ?h" "get_local_total_points_z (run_grid R q) = run_levels R" if "q \<in> run_ranks R" for q
    by (simp_all add: run_grid_simps(1) [OF R(1) that] run_levels_def run_total_z [OF R(1) that])
  have pred: "predicted = (fst UV ?t, snd UV ?t)"
    using assms(12) [OF R(3)] by (simp add: apply_uvtopmn_def nudged_mean_def assms(5) targets_at_def Let_def z [OF R(3)])
  have T: "areamn_xi0 (s q) l = - (snd UV (l + 1) - snd UV l) * p_rdz P * p_flex_up P l \<and>
      areamn_eta0 (s q) l = - (fst UV (l + 1) - fst UV l) * p_rdz P * p_flex_up P l"
    if "q \<in> run_ranks R" "?h \<le> l" "l < ?t" for q l
    using assms(12) [OF that(1)] that(2,3) by (simp add: targets_at_def Let_def z [OF that(1)])
  note inv = area_inverse [OF R(1,3) assms(4,7)]
  have shear: "?m u l = ?m u (l + 1) - (fst UV (l + 1) - fst UV l)" "?m v l = ?m v (l + 1) - (snd UV (l + 1) - snd UV l)"
    if l: "?h \<le> l" "l < ?t" for l
  proof -
    have l': "l < run_levels R - ?h" using l by simp
    with l assms(6) have high: "nudgelim A \<le> z l" by blast
    note V = nudged_means [OF R inv l(1) l' high assms(10,11) T [OF _ l], unfolded nudged_mean_def assms(5)]
    note S = recovered_mean_shear [OF R l assms(13-15)]
    have r: "p_rdz P * p_dz P = 1" using assms(8) by (simp add: spacing_ok_def)
    have a: "p_dz P / p_flex_up P l * (- x * p_rdz P * p_flex_up P l) = - x * (p_rdz P * p_dz P)" for x
      using assms(9) l(1) l' by simp
    show "?m u l = ?m u (l + 1) - (fst UV (l + 1) - fst UV l)" using S(1) V(2) a [of "fst UV (l + 1) - fst UV l"] r by simp
    show "?m v l = ?m v (l + 1) - (snd UV (l + 1) - snd UV l)" using S(2) V(1) a [of "snd UV (l + 1) - snd UV l"] r by simp
  qed
  note top = recovered_top_mean [OF R refl lev assms(13,14,16-18), unfolded pred fst_conv snd_conv]
  have "?m u (?t - int n) = fst UV (?t - int n) + (mu - clip_mean mu) \<and>
      ?m v (?t - int n) = snd UV (?t - int n) + (mv - clip_mean mv)" if "?h \<le> ?t - int n" for n
    using that
  proof (induction n)
    case 0
    show ?case using top by simp
  next
    case (Suc n)
    have e: "?t - int (Suc n) + 1 = ?t - int n" by simp
    have le: "?h \<le> ?t - int (Suc n)" "?t - int (Suc n) < ?t" "?h \<le> ?t - int n" using Suc.prems by simp_all
    note S = shear [OF le(1,2), unfolded e] and IH = Suc.IH [OF le(3)]
    show ?case unfolding S IH [THEN conjunct1] IH [THEN conjunct2] by simp
  qed
  from this [of "nat (?t - k)"] assms(19,20) show ?thesis
    using clip_mean_close [of mu] clip_mean_close [of mv] by simp
qed

section \<open>Witnesses\<close>

definition sample_area_config :: json where
  "sample_area_config = JObject [(''dynamics'', JObject [(''forcings'', JObject [(''areamn'', JObject
     [(''enable'', JBool True), (''target_source'', JString ''netcdf''),
      (''forcing_data'', JObject [(''directory'', JString ''ls'')])])])])]"

lemma sample_area_find:
  "find_node sample_area_config ''dynamics.forcings.areamn.enable'' = Some (JBool True)"
  "find_node sample_area_config ''dynamics.forcings.areamn.uvtau'' = None"
  "find_node sample_area_config ''dynamics.forcings.areamn.nudge_start_m'' = None"
  "find_node sample_area_config ''dynamics.forcings.areamn.target_source'' = Some (JString ''netcdf'')"
  "find_node sample_area_config ''dynamics.forcings.areamn.forcing_data.directory'' = Some (JString ''ls'')"
  "find_node sample_area_config ''dynamics.forcings.areamn.forcing_data.file_prefix'' = None"
  "find_node sample_area_config ''dynamics.forcings.areamn.forcing_data.update_interval_s'' = None"
  "find_node sample_area_config ''initial_conditions.constant_upper_wind.enable'' = None"
  "find_node sample_area_config ''initial_conditions.constant_upper_wind.pressure_threshold_Pa'' = None"
  by code_simp+

definition sample_area :: area_nudging where
  "sample_area = \<lparr>uvtau = 0, nudgelim = 0, inv_total_xy_pts = 1 / 35, use_netcdf_target = True, area_directory = ''ls/'',
     area_prefix = ''ls_forcing_'', forcing_interval_s = 3600, constant_upper_wind = False, constant_upper_wind_threshold_Pa = 3000\<rparr>"

lemma sample_area_made: "make_area_nudging sample_area_config (run_grid sample_run 0) = Inr (Some sample_area)"
proof -
  have r: "0 \<in> run_ranks sample_run" by (simp add: sample_run_def)
  have "to_int32 35 = 35" by (rule to_int32_id) simp_all
  then show ?thesis
    by (simp add: make_area_nudging_def Let_def get_value_default_def get_value_def sample_area_find sample_area_def
        run_global_size [OF sample_run_ok r] sample_run_sizes)
qed

text \<open>Three files; the wind grows with time and height.\<close>

definition sample_profile :: "nat \<Rightarrow> (int \<Rightarrow> real) \<times> (int \<Rightarrow> real)" where
  "sample_profile n = (profile_levels (run_grid sample_run 0) (\<lambda>k. of_int k + of_nat n), profile_levels (run_grid sample_run 0) (\<lambda>k. 1))"

definition sample_wind_file :: "nat \<Rightarrow> wind_file" where
  "sample_wind_file n = \<lparr>file_nz = Some 4, time_seconds = Some (3600 * int n), file_U = Some (\<lambda>k. of_int k + of_nat n),
     file_V = Some (\<lambda>k. 1), file_pbar = Some (\<lambda>k. 0)\<rparr>"

definition sample_wind_files :: wind_files where
  "sample_wind_files path =
     (if path = ''ls/ls_forcing_000000.nc'' then Some (sample_wind_file 0)
      else if path = ''ls/ls_forcing_003600.nc'' then Some (sample_wind_file 1)
      else if path = ''ls/ls_forcing_007200.nc'' then Some (sample_wind_file 2) else None)"

lemma sample_files_hold: "files_hold (run_grid sample_run 0) sample_wind_files sample_area sample_profile 2"
proof -
  have r: "0 \<in> run_ranks sample_run" by (simp add: sample_run_def)
  have z: "global_size (dim_z (run_grid sample_run 0)) = 4"
    by (simp add: sample_run_def sample_grid_def initial_dimension_def distributed_def full_axis_def)
  have p: "area_forcing_filename sample_area 0 = ''ls/ls_forcing_000000.nc''"
    "area_forcing_filename sample_area 3600 = ''ls/ls_forcing_003600.nc''"
    "area_forcing_filename sample_area 7200 = ''ls/ls_forcing_007200.nc''"
    by (simp_all add: area_forcing_filename_def sample_area_def cpp_round_def sample_six_digits)
  have "hold_upper sample_area 4 q f = f" for q f by (simp add: hold_upper_def sample_area_def fun_eq_iff)
  then have l: "load_wind_profiles (run_grid sample_run 0) sample_wind_files sample_area 0 = Inr (sample_profile 0)"
    "load_wind_profiles (run_grid sample_run 0) sample_wind_files sample_area 3600 = Inr (sample_profile 1)"
    "load_wind_profiles (run_grid sample_run 0) sample_wind_files sample_area 7200 = Inr (sample_profile 2)"
    by (simp_all add: load_wind_profiles_def Let_def p sample_wind_files_def sample_wind_file_def sample_profile_def z cpp_round_def)
  have "forcing_interval_s sample_area = 3600" by (simp add: sample_area_def)
  moreover have "n \<le> 2 \<longleftrightarrow> n = 0 \<or> n = 1 \<or> n = 2" for n :: nat by auto
  ultimately show ?thesis using l unfolding files_hold_def by auto
qed

text \<open>Targets for a zonal wind that grows by one from level to level and a meridional wind of one.\<close>

definition sample_targets :: area_state where
  "sample_targets = \<lparr>u_T1 = (\<lambda>_. 0), v_T1 = (\<lambda>_. 0), u_T2 = (\<lambda>_. 0), v_T2 = (\<lambda>_. 0), forcing_T1 = 0, forcing_T2 = 0,
     areamn_xi0 = (\<lambda>_. 0), areamn_eta0 = (\<lambda>k. if k < 5 then - 1 else 0), areamn_zeta0_top = 0,
     areamn_utopmn0 = 5, areamn_vtopmn0 = 1, areamn_u_target = of_int, areamn_v_target = (\<lambda>_. 1)\<rparr>"

definition sample_area_fields :: "nat \<Rightarrow> area_fields" where
  "sample_area_fields r =
     \<lparr>an_xi = sample_global_field (\<lambda>w k J I. of_int (J * I)) r, an_eta = sample_global_field (\<lambda>w k J I. of_int (J + k)) r,
      an_zeta = sample_global_field (\<lambda>w k J I. of_int I) r, an_u = sample_global_field (\<lambda>w k J I. of_int k) r,
      an_v = sample_global_field (\<lambda>w k J I. 0) r, an_itypeu = (\<lambda>_. 1), an_itypev = (\<lambda>_. 1)\<rparr>"

lemma area_targets_follow_time_witness:
  "\<exists>s' tm. initialize_area_nudging 4 (run_grid sample_run) sample_wind_files sample_area sample_parameters 5400 sample_area_fields 0
      (sample_targets, fresh_top_mean) = Some (Inr (s', tm)) \<and>
    areamn_u_target s' 3 = 5 / 2 \<and> areamn_eta0 s' 3 = - 1 \<and> forcing_T1 s' = 3600"
proof -
  have I: "forcing_interval_s sample_area = 3600" "use_netcdf_target sample_area" by (simp_all add: sample_area_def)
  have n: "nat \<lfloor>5400 / forcing_interval_s sample_area\<rfloor> = 1" by (simp add: I)
  have F: "files_hold (run_grid sample_run 0) sample_wind_files sample_area sample_profile (Suc (nat \<lfloor>5400 / forcing_interval_s sample_area\<rfloor>))"
    using sample_files_hold unfolding n by (simp add: numeral_2_eq_2)
  have r: "0 \<in> run_ranks sample_run" by (simp add: sample_run_def)
  have z: "get_halo_cells (run_grid sample_run 0) = 2" "get_local_total_points_z (run_grid sample_run 0) = 8"
    "global_size (dim_z (run_grid sample_run 0)) = 4"
    using run_grid_simps(1) [OF sample_run_ok r] run_total_z [OF sample_run_ok r] sample_run_sizes
    by (simp_all add: run_levels_def sample_run_def sample_grid_def initial_dimension_def distributed_def full_axis_def)
  obtain s' tm where s': "initialize_area_nudging 4 (run_grid sample_run) sample_wind_files sample_area sample_parameters 5400 sample_area_fields 0
      (sample_targets, fresh_top_mean) = Some (Inr (s', tm))" "forcing_at sample_area sample_profile 1 s'"
    "targets_at (run_grid sample_run 0) sample_parameters (profile_at sample_area sample_profile 5400) s'"
    using area_targets_follow_time [where g = "run_grid sample_run" and r = 0 and t = 5400 and comm_size = 4 and files = sample_wind_files and P = sample_parameters
        and F = sample_area_fields and st = "(sample_targets, fresh_top_mean)" and prof = sample_profile and s = sample_targets and n = 0, OF sample_area_made I(2)] F n by auto
  have p: "fst (profile_at sample_area sample_profile 5400) 3 = 5 / 2" "fst (profile_at sample_area sample_profile 5400) 4 = 7 / 2"
    by (simp_all add: profile_at_def Let_def n I sample_profile_def profile_levels_def z del: One_nat_def)
  show ?thesis
    using s' p by (intro exI [of _ s'] exI [of _ tm]) (simp add: targets_at_def Let_def z forcing_at_def I sample_parameters_def)
qed

definition nudged_fields :: "nat \<Rightarrow> area_fields" where
  "nudged_fields r = apply_area_vorticity 4 (run_grid sample_run) sample_area (\<lambda>_. 1) 60 (\<lambda>_. sample_targets) sample_area_fields r"

definition nudged_wind :: "nat \<Rightarrow> view \<times> view" where
  "nudged_wind r = recover_wind (run_grid sample_run r) sample_parameters (2, 0) (5, 1) (\<lambda>_. 0) slope_chi
     (fdata (sample_global_field (\<lambda>w k J I. of_int (J * k)) r)) (fdata (an_xi (nudged_fields r))) (fdata (an_eta (nudged_fields r)))
     (\<lambda>_. 9, \<lambda>_. 9) (\<lambda>_. 6, \<lambda>_. 7)"

definition nudged_field :: "(view \<times> view \<Rightarrow> view) \<Rightarrow> nat \<Rightarrow> real field" where
  "nudged_field sel r = (sample_global_field (\<lambda>_ _ _ _. 0) r)\<lparr>fdata := sel (nudged_wind r)\<rparr>"

lemma area_nudging_imposes_profile_witness:
  "mean_of_level 4 (run_grid sample_run) (nudged_field fst) 3 0 = 3 \<and> mean_of_level 4 (run_grid sample_run) (nudged_field snd) 3 0 = 1"
proof -
  have K: "run_ranks sample_run = {..<4}" and r: "0 \<in> run_ranks sample_run" by (auto simp: sample_run_def)
  have A: "uvtau sample_area = 0"
    "\<forall>l. run_halo sample_run \<le> l \<and> l < run_levels sample_run - run_halo sample_run \<longrightarrow> nudgelim sample_area \<le> (\<lambda>_. 1) l" by (simp_all add: sample_area_def)
  have n: "global_size (dim_x (run_global sample_run)) * global_size (dim_y (run_global sample_run)) < 2 ^ 31"
    by (simp add: sample_run_sizes)
  have s: "spacing_ok sample_parameters"
    "\<forall>l. run_halo sample_run \<le> l \<and> l < run_levels sample_run - run_halo sample_run \<longrightarrow> p_flex_up sample_parameters l \<noteq> 0"
    by (simp_all add: spacing_ok_def sample_parameters_def)
  have free: "an_itypeu (sample_area_fields r) (0, k, j, i) = 1 \<and> an_itypev (sample_area_fields r) (0, k, j, i) = 1" for r k j i
    by (simp add: sample_area_fields_def)
  have tg: "targets_at (run_grid sample_run q) sample_parameters (of_int, \<lambda>_. 1) sample_targets \<and>
      (5, 1) = (utopmn (apply_uvtopmn sample_area 60 sample_targets fresh_top_mean), vtopmn (apply_uvtopmn sample_area 60 sample_targets fresh_top_mean))"
    if q: "q \<in> run_ranks sample_run" for q
  proof -
    have z: "get_halo_cells (run_grid sample_run q) = 2" "get_local_total_points_z (run_grid sample_run q) = 8"
      using run_grid_simps(1) [OF sample_run_ok q] run_total_z [OF sample_run_ok q] sample_run_sizes by (simp_all add: run_levels_def)
    show ?thesis
      by (simp add: targets_at_def Let_def z sample_targets_def sample_parameters_def apply_uvtopmn_def nudged_mean_def A)
  qed
  have U: "fdata (nudged_field fst r) = fst (nudged_wind r) \<and> fdata (nudged_field snd r) = snd (nudged_wind r)" for r
    by (simp add: nudged_field_def)
  have T: "fits sample_run 2 1 1 r (top_wind_field fst r) \<and> fits sample_run 2 1 1 r (top_wind_field snd r) \<and>
      (fdata (top_wind_field fst r), fdata (top_wind_field snd r)) =
      reconstruct_cartesian_top_wind (run_grid sample_run r) sample_parameters (\<lambda>_. 0) slope_chi (\<lambda>_. 9, \<lambda>_. 9)"
    if "r \<in> run_ranks sample_run" for r
    using top_wind_fits [OF that] by (simp add: top_wind_field_def Let_def)
  have M: "2 = calculate_horizontal_mean2 4 (run_grid sample_run) (top_wind_field fst) 0"
    "0 = calculate_horizontal_mean2 4 (run_grid sample_run) (top_wind_field snd) 0"
    using top_wind_means [OF r] by simp_all
  have W: "fits sample_run 3 1 (run_levels sample_run) r (sample_global_field (\<lambda>w k J I. of_int (J * k)) r) \<and>
      cross_agrees sample_run (\<lambda>w k J I. of_int (J * k)) r (sample_global_field (\<lambda>w k J I. of_int (J * k)) r)"
    if "r \<in> run_ranks sample_run" for r
    using sample_global_field_ok [OF that] by simp
  show ?thesis
    using area_nudging_imposes_profile [OF sample_run_ok K r sample_area_made A n s nudged_fields_def free tg nudged_wind_def U W T M, of 3]
    by (simp add: sample_run_sizes clip_mean_def)
qed

end
