(* ===== verification/State_Registry.thy ===== *)
theory State_Registry
  imports Time_Integration Json_Config
begin

text \<open>
The registry of the fields (\<open>State\<close> in \<^verbatim>\<open>src/core/state/State.cpp\<close> and \<^verbatim>\<open>State.hpp\<close>): a map from names to fields of
  any dimension, the standard fields of a run, the tracers of the configuration with their sources, and two of its
  clients: the workspace the wind solver adds (\<^verbatim>\<open>src/dynamics/solvers/WindSolver.cpp\<close>) and the sources of the tracers
  (\<^verbatim>\<open>src/dynamics/forcings/TracerSource.cpp\<close>).  A field has its dimensions, staggering and values; units and long
  names, which only the output reads, are left out.
\<close>

section \<open>Fields\<close>

datatype grid_staggering =
    Unspecified | NotApplicable | Centered | StaggeredX | StaggeredY | StaggeredZ
  | StaggeredYZ | StaggeredXZ | StaggeredXY | StaggeredXYZ | Surface

datatype state_error =
    Dimension_mismatch string
  | No_such_field string
  | Incorrect_dimension string
  | State_config_error config_error
  | Tracers_not_object
  | Tracer_options_not_object string
  | Tracer_enable_not_bool string
  | Tracer_name_collides string
  | Source_options_not_object string
  | Source_enable_not_bool string
  | Source_name_collides string

text \<open>\<open>AnyField\<close>: a field of some dimension; the cells of a view of three dimensions are \<open>(0, k, j, i)\<close>.\<close>

record any_field =
  any_dim :: nat
  any_dims :: "int list"
  any_staggering :: grid_staggering
  any_data :: view

type_synonym registry = "string \<rightharpoonup> any_field"

type_synonym field_spec = "string \<times> nat \<times> int list \<times> grid_staggering"

definition has_field :: "registry \<Rightarrow> string \<Rightarrow> bool" where
  "has_field reg name = (reg name \<noteq> None)"

text \<open>\<open>try_emplace\<close>: a field that exists stays as it is.\<close>

definition add_field :: "field_spec \<Rightarrow> registry \<Rightarrow> state_error + registry" where
  "add_field spec reg =
     (case spec of (name, d, dims, staggering) \<Rightarrow>
      if length dims \<noteq> d then Inl (Dimension_mismatch name)
      else if has_field reg name then Inr reg
      else Inr (reg(name \<mapsto> \<lparr>any_dim = d, any_dims = dims, any_staggering = staggering, any_data = (\<lambda>_. 0)\<rparr>)))"

definition lookup_field :: "nat \<Rightarrow> registry \<Rightarrow> string \<Rightarrow> state_error + any_field" where
  "lookup_field d reg name =
     (case reg name of None \<Rightarrow> Inl (No_such_field name)
      | Some f \<Rightarrow> if any_dim f = d then Inr f else Inl (Incorrect_dimension name))"

fun add_fields :: "field_spec list \<Rightarrow> registry \<Rightarrow> state_error + registry" where
  "add_fields [] reg = Inr reg"
| "add_fields (s # specs) reg = rbind (add_field s reg) (add_fields specs)"

section \<open>The constructor of the state\<close>


definition background_fields :: "bool \<Rightarrow> int \<Rightarrow> int \<Rightarrow> int \<Rightarrow> field_spec list" where
  "background_fields mapped nz' ny' nx' =
     [(''utopmn'', 0, [], StaggeredX), (''vtopmn'', 0, [], StaggeredY), (''Tbar'', 1, [nz'], Centered),
      (''Tvbar'', 1, [nz'], Centered), (''thbar'', 1, [nz'], Centered), (''rhobar'', 1, [nz'], Centered),
      (''rhobar_up'', 1, [nz'], StaggeredZ), (''pbar'', 1, [nz'], Centered),
      (''pbar_up'', 1, [nz'], StaggeredZ), (''dpbar_mid'', 1, [nz'], Centered),
      (''pibar'', 1, [nz'], Centered), (''pibar_up'', 1, [nz'], StaggeredZ), (''qvbar'', 1, [nz'], Centered),
      (''U'', 1, [nz'], StaggeredX), (''V'', 1, [nz'], StaggeredY), (''lon'', 2, [ny', nx'], Centered),
      (''lat'', 2, [ny', nx'], Centered), (''f'', 1, [ny'], Centered),
      (''f_2d'', 2, [ny', nx'], (if mapped then StaggeredXY else Centered)),
      (''psi'', 2, [ny', nx'], StaggeredXY), (''psinm1'', 2, [ny', nx'], StaggeredXY),
      (''chi'', 2, [ny', nx'], Centered), (''chinm1'', 2, [ny', nx'], Centered),
      (''utop'', 2, [ny', nx'], StaggeredX), (''vtop'', 2, [ny', nx'], StaggeredY),
      (''Tg'', 2, [ny', nx'], Centered)]"

definition volume_fields :: "int \<Rightarrow> int \<Rightarrow> int \<Rightarrow> field_spec list" where
  "volume_fields nz' ny' nx' =
     [(''th'', 3, [nz', ny', nx'], Centered), (''qv'', 3, [nz', ny', nx'], Centered),
      (''T'', 3, [nz', ny', nx'], Centered), (''xi'', 3, [nz', ny', nx'], StaggeredYZ),
      (''eta'', 3, [nz', ny', nx'], StaggeredXZ), (''zeta'', 3, [nz', ny', nx'], StaggeredXY),
      (''u'', 3, [nz', ny', nx'], StaggeredX), (''v'', 3, [nz', ny', nx'], StaggeredY),
      (''w'', 3, [nz', ny', nx'], StaggeredZ), (''u_con'', 3, [nz', ny', nx'], StaggeredX),
      (''v_con'', 3, [nz', ny', nx'], StaggeredY), (''xi_con'', 3, [nz', ny', nx'], StaggeredYZ),
      (''eta_con'', 3, [nz', ny', nx'], StaggeredXZ), (''zeta_con'', 3, [nz', ny', nx'], StaggeredXY),
      (''u_mean'', 3, [nz', ny', nx'], StaggeredX), (''v_mean'', 3, [nz', ny', nx'], StaggeredY),
      (''w_mean'', 3, [nz', ny', nx'], StaggeredZ), (''R_xi'', 3, [nz', ny', nx'], StaggeredYZ),
      (''R_eta'', 3, [nz', ny', nx'], StaggeredXZ), (''R_zeta'', 3, [nz', ny', nx'], StaggeredXY),
      (''topo'', 2, [ny', nx'], Centered), (''ITYPEU'', 3, [nz', ny', nx'], StaggeredX),
      (''ITYPEV'', 3, [nz', ny', nx'], StaggeredY), (''ITYPEW'', 3, [nz', ny', nx'], StaggeredZ)]"

definition reserved_names :: "string list" where
  "reserved_names =
     [''nx'', ''ny'', ''nz'', ''x'', ''y'', ''z_mid'', ''time'', ''coordinates/x'', ''coordinates/y'',
      ''coordinates/z_mid'', ''mask'', ''height'', ''sea_land_ice_mask'', ''vegtype'', ''soiltype'',
      ''slopetype'', ''albedo'', ''gvf'', ''lai'', ''shdmax'', ''shdmin'', ''sm1'', ''sm2'', ''sm3'', ''sm4'',
      ''sl1'', ''sl2'', ''sl3'', ''sl4'', ''st1'', ''st2'', ''st3'', ''st4'', ''slc1'', ''slc2'', ''slc3'',
      ''slc4'', ''sfemis'', ''zorl'', ''cmx'', ''chx'', ''canopy'', ''snwdph'', ''sneqv'', ''hfx'', ''le'',
      ''gfx'', ''qc'', ''qr'', ''qi'', ''qm'', ''nc'', ''nr'', ''ni'', ''bm'', ''qp'', ''th_perturb'',
      ''th_m_diag'', ''qv_m_diag'', ''qv_after_p3'', ''qc_after_p3'', ''qi_after_p3'', ''qr_after_p3'',
      ''nc_after_p3'', ''nr_after_p3'', ''ni_after_p3'', ''qm_after_p3'', ''bm_after_p3'', ''th_after_p3'',
      ''diag_eff_radius_qc'', ''diag_eff_radius_qi'', ''diag_eff_radius_qr'', ''P_wet'',
      ''precip_liq_surf_mass'', ''precip_ice_surf_mass'', ''precip_liq_surf_flux'', ''precip_ice_surf_flux'',
      ''RKM'', ''RKH'', ''topou'', ''topov'', ''sfc_flux_th'', ''sfc_flux_qv'', ''sfc_flux_u'', ''sfc_flux_v'',
      ''gwet'', ''zrough'', ''VEN2D'', ''ustar'', ''molen'', ''sw_heating'', ''lw_heating'', ''net_heating'',
      ''net_sw_flux'', ''net_lw_flux'', ''swdn'', ''lwdn'', ''lwup'', ''swup_toa'', ''swdn_toa'', ''lwup_toa'',
      ''lwdn_toa'', ''swup_sfc'', ''swdn_sfc'', ''lwup_sfc'', ''lwdn_sfc'', ''Q1'', ''Q2'', ''CGR_thermo'',
      ''CGR_vort'', ''lbn_weight'', ''areamn_xi0'', ''areamn_eta0'', ''areamn_zeta0_top'',
      ''areamn_local_sum_xi'', ''areamn_global_sum_xi'', ''areamn_local_sum_eta'', ''areamn_global_sum_eta'',
      ''areamn_local_sum_zeta_top'', ''areamn_global_sum_zeta_top'', ''areamn_utopmn0'', ''areamn_vtopmn0'']"

text \<open>\<open>std::string::find\<close> of a non-empty pattern, and the names the model derives from others.\<close>

fun occurs_in :: "string \<Rightarrow> string \<Rightarrow> bool" where
  "occurs_in pat [] = (pat = [])"
| "occurs_in pat (c # cs) = (take (length pat) (c # cs) = pat \<or> occurs_in pat cs)"

definition uses_internal_name :: "string \<Rightarrow> bool" where
  "uses_internal_name n \<longleftrightarrow>
     take 2 n = ''d_'' \<or> take 12 n = ''fe_tendency_'' \<or> occurs_in ''_ls'' n \<or>
     (2 \<le> length n \<and> drop (length n - 2) n = ''_m'')"

definition name_collides :: "registry \<Rightarrow> json \<Rightarrow> string \<Rightarrow> bool" where
  "name_collides reg prognostic_config n \<longleftrightarrow>
     n = [] \<or> has_field reg n \<or> n \<in> set reserved_names \<or> contains_key prognostic_config n \<or> uses_internal_name n"

text \<open>The option \<open>enable\<close> of a tracer or of its source, on when it is missing.\<close>

definition enable_option :: "state_error \<Rightarrow> json \<Rightarrow> state_error + bool" where
  "enable_option e options =
     (case member options ''enable'' of None \<Rightarrow> Inr True
      | Some v \<Rightarrow> (case as_bool v of None \<Rightarrow> Inl e | Some b \<Rightarrow> Inr b))"

definition source_option :: "string \<Rightarrow> json \<Rightarrow> state_error + bool" where
  "source_option n options =
     (case member options ''source'' of None \<Rightarrow> Inr False
      | Some source \<Rightarrow>
          rbind (throw_if (\<not> is_object source) (Source_options_not_object n)) (\<lambda>_.
          enable_option (Source_enable_not_bool n) source))"

text \<open>The names of the enabled tracers, and of those with a source.\<close>

fun read_tracers :: "registry \<Rightarrow> json \<Rightarrow> (string \<times> json) list \<Rightarrow> state_error + string list \<times> string list" where
  "read_tracers reg prog [] = Inr ([], [])"
| "read_tracers reg prog ((n, options) # items) =
     rbind (throw_if (\<not> is_object options) (Tracer_options_not_object n)) (\<lambda>_.
     rbind (enable_option (Tracer_enable_not_bool n) options) (\<lambda>enabled.
     rbind (throw_if (name_collides reg prog n) (Tracer_name_collides n)) (\<lambda>_.
     if \<not> enabled then read_tracers reg prog items else
     rbind (source_option n options) (\<lambda>source_enabled.
     rbind (read_tracers reg prog items) (\<lambda>(names, targets).
     Inr (n # names, if source_enabled then n # targets else targets))))))"

definition volume_spec :: "grid \<Rightarrow> string \<Rightarrow> field_spec" where
  "volume_spec g name =
     (name, 3, [get_local_total_points_z g, get_local_total_points_y g, get_local_total_points_x g], Centered)"

definition source_name :: "string \<Rightarrow> string" where
  "source_name tracer = tracer @ ''_source''"

fun add_sources :: "grid \<Rightarrow> json \<Rightarrow> string list \<Rightarrow> registry \<Rightarrow> state_error + registry" where
  "add_sources g prog [] reg = Inr reg"
| "add_sources g prog (t # targets) reg =
     rbind (throw_if (has_field reg (source_name t) \<or> contains_key prog (source_name t)) (Source_name_collides (source_name t))) (\<lambda>_.
     rbind (add_field (volume_spec g (source_name t)) reg) (add_sources g prog targets))"

record model_state =
  state_fields :: registry
  tracers :: "string list"
  source_targets :: "string list"
  source_names :: "string list"

definition standard_fields :: "bool \<Rightarrow> grid \<Rightarrow> field_spec list" where
  "standard_fields mapped g =
     (let nz' = get_local_total_points_z g; ny' = get_local_total_points_y g; nx' = get_local_total_points_x g
      in background_fields mapped nz' ny' nx' @ volume_fields nz' ny' nx')"

definition read_prognostic :: "json \<Rightarrow> state_error + json" where
  "read_prognostic config =
     (if has_key config ''dynamics.prognostic_variables''
      then map_error State_config_error (get_value as_json config ''dynamics.prognostic_variables'') else Inr (JObject []))"

definition create_state :: "json \<Rightarrow> bool \<Rightarrow> grid \<Rightarrow> state_error + model_state" where
  "create_state config mapped g =
     rbind (add_fields (standard_fields mapped g) Map.empty) (\<lambda>reg.
     if \<not> has_key config ''dynamics.tracers''
     then Inr \<lparr>state_fields = reg, tracers = [], source_targets = [], source_names = []\<rparr>
     else
       rbind (map_error State_config_error (get_value as_json config ''dynamics.tracers'')) (\<lambda>tracer_config.
       rbind (throw_if (\<not> is_object tracer_config) Tracers_not_object) (\<lambda>_.
       rbind (read_prognostic config) (\<lambda>prog.
       rbind (read_tracers reg prog (json_items tracer_config)) (\<lambda>(names, targets).
       rbind (add_fields (map (volume_spec g) names) reg) (\<lambda>reg'.
       rbind (add_sources g prog targets reg') (\<lambda>reg''.
       Inr \<lparr>state_fields = reg'', tracers = names, source_targets = targets, source_names = map source_name targets\<rparr>)))))))"

section \<open>Workspace of the wind solver\<close>

definition wind_solver_specs :: "grid \<Rightarrow> field_spec list" where
  "wind_solver_specs g =
     (let d = [get_local_total_points_z g, get_local_total_points_y g, get_local_total_points_x g] in
      [(''utop_mean_tmp'', 0, [], Unspecified), (''vtop_mean_tmp'', 0, [], Unspecified), (''W3DNM1'', 3, d, StaggeredZ),
       (''u_topo'', 3, d, StaggeredX), (''v_topo'', 3, d, StaggeredY), (''w_topo'', 3, d, StaggeredZ),
       (''xi_topo'', 3, d, StaggeredYZ), (''eta_topo'', 3, d, StaggeredXZ)])"

text \<open>\<open>if (!state_.has_field(name)) state_.add_field(name, ...)\<close> for one field after another.\<close>

fun add_missing :: "field_spec list \<Rightarrow> registry \<Rightarrow> state_error + registry" where
  "add_missing [] reg = Inr reg"
| "add_missing (s # specs) reg =
     rbind (if has_field reg (fst s) then Inr reg else add_field s reg) (add_missing specs)"

section \<open>Sources of the tracers\<close>

definition set_data :: "string \<Rightarrow> view \<Rightarrow> registry \<Rightarrow> registry" where
  "set_data name d reg = reg(name := map_option (any_data_update (\<lambda>_. d)) (reg name))"

definition source_pairs :: "model_state \<Rightarrow> state_error + (string \<times> string) list" where
  "source_pairs S =
     rmap (\<lambda>t. rbind (lookup_field 3 (state_fields S) t) (\<lambda>_.
               rbind (lookup_field 3 (state_fields S) (t @ ''_source'')) (\<lambda>_. Inr (t, t @ ''_source'')))) (source_targets S)"

definition apply_pair :: "grid \<Rightarrow> view \<Rightarrow> real \<Rightarrow> string \<times> string \<Rightarrow> registry \<Rightarrow> registry" where
  "apply_pair g wmask dt pair reg =
     (let h = get_halo_cells g; data = (\<lambda>n. any_data (the (reg n))); source = data (snd pair) in
      set_data (fst pair)
        (parallel_for (physical_cells g h (get_local_total_points_z g - h)) (\<lambda>(k, j, i) tracer.
           let c = (0, k, j, i) in if wmask c = 1 then tracer(c := tracer c + dt * source c) else tracer) (data (fst pair))) reg)"

definition tracer_source_apply :: "grid \<Rightarrow> real \<Rightarrow> model_state \<Rightarrow> state_error + model_state" where
  "tracer_source_apply g dt S =
     rbind (lookup_field 3 (state_fields S) ''ITYPEW'') (\<lambda>wmask.
     rbind (source_pairs S) (\<lambda>pairs.
     Inr (S\<lparr>state_fields := fold (apply_pair g (any_data wmask) dt) pairs (state_fields S)\<rparr>)))"

section \<open>Adding fields\<close>

definition spec_field :: "field_spec \<Rightarrow> any_field" where
  "spec_field s = (case s of (name, d, dims, staggering) \<Rightarrow>
     \<lparr>any_dim = d, any_dims = dims, any_staggering = staggering, any_data = (\<lambda>_. 0)\<rparr>)"

definition spec_ok :: "field_spec \<Rightarrow> bool" where
  "spec_ok s \<longleftrightarrow> (case s of (name, d, dims, staggering) \<Rightarrow> length dims = d)"

lemma add_field_spec: "spec_ok s \<Longrightarrow> add_field s reg = Inr ([fst s \<mapsto> spec_field s] ++ reg)"
  by (auto simp: add_field_def spec_ok_def spec_field_def has_field_def map_add_def fun_eq_iff split: option.splits)

definition spec_map :: "field_spec list \<Rightarrow> registry" where
  "spec_map specs = map_of (map (\<lambda>s. (fst s, spec_field s)) specs)"

lemma spec_map_Nil [simp]: "spec_map [] = Map.empty"
  by (simp add: spec_map_def)

lemma spec_map_Cons: "spec_map (s # specs) n = (if n = fst s then Some (spec_field s) else spec_map specs n)"
  by (simp add: spec_map_def)

text \<open>Both ways of adding fields leave the fields that exist and create the first of each new name.\<close>

lemma spec_map_step: "spec_map specs ++ ([fst s \<mapsto> spec_field s] ++ reg) = spec_map (s # specs) ++ reg"
  by (auto simp: map_add_def fun_eq_iff spec_map_Cons split: option.splits)

lemma add_fields_result: "\<forall>s \<in> set specs. spec_ok s \<Longrightarrow> add_fields specs reg = Inr (spec_map specs ++ reg)"
proof (induction specs arbitrary: reg)
  case (Cons s specs)
  then have "add_fields (s # specs) reg = Inr (spec_map specs ++ ([fst s \<mapsto> spec_field s] ++ reg))"
    by (simp add: add_field_spec)
  then show ?case unfolding spec_map_step .
qed simp

lemma present_field: "has_field reg (fst s) \<Longrightarrow> [fst s \<mapsto> spec_field s] ++ reg = reg"
  by (auto simp: has_field_def map_add_def fun_eq_iff split: option.splits)

lemma add_missing_result: "\<forall>s \<in> set specs. spec_ok s \<Longrightarrow> add_missing specs reg = Inr (spec_map specs ++ reg)"
proof (induction specs arbitrary: reg)
  case Nil
  then show ?case by simp
next
  case (Cons s specs)
  then have "add_missing (s # specs) reg = Inr (spec_map specs ++ ([fst s \<mapsto> spec_field s] ++ reg))"
    by (cases "has_field reg (fst s)") (simp_all add: add_field_spec present_field)
  then show ?case unfolding spec_map_step .
qed

lemma dom_spec_map: "dom (spec_map specs) = fst ` set specs"
  by (force simp: spec_map_def dom_map_of_conv_image_fst)

lemma spec_map_in: "distinct (map fst specs) \<Longrightarrow> s \<in> set specs \<Longrightarrow> spec_map specs (fst s) = Some (spec_field s)"
  unfolding spec_map_def by (rule map_of_is_SomeI) (auto simp: comp_def)

lemma volume_spec_simps [simp]: "fst (volume_spec g n) = n" "spec_ok (volume_spec g n)"
  by (simp_all add: volume_spec_def spec_ok_def)

lemma standard_ok: "\<forall>s \<in> set (standard_fields mapped g). spec_ok s"
  by (simp add: standard_fields_def background_fields_def volume_fields_def Let_def spec_ok_def)

lemma workspace_ok: "\<forall>s \<in> set (wind_solver_specs g). spec_ok s"
  by (simp add: wind_solver_specs_def Let_def spec_ok_def)

definition standard_names :: "string list" where
  "standard_names = map fst (background_fields False 0 0 0 @ volume_fields 0 0 0)"

lemma standard_names: "map fst (standard_fields mapped g) = standard_names"
  by (simp add: standard_names_def standard_fields_def background_fields_def volume_fields_def Let_def)

lemma standard_names_distinct: "distinct standard_names"
  by code_simp

lemma dom_standard: "dom (spec_map (standard_fields mapped g)) = set standard_names"
  by (simp add: dom_spec_map standard_names [symmetric, of mapped g])

lemma add_sources_result:
  "add_sources g prog ts reg = Inr reg' \<Longrightarrow>
     reg' = spec_map (map (\<lambda>t. volume_spec g (source_name t)) ts) ++ reg \<and> distinct ts \<and>
     (\<forall>t \<in> set ts. \<not> has_field reg (source_name t) \<and> \<not> contains_key prog (source_name t))"
proof (induction ts arbitrary: reg)
  case Nil
  then show ?case by simp
next
  case (Cons t ts)
  let ?reg = "[source_name t \<mapsto> spec_field (volume_spec g (source_name t))] ++ reg"
  from Cons.prems have t: "\<not> has_field reg (source_name t)" "\<not> contains_key prog (source_name t)"
    and rest: "add_sources g prog ts ?reg = Inr reg'"
    by (auto simp: rbind_eq_Inr_iff add_field_spec)
  note IH = Cons.IH [OF rest]
  have "t \<notin> set ts" using IH by (auto simp: has_field_def map_add_def split: option.splits)
  moreover have "reg' = spec_map (map (\<lambda>t. volume_spec g (source_name t)) (t # ts)) ++ reg"
    using conjunct1 [OF IH] spec_map_step [of _ "volume_spec g (source_name t)" reg] by (simp only: list.map volume_spec_simps)
  moreover have "\<not> has_field reg (source_name s)" if "s \<in> set ts" for s
    using IH that by (auto simp: has_field_def map_add_def split: option.splits)
  ultimately show ?case using IH t by auto
qed

section \<open>Reading the tracers\<close>

lemma read_tracers_result:
  "read_tracers reg prog items = Inr (names, targets) \<Longrightarrow>
     set names \<subseteq> fst ` set items \<and> (distinct (map fst items) \<longrightarrow> distinct names) \<and>
     set targets \<subseteq> set names \<and> (distinct names \<longrightarrow> distinct targets) \<and>
     (\<forall>n \<in> set names. \<not> name_collides reg prog n)"
proof (induction items arbitrary: names targets)
  case Nil
  then show ?case by simp
next
  case (Cons item items)
  obtain n opts where item: "item = (n, opts)" by (cases item)
  from Cons.prems [unfolded item] obtain enabled where ok: "\<not> name_collides reg prog n"
    and rest: "(if \<not> enabled then read_tracers reg prog items else
     rbind (source_option n opts) (\<lambda>source_enabled.
     rbind (read_tracers reg prog items) (\<lambda>(names, targets).
     Inr (n # names, if source_enabled then n # targets else targets)))) = Inr (names, targets)"
    by (auto simp: rbind_eq_Inr_iff simp del: if_split)
  show ?case
  proof (cases enabled)
    case False
    with rest have "read_tracers reg prog items = Inr (names, targets)" by simp
    from Cons.IH [OF this] show ?thesis by (auto simp: item)
  next
    case True
    with rest obtain names' targets' src where "read_tracers reg prog items = Inr (names', targets')"
      and eq: "names = n # names'" "targets = (if src then n # targets' else targets')"
      by (auto simp: rbind_eq_Inr_iff)
    from Cons.IH [OF this(1)] ok show ?thesis by (auto simp: item eq)
  qed
qed

section \<open>The created state\<close>

text \<open>The members of an object have distinct names: \<open>nlohmann::json\<close> keeps them in a map.\<close>

definition members_distinct :: "json \<Rightarrow> bool" where
  "members_distinct config =
     (case find_node config ''dynamics.tracers'' of Some (JObject ms) \<Rightarrow> distinct (map fst ms) | _ \<Rightarrow> True)"

lemma source_name_inj [simp]: "source_name a = source_name b \<longleftrightarrow> a = b"
  by (simp add: source_name_def)

definition tracer_fields :: "grid \<Rightarrow> model_state \<Rightarrow> field_spec list" where
  "tracer_fields g S = map (volume_spec g) (tracers S)"

definition source_fields :: "grid \<Rightarrow> model_state \<Rightarrow> field_spec list" where
  "source_fields g S = map (\<lambda>t. volume_spec g (source_name t)) (source_targets S)"

lemma create_state_spec:
  assumes "create_state config mapped g = Inr S"
  shows "state_fields S = spec_map (source_fields g S) ++ (spec_map (tracer_fields g S) ++ spec_map (standard_fields mapped g)) \<and>
    (\<forall>n \<in> set (tracers S). \<exists>prog. read_prognostic config = Inr prog \<and> \<not> name_collides (spec_map (standard_fields mapped g)) prog n) \<and>
    source_names S = map source_name (source_targets S) \<and> set (source_targets S) \<subseteq> set (tracers S) \<and>
    (members_distinct config \<longrightarrow> distinct (tracers S) \<and> distinct (source_targets S)) \<and>
    (\<forall>t \<in> set (source_targets S). \<not> has_field (spec_map (tracer_fields g S) ++ spec_map (standard_fields mapped g)) (source_name t))"
proof (cases "has_key config ''dynamics.tracers''")
  case False
  with assms have "S = \<lparr>state_fields = spec_map (standard_fields mapped g), tracers = [], source_targets = [], source_names = []\<rparr>"
    by (simp add: create_state_def add_fields_result [OF standard_ok])
  then show ?thesis by (simp add: tracer_fields_def source_fields_def)
next
  case True
  let ?std = "spec_map (standard_fields mapped g)"
  from assms True obtain tc prog names targets reg where tc: "get_value as_json config ''dynamics.tracers'' = Inr tc" "is_object tc"
    and prog: "read_prognostic config = Inr prog" and read: "read_tracers ?std prog (json_items tc) = Inr (names, targets)"
    and sources: "add_sources g prog targets (spec_map (map (volume_spec g) names) ++ ?std) = Inr reg"
    and S: "S = \<lparr>state_fields = reg, tracers = names, source_targets = targets, source_names = map source_name targets\<rparr>"
    by (auto simp: create_state_def add_fields_result [OF standard_ok] add_fields_result rbind_eq_Inr_iff)
  obtain ms where ms: "tc = JObject ms" using tc(2) by (auto simp: is_object_def split: json.splits)
  have "find_node config ''dynamics.tracers'' = Some (JObject ms)"
    using tc(1) ms by (auto simp: get_value_def split: option.splits)
  then have "members_distinct config \<Longrightarrow> distinct (map fst (json_items tc))"
    by (simp add: members_distinct_def json_items_def ms)
  with read_tracers_result [OF read] add_sources_result [OF sources] prog show ?thesis
    by (auto simp: S tracer_fields_def source_fields_def)
qed

lemma has_field_dom: "has_field reg n \<longleftrightarrow> n \<in> dom reg"
  by (auto simp: has_field_def)

lemma dom_tracers: "dom (spec_map (tracer_fields g S)) = set (tracers S)"
  by (force simp: dom_spec_map tracer_fields_def)

lemma dom_sources: "dom (spec_map (source_fields g S)) = source_name ` set (source_targets S)"
  by (force simp: dom_spec_map source_fields_def)

definition zero_field :: "grid \<Rightarrow> any_field" where
  "zero_field g = spec_field (volume_spec g [])"

lemma spec_field_volume: "spec_field (volume_spec g n) = zero_field g"
  by (simp add: zero_field_def spec_field_def volume_spec_def)

lemma volume_fields_at:
  "spec_map (map (volume_spec g) ns) n = (if n \<in> set ns then Some (zero_field g) else None)"
  by (induction ns) (simp_all add: spec_map_Cons spec_field_volume)

lemma source_fields_at:
  "spec_map (source_fields g S) n = (if n \<in> source_name ` set (source_targets S) then Some (zero_field g) else None)"
  using volume_fields_at [of g "map source_name (source_targets S)" n] by (simp add: source_fields_def comp_def)

text \<open>C14. State: construction gives every standard field its dimensions, staggering and zero values, exactly one
  zero three-dimensional centred field to every enabled tracer and every source, and no other field; a tracer is none of
  the standard, reserved, derived or prognostic names, and no two of the names of tracers and sources are equal.\<close>

theorem created_state_is_well_formed:
  assumes "create_state config mapped g = Inr S" and "members_distinct config"
  shows "(\<forall>s \<in> set (standard_fields mapped g). state_fields S (fst s) = Some (spec_field s)) \<and>
    (\<forall>n \<in> set (tracers S @ source_names S). state_fields S n = Some (zero_field g)) \<and>
    dom (state_fields S) = set standard_names \<union> set (tracers S) \<union> set (source_names S) \<and>
    distinct (standard_names @ tracers S @ source_names S) \<and>
    source_names S = map source_name (source_targets S) \<and> set (source_targets S) \<subseteq> set (tracers S) \<and>
    (\<forall>n \<in> set (tracers S). n \<noteq> [] \<and> n \<notin> set reserved_names \<and> \<not> uses_internal_name n \<and>
       (\<forall>prog. read_prognostic config = Inr prog \<longrightarrow> \<not> contains_key prog n))"
proof -
  note S = create_state_spec [OF assms(1)]
  have names: "source_names S = map source_name (source_targets S)" using S by blast
  have fields: "state_fields S = spec_map (source_fields g S) ++ (spec_map (tracer_fields g S) ++ spec_map (standard_fields mapped g))"
    using S by blast
  have ok: "\<exists>prog. read_prognostic config = Inr prog \<and> \<not> name_collides (spec_map (standard_fields mapped g)) prog n" if "n \<in> set (tracers S)" for n
    using S that by blast
  have tracer: "n \<notin> set standard_names" if "n \<in> set (tracers S)" for n
    using ok [OF that] by (auto simp: name_collides_def has_field_dom dom_standard)
  have source: "n \<notin> set standard_names \<and> n \<notin> set (tracers S)" if "n \<in> set (source_names S)" for n
    using S that by (auto simp: names has_field_dom dom_standard dom_tracers)
  have "distinct (tracers S)" "distinct (source_targets S)" using S assms(2) by blast+
  then have dist: "distinct (standard_names @ tracers S @ source_names S)"
    using tracer source standard_names_distinct by (auto simp: names distinct_map inj_on_def)
  have std: "state_fields S (fst s) = Some (spec_field s)" if s: "s \<in> set (standard_fields mapped g)" for s
  proof -
    have n: "fst s \<in> set standard_names" using s by (force simp: standard_names [symmetric, of mapped g])
    then have "fst s \<notin> dom (spec_map (source_fields g S))" "fst s \<notin> dom (spec_map (tracer_fields g S))"
      using tracer source by (auto simp: dom_tracers dom_sources names)
    moreover have "spec_map (standard_fields mapped g) (fst s) = Some (spec_field s)"
      by (rule spec_map_in [OF _ s]) (simp add: standard_names standard_names_distinct)
    ultimately show ?thesis by (simp add: fields map_add_dom_app_simps)
  qed
  have vol: "state_fields S n = Some (zero_field g)" if "n \<in> set (tracers S @ source_names S)" for n
  proof -
    have "n \<notin> dom (spec_map (standard_fields mapped g))" using that tracer source by (auto simp: dom_standard)
    then have "spec_map (standard_fields mapped g) n = None" by blast
    then show ?thesis using that by (auto simp: fields map_add_def source_fields_at tracer_fields_def volume_fields_at names)
  qed
  have "dom (state_fields S) = set standard_names \<union> set (tracers S) \<union> set (source_names S)"
    by (auto simp: fields dom_sources dom_tracers dom_standard names)
  moreover have "\<forall>n \<in> set (tracers S). n \<noteq> [] \<and> n \<notin> set reserved_names \<and> \<not> uses_internal_name n \<and>
       (\<forall>prog. read_prognostic config = Inr prog \<longrightarrow> \<not> contains_key prog n)"
    using ok by (auto simp: name_collides_def)
  ultimately show ?thesis using std vol dist names S by blast
qed

section \<open>A tracer with the name of a workspace field\<close>

lemma single_tracer:
  assumes "find_node config ''dynamics.tracers'' = Some (JObject [(n, JObject [])])" and "read_prognostic config = Inr prog"
    and "\<not> name_collides (spec_map (standard_fields mapped g)) prog n"
  shows "create_state config mapped g = Inr \<lparr>state_fields = [n \<mapsto> zero_field g] ++ spec_map (standard_fields mapped g),
    tracers = [n], source_targets = [], source_names = []\<rparr>"
proof -
  have "get_value as_json config ''dynamics.tracers'' = Inr (JObject [(n, JObject [])])" "has_key config ''dynamics.tracers''"
    by (simp_all add: get_value_def has_key_def assms(1))
  moreover have "spec_map [volume_spec g n] = [n \<mapsto> zero_field g]"
    by (auto simp: fun_eq_iff spec_map_Cons spec_field_volume)
  ultimately show ?thesis using assms(2,3)
    by (simp add: create_state_def add_fields_result [OF standard_ok] add_field_spec is_object_def json_items_def
      enable_option_def source_option_def member_def spec_field_volume)
qed

lemma workspace_names_free:
  "\<forall>n \<in> set (map fst (wind_solver_specs g)). n \<noteq> [] \<and> n \<notin> set standard_names \<and> n \<notin> set reserved_names \<and> \<not> uses_internal_name n"
proof -
  have names: "map fst (wind_solver_specs g) =
    [''utop_mean_tmp'', ''vtop_mean_tmp'', ''W3DNM1'', ''u_topo'', ''v_topo'', ''w_topo'', ''xi_topo'', ''eta_topo'']"
    by (simp add: wind_solver_specs_def Let_def)
  have "\<forall>n \<in> set [''utop_mean_tmp'', ''vtop_mean_tmp'', ''W3DNM1'', ''u_topo'', ''v_topo'', ''w_topo'', ''xi_topo'', ''eta_topo''].
    n \<noteq> [] \<and> n \<notin> set standard_names \<and> n \<notin> set reserved_names \<and> \<not> uses_internal_name n"
    by code_simp
  then show ?thesis unfolding names .
qed

lemma workspace_distinct: "distinct (map fst (wind_solver_specs g))"
  by (simp add: wind_solver_specs_def Let_def)

text \<open>C32. Names of tracers: none of the fields in which the wind solver works is reserved.  A tracer with such a name is
  accepted, and the solver then creates the other fields but works in the field of the tracer, or finds a field of
  the wrong dimension where it needs a scalar.\<close>

theorem tracer_takes_workspace:
  assumes "find_node config ''dynamics.tracers'' = Some (JObject [(n, JObject [])])"
    and "read_prognostic config = Inr prog" and "\<not> contains_key prog n" and "w \<in> set (wind_solver_specs g)" and "n = fst w"
  shows "\<exists>S reg. create_state config mapped g = Inr S \<and> tracers S = [n] \<and>
    add_missing (wind_solver_specs g) (state_fields S) = Inr reg \<and> reg n = state_fields S n \<and>
    lookup_field 3 reg n = Inr (zero_field g) \<and> lookup_field 0 reg n = Inl (Incorrect_dimension n) \<and>
    (\<forall>s \<in> set (wind_solver_specs g). fst s \<noteq> n \<longrightarrow> reg (fst s) = Some (spec_field s))"
proof -
  have n: "n \<noteq> []" "n \<notin> set standard_names" "n \<notin> set reserved_names" "\<not> uses_internal_name n"
    using workspace_names_free [of g] assms(4,5) by auto
  then have "\<not> name_collides (spec_map (standard_fields mapped g)) prog n"
    using assms(3) by (simp add: name_collides_def has_field_dom dom_standard)
  note S = single_tracer [OF assms(1,2) this]
  let ?reg = "[n \<mapsto> zero_field g] ++ spec_map (standard_fields mapped g)"
  have "n \<notin> dom (spec_map (standard_fields mapped g))" using n by (simp add: dom_standard)
  then have reg: "?reg n = Some (zero_field g)" by (simp add: map_add_dom_app_simps)
  have other: "?reg (fst s) = None" if "s \<in> set (wind_solver_specs g)" "fst s \<noteq> n" for s
  proof -
    have "fst s \<notin> dom (spec_map (standard_fields mapped g))" using workspace_names_free [of g] that by (auto simp: dom_standard)
    then have "spec_map (standard_fields mapped g) (fst s) = None" by blast
    then show ?thesis using that(2) by (simp add: map_add_def)
  qed
  let ?reg' = "spec_map (wind_solver_specs g) ++ ?reg"
  have "?reg' (fst s) = Some (spec_field s)" if "s \<in> set (wind_solver_specs g)" "fst s \<noteq> n" for s
    using other [OF that] spec_map_in [OF workspace_distinct that(1)] by (simp add: map_add_def)
  moreover have "?reg' n = Some (zero_field g)" using reg by (simp add: map_add_def)
  moreover have "any_dim (zero_field g) = 3" by (simp add: zero_field_def spec_field_def volume_spec_def)
  ultimately show ?thesis using S reg add_missing_result [OF workspace_ok, of g ?reg]
    by (simp add: lookup_field_def)
qed

section \<open>Tracer sources\<close>

lemma source_kernel:
  "distinct xs \<Longrightarrow> parallel_for xs (\<lambda>(k, j, i) tracer. if m (0, k, j, i) = (1 :: real) then tracer((0, k, j, i) := tracer (0, k, j, i) + f (0, k, j, i)) else tracer) d =
     (\<lambda>c. if c \<in> Pair 0 ` set xs \<and> m c = 1 then d c + f c else d c)" for d :: view
proof (induction xs arbitrary: d)
  case Nil
  then show ?case by simp
next
  case (Cons x xs)
  obtain k j i where x: "x = (k, j, i)" by (cases x)
  from Cons show ?case by (auto simp: x Let_def fun_eq_iff)
qed

text \<open>The change of one tracer.\<close>

definition with_source :: "grid \<Rightarrow> view \<Rightarrow> real \<Rightarrow> registry \<Rightarrow> string \<Rightarrow> view \<Rightarrow> view" where
  "with_source g wmask dt reg t d =
     (\<lambda>c. if c \<in> Pair 0 ` set (physical_cells g (get_halo_cells g) (get_local_total_points_z g - get_halo_cells g)) \<and> wmask c = 1
      then d c + dt * any_data (the (reg (source_name t))) c else d c)"

lemma update_own_data: "map_option (any_data_update (\<lambda>_. f (any_data (the x)))) x = map_option (any_data_update f) x"
proof (cases x)
  case (Some a)
  then show ?thesis by (cases a) simp
qed simp

lemma apply_pair_at:
  "apply_pair g wmask dt (t, source_name t) reg =
     reg(t := map_option (any_data_update (with_source g wmask dt reg t)) (reg t))"
proof -
  have "parallel_for (physical_cells g (get_halo_cells g) (get_local_total_points_z g - get_halo_cells g))
      (\<lambda>(k, j, i) tracer. if wmask (0, k, j, i) = 1
         then tracer((0, k, j, i) := tracer (0, k, j, i) + dt * any_data (the (reg (source_name t))) (0, k, j, i)) else tracer) =
    with_source g wmask dt reg t"
    by (rule ext) (unfold source_kernel [OF distinct_physical_cells, where f = "\<lambda>c. dt * any_data (the (reg (source_name t))) c"] with_source_def, rule refl)
  then show ?thesis by (simp only: apply_pair_def set_data_def Let_def fst_conv snd_conv update_own_data)
qed

lemma apply_pairs:
  assumes "distinct ts" and "\<forall>t \<in> set ts. source_name t \<notin> set ts"
  shows "fold (apply_pair g wmask dt) (map (\<lambda>t. (t, source_name t)) ts) reg n =
    (if n \<in> set ts then map_option (any_data_update (with_source g wmask dt reg n)) (reg n) else reg n)"
  using assms
proof (induction ts arbitrary: reg)
  case Nil
  then show ?case by simp
next
  case (Cons t ts)
  have "with_source g wmask dt (reg(t := x)) s = with_source g wmask dt reg s" if "s \<in> set ts" for s x
    using Cons.prems that by (auto simp: with_source_def fun_eq_iff)
  with Cons show ?case by (simp add: apply_pair_at)
qed

definition same_dimensions :: "registry \<Rightarrow> registry \<Rightarrow> bool" where
  "same_dimensions reg reg' \<longleftrightarrow> (\<forall>n. map_option any_dim (reg n) = map_option any_dim (reg' n))"

lemma lookup_shape:
  assumes "same_dimensions reg reg'" and "reg n = Some f"
  shows "lookup_field (any_dim f) reg' n = Inr (the (reg' n))"
proof -
  have "map_option any_dim (reg' n) = Some (any_dim f)" using assms by (metis same_dimensions_def option.map(2))
  then show ?thesis by (auto simp: lookup_field_def)
qed

text \<open>C25. Tracer sources: on any state that the constructor built, whatever the values of its fields, the sources are
  applied without an error, the tracers with a source change by \<open>dt\<close> times their own source in the fluid cells of the
  domain, and no other field changes.\<close>

theorem tracer_sources_act:
  assumes "create_state config mapped g = Inr S" and "members_distinct config" and "same_dimensions (state_fields S) reg"
  shows "\<exists>S'. tracer_source_apply g dt (S\<lparr>state_fields := reg\<rparr>) = Inr S' \<and>
    (\<forall>n. state_fields S' n =
      (if n \<in> set (source_targets S)
       then map_option (any_data_update (with_source g (any_data (the (reg ''ITYPEW''))) dt reg n)) (reg n) else reg n))"
proof -
  note S = created_state_is_well_formed [OF assms(1,2)]
  note shape = lookup_shape [OF assms(3)]
  have dim: "any_dim (zero_field g) = 3" by (simp add: zero_field_def spec_field_def volume_spec_def)
  have "(''ITYPEW'', 3, [get_local_total_points_z g, get_local_total_points_y g, get_local_total_points_x g], StaggeredZ)
      \<in> set (standard_fields mapped g)"
    by (simp add: standard_fields_def volume_fields_def Let_def)
  then have wmask: "lookup_field 3 reg ''ITYPEW'' = Inr (the (reg ''ITYPEW''))"
    using S shape [of "''ITYPEW''"] by (fastforce simp: spec_field_def)
  have look: "lookup_field 3 reg n = Inr (the (reg n))" if "n \<in> set (tracers S @ source_names S)" for n
    using S that shape [of n] dim by fastforce
  have "rmap (\<lambda>t. rbind (lookup_field 3 reg t) (\<lambda>_. rbind (lookup_field 3 reg (t @ ''_source'')) (\<lambda>_. Inr (t, t @ ''_source'')))) ts =
      Inr (map (\<lambda>t. (t, source_name t)) ts)" if "set ts \<subseteq> set (source_targets S)" for ts
    using that
  proof (induction ts)
    case (Cons t ts)
    then have "t \<in> set (tracers S @ source_names S)" "source_name t \<in> set (tracers S @ source_names S)" using S by auto
    from look [OF this(1)] look [OF this(2)] Cons show ?case by (simp add: source_name_def)
  qed simp
  then have pairs: "source_pairs (S\<lparr>state_fields := reg\<rparr>) = Inr (map (\<lambda>t. (t, source_name t)) (source_targets S))"
    by (simp add: source_pairs_def)
  have "distinct (source_targets S)" "\<forall>t \<in> set (source_targets S). source_name t \<notin> set (source_targets S)"
    using S by (auto simp: distinct_map)
  with wmask pairs show ?thesis by (simp add: tracer_source_apply_def apply_pairs)
qed

section \<open>Witnesses\<close>

definition sample_tracers :: json where
  "sample_tracers = JObject [(''dynamics'', JObject [(''tracers'', JObject
     [(''dye'', JObject [(''source'', JObject [])]), (''salt'', JObject []), (''smoke'', JObject [(''enable'', JBool False)])])])]"

definition sample_state_grid :: grid where
  "sample_state_grid = (let g = sample_grid 2 3 in
     g\<lparr>dim_z := full_axis (dim_z g), dim_y := full_axis (dim_y g), dim_x := full_axis (dim_x g)\<rparr>)"

lemma sample_tracers_distinct: "members_distinct sample_tracers"
  by code_simp

lemma sample_state_created:
  "\<exists>S. create_state sample_tracers False sample_state_grid = Inr S \<and> tracers S = [''dye'', ''salt''] \<and> source_targets S = [''dye'']"
proof -
  have "case create_state sample_tracers False sample_state_grid of Inl _ \<Rightarrow> False
      | Inr S \<Rightarrow> tracers S = [''dye'', ''salt''] \<and> source_targets S = [''dye'']"
    by code_simp
  then show ?thesis by (auto split: sum.splits)
qed

lemma created_state_is_well_formed_witness:
  "\<exists>S. create_state sample_tracers False sample_state_grid = Inr S \<and> source_names S = [''dye_source''] \<and>
    state_fields S ''dye_source'' = Some (zero_field sample_state_grid) \<and> state_fields S ''smoke'' = None \<and>
    lookup_field 0 (state_fields S) ''utopmn'' = Inr \<lparr>any_dim = 0, any_dims = [], any_staggering = StaggeredX, any_data = (\<lambda>_. 0)\<rparr>"
proof -
  obtain S where S: "create_state sample_tracers False sample_state_grid = Inr S" "tracers S = [''dye'', ''salt'']" "source_targets S = [''dye'']"
    using sample_state_created by blast
  note W = created_state_is_well_formed [OF S(1) sample_tracers_distinct]
  have names: "source_names S = [''dye_source'']" using W S(3) by (simp add: source_name_def)
  have "''smoke'' \<notin> set standard_names" by code_simp
  then have "''smoke'' \<notin> dom (state_fields S)" using W S(2) names by auto
  moreover have "(''utopmn'', 0, [], StaggeredX) \<in> set (standard_fields False sample_state_grid)"
    by (simp add: standard_fields_def background_fields_def Let_def)
  then have "state_fields S ''utopmn'' = Some (spec_field (''utopmn'', 0, [], StaggeredX))" using W by fastforce
  moreover have "state_fields S ''dye_source'' = Some (zero_field sample_state_grid)" using W names by simp
  ultimately show ?thesis using S(1) names by (auto simp: lookup_field_def spec_field_def)
qed

definition sample_clash :: json where
  "sample_clash = JObject [(''dynamics'', JObject [(''tracers'', JObject [(''u_topo'', JObject [])])])]"

lemma tracer_takes_workspace_witness:
  "\<exists>S reg. create_state sample_clash False sample_state_grid = Inr S \<and>
    add_missing (wind_solver_specs sample_state_grid) (state_fields S) = Inr reg \<and>
    lookup_field 3 reg ''u_topo'' = Inr (zero_field sample_state_grid) \<and> any_staggering (zero_field sample_state_grid) = Centered"
proof -
  have "find_node sample_clash ''dynamics.tracers'' = Some (JObject [(''u_topo'', JObject [])])" by code_simp
  moreover have "\<not> has_key sample_clash ''dynamics.prognostic_variables''" by code_simp
  then have "read_prognostic sample_clash = Inr (JObject [])" by (simp add: read_prognostic_def)
  moreover have "\<not> contains_key (JObject []) ''u_topo''" by code_simp
  moreover have "(''u_topo'', 3, [get_local_total_points_z sample_state_grid, get_local_total_points_y sample_state_grid,
      get_local_total_points_x sample_state_grid], StaggeredX) \<in> set (wind_solver_specs sample_state_grid)"
    by (simp add: wind_solver_specs_def Let_def)
  ultimately show ?thesis
    using tracer_takes_workspace [of sample_clash "''u_topo''" "JObject []" _ sample_state_grid False]
    by (fastforce simp: zero_field_def spec_field_def volume_spec_def)
qed

text \<open>A source of one per second, in two seconds, in a fluid cell.\<close>

definition sample_values :: "registry \<Rightarrow> registry" where
  "sample_values reg = (\<lambda>n. map_option (any_data_update (\<lambda>_ _. if n = ''dye_source'' \<or> n = ''ITYPEW'' then 1 else 5)) (reg n))"

lemma sample_same_dimensions: "same_dimensions reg (sample_values reg)"
  by (simp add: same_dimensions_def sample_values_def option.map_comp comp_def)

lemma sample_interior:
  "(0 :: int, 2, 2, 2) \<in> Pair 0 ` set (physical_cells sample_state_grid (get_halo_cells sample_state_grid)
    (get_local_total_points_z sample_state_grid - get_halo_cells sample_state_grid))"
  by code_simp

lemma sample_corner:
  "(0 :: int, 0, 0, 0) \<notin> Pair 0 ` set (physical_cells sample_state_grid (get_halo_cells sample_state_grid)
    (get_local_total_points_z sample_state_grid - get_halo_cells sample_state_grid))"
  by code_simp

lemma any_data_update_value [simp]: "any_data (any_data_update f a) = f (any_data a)"
  by (cases a) simp

lemma tracer_sources_act_witness:
  "\<exists>S S'. create_state sample_tracers False sample_state_grid = Inr S \<and>
    tracer_source_apply sample_state_grid 2 (S\<lparr>state_fields := sample_values (state_fields S)\<rparr>) = Inr S' \<and>
    any_data (the (state_fields S' ''dye'')) (0, 2, 2, 2) = 7 \<and> any_data (the (state_fields S' ''dye'')) (0, 0, 0, 0) = 5 \<and>
    any_data (the (state_fields S' ''salt'')) (0, 2, 2, 2) = 5"
proof -
  obtain S where S: "create_state sample_tracers False sample_state_grid = Inr S" "tracers S = [''dye'', ''salt'']" "source_targets S = [''dye'']"
    using sample_state_created by blast
  note W = created_state_is_well_formed [OF S(1) sample_tracers_distinct]
  have names: "source_names S = [''dye_source'']" using W S(3) by (simp add: source_name_def)
  have zero: "state_fields S ''dye'' = Some (zero_field sample_state_grid)" "state_fields S ''salt'' = Some (zero_field sample_state_grid)"
    "state_fields S ''dye_source'' = Some (zero_field sample_state_grid)"
    using W S(2) names by simp_all
  have "''ITYPEW'' \<in> set standard_names" by code_simp
  then have "''ITYPEW'' \<in> dom (state_fields S)" using W by blast
  then obtain w where w: "state_fields S ''ITYPEW'' = Some w" by blast
  obtain S' where S': "tracer_source_apply sample_state_grid 2 (S\<lparr>state_fields := sample_values (state_fields S)\<rparr>) = Inr S'"
    and at: "\<And>n. state_fields S' n = (if n \<in> set (source_targets S) then map_option (any_data_update (with_source sample_state_grid
        (any_data (the (sample_values (state_fields S) ''ITYPEW''))) 2 (sample_values (state_fields S)) n))
        (sample_values (state_fields S) n) else sample_values (state_fields S) n)"
    using tracer_sources_act [OF S(1) sample_tracers_distinct sample_same_dimensions, of 2] by blast
  have "any_data (the (state_fields S' ''dye'')) (0, 2, 2, 2) = 7" "any_data (the (state_fields S' ''dye'')) (0, 0, 0, 0) = 5"
    "any_data (the (state_fields S' ''salt'')) (0, 2, 2, 2) = 5"
    using sample_interior sample_corner
    by (simp_all add: at S(3) sample_values_def zero w with_source_def source_name_def)
  with S(1) S' show ?thesis by blast
qed

end
