(* ===== verification/Vertical_Grid.thy ===== *)
theory Vertical_Grid
  imports Wind_Recovery
begin

text \<open>
The vertical grid and the parameters of the solvers: \<open>Initializer::initialize_grid\<close> in
  \<^verbatim>\<open>src/core/initialization/Initializer.cpp\<close>, with its three coordinate types, and the constructor of \<open>Parameters\<close> in
  \<^verbatim>\<open>src/core/Parameters.cpp\<close>.  \<open>slope\<close> and \<open>height\<close> are the quadratic transformation of a uniform grid and its derivative;
  the theorems say at which levels the coefficients of the kernels are the ratio of the nominal spacing to the depth
  of a layer, and that the start-up establishes what the theorems on the wind assume.
\<close>

section \<open>Levels\<close>

datatype vertical_error = Cannot_open_rcemip string | Rcemip_ends_early | Rcemip_unreadable

text \<open>The one-dimensional fields of \<open>Parameters\<close> that \<open>initialize_grid\<close> fills.\<close>

record vertical_levels =
  lv_z_mid :: "int \<Rightarrow> real"
  lv_z_up :: "int \<Rightarrow> real"
  lv_flex_mid :: "int \<Rightarrow> real"
  lv_flex_up :: "int \<Rightarrow> real"
  lv_dz_mid :: "int \<Rightarrow> real"
  lv_dz_up :: "int \<Rightarrow> real"
  lv_fact1 :: "int \<Rightarrow> real"
  lv_fact2 :: "int \<Rightarrow> real"

text \<open>\<open>CZ2\<close> and \<open>CZ1\<close>, for a spacing \<open>d\<close> and a lowest layer \<open>d1\<close>; the domain is 15000 m high.\<close>

definition CZ2 :: "real \<Rightarrow> real \<Rightarrow> real" where
  "CZ2 d d1 = (d - d1) / (d * (15000 - d))"

definition CZ1 :: "real \<Rightarrow> real \<Rightarrow> real" where
  "CZ1 d d1 = 1 - CZ2 d d1 * 15000"

text \<open>Equidistant levels.\<close>

definition add_layers :: "real \<Rightarrow> int \<Rightarrow> int \<Rightarrow> (int \<Rightarrow> real) \<Rightarrow> int \<Rightarrow> real" where
  "add_layers d a n z = fold (\<lambda>k z. z(k := z (k - 1) + d)) (range1 a n) z"

definition uniform_levels :: "int \<Rightarrow> int \<Rightarrow> real \<Rightarrow> vertical_levels \<Rightarrow> vertical_levels" where
  "uniform_levels h n d V =
     (let up = add_layers d h n ((lv_z_up V)(h - 1 := 0)) in
      V\<lparr>lv_z_up := up, lv_z_mid := add_layers d (h + 1) n ((lv_z_mid V)(h - 1 := up (h - 1), h := up (h - 1) + 1 / 2 * d))\<rparr>)"

text \<open>The coordinate type \<open>default\<close>: kernel \<open>Init_Z_flexZCoef\<close>.  At the pole of the coefficient the division by zero gives
  zero here and an infinity in the code.\<close>

definition flex_kernel :: "real \<Rightarrow> real \<Rightarrow> int \<Rightarrow> int \<Rightarrow> vertical_levels \<Rightarrow> vertical_levels" where
  "flex_kernel c1 c2 h n = parallel_for (range1 (h - 1) n) (\<lambda>k V.
     V\<lparr>lv_flex_mid := (lv_flex_mid V)(k := 1 / (c1 + 2 * c2 * lv_z_mid V k)),
       lv_flex_up := (lv_flex_up V)(k := 1 / (c1 + 2 * c2 * lv_z_up V k)),
       lv_z_mid := (lv_z_mid V)(k := lv_z_mid V k * (c1 + c2 * lv_z_mid V k)),
       lv_z_up := (lv_z_up V)(k := lv_z_up V k * (c1 + c2 * lv_z_up V k))\<rparr>)"

text \<open>The coordinate type \<open>taiwanvvm\<close>: the two arrays of the half levels or of the full levels are transformed, then
  moved up by one layer of depth \<open>d1\<close> again and again.\<close>

definition stretch_loop :: "real \<Rightarrow> real \<Rightarrow> int \<Rightarrow> int \<Rightarrow> (int \<Rightarrow> real) \<times> (int \<Rightarrow> real) \<Rightarrow> (int \<Rightarrow> real) \<times> (int \<Rightarrow> real)" where
  "stretch_loop c1 c2 a n = fold (\<lambda>k (flex, z). (flex(k := 1 / (c1 + 2 * c2 * z k)), z(k := z k * (c1 + c2 * z k)))) (range1 a n)"

definition insert_layer ::
  "real \<Rightarrow> real \<Rightarrow> int \<Rightarrow> int \<Rightarrow> (int \<Rightarrow> real) \<times> (int \<Rightarrow> real) \<Rightarrow> (int \<Rightarrow> real) \<times> (int \<Rightarrow> real)" where
  "insert_layer d d1 n kc s =
     (let moved = fold (\<lambda>k (flex, z). (flex(k := flex (k - 1)), z(k := z (k - 1) + d1))) (rev (range1 (kc + 1) n)) s in
      if kc < n then ((fst moved)(kc := d / d1), (snd moved)(kc := snd moved (kc - 1) + d1)) else moved)"

definition lowest_half_layers :: "real \<Rightarrow> real \<Rightarrow> int \<Rightarrow> int \<Rightarrow> (int \<Rightarrow> real) \<Rightarrow> int" where
  "lowest_half_layers d d1 h n z_up =
     (let KT = truncate_real ((1 - CZ1 d d1) / CZ2 d d1 / 2 / d);
          kt0 = (if KT + h - 2 \<ge> n then n - 1 else KT + h - 2);
          kt_idx = (if kt0 < 0 then 0 else kt0)
      in truncate_real (z_up kt_idx / d1 + 999 / 1000))"

definition taiwan_levels :: "int \<Rightarrow> int \<Rightarrow> real \<Rightarrow> real \<Rightarrow> vertical_levels \<Rightarrow> vertical_levels" where
  "taiwan_levels h n d d1 V0 =
     (let c1 = CZ1 d d1; c2 = CZ2 d d1; V = uniform_levels h n d V0;
          (flex1, up1) = stretch_loop c1 c2 (h - 1) n (lv_flex_up V, lv_z_up V);
          KT1 = lowest_half_layers d d1 h n up1;
          (flex2, up2) = fold (\<lambda>K. insert_layer d d1 n (K + h - 2)) (range1 2 KT1) (flex1(h - 1 := d / d1), up1(h - 1 := 0));
          (flexm1, mid1) = stretch_loop c1 c2 (h - 1) n (lv_flex_mid V, lv_z_mid V);
          (flexm2, mid2) = fold (\<lambda>K. insert_layer d d1 n (K + h - 2)) (range1 3 (KT1 + 1))
            (flexm1(h - 1 := d / d1, h := d / d1), mid1(h - 1 := 0, h := up2 (h - 1) + d1 / 2));
          kt1 = KT1 + 1 + h - 2;
          flex3 = (if kt1 < n \<and> KT1 + 2 + h - 2 < n then flex2(kt1 := d / (mid2 (KT1 + 2 + h - 2) - mid2 (KT1 + 1 + h - 2))) else flex2)
      in V\<lparr>lv_z_up := up2, lv_z_mid := mid2, lv_flex_up := flex3, lv_flex_mid := flexm2\<rparr>)"

text \<open>The coordinate type \<open>rcemip\<close>.  The file is a parameter: the lines after its header, each with its two numbers if it
  begins with two.\<close>

type_synonym rcemip_files = "string \<Rightarrow> (real \<times> real) option list option"

fun read_levels :: "int list \<Rightarrow> (real \<times> real) option list \<Rightarrow> (int \<Rightarrow> real) \<times> (int \<Rightarrow> real) \<Rightarrow> vertical_error + (int \<Rightarrow> real) \<times> (int \<Rightarrow> real)" where
  "read_levels [] rows s = Inr s"
| "read_levels (k # ks) [] s = Inl Rcemip_ends_early"
| "read_levels (k # ks) (None # rows) s = Inl Rcemip_unreadable"
| "read_levels (k # ks) (Some (zz, zt) # rows) s = read_levels ks rows ((fst s)(k := zz), (snd s)(k := zt))"

definition extrapolate_up :: "int \<Rightarrow> int \<Rightarrow> (int \<Rightarrow> real) \<Rightarrow> int \<Rightarrow> real" where
  "extrapolate_up a n z = fold (\<lambda>k z. z(k := 2 * z (k - 1) - z (k - 2))) (range1 a n) z"

definition extrapolate_down :: "int \<Rightarrow> (int \<Rightarrow> real) \<Rightarrow> int \<Rightarrow> real" where
  "extrapolate_down a z = fold (\<lambda>k z. z(k := z (k + 1) - (z (k + 2) - z (k + 1)))) (rev (range1 0 (a + 1))) z"

definition rcemip_levels :: "rcemip_files \<Rightarrow> string \<Rightarrow> int \<Rightarrow> int \<Rightarrow> real \<Rightarrow> vertical_levels \<Rightarrow> vertical_error + vertical_levels" where
  "rcemip_levels files path h n d V =
     (case files path of None \<Rightarrow> Inl (Cannot_open_rcemip path)
      | Some rows \<Rightarrow>
          rbind (read_levels (range1 h (n - h)) rows ((lv_z_up V)(h - 1 := 0), (lv_z_mid V)(h - 1 := 0))) (\<lambda>(up0, mid0).
          let up = extrapolate_down (h - 2) (extrapolate_up (n - h) n up0);
              mid = extrapolate_down (h - 2) (extrapolate_up (n - h) n mid0);
              fu = fold (\<lambda>k f. f(k := d / (mid (k + 1) - mid k))) (range1 0 (n - 1)) (lv_flex_up V);
              fm = fold (\<lambda>k f. f(k := d / (up k - up (k - 1)))) (range1 1 n) (lv_flex_mid V)
          in Inr (V\<lparr>lv_z_up := up, lv_z_mid := mid, lv_flex_up := fu(n - 1 := fu (n - 2)), lv_flex_mid := fm(0 := fm 1)\<rparr>)))"

text \<open>The kernels \<open>Init_dz\<close> and \<open>Init_zflex_fact\<close>.\<close>

definition layer_depths :: "int \<Rightarrow> int \<Rightarrow> vertical_levels \<Rightarrow> vertical_levels" where
  "layer_depths h n V = parallel_for (range1 h (n - h)) (\<lambda>k V.
     V\<lparr>lv_dz_mid := (lv_dz_mid V)(k := lv_z_up V k - lv_z_up V (k - 1)),
       lv_dz_up := (lv_dz_up V)(k := lv_z_mid V (k + 1) - lv_z_mid V k)\<rparr>) V"

definition flex_factors :: "int \<Rightarrow> int \<Rightarrow> vertical_levels \<Rightarrow> vertical_levels" where
  "flex_factors h n V = parallel_for (range1 h (n - h - 1)) (\<lambda>k V.
     V\<lparr>lv_fact1 := (lv_fact1 V)(k := lv_flex_up V k / lv_flex_mid V (k + 1)),
       lv_fact2 := (lv_fact2 V)(k := lv_flex_up V k / lv_flex_mid V k)\<rparr>) V"

definition initialize_grid :: "rcemip_files \<Rightarrow> grid \<Rightarrow> vertical_levels \<Rightarrow> vertical_error + vertical_levels" where
  "initialize_grid files g V0 =
     (let v = vertical (grid_spec g); d = fval (dz v); d1 = fval (dz1 v);
          h = get_halo_cells g; n = get_local_total_points_z g;
          V = V0\<lparr>lv_z_up := (lv_z_up V0)(h - 1 := 0)\<rparr>
      in rbind (case vtype v of
            TaiwanVVM \<Rightarrow> Inr (taiwan_levels h n d d1 V)
          | RCEMIP \<Rightarrow> rcemip_levels files (rcemip_grid_data_path v) h n d V
          | Default \<Rightarrow> Inr (flex_kernel (CZ1 d d1) (CZ2 d d1) h n (uniform_levels h n d V)))
         (\<lambda>V. Inr (flex_factors h n (layer_depths h n V))))"

section \<open>What the loops compute\<close>

lemma range1_last: "a < n \<Longrightarrow> range1 a n = range1 a (n - 1) @ [n - 1]"
  using upto_rec2 [of a "n - 1"] by (simp add: range1_def)

lemma range1_induct [case_names empty step]:
  fixes a n :: int
  assumes "\<And>n. n \<le> a \<Longrightarrow> P n" and "\<And>n. a < n \<Longrightarrow> P (n - 1) \<Longrightarrow> P n"
  shows "P n"
proof (induction "nat (n - a)" arbitrary: n)
  case 0
  then show ?case using assms(1) by simp
next
  case (Suc m)
  then have "m = nat (n - 1 - a)" "a < n" by simp_all
  with Suc.hyps(1) [of "n - 1"] assms(2) show ?case by simp
qed

lemma add_layers_at:
  "add_layers d a n z k = (if a \<le> k \<and> k < n then z (a - 1) + real_of_int (k - a + 1) * d else z k)"
proof (induction n arbitrary: k rule: range1_induct [where a = a])
  case (empty n)
  then show ?case by (simp add: add_layers_def range1_empty)
next
  case (step n)
  have "add_layers d a n z = (add_layers d a (n - 1) z)(n - 1 := add_layers d a (n - 1) z (n - 2) + d)"
    using step(1) by (simp add: add_layers_def range1_last)
  moreover have "a = n - 1 \<or> a < n - 1" using step(1) by auto
  ultimately show ?case using step by (auto simp: algebra_simps)
qed

lemma flex_loop:
  assumes "distinct ks"
  shows "parallel_for ks (\<lambda>k V. V\<lparr>lv_flex_mid := (lv_flex_mid V)(k := 1 / (c1 + 2 * c2 * lv_z_mid V k)),
       lv_flex_up := (lv_flex_up V)(k := 1 / (c1 + 2 * c2 * lv_z_up V k)),
       lv_z_mid := (lv_z_mid V)(k := lv_z_mid V k * (c1 + c2 * lv_z_mid V k)),
       lv_z_up := (lv_z_up V)(k := lv_z_up V k * (c1 + c2 * lv_z_up V k))\<rparr>) V =
    V\<lparr>lv_flex_mid := (\<lambda>k. if k \<in> set ks then 1 / (c1 + 2 * c2 * lv_z_mid V k) else lv_flex_mid V k),
      lv_flex_up := (\<lambda>k. if k \<in> set ks then 1 / (c1 + 2 * c2 * lv_z_up V k) else lv_flex_up V k),
      lv_z_mid := (\<lambda>k. if k \<in> set ks then lv_z_mid V k * (c1 + c2 * lv_z_mid V k) else lv_z_mid V k),
      lv_z_up := (\<lambda>k. if k \<in> set ks then lv_z_up V k * (c1 + c2 * lv_z_up V k) else lv_z_up V k)\<rparr>"
  using assms
proof (induction ks arbitrary: V)
  case Nil
  then show ?case by simp
next
  case (Cons k ks)
  then show ?case by (auto simp: fun_eq_iff)
qed

lemma depth_loop:
  assumes "distinct ks"
  shows "parallel_for ks (\<lambda>k V. V\<lparr>lv_dz_mid := (lv_dz_mid V)(k := lv_z_up V k - lv_z_up V (k - 1)),
       lv_dz_up := (lv_dz_up V)(k := lv_z_mid V (k + 1) - lv_z_mid V k)\<rparr>) V =
    V\<lparr>lv_dz_mid := (\<lambda>k. if k \<in> set ks then lv_z_up V k - lv_z_up V (k - 1) else lv_dz_mid V k),
      lv_dz_up := (\<lambda>k. if k \<in> set ks then lv_z_mid V (k + 1) - lv_z_mid V k else lv_dz_up V k)\<rparr>"
  using assms
proof (induction ks arbitrary: V)
  case Nil
  then show ?case by simp
next
  case (Cons k ks)
  then show ?case by (auto simp: fun_eq_iff)
qed

lemma factor_loop:
  assumes "distinct ks"
  shows "parallel_for ks (\<lambda>k V. V\<lparr>lv_fact1 := (lv_fact1 V)(k := lv_flex_up V k / lv_flex_mid V (k + 1)),
       lv_fact2 := (lv_fact2 V)(k := lv_flex_up V k / lv_flex_mid V k)\<rparr>) V =
    V\<lparr>lv_fact1 := (\<lambda>k. if k \<in> set ks then lv_flex_up V k / lv_flex_mid V (k + 1) else lv_fact1 V k),
      lv_fact2 := (\<lambda>k. if k \<in> set ks then lv_flex_up V k / lv_flex_mid V k else lv_fact2 V k)\<rparr>"
  using assms
proof (induction ks arbitrary: V)
  case Nil
  then show ?case by simp
next
  case (Cons k ks)
  then show ?case by (auto simp: fun_eq_iff)
qed

lemmas level_loops = flex_loop [OF distinct_range1] depth_loop [OF distinct_range1] factor_loop [OF distinct_range1]

lemma stretch_loop_at:
  "stretch_loop c1 c2 a n (f, z) =
    (\<lambda>k. if a \<le> k \<and> k < n then 1 / (c1 + 2 * c2 * z k) else f k, \<lambda>k. if a \<le> k \<and> k < n then z k * (c1 + c2 * z k) else z k)"
proof (induction n rule: range1_induct [where a = a])
  case (empty n)
  then show ?case by (auto simp: stretch_loop_def range1_empty)
next
  case (step n)
  have "stretch_loop c1 c2 a n (f, z) =
      (case stretch_loop c1 c2 a (n - 1) (f, z) of (f, z) \<Rightarrow> (f(n - 1 := 1 / (c1 + 2 * c2 * z (n - 1))), z(n - 1 := z (n - 1) * (c1 + c2 * z (n - 1)))))"
    using step(1) by (simp add: stretch_loop_def range1_last)
  with step show ?case by (auto simp: fun_eq_iff)
qed

section \<open>The quadratic transformation\<close>

definition height :: "real \<Rightarrow> real \<Rightarrow> real \<Rightarrow> real" where
  "height d d1 s = s * (CZ1 d d1 + CZ2 d d1 * s)"

definition slope :: "real \<Rightarrow> real \<Rightarrow> real \<Rightarrow> real" where
  "slope d d1 s = CZ1 d d1 + 2 * CZ2 d d1 * s"

lemma height_difference: "height d d1 (s + e) - height d d1 (s - e) = 2 * e * slope d d1 s"
  by (simp add: height_def slope_def algebra_simps)

lemma slope_mean: "slope d d1 (s + e) + slope d d1 (s - e) = 2 * slope d d1 s"
  by (simp add: slope_def algebra_simps)

lemma lowest_slope:
  assumes "0 < d" and "d < 15000"
  shows "slope d d1 (d / 2) = d1 / d"
proof -
  have "slope d d1 (d / 2) = 1 - CZ2 d d1 * (15000 - d)" by (simp add: slope_def CZ1_def algebra_simps)
  also have "\<dots> = 1 - (d - d1) / d" using assms by (simp add: CZ2_def)
  finally show ?thesis using assms by (simp add: field_simps)
qed

lemma slope_positive:
  assumes "0 < d1" and "d1 \<le> d" and "d < 15000" and "d / 2 \<le> s"
  shows "0 < slope d d1 s"
proof -
  have "0 \<le> CZ2 d d1" using assms by (simp add: CZ2_def)
  then have "slope d d1 (d / 2) \<le> slope d d1 s" using mult_left_mono [OF assms(4), of "2 * CZ2 d d1"] by (simp add: slope_def)
  moreover have "0 < slope d d1 (d / 2)" using assms by (simp add: lowest_slope)
  ultimately show ?thesis by linarith
qed

lemma CZ1_zero:
  assumes "0 < d" and "d < 15000"
  shows "CZ1 d d1 = 0 \<longleftrightarrow> d\<^sup>2 = 15000 * d1"
  using assms by (auto simp: CZ1_def CZ2_def field_simps power2_eq_square)

section \<open>The default coordinate\<close>

lemma half_positions:
  "real_of_int (k - h) * d + 1 / 2 * d + 1 / 2 * d = real_of_int (k - h + 1) * d"
  by (simp add: algebra_simps)

lemma uniform_up: "h - 1 \<le> k \<Longrightarrow> k < n \<Longrightarrow> lv_z_up (uniform_levels h n d V) k = real_of_int (k - h + 1) * d"
  by (auto simp: uniform_levels_def Let_def add_layers_at)

lemma uniform_mid: "h \<le> k \<Longrightarrow> k < n \<Longrightarrow> lv_z_mid (uniform_levels h n d V) k = real_of_int (k - h) * d + d / 2"
  by (auto simp: uniform_levels_def Let_def add_layers_at)

lemma default_levels:
  assumes "L0 = flex_kernel (CZ1 d d1) (CZ2 d d1) h n (uniform_levels h n d V)"
  shows "h - 1 \<le> k \<Longrightarrow> k < n \<Longrightarrow> lv_z_up L0 k = height d d1 (real_of_int (k - h + 1) * d)"
    and "h - 1 \<le> k \<Longrightarrow> k < n \<Longrightarrow> lv_flex_up L0 k = 1 / slope d d1 (real_of_int (k - h + 1) * d)"
    and "h \<le> k \<Longrightarrow> k < n \<Longrightarrow> lv_z_mid L0 k = height d d1 (real_of_int (k - h) * d + d / 2)"
    and "h \<le> k \<Longrightarrow> k < n \<Longrightarrow> lv_flex_mid L0 k = 1 / slope d d1 (real_of_int (k - h) * d + d / 2)"
  unfolding assms flex_kernel_def level_loops
  by (simp_all add: in_range1 uniform_up uniform_mid height_def slope_def)

lemma height_0 [simp]: "height d d1 0 = 0"
  by (simp add: height_def)

lemma lowest_layer:
  assumes "0 < d" and "d < 15000"
  shows "height d d1 d = d1"
  using height_difference [of d d1 "d / 2" "d / 2"] lowest_slope [OF assms, of d1] assms by simp

lemma lowest_half_level:
  assumes "0 < d" and "d < 15000"
  shows "0 < height d d1 (d / 2) \<longleftrightarrow> d * (d - d1) < 2 * d1 * (15000 - d)"
proof -
  have "height d d1 (d / 2) = d / 2 * (slope d d1 (d / 2) - CZ2 d d1 * (d / 2))" by (simp add: height_def slope_def algebra_simps)
  also have "\<dots> = (2 * d1 * (15000 - d) - d * (d - d1)) / (4 * (15000 - d))"
    using assms by (simp add: lowest_slope CZ2_def field_simps)
  finally show ?thesis using assms by (simp add: zero_less_divide_iff)
qed

text \<open>C15. Vertical grid of type default: for every accepted specification with layers below 15 km the heights increase from
  zero, the lowest layer has the requested depth, the coefficients at the half and full levels are positive and exactly the ratio of the
  nominal spacing to the depth they stand for, and the two weights of the vorticity kernels add up to 2.  The lowest
  half level is above the ground, and the coefficient below it exists, only under conditions that the
  specification does not check: at \<open>d\<^sup>2 = 15000 * d1\<close> the coefficient is 1 / 0, zero here and infinite in the code.\<close>

theorem default_grid_is_metric:
  assumes "vertical_ok (vertical (grid_spec g))" and "vtype (vertical (grid_spec g)) = Default"
    and "dz (vertical (grid_spec g)) = Fin d" and "dz1 (vertical (grid_spec g)) = Fin d1" and "d < 15000"
    and "h = get_halo_cells g" and "n = get_local_total_points_z g" and "1 \<le> h" and "h \<le> k" and "k < n - h - 1"
    and "initialize_grid files g V = Inr L"
  shows "lv_z_up L (h - 1) = 0 \<and> lv_z_up L h = d1 \<and> lv_z_up L (k - 1) < lv_z_up L k \<and> lv_z_mid L k < lv_z_mid L (k + 1) \<and>
    0 < lv_flex_mid L k \<and> 0 < lv_flex_up L k \<and> lv_flex_mid L k * lv_dz_mid L k = d \<and> lv_flex_up L k * lv_dz_up L k = d \<and>
    lv_fact1 L k + lv_fact2 L k = 2 \<and>
    (0 < lv_z_mid L h \<longleftrightarrow> d * (d - d1) < 2 * d1 * (15000 - d)) \<and> (lv_flex_up L (h - 1) = 0 \<longleftrightarrow> d\<^sup>2 = 15000 * d1)"
proof -
  have d: "0 < d1" "d1 \<le> d" "0 < d" using assms(1-4) by (auto simp: vertical_ok_def finite_positive_def)
  define L0 where "L0 = flex_kernel (CZ1 d d1) (CZ2 d d1) h n (uniform_levels h n d (V\<lparr>lv_z_up := (lv_z_up V)(h - 1 := 0)\<rparr>))"
  note D = default_levels [OF L0_def]
  have L: "L = flex_factors h n (layer_depths h n L0)"
    using assms(2-4,6,7,11) by (simp add: initialize_grid_def L0_def Let_def)
  have same: "lv_z_up L = lv_z_up L0" "lv_z_mid L = lv_z_mid L0" "lv_flex_up L = lv_flex_up L0" "lv_flex_mid L = lv_flex_mid L0"
    and depth: "lv_dz_mid L k = lv_z_up L0 k - lv_z_up L0 (k - 1)" "lv_dz_up L k = lv_z_mid L0 (k + 1) - lv_z_mid L0 k"
      "lv_fact1 L k = lv_flex_up L0 k / lv_flex_mid L0 (k + 1)" "lv_fact2 L k = lv_flex_up L0 k / lv_flex_mid L0 k"
    unfolding L flex_factors_def layer_depths_def level_loops using assms(9,10) by (simp_all add: in_range1)
  define m where "m = real_of_int (k - h) * d + d / 2"
  have m: "real_of_int (k - 1 - h + 1) * d = m - d / 2" "real_of_int (k - h + 1) * d = m + d / 2"
    "real_of_int (k + 1 - h) * d + d / 2 = m + d / 2 + d / 2" "d / 2 \<le> m"
    using assms(9) d by (simp_all add: m_def algebra_simps)
  note pos = slope_positive [OF d(1,2) assms(5)]
  have s: "0 < slope d d1 m" "0 < slope d d1 (m + d / 2)" "0 < slope d d1 (m + d / 2 + d / 2)" using m(4) d(3) by (auto intro!: pos)
  have k: "h - 1 \<le> k - 1" "k - 1 < n" "h - 1 \<le> k" "k < n" "h \<le> k" "h \<le> k + 1" "k + 1 < n" "h - 1 \<le> h - 1" "h - 1 < n" "h - 1 \<le> h" "h < n" "h \<le> h"
    using assms(8-10) by simp_all
  have up: "lv_z_up L0 k - lv_z_up L0 (k - 1) = d * slope d d1 m"
    using height_difference [of d d1 m "d / 2"] by (simp add: D(1) [OF k(1,2), unfolded m(1)] D(1) [OF k(3,4), unfolded m(2)])
  have mid: "lv_z_mid L0 (k + 1) - lv_z_mid L0 k = d * slope d d1 (m + d / 2)"
    using height_difference [of d d1 "m + d / 2" "d / 2"] by (simp add: D(3) [OF k(6,7), unfolded m(3)] D(3) [OF k(5,4), folded m_def])
  have flex: "lv_flex_mid L0 k = 1 / slope d d1 m" "lv_flex_up L0 k = 1 / slope d d1 (m + d / 2)"
    "lv_flex_mid L0 (k + 1) = 1 / slope d d1 (m + d / 2 + d / 2)"
    using D(4) [OF k(5,4)] D(2) [OF k(3,4)] D(4) [OF k(6,7)] by (simp_all only: m(2,3) m_def [symmetric])
  have "slope d d1 (m + d / 2 + d / 2) + slope d d1 m = 2 * slope d d1 (m + d / 2)"
    using slope_mean [of d d1 "m + d / 2" "d / 2"] by simp
  then have weights: "lv_fact1 L k + lv_fact2 L k = 2"
    using s by (simp add: depth flex add_divide_distrib [symmetric])
  have below: "lv_z_up L0 (h - 1) = 0" "lv_z_up L0 h = d1" "lv_z_mid L0 h = height d d1 (d / 2)" "lv_flex_up L0 (h - 1) = 1 / CZ1 d d1"
    using D(1) [OF k(8,9)] D(1) [OF k(10,11)] D(3) [OF k(12,11)] D(2) [OF k(8,9)] d assms(5) by (simp_all add: lowest_layer slope_def)
  have "lv_z_up L0 (k - 1) < lv_z_up L0 k \<and> lv_z_mid L0 k < lv_z_mid L0 (k + 1)"
    using up mid s d(3) by (metis diff_gt_0_iff_gt mult_pos_pos)
  moreover have "lv_flex_mid L0 k * lv_dz_mid L k = d" "lv_flex_up L0 k * lv_dz_up L k = d" "0 < lv_flex_mid L0 k" "0 < lv_flex_up L0 k"
    using s by (simp_all add: depth up mid flex)
  ultimately show ?thesis
    using weights lowest_half_level [OF d(3) assms(5), of d1] CZ1_zero [OF d(3) assms(5), of d1] unfolding same below by simp
qed

section \<open>The TaiwanVVM coordinate\<close>

lemma move_loop:
  "fold (\<lambda>k (flex, z). (flex(k := flex (k - 1)), z(k := z (k - 1) + d1))) (rev (range1 a n)) (f, z) =
    (\<lambda>k. if a \<le> k \<and> k < n then f (k - 1) else f k, \<lambda>k. if a \<le> k \<and> k < n then z (k - 1) + d1 else z k)" for d1 :: real
proof (induction n arbitrary: f z rule: range1_induct [where a = a])
  case (empty n)
  then show ?case by (auto simp: range1_empty fun_eq_iff)
next
  case (step n)
  have "fold (\<lambda>k (flex, z). (flex(k := flex (k - 1)), z(k := z (k - 1) + d1))) (rev (range1 a n)) (f, z) =
      fold (\<lambda>k (flex, z). (flex(k := flex (k - 1)), z(k := z (k - 1) + d1))) (rev (range1 a (n - 1))) (f(n - 1 := f (n - 2)), z(n - 1 := z (n - 2) + d1))"
    using step(1) by (simp add: range1_last)
  also note step(2)
  also have "(\<lambda>k. if a \<le> k \<and> k < n - 1 then (f(n - 1 := f (n - 2))) (k - 1) else (f(n - 1 := f (n - 2))) k,
      \<lambda>k. if a \<le> k \<and> k < n - 1 then (z(n - 1 := z (n - 2) + d1)) (k - 1) + d1 else (z(n - 1 := z (n - 2) + d1)) k) =
    (\<lambda>k. if a \<le> k \<and> k < n then f (k - 1) else f k, \<lambda>k. if a \<le> k \<and> k < n then z (k - 1) + d1 else z k)"
    using step(1) by (auto simp: fun_eq_iff)
  finally show ?case .
qed

lemma insert_layer_at:
  "insert_layer d d1 n kc (f, z) =
    (\<lambda>k. if k < kc \<or> n \<le> k then f k else if k = kc then d / d1 else f (k - 1),
     \<lambda>k. if k < kc \<or> n \<le> k then z k else z (k - 1) + d1)"
  unfolding insert_layer_def move_loop Let_def by (auto simp: fun_eq_iff)

lemma insert_layers:
  assumes "a \<le> e"
  shows "fold (\<lambda>K. insert_layer d d1 n (K + c)) (range1 a e) (f, z) =
    (\<lambda>k. if k < a + c \<or> n \<le> k then f k else if k < e + c then d / d1 else f (k - (e - a)),
     \<lambda>k. if k < a + c \<or> n \<le> k then z k else if k < e + c then z (a + c - 1) + real_of_int (k - (a + c) + 1) * d1
       else z (k - (e - a)) + real_of_int (e - a) * d1)"
  using assms
proof (induction e rule: range1_induct [where a = a])
  case (empty e)
  then show ?case by (auto simp: range1_empty fun_eq_iff)
next
  case (step e)
  then have "fold (\<lambda>K. insert_layer d d1 n (K + c)) (range1 a e) (f, z) = insert_layer d d1 n (e - 1 + c)
    (\<lambda>k. if k < a + c \<or> n \<le> k then f k else if k < e - 1 + c then d / d1 else f (k - (e - 1 - a)),
     \<lambda>k. if k < a + c \<or> n \<le> k then z k else if k < e - 1 + c then z (a + c - 1) + real_of_int (k - (a + c) + 1) * d1
       else z (k - (e - 1 - a)) + real_of_int (e - 1 - a) * d1)"
    by (simp add: range1_last)
  also have "\<dots> = (\<lambda>k. if k < a + c \<or> n \<le> k then f k else if k < e + c then d / d1 else f (k - (e - a)),
     \<lambda>k. if k < a + c \<or> n \<le> k then z k else if k < e + c then z (a + c - 1) + real_of_int (k - (a + c) + 1) * d1
       else z (k - (e - a)) + real_of_int (e - a) * d1)"
  proof -
    have shift: "k - 1 - (e - 1 - a) = k - (e - a)" for k by simp
    have one: "k = a + c" if "k < 1 + (a + c)" "\<not> k + 1 < c + e" for k using step(1) that by simp
    then show ?thesis unfolding insert_layer_at using step(1)
      by (auto simp: fun_eq_iff shift algebra_simps dest!: one)
  qed
  finally show ?case .
qed

text \<open>The levels of \<open>taiwan_levels\<close> in closed form, with \<open>m\<close> layers inserted.\<close>

lemma taiwan_closed_form:
  assumes "L0 = taiwan_levels h n d d1 V" and "1 \<le> h" and "h + 1 < n"
    and "m = lowest_half_layers d d1 h n (snd (stretch_loop (CZ1 d d1) (CZ2 d d1) (h - 1) n (lv_flex_up (uniform_levels h n d V), lv_z_up (uniform_levels h n d V)))) - 2"
    and "0 \<le> m"
  shows "h - 1 \<le> k \<Longrightarrow> k < n \<Longrightarrow> lv_z_up L0 k =
      (if k < h + m then real_of_int (k - h + 1) * d1 else height d d1 (real_of_int (k - m - h + 1) * d) + real_of_int m * d1)"
    and "h \<le> k \<Longrightarrow> k < n \<Longrightarrow> lv_z_mid L0 k =
      (if k < h + m + 1 then d1 / 2 + real_of_int (k - h) * d1
       else height d d1 (real_of_int (k - m - h) * d + d / 2) + real_of_int m * d1)"
    and "h \<le> k \<Longrightarrow> k < n \<Longrightarrow> lv_flex_mid L0 k =
      (if k < h + m + 1 then d / d1 else 1 / slope d d1 (real_of_int (k - m - h) * d + d / 2))"
    and "h \<le> k \<Longrightarrow> k + 1 < n \<Longrightarrow> lv_flex_up L0 k =
      (if k < h + m then d / d1 else if k = h + m + 1 then d / (lv_z_mid L0 (k + 1) - lv_z_mid L0 k)
       else 1 / slope d d1 (real_of_int (k - m - h + 1) * d))"
proof -
  let ?U = "uniform_levels h n d V"
  define up1 where "up1 = (\<lambda>k. if h - 1 \<le> k \<and> k < n then lv_z_up ?U k * (CZ1 d d1 + CZ2 d d1 * lv_z_up ?U k) else lv_z_up ?U k)"
  define fu1 where "fu1 = (\<lambda>k. if h - 1 \<le> k \<and> k < n then 1 / (CZ1 d d1 + 2 * CZ2 d d1 * lv_z_up ?U k) else lv_flex_up ?U k)"
  define mid1 where "mid1 = (\<lambda>k. if h - 1 \<le> k \<and> k < n then lv_z_mid ?U k * (CZ1 d d1 + CZ2 d d1 * lv_z_mid ?U k) else lv_z_mid ?U k)"
  define fm1 where "fm1 = (\<lambda>k. if h - 1 \<le> k \<and> k < n then 1 / (CZ1 d d1 + 2 * CZ2 d d1 * lv_z_mid ?U k) else lv_flex_mid ?U k)"
  have KT1: "lowest_half_layers d d1 h n up1 = m + 2" unfolding assms(4) stretch_loop_at up1_def by simp
  have st: "stretch_loop (CZ1 d d1) (CZ2 d d1) (h - 1) n (lv_flex_up ?U, lv_z_up ?U) = (fu1, up1)"
    "stretch_loop (CZ1 d d1) (CZ2 d d1) (h - 1) n (lv_flex_mid ?U, lv_z_mid ?U) = (fm1, mid1)"
    unfolding stretch_loop_at fu1_def up1_def fm1_def mid1_def by (rule refl)+
  have e: "2 \<le> m + 2" "3 \<le> m + 2 + 1" using assms(5) by simp_all
  note ins = insert_layers [OF e(1), where c = "h - 2"] insert_layers [OF e(2), where c = "h - 2"]
  have conv: "(\<lambda>K. insert_layer d d1 n (K + h - 2)) = (\<lambda>K. insert_layer d d1 n (K + (h - 2)))" by (simp add: algebra_simps)
  have idx: "2 + (h - 2) = h" "3 + (h - 2) = h + 1" "m + 2 + (h - 2) = h + m" "m + 2 + 1 + (h - 2) = h + m + 1" "m + 2 - 2 = m" "m + 2 + 1 - 3 = m"
    "h + 1 - 1 = h" "m + 2 + 1 + h - 2 = h + m + 1" "m + 2 + 2 + h - 2 = h + m + 2"
    by simp_all
  define up0 where "up0 = up1(h - 1 := 0)"
  define mid0 where "mid0 = mid1(h - 1 := 0, h := d1 / 2)"
  define fu0 where "fu0 = fu1(h - 1 := d / d1)"
  define fm0 where "fm0 = fm1(h - 1 := d / d1, h := d / d1)"
  define up2 where "up2 = (\<lambda>k. if k < h \<or> n \<le> k then up0 k else if k < h + m then up0 (h - 1) + real_of_int (k - h + 1) * d1
       else up0 (k - m) + real_of_int m * d1)"
  define mid2 where "mid2 = (\<lambda>k. if k < h + 1 \<or> n \<le> k then mid0 k else if k < h + m + 1 then mid0 h + real_of_int (k - (h + 1) + 1) * d1
       else mid0 (k - m) + real_of_int m * d1)"
  define fu2 where "fu2 = (\<lambda>k. if k < h \<or> n \<le> k then fu0 k else if k < h + m then d / d1 else fu0 (k - m))"
  define fm2 where "fm2 = (\<lambda>k. if k < h + 1 \<or> n \<le> k then fm0 k else if k < h + m + 1 then d / d1 else fm0 (k - m))"
  have ins': "fold (\<lambda>K. insert_layer d d1 n (K + (h - 2))) (range1 2 (m + 2)) (fu0, up0) = (fu2, up2)"
    "fold (\<lambda>K. insert_layer d d1 n (K + (h - 2))) (range1 3 (m + 2 + 1)) (fm0, mid0) = (fm2, mid2)"
    unfolding ins [unfolded idx] fu2_def up2_def fm2_def mid2_def by (rule refl)+
  have "up2 (h - 1) = 0" by (simp add: up2_def up0_def)
  then have L: "L0 = ?U\<lparr>lv_z_up := up2, lv_z_mid := mid2,
      lv_flex_up := (if h + m + 1 < n \<and> h + m + 2 < n then fu2(h + m + 1 := d / (mid2 (h + m + 2) - mid2 (h + m + 1))) else fu2),
      lv_flex_mid := fm2\<rparr>"
    unfolding assms(1) taiwan_levels_def Let_def conv
    by (simp only: st split_conv KT1 up0_def [symmetric] fu0_def [symmetric] ins' add_0 mid0_def [symmetric] fm0_def [symmetric] idx)
  have up_at: "up1 k = height d d1 (real_of_int (k - h + 1) * d) \<and> fu1 k = 1 / slope d d1 (real_of_int (k - h + 1) * d)" if "h - 1 \<le> k" "k < n" for k
    using that by (simp add: up1_def fu1_def uniform_up height_def slope_def)
  have mid_at: "mid1 k = height d d1 (real_of_int (k - h) * d + d / 2) \<and> fm1 k = 1 / slope d d1 (real_of_int (k - h) * d + d / 2)" if "h \<le> k" "k < n" for k
    using that by (simp add: mid1_def fm1_def uniform_mid height_def slope_def)
  show "h - 1 \<le> k \<Longrightarrow> k < n \<Longrightarrow> lv_z_up L0 k =
      (if k < h + m then real_of_int (k - h + 1) * d1 else height d d1 (real_of_int (k - m - h + 1) * d) + real_of_int m * d1)"
    using assms(2,5) up_at [of "k - m"] by (auto simp: L up2_def up0_def le_less)
  show "h \<le> k \<Longrightarrow> k < n \<Longrightarrow> lv_z_mid L0 k =
      (if k < h + m + 1 then d1 / 2 + real_of_int (k - h) * d1
       else height d d1 (real_of_int (k - m - h) * d + d / 2) + real_of_int m * d1)"
    using assms(2,5) mid_at [of "k - m"] by (auto simp: L mid2_def mid0_def)
  show "h \<le> k \<Longrightarrow> k < n \<Longrightarrow> lv_flex_mid L0 k =
      (if k < h + m + 1 then d / d1 else 1 / slope d d1 (real_of_int (k - m - h) * d + d / 2))"
    using assms(2,5) mid_at [of "k - m"] by (auto simp: L fm2_def fm0_def)
  show "h \<le> k \<Longrightarrow> k + 1 < n \<Longrightarrow> lv_flex_up L0 k =
      (if k < h + m then d / d1 else if k = h + m + 1 then d / (lv_z_mid L0 (k + 1) - lv_z_mid L0 k)
       else 1 / slope d d1 (real_of_int (k - m - h + 1) * d))"
    using assms(2,5) up_at [of "k - m"] by (auto simp: L fu2_def fu0_def algebra_simps)
qed

lemma half_level_off:
  assumes "0 < d" and "d1 < d" and "d < 15000"
  shows "height d d1 (d / 2) \<noteq> d1 / 2"
proof -
  have "0 < CZ2 d d1" using assms by (simp add: CZ2_def)
  moreover have "height d d1 (d / 2) = d / 2 * (slope d d1 (d / 2) - CZ2 d d1 * (d / 2))" by (simp add: height_def slope_def algebra_simps)
  then have "height d d1 (d / 2) = d1 / 2 - CZ2 d d1 * (d / 2) * (d / 2)" using assms by (simp add: lowest_slope right_diff_distrib)
  ultimately show ?thesis using assms by simp
qed

lemma taiwan_half_levels:
  assumes "L0 = taiwan_levels h n d d1 V" and "1 \<le> h" and "h \<le> k" and "k + 1 < n" and "0 < d1" and "d1 < d" and "d < 15000"
    and "m = lowest_half_layers d d1 h n (snd (stretch_loop (CZ1 d d1) (CZ2 d d1) (h - 1) n (lv_flex_up (uniform_levels h n d V), lv_z_up (uniform_levels h n d V)))) - 2"
    and "0 \<le> m"
  shows "lv_flex_mid L0 k * (lv_z_up L0 k - lv_z_up L0 (k - 1)) = d"
proof -
  have b: "h + 1 < n" using assms(3,4) by simp
  note T = taiwan_closed_form [OF assms(1,2) b assms(8,9)]
  have k: "h - 1 \<le> k" "k < n" "h - 1 \<le> k - 1" "k - 1 < n" "h \<le> k + 1" "k + 1 < n" using assms(2-4) by simp_all
  define s where "s = real_of_int (k - m - h) * d + d / 2"
  have s: "real_of_int (k - m - h + 1) * d = s + d / 2" "real_of_int (k - 1 - m - h + 1) * d = s - d / 2"
    "real_of_int (k + 1 - m - h) * d + d / 2 = s + d / 2 + d / 2"
    by (simp_all add: s_def algebra_simps)
  have d: "0 < d" "d1 \<le> d" using assms(5,6) by simp_all
  have pos: "0 < slope d d1 t" if "d / 2 \<le> t" for t by (rule slope_positive [OF assms(5) d(2) assms(7) that])
  note up = T(1) [OF k(1,2), unfolded s] T(1) [OF k(3,4), unfolded s]
  note flex = T(3) [OF assms(3) k(2), folded s_def]
  show ?thesis
  proof (cases "k \<le> h + m")
    case True
    have "lv_z_up L0 k - lv_z_up L0 (k - 1) = d1"
    proof (cases "k = h + m")
      case True
      with T(1) [OF k(1,2)] T(1) [OF k(3,4)] lowest_layer [OF d(1) assms(7)] show ?thesis by simp
    next
      case False
      with True T(1) [OF k(1,2)] T(1) [OF k(3,4)] show ?thesis by (simp add: algebra_simps)
    qed
    with True flex assms(5) show ?thesis by simp
  next
    case False
    then have "d / 2 \<le> s" using d(1) by (simp add: s_def)
    with False up flex pos [of s] height_difference [of d d1 s "d / 2"] show ?thesis by simp
  qed
qed

lemma taiwan_full_levels:
  assumes "L0 = taiwan_levels h n d d1 V" and "1 \<le> h" and "h \<le> k" and "k + 1 < n" and "0 < d1" and "d1 < d" and "d < 15000"
    and "m = lowest_half_layers d d1 h n (snd (stretch_loop (CZ1 d d1) (CZ2 d d1) (h - 1) n (lv_flex_up (uniform_levels h n d V), lv_z_up (uniform_levels h n d V)))) - 2"
    and "0 \<le> m"
  shows "lv_flex_up L0 k * (lv_z_mid L0 (k + 1) - lv_z_mid L0 k) = d \<longleftrightarrow> k \<noteq> h + m"
proof -
  have b: "h + 1 < n" using assms(3,4) by simp
  note T = taiwan_closed_form [OF assms(1,2) b assms(8,9)]
  have k: "h - 1 \<le> k" "k < n" "h - 1 \<le> k - 1" "k - 1 < n" "h \<le> k + 1" "k + 1 < n" using assms(2-4) by simp_all
  define s where "s = real_of_int (k - m - h) * d + d / 2"
  have s: "real_of_int (k - m - h + 1) * d = s + d / 2" "real_of_int (k - 1 - m - h + 1) * d = s - d / 2"
    "real_of_int (k + 1 - m - h) * d + d / 2 = s + d / 2 + d / 2"
    by (simp_all add: s_def algebra_simps)
  have d: "0 < d" "d1 \<le> d" using assms(5,6) by simp_all
  have pos: "0 < slope d d1 t" if "d / 2 \<le> t" for t by (rule slope_positive [OF assms(5) d(2) assms(7) that])
  note mid = T(2) [OF assms(3) k(2), folded s_def] T(2) [OF k(5,6), unfolded s]
  note flex = T(4) [OF assms(3) k(6), unfolded s]
  consider "k < h + m" | "k = h + m" | "h + m < k" by linarith
  then show ?thesis
  proof cases
    case 1
    then have "lv_z_mid L0 (k + 1) - lv_z_mid L0 k = d1"
      using T(2) [OF k(5,6)] T(2) [OF assms(3) k(2)] by (simp add: algebra_simps)
    with 1 flex assms(5) show ?thesis by simp
  next
    case 2
    then have s2: "s = d / 2" by (simp add: s_def)
    have "height d d1 (d / 2 + d / 2 + d / 2) - d1 / 2 \<noteq> d * slope d d1 (d / 2 + d / 2)"
      using height_difference [of d d1 "d / 2 + d / 2" "d / 2"] half_level_off [OF d(1) assms(6,7)] by simp
    moreover have "0 < slope d d1 (d / 2 + d / 2)" using d by (intro pos) simp
    moreover have "lv_flex_up L0 k = 1 / slope d d1 (d / 2 + d / 2)" using flex 2 s2 by simp
    moreover have "lv_z_mid L0 (k + 1) - lv_z_mid L0 k = height d d1 (d / 2 + d / 2 + d / 2) - d1 / 2"
      using T(2) [OF assms(3) k(2)] mid(2) 2 s2 by simp
    ultimately show ?thesis using 2 by (simp add: divide_eq_eq mult.commute)
  next
    case 3
    then have "d / 2 \<le> s" using d(1) by (simp add: s_def)
    then have p: "0 < slope d d1 (s + d / 2)" using d by (intro pos) simp
    have diff: "lv_z_mid L0 (k + 1) - lv_z_mid L0 k = d * slope d d1 (s + d / 2)"
      using mid 3 height_difference [of d d1 "s + d / 2" "d / 2"] by simp
    show ?thesis using flex 3 p d(1) unfolding diff by simp
  qed
qed

text \<open>C18. Vertical grid of type taiwanvvm: at every level the coefficient of the half level is exactly the ratio of the nominal
  spacing to the depth of the layer, and that of the full level everywhere except at the top of the inserted
  layers: the code corrects the coefficient of the level above that one.\<close>

theorem taiwan_grid_misses_junction:
  assumes "vertical_ok (vertical (grid_spec g))" and "vtype (vertical (grid_spec g)) = TaiwanVVM"
    and "dz (vertical (grid_spec g)) = Fin d" and "dz1 (vertical (grid_spec g)) = Fin d1" and "d < 15000"
    and "h = get_halo_cells g" and "n = get_local_total_points_z g" and "1 \<le> h" and "h \<le> k" and "k < n - h"
    and "U = uniform_levels h n d (V\<lparr>lv_z_up := (lv_z_up V)(h - 1 := 0)\<rparr>)"
    and "KT1 = lowest_half_layers d d1 h n (snd (stretch_loop (CZ1 d d1) (CZ2 d d1) (h - 1) n (lv_flex_up U, lv_z_up U)))" and "2 \<le> KT1"
    and "initialize_grid files g V = Inr L"
  shows "lv_flex_mid L k * lv_dz_mid L k = d \<and> (lv_flex_up L k * lv_dz_up L k = d \<longleftrightarrow> k \<noteq> KT1 + h - 2)"
proof -
  have d: "0 < d1" "d1 < d" using assms(1-4) by (auto simp: vertical_ok_def finite_positive_def)
  define L0 where "L0 = taiwan_levels h n d d1 (V\<lparr>lv_z_up := (lv_z_up V)(h - 1 := 0)\<rparr>)"
  define m where "m = KT1 - 2"
  have L: "L = flex_factors h n (layer_depths h n L0)"
    using assms(2-4,6,7,14) by (simp add: initialize_grid_def L0_def Let_def)
  have same: "lv_flex_up L = lv_flex_up L0" "lv_flex_mid L = lv_flex_mid L0"
    and depth: "lv_dz_mid L k = lv_z_up L0 k - lv_z_up L0 (k - 1)" "lv_dz_up L k = lv_z_mid L0 (k + 1) - lv_z_mid L0 k"
    unfolding L flex_factors_def layer_depths_def level_loops using assms(9,10) by (simp_all add: in_range1)
  have b: "k + 1 < n" "0 \<le> m" using assms(8-10,13) by (simp_all add: m_def)
  note m = m_def [unfolded assms(12) assms(11)]
  from taiwan_half_levels [OF L0_def assms(8,9) b(1) d assms(5) m b(2)] taiwan_full_levels [OF L0_def assms(8,9) b(1) d assms(5) m b(2)]
  show ?thesis unfolding same depth by (simp add: m_def algebra_simps)
qed

section \<open>Parameters\<close>

datatype parameter_error = Parameter_config_error config_error | Must_be_finite_positive string

record physical_constants =
  c_gravity :: fp
  c_Rd :: fp
  c_P0 :: fp
  c_Cp :: fp
  c_dt :: fp

text \<open>The constructor of \<open>Parameters\<close>; \<open>nominal\<close> is \<open>apply_nominal_horizontal_metric\<close>, which is called on mapped grids only, and
  \<open>ub\<close> the terrain index that it does not set.  The spacings must pass \<open>require_finite_positive\<close> before they are inverted.\<close>

definition make_parameters ::
  "json \<Rightarrow> grid \<Rightarrow> (fp \<times> fp \<Rightarrow> fp \<times> fp) \<Rightarrow> int \<Rightarrow> parameter_error + physical_constants \<times> parameters" where
  "make_parameters config g nominal ub =
     (let hor = geometry (horizontal (grid_spec g));
          real = (\<lambda>key. map_error Parameter_config_error (get_value as_double config key));
          require = (\<lambda>x key. throw_if (\<not> finite_positive x) (Must_be_finite_positive key))
      in rbind (real ''constants.gravity'') (\<lambda>gravity.
         rbind (real ''constants.Rd'') (\<lambda>Rd.
         rbind (real ''constants.P0'') (\<lambda>P0.
         rbind (real ''constants.Cp'') (\<lambda>Cp.
         let dxy = (if kind hor \<noteq> Cartesian then nominal (dq1 hor, dq2 hor) else (dq1 hor, dq2 hor)); dx = fst dxy; dy = snd dxy;
             d = dz (vertical (grid_spec g))
         in rbind (real ''simulation.dt_s'') (\<lambda>dt.
         rbind (require dx ''grid.dx'') (\<lambda>_. rbind (require dy ''grid.dy'') (\<lambda>_.
         rbind (require d ''grid.dz'') (\<lambda>_. rbind (require dt ''simulation.dt_s'') (\<lambda>_.
         rbind (real ''dynamics.solver.WRXMU'') (\<lambda>wrxmu.
         rbind (map_error Parameter_config_error (get_value as_int config ''dynamics.solver.iteration'')) (\<lambda>it.
         Inr (\<lparr>c_gravity = gravity, c_Rd = Rd, c_P0 = P0, c_Cp = Cp, c_dt = dt\<rparr>,
           \<lparr>p_rdx = 1 / fval dx, p_rdy = 1 / fval dy, p_rdz = 1 / fval d, p_rdx2 = 1 / (fval dx * fval dx),
             p_rdy2 = 1 / (fval dy * fval dy), p_rdz2 = 1 / (fval d * fval d), p_dz = fval d, p_WRXMU = fval wrxmu,
             p_solver_iteration = it, p_max_topo_idx = ub, p_flex_mid = (\<lambda>_. 0), p_flex_up = (\<lambda>_. 0),
             p_AGAU = (\<lambda>_. 0), p_BGAU = (\<lambda>_. 0), p_CGAU = (\<lambda>_. 0), p_bn_new = (\<lambda>_. 0), p_cn_new = (\<lambda>_. 0)\<rparr>)))))))))))))"

definition with_levels :: "vertical_levels \<Rightarrow> parameters \<Rightarrow> parameters" where
  "with_levels L P = P\<lparr>p_flex_mid := lv_flex_mid L, p_flex_up := lv_flex_up L\<rparr>"

lemma make_parametersD:
  assumes "make_parameters config g nominal ub = Inr (C, P)"
  shows "\<exists>dx dy d. 0 < dx \<and> 0 < dy \<and> 0 < d \<and> p_rdx P = 1 / dx \<and> p_rdy P = 1 / dy \<and> p_rdz P = 1 / d \<and>
    p_rdx2 P = 1 / (dx * dx) \<and> p_rdy2 P = 1 / (dy * dy) \<and> p_rdz2 P = 1 / (d * d) \<and> p_dz P = d \<and>
    dz (vertical (grid_spec g)) = Fin d \<and> finite_positive (c_dt C)"
  using assms
  by (auto simp: make_parameters_def Let_def rbind_eq_Inr_iff finite_positive_def split del: if_split)

text \<open>C16. Start-up on a grid of type default: when the parameters are accepted and the height at which the coefficient
  below the lowest half level has its pole is not the surface, the spacings and coefficients satisfy what the recovery of the wind and the diagnosis
  of the vorticity assume of them.\<close>

theorem start_up_readies_wind_solver:
  assumes "vertical_ok (vertical (grid_spec g))" and "vtype (vertical (grid_spec g)) = Default"
    and "make_parameters config g nominal ub = Inr (C, P)" and "dz (vertical (grid_spec g)) = Fin d" and "dz1 (vertical (grid_spec g)) = Fin d1"
    and "d < 15000" and "d\<^sup>2 \<noteq> 15000 * d1" and "initialize_grid files g V = Inr L" and "1 \<le> get_halo_cells g"
    and "get_halo_cells g - 1 \<le> k" and "k < get_local_total_points_z g"
  shows "spacing_ok (with_levels L P) \<and> 0 < p_rdx (with_levels L P) \<and> 0 < p_rdy (with_levels L P) \<and>
    p_flex_up (with_levels L P) k \<noteq> 0 \<and> (get_halo_cells g \<le> k \<longrightarrow> 0 < p_flex_up (with_levels L P) k \<and> 0 < p_flex_mid (with_levels L P) k) \<and>
    (0 \<le> p_WRXMU P \<longrightarrow> 0 < column_weight (with_levels L P))"
proof -
  let ?h = "get_halo_cells g" and ?n = "get_local_total_points_z g"
  have d: "0 < d1" "d1 \<le> d" "0 < d" using assms(1,2,4,5) by (auto simp: vertical_ok_def finite_positive_def)
  define L0 where "L0 = flex_kernel (CZ1 d d1) (CZ2 d d1) ?h ?n (uniform_levels ?h ?n d (V\<lparr>lv_z_up := (lv_z_up V)(?h - 1 := 0)\<rparr>))"
  note D = default_levels [OF L0_def]
  have L: "L = flex_factors ?h ?n (layer_depths ?h ?n L0)"
    using assms(2,4,5,8) by (simp add: initialize_grid_def L0_def Let_def)
  have same: "lv_flex_up L = lv_flex_up L0" "lv_flex_mid L = lv_flex_mid L0"
    unfolding L flex_factors_def layer_depths_def level_loops by simp_all
  have pos: "0 < lv_flex_up L0 k \<and> 0 < lv_flex_mid L0 k" if "?h \<le> k"
  proof -
    have "d / 2 \<le> real_of_int (k - ?h + 1) * d" "d / 2 \<le> real_of_int (k - ?h) * d + d / 2"
      using that d(3) by (simp_all add: distrib_right)
    then show ?thesis using D(2) [OF assms(10,11)] D(4) [OF that assms(11)] slope_positive [OF d(1,2) assms(6)] by simp
  qed
  moreover have "lv_flex_up L0 k \<noteq> 0"
  proof (cases "?h \<le> k")
    case False
    then have "k = ?h - 1" using assms(10) by simp
    then have "lv_flex_up L0 k = 1 / CZ1 d d1" using D(2) [OF assms(10,11)] by (simp add: slope_def)
    then show ?thesis using CZ1_zero [OF d(3) assms(6), of d1] assms(7) by simp
  qed (use pos in simp)
  moreover obtain dx dy where "0 < dx" "0 < dy" "p_rdx P = 1 / dx" "p_rdy P = 1 / dy" "p_rdz P = 1 / d"
    "p_rdx2 P = 1 / (dx * dx)" "p_rdy2 P = 1 / (dy * dy)" "p_rdz2 P = 1 / (d * d)" "p_dz P = d"
    using make_parametersD [OF assms(3)] assms(4) by auto
  ultimately show ?thesis using d by (simp add: with_levels_def same spacing_ok_def column_weight_def add_nonneg_pos)
qed

section \<open>Witnesses\<close>

definition vertical_grid :: "vertical_coordinate_type \<Rightarrow> real \<Rightarrow> real \<Rightarrow> int \<Rightarrow> grid" where
  "vertical_grid t d d1 n =
     (let g = small_grid; s = grid_spec g in
      g\<lparr>dim_z := (dim_z g)\<lparr>local_physical_size := n\<rparr>,
        grid_spec := s\<lparr>horizontal := (horizontal s)\<lparr>geometry := default_geometry\<lparr>dq1 := Fin 100, dq2 := Fin 100\<rparr>\<rparr>,
          vertical := (vertical s)\<lparr>nz := n, dz := Fin d, dz1 := Fin d1, vtype := t\<rparr>\<rparr>\<rparr>)"

lemma vertical_grid_sizes:
  "get_halo_cells (vertical_grid t d d1 n) = 2" "get_local_total_points_z (vertical_grid t d d1 n) = n + 4"
  "vtype (vertical (grid_spec (vertical_grid t d d1 n))) = t" "dz (vertical (grid_spec (vertical_grid t d d1 n))) = Fin d"
  "dz1 (vertical (grid_spec (vertical_grid t d d1 n))) = Fin d1" "nz (vertical (grid_spec (vertical_grid t d d1 n))) = n"
  by (simp_all add: vertical_grid_def Let_def sample_grid_def initial_dimension_def distributed_def distribute_y_def distribute_x_def
      full_axis_def get_halo_cells_def get_local_total_points_z_def axis_simps)

definition no_levels :: vertical_levels where
  "no_levels = \<lparr>lv_z_mid = (\<lambda>_. 0), lv_z_up = (\<lambda>_. 0), lv_flex_mid = (\<lambda>_. 0), lv_flex_up = (\<lambda>_. 0), lv_dz_mid = (\<lambda>_. 0),
     lv_dz_up = (\<lambda>_. 0), lv_fact1 = (\<lambda>_. 0), lv_fact2 = (\<lambda>_. 0)\<rparr>"

lemma initialize_grid_total:
  "vtype (vertical (grid_spec g)) \<noteq> RCEMIP \<Longrightarrow> \<exists>L. initialize_grid files g V = Inr L"
  by (cases "vtype (vertical (grid_spec g))") (simp_all add: initialize_grid_def Let_def)

lemma default_grid_is_metric_witness:
  "\<exists>L. initialize_grid (\<lambda>_. None) (vertical_grid Default 500 100 30) no_levels = Inr L \<and> lv_z_up L 2 = 100 \<and>
    lv_flex_up L 7 * lv_dz_up L 7 = 500 \<and> lv_fact1 L 7 + lv_fact2 L 7 = 2"
proof -
  have ok: "vertical_ok (vertical (grid_spec (vertical_grid Default 500 100 30)))"
    by (simp add: vertical_ok_def vertical_grid_sizes finite_positive_def fp_le.simps)
  obtain L where L: "initialize_grid (\<lambda>_. None) (vertical_grid Default 500 100 30) no_levels = Inr L"
    using initialize_grid_total [of "vertical_grid Default 500 100 30"] by (auto simp: vertical_grid_sizes)
  show ?thesis using L default_grid_is_metric [where d = 500 and ?d1.0 = 100 and k = 7, OF ok _ _ _ _ refl refl _ _ _ L]
    by (simp add: vertical_grid_sizes)
qed

lemma taiwan_inserted:
  "lowest_half_layers 1000 250 2 24 (snd (stretch_loop (CZ1 1000 250) (CZ2 1000 250) 1 24
     (lv_flex_up (uniform_levels 2 24 1000 V), lv_z_up (uniform_levels 2 24 1000 V)))) = 13"
proof -
  have "truncate_real ((1 - CZ1 1000 250) / CZ2 1000 250 / 2 / 1000) = 7"
    by (simp add: CZ1_def CZ2_def truncate_real_def floor_eq_iff)
  then show ?thesis
    by (simp add: lowest_half_layers_def stretch_loop_at uniform_up CZ1_def CZ2_def truncate_real_def floor_eq_iff)
qed

lemma taiwan_grid_misses_junction_witness:
  "\<exists>L. initialize_grid (\<lambda>_. None) (vertical_grid TaiwanVVM 1000 250 20) no_levels = Inr L \<and>
    lv_flex_up L 12 * lv_dz_up L 12 = 1000 \<and> lv_flex_up L 13 * lv_dz_up L 13 \<noteq> 1000"
proof -
  let ?g = "vertical_grid TaiwanVVM 1000 250 20"
  have ok: "vertical_ok (vertical (grid_spec ?g))"
    by (simp add: vertical_ok_def vertical_grid_sizes finite_positive_def fp_le.simps)
  obtain L where L: "initialize_grid (\<lambda>_. None) ?g no_levels = Inr L"
    using initialize_grid_total [of ?g] by (auto simp: vertical_grid_sizes)
  have "lv_flex_up L k * lv_dz_up L k = 1000 \<longleftrightarrow> k \<noteq> 13" if "2 \<le> k" "k < 22" for k
    using taiwan_grid_misses_junction [where d = 1000 and ?d1.0 = 250 and h = 2 and n = 24 and k = k, OF ok _ _ _ _ _ _ _ _ _ refl refl _ L] that
    by (simp add: vertical_grid_sizes taiwan_inserted)
  from this [of 12] this [of 13] L show ?thesis by auto
qed

definition sample_constants :: json where
  "sample_constants = JObject [(''constants'', JObject [(''gravity'', JInt 10), (''Rd'', JInt 287), (''P0'', JInt 100000), (''Cp'', JInt 1004)]),
     (''simulation'', JObject [(''dt_s'', JInt 10)]),
     (''dynamics'', JObject [(''solver'', JObject [(''WRXMU'', JInt 0), (''iteration'', JInt 20)])])]"

lemma start_up_readies_wind_solver_witness:
  "\<exists>C P L. make_parameters sample_constants (vertical_grid Default 500 100 30) id 2 = Inr (C, P) \<and>
    initialize_grid (\<lambda>_. None) (vertical_grid Default 500 100 30) no_levels = Inr L \<and>
    spacing_ok (with_levels L P) \<and> p_flex_up (with_levels L P) 1 \<noteq> 0 \<and> 0 < column_weight (with_levels L P)"
proof -
  let ?g = "vertical_grid Default 500 100 30"
  have ok: "vertical_ok (vertical (grid_spec ?g))"
    by (simp add: vertical_ok_def vertical_grid_sizes finite_positive_def fp_le.simps)
  obtain L where L: "initialize_grid (\<lambda>_. None) ?g no_levels = Inr L"
    using initialize_grid_total [of ?g] by (auto simp: vertical_grid_sizes)
  have "find_node sample_constants ''constants.gravity'' = Some (JInt 10)" "find_node sample_constants ''constants.Rd'' = Some (JInt 287)"
    "find_node sample_constants ''constants.P0'' = Some (JInt 100000)" "find_node sample_constants ''constants.Cp'' = Some (JInt 1004)"
    "find_node sample_constants ''simulation.dt_s'' = Some (JInt 10)" "find_node sample_constants ''dynamics.solver.WRXMU'' = Some (JInt 0)"
    "find_node sample_constants ''dynamics.solver.iteration'' = Some (JInt 20)"
    by code_simp+
  moreover have "\<exists>a b. dq1 (geometry (horizontal (grid_spec ?g))) = Fin a \<and> 0 < a \<and> dq2 (geometry (horizontal (grid_spec ?g))) = Fin b \<and> 0 < b \<and>
      kind (geometry (horizontal (grid_spec ?g))) = Cartesian"
    by (simp add: vertical_grid_def Let_def sample_grid_def default_geometry_def distributed_def)
  ultimately obtain C P where P: "make_parameters sample_constants ?g id 2 = Inr (C, P)" "p_WRXMU P = 0"
    by (auto simp: make_parameters_def Let_def get_value_def vertical_grid_sizes finite_positive_def)
  show ?thesis
    using start_up_readies_wind_solver [where d = 500 and ?d1.0 = 100 and k = 1, OF ok _ P(1) _ _ _ _ L] P L
    by (auto simp: vertical_grid_sizes)
qed

end
